(* ===== verification/PyBase.thy ===== *)
theory PyBase
  imports Main "HOL-Library.AList" "HOL-Library.Sublist" "HOL-Library.Char_ord"
    "HOL-Library.List_Lexorder" "HOL-Library.Multiset"
begin

text \<open>
  The prelude of the development: the Python values that travel through the program as decoded
  JSON, the string functions the sources call, exceptions as values of a sum type, and the
  generic lemmas on lists, dictionaries and results that the component theories share.

  Strings are ASCII (a \<open>string\<close> is a list of characters); JSON numbers are the integers Python
  reads; a dictionary is an association list in insertion order, which \<open>AList.update\<close> keeps as
  Python does (an existing key keeps its place, a new key goes last).
\<close>

section \<open>Hints shared by the components\<close>

named_theorems res_simps \<open>unfolding rules of the result combinators\<close>
named_theorems py_simps \<open>unfolding rules of the Python operations\<close>

section \<open>Values\<close>

datatype pyval =
    PNone
  | PBool bool
  | PInt int
  | PStr string
  | PList "pyval list"
  | PDict "(string \<times> pyval) list"

type_synonym pydict = "(string \<times> pyval) list"

section \<open>Exceptions and results\<close>

datatype exn_class =
    AttributeError | TypeError | KeyError | IndexError | ValueError | RuntimeError | AssertionError
  | OSError | JSONDecodeError | BadZipFile
  | SyncStateError | StageError | ApplyPlanError | ApplyError | SyncApplyError | RestoreError
  | ReconcileError | ProjectionError | BaseAdoptionError | CentralLifecycleError
  | TombstoneError | ConflictPackageError | RemoteError | ConfigError | FanoutError | ApprovedPushError
  | SyncCycleError | LocalSkillError | LocalRootMigrationError
  | HubImportDiagnosisError | HubImportApplyError | LegacySkillshubMigrationError | OperatorExecutorError
  | TimeoutExpired

datatype exn = Exn exn_class string

type_synonym 'a res = "exn + 'a"

fun exn_kind :: "exn \<Rightarrow> exn_class" where
  "exn_kind (Exn c m) = c"

fun exn_text :: "exn \<Rightarrow> string" where
  "exn_text (Exn c m) = m"

fun bindR :: "'a res \<Rightarrow> ('a \<Rightarrow> 'b res) \<Rightarrow> 'b res" where
  "bindR (Inl e) f = Inl e"
| "bindR (Inr x) f = f x"

fun mapR :: "('a \<Rightarrow> 'b res) \<Rightarrow> 'a list \<Rightarrow> 'b list res" where
  "mapR f [] = Inr []"
| "mapR f (x # xs) = bindR (f x) (\<lambda>y. bindR (mapR f xs) (\<lambda>ys. Inr (y # ys)))"

fun foldR :: "('a \<Rightarrow> 's \<Rightarrow> 's res) \<Rightarrow> 'a list \<Rightarrow> 's \<Rightarrow> 's res" where
  "foldR f [] s = Inr s"
| "foldR f (x # xs) s = bindR (f x s) (foldR f xs)"

definition raise_if :: "bool \<Rightarrow> exn \<Rightarrow> unit res" where
  "raise_if b e = (if b then Inl e else Inr ())"

lemma bindR_Inr_iff [simp]: "bindR m f = Inr y \<longleftrightarrow> (\<exists>x. m = Inr x \<and> f x = Inr y)"
  by (cases m) auto

lemma bindR_Inl_iff: "bindR m f = Inl e \<longleftrightarrow> m = Inl e \<or> (\<exists>x. m = Inr x \<and> f x = Inl e)"
  by (cases m) auto

lemma bindR_cong [fundef_cong]:
  "m = m' \<Longrightarrow> (\<And>x. m' = Inr x \<Longrightarrow> f x = g x) \<Longrightarrow> bindR m f = bindR m' g"
  by (cases m') auto

lemma raise_if_Inr [simp]: "raise_if b e = Inr u \<longleftrightarrow> \<not> b"
  by (auto simp: raise_if_def)

lemma mapR_Inr_iff: "mapR f xs = Inr ys \<longleftrightarrow> list_all2 (\<lambda>x y. f x = Inr y) xs ys"
  by (induction xs arbitrary: ys) (auto simp: list_all2_Cons1)

lemma mapR_length: "mapR f xs = Inr ys \<Longrightarrow> length ys = length xs"
  by (auto simp: mapR_Inr_iff dest: list_all2_lengthD)

lemma mapR_total: "(\<And>x. x \<in> set xs \<Longrightarrow> f x = Inr (g x)) \<Longrightarrow> mapR f xs = Inr (map g xs)"
  by (induction xs) auto

lemma mapR_mem: "mapR f xs = Inr ys \<Longrightarrow> y \<in> set ys \<Longrightarrow> \<exists>x \<in> set xs. f x = Inr y"
  by (induction xs arbitrary: ys) auto

lemma mapR_mem_fwd: "mapR f xs = Inr ys \<Longrightarrow> x \<in> set xs \<Longrightarrow> \<exists>y \<in> set ys. f x = Inr y"
  by (induction xs arbitrary: ys) fastforce+

section \<open>Truth, dictionaries\<close>

fun truthy :: "pyval \<Rightarrow> bool" where
  "truthy PNone = False"
| "truthy (PBool b) = b"
| "truthy (PInt n) = (n \<noteq> 0)"
| "truthy (PStr s) = (s \<noteq> [])"
| "truthy (PList xs) = (xs \<noteq> [])"
| "truthy (PDict d) = (d \<noteq> [])"

text \<open>Python's \<open>a or b\<close>.\<close>

definition por :: "pyval \<Rightarrow> pyval \<Rightarrow> pyval" where
  "por a b = (if truthy a then a else b)"

text \<open>\<open>d.get(k, default)\<close>, \<open>d.get(k)\<close>, \<open>k in d\<close>, \<open>d[k] = v\<close>, \<open>{**a, **b}\<close>.\<close>

definition dget_or :: "pydict \<Rightarrow> string \<Rightarrow> pyval \<Rightarrow> pyval" where
  "dget_or d k v = (case map_of d k of None \<Rightarrow> v | Some w \<Rightarrow> w)"

definition dget :: "pydict \<Rightarrow> string \<Rightarrow> pyval" where
  "dget d k = dget_or d k PNone"

definition dhas :: "pydict \<Rightarrow> string \<Rightarrow> bool" where
  "dhas d k = (map_of d k \<noteq> None)"

definition dset :: "pydict \<Rightarrow> string \<Rightarrow> pyval \<Rightarrow> pydict" where
  "dset d k v = AList.update k v d"

fun dmerge :: "pydict \<Rightarrow> pydict \<Rightarrow> pydict" where
  "dmerge a [] = a"
| "dmerge a ((k, v) # b) = dmerge (dset a k v) b"

definition ddel :: "pydict \<Rightarrow> string \<Rightarrow> pydict" where
  "ddel d k = AList.delete k d"

lemma dget_dset [simp]: "dget (dset d k v) j = (if j = k then v else dget d j)"
  by (simp add: dget_def dget_or_def dset_def update_conv)

lemma dget_Nil [simp]: "dget [] k = PNone"
  by (simp add: dget_def dget_or_def)

lemma dget_Cons [simp]: "dget ((j, v) # d) k = (if k = j then v else dget d k)"
  by (simp add: dget_def dget_or_def)

lemma dget_or_Cons [simp]: "dget_or ((j, v) # d) k w = (if k = j then v else dget_or d k w)"
  by (simp add: dget_or_def)

lemma dget_or_Nil [simp]: "dget_or [] k w = w"
  by (simp add: dget_or_def)

lemma dget_dmerge:
  "distinct (map fst b) \<Longrightarrow> dget (dmerge a b) k = (if dhas b k then dget b k else dget a k)"
  by (induction a b rule: dmerge.induct)
    (auto simp: dhas_def map_of_eq_None_iff dget_def dget_or_def dset_def update_conv image_iff
      split: option.splits)

definition is_dict :: "pyval \<Rightarrow> bool" where
  "is_dict v = (case v of PDict d \<Rightarrow> True | _ \<Rightarrow> False)"

definition is_list :: "pyval \<Rightarrow> bool" where
  "is_list v = (case v of PList d \<Rightarrow> True | _ \<Rightarrow> False)"

definition is_str :: "pyval \<Rightarrow> bool" where
  "is_str v = (case v of PStr d \<Rightarrow> True | _ \<Rightarrow> False)"

text \<open>\<open>x if isinstance(x, dict) else {}\<close>, and the same for lists.\<close>

definition dict_or_empty :: "pyval \<Rightarrow> pydict" where
  "dict_or_empty v = (case v of PDict d \<Rightarrow> d | _ \<Rightarrow> [])"

definition list_or_empty :: "pyval \<Rightarrow> pyval list" where
  "list_or_empty v = (case v of PList xs \<Rightarrow> xs | _ \<Rightarrow> [])"

text \<open>\<open>[x for x in xs if isinstance(x, dict)]\<close>.\<close>

definition only_dicts :: "pyval list \<Rightarrow> pydict list" where
  "only_dicts xs = List.map_filter (\<lambda>v. case v of PDict d \<Rightarrow> Some d | _ \<Rightarrow> None) xs"

lemma only_dicts_simps [simp]:
  "only_dicts [] = []"
  "only_dicts (PDict d # xs) = d # only_dicts xs"
  "\<not> is_dict v \<Longrightarrow> only_dicts (v # xs) = only_dicts xs"
  by (auto simp: only_dicts_def map_filter_simps is_dict_def split: pyval.splits)

lemma only_dicts_map [simp]: "only_dicts (map PDict ds) = ds"
  by (induction ds) auto

definition opt_str :: "string option \<Rightarrow> pyval" where
  "opt_str x = (case x of None \<Rightarrow> PNone | Some s \<Rightarrow> PStr s)"

lemma truthy_opt_str [simp]: "truthy (opt_str x) \<longleftrightarrow> (\<exists>s. x = Some s \<and> s \<noteq> [])"
  by (auto simp: opt_str_def split: option.splits)

definition strs :: "string list \<Rightarrow> pyval" where
  "strs xs = PList (map PStr xs)"

section \<open>Strings\<close>

abbreviation (input) newline :: string where
  "newline \<equiv> [CHR 0x0A]"

abbreviation (input) quote_char :: char where
  "quote_char \<equiv> CHR 0x27"

fun join_str :: "string \<Rightarrow> string list \<Rightarrow> string" where
  "join_str sep [] = []"
| "join_str sep [x] = x"
| "join_str sep (x # y # xs) = x @ sep @ join_str sep (y # xs)"

definition starts_with :: "string \<Rightarrow> string \<Rightarrow> bool" where
  "starts_with s p = prefix p s"

definition ends_with :: "string \<Rightarrow> string \<Rightarrow> bool" where
  "ends_with s p = suffix p s"

text \<open>\<open>s.lstrip(chars)\<close>, \<open>s.rstrip(chars)\<close>, \<open>s.strip(chars)\<close>, \<open>s.strip()\<close>.\<close>

definition lstrip_set :: "char list \<Rightarrow> string \<Rightarrow> string" where
  "lstrip_set cs s = dropWhile (\<lambda>c. c \<in> set cs) s"

definition rstrip_set :: "char list \<Rightarrow> string \<Rightarrow> string" where
  "rstrip_set cs s = rev (dropWhile (\<lambda>c. c \<in> set cs) (rev s))"

definition strip_set :: "char list \<Rightarrow> string \<Rightarrow> string" where
  "strip_set cs s = rstrip_set cs (lstrip_set cs s)"

definition py_space :: "char list" where
  "py_space = [CHR 0x20, CHR 0x09, CHR 0x0A, CHR 0x0B, CHR 0x0C, CHR 0x0D,
    CHR 0x1C, CHR 0x1D, CHR 0x1E, CHR 0x1F]"

definition strip :: "string \<Rightarrow> string" where
  "strip s = strip_set py_space s"

definition lower_char :: "char \<Rightarrow> char" where
  "lower_char c = (if 65 \<le> (of_char c :: nat) \<and> (of_char c :: nat) \<le> 90
     then char_of ((of_char c :: nat) + 32) else c)"

definition lower :: "string \<Rightarrow> string" where
  "lower s = map lower_char s"

definition is_lower_alpha :: "char \<Rightarrow> bool" where
  "is_lower_alpha c = (97 \<le> (of_char c :: nat) \<and> (of_char c :: nat) \<le> 122)"

definition is_digit :: "char \<Rightarrow> bool" where
  "is_digit c = (48 \<le> (of_char c :: nat) \<and> (of_char c :: nat) \<le> 57)"

definition is_alnum :: "char \<Rightarrow> bool" where
  "is_alnum c = (is_lower_alpha c \<or> is_digit c \<or> (65 \<le> (of_char c :: nat) \<and> (of_char c :: nat) \<le> 90))"

text \<open>\<open>s.split(c)\<close> for a one-character separator: always at least one piece.\<close>

fun split_on :: "char \<Rightarrow> string \<Rightarrow> string list" where
  "split_on c [] = [[]]"
| "split_on c (x # xs) =
     (if x = c then [] # split_on c xs
      else (case split_on c xs of [] \<Rightarrow> [[x]] | y # ys \<Rightarrow> (x # y) # ys))"

lemma split_on_not_Nil [simp]: "split_on c s \<noteq> []"
  by (induction s) (auto split: list.splits)

lemma split_on_no_sep: "p \<in> set (split_on c s) \<Longrightarrow> c \<notin> set p"
proof (induction s arbitrary: p)
  case (Cons x xs)
  then show ?case
    by (cases "split_on c xs") (auto split: if_splits)
qed simp

fun nat_str :: "nat \<Rightarrow> string" where
  "nat_str n = (if n < 10 then [char_of (48 + n)] else nat_str (n div 10) @ [char_of (48 + n mod 10)])"

declare nat_str.simps [simp del]

definition int_str :: "int \<Rightarrow> string" where
  "int_str n = (if n < 0 then CHR 0x2D # nat_str (nat (- n)) else nat_str (nat n))"

lemma nat_str_small: "n < 10 \<Longrightarrow> nat_str n = [char_of (48 + n)]"
  by (simp add: nat_str.simps)

lemma nat_str_digits: "c \<in> set (nat_str n) \<Longrightarrow> is_digit c"
proof (induction n rule: nat_str.induct)
  case (1 n)
  have d: "is_digit (char_of (48 + m :: nat))" if "m < 10" for m
    using that by (simp add: is_digit_def)
  show ?case
  proof (cases "n < 10")
    case True
    with "1.prems" d [of n] show ?thesis by (simp add: nat_str_small)
  next
    case False
    with "1.prems" have "c \<in> set (nat_str (n div 10)) \<or> c = char_of (48 + n mod 10)"
      by (subst (asm) nat_str.simps) auto
    with "1.IH" [OF False] d [of "n mod 10"] show ?thesis by auto
  qed
qed

text \<open>\<open>repr\<close> of a string: single quotes unless the text has a single and no double quote.\<close>

definition hex_digit :: "nat \<Rightarrow> char" where
  "hex_digit n = (if n < 10 then char_of (48 + n) else char_of (87 + n))"

definition repr_char :: "char \<Rightarrow> char \<Rightarrow> string" where
  "repr_char q c =
     (if c = q \<or> c = CHR 0x5C then [CHR 0x5C, c]
      else if c = CHR 0x0A then [CHR 0x5C, CHR 0x6E]
      else if c = CHR 0x0D then [CHR 0x5C, CHR 0x72]
      else if c = CHR 0x09 then [CHR 0x5C, CHR 0x74]
      else if (of_char c :: nat) < 32 \<or> (of_char c :: nat) = 127
      then [CHR 0x5C, CHR 0x78, hex_digit (of_char c div 16), hex_digit (of_char c mod 16)]
      else [c])"

definition str_repr :: "string \<Rightarrow> string" where
  "str_repr s = (let q = (if quote_char \<in> set s \<and> CHR 0x22 \<notin> set s then CHR 0x22 else quote_char)
     in q # concat (map (repr_char q) s) @ [q])"

fun py_repr :: "pyval \<Rightarrow> string" where
  "py_repr PNone = ''None''"
| "py_repr (PBool b) = (if b then ''True'' else ''False'')"
| "py_repr (PInt n) = int_str n"
| "py_repr (PStr s) = str_repr s"
| "py_repr (PList xs) = ''['' @ join_str '', '' (map py_repr xs) @ '']''"
| "py_repr (PDict d) = ''{'' @ join_str '', '' (map (\<lambda>(k, v). str_repr k @ '': '' @ py_repr v) d) @ ''}''"

definition py_str :: "pyval \<Rightarrow> string" where
  "py_str v = (case v of PStr s \<Rightarrow> s | _ \<Rightarrow> py_repr v)"

lemma py_str_PStr [simp]: "py_str (PStr s) = s"
  by (simp add: py_str_def)

section \<open>Access that can raise\<close>

fun type_name :: "pyval \<Rightarrow> string" where
  "type_name PNone = ''NoneType''"
| "type_name (PBool b) = ''bool''"
| "type_name (PInt n) = ''int''"
| "type_name (PStr s) = ''str''"
| "type_name (PList xs) = ''list''"
| "type_name (PDict d) = ''dict''"

definition in_quotes :: "string \<Rightarrow> string" where
  "in_quotes s = [quote_char] @ s @ [quote_char]"

text \<open>An attribute \<open>v.get\<close> exists on dictionaries only.\<close>

definition as_dict :: "pyval \<Rightarrow> pydict res" where
  "as_dict v = (case v of PDict d \<Rightarrow> Inr d
     | _ \<Rightarrow> Inl (Exn AttributeError (in_quotes (type_name v) @ '' object has no attribute '' @ in_quotes ''get'')))"

text \<open>\<open>d[k]\<close> on a dictionary.\<close>

definition dindex :: "pydict \<Rightarrow> string \<Rightarrow> pyval res" where
  "dindex d k = (case map_of d k of None \<Rightarrow> Inl (Exn KeyError (str_repr k)) | Some v \<Rightarrow> Inr v)"

text \<open>\<open>for x in v\<close>: a list, the keys of a dictionary, the characters of a string.\<close>

definition py_iter :: "pyval \<Rightarrow> pyval list res" where
  "py_iter v = (case v of PList xs \<Rightarrow> Inr xs
     | PDict d \<Rightarrow> Inr (map (PStr \<circ> fst) d)
     | PStr s \<Rightarrow> Inr (map (\<lambda>c. PStr [c]) s)
     | _ \<Rightarrow> Inl (Exn TypeError (in_quotes (type_name v) @ '' object is not iterable'')))"

text \<open>\<open>len(v)\<close>.\<close>

definition py_len :: "pyval \<Rightarrow> int res" where
  "py_len v = (case v of PList xs \<Rightarrow> Inr (int (length xs)) | PDict d \<Rightarrow> Inr (int (length d))
     | PStr s \<Rightarrow> Inr (int (length s))
     | _ \<Rightarrow> Inl (Exn TypeError (''object of type '' @ in_quotes (type_name v) @ '' has no len()'')))"

text \<open>\<open>int(v)\<close>: decimal text with an optional sign and surrounding blanks, and single
  underscores between digits.\<close>

fun digits_val :: "nat \<Rightarrow> string \<Rightarrow> nat option" where
  "digits_val acc [] = Some acc"
| "digits_val acc (c # cs) =
     (if is_digit c then digits_val (10 * acc + (of_char c - 48)) cs
      else if c = CHR 0x5F \<and> cs \<noteq> [] \<and> is_digit (hd cs) then digits_val acc cs
      else None)"

definition parse_int :: "string \<Rightarrow> int option" where
  "parse_int s0 = (let s = strip s0; neg = (s \<noteq> [] \<and> hd s = CHR 0x2D);
       t = (if s \<noteq> [] \<and> (hd s = CHR 0x2D \<or> hd s = CHR 0x2B) then tl s else s)
     in if t = [] \<or> \<not> is_digit (hd t) then None
        else map_option (\<lambda>n. if neg then - int n else int n) (digits_val 0 t))"

definition py_int :: "pyval \<Rightarrow> int res" where
  "py_int v = (case v of PInt n \<Rightarrow> Inr n | PBool b \<Rightarrow> Inr (if b then 1 else 0)
     | PStr s \<Rightarrow> (case parse_int s of Some n \<Rightarrow> Inr n
         | None \<Rightarrow> Inl (Exn ValueError (''invalid literal for int() with base 10: '' @ str_repr s)))
     | _ \<Rightarrow> Inl (Exn TypeError (''int() argument must be a string, a bytes-like object or a real number, not ''
              @ in_quotes (type_name v))))"

lemma as_dict_PDict [simp]: "as_dict (PDict d) = Inr d"
  by (simp add: as_dict_def)

lemma as_dict_Inr_iff [simp]: "as_dict v = Inr d \<longleftrightarrow> v = PDict d"
  by (cases v) (auto simp: as_dict_def)

lemma mapR_as_dict_PDict [simp]:
  "mapR as_dict (map PDict ds) = Inr ds"
  "mapR as_dict (map (\<lambda>x. PDict (f x)) xs) = Inr (map f xs)"
proof -
  show "mapR as_dict (map PDict ds) = Inr ds" by (induction ds) auto
  show "mapR as_dict (map (\<lambda>x. PDict (f x)) xs) = Inr (map f xs)" by (induction xs) auto
qed

lemma py_iter_PList [simp]: "py_iter (PList xs) = Inr xs"
  by (simp add: py_iter_def)

section \<open>Sorted listings and tallies\<close>

text \<open>\<open>sorted(set(xs))\<close>.\<close>

definition sorted_set :: "string list \<Rightarrow> string list" where
  "sorted_set xs = sort (remdups xs)"

lemma set_sorted_set [simp]: "set (sorted_set xs) = set xs"
  by (simp add: sorted_set_def)

lemma distinct_sorted_set [simp]: "distinct (sorted_set xs)"
  by (simp add: sorted_set_def)

lemma sorted_sorted_set [simp]: "sorted (sorted_set xs)"
  by (simp add: sorted_set_def)

lemma sorted_set_cong: "set xs = set ys \<Longrightarrow> sorted_set xs = sorted_set ys"
  by (simp add: sorted_set_def sorted_distinct_set_unique)

text \<open>\<open>d[k] = d.get(k, 0) + 1\<close> over a list of keys, and \<open>dict(sorted(d.items()))\<close>.\<close>

definition bump :: "string \<Rightarrow> (string \<times> nat) list \<Rightarrow> (string \<times> nat) list" where
  "bump k d = AList.update k (Suc (case map_of d k of None \<Rightarrow> 0 | Some n \<Rightarrow> n)) d"

definition tally :: "string list \<Rightarrow> (string \<times> nat) list" where
  "tally ks = fold bump ks []"

definition sort_items :: "(string \<times> 'v) list \<Rightarrow> (string \<times> 'v) list" where
  "sort_items d = sort_key fst d"

definition counts :: "(string \<times> nat) list \<Rightarrow> pyval" where
  "counts d = PDict (map (\<lambda>(k, n). (k, PInt (int n))) d)"

lemma map_of_bump: "map_of (bump k d) j =
    (if j = k then Some (Suc (case map_of d k of None \<Rightarrow> 0 | Some n \<Rightarrow> n)) else map_of d j)"
  by (simp add: bump_def update_conv)

lemma distinct_bump: "distinct (map fst d) \<Longrightarrow> distinct (map fst (bump k d))"
  by (simp add: bump_def distinct_update)

lemma distinct_fold_bump: "distinct (map fst d) \<Longrightarrow> distinct (map fst (fold bump ks d))"
  by (induction ks arbitrary: d) (auto simp: distinct_bump)

lemma map_of_fold_bump:
  "map_of (fold bump ks d) j =
     (if j \<in> set ks then Some (count_list ks j + (case map_of d j of None \<Rightarrow> 0 | Some n \<Rightarrow> n))
      else map_of d j)"
  by (induction ks arbitrary: d) (auto simp: map_of_bump split: option.splits)

lemma map_of_tally: "map_of (tally ks) j = (if j \<in> set ks then Some (count_list ks j) else None)"
  by (simp add: tally_def map_of_fold_bump)

lemma distinct_tally [simp]: "distinct (map fst (tally ks))"
  by (simp add: tally_def distinct_fold_bump)

lemma set_tally_keys [simp]: "fst ` set (tally ks) = set ks"
proof -
  have "dom (map_of (tally ks)) = set ks"
    by (auto simp: map_of_tally split: if_splits)
  then show ?thesis by (simp add: dom_map_of_conv_image_fst)
qed

lemma tally_eq_Nil [simp]: "tally ks = [] \<longleftrightarrow> ks = []"
  using set_tally_keys [of ks] by (cases "tally ks"; cases ks) auto

lemma mset_sort_items [simp]: "mset (sort_items d) = mset d"
  by (simp add: sort_items_def)

lemma set_sort_items [simp]: "set (sort_items d) = set d"
  by (simp add: sort_items_def)

lemma sum_list_bump: "distinct (map fst d) \<Longrightarrow> sum_list (map snd (bump k d)) = Suc (sum_list (map snd d))"
proof (induction d)
  case Nil
  then show ?case by (simp add: bump_def)
next
  case (Cons p d)
  show ?case
  proof (cases "fst p = k")
    case True
    then show ?thesis by (cases p) (simp add: bump_def)
  next
    case False
    with Cons show ?thesis by (cases p) (simp add: bump_def)
  qed
qed

lemma sum_list_fold_bump:
  "distinct (map fst d) \<Longrightarrow> sum_list (map snd (fold bump ks d)) = length ks + sum_list (map snd d)"
  by (induction ks arbitrary: d) (auto simp: sum_list_bump distinct_bump)

lemma sum_list_tally [simp]: "sum_list (map snd (tally ks)) = length ks"
  by (simp add: tally_def sum_list_fold_bump)

lemma sum_list_sort_items:
  fixes d :: "(string \<times> nat) list"
  shows "sum_list (map snd (sort_items d)) = sum_list (map snd d)"
proof -
  have "sum_list (map snd (sort_items d)) = sum_mset (image_mset snd (mset (sort_items d)))"
    by (simp add: sum_mset_sum_list [symmetric] del: mset_sort_items)
  then show ?thesis by (simp add: sum_mset_sum_list [symmetric])
qed

lemma map_of_sort_items:
  assumes "distinct (map fst d)"
  shows "map_of (sort_items d) = map_of d"
proof -
  have "mset (map fst (sort_items d)) = mset (map fst d)"
    by simp
  then have "distinct (map fst (sort_items d))"
    using assms mset_eq_imp_distinct_iff by blast
  then show ?thesis using assms by (simp add: map_of_inject_set)
qed

end
