(* ===== verification/FileTree.thy ===== *)
theory FileTree
  imports PyBase
begin

text \<open>
  The file system the program runs on: a tree of directories and files, paths as lists of
  component names, and the operations of \<open>pathlib\<close>, \<open>shutil\<close> and \<open>os\<close> that the sources call.
  An operation takes a world and gives a result and the next world, so what an operation has
  already done stays done when a later one raises. A world may hold one fault: a number of
  writing operations that still succeed, after which one raises \<open>OSError\<close> and leaves an
  arbitrary partial node behind, as an interrupted \<open>copytree\<close> or \<open>rmtree\<close> does.

  Bounds: no symbolic links (every \<open>is_symlink\<close> is false), no permissions, absolute paths, and
  \<open>..\<close> resolved on the text of the path. A file holds JSON text (kept as the value it decodes
  to), a zip archive (kept as its member list), or other bytes.
\<close>

section \<open>Nodes and paths\<close>

datatype fdata = Raw string | Json pyval | Archive "(string \<times> fdata) list"

datatype node = NFile fdata | NDir "(string \<times> node) list"

type_synonym path = "string list"

definition path_of :: "string \<Rightarrow> path" where
  "path_of s = filter (\<lambda>c. c \<noteq> [] \<and> c \<noteq> ''.'') (split_on CHR 0x2F s)"

definition path_str :: "path \<Rightarrow> string" where
  "path_str p = CHR 0x2F # join_str ''/'' p"

text \<open>\<open>p / s\<close>: an absolute right operand replaces the left one.\<close>

definition path_div :: "path \<Rightarrow> string \<Rightarrow> path" where
  "path_div p s = (if starts_with s ''/'' then path_of s else p @ path_of s)"

definition path_parent :: "path \<Rightarrow> path" where
  "path_parent p = butlast p"

definition path_name :: "path \<Rightarrow> string" where
  "path_name p = (if p = [] then [] else last p)"

fun norm_acc :: "path \<Rightarrow> path \<Rightarrow> path" where
  "norm_acc acc [] = rev acc"
| "norm_acc acc (c # cs) =
     (if c = ''..'' then norm_acc (tl acc) cs else norm_acc (c # acc) cs)"

definition norm_path :: "path \<Rightarrow> path" where
  "norm_path p = norm_acc [] p"

definition clean :: "path \<Rightarrow> bool" where
  "clean p = (''..'' \<notin> set p)"

lemma norm_acc_clean: "clean p \<Longrightarrow> norm_acc acc p = rev acc @ p"
  by (induction p arbitrary: acc) (auto simp: clean_def)

lemma norm_path_clean [simp]: "clean p \<Longrightarrow> norm_path p = p"
  by (simp add: norm_path_def norm_acc_clean)

lemma clean_append [simp]: "clean (p @ q) \<longleftrightarrow> clean p \<and> clean q"
  by (auto simp: clean_def)

lemma clean_Cons [simp]: "clean (c # q) \<longleftrightarrow> c \<noteq> ''..'' \<and> clean q"
  by (auto simp: clean_def)

lemma clean_Nil [simp]: "clean []"
  by (simp add: clean_def)

lemma clean_butlast: "clean p \<Longrightarrow> clean (butlast p)"
  by (auto simp: clean_def dest: in_set_butlastD)

lemma norm_acc_no_dots: "''..'' \<notin> set acc \<Longrightarrow> clean (norm_acc acc p)"
proof (induction acc p rule: norm_acc.induct)
  case (2 acc c cs)
  then show ?case by (auto dest: list.set_sel(2) [rotated]) (metis list.sel(2) list.set_sel(2))
qed (simp add: clean_def)

lemma clean_norm_path [simp]: "clean (norm_path p)"
  by (simp add: norm_path_def norm_acc_no_dots)

text \<open>Two paths neither of which lies under the other.\<close>

definition apart :: "path \<Rightarrow> path \<Rightarrow> bool" where
  "apart p q = (\<not> prefix p q \<and> \<not> prefix q p)"

lemma apart_sym: "apart p q \<Longrightarrow> apart q p"
  by (simp add: apart_def)

lemma apart_extend: "apart p q \<Longrightarrow> apart p (q @ r)"
  unfolding apart_def using prefix_order.trans prefix_same_cases by (metis prefixI)

lemma apart_siblings: "a \<noteq> b \<Longrightarrow> apart (p @ [a]) (p @ [b])"
  by (simp add: apart_def)

section \<open>The tree: lookup, insertion, deletion\<close>

fun lookup :: "node \<Rightarrow> path \<Rightarrow> node option" where
  "lookup t [] = Some t"
| "lookup (NFile d) (c # cs) = None"
| "lookup (NDir es) (c # cs) = (case map_of es c of None \<Rightarrow> None | Some m \<Rightarrow> lookup m cs)"

text \<open>No strict prefix of the path is a file.\<close>

fun parent_ok :: "node \<Rightarrow> path \<Rightarrow> bool" where
  "parent_ok t [] = True"
| "parent_ok (NFile d) (c # cs) = False"
| "parent_ok (NDir es) (c # cs) = (case map_of es c of None \<Rightarrow> True | Some m \<Rightarrow> parent_ok m cs)"

text \<open>Put a node at a path, making the missing directories above it.\<close>

fun put :: "node \<Rightarrow> path \<Rightarrow> node \<Rightarrow> node" where
  "put t [] n = n"
| "put (NFile d) (c # cs) n = NFile d"
| "put (NDir es) (c # cs) n =
     NDir (AList.update c (put (case map_of es c of None \<Rightarrow> NDir [] | Some m \<Rightarrow> m) cs n) es)"

fun del :: "node \<Rightarrow> path \<Rightarrow> node" where
  "del t [] = NDir []"
| "del (NFile d) (c # cs) = NFile d"
| "del (NDir es) (c # cs) =
     (if cs = [] then NDir (AList.delete c es)
      else (case map_of es c of None \<Rightarrow> NDir es | Some m \<Rightarrow> NDir (AList.update c (del m cs) es)))"

lemma parent_ok_empty [simp]: "parent_ok (NDir []) p"
  by (cases p) auto

lemma lookup_append: "lookup t (p @ q) = (case lookup t p of None \<Rightarrow> None | Some m \<Rightarrow> lookup m q)"
  by (induction t p rule: lookup.induct) (auto split: option.splits)

lemma lookup_parent_ok: "lookup t p = Some n \<Longrightarrow> parent_ok t p"
  by (induction t p rule: lookup.induct) (auto split: option.splits)

lemma lookup_dir_parent_ok: "lookup t (butlast p) = Some (NDir es) \<Longrightarrow> parent_ok t p"
proof (induction t p rule: parent_ok.induct)
  case (3 es' c cs)
  then show ?case by (cases cs) (auto split: option.splits)
qed (auto split: if_splits)

lemma lookup_put_under: "parent_ok t p \<Longrightarrow> lookup (put t p n) (p @ r) = lookup n r"
proof (induction t p n rule: put.induct)
  case (3 es c cs n)
  then show ?case by (auto simp: update_conv split: option.splits)
qed auto

lemma lookup_put_apart: "apart p q \<Longrightarrow> lookup (put t p n) q = lookup t q"
proof (induction t p n arbitrary: q rule: put.induct)
  case (3 es c cs n)
  show ?case
  proof (cases q)
    case Nil
    with "3.prems" show ?thesis by (simp add: apart_def)
  next
    case (Cons d ds)
    have e: "lookup (NDir []) ds = None" if "ds \<noteq> []"
      using that by (cases ds) auto
    show ?thesis
    proof (cases "d = c")
      case True
      with "3.prems" Cons have a: "apart cs ds" by (simp add: apart_def)
      then have "ds \<noteq> []" by (auto simp: apart_def)
      with "3.IH" [OF a] True Cons e show ?thesis
        by (auto simp: update_conv split: option.splits)
    next
      case False
      with Cons show ?thesis by (simp add: update_conv)
    qed
  qed
qed (auto simp: apart_def)

lemma lookup_del_under: "p \<noteq> [] \<Longrightarrow> lookup (del t p) (p @ r) = None"
proof (induction t p rule: del.induct)
  case (3 es c cs)
  then show ?case
    by (cases "cs = []") (auto simp: update_conv delete_conv split: option.splits)
qed auto

lemma lookup_del_apart: "apart p q \<Longrightarrow> lookup (del t p) q = lookup t q"
proof (induction t p arbitrary: q rule: del.induct)
  case (3 es c cs)
  show ?case
  proof (cases q)
    case Nil
    with "3.prems" show ?thesis by (simp add: apart_def)
  next
    case (Cons d ds)
    show ?thesis
    proof (cases "d = c")
      case True
      with "3.prems" Cons have a: "apart cs ds" by (simp add: apart_def)
      then have "cs \<noteq> []" by (auto simp: apart_def)
      with "3.IH" a True Cons show ?thesis
        by (auto simp: update_conv split: option.splits)
    next
      case False
      with Cons show ?thesis
        by (auto simp: update_conv delete_conv split: option.splits)
    qed
  qed
qed (auto simp: apart_def)

lemma parent_ok_put_apart: "apart p q \<Longrightarrow> parent_ok t q \<Longrightarrow> parent_ok t p \<Longrightarrow> parent_ok (put t p n) q"
proof (induction t p n arbitrary: q rule: put.induct)
  case (3 es c cs n)
  show ?case
  proof (cases q)
    case (Cons d ds)
    show ?thesis
    proof (cases "d = c")
      case True
      with "3.prems" Cons have a: "apart cs ds" by (simp add: apart_def)
      with "3.IH" [OF a] "3.prems" True Cons show ?thesis
        by (auto simp: update_conv split: option.splits)
    next
      case False
      with Cons "3.prems" show ?thesis by (simp add: update_conv)
    qed
  qed simp
qed (auto simp: apart_def)

lemma parent_ok_del: "parent_ok t q \<Longrightarrow> p \<noteq> [] \<Longrightarrow> parent_ok (del t p) q"
proof (induction t p arbitrary: q rule: del.induct)
  case (3 es c cs)
  show ?case
  proof (cases q)
    case (Cons d ds)
    with 3 show ?thesis
      by (cases "cs = []") (auto simp: update_conv delete_conv split: option.splits)
  qed simp
qed auto

text \<open>Directories above an inserted node exist afterwards; directories above a deleted one stay.\<close>

definition dir_at :: "node \<Rightarrow> path \<Rightarrow> bool" where
  "dir_at t p = (case lookup t p of Some (NDir es) \<Rightarrow> True | _ \<Rightarrow> False)"

lemma dir_at_simps [simp]:
  "dir_at (NFile d) p = False"
  "dir_at (NDir es) [] = True"
  "dir_at (NDir es) (c # cs) = (case map_of es c of None \<Rightarrow> False | Some m \<Rightarrow> dir_at m cs)"
  by (cases p) (auto simp: dir_at_def split: option.splits)

lemma dir_at_put_above: "parent_ok t (p @ q) \<Longrightarrow> q \<noteq> [] \<Longrightarrow> dir_at (put t (p @ q) n) p"
proof (induction p arbitrary: t)
  case Nil
  then show ?case by (cases t; cases q) auto
next
  case (Cons c p)
  then show ?case
    by (cases t) (auto simp: update_conv split: option.splits)
qed

lemma dir_at_put: "dir_at t q \<Longrightarrow> parent_ok t p \<Longrightarrow> \<not> prefix p q \<Longrightarrow> dir_at (put t p n) q"
proof -
  assume a: "dir_at t q" "parent_ok t p" "\<not> prefix p q"
  show ?thesis
  proof (cases "prefix q p")
    case True
    then obtain r where "p = q @ r" by (auto simp: prefix_def)
    with a show ?thesis by (auto intro: dir_at_put_above)
  next
    case False
    with a show ?thesis by (simp add: dir_at_def lookup_put_apart apart_def)
  qed
qed

lemma dir_at_del: "dir_at t q \<Longrightarrow> \<not> prefix p q \<Longrightarrow> dir_at (del t p) q"
proof (induction q arbitrary: t p)
  case Nil
  then show ?case by (cases p; cases t) (auto split: option.splits)
next
  case (Cons d ds)
  obtain es where t: "t = NDir es" using Cons.prems by (cases t) auto
  obtain c cs where p: "p = c # cs" using Cons.prems by (cases p) auto
  show ?case
  proof (cases "d = c")
    case True
    with Cons.prems p have "\<not> prefix cs ds" by simp
    moreover from this have "cs \<noteq> []" by auto
    ultimately show ?thesis using Cons.IH [of _ cs] Cons.prems t p True
      by (auto simp: update_conv split: option.splits)
  next
    case False
    with Cons.prems t p show ?thesis
      by (auto simp: update_conv delete_conv split: option.splits)
  qed
qed

lemma dir_at_parent_ok: "dir_at t (butlast p) \<Longrightarrow> parent_ok t p"
  by (auto simp: dir_at_def intro: lookup_dir_parent_ok split: option.splits node.splits)

section \<open>The interface the components rely on\<close>

text \<open>
  What the components use of a file system: a node is found where it was put and nowhere else
  changes, a deleted node is gone and nothing apart from it changes. \<open>fits\<close> says that a path can
  be created (no file is in the way).
\<close>

locale file_store =
  fixes get :: "'t \<Rightarrow> path \<Rightarrow> node option"
    and ins :: "'t \<Rightarrow> path \<Rightarrow> node \<Rightarrow> 't"
    and rem :: "'t \<Rightarrow> path \<Rightarrow> 't"
    and fits :: "'t \<Rightarrow> path \<Rightarrow> bool"
  assumes get_ins: "fits t p \<Longrightarrow> get (ins t p n) p = Some n"
    and get_ins_apart: "apart p q \<Longrightarrow> get (ins t p n) q = get t q"
    and get_rem: "p \<noteq> [] \<Longrightarrow> get (rem t p) p = None"
    and get_rem_apart: "apart p q \<Longrightarrow> get (rem t p) q = get t q"
    and fits_get: "get t p = Some n \<Longrightarrow> fits t p"
    and fits_ins: "apart p q \<Longrightarrow> fits t p \<Longrightarrow> fits t q \<Longrightarrow> fits (ins t p n) q"
    and fits_rem: "p \<noteq> [] \<Longrightarrow> fits t q \<Longrightarrow> fits (rem t p) q"
begin

text \<open>Renaming: the node arrives, its old place is empty, the rest is as before.\<close>

definition move :: "'t \<Rightarrow> path \<Rightarrow> path \<Rightarrow> node \<Rightarrow> 't" where
  "move t p q n = ins (rem t p) q n"

lemma get_move:
  assumes "apart p q" "p \<noteq> []" "fits t q"
  shows "get (move t p q n) q = Some n" "get (move t p q n) p = None"
    "apart p r \<Longrightarrow> apart q r \<Longrightarrow> get (move t p q n) r = get t r"
  using assms by (auto simp: move_def get_ins get_rem get_ins_apart get_rem_apart fits_rem
      dest: apart_sym)

text \<open>Save a copy of the node at \<open>p\<close> under \<open>b\<close>, put \<open>n\<close> in its place, then undo from the copy:
  what is found at \<open>p\<close>, and at every path apart from \<open>p\<close> and \<open>b\<close>, is what was there before.\<close>

lemma replace_then_restore:
  assumes "apart p b" "p \<noteq> []" "get t p = Some old" "fits t b"
  shows "get (ins (rem (ins (ins t b old) p n) p) p old) p = get t p"
    and "apart p q \<Longrightarrow> apart b q \<Longrightarrow> get (ins (rem (ins (ins t b old) p n) p) p old) q = get t q"
    and "get (ins (ins t b old) p n) b = Some old"
proof -
  have "fits t p" using assms(3) by (rule fits_get)
  then have f: "fits (ins t b old) p" using assms by (auto intro: fits_ins dest: apart_sym)
  have "fits (ins (ins t b old) p n) p" using get_ins [OF f, of n] by (rule fits_get)
  then have "fits (rem (ins (ins t b old) p n) p) p" using assms by (auto intro: fits_rem)
  then show "get (ins (rem (ins (ins t b old) p n) p) p old) p = get t p"
    using assms by (simp add: get_ins)
  show "apart p q \<Longrightarrow> apart b q \<Longrightarrow> get (ins (rem (ins (ins t b old) p n) p) p old) q = get t q"
    by (simp add: get_ins_apart get_rem_apart)
  show "get (ins (ins t b old) p n) b = Some old"
    using assms by (simp add: get_ins_apart get_ins)
qed

end

interpretation tree: file_store lookup put del parent_ok
proof unfold_locales
  fix t p q n m
  show "parent_ok t p \<Longrightarrow> lookup (put t p n) p = Some n"
    using lookup_put_under [of t p n "[]"] by simp
  show "p \<noteq> [] \<Longrightarrow> lookup (del t p) p = None"
    using lookup_del_under [of p t "[]"] by simp
qed (auto simp: lookup_put_apart lookup_del_apart intro: lookup_parent_ok parent_ok_put_apart parent_ok_del)

end
