(* ===== verification/SkillModel.thy ===== *)
theory SkillModel
  imports FileTree
begin

text \<open>
  The data model of \<open>model.py\<close> (files, issues, scanned skills and their summary) and the snapshot
  comparison of \<open>diff.py\<close>.
\<close>

section \<open>model.py\<close>

record skill_file =
  sf_path :: string
  sf_size :: int
  sf_sha256 :: string

record skill_issue =
  si_severity :: string
  si_code :: string
  si_message :: string
  si_path :: "string option"

record skill_record =
  sk_id :: string
  sk_source :: string
  sk_scope :: pyval
  sk_path :: path
  sk_md :: path
  sk_hash :: string
  sk_size :: int
  sk_file_count :: int
  sk_name :: pyval
  sk_description :: pyval
  sk_targets :: "pyval list"
  sk_exclude :: "pyval list"
  sk_project_path :: "path option"
  sk_manifest_path :: "path option"
  sk_files :: "skill_file list"
  sk_issues :: "skill_issue list"

definition risk_level :: "skill_record \<Rightarrow> string" where
  "risk_level r = (let severities = map si_severity (sk_issues r) in
     if ''error'' \<in> set severities then ''error''
     else if ''warning'' \<in> set severities then ''warning''
     else ''ok'')"

definition file_dict :: "skill_file \<Rightarrow> pydict" where
  "file_dict f = [(''path'', PStr (sf_path f)), (''size'', PInt (sf_size f)), (''sha256'', PStr (sf_sha256 f))]"

definition issue_dict :: "skill_issue \<Rightarrow> pydict" where
  "issue_dict i = [(''severity'', PStr (si_severity i)), (''code'', PStr (si_code i)),
     (''message'', PStr (si_message i)), (''path'', opt_str (si_path i))]"

definition opt_path :: "path option \<Rightarrow> pyval" where
  "opt_path p = opt_str (map_option path_str p)"

definition record_to_dict :: "bool \<Rightarrow> skill_record \<Rightarrow> pydict" where
  "record_to_dict include_files r =
     [(''skill_id'', PStr (sk_id r)),
      (''source'', PStr (sk_source r)),
      (''scope'', sk_scope r),
      (''path'', PStr (path_str (sk_path r))),
      (''skill_md'', PStr (path_str (sk_md r))),
      (''manifest_path'', opt_path (sk_manifest_path r)),
      (''project_path'', opt_path (sk_project_path r)),
      (''name'', sk_name r),
      (''description'', sk_description r),
      (''targets'', PList (sk_targets r)),
      (''exclude'', PList (sk_exclude r)),
      (''content_hash'', PStr (sk_hash r)),
      (''size_bytes'', PInt (sk_size r)),
      (''file_count'', PInt (sk_file_count r)),
      (''risk_level'', PStr (risk_level r)),
      (''issues'', PList (map (PDict \<circ> issue_dict) (sk_issues r)))]
     @ (if include_files then [(''files'', PList (map (PDict \<circ> file_dict) (sk_files r)))] else [])"

record scan_summary =
  ss_skills :: "skill_record list"

definition summary_by_source :: "scan_summary \<Rightarrow> (string \<times> nat) list" where
  "summary_by_source s = tally (map sk_source (ss_skills s))"

definition summary_by_risk :: "scan_summary \<Rightarrow> (string \<times> nat) list" where
  "summary_by_risk s = fold bump (map risk_level (ss_skills s)) [(''ok'', 0), (''warning'', 0), (''error'', 0)]"

definition summary_duplicates :: "scan_summary \<Rightarrow> (string \<times> nat) list" where
  "summary_duplicates s = filter (\<lambda>(i, n). 1 < n) (sort_items (tally (map sk_id (ss_skills s))))"

definition summary_to_dict :: "bool \<Rightarrow> scan_summary \<Rightarrow> pydict" where
  "summary_to_dict include_files s =
     [(''total'', PInt (int (length (ss_skills s)))),
      (''by_source'', counts (sort_items (summary_by_source s))),
      (''by_risk'', counts (summary_by_risk s)),
      (''duplicates'', counts (summary_duplicates s)),
      (''skills'', PList (map (PDict \<circ> record_to_dict include_files) (ss_skills s)))]"

lemma risk_level_cases: "risk_level r \<in> {''ok'', ''warning'', ''error''}"
  by (auto simp: risk_level_def Let_def)

lemma risk_level_ok_iff:
  "risk_level r = ''ok'' \<longleftrightarrow> (\<forall>i \<in> set (sk_issues r). si_severity i \<noteq> ''error'' \<and> si_severity i \<noteq> ''warning'')"
  by (force simp: risk_level_def Let_def)

lemma risk_level_error_iff: "risk_level r = ''error'' \<longleftrightarrow> (\<exists>i \<in> set (sk_issues r). si_severity i = ''error'')"
  by (force simp: risk_level_def Let_def)

text \<open>The risk column always has its three keys in the same order.\<close>

lemma bump_keys: "k \<in> fst ` set d \<Longrightarrow> map fst (bump k d) = map fst d"
  unfolding bump_def by (simp add: update_keys)

lemma summary_by_risk_keys: "map fst (summary_by_risk s) = [''ok'', ''warning'', ''error'']"
proof -
  have "map fst (fold bump ks d) = map fst d" if "set ks \<subseteq> fst ` set d" for ks d
    using that
  proof (induction ks arbitrary: d)
    case (Cons k ks)
    then have "map fst (bump k d) = map fst d" by (simp add: bump_keys)
    moreover from this have "fst ` set (bump k d) = fst ` set d" by (metis set_map)
    ultimately show ?case using Cons by simp
  qed simp
  moreover have "set (map risk_level (ss_skills s)) \<subseteq> {''ok'', ''warning'', ''error''}"
    using risk_level_cases by auto
  ultimately show ?thesis by (simp add: summary_by_risk_def)
qed

text \<open>the summary accounts for every scanned skill: the per-source and the per-risk counts
  each add up to the total, and the duplicates are exactly the ids that occur more than once,
  each with its number of occurrences.\<close>

theorem summary_counts_account_for_all:
  "sum_list (map snd (summary_by_source s)) = length (ss_skills s)
   \<and> sum_list (map snd (summary_by_risk s)) = length (ss_skills s)
   \<and> set (summary_duplicates s) =
       {(i, count_list (map sk_id (ss_skills s)) i) | i. 1 < count_list (map sk_id (ss_skills s)) i}"
proof -
  let ?ids = "map sk_id (ss_skills s)"
  have in_ids: "i \<in> set ?ids" if "Suc 0 < count_list ?ids i" for i
    using that count_notin [of i ?ids] by (cases "i \<in> set ?ids") auto
  have "set (summary_duplicates s) = {(i, n). map_of (tally ?ids) i = Some n \<and> 1 < n}"
    by (auto simp: summary_duplicates_def)
  also have "\<dots> = {(i, count_list ?ids i) | i. 1 < count_list ?ids i}"
    by (auto simp: map_of_tally simp del: set_map split: if_splits dest: in_ids)
  finally show ?thesis
    by (simp add: summary_by_source_def summary_by_risk_def sum_list_fold_bump)
qed

section \<open>diff.py\<close>

record snapshot_diff =
  df_added :: "string list"
  df_removed :: "string list"
  df_changed :: "string list"
  df_unchanged :: "string list"
  df_risk_changed :: "string list"

definition diff_to_dict :: "snapshot_diff \<Rightarrow> pydict" where
  "diff_to_dict d =
     [(''summary'', PDict
        [(''added'', PInt (int (length (df_added d)))),
         (''removed'', PInt (int (length (df_removed d)))),
         (''changed'', PInt (int (length (df_changed d)))),
         (''unchanged'', PInt (int (length (df_unchanged d)))),
         (''risk_changed'', PInt (int (length (df_risk_changed d))))]),
      (''added'', strs (df_added d)),
      (''removed'', strs (df_removed d)),
      (''changed'', strs (df_changed d)),
      (''unchanged'', strs (df_unchanged d)),
      (''risk_changed'', strs (df_risk_changed d))]"

definition entry_key :: "pydict \<Rightarrow> string" where
  "entry_key skill = py_str (por (dget skill ''key'')
     (PStr (py_str (dget skill ''source'') @ ''/'' @ py_str (dget skill ''skill_id''))))"

definition entries_by_key :: "pyval \<Rightarrow> (string \<times> pydict) list res" where
  "entries_by_key index = bindR (as_dict index) (\<lambda>ix.
     bindR (py_iter (dget_or ix ''skills'' (PList []))) (\<lambda>skills.
     bindR (mapR as_dict skills) (\<lambda>ds.
       Inr (fold (\<lambda>d acc. AList.update (entry_key d) d acc) ds []))))"

definition diff_entries :: "(string \<times> pydict) list \<Rightarrow> (string \<times> pydict) list \<Rightarrow> snapshot_diff" where
  "diff_entries left right =
     (let added = sorted_set (filter (\<lambda>k. k \<notin> fst ` set left) (map fst right));
          removed = sorted_set (filter (\<lambda>k. k \<notin> fst ` set right) (map fst left));
          common = sorted_set (filter (\<lambda>k. k \<in> fst ` set right) (map fst left));
          entry = (\<lambda>d k. case map_of d k of None \<Rightarrow> [] | Some e \<Rightarrow> e);
          same = (\<lambda>field k. dget (entry left k) field = dget (entry right k) field)
      in \<lparr>df_added = added, df_removed = removed,
          df_changed = filter (\<lambda>k. \<not> same ''content_hash'' k) common,
          df_unchanged = filter (same ''content_hash'') common,
          df_risk_changed = filter (\<lambda>k. \<not> same ''risk_level'' k) common\<rparr>)"

definition diff_snapshot_indexes :: "pyval \<Rightarrow> pyval \<Rightarrow> snapshot_diff res" where
  "diff_snapshot_indexes left right = bindR (entries_by_key left) (\<lambda>l.
     bindR (entries_by_key right) (\<lambda>r. Inr (diff_entries l r)))"

lemma diff_entries_partition:
  "set (df_added d) = fst ` set r - fst ` set l"
  "set (df_removed d) = fst ` set l - fst ` set r"
  "set (df_changed d) \<union> set (df_unchanged d) = fst ` set l \<inter> fst ` set r"
  "set (df_changed d) \<inter> set (df_unchanged d) = {}"
  "set (df_risk_changed d) \<subseteq> fst ` set l \<inter> fst ` set r"
  if "d = diff_entries l r"
  unfolding that by (auto simp: diff_entries_def Let_def)

text \<open>a snapshot comparison classifies every key of the two indexes exactly once: added,
  removed, changed and unchanged are pairwise disjoint, sorted, and together are all the keys;
  swapping the two sides swaps added with removed and keeps the rest.\<close>

theorem diff_classifies_every_key:
  assumes "entries_by_key left = Inr l" "entries_by_key right = Inr r"
  shows "\<exists>d e. diff_snapshot_indexes left right = Inr d \<and> diff_snapshot_indexes right left = Inr e
    \<and> set (df_added d) \<union> set (df_removed d) \<union> set (df_changed d) \<union> set (df_unchanged d)
        = fst ` set l \<union> fst ` set r
    \<and> distinct (df_added d @ df_removed d @ df_changed d @ df_unchanged d)
    \<and> sorted (df_added d) \<and> sorted (df_changed d)
    \<and> df_added e = df_removed d \<and> df_removed e = df_added d
    \<and> df_changed e = df_changed d \<and> df_unchanged e = df_unchanged d"
proof -
  have common: "sorted_set (filter (\<lambda>k. k \<in> fst ` set l) (map fst r))
      = sorted_set (filter (\<lambda>k. k \<in> fst ` set r) (map fst l))"
    by (rule sorted_set_cong) auto
  have "set (df_added (diff_entries l r)) \<union> set (df_removed (diff_entries l r))
      \<union> set (df_changed (diff_entries l r)) \<union> set (df_unchanged (diff_entries l r)) = fst ` set l \<union> fst ` set r"
    using diff_entries_partition [OF refl, of l r] by auto
  moreover have "distinct (df_added (diff_entries l r) @ df_removed (diff_entries l r)
      @ df_changed (diff_entries l r) @ df_unchanged (diff_entries l r))"
    by (auto simp: diff_entries_def Let_def)
  moreover have "df_changed (diff_entries r l) = df_changed (diff_entries l r)"
    "df_unchanged (diff_entries r l) = df_unchanged (diff_entries l r)"
    unfolding diff_entries_def Let_def common by (auto intro!: filter_cong)
  moreover have "df_added (diff_entries r l) = df_removed (diff_entries l r)"
    "df_removed (diff_entries r l) = df_added (diff_entries l r)"
    "sorted (df_added (diff_entries l r))" "sorted (df_changed (diff_entries l r))"
    by (auto simp: diff_entries_def Let_def sorted_filter [of "\<lambda>x. x", simplified])
  ultimately show ?thesis using assms by (auto simp: diff_snapshot_indexes_def)
qed

definition demo_entry :: "string \<Rightarrow> string \<Rightarrow> pyval" where
  "demo_entry k h = PDict [(''key'', PStr k), (''skill_id'', PStr k), (''content_hash'', PStr h)]"

definition demo_index :: "(string \<times> string) list \<Rightarrow> pyval" where
  "demo_index es = PDict [(''snapshot_id'', PStr ''s1''), (''skills'', PList (map (\<lambda>(k, h). demo_entry k h) es))]"

theorem diff_classifies_every_key_witness:
  "\<exists>d. diff_snapshot_indexes (demo_index [(''a'', ''1''), (''b'', ''2'')]) (demo_index [(''b'', ''3''), (''c'', ''4'')]) = Inr d
     \<and> set (df_added d) \<union> set (df_removed d) \<union> set (df_changed d) \<union> set (df_unchanged d) = {''a'', ''b'', ''c''}"
proof -
  let ?e = "\<lambda>k h. (k, [(''key'', PStr k), (''skill_id'', PStr k), (''content_hash'', PStr h)])"
  have l: "entries_by_key (demo_index [(''a'', ''1''), (''b'', ''2'')]) = Inr [?e ''a'' ''1'', ?e ''b'' ''2'']"
    by (simp add: entries_by_key_def demo_index_def demo_entry_def entry_key_def por_def)
  have r: "entries_by_key (demo_index [(''b'', ''3''), (''c'', ''4'')]) = Inr [?e ''b'' ''3'', ?e ''c'' ''4'']"
    by (simp add: entries_by_key_def demo_index_def demo_entry_def entry_key_def por_def)
  show ?thesis using diff_classifies_every_key [OF l r] by auto
qed

end
