(* ===== verification/TextMatch.thy ===== *)
theory TextMatch
  imports PyBase
begin

text \<open>
  The text matching the scanner uses: \<open>fnmatch\<close> patterns, the regular expressions it searches
  for (by derivatives), and \<open>finditer\<close> over a one-position matcher that sees the previous
  character (for the look-behind assertions).
\<close>

section \<open>fnmatch\<close>

text \<open>The class between brackets: single characters and ranges.\<close>

fun class_has :: "string \<Rightarrow> char \<Rightarrow> bool" where
  "class_has [] c = False"
| "class_has [a] c = (a = c)"
| "class_has [a, b] c = (a = c \<or> b = c)"
| "class_has (a # b # d # r) c =
     (if b = CHR 0x2D then (of_char a :: nat) \<le> of_char c \<and> (of_char c :: nat) \<le> of_char d \<or> class_has r c
      else a = c \<or> class_has (b # d # r) c)"

text \<open>Split \<open>body]rest\<close> after an opening bracket: negation flag, body, rest. A \<open>]\<close> right after the
  bracket (or after \<open>!\<close>) belongs to the body; without a closing bracket there is no class.\<close>

definition split_class :: "string \<Rightarrow> (bool \<times> string \<times> string) option" where
  "split_class p =
     (let neg = (p \<noteq> [] \<and> hd p = CHR 0x21);
          q = (if neg then tl p else p);
          lead = (if q \<noteq> [] \<and> hd q = CHR 0x5D then [CHR 0x5D] else []);
          r = drop (length lead) q;
          body = takeWhile (\<lambda>c. c \<noteq> CHR 0x5D) r;
          rest = dropWhile (\<lambda>c. c \<noteq> CHR 0x5D) r
      in if rest = [] then None else Some (neg, lead @ body, tl rest))"

lemma split_class_length: "split_class p = Some (neg, b, r) \<Longrightarrow> length r < length p"
proof -
  assume a: "split_class p = Some (neg, b, r)"
  define q where "q = (if p \<noteq> [] \<and> hd p = CHR 0x21 then tl p else p)"
  define l where "l = (if q \<noteq> [] \<and> hd q = CHR 0x5D then [CHR 0x5D] else [])"
  define d where "d = dropWhile (\<lambda>c. c \<noteq> CHR 0x5D) (drop (length l) q)"
  have "split_class p = (if d = [] then None else Some (p \<noteq> [] \<and> hd p = CHR 0x21,
      l @ takeWhile (\<lambda>c. c \<noteq> CHR 0x5D) (drop (length l) q), tl d))"
    unfolding split_class_def q_def l_def d_def by (simp only: Let_def)
  with a have "d \<noteq> []" "r = tl d" by (simp_all split: if_splits)
  moreover have "length d \<le> length q"
    using length_dropWhile_le [of "\<lambda>c. c \<noteq> CHR 0x5D" "drop (length l) q"] by (simp add: d_def)
  moreover have "length q \<le> length p" by (simp add: q_def)
  ultimately show ?thesis by (cases d) auto
qed

function (sequential) fnmatch :: "string \<Rightarrow> string \<Rightarrow> bool" where
  "fnmatch s [] = (s = [])"
| "fnmatch s (c # p) =
     (if c = CHR 0x2A then fnmatch s p \<or> (if s = [] then False else fnmatch (tl s) (c # p))
      else if s = [] then False
      else if c = CHR 0x3F then fnmatch (tl s) p
      else if c = CHR 0x5B then
        (case split_class p of
           None \<Rightarrow> hd s = c \<and> fnmatch (tl s) p
         | Some (neg, body, rest) \<Rightarrow> class_has body (hd s) \<noteq> neg \<and> fnmatch (tl s) rest)
      else hd s = c \<and> fnmatch (tl s) p)"
  by pat_completeness auto
termination
  by (relation "measure (\<lambda>(s, p). length s + length p)")
    (auto dest!: split_class_length simp: neq_Nil_conv)

section \<open>Regular expressions by derivatives\<close>

datatype rx = RNone | REps | RCls "char \<Rightarrow> bool" | RSeq rx rx | RAlt rx rx | RStar rx

fun nullable :: "rx \<Rightarrow> bool" where
  "nullable RNone = False"
| "nullable REps = True"
| "nullable (RCls f) = False"
| "nullable (RSeq a b) = (nullable a \<and> nullable b)"
| "nullable (RAlt a b) = (nullable a \<or> nullable b)"
| "nullable (RStar a) = True"

fun deriv :: "char \<Rightarrow> rx \<Rightarrow> rx" where
  "deriv c RNone = RNone"
| "deriv c REps = RNone"
| "deriv c (RCls f) = (if f c then REps else RNone)"
| "deriv c (RSeq a b) =
     (if nullable a then RAlt (RSeq (deriv c a) b) (deriv c b) else RSeq (deriv c a) b)"
| "deriv c (RAlt a b) = RAlt (deriv c a) (deriv c b)"
| "deriv c (RStar a) = RSeq (deriv c a) (RStar a)"

text \<open>Some prefix matches; \<open>re.search\<close>: some prefix of some suffix matches.\<close>

fun rx_prefix :: "rx \<Rightarrow> string \<Rightarrow> bool" where
  "rx_prefix r s = (nullable r \<or> (case s of [] \<Rightarrow> False | c # cs \<Rightarrow> rx_prefix (deriv c r) cs))"

declare rx_prefix.simps [simp del]

fun rx_search :: "rx \<Rightarrow> string \<Rightarrow> bool" where
  "rx_search r [] = rx_prefix r []"
| "rx_search r (c # cs) = (rx_prefix r (c # cs) \<or> rx_search r cs)"

definition rx_chars :: "char list \<Rightarrow> rx" where
  "rx_chars cs = RCls (\<lambda>c. c \<in> set cs)"

fun rx_lit :: "string \<Rightarrow> rx" where
  "rx_lit [] = REps"
| "rx_lit (c # cs) = RSeq (RCls (\<lambda>d. d = c)) (rx_lit cs)"

definition rx_plus :: "rx \<Rightarrow> rx" where
  "rx_plus r = RSeq r (RStar r)"

inductive rx_lang :: "rx \<Rightarrow> string \<Rightarrow> bool" where
  "rx_lang REps []"
| "f c \<Longrightarrow> rx_lang (RCls f) [c]"
| "rx_lang a s \<Longrightarrow> rx_lang b t \<Longrightarrow> rx_lang (RSeq a b) (s @ t)"
| "rx_lang a s \<Longrightarrow> rx_lang (RAlt a b) s"
| "rx_lang b s \<Longrightarrow> rx_lang (RAlt a b) s"
| "rx_lang (RStar a) []"
| "rx_lang a s \<Longrightarrow> rx_lang (RStar a) t \<Longrightarrow> rx_lang (RStar a) (s @ t)"

inductive_simps rx_lang_simps:
  "rx_lang RNone s" "rx_lang REps s" "rx_lang (RCls f) s" "rx_lang (RSeq a b) s" "rx_lang (RAlt a b) s"

lemma nullable_lang: "nullable r \<longleftrightarrow> rx_lang r []"
  by (induction r) (auto simp: rx_lang_simps intro: rx_lang.intros)

lemma star_Cons: "rx_lang (RStar a) u \<Longrightarrow> u = c # w \<Longrightarrow>
  \<exists>s t. w = s @ t \<and> rx_lang a (c # s) \<and> rx_lang (RStar a) t"
proof (induction "RStar a" u arbitrary: w rule: rx_lang.induct)
  case (7 s t)
  then show ?case by (cases s) auto
qed auto

lemma deriv_lang: "rx_lang (deriv c r) s \<longleftrightarrow> rx_lang r (c # s)"
proof (induction r arbitrary: s)
  case (RSeq a b)
  have "rx_lang (RSeq a b) (c # s) \<longleftrightarrow>
      (\<exists>u v. s = u @ v \<and> rx_lang a (c # u) \<and> rx_lang b v) \<or> (rx_lang a [] \<and> rx_lang b (c # s))"
    by (auto simp: rx_lang_simps Cons_eq_append_conv)
  then show ?case using RSeq by (auto simp: rx_lang_simps nullable_lang)
next
  case (RStar a)
  have "rx_lang (RStar a) (c # s) \<longleftrightarrow> (\<exists>u v. s = u @ v \<and> rx_lang a (c # u) \<and> rx_lang (RStar a) v)"
    using star_Cons [of a "c # s" c s] rx_lang.intros(7) [of a "c # _"] by (auto simp: append_Cons [symmetric] simp del: append_Cons)
  then show ?case using RStar by (auto simp: rx_lang_simps)
qed (auto simp: rx_lang_simps)

lemma rx_prefix_iff: "rx_prefix r s \<longleftrightarrow> (\<exists>u v. s = u @ v \<and> rx_lang r u)"
proof (induction s arbitrary: r)
  case Nil
  then show ?case by (subst rx_prefix.simps) (simp add: nullable_lang)
next
  case (Cons c s)
  have "(\<exists>u v. c # s = u @ v \<and> rx_lang r u) \<longleftrightarrow> rx_lang r [] \<or> (\<exists>u v. s = u @ v \<and> rx_lang r (c # u))"
    by (auto simp: Cons_eq_append_conv)
  then show ?case using Cons by (subst rx_prefix.simps) (simp add: nullable_lang deriv_lang)
qed

text \<open>The search is exactly the search for a factor in the language.\<close>

lemma rx_search_iff: "rx_search r s \<longleftrightarrow> (\<exists>a u v. s = a @ u @ v \<and> rx_lang r u)"
proof (induction s)
  case Nil
  then show ?case by (simp add: rx_prefix_iff)
next
  case (Cons c s)
  have "(\<exists>a u v. c # s = a @ u @ v \<and> rx_lang r u)
      \<longleftrightarrow> (\<exists>u v. c # s = u @ v \<and> rx_lang r u) \<or> (\<exists>a u v. s = a @ u @ v \<and> rx_lang r u)"
    (is "?l \<longleftrightarrow> ?a \<or> ?b")
  proof
    assume ?l
    then obtain a u v where e: "c # s = a @ u @ v" "rx_lang r u" by blast
    then show "?a \<or> ?b" by (cases a) (simp, blast, simp, blast)
  next
    assume "?a \<or> ?b"
    then show ?l by (metis append_Cons append_Nil)
  qed
  then show ?case using Cons by (simp add: rx_prefix_iff)
qed

section \<open>finditer\<close>

text \<open>A matcher sees the previous character and the rest of the text, and answers the captured
  group and the number of characters it consumed.\<close>

function finditer :: "(char option \<Rightarrow> string \<Rightarrow> (string \<times> nat) option) \<Rightarrow> char option \<Rightarrow> string \<Rightarrow> string list" where
  "finditer m prev [] = []"
| "finditer m prev (c # cs) =
     (case m prev (c # cs) of
        None \<Rightarrow> finditer m (Some c) cs
      | Some (g, n) \<Rightarrow> g # finditer m (Some ((c # cs) ! (n - 1))) (drop (max 1 n) (c # cs)))"
  by pat_completeness auto
termination
  by (relation "measure (\<lambda>(m, prev, s). length s)") auto

definition word_char :: "char \<Rightarrow> bool" where
  "word_char c = (is_alnum c \<or> c = CHR 0x5F)"

end
