(* ===== verification/World.thy ===== *)
theory World
  imports FileTree
begin

text \<open>
  Operations on the file system as functions from a world to a result and a world, with the
  single injected fault of \<open>FileTree\<close>'s description, and the rules that compute them. A copied,
  deleted or written path that faults is left as the fault says (\<open>None\<close>: absent); making
  directories, renaming and unlinking have no partial effect.
\<close>

section \<open>Worlds and actions\<close>

record world =
  w_tree :: node
  w_fault :: "(nat \<times> node option) option"

text \<open>An action on a state of any type; on a world it is an \<open>io\<close>.\<close>

type_synonym ('s, 'a) act = "'s \<Rightarrow> 'a res \<times> 's"

type_synonym 'a io = "(world, 'a) act"

definition returnI :: "'a \<Rightarrow> ('s, 'a) act" where
  "returnI x w = (Inr x, w)"

definition raiseI :: "exn \<Rightarrow> ('s, 'a) act" where
  "raiseI e w = (Inl e, w)"

definition bindI :: "('s, 'a) act \<Rightarrow> ('a \<Rightarrow> ('s, 'b) act) \<Rightarrow> ('s, 'b) act" where
  "bindI m f w = (case m w of (Inl e, w') \<Rightarrow> (Inl e, w') | (Inr x, w') \<Rightarrow> f x w')"

definition thenI :: "('s, 'a) act \<Rightarrow> ('s, 'b) act \<Rightarrow> ('s, 'b) act" where
  "thenI m k = bindI m (\<lambda>_. k)"

definition liftI :: "'a res \<Rightarrow> ('s, 'a) act" where
  "liftI r w = (r, w)"

definition askI :: "('s \<Rightarrow> 'a) \<Rightarrow> ('s, 'a) act" where
  "askI f w = (Inr (f w), w)"

text \<open>\<open>try: m; except Exception as e: h(e)\<close>.\<close>

definition catchI :: "('s, 'a) act \<Rightarrow> (exn \<Rightarrow> ('s, 'a) act) \<Rightarrow> ('s, 'a) act" where
  "catchI m h w = (case m w of (Inl e, w') \<Rightarrow> h e w' | (Inr x, w') \<Rightarrow> (Inr x, w'))"

fun mapI :: "('a \<Rightarrow> ('s, 'b) act) \<Rightarrow> 'a list \<Rightarrow> ('s, 'b list) act" where
  "mapI f [] = returnI []"
| "mapI f (x # xs) = bindI (f x) (\<lambda>y. bindI (mapI f xs) (\<lambda>ys. returnI (y # ys)))"

fun foldI :: "('a \<Rightarrow> 'b \<Rightarrow> ('s, 'b) act) \<Rightarrow> 'a list \<Rightarrow> 'b \<Rightarrow> ('s, 'b) act" where
  "foldI f [] s = returnI s"
| "foldI f (x # xs) s = bindI (f x s) (foldI f xs)"

lemmas io_defs = returnI_def raiseI_def bindI_def thenI_def liftI_def askI_def catchI_def

lemma bindI_Inr: "m w = (Inr x, w') \<Longrightarrow> bindI m f w = f x w'"
  by (simp add: bindI_def)

lemma bindI_Inl: "m w = (Inl e, w') \<Longrightarrow> bindI m f w = (Inl e, w')"
  by (simp add: bindI_def)

lemma bindI_eq_Inr: "bindI m f w = (Inr y, w2) \<longleftrightarrow> (\<exists>x w1. m w = (Inr x, w1) \<and> f x w1 = (Inr y, w2))"
  by (auto simp: bindI_def split: prod.splits sum.splits)

lemma thenI_Inr: "m w = (Inr x, w') \<Longrightarrow> thenI m k w = k w'"
  by (simp add: thenI_def bindI_Inr)

lemma thenI_Inl: "m w = (Inl e, w') \<Longrightarrow> thenI m k w = (Inl e, w')"
  by (simp add: thenI_def bindI_Inl)

lemma thenI_eq_Inr: "thenI m k w = (Inr y, w2) \<longleftrightarrow> (\<exists>x w1. m w = (Inr x, w1) \<and> k w1 = (Inr y, w2))"
  by (simp add: thenI_def bindI_eq_Inr)

section \<open>Queries\<close>

definition at :: "world \<Rightarrow> path \<Rightarrow> node option" where
  "at w p = lookup (w_tree w) (norm_path p)"

definition exists :: "world \<Rightarrow> path \<Rightarrow> bool" where
  "exists w p = (at w p \<noteq> None)"

definition is_dir :: "world \<Rightarrow> path \<Rightarrow> bool" where
  "is_dir w p = (case at w p of Some (NDir es) \<Rightarrow> True | _ \<Rightarrow> False)"

definition is_file :: "world \<Rightarrow> path \<Rightarrow> bool" where
  "is_file w p = (case at w p of Some (NFile d) \<Rightarrow> True | _ \<Rightarrow> False)"

text \<open>\<open>sorted(p.iterdir())\<close> as names; a directory never lists its parent.\<close>

definition iterdir :: "world \<Rightarrow> path \<Rightarrow> string list" where
  "iterdir w p = (case at w p of Some (NDir es) \<Rightarrow> filter (\<lambda>n. n \<noteq> ''..'') (sorted_set (map fst es)) | _ \<Rightarrow> [])"

lemma iterdir_no_parent [simp]: "''..'' \<notin> set (iterdir w p)"
  by (auto simp: iterdir_def split: option.splits node.splits)

definition os_error :: "string \<Rightarrow> path \<Rightarrow> exn" where
  "os_error what p = Exn OSError (what @ '': '' @ in_quotes (path_str p))"

definition read_data :: "path \<Rightarrow> fdata io" where
  "read_data p w = (case at w p of
      Some (NFile d) \<Rightarrow> (Inr d, w)
    | Some (NDir es) \<Rightarrow> (Inl (os_error ''[Errno 21] Is a directory'' p), w)
    | None \<Rightarrow> (Inl (os_error ''[Errno 2] No such file or directory'' p), w))"

text \<open>\<open>json.loads\<close> of what a file holds.\<close>

definition json_loads :: "fdata \<Rightarrow> pyval res" where
  "json_loads d = (case d of Json v \<Rightarrow> Inr v
     | _ \<Rightarrow> Inl (Exn JSONDecodeError ''Expecting value: line 1 column 1 (char 0)''))"

definition read_json :: "path \<Rightarrow> pyval io" where
  "read_json p = bindI (read_data p) (\<lambda>d. liftI (json_loads d))"

definition manifest_name :: string where
  "manifest_name = ''.skill-sync/manifest.json''"

text \<open>Open an archive and read one member: not a zip, or no such member, raises. Of two members with
  one name the later is read.\<close>

definition zip_members :: "world \<Rightarrow> path \<Rightarrow> (string \<times> fdata) list res" where
  "zip_members w p = bindR (fst (read_data p w)) (\<lambda>d.
     case d of Archive ms \<Rightarrow> Inr ms | _ \<Rightarrow> Inl (Exn BadZipFile ''File is not a zip file''))"

definition zip_read :: "(string \<times> fdata) list \<Rightarrow> string \<Rightarrow> fdata res" where
  "zip_read ms name = (case map_of (rev ms) name of Some d \<Rightarrow> Inr d
     | None \<Rightarrow> Inl (Exn KeyError (''There is no item named '' @ str_repr name @ '' in the archive'')))"

lemma read_data_keeps: "snd (read_data p w) = w"
  by (auto simp: read_data_def split: option.splits node.splits)

lemma read_json_keeps: "snd (read_json p w) = w"
  using read_data_keeps [of p w]
  by (auto simp: read_json_def bindI_def liftI_def split: prod.splits sum.splits)

section \<open>Writing operations\<close>

text \<open>Spend one writing operation; \<open>Some part\<close> says that it faults now.\<close>

fun tick :: "world \<Rightarrow> node option option \<times> world" where
  "tick w = (case w_fault w of
      None \<Rightarrow> (None, w)
    | Some (0, part) \<Rightarrow> (Some part, w\<lparr>w_fault := None\<rparr>)
    | Some (Suc k, part) \<Rightarrow> (None, w\<lparr>w_fault := Some (k, part)\<rparr>))"

definition io_fault :: exn where
  "io_fault = Exn OSError ''[Errno 28] No space left on device''"

definition leave :: "path \<Rightarrow> node option \<Rightarrow> world \<Rightarrow> world" where
  "leave p part w = (case part of
      None \<Rightarrow> w\<lparr>w_tree := del (w_tree w) p\<rparr>
    | Some n \<Rightarrow> w\<lparr>w_tree := put (w_tree w) p n\<rparr>)"

text \<open>An effect that, when it faults, leaves a partial node at \<open>p\<close>; and one that faults without effect.\<close>

definition step_at :: "path \<Rightarrow> (node \<Rightarrow> node) \<Rightarrow> unit io" where
  "step_at p f w = (case tick w of
      (Some part, w') \<Rightarrow> (Inl io_fault, leave p part w')
    | (None, w') \<Rightarrow> (Inr (), w'\<lparr>w_tree := f (w_tree w')\<rparr>))"

definition step_clean :: "(node \<Rightarrow> node) \<Rightarrow> unit io" where
  "step_clean f w = (case tick w of
      (Some part, w') \<Rightarrow> (Inl io_fault, w')
    | (None, w') \<Rightarrow> (Inr (), w'\<lparr>w_tree := f (w_tree w')\<rparr>))"

text \<open>\<open>p.mkdir(parents=True, exist_ok=True)\<close>.\<close>

definition mkdirs :: "path \<Rightarrow> unit io" where
  "mkdirs p w = (let q = norm_path p in
     if \<not> parent_ok (w_tree w) q \<or> is_file w p
     then (Inl (os_error ''[Errno 17] File exists'' q), w)
     else if is_dir w p then (Inr (), w)
     else step_clean (\<lambda>t. put t q (NDir [])) w)"

text \<open>\<open>p.write_text(...)\<close>, \<open>p.write_bytes(...)\<close>.\<close>

definition write_data :: "path \<Rightarrow> fdata \<Rightarrow> unit io" where
  "write_data p d w = (let q = norm_path p in
     if q = [] \<or> is_dir w p then (Inl (os_error ''[Errno 21] Is a directory'' q), w)
     else if \<not> dir_at (w_tree w) (butlast q) then (Inl (os_error ''[Errno 2] No such file or directory'' q), w)
     else step_at q (\<lambda>t. put t q (NFile d)) w)"

text \<open>\<open>shutil.copytree(s, d)\<close> and \<open>shutil.copy2(s, d)\<close>.\<close>

definition copytree :: "path \<Rightarrow> path \<Rightarrow> unit io" where
  "copytree s d w = (let q = norm_path d in
     case at w s of
       Some (NDir es) \<Rightarrow>
         (if exists w d \<or> \<not> parent_ok (w_tree w) q then (Inl (os_error ''[Errno 17] File exists'' q), w)
          else step_at q (\<lambda>t. put t q (NDir es)) w)
     | Some (NFile f) \<Rightarrow> (Inl (os_error ''[Errno 20] Not a directory'' s), w)
     | None \<Rightarrow> (Inl (os_error ''[Errno 2] No such file or directory'' s), w))"

definition copy_file :: "path \<Rightarrow> path \<Rightarrow> unit io" where
  "copy_file s d w = (case at w s of
       Some (NFile f) \<Rightarrow> write_data d f w
     | Some (NDir es) \<Rightarrow> (Inl (os_error ''[Errno 21] Is a directory'' s), w)
     | None \<Rightarrow> (Inl (os_error ''[Errno 2] No such file or directory'' s), w))"

text \<open>\<open>shutil.rmtree(p)\<close> and \<open>p.unlink()\<close>.\<close>

definition rmtree :: "path \<Rightarrow> unit io" where
  "rmtree p w = (let q = norm_path p in
     if q \<noteq> [] \<and> is_dir w p then step_at q (\<lambda>t. del t q) w
     else (Inl (os_error ''[Errno 20] Not a directory'' q), w))"

definition unlink :: "path \<Rightarrow> unit io" where
  "unlink p w = (let q = norm_path p in
     if is_file w p \<and> q \<noteq> [] then step_clean (\<lambda>t. del t q) w
     else (Inl (os_error ''[Errno 2] No such file or directory'' q), w))"

text \<open>\<open>os.replace(p, q)\<close>: a file replaces a file, a directory replaces an empty directory.\<close>

definition replace_path :: "path \<Rightarrow> path \<Rightarrow> unit io" where
  "replace_path p d w = (let s = norm_path p; q = norm_path d in
     case at w p of
       None \<Rightarrow> (Inl (os_error ''[Errno 2] No such file or directory'' s), w)
     | Some n \<Rightarrow>
         (if s = [] \<or> \<not> dir_at (w_tree w) (butlast q) then (Inl (os_error ''[Errno 2] No such file or directory'' q), w)
          else if prefix s q \<and> s \<noteq> q then (Inl (os_error ''[Errno 22] Invalid argument'' q), w)
          else if s = q then (Inr (), w)
          else (case (n, at w d) of
             (NFile f, Some (NDir es)) \<Rightarrow> (Inl (os_error ''[Errno 21] Is a directory'' q), w)
           | (NDir es, Some (NFile f)) \<Rightarrow> (Inl (os_error ''[Errno 20] Not a directory'' q), w)
           | (NDir es, Some (NDir (x # xs))) \<Rightarrow> (Inl (os_error ''[Errno 66] Directory not empty'' q), w)
           | _ \<Rightarrow> step_clean (\<lambda>t. put (del t s) q n) w)))"

section \<open>How the writing operations compute\<close>

abbreviation "no_fault w \<equiv> w_fault w = None"

lemma step_at_no_fault: "no_fault w \<Longrightarrow> step_at p f w = (Inr (), w\<lparr>w_tree := f (w_tree w)\<rparr>)"
  by (simp add: step_at_def)

lemma step_clean_no_fault: "no_fault w \<Longrightarrow> step_clean f w = (Inr (), w\<lparr>w_tree := f (w_tree w)\<rparr>)"
  by (simp add: step_clean_def)

lemma at_clean: "clean p \<Longrightarrow> at w p = lookup (w_tree w) p"
  by (simp add: at_def)

lemma is_dir_dir_at: "clean p \<Longrightarrow> is_dir w p = dir_at (w_tree w) p"
  by (simp add: is_dir_def at_def dir_at_def split: option.splits node.splits)

text \<open>
  What a step may change when it can fault: either it does its work, or it raises, the fault is
  spent, and the tree differs only under \<open>p\<close>.
\<close>

lemma step_at_cases:
  obtains (ok) w' where "step_at p f w = (Inr (), w')" "w_tree w' = f (w_tree w)"
    "w_fault w = None \<Longrightarrow> w_fault w' = None"
  | (fault) part w' where "step_at p f w = (Inl io_fault, w')" "w_tree w' = w_tree (leave p part w)"
    "w_fault w' = None"
proof (cases "w_fault w")
  case None
  then show ?thesis by (intro ok [of "w\<lparr>w_tree := f (w_tree w)\<rparr>"]) (auto simp: step_at_def)
next
  case (Some kp)
  obtain k part where kp: "kp = (k, part)" by (cases kp)
  show ?thesis
  proof (cases k)
    case 0
    with Some kp show ?thesis
      by (intro fault [of "leave p part (w\<lparr>w_fault := None\<rparr>)" part])
        (auto simp: step_at_def leave_def split: option.splits)
  next
    case (Suc n)
    with Some kp show ?thesis
      by (intro ok [of "w\<lparr>w_fault := Some (n, part), w_tree := f (w_tree w)\<rparr>"]) (auto simp: step_at_def)
  qed
qed

lemma step_clean_cases:
  obtains (ok) w' where "step_clean f w = (Inr (), w')" "w_tree w' = f (w_tree w)"
    "w_fault w = None \<Longrightarrow> w_fault w' = None"
  | (fault) w' where "step_clean f w = (Inl io_fault, w')" "w_tree w' = w_tree w" "w_fault w' = None"
proof (cases "w_fault w")
  case None
  then show ?thesis by (intro ok [of "w\<lparr>w_tree := f (w_tree w)\<rparr>"]) (auto simp: step_clean_def)
next
  case (Some kp)
  obtain k part where kp: "kp = (k, part)" by (cases kp)
  show ?thesis
  proof (cases k)
    case 0
    with Some kp show ?thesis
      by (intro fault [of "w\<lparr>w_fault := None\<rparr>"]) (auto simp: step_clean_def)
  next
    case (Suc n)
    with Some kp show ?thesis
      by (intro ok [of "w\<lparr>w_fault := Some (n, part), w_tree := f (w_tree w)\<rparr>"]) (auto simp: step_clean_def)
  qed
qed

lemma leave_apart: "apart p q \<Longrightarrow> lookup (w_tree (leave p part w)) q = lookup (w_tree w) q"
  by (auto simp: leave_def lookup_put_apart lookup_del_apart split: option.splits)

end
