(* ===== verification/Scanner.thy ===== *)
theory Scanner
  imports SkillModel TextMatch World
begin

text \<open>
  \<open>scanner.py\<close>: which files of a skill directory count, the front matter and the manifest, the
  issues a skill is given, its content hash, and the scan of a list of roots. Everything here
  reads the file system and changes nothing.

  A \<open>host\<close> carries what the scanner takes from the machine: the SHA-256 digest and the size of what
  a file holds, and the text of a JSON document. Text is ASCII: a file whose bytes are not is read
  as undecodable.
\<close>

section \<open>The host\<close>

record host =
  h_sha :: "fdata \<Rightarrow> string"
  h_size :: "fdata \<Rightarrow> int"
  h_dumps :: "pyval \<Rightarrow> string"

definition ascii_text :: "string \<Rightarrow> bool" where
  "ascii_text s = list_all (\<lambda>c. (of_char c :: nat) < 128) s"

definition file_text :: "host \<Rightarrow> fdata \<Rightarrow> string option" where
  "file_text H d = (case d of Raw s \<Rightarrow> (if ascii_text s then Some s else None)
     | Json v \<Rightarrow> Some (h_dumps H v) | Archive ms \<Rightarrow> None)"

section \<open>Which files count\<close>

definition default_excluded_dirs :: "string list" where
  "default_excluded_dirs = [''.cache'', ''.git'', ''.hg'', ''.next'', ''.pytest_cache'', ''.ruff_cache'',
     ''.svn'', ''.skill-sync-backups'', ''.skill-sync-bases'', ''.skill-sync-removed'', ''.tox'', ''.venv'',
     ''__pycache__'', ''build'', ''dist'', ''logs'', ''node_modules'', ''target'', ''tmp'', ''venv'']"

definition default_excluded_files :: "string list" where
  "default_excluded_files = [''.DS_Store'', ''.encryption-key'', ''.env'', ''.env.local'', ''.npmrc'', ''.pypirc'']"

definition default_excluded_file_patterns :: "string list" where
  "default_excluded_file_patterns = [''.env.*'', ''*.key'', ''*.pem'', ''*.p12'', ''*.pfx'', ''id_rsa'', ''id_dsa'',
     ''id_ecdsa'', ''id_ed25519'', ''*.bak'', ''*.bak-*'', ''*.bak.*'', ''*.orig'', ''*~'']"

definition default_excluded_path_patterns :: "string list" where
  "default_excluded_path_patterns = [''data/session-timers'', ''data/session-timers/*'',
     ''data/session-archives'', ''data/session-archives/*'']"

definition slash :: char where
  "slash = CHR 0x2F"

fun is_excluded :: "string \<Rightarrow> string list \<Rightarrow> bool" where
  "is_excluded rel [] = False"
| "is_excluded rel (pattern # ps) =
     (let cl = strip_set [slash] pattern in
      if cl = [] then is_excluded rel ps
      else if rel = cl \<or> starts_with rel (cl @ [slash]) then True
      else if fnmatch rel cl \<or> fnmatch (path_name (path_of rel)) cl then True
      else is_excluded rel ps)"

definition is_default_excluded_file :: "string \<Rightarrow> bool" where
  "is_default_excluded_file filename = (filename \<in> set default_excluded_files
     \<or> list_ex (fnmatch filename) default_excluded_file_patterns)"

definition is_default_excluded_path :: "string \<Rightarrow> bool" where
  "is_default_excluded_path rel = (let cl = strip_set [slash] rel in
     list_ex (fnmatch cl) default_excluded_path_patterns)"

definition is_hidden_vendor_dir :: "string \<Rightarrow> bool" where
  "is_hidden_vendor_dir dirname = (starts_with dirname ''.'' \<and> dirname \<notin> set [''.well-known''])"

definition is_nested_skill_dir :: "node \<Rightarrow> bool" where
  "is_nested_skill_dir n = (lookup n [''SKILL.md''] \<noteq> None)"

definition keep_dir :: "string list \<Rightarrow> string \<Rightarrow> string \<Rightarrow> node \<Rightarrow> bool" where
  "keep_dir excludes dirname rel n =
     (dirname \<notin> set default_excluded_dirs
      \<and> \<not> is_hidden_vendor_dir dirname
      \<and> \<not> is_nested_skill_dir n
      \<and> \<not> is_default_excluded_path rel
      \<and> \<not> is_excluded rel excludes)"

definition keep_file :: "string list \<Rightarrow> string \<Rightarrow> string \<Rightarrow> bool" where
  "keep_file excludes filename rel =
     (\<not> is_default_excluded_file filename \<and> \<not> is_default_excluded_path rel \<and> \<not> is_excluded rel excludes)"

text \<open>The top-down walk: the kept files of a directory in name order, then its kept
  subdirectories in name order. \<open>pre\<close> is the relative path of the directory with a final slash.\<close>

fun iter_skill_files :: "string list \<Rightarrow> string \<Rightarrow> node \<Rightarrow> (string \<times> fdata) list" where
  "iter_skill_files ex pre (NFile d) = []"
| "iter_skill_files ex pre (NDir es) =
     concat (map snd (sort_items (map (\<lambda>(n, m). (n, case m of
        NFile d \<Rightarrow> (if keep_file ex n (pre @ n) then [(pre @ n, d)] else [])
      | NDir sub \<Rightarrow> [])) es)))
   @ concat (map snd (sort_items (map (\<lambda>(n, m). (n,
        if keep_dir ex n (pre @ n) m then iter_skill_files ex (pre @ n @ ''/'') m else [])) es)))"

text \<open>\<open>discover_skill_files\<close>: the walk of a root, down to every directory that holds a \<open>SKILL.md\<close>.\<close>

fun discover_skill_files :: "path \<Rightarrow> node \<Rightarrow> path list" where
  "discover_skill_files p (NFile d) = []"
| "discover_skill_files p (NDir es) =
     (if (case map_of es ''SKILL.md'' of Some (NFile d) \<Rightarrow> True | _ \<Rightarrow> False) then [p @ [''SKILL.md'']] else [])
   @ concat (map snd (sort_items (map (\<lambda>(n, m). (n,
        if n \<notin> set default_excluded_dirs \<and> \<not> is_hidden_vendor_dir n
        then discover_skill_files (p @ [n]) m else [])) es)))"

lemma iter_skill_files_kept:
  "(rel, d) \<in> set (iter_skill_files ex pre n) \<Longrightarrow>
     \<exists>name. keep_file ex name rel \<and> (\<exists>p. rel = p @ name)"
proof (induction ex pre n rule: iter_skill_files.induct)
  case (2 ex pre es)
  from "2.prems" consider
      (leaf) n d' where "(n, NFile d') \<in> set es" "keep_file ex n (pre @ n)" "rel = pre @ n"
    | (sub) n m where "(n, m) \<in> set es" "(rel, d) \<in> set (iter_skill_files ex (pre @ n @ ''/'') m)"
        "keep_dir ex n (pre @ n) m"
    by (auto split: node.splits if_splits prod.splits)
  then show ?case
  proof cases
    case sub
    show ?thesis using "2.IH" [of "(n, m)" n m] sub by auto
  qed auto
qed simp

section \<open>Front matter\<close>

text \<open>The pattern's tail: \<open>\s*\n\<close> right here, with every way to place the newline, last first.\<close>

fun ws_newline_rests :: "string \<Rightarrow> string list" where
  "ws_newline_rests [] = []"
| "ws_newline_rests (c # cs) =
     (if c \<in> set py_space then ws_newline_rests cs @ (if c = CHR 0x0A then [cs] else []) else [])"

definition fence_here :: "string \<Rightarrow> bool" where
  "fence_here s = (starts_with s (newline @ ''---'') \<and> ws_newline_rests (drop 4 s) \<noteq> [])"

fun body_before_fence :: "string \<Rightarrow> string option" where
  "body_before_fence [] = None"
| "body_before_fence (c # cs) =
     (if fence_here (c # cs) then Some [] else map_option (\<lambda>b. c # b) (body_before_fence cs))"

definition front_matter :: "string \<Rightarrow> string option" where
  "front_matter s = (if starts_with s ''---''
     then (case List.map_filter body_before_fence (ws_newline_rests (drop 3 s)) of [] \<Rightarrow> None | b # bs \<Rightarrow> Some b)
     else None)"

definition line_breaks :: "char list" where
  "line_breaks = [CHR 0x0A, CHR 0x0D, CHR 0x0B, CHR 0x0C, CHR 0x1C, CHR 0x1D, CHR 0x1E]"

text \<open>\<open>str.splitlines()\<close>: no empty last line after a final break.\<close>

fun splitlines_acc :: "string \<Rightarrow> string \<Rightarrow> string list" where
  "splitlines_acc acc [] = (if acc = [] then [] else [rev acc])"
| "splitlines_acc acc (c # cs) =
     (if c = CHR 0x0D \<and> cs \<noteq> [] \<and> hd cs = CHR 0x0A then rev acc # splitlines_acc [] (tl cs)
      else if c \<in> set line_breaks then rev acc # splitlines_acc [] cs
      else splitlines_acc (c # acc) cs)"

definition splitlines :: "string \<Rightarrow> string list" where
  "splitlines s = splitlines_acc [] s"

text \<open>The indented lines of a block value, stripped, and the lines after them.\<close>

fun take_block :: "string list \<Rightarrow> string list \<times> string list" where
  "take_block [] = ([], [])"
| "take_block (l # ls) =
     (if l \<noteq> [] \<and> \<not> starts_with l '' '' \<and> \<not> starts_with l [CHR 0x09] then ([], l # ls)
      else (case take_block ls of (b, rest) \<Rightarrow> ((if strip l \<noteq> [] then strip l # b else b), rest)))"

lemma take_block_length: "take_block ls = (b, rest) \<Longrightarrow> length rest \<le> length ls"
  by (induction ls arbitrary: b rest) (auto split: if_splits prod.splits simp: le_SucI)

function metadata_lines :: "string list \<Rightarrow> pydict \<Rightarrow> pydict" where
  "metadata_lines [] md = md"
| "metadata_lines (line # ls) md =
     (if CHR 0x3A \<notin> set line \<or> starts_with (lstrip_set py_space line) ''#'' then metadata_lines ls md
      else
        (let key = strip (takeWhile (\<lambda>c. c \<noteq> CHR 0x3A) line);
             val = strip_set [CHR 0x27] (strip_set [CHR 0x22] (strip (tl (dropWhile (\<lambda>c. c \<noteq> CHR 0x3A) line))))
         in if key \<in> set [''name'', ''description''] then
              (if val \<in> set [''|'', ''>''] then
                 (case take_block ls of (b, rest) \<Rightarrow>
                    metadata_lines rest (dset md key (PStr (strip (join_str '' '' b)))))
               else metadata_lines ls (dset md key (PStr val)))
            else metadata_lines ls md))"
  by pat_completeness auto
termination
  by (relation "measure (\<lambda>(ls, md). length ls)") (auto dest!: take_block_length [OF sym])

definition parse_skill_metadata :: "host \<Rightarrow> world \<Rightarrow> path \<Rightarrow> pydict" where
  "parse_skill_metadata H w skill_md = (case read_data skill_md w of
      (Inl e, _) \<Rightarrow> [(''_read_error'', PStr (exn_text e))]
    | (Inr d, _) \<Rightarrow> (case file_text H d of
          None \<Rightarrow> [(''_decode_error'', PStr ''SKILL.md is not valid UTF-8'')]
        | Some text \<Rightarrow> (case front_matter text of
              None \<Rightarrow> []
            | Some body \<Rightarrow> metadata_lines (splitlines body) [])))"

section \<open>The manifest\<close>

definition manifest_not_object :: string where
  "manifest_not_object = ''manifest.json must contain a JSON object''"

definition parse_skill_manifest :: "world \<Rightarrow> path \<Rightarrow> pydict" where
  "parse_skill_manifest w p =
     (if \<not> exists w p then []
      else (case fst (read_json p w) of
          Inl e \<Rightarrow> [(''_manifest_error'', PStr (exn_text e))]
        | Inr (PDict d) \<Rightarrow> d
        | Inr _ \<Rightarrow> [(''_manifest_error'', PStr manifest_not_object)]))"

text \<open>\<open>v in {strings}\<close> hashes \<open>v\<close>, which a list or a dictionary refuses.\<close>

definition in_str_set :: "pyval \<Rightarrow> string list \<Rightarrow> bool res" where
  "in_str_set v xs = (case v of
      PList ys \<Rightarrow> Inl (Exn TypeError (''unhashable type: '' @ in_quotes ''list''))
    | PDict d \<Rightarrow> Inl (Exn TypeError (''unhashable type: '' @ in_quotes ''dict''))
    | PStr s \<Rightarrow> Inr (s \<in> set xs)
    | _ \<Rightarrow> Inr False)"

definition manifest_issue :: "path \<Rightarrow> string \<Rightarrow> string \<Rightarrow> string \<Rightarrow> skill_issue" where
  "manifest_issue skill_dir sev code msg =
     \<lparr>si_severity = sev, si_code = code, si_message = msg, si_path = Some (path_str (skill_dir @ [''manifest.json'']))\<rparr>"

definition validate_manifest :: "path \<Rightarrow> pydict \<Rightarrow> skill_issue list res" where
  "validate_manifest skill_dir manifest =
     (let err = dget manifest ''_manifest_error'';
          scope = dget manifest ''scope'';
          not_list = (\<lambda>k. dget manifest k \<noteq> PNone \<and> \<not> is_list (dget manifest k));
          warn = manifest_issue skill_dir ''warning''
      in if truthy err then Inr [manifest_issue skill_dir ''error'' ''invalid_manifest'' (py_str err)]
         else bindR (if truthy scope then in_str_set scope [''global'', ''project''] else Inr True) (\<lambda>scope_ok.
           Inr ((if scope_ok then [] else [warn ''invalid_scope'' ''manifest scope should be global or project.''])
             @ (if not_list ''targets'' then [warn ''invalid_targets'' ''manifest targets should be a list.''] else [])
             @ (if not_list ''exclude'' then [warn ''invalid_exclude'' ''manifest exclude should be a list.''] else [])
             @ (if not_list ''external_references''
                then [warn ''invalid_external_references'' ''manifest external_references should be a list of relative paths.'']
                else []))))"

section \<open>References in the text\<close>

definition normalize_reference_path :: "string \<Rightarrow> string" where
  "normalize_reference_path raw = (let s = rstrip_set ''.,;:'' (strip raw) in
     if starts_with s ''./'' then drop 2 s else s)"

definition package_char :: "char \<Rightarrow> bool" where
  "package_char c = (is_alnum c \<or> c \<in> set ''._/-'')"

definition package_path_at :: "char option \<Rightarrow> string \<Rightarrow> (string \<times> nat) option" where
  "package_path_at prev s =
     (let blocked = (case prev of None \<Rightarrow> False | Some c \<Rightarrow> word_char c \<or> c \<in> set ''/.-'');
          skip = (if starts_with s ''./'' then 2 else 0);
          t = drop skip s;
          run = takeWhile package_char (drop 8 t)
      in if \<not> blocked \<and> starts_with t ''scripts/'' \<and> run \<noteq> []
         then Some (''scripts/'' @ run, skip + 8 + length run) else None)"

definition extract_referenced_package_paths :: "string \<Rightarrow> string list" where
  "extract_referenced_package_paths text =
     sorted_set (map normalize_reference_path (finditer package_path_at None text))"

definition local_path_stops :: "char list" where
  "local_path_stops = py_space @ [CHR 0x60, CHR 0x27, CHR 0x22, CHR 0x29, CHR 0x2C, CHR 0x5D]"

definition local_path_heads :: "string list" where
  "local_path_heads = [''/home/'', ''/Users/'', ''/opt/'', ''/var/'', ''/etc/'', ''/private/'', ''/tmp/'']"

definition local_path_at :: "char option \<Rightarrow> string \<Rightarrow> (string \<times> nat) option" where
  "local_path_at prev s =
     (let blocked = (case prev of None \<Rightarrow> False | Some c \<Rightarrow> word_char c \<or> c \<in> set '':/.-'')
      in if blocked then None
         else (case filter (starts_with s) local_path_heads of
             [] \<Rightarrow> None
           | h # hs \<Rightarrow> (let run = takeWhile (\<lambda>c. c \<notin> set local_path_stops) (drop (length h) s)
               in if run = [] then None else Some (h @ run, length h + length run))))"

definition external_absolute_paths :: "string \<Rightarrow> string list" where
  "external_absolute_paths text =
     sorted_set (map (rstrip_set ''.,;:'') (finditer local_path_at None text))"

definition collect_missing_referenced_package_files ::
    "world \<Rightarrow> path \<Rightarrow> pydict \<Rightarrow> string \<Rightarrow> string list res" where
  "collect_missing_referenced_package_files w skill_dir manifest text =
     bindR (py_iter (por (dget manifest ''external_references'') (PList []))) (\<lambda>refs.
       let allowed = List.map_filter (\<lambda>v. case v of PStr s \<Rightarrow> Some (normalize_reference_path s) | _ \<Rightarrow> None) refs
       in Inr (filter (\<lambda>rel. rel \<notin> set allowed \<and> \<not> exists w (path_div skill_dir rel))
            (extract_referenced_package_paths text)))"

section \<open>Issues of a skill\<close>

definition rx_space :: rx where
  "rx_space = rx_chars py_space"

definition rx_not :: "char list \<Rightarrow> rx" where
  "rx_not cs = RCls (\<lambda>c. c \<notin> set cs)"

definition rx_pipe_shell :: "string \<Rightarrow> rx" where
  "rx_pipe_shell tool = RSeq (rx_lit tool) (RSeq (rx_plus rx_space)
     (RSeq (rx_plus (rx_not [CHR 0x7C, CHR 0x0A])) (RSeq (rx_lit ''|'') (RSeq (RStar rx_space)
       (RAlt (rx_lit ''sh'') (RAlt (rx_lit ''bash'') (rx_lit ''zsh'')))))))"

definition rx_destructive_rm :: rx where
  "rx_destructive_rm = RSeq (rx_lit ''rm'') (RSeq (rx_plus rx_space) (RSeq (rx_lit ''-'')
     (RSeq (RStar (rx_not newline)) (RSeq (rx_lit ''r'') (RSeq (RStar (rx_not newline)) (rx_lit ''f''))))))"

definition sudo_at :: "char option \<Rightarrow> string \<Rightarrow> (string \<times> nat) option" where
  "sudo_at prev s = (if (case prev of None \<Rightarrow> True | Some c \<Rightarrow> \<not> word_char c) \<and> starts_with s ''sudo''
       \<and> (case drop 4 s of [] \<Rightarrow> True | c # cs \<Rightarrow> \<not> word_char c)
     then Some (''sudo'', 4) else None)"

definition risky_codes :: "string \<Rightarrow> string list" where
  "risky_codes text =
     (if rx_search (rx_pipe_shell ''curl'') text then [''curl_pipe_shell''] else [])
   @ (if rx_search (rx_pipe_shell ''wget'') text then [''wget_pipe_shell''] else [])
   @ (if rx_search rx_destructive_rm text then [''destructive_rm''] else [])
   @ (if finditer sudo_at None text \<noteq> [] then [''sudo_command''] else [])"

definition max_recommended_skill_size :: int where
  "max_recommended_skill_size = 10 * 1024 * 1024"

definition max_recommended_file_count :: int where
  "max_recommended_file_count = 500"

definition skill_text :: "host \<Rightarrow> world \<Rightarrow> path \<Rightarrow> string" where
  "skill_text H w skill_md = (case at w skill_md of
      Some (NFile d) \<Rightarrow> (case file_text H d of Some t \<Rightarrow> t | None \<Rightarrow> [])
    | _ \<Rightarrow> [])"

definition validate_skill ::
    "host \<Rightarrow> world \<Rightarrow> path \<Rightarrow> path \<Rightarrow> pydict \<Rightarrow> skill_file list \<Rightarrow> int \<Rightarrow> pydict \<Rightarrow> skill_issue list res" where
  "validate_skill H w skill_dir skill_md metadata files size_bytes manifest =
     (let issue = (\<lambda>sev code msg p. \<lparr>si_severity = sev, si_code = code, si_message = msg, si_path = Some (path_str p)\<rparr>);
          text = skill_text H w skill_md;
          md = dget metadata
      in bindR (collect_missing_referenced_package_files w skill_dir manifest text) (\<lambda>missing.
        Inr ((if truthy (md ''_decode_error'') then [issue ''error'' ''skill_md_not_utf8'' (py_str (md ''_decode_error'')) skill_md] else [])
          @ (if truthy (md ''_read_error'') then [issue ''error'' ''skill_md_unreadable'' (py_str (md ''_read_error'')) skill_md] else [])
          @ (if truthy (md ''name'') then [] else [issue ''warning'' ''missing_name'' ''SKILL.md front matter has no name.'' skill_md])
          @ (if truthy (md ''description'') then []
             else [issue ''warning'' ''missing_description'' ''SKILL.md front matter has no description.'' skill_md])
          @ (if size_bytes > max_recommended_skill_size
             then [issue ''warning'' ''large_skill'' (''Skill size is '' @ int_str size_bytes
               @ '' bytes; consider excluding generated artifacts.'') skill_dir] else [])
          @ (if int (length files) > max_recommended_file_count
             then [issue ''warning'' ''many_files'' (''Skill has '' @ int_str (int (length files))
               @ '' files; check whether dependencies or build output are included.'') skill_dir] else [])
          @ map (\<lambda>code. issue ''warning'' code
               ''SKILL.md contains a risky shell pattern; require review before auto-install.'' skill_md) (risky_codes text)
          @ map (\<lambda>p. issue ''warning'' ''external_absolute_path_reference''
               (''SKILL.md references a local absolute path outside the package: '' @ p) skill_md)
               (take 5 (external_absolute_paths text))
          @ map (\<lambda>p. issue ''warning'' ''missing_referenced_package_file''
               (''SKILL.md references '' @ p @ '', but that file is not included in the skill package.'') skill_md)
               (take 10 missing))))"

section \<open>Ids, hashes, records\<close>

definition safe_id_char :: "char \<Rightarrow> bool" where
  "safe_id_char c = (is_lower_alpha c \<or> is_digit c \<or> c \<in> set ''._-'')"

text \<open>\<open>SAFE_ID_RE.sub("-", s)\<close>: a run of other characters becomes one dash.\<close>

fun squeeze_unsafe :: "bool \<Rightarrow> string \<Rightarrow> string" where
  "squeeze_unsafe in_run [] = []"
| "squeeze_unsafe in_run (c # cs) =
     (if safe_id_char c then c # squeeze_unsafe False cs
      else if in_run then squeeze_unsafe True cs
      else CHR 0x2D # squeeze_unsafe True cs)"

definition normalize_skill_id :: "string \<Rightarrow> string" where
  "normalize_skill_id raw = (let normalized = strip_set ''-._'' (squeeze_unsafe False (lower raw)) in
     if normalized = [] then ''unnamed-skill'' else normalized)"

definition normalize_skill_id_value :: "pyval \<Rightarrow> string res" where
  "normalize_skill_id_value v = (case v of PStr s \<Rightarrow> Inr (normalize_skill_id s)
     | _ \<Rightarrow> Inl (Exn AttributeError (in_quotes (type_name v) @ '' object has no attribute '' @ in_quotes ''lower'')))"

text \<open>The bytes \<open>hash_skill_files\<close> feeds to the digest, and the digest.\<close>

definition hash_payload :: "skill_file list \<Rightarrow> string" where
  "hash_payload files = concat (map (\<lambda>f. sf_path f @ [CHR 0x00] @ int_str (sf_size f) @ [CHR 0x00]
     @ sf_sha256 f @ [CHR 0x00]) files)"

definition hash_skill_files :: "host \<Rightarrow> skill_file list \<Rightarrow> string" where
  "hash_skill_files H files = h_sha H (Raw (hash_payload files))"

definition sort_files :: "skill_file list \<Rightarrow> skill_file list" where
  "sort_files files = sort_key sf_path files"

definition detect_project_path :: "world \<Rightarrow> path \<Rightarrow> path option" where
  "detect_project_path w skill_dir =
     (let parent = path_parent skill_dir; root = path_parent parent in
      if path_name parent \<noteq> ''skills'' then None
      else if exists w (root @ [''AGENTS.md'']) \<or> exists w (root @ [''.git'']) then Some root
      else None)"

definition default_targets_for_scope :: "pyval \<Rightarrow> pyval list" where
  "default_targets_for_scope scope = map PStr (if scope = PStr ''project'' then [''codex'', ''cursor'', ''qoder'']
     else [''cc-switch'', ''codex'', ''openclaw'', ''claude-code'', ''cursor'', ''qoder''])"

definition to_skill_file :: "host \<Rightarrow> string \<times> fdata \<Rightarrow> skill_file" where
  "to_skill_file H rd = (case rd of (rel, d) \<Rightarrow> \<lparr>sf_path = rel, sf_size = h_size H d, sf_sha256 = h_sha H d\<rparr>)"

definition scan_skill :: "host \<Rightarrow> world \<Rightarrow> string \<Rightarrow> path \<Rightarrow> path \<Rightarrow> skill_record res" where
  "scan_skill H w source skill_dir skill_md =
     (let manifest_path = skill_dir @ [''manifest.json''];
          manifest = parse_skill_manifest w manifest_path;
          project_path = detect_project_path w skill_dir;
          scope = por (dget manifest ''scope'') (PStr (if project_path \<noteq> None then ''project'' else ''global''));
          metadata = parse_skill_metadata H w skill_md;
          name = por (dget manifest ''name'') (dget metadata ''name'');
          description = por (dget manifest ''description'') (dget metadata ''description'')
      in bindR (py_iter (por (dget manifest ''exclude'') (PList []))) (\<lambda>exclude_patterns.
         let found = (case at w skill_dir of Some n \<Rightarrow> iter_skill_files (map py_str exclude_patterns) [] n | None \<Rightarrow> []);
             files = sort_files (map (to_skill_file H) found);
             size_bytes = sum_list (map sf_size files)
         in bindR (normalize_skill_id_value (por (dget manifest ''skill_id'')
                     (por (dget metadata ''name'') (PStr (path_name skill_dir))))) (\<lambda>skill_id.
            bindR (py_iter (por (dget manifest ''targets'') (PList (default_targets_for_scope scope)))) (\<lambda>targets.
            bindR (validate_manifest skill_dir manifest) (\<lambda>manifest_issues.
            bindR (validate_skill H w skill_dir skill_md
                     (dmerge [(''name'', name), (''description'', description)] metadata)
                     files size_bytes manifest) (\<lambda>skill_issues.
              Inr \<lparr>sk_id = skill_id, sk_source = source, sk_scope = scope, sk_path = skill_dir, sk_md = skill_md,
                   sk_hash = hash_skill_files H files, sk_size = size_bytes, sk_file_count = int (length files),
                   sk_name = name, sk_description = description, sk_targets = targets, sk_exclude = exclude_patterns,
                   sk_project_path = project_path,
                   sk_manifest_path = (if exists w manifest_path then Some manifest_path else None),
                   sk_files = files, sk_issues = manifest_issues @ skill_issues\<rparr>))))))"

definition parse_root_spec :: "string \<Rightarrow> string \<times> path" where
  "parse_root_spec spec =
     (if CHR 0x3D \<in> set spec
      then (let source = strip (takeWhile (\<lambda>c. c \<noteq> CHR 0x3D) spec);
                raw = tl (dropWhile (\<lambda>c. c \<noteq> CHR 0x3D) spec)
            in (if source = [] then ''custom'' else source, path_of raw))
      else (let name = path_name (path_of spec) in (if name = [] then ''custom'' else name, path_of spec)))"

fun scan_found :: "host \<Rightarrow> world \<Rightarrow> string \<Rightarrow> path list \<Rightarrow> path list \<times> skill_record list \<Rightarrow> (path list \<times> skill_record list) res" where
  "scan_found H w source [] acc = Inr acc"
| "scan_found H w source (md # mds) (seen, skills) =
     (let skill_dir = path_parent md in
      if skill_dir \<in> set seen then scan_found H w source mds (seen, skills)
      else bindR (scan_skill H w source skill_dir md) (\<lambda>r.
        scan_found H w source mds (skill_dir # seen, skills @ [r])))"

fun scan_each_root :: "host \<Rightarrow> world \<Rightarrow> (string \<times> path) list \<Rightarrow> path list \<times> skill_record list \<Rightarrow> (path list \<times> skill_record list) res" where
  "scan_each_root H w [] acc = Inr acc"
| "scan_each_root H w ((source, root) # roots) acc =
     (case at w root of
        None \<Rightarrow> scan_each_root H w roots acc
      | Some n \<Rightarrow> bindR (scan_found H w source (discover_skill_files (norm_path root) n) acc) (scan_each_root H w roots))"

text \<open>The three stable sorts are the sort by source, then id, then path text.\<close>

definition sort_records :: "skill_record list \<Rightarrow> skill_record list" where
  "sort_records rs = sort_key sk_source (sort_key sk_id (sort_key (path_str \<circ> sk_path) rs))"

definition scan_roots :: "host \<Rightarrow> world \<Rightarrow> (string \<times> path) list \<Rightarrow> scan_summary res" where
  "scan_roots H w roots = bindR (scan_each_root H w roots ([], [])) (\<lambda>(seen, skills).
     Inr \<lparr>ss_skills = sort_records skills\<rparr>)"

section \<open>Ids are safe and stable\<close>

lemma set_rstrip_set: "set (rstrip_set cs s) \<subseteq> set s"
  unfolding rstrip_set_def using set_dropWhileD by fastforce

lemma set_strip_set: "set (strip_set cs s) \<subseteq> set s"
proof -
  have "set (strip_set cs s) \<subseteq> set (lstrip_set cs s)"
    by (simp add: strip_set_def set_rstrip_set)
  also have "\<dots> \<subseteq> set s"
    unfolding lstrip_set_def using set_dropWhileD by fastforce
  finally show ?thesis .
qed

lemma squeeze_unsafe_safe: "c \<in> set (squeeze_unsafe b s) \<Longrightarrow> safe_id_char c"
  by (induction b s rule: squeeze_unsafe.induct)
    (auto simp: safe_id_char_def split: if_splits)

lemma squeeze_unsafe_id: "list_all safe_id_char s \<Longrightarrow> squeeze_unsafe b s = s"
  by (induction s arbitrary: b) auto

lemma lower_safe: "list_all safe_id_char s \<Longrightarrow> lower s = s"
  by (induction s)
    (auto simp: lower_def lower_char_def safe_id_char_def is_lower_alpha_def is_digit_def)

lemma strip_set_ends:
  assumes "strip_set cs s \<noteq> []"
  shows "hd (strip_set cs s) \<notin> set cs" "last (strip_set cs s) \<notin> set cs"
proof -
  let ?l = "lstrip_set cs s"
  have l: "?l \<noteq> [] \<Longrightarrow> hd ?l \<notin> set cs"
    unfolding lstrip_set_def by (metis hd_dropWhile)
  have "dropWhile (\<lambda>c. c \<in> set cs) (rev ?l) \<noteq> []"
    using assms by (simp add: strip_set_def rstrip_set_def)
  then show "last (strip_set cs s) \<notin> set cs"
    unfolding strip_set_def rstrip_set_def by (metis hd_dropWhile last_rev)
  obtain ys where "rev ?l = ys @ dropWhile (\<lambda>c. c \<in> set cs) (rev ?l)"
    by (metis takeWhile_dropWhile_id)
  then have "?l = strip_set cs s @ rev ys"
    unfolding strip_set_def rstrip_set_def by (metis rev_append rev_rev_ident)
  then have "hd ?l = hd (strip_set cs s)" "?l \<noteq> []" using assms by (metis hd_append2, auto)
  with l show "hd (strip_set cs s) \<notin> set cs" by simp
qed

lemma strip_set_id:
  assumes "s \<noteq> []" "hd s \<notin> set cs" "last s \<notin> set cs"
  shows "strip_set cs s = s"
proof -
  have "lstrip_set cs s = s" using assms by (cases s) (auto simp: lstrip_set_def)
  moreover have "rstrip_set cs s = s"
    using assms by (cases s rule: rev_cases) (auto simp: rstrip_set_def)
  ultimately show ?thesis by (simp add: strip_set_def)
qed

lemma normalize_skill_id_facts:
  "normalize_skill_id raw \<noteq> []" "list_all safe_id_char (normalize_skill_id raw)"
  "hd (normalize_skill_id raw) \<notin> set ''-._''" "last (normalize_skill_id raw) \<notin> set ''-._''"
proof -
  let ?t = "strip_set ''-._'' (squeeze_unsafe False (lower raw))"
  let ?n = "normalize_skill_id raw"
  have n: "?n = (if ?t = [] then ''unnamed-skill'' else ?t)"
    by (simp add: normalize_skill_id_def Let_def)
  have "list_all safe_id_char ?t"
    unfolding list_all_iff using set_strip_set squeeze_unsafe_safe by blast
  then show "list_all safe_id_char ?n"
    unfolding n by (auto simp: safe_id_char_def is_lower_alpha_def)
  show "?n \<noteq> []" "hd ?n \<notin> set ''-._''" "last ?n \<notin> set ''-._''"
    unfolding n using strip_set_ends [of "''-._''" "squeeze_unsafe False (lower raw)"] by auto
qed

text \<open>a normalised skill id is never empty, uses only lower-case letters, digits and
  \<open>. _ -\<close>, begins and ends with a letter or digit, and normalising it again changes nothing.\<close>

theorem normalize_skill_id_safe:
  "normalize_skill_id raw \<noteq> []
   \<and> list_all safe_id_char (normalize_skill_id raw)
   \<and> hd (normalize_skill_id raw) \<notin> set ''-._'' \<and> last (normalize_skill_id raw) \<notin> set ''-._''
   \<and> normalize_skill_id (normalize_skill_id raw) = normalize_skill_id raw"
proof -
  let ?n = "normalize_skill_id raw"
  have "normalize_skill_id ?n = ?n"
    unfolding normalize_skill_id_def [of ?n] Let_def
    using normalize_skill_id_facts [of raw] by (simp add: lower_safe squeeze_unsafe_id strip_set_id)
  then show ?thesis using normalize_skill_id_facts [of raw] by simp
qed

section \<open>The content hash determines the files\<close>

lemma nat_str_not_Nil: "nat_str n \<noteq> []"
  by (subst nat_str.simps) simp

lemma nat_str_inj: "nat_str m = nat_str n \<Longrightarrow> m = n"
proof (induction m arbitrary: n rule: nat_str.induct)
  case (1 m)
  have dig: "a = b" if "(char_of (48 + a) :: char) = char_of (48 + b)" "a < 10" "b < 10" for a b :: nat
  proof -
    have "of_char (char_of (48 + a) :: char) = (of_char (char_of (48 + b) :: char) :: nat)" using that by simp
    with that show ?thesis by simp
  qed
  have two: "length (nat_str k) \<noteq> 1" if "\<not> k < 10" for k
    using that nat_str_not_Nil [of "k div 10"] by (subst nat_str.simps) simp
  show ?case
  proof (cases "m < 10 \<or> n < 10")
    case True
    then have "m < 10 \<and> n < 10"
      using "1.prems" two [of m] two [of n] by (metis One_nat_def length_Cons list.size(3) nat_str_small)
    with "1.prems" show ?thesis by (auto simp: nat_str_small intro: dig)
  next
    case False
    with "1.prems" have "nat_str (m div 10) = nat_str (n div 10)"
        "(char_of (48 + m mod 10) :: char) = char_of (48 + n mod 10)"
      using nat_str.simps [of m] nat_str.simps [of n] by auto
    with "1.IH" False have "m div 10 = n div 10" "m mod 10 = n mod 10" by (auto intro: dig)
    then show ?thesis by (metis div_mult_mod_eq)
  qed
qed

lemma int_str_inj: "int_str m = int_str n \<Longrightarrow> m = n"
proof -
  have no_dash: "hd (nat_str k) \<noteq> CHR 0x2D" for k
  proof -
    have "is_digit (hd (nat_str k))" using nat_str_digits hd_in_set nat_str_not_Nil by blast
    then show ?thesis by (auto simp: is_digit_def)
  qed
  assume "int_str m = int_str n"
  then show ?thesis
    using no_dash [of "nat m"] no_dash [of "nat n"] nat_str_not_Nil [of "nat m"] nat_str_not_Nil [of "nat n"]
    by (auto simp: int_str_def dest!: nat_str_inj split: if_splits) (metis list.sel(1))+
qed

lemma int_str_no_nul: "CHR 0x00 \<notin> set (int_str n)"
  using nat_str_digits [of "CHR 0x00"] by (auto simp: int_str_def is_digit_def)

lemma field_split:
  "a @ CHR 0x00 # r = b @ CHR 0x00 # s \<Longrightarrow> CHR 0x00 \<notin> set a \<Longrightarrow> CHR 0x00 \<notin> set b \<Longrightarrow> a = b \<and> r = s"
proof (induction a arbitrary: b)
  case Nil
  then show ?case by (cases b) auto
next
  case (Cons x a)
  then show ?case by (cases b) auto
qed

definition nul_free :: "skill_file \<Rightarrow> bool" where
  "nul_free f = (CHR 0x00 \<notin> set (sf_path f) \<and> CHR 0x00 \<notin> set (sf_sha256 f))"

lemma hash_payload_Cons: "hash_payload (f # fs) =
    sf_path f @ CHR 0x00 # int_str (sf_size f) @ CHR 0x00 # sf_sha256 f @ CHR 0x00 # hash_payload fs"
  by (simp add: hash_payload_def)

text \<open>the text that is hashed determines the file list: two lists of files whose paths and
  digests hold no NUL character (none of them does) and that feed the same bytes to the digest
  are the same list, so with a collision-free digest equal content hashes mean equal paths,
  sizes and contents.\<close>

theorem hash_payload_determines_files:
  assumes "list_all nul_free fs" "list_all nul_free gs"
    and "\<And>a b. h_sha H (Raw a) = h_sha H (Raw b) \<Longrightarrow> a = b"
    and "hash_skill_files H fs = hash_skill_files H gs"
  shows "fs = gs"
proof -
  have "hash_payload fs = hash_payload gs" using assms(3,4) by (simp add: hash_skill_files_def)
  with assms(1,2) show ?thesis
  proof (induction fs arbitrary: gs)
    case Nil
    then show ?case by (cases gs) (auto simp: hash_payload_Cons hash_payload_def)
  next
    case (Cons f fs)
    then obtain g gs' where gs: "gs = g # gs'" by (cases gs) (auto simp: hash_payload_Cons hash_payload_def)
    have n: "CHR 0x00 \<notin> set (sf_path f)" "CHR 0x00 \<notin> set (sf_path g)"
      "CHR 0x00 \<notin> set (sf_sha256 f)" "CHR 0x00 \<notin> set (sf_sha256 g)"
      using Cons.prems gs by (auto simp: nul_free_def)
    note eq = Cons.prems(3) [unfolded gs hash_payload_Cons]
    from field_split [OF eq n(1,2)] have p: "sf_path f = sf_path g"
      and r1: "int_str (sf_size f) @ CHR 0x00 # sf_sha256 f @ CHR 0x00 # hash_payload fs
          = int_str (sf_size g) @ CHR 0x00 # sf_sha256 g @ CHR 0x00 # hash_payload gs'" by auto
    from field_split [OF r1 int_str_no_nul int_str_no_nul] have s: "sf_size f = sf_size g"
      and r2: "sf_sha256 f @ CHR 0x00 # hash_payload fs = sf_sha256 g @ CHR 0x00 # hash_payload gs'"
      by (auto dest: int_str_inj)
    from field_split [OF r2 n(3,4)] have h: "sf_sha256 f = sf_sha256 g" "hash_payload fs = hash_payload gs'" by auto
    have "fs = gs'" using Cons.IH [of gs'] Cons.prems gs h(2) by simp
    with p s h(1) gs show ?case by (cases f; cases g) simp
  qed
qed

definition raw_host :: host where
  "raw_host = \<lparr>h_sha = (\<lambda>d. case d of Raw s \<Rightarrow> s | _ \<Rightarrow> []),
     h_size = (\<lambda>d. case d of Raw s \<Rightarrow> int (length s) | _ \<Rightarrow> 0), h_dumps = (\<lambda>v. [])\<rparr>"

definition demo_files :: "skill_file list" where
  "demo_files = [\<lparr>sf_path = ''SKILL.md'', sf_size = 12, sf_sha256 = ''e3''\<rparr>,
     \<lparr>sf_path = ''a'', sf_size = 3, sf_sha256 = ''f4''\<rparr>]"

theorem hash_payload_determines_files_witness:
  "list_all nul_free demo_files \<and> demo_files = sort_files (rev demo_files)"
proof -
  have s: "sort_files (rev demo_files) = demo_files"
    by (simp add: sort_files_def demo_files_def)
  have n: "list_all nul_free demo_files" by (simp add: demo_files_def nul_free_def)
  have "demo_files = sort_files (rev demo_files)"
    by (rule hash_payload_determines_files [of _ _ raw_host]) (auto simp: s n raw_host_def)
  with n show ?thesis by simp
qed

section \<open>What a scanned record holds\<close>

lemma scan_skill_Inr:
  assumes "scan_skill H w source skill_dir skill_md = Inr r"
  shows "sk_files r = sort_files (map (to_skill_file H)
      (case at w skill_dir of Some n \<Rightarrow> iter_skill_files (map py_str (sk_exclude r)) [] n | None \<Rightarrow> []))"
    "sk_hash r = hash_skill_files H (sk_files r)"
    "sk_size r = sum_list (map sf_size (sk_files r))"
    "sk_file_count r = int (length (sk_files r))"
    "sk_source r = source" "sk_path r = skill_dir" "sk_md r = skill_md"
  using assms unfolding scan_skill_def Let_def bindR_Inr_iff sum.inject
  by (elim exE conjE, clarify, simp only: skill_record.select_convs)+

text \<open>what a scan records is consistent and leaves the private files out: the recorded files
  are sorted by path, size, count and content hash are those of the recorded files, and no
  recorded file is a default-excluded file or path or matches the manifest's exclude patterns.\<close>

theorem scan_skill_leaves_excluded_files_out:
  assumes "scan_skill H w source skill_dir skill_md = Inr r"
  shows "sorted (map sf_path (sk_files r))
    \<and> sk_hash r = hash_skill_files H (sk_files r)
    \<and> sk_size r = sum_list (map sf_size (sk_files r))
    \<and> sk_file_count r = int (length (sk_files r))
    \<and> (\<forall>f \<in> set (sk_files r). \<exists>dir name. sf_path f = dir @ name
          \<and> \<not> is_default_excluded_file name
          \<and> \<not> is_default_excluded_path (sf_path f)
          \<and> \<not> is_excluded (sf_path f) (map py_str (sk_exclude r)))"
proof -
  note facts = scan_skill_Inr [OF assms]
  have "\<exists>dir name. sf_path f = dir @ name \<and> keep_file (map py_str (sk_exclude r)) name (sf_path f)"
    if f: "f \<in> set (sk_files r)" for f
  proof -
    from f facts(1) obtain n rel d where "(rel, d) \<in> set (iter_skill_files (map py_str (sk_exclude r)) [] n)"
        "f = to_skill_file H (rel, d)"
      by (auto simp: sort_files_def split: option.splits)
    with iter_skill_files_kept show ?thesis by (fastforce simp: to_skill_file_def)
  qed
  then show ?thesis using facts by (auto simp: keep_file_def sort_files_def)
qed

definition demo_skill_node :: node where
  "demo_skill_node = NDir [(''.env'', NFile (Raw ''TOKEN'')), (''x.py'', NFile (Raw ''1'')),
     (''SKILL.md'', NFile (Raw (''---'' @ newline @ ''name: Demo Skill'' @ newline @ ''description: d''
        @ newline @ ''---'' @ newline))),
     (''node_modules'', NDir [(''y'', NFile (Raw ''2''))])]"

definition demo_world :: world where
  "demo_world = \<lparr>w_tree = NDir [(''s'', NDir [(''demo'', demo_skill_node)])], w_fault = None\<rparr>"

theorem scan_skill_leaves_excluded_files_out_witness:
  "\<exists>r. scan_skill raw_host demo_world ''local'' [''s'', ''demo''] [''s'', ''demo'', ''SKILL.md''] = Inr r
     \<and> sk_id r = ''demo-skill'' \<and> map sf_path (sk_files r) = [''SKILL.md'', ''x.py'']
     \<and> sorted (map sf_path (sk_files r))"
proof -
  have c: "(case scan_skill raw_host demo_world ''local'' [''s'', ''demo''] [''s'', ''demo'', ''SKILL.md''] of
      Inl e \<Rightarrow> False | Inr r \<Rightarrow> sk_id r = ''demo-skill'' \<and> map sf_path (sk_files r) = [''SKILL.md'', ''x.py''])"
    by code_simp
  then obtain r where r: "scan_skill raw_host demo_world ''local'' [''s'', ''demo''] [''s'', ''demo'', ''SKILL.md''] = Inr r"
      "sk_id r = ''demo-skill''" "map sf_path (sk_files r) = [''SKILL.md'', ''x.py'']"
    by (auto split: sum.splits)
  have "sorted (map sf_path (sk_files r))"
    using scan_skill_leaves_excluded_files_out [OF r(1)] by (rule conjunct1)
  with r show ?thesis by (intro exI [of _ r] conjI)
qed

end
