(* ===== verification/SyncState.thy ===== *)
theory SyncState
  imports Scanner
begin

text \<open>
  \<open>sync_state.py\<close>: the three-way comparison of a skill's last-applied, local and remote hashes,
  the local overrides that can acknowledge a difference, and the status of a whole root. Reading
  a local root, a snapshot directory, a base record or an overrides file may raise; the result is
  then the error.
\<close>

section \<open>Items and overrides\<close>

record sync_state_item =
  it_skill_id :: string
  it_action :: string
  it_base_hash :: "string option"
  it_local_hash :: "string option"
  it_remote_hash :: "string option"
  it_reason :: string

definition item_dict :: "sync_state_item \<Rightarrow> pydict" where
  "item_dict i = [(''skill_id'', PStr (it_skill_id i)), (''action'', PStr (it_action i)),
     (''base_hash'', opt_str (it_base_hash i)), (''local_hash'', opt_str (it_local_hash i)),
     (''remote_hash'', opt_str (it_remote_hash i)), (''reason'', PStr (it_reason i))]"

definition state_item :: "string \<Rightarrow> string \<Rightarrow> string option \<Rightarrow> string option \<Rightarrow> string option \<Rightarrow> string \<Rightarrow> sync_state_item" where
  "state_item skill_id action b l r reason =
     \<lparr>it_skill_id = skill_id, it_action = action, it_base_hash = b, it_local_hash = l, it_remote_hash = r,
      it_reason = reason\<rparr>"

record local_override =
  ov_skill_id :: string
  ov_ignore_paths :: "string list"
  ov_local_only :: bool
  ov_reason :: string

section \<open>Classification\<close>

text \<open>\<open>_hash\<close>: an absent or empty entry has no hash; any other value is turned into text.\<close>

definition entry_hash :: "pydict option \<Rightarrow> string option" where
  "entry_hash entry = (case entry of None \<Rightarrow> None
     | Some d \<Rightarrow> (if truthy (dget d ''content_hash'') then Some (py_str (dget d ''content_hash'')) else None))"

definition central_lifecycle_state :: "pydict \<Rightarrow> string" where
  "central_lifecycle_state skill =
     (case dget skill ''lifecycle'' of
        PDict l \<Rightarrow> (if truthy (dget l ''state'') then py_str (dget l ''state'')
                    else if truthy (dget skill ''state'') then py_str (dget skill ''state'') else ''published'')
      | _ \<Rightarrow> (if truthy (dget skill ''state'') then py_str (dget skill ''state'') else ''published''))"

definition classify_hashes ::
    "string \<Rightarrow> string option \<Rightarrow> string option \<Rightarrow> string option \<Rightarrow> sync_state_item" where
  "classify_hashes skill_id b l r =
     (if b = None then
        (if l = None \<and> r \<noteq> None then state_item skill_id ''remote_new'' b l r
           ''remote has a skill that has not been applied locally''
         else if l \<noteq> None \<and> r = None then state_item skill_id ''local_new'' b l r
           ''local has a skill that is absent from the remote snapshot''
         else if l = r then state_item skill_id ''same_without_base'' b l r
           ''local and remote match, but no last-applied base is recorded''
         else state_item skill_id ''conflict'' b l r ''local and remote differ without a base version'')
      else if l = b \<and> r = b then state_item skill_id ''unchanged'' b l r
        ''local and remote both match the last-applied base''
      else if l = r \<and> l \<noteq> b then state_item skill_id ''already_converged'' b l r
        ''local and remote already match each other''
      else if l = b \<and> r \<noteq> b then
        (if r = None then state_item skill_id ''remote_deleted'' b l r
           ''remote deleted a skill that local has not changed''
         else state_item skill_id ''pull'' b l r ''remote changed and local still matches base'')
      else if r = b \<and> l \<noteq> b then
        (if l = None then state_item skill_id ''local_deleted'' b l r
           ''local deleted a skill that remote has not changed''
         else state_item skill_id ''push'' b l r ''local changed and remote still matches base'')
      else if l = None \<and> r = None then state_item skill_id ''deleted_both'' b l r
        ''local and remote both deleted the base skill''
      else state_item skill_id ''conflict'' b l r
        ''local and remote both changed away from base differently'')"

definition classify_skill :: "string \<Rightarrow> pydict option \<Rightarrow> pydict option \<Rightarrow> pydict option \<Rightarrow> sync_state_item" where
  "classify_skill skill_id base local remote =
     (let b = entry_hash base; l = entry_hash local; r = entry_hash remote in
      if (case remote of None \<Rightarrow> False | Some d \<Rightarrow> d \<noteq> [] \<and> central_lifecycle_state d = ''deprecated'')
      then state_item skill_id ''central_deprecated'' b l r
             ''central skill is deprecated; installed devices are left unchanged''
      else classify_hashes skill_id b l r)"

section \<open>Projections past the ignored paths\<close>

definition projected_local_hash :: "host \<Rightarrow> world \<Rightarrow> path \<Rightarrow> string list \<Rightarrow> string option res" where
  "projected_local_hash H w skill_dir ignore_paths =
     (case at w skill_dir of
        None \<Rightarrow> Inr None
      | Some n \<Rightarrow>
          (let manifest = parse_skill_manifest w (skill_dir @ [''manifest.json'']) in
           bindR (py_iter (por (dget manifest ''exclude'') (PList []))) (\<lambda>ex.
             Inr (Some (hash_skill_files H (sort_files (map (to_skill_file H)
               (iter_skill_files (map py_str ex @ ignore_paths) [] n))))))))"

definition as_sync_error :: "string \<Rightarrow> exn_class list \<Rightarrow> 'a res \<Rightarrow> 'a res" where
  "as_sync_error pre classes r = (case r of
      Inl e \<Rightarrow> (if exn_kind e \<in> set classes then Inl (Exn SyncStateError (pre @ exn_text e)) else Inl e)
    | Inr x \<Rightarrow> Inr x)"

definition manifest_files_except :: "pydict \<Rightarrow> string list \<Rightarrow> skill_file list res" where
  "manifest_files_except manifest ignore_paths =
     bindR (py_iter (dget_or manifest ''files'' (PList []))) (\<lambda>raws.
       mapR (\<lambda>raw. bindR (py_int (por (dget raw ''size'') (PInt 0))) (\<lambda>n.
           Inr \<lparr>sf_path = py_str (dget raw ''path''), sf_size = n,
                sf_sha256 = py_str (por (dget raw ''sha256'') (PStr []))\<rparr>))
         (filter (\<lambda>raw. truthy (dget raw ''path'') \<and> \<not> is_excluded (py_str (dget raw ''path'')) ignore_paths)
           (only_dicts raws)))"

definition projected_remote_hash :: "host \<Rightarrow> world \<Rightarrow> path \<Rightarrow> pydict \<Rightarrow> string list \<Rightarrow> string option res" where
  "projected_remote_hash H w snapshot_dir entry ignore_paths =
     (if \<not> truthy (dget entry ''archive'') then Inr None
      else (let archive_path = path_div snapshot_dir (py_str (dget entry ''archive'')) in
        bindR (as_sync_error (''cannot read remote skill manifest for override projection: '' @ path_str archive_path @ '': '')
                 [OSError, KeyError, JSONDecodeError]
                 (bindR (zip_members w archive_path) (\<lambda>ms. bindR (zip_read ms manifest_name) json_loads)))
          (\<lambda>manifest. bindR (as_dict manifest) (\<lambda>m. bindR (manifest_files_except m ignore_paths) (\<lambda>files.
             Inr (Some (hash_skill_files H (sort_files files))))))))"

definition classify_with_override ::
    "host \<Rightarrow> world \<Rightarrow> path \<Rightarrow> string \<Rightarrow> pydict option \<Rightarrow> pydict option \<Rightarrow> pydict option \<Rightarrow> local_override option
      \<Rightarrow> sync_state_item res" where
  "classify_with_override H w snapshot_dir skill_id base local remote override =
     (let item = classify_skill skill_id base local remote;
          present = (\<lambda>e. case e of None \<Rightarrow> False | Some d \<Rightarrow> d \<noteq> []);
          again = (\<lambda>action reason. state_item skill_id action (it_base_hash item) (it_local_hash item) (it_remote_hash item) reason)
      in case override of
           None \<Rightarrow> Inr item
         | Some ov \<Rightarrow>
             (if ov_local_only ov \<and> present local \<and> \<not> present remote
              then Inr (again ''local_only'' (''local-only skill acknowledged: '' @ ov_reason ov))
              else if it_action item \<notin> set [''push'', ''conflict'', ''same_without_base''] then Inr item
              else if \<not> present local \<or> \<not> present remote then Inr item
              else if \<not> truthy (dget (the local) ''path'') then Inr item
              else bindR (projected_local_hash H w (path_of (py_str (dget (the local) ''path''))) (ov_ignore_paths ov)) (\<lambda>lp.
                   bindR (projected_remote_hash H w snapshot_dir (the remote) (ov_ignore_paths ov)) (\<lambda>rp.
                     if lp \<noteq> None \<and> lp \<noteq> Some [] \<and> lp = rp
                     then Inr (again ''local_override'' (''local override acknowledged: '' @ ov_reason ov))
                     else Inr item))))"

section \<open>The entries compared\<close>

text \<open>\<open>_unique_by_skill_id\<close>: entries without an id are skipped, a repeated id is an error.\<close>

fun collect_by_id :: "pyval list \<Rightarrow> (string \<times> pydict) list \<Rightarrow> string list \<Rightarrow> ((string \<times> pydict) list \<times> string list) res" where
  "collect_by_id [] result duplicates = Inr (result, duplicates)"
| "collect_by_id (e # es) result duplicates =
     bindR (as_dict e) (\<lambda>d.
       if \<not> truthy (dget d ''skill_id'') then collect_by_id es result duplicates
       else (let k = py_str (dget d ''skill_id'') in
         collect_by_id es (AList.update k d result) (if k \<in> fst ` set result then duplicates @ [k] else duplicates)))"

definition unique_by_skill_id :: "pyval list \<Rightarrow> string \<Rightarrow> (string \<times> pydict) list res" where
  "unique_by_skill_id entries label = bindR (collect_by_id entries [] []) (\<lambda>(result, duplicates).
     if duplicates \<noteq> [] then Inl (Exn SyncStateError (''duplicate '' @ label @ '' skill ids: ''
        @ join_str '', '' (sorted_set duplicates)))
     else Inr result)"

definition local_entry :: "skill_record \<Rightarrow> pyval" where
  "local_entry r = PDict [(''skill_id'', PStr (sk_id r)), (''content_hash'', PStr (sk_hash r)),
     (''risk_level'', PStr (risk_level r)), (''path'', PStr (path_str (sk_path r)))]"

definition local_entries :: "host \<Rightarrow> world \<Rightarrow> path \<Rightarrow> string \<Rightarrow> string list \<Rightarrow> (string \<times> pydict) list res" where
  "local_entries H w local_root source_name local_skill_ids =
     bindR (scan_roots H w [(source_name, local_root)]) (\<lambda>summary.
       let selected = filter (\<lambda>s. s \<noteq> []) (map strip local_skill_ids)
       in unique_by_skill_id (map local_entry
            (filter (\<lambda>r. selected = [] \<or> sk_id r \<in> set selected) (ss_skills summary))) ''local'')"

definition snapshot_entries :: "world \<Rightarrow> path \<Rightarrow> (string \<times> pydict) list res" where
  "snapshot_entries w snapshot_dir =
     (let index_path = snapshot_dir @ [''index.json''] in
      if \<not> exists w index_path
      then Inl (Exn SyncStateError (''remote snapshot has no index.json: '' @ path_str snapshot_dir))
      else bindR (fst (read_json index_path w)) (\<lambda>index. bindR (as_dict index) (\<lambda>ix.
           bindR (py_iter (dget_or ix ''skills'' (PList []))) (\<lambda>skills. unique_by_skill_id skills ''remote''))))"

definition base_entries :: "world \<Rightarrow> path option \<Rightarrow> (string \<times> pydict) list res" where
  "base_entries w record_path = (case record_path of None \<Rightarrow> Inr []
     | Some p \<Rightarrow>
        (if \<not> exists w p then Inl (Exn SyncStateError (''last-applied record not found: '' @ path_str p))
         else bindR (fst (read_json p w)) (\<lambda>record. bindR (as_dict record) (\<lambda>rec.
              bindR (py_iter (dget_or rec ''applied'' (PList []))) (\<lambda>applied.
              bindR (mapR as_dict applied) (\<lambda>items.
                let entries = map (\<lambda>d. PDict [(''skill_id'', dget d ''skill_id''), (''content_hash'', dget d ''content_hash'')])
                      (filter (\<lambda>d. truthy (dget d ''content_hash'')) items)
                in if applied \<noteq> [] \<and> entries = []
                   then Inl (Exn SyncStateError
                     ''last-applied record does not contain content hashes; re-apply with the current sidecar first'')
                   else unique_by_skill_id entries ''base''))))))"

text \<open>\<open>_load_local_overrides\<close>.\<close>

definition override_of :: "pydict \<Rightarrow> local_override option res" where
  "override_of raw =
     bindR (py_iter (dget_or raw ''ignore_paths'' (PList []))) (\<lambda>paths.
       let skill_id = strip (py_str (por (dget raw ''skill_id'') (PStr [])));
           ignore = filter (\<lambda>s. s \<noteq> []) (map (\<lambda>p. strip_set [slash] (py_str p)) paths);
           local_only = truthy (dget raw ''local_only'')
       in if skill_id = [] \<or> (ignore = [] \<and> \<not> local_only) then Inr None
          else Inr (Some \<lparr>ov_skill_id = skill_id, ov_ignore_paths = ignore, ov_local_only = local_only,
                 ov_reason = py_str (por (dget raw ''reason'') (PStr ''peer-local override''))\<rparr>))"

definition override_candidates :: "path \<Rightarrow> pyval \<Rightarrow> pydict list res" where
  "override_candidates p raw_skills = (case raw_skills of
      PList xs \<Rightarrow> Inr (only_dicts xs)
    | PDict d \<Rightarrow> Inr (List.map_filter (\<lambda>(k, v). case v of
          PDict item \<Rightarrow> Some (if dhas item ''skill_id'' then item else item @ [(''skill_id'', PStr k)])
        | _ \<Rightarrow> None) d)
    | _ \<Rightarrow> Inl (Exn SyncStateError (''local overrides '' @ in_quotes ''skills'' @ '' must be an object or list: '' @ path_str p)))"

definition load_local_overrides :: "world \<Rightarrow> path \<Rightarrow> path option \<Rightarrow> (string \<times> local_override) list res" where
  "load_local_overrides w local_root explicit_path =
     (let p = (case explicit_path of Some q \<Rightarrow> q | None \<Rightarrow> local_root @ [''.skill-sync-local-overrides.json'']) in
      if \<not> exists w p then Inr []
      else bindR (as_sync_error (''local overrides file is not valid JSON: '' @ path_str p @ '': '') [OSError, JSONDecodeError]
                    (fst (read_json p w))) (\<lambda>data. case data of
          PDict d \<Rightarrow> bindR (override_candidates p (dget_or d ''skills'' (PDict []))) (\<lambda>raws.
             bindR (mapR override_of raws) (\<lambda>ovs.
               Inr (fold (\<lambda>ov acc. case ov of None \<Rightarrow> acc | Some x \<Rightarrow> AList.update (ov_skill_id x) x acc) ovs [])))
        | _ \<Rightarrow> Inl (Exn SyncStateError (''local overrides file must contain a JSON object: '' @ path_str p))))"

section \<open>The status of a root\<close>

record sync_args =
  sa_local_root :: path
  sa_snapshot :: path
  sa_base_record :: "path option"

definition sync_items ::
    "host \<Rightarrow> world \<Rightarrow> sync_args \<Rightarrow> string \<Rightarrow> path option \<Rightarrow> string list
      \<Rightarrow> (sync_state_item list \<times> (string \<times> local_override) list) res" where
  "sync_items H w a source_name overrides_path local_skill_ids =
     bindR (local_entries H w (sa_local_root a) source_name local_skill_ids) (\<lambda>local.
     bindR (snapshot_entries w (sa_snapshot a)) (\<lambda>remote.
     bindR (base_entries w (sa_base_record a)) (\<lambda>base.
     bindR (load_local_overrides w (sa_local_root a) overrides_path) (\<lambda>overrides.
     bindR (mapR (\<lambda>skill_id. classify_with_override H w (sa_snapshot a) skill_id (map_of base skill_id)
                (map_of local skill_id) (map_of remote skill_id) (map_of overrides skill_id))
             (sorted_set (map fst base @ map fst local @ map fst remote))) (\<lambda>items.
       Inr (items, overrides))))))"

definition status_dict :: "sync_args \<Rightarrow> sync_state_item list \<Rightarrow> (string \<times> local_override) list \<Rightarrow> pydict" where
  "status_dict a items overrides =
     [(''local_root'', PStr (path_str (norm_path (sa_local_root a)))),
      (''remote_snapshot'', PStr (path_str (norm_path (sa_snapshot a)))),
      (''last_applied_record'', opt_path (map_option norm_path (sa_base_record a))),
      (''total'', PInt (int (length items))),
      (''summary'', counts (sort_items (tally (map it_action items)))),
      (''has_conflicts'', PBool (list_ex (\<lambda>i. it_action i = ''conflict'') items)),
      (''local_overrides'', PDict [(''total'', PInt (int (length overrides))),
         (''skills'', strs (sort (map fst overrides)))]),
      (''items'', PList (map (PDict \<circ> item_dict) items))]"

definition build_sync_status ::
    "host \<Rightarrow> world \<Rightarrow> sync_args \<Rightarrow> string \<Rightarrow> path option \<Rightarrow> string list \<Rightarrow> pydict res" where
  "build_sync_status H w a source_name overrides_path local_skill_ids =
     bindR (sync_items H w a source_name overrides_path local_skill_ids) (\<lambda>(items, overrides).
       Inr (status_dict a items overrides))"

section \<open>Facts about the classification\<close>

lemma classify_hashes_fields [simp]:
  "it_skill_id (classify_hashes s b l r) = s"
  "it_base_hash (classify_hashes s b l r) = b"
  "it_local_hash (classify_hashes s b l r) = l"
  "it_remote_hash (classify_hashes s b l r) = r"
  by (auto simp: classify_hashes_def state_item_def)

lemma classify_skill_fields [simp]:
  "it_skill_id (classify_skill s b l r) = s"
  "it_base_hash (classify_skill s b l r) = entry_hash b"
  "it_local_hash (classify_skill s b l r) = entry_hash l"
  "it_remote_hash (classify_skill s b l r) = entry_hash r"
  by (auto simp: classify_skill_def Let_def state_item_def)

text \<open>The contract: a three-way merge of optional versions.\<close>

datatype merge = Keep | TakeRemote | TakeLocal | Clash

definition merge_spec :: "'v option \<Rightarrow> 'v option \<Rightarrow> 'v option \<Rightarrow> merge" where
  "merge_spec base local remote =
     (if local = remote then Keep
      else if local = base then TakeRemote
      else if remote = base then TakeLocal
      else Clash)"

definition merge_of_action :: "string \<Rightarrow> merge" where
  "merge_of_action a =
     (if a \<in> {''pull'', ''remote_new'', ''remote_deleted''} then TakeRemote
      else if a \<in> {''push'', ''local_new'', ''local_deleted''} then TakeLocal
      else if a = ''conflict'' then Clash
      else Keep)"

lemma classify_hashes_action:
  "it_action (classify_hashes s b l r) =
    (if l = r then (if b = None then ''same_without_base'' else if l = b then ''unchanged'' else ''already_converged'')
     else if l = b then (if b = None then ''remote_new'' else if r = None then ''remote_deleted'' else ''pull'')
     else if r = b then (if b = None then ''local_new'' else if l = None then ''local_deleted'' else ''push'')
     else ''conflict'')"
  by (auto simp: classify_hashes_def state_item_def)

text \<open>C1: the classification refines the three-way merge. On three hashes the action found stands for exactly the
  merge decision (keep when the sides agree, take the side that moved away from the base, clash when both moved
  apart). A skill gets the verdict \<open>central_deprecated\<close> exactly when its central entry is marked deprecated; such
  a verdict keeps both sides as they are, and every other skill is decided by the merge of its three hashes.\<close>

theorem classify_refines_three_way_merge:
  "merge_of_action (it_action (classify_hashes s b l r)) = merge_spec b l r
   \<and> (it_action (classify_skill s be le re) = ''central_deprecated''
      \<longleftrightarrow> (case re of None \<Rightarrow> False | Some entry \<Rightarrow> entry \<noteq> [] \<and> central_lifecycle_state entry = ''deprecated''))
   \<and> merge_of_action (it_action (classify_skill s be le re))
       = (if case re of None \<Rightarrow> False | Some entry \<Rightarrow> entry \<noteq> [] \<and> central_lifecycle_state entry = ''deprecated''
          then Keep else merge_spec (entry_hash be) (entry_hash le) (entry_hash re))"
proof -
  have *: "merge_of_action (it_action (classify_hashes s b l r)) = merge_spec b l r" for b l r
    by (auto simp: classify_hashes_action merge_spec_def merge_of_action_def)
  have n: "it_action (classify_hashes s b l r) \<noteq> ''central_deprecated''" for b l r
    by (simp add: classify_hashes_action)
  have k: "merge_of_action ''central_deprecated'' = Keep" by (simp add: merge_of_action_def)
  show ?thesis unfolding classify_skill_def Let_def by (simp add: * n k state_item_def)
qed

definition mirror_action :: "string \<Rightarrow> string" where
  "mirror_action a =
     (if a = ''pull'' then ''push'' else if a = ''push'' then ''pull''
      else if a = ''remote_new'' then ''local_new'' else if a = ''local_new'' then ''remote_new''
      else if a = ''remote_deleted'' then ''local_deleted'' else if a = ''local_deleted'' then ''remote_deleted''
      else a)"

text \<open>the classification is symmetric: exchanging the local and the remote version exchanges pull
  with push, new with new and deleted with deleted, and changes no other verdict.\<close>

theorem classify_mirror:
  "it_action (classify_hashes s b r l) = mirror_action (it_action (classify_hashes s b l r))"
  by (auto simp: classify_hashes_action mirror_action_def)

lemma classify_overwrites_only_base:
  "it_action (classify_skill s be le re) \<in> {''pull'', ''remote_new'', ''remote_deleted''} \<Longrightarrow> entry_hash le = entry_hash be"
  "it_action (classify_skill s be le re) \<in> {''push'', ''local_new'', ''local_deleted''} \<Longrightarrow> entry_hash re = entry_hash be"
  "it_action (classify_skill s be le re) \<noteq> ''deleted_both''"
  by (auto simp: classify_skill_def Let_def state_item_def classify_hashes_action split: if_splits)

text \<open>C2: no update is lost by following the verdict: a pull or a removal from the remote side only
  happens when the local version is still the base, a push only when the remote version still is,
  and the branch for a skill deleted on both sides is never reached (such a skill is reported as
  already converged).\<close>

theorem classify_never_overwrites_a_change:
  "(it_action (classify_skill s be le re) \<in> {''pull'', ''remote_new'', ''remote_deleted''} \<longrightarrow> entry_hash le = entry_hash be)
   \<and> (it_action (classify_skill s be le re) \<in> {''push'', ''local_new'', ''local_deleted''} \<longrightarrow> entry_hash re = entry_hash be)
   \<and> it_action (classify_skill s be le re) \<noteq> ''deleted_both''"
  using classify_overwrites_only_base [of s be le re] by blast

theorem classify_never_overwrites_a_change_witness:
  "it_action (classify_skill ''a'' (Some [(''content_hash'', PStr ''1'')]) (Some [(''content_hash'', PStr ''1'')])
      (Some [(''content_hash'', PStr ''2'')])) = ''pull''
   \<and> entry_hash (Some [(''content_hash'', PStr ''1'')]) = entry_hash (Some [(''content_hash'', PStr ''1'')])"
proof -
  have p: "it_action (classify_skill ''a'' (Some [(''content_hash'', PStr ''1'')]) (Some [(''content_hash'', PStr ''1'')])
      (Some [(''content_hash'', PStr ''2'')])) = ''pull''"
    by (simp add: classify_skill_def classify_hashes_action entry_hash_def central_lifecycle_state_def Let_def)
  then show ?thesis
    using classify_never_overwrites_a_change [of "''a''" "Some [(''content_hash'', PStr ''1'')]"
      "Some [(''content_hash'', PStr ''1'')]" "Some [(''content_hash'', PStr ''2'')]"] by simp
qed

text \<open>An override never turns a difference into a transfer: it acknowledges or leaves it.\<close>

lemma classify_with_override_cases:
  assumes "classify_with_override H w d s be le re ov = Inr item"
  shows "item = classify_skill s be le re
    \<or> (it_action item \<in> {''local_only'', ''local_override''} \<and> ov \<noteq> None)"
  using assms
  by (auto simp: classify_with_override_def Let_def state_item_def split: option.splits if_splits)

lemma classify_with_override_id:
  "classify_with_override H w d s be le re ov = Inr item \<Longrightarrow> it_skill_id item = s"
  by (auto simp: classify_with_override_def Let_def state_item_def split: option.splits if_splits)

lemma collect_by_id_Inr:
  "collect_by_id es result dups = Inr (result', dups') \<Longrightarrow> distinct (map fst result) \<Longrightarrow>
     distinct (map fst result')"
proof (induction es arbitrary: result dups)
  case (Cons e es)
  then show ?case by (auto simp: Let_def distinct_update split: if_splits)
qed simp

text \<open>a status covers each skill once: its items are sorted by id, one for every id that the
  base record, the local root or the snapshot knows, each is the classification of that id or an
  acknowledged override, and the summary counts add up to the number of items.\<close>

theorem build_sync_status_covers_each_skill_once:
  assumes "sync_items H w a src ovp ids = Inr (items, overrides)"
    and "local_entries H w (sa_local_root a) src ids = Inr local"
    and "snapshot_entries w (sa_snapshot a) = Inr remote"
    and "base_entries w (sa_base_record a) = Inr base"
  shows "sorted (map it_skill_id items) \<and> distinct (map it_skill_id items)
    \<and> set (map it_skill_id items) = fst ` set base \<union> fst ` set local \<union> fst ` set remote
    \<and> (\<forall>i \<in> set items. i = classify_skill (it_skill_id i) (map_of base (it_skill_id i))
            (map_of local (it_skill_id i)) (map_of remote (it_skill_id i))
          \<or> it_action i \<in> {''local_only'', ''local_override''})
    \<and> sum_list (map snd (sort_items (tally (map it_action items)))) = length items
    \<and> build_sync_status H w a src ovp ids = Inr (status_dict a items overrides)"
proof -
  let ?ids = "sorted_set (map fst base @ map fst local @ map fst remote)"
  from assms obtain ovs where "mapR (\<lambda>skill_id. classify_with_override H w (sa_snapshot a) skill_id
      (map_of base skill_id) (map_of local skill_id) (map_of remote skill_id) (map_of ovs skill_id)) ?ids = Inr items"
    by (auto simp: sync_items_def)
  then have l: "list_all2 (\<lambda>s i. classify_with_override H w (sa_snapshot a) s (map_of base s) (map_of local s)
      (map_of remote s) (map_of ovs s) = Inr i) ?ids items"
    by (simp add: mapR_Inr_iff)
  have "map it_skill_id items = ?ids"
    using l by (induction rule: list_all2_induct) (auto dest: classify_with_override_id)
  moreover have "i = classify_skill (it_skill_id i) (map_of base (it_skill_id i))
            (map_of local (it_skill_id i)) (map_of remote (it_skill_id i))
          \<or> it_action i \<in> {''local_only'', ''local_override''}" if "i \<in> set items" for i
  proof -
    from l that obtain s where s: "classify_with_override H w (sa_snapshot a) s (map_of base s) (map_of local s)
      (map_of remote s) (map_of ovs s) = Inr i"
      by (auto simp: list_all2_conv_all_nth in_set_conv_nth)
    with classify_with_override_id [OF s] classify_with_override_cases [OF s] show ?thesis by auto
  qed
  ultimately show ?thesis
    using assms by (auto simp: build_sync_status_def sum_list_sort_items)
qed

definition demo_sync_world :: world where
  "demo_sync_world = \<lparr>w_tree = NDir
     [(''s'', NDir [(''demo'', demo_skill_node)]),
      (''c'', NDir [(''index.json'', NFile (Json (demo_index [(''b'', ''2'')])))])], w_fault = None\<rparr>"

definition demo_args :: sync_args where
  "demo_args = \<lparr>sa_local_root = [''s''], sa_snapshot = [''c''], sa_base_record = None\<rparr>"

theorem build_sync_status_covers_each_skill_once_witness:
  "\<exists>items overrides. sync_items raw_host demo_sync_world demo_args ''local'' None [] = Inr (items, overrides)
     \<and> map (\<lambda>i. (it_skill_id i, it_action i)) items = [(''b'', ''remote_new''), (''demo-skill'', ''local_new'')]
     \<and> distinct (map it_skill_id items)"
proof -
  let ?l = "local_entries raw_host demo_sync_world [''s''] ''local'' []"
  have "case sync_items raw_host demo_sync_world demo_args ''local'' None [] of Inl e \<Rightarrow> False
      | Inr (items, overrides) \<Rightarrow> map (\<lambda>i. (it_skill_id i, it_action i)) items
          = [(''b'', ''remote_new''), (''demo-skill'', ''local_new'')]"
    by code_simp
  then obtain items overrides where i: "sync_items raw_host demo_sync_world demo_args ''local'' None [] = Inr (items, overrides)"
      "map (\<lambda>i. (it_skill_id i, it_action i)) items = [(''b'', ''remote_new''), (''demo-skill'', ''local_new'')]"
    by (auto split: sum.splits)
  obtain l r b where "local_entries raw_host demo_sync_world (sa_local_root demo_args) ''local'' [] = Inr l"
      "snapshot_entries demo_sync_world (sa_snapshot demo_args) = Inr r"
      "base_entries demo_sync_world (sa_base_record demo_args) = Inr b"
    using i(1) by (auto simp: sync_items_def)
  from build_sync_status_covers_each_skill_once [OF i(1) this] have "distinct (map it_skill_id items)"
    by (elim conjE)
  with i show ?thesis by (intro exI conjI)
qed

end
