(* ===== verification/SyncPlan.thy ===== *)
theory SyncPlan
  imports SyncState
begin

text \<open>
  \<open>sync_plan.py\<close>: what a status may do under the caller's permissions and the writer policy, and
  \<open>blocked_report.py\<close>: the review report of what it may not do.
\<close>

section \<open>sync_plan.py\<close>

definition writer_policies :: "string list" where
  "writer_policies = [''push-pull'', ''pull-only'', ''push-only'', ''no-writes'']"

definition policy_allowed_actions :: "string \<Rightarrow> string list" where
  "policy_allowed_actions policy =
     (if policy = ''push-pull'' then [''noop'', ''pull'', ''pull_new'', ''push'', ''push_new'', ''delete_local'', ''deprecate_remote'', ''blocked'']
      else if policy = ''pull-only'' then [''noop'', ''pull'', ''pull_new'', ''blocked'']
      else if policy = ''push-only'' then [''noop'', ''push'', ''push_new'', ''blocked'']
      else if policy = ''no-writes'' then [''noop'', ''blocked'']
      else [])"

record sync_plan_item =
  pl_skill_id :: string
  pl_status_action :: string
  pl_plan_action :: string
  pl_allowed :: bool
  pl_reason :: string
  pl_base_hash :: pyval
  pl_local_hash :: pyval
  pl_remote_hash :: pyval

definition plan_item_dict :: "sync_plan_item \<Rightarrow> pydict" where
  "plan_item_dict i = [(''skill_id'', PStr (pl_skill_id i)), (''status_action'', PStr (pl_status_action i)),
     (''plan_action'', PStr (pl_plan_action i)), (''allowed'', PBool (pl_allowed i)), (''reason'', PStr (pl_reason i)),
     (''base_hash'', pl_base_hash i), (''local_hash'', pl_local_hash i), (''remote_hash'', pl_remote_hash i)]"

definition plan_item :: "bool \<Rightarrow> bool \<Rightarrow> pydict \<Rightarrow> sync_plan_item" where
  "plan_item allow_new allow_delete item =
     (let status_action = py_str (dget item ''action'');
          mk = (\<lambda>plan_action allowed reason.
            \<lparr>pl_skill_id = py_str (dget item ''skill_id''), pl_status_action = status_action, pl_plan_action = plan_action,
             pl_allowed = allowed, pl_reason = reason, pl_base_hash = dget item ''base_hash'',
             pl_local_hash = dget item ''local_hash'', pl_remote_hash = dget item ''remote_hash''\<rparr>)
      in if status_action = ''local_only'' then
           mk ''noop'' True (py_str (por (dget item ''reason'') (PStr ''local-only skill acknowledged'')))
         else if status_action = ''local_override'' then
           mk ''noop'' True (py_str (por (dget item ''reason'') (PStr ''local override acknowledged'')))
         else if status_action \<in> set [''unchanged'', ''already_converged'', ''central_deprecated'', ''deleted_both'', ''same_without_base''] then
           mk ''noop'' True ''no sync action needed''
         else if status_action = ''pull'' then mk ''pull'' True ''remote changed and local is still at base''
         else if status_action = ''push'' then mk ''push'' True ''local changed and remote is still at base''
         else if status_action = ''remote_new'' then
           mk (if allow_new then ''pull_new'' else ''blocked'') allow_new
             ''remote new skill requires --allow-new before auto-pull''
         else if status_action = ''local_new'' then
           mk (if allow_new then ''push_new'' else ''blocked'') allow_new
             ''local new skill requires --allow-new before auto-push''
         else if status_action = ''remote_deleted'' then
           mk (if allow_delete then ''delete_local'' else ''blocked'') allow_delete
             ''remote deletion requires --allow-delete before local deletion''
         else if status_action = ''local_deleted'' then
           mk (if allow_delete then ''deprecate_remote'' else ''blocked'') allow_delete
             ''local deletion requires restore or central deprecate review; remote files are not physically deleted''
         else mk ''blocked'' False ''conflict or unknown state requires manual resolution'')"

definition apply_writer_policy :: "string \<Rightarrow> sync_plan_item \<Rightarrow> sync_plan_item" where
  "apply_writer_policy writer_policy i =
     (if \<not> pl_allowed i then i
      else if pl_plan_action i \<in> set (policy_allowed_actions writer_policy) then i
      else i\<lparr>pl_plan_action := ''blocked'', pl_allowed := False,
             pl_reason := ''writer policy '' @ writer_policy @ '' blocks '' @ pl_plan_action i\<rparr>)"

definition plan_items :: "bool \<Rightarrow> bool \<Rightarrow> string \<Rightarrow> pydict \<Rightarrow> sync_plan_item list res" where
  "plan_items allow_new allow_delete writer_policy status =
     (if writer_policy \<notin> set writer_policies
      then Inl (Exn ValueError (''unsupported writer policy: '' @ writer_policy))
      else bindR (py_iter (dget_or status ''items'' (PList []))) (\<lambda>raws.
           bindR (mapR as_dict raws) (\<lambda>items.
             Inr (map (apply_writer_policy writer_policy \<circ> plan_item allow_new allow_delete) items))))"

definition plan_dict :: "string \<Rightarrow> pydict \<Rightarrow> sync_plan_item list \<Rightarrow> pydict" where
  "plan_dict writer_policy status items =
     (let blocked = filter (\<lambda>i. \<not> pl_allowed i) items in
     [(''dry_run'', PBool True),
      (''local_root'', dget status ''local_root''),
      (''remote_snapshot'', dget status ''remote_snapshot''),
      (''last_applied_record'', dget status ''last_applied_record''),
      (''writer_policy'', PStr writer_policy),
      (''total'', PInt (int (length items))),
      (''summary'', counts (sort_items (tally (map pl_plan_action items)))),
      (''allowed'', PInt (int (length (filter pl_allowed items)))),
      (''blocked'', PInt (int (length blocked))),
      (''safe_to_apply'', PBool (blocked = [])),
      (''items'', PList (map (PDict \<circ> plan_item_dict) items))])"

definition build_sync_plan :: "pydict \<Rightarrow> bool \<Rightarrow> bool \<Rightarrow> string \<Rightarrow> pydict res" where
  "build_sync_plan status allow_new allow_delete writer_policy =
     bindR (plan_items allow_new allow_delete writer_policy status) (\<lambda>items. Inr (plan_dict writer_policy status items))"

section \<open>What a plan allows\<close>

text \<open>The plan action of a status action before the policy.\<close>

definition raw_plan_action :: "bool \<Rightarrow> bool \<Rightarrow> string \<Rightarrow> string" where
  "raw_plan_action allow_new allow_delete a =
     (if a \<in> {''local_only'', ''local_override'', ''unchanged'', ''already_converged'', ''central_deprecated'', ''deleted_both'', ''same_without_base''}
      then ''noop''
      else if a = ''pull'' then ''pull'' else if a = ''push'' then ''push''
      else if a = ''remote_new'' \<and> allow_new then ''pull_new''
      else if a = ''local_new'' \<and> allow_new then ''push_new''
      else if a = ''remote_deleted'' \<and> allow_delete then ''delete_local''
      else if a = ''local_deleted'' \<and> allow_delete then ''deprecate_remote''
      else ''blocked'')"

lemma raw_plan_action_denied [simp]:
  "raw_plan_action False ad a \<noteq> ''pull_new''" "raw_plan_action False ad a \<noteq> ''push_new''"
  "raw_plan_action an False a \<noteq> ''delete_local''" "raw_plan_action an False a \<noteq> ''deprecate_remote''"
  "raw_plan_action an ad ''conflict'' = ''blocked''"
  by (auto simp: raw_plan_action_def)

lemmas raw_plan_action_denied_sym [simp] = raw_plan_action_denied(1-4) [symmetric]

lemma raw_plan_action_source:
  "raw_plan_action an ad a \<in> {''pull'', ''pull_new'', ''delete_local''} \<Longrightarrow> a \<in> {''pull'', ''remote_new'', ''remote_deleted''}"
  "raw_plan_action an ad a \<in> {''push'', ''push_new'', ''deprecate_remote''} \<Longrightarrow> a \<in> {''push'', ''local_new'', ''local_deleted''}"
  by (simp_all add: raw_plan_action_def split: if_splits)

lemma plan_item_facts:
  "pl_plan_action (plan_item an ad d) = raw_plan_action an ad (py_str (dget d ''action''))"
  "pl_allowed (plan_item an ad d) \<longleftrightarrow> raw_plan_action an ad (py_str (dget d ''action'')) \<noteq> ''blocked''"
  "pl_status_action (plan_item an ad d) = py_str (dget d ''action'')"
  "pl_skill_id (plan_item an ad d) = py_str (dget d ''skill_id'')"
  by (simp_all add: plan_item_def Let_def raw_plan_action_def)

lemma apply_writer_policy_facts [simp]:
  "pl_skill_id (apply_writer_policy p i) = pl_skill_id i"
  "pl_status_action (apply_writer_policy p i) = pl_status_action i"
  "pl_base_hash (apply_writer_policy p i) = pl_base_hash i"
  "pl_local_hash (apply_writer_policy p i) = pl_local_hash i"
  "pl_remote_hash (apply_writer_policy p i) = pl_remote_hash i"
  by (auto simp: apply_writer_policy_def)

lemma blocked_in_policy: "p \<in> set writer_policies \<Longrightarrow> ''blocked'' \<in> set (policy_allowed_actions p)"
  by (auto simp: writer_policies_def policy_allowed_actions_def)

lemma apply_writer_policy_action:
  assumes "pl_allowed i \<longleftrightarrow> pl_plan_action i \<noteq> ''blocked''"
  shows "pl_plan_action (apply_writer_policy p i) =
      (if pl_plan_action i \<in> set (policy_allowed_actions p) then pl_plan_action i else ''blocked'')"
    "pl_allowed (apply_writer_policy p i) \<longleftrightarrow> pl_plan_action (apply_writer_policy p i) \<noteq> ''blocked''"
  using assms by (auto simp: apply_writer_policy_def)

lemma plan_items_Inr:
  assumes "plan_items an ad p status = Inr items"
  shows "p \<in> set writer_policies"
    "\<exists>ds. items = map (apply_writer_policy p \<circ> plan_item an ad) ds
      \<and> py_iter (dget_or status ''items'' (PList [])) = Inr (map PDict ds)"
proof -
  show "p \<in> set writer_policies" using assms by (auto simp: plan_items_def split: if_splits)
  from assms obtain raws ds where r: "py_iter (dget_or status ''items'' (PList [])) = Inr raws" "mapR as_dict raws = Inr ds"
      "items = map (apply_writer_policy p \<circ> plan_item an ad) ds"
    by (auto simp: plan_items_def split: if_splits)
  have "raws = map PDict ds"
    using r(2) by (auto simp: mapR_Inr_iff list_all2_conv_all_nth intro!: nth_equalityI)
  with r show "\<exists>ds. items = map (apply_writer_policy p \<circ> plan_item an ad) ds
      \<and> py_iter (dget_or status ''items'' (PList [])) = Inr (map PDict ds)" by auto
qed

lemma plan_items_mem:
  assumes "plan_items an ad p status = Inr items" "i \<in> set items"
  shows "pl_plan_action i \<in> set (policy_allowed_actions p) \<or> pl_plan_action i = ''blocked''"
    "pl_allowed i \<longleftrightarrow> pl_plan_action i \<noteq> ''blocked''"
    "pl_plan_action i = raw_plan_action an ad (pl_status_action i) \<or> pl_plan_action i = ''blocked''"
proof -
  from plan_items_Inr(2) [OF assms(1)] assms(2) obtain d where d: "i = apply_writer_policy p (plan_item an ad d)" by auto
  have "pl_allowed (plan_item an ad d) \<longleftrightarrow> pl_plan_action (plan_item an ad d) \<noteq> ''blocked''"
    by (simp add: plan_item_facts)
  from apply_writer_policy_action [OF this, of p]
  show "pl_plan_action i \<in> set (policy_allowed_actions p) \<or> pl_plan_action i = ''blocked''"
    "pl_allowed i \<longleftrightarrow> pl_plan_action i \<noteq> ''blocked''"
    "pl_plan_action i = raw_plan_action an ad (pl_status_action i) \<or> pl_plan_action i = ''blocked''"
    unfolding d by (auto simp: plan_item_facts)
qed

text \<open>a plan stays inside its writer policy and its permissions: every action of the plan is one
  the policy lists, an item is allowed exactly when it is not blocked, a conflict is never
  allowed, nothing new is transferred without \<open>--allow-new\<close>, and nothing is deleted or deprecated
  without \<open>--allow-delete\<close>.\<close>

theorem plan_respects_policy_and_permissions:
  assumes "plan_items allow_new allow_delete writer_policy status = Inr items" and "i \<in> set items"
  shows "pl_plan_action i \<in> set (policy_allowed_actions writer_policy)
    \<and> (pl_allowed i \<longleftrightarrow> pl_plan_action i \<noteq> ''blocked'')
    \<and> (pl_status_action i = ''conflict'' \<longrightarrow> \<not> pl_allowed i)
    \<and> (\<not> allow_new \<longrightarrow> pl_plan_action i \<notin> {''pull_new'', ''push_new''})
    \<and> (\<not> allow_delete \<longrightarrow> pl_plan_action i \<notin> {''delete_local'', ''deprecate_remote''})"
proof -
  note m = plan_items_mem [OF assms]
  have "pl_plan_action i \<in> set (policy_allowed_actions writer_policy)"
    using m(1) blocked_in_policy [OF plan_items_Inr(1) [OF assms(1)]] by auto
  with m show ?thesis by auto
qed

definition demo_status :: pydict where
  "demo_status = [(''items'', PList (map (\<lambda>(s, a). PDict [(''skill_id'', PStr s), (''action'', PStr a)])
     [(''a'', ''pull''), (''b'', ''push''), (''c'', ''conflict''), (''d'', ''local_new'')]))]"

lemma demo_plan_eval:
  "map (\<lambda>i. (pl_skill_id i, pl_plan_action i)) (case plan_items False False ''pull-only'' demo_status of Inl e \<Rightarrow> [] | Inr is \<Rightarrow> is)
    = [(''a'', ''pull''), (''b'', ''blocked''), (''c'', ''blocked''), (''d'', ''blocked'')]"
  by code_simp

theorem plan_respects_policy_and_permissions_witness:
  "\<exists>items. plan_items False False ''pull-only'' demo_status = Inr items
     \<and> map pl_plan_action items = [''pull'', ''blocked'', ''blocked'', ''blocked'']
     \<and> (\<forall>i \<in> set items. pl_plan_action i \<in> set (policy_allowed_actions ''pull-only''))"
proof -
  obtain items where i: "plan_items False False ''pull-only'' demo_status = Inr items"
    using demo_plan_eval by (cases "plan_items False False ''pull-only'' demo_status") auto
  have "map (\<lambda>i. (pl_skill_id i, pl_plan_action i)) items
      = [(''a'', ''pull''), (''b'', ''blocked''), (''c'', ''blocked''), (''d'', ''blocked'')]"
    using demo_plan_eval by (simp add: i)
  then have "map snd (map (\<lambda>i. (pl_skill_id i, pl_plan_action i)) items) = [''pull'', ''blocked'', ''blocked'', ''blocked'']"
    by simp
  then have "map pl_plan_action items = [''pull'', ''blocked'', ''blocked'', ''blocked'']"
    by (simp add: comp_def)
  with i plan_respects_policy_and_permissions [OF i] show ?thesis by auto
qed

lemma dget_item_dict:
  "dget (item_dict i) ''action'' = PStr (it_action i)" "dget (item_dict i) ''skill_id'' = PStr (it_skill_id i)"
  "dget (item_dict i) ''base_hash'' = opt_str (it_base_hash i)" "dget (item_dict i) ''local_hash'' = opt_str (it_local_hash i)"
  "dget (item_dict i) ''remote_hash'' = opt_str (it_remote_hash i)" "dget (item_dict i) ''reason'' = PStr (it_reason i)"
  by (simp_all add: item_dict_def)

lemma status_dict_items: "dget_or (status_dict a items ovs) ''items'' v = PList (map (PDict \<circ> item_dict) items)"
  by (simp add: status_dict_def)

lemma plan_of_status:
  assumes "plan_items an ad p (status_dict a items ovs) = Inr pl"
  shows "pl = map (apply_writer_policy p \<circ> plan_item an ad \<circ> item_dict) items"
  using assms by (auto simp: plan_items_def status_dict_items comp_def split: if_splits)

text \<open>C3: no transfer of a plan overwrites a change: in the plan made from the classified items, an
  allowed pull or local deletion has the local hash still equal to the base hash, an allowed push
  or deprecation has the remote hash still equal to the base hash, for every permission and policy.\<close>

theorem plan_never_overwrites_a_change:
  assumes "i = apply_writer_policy p (plan_item an ad (item_dict (classify_skill s be le re)))"
    and "pl_allowed i"
  shows "(pl_plan_action i \<in> {''pull'', ''pull_new'', ''delete_local''} \<longrightarrow> entry_hash le = entry_hash be)
    \<and> (pl_plan_action i \<in> {''push'', ''push_new'', ''deprecate_remote''} \<longrightarrow> entry_hash re = entry_hash be)"
proof -
  let ?c = "classify_skill s be le re"
  let ?j = "plan_item an ad (item_dict ?c)"
  have "pl_allowed ?j \<longleftrightarrow> pl_plan_action ?j \<noteq> ''blocked''" by (simp add: plan_item_facts)
  from apply_writer_policy_action [OF this, of p] assms
  have "pl_plan_action i = raw_plan_action an ad (it_action ?c)"
    by (auto simp: plan_item_facts dget_item_dict)
  then show ?thesis
    using raw_plan_action_source [of an ad "it_action ?c"] classify_overwrites_only_base [of s be le re] by metis
qed

theorem plan_never_overwrites_a_change_witness:
  "pl_allowed (apply_writer_policy ''push-pull'' (plan_item False False (item_dict
      (classify_skill ''a'' (Some [(''content_hash'', PStr ''1'')]) (Some [(''content_hash'', PStr ''1'')]) (Some [(''content_hash'', PStr ''2'')])))))
   \<and> entry_hash (Some [(''content_hash'', PStr ''1'')]) = entry_hash (Some [(''content_hash'', PStr ''1'')])"
proof -
  let ?i = "apply_writer_policy ''push-pull'' (plan_item False False (item_dict
      (classify_skill ''a'' (Some [(''content_hash'', PStr ''1'')]) (Some [(''content_hash'', PStr ''1'')]) (Some [(''content_hash'', PStr ''2'')]))))"
  have a: "pl_allowed ?i" "pl_plan_action ?i = ''pull''" by code_simp+
  from plan_never_overwrites_a_change [OF refl a(1)] a show ?thesis by simp
qed

section \<open>blocked_report.py\<close>

definition blocked_category :: "string \<Rightarrow> string \<Rightarrow> string" where
  "blocked_category status_action reason =
     (if starts_with reason ''writer policy '' then ''writer_policy''
      else if status_action = ''conflict'' then ''conflict''
      else if status_action \<in> set [''local_deleted'', ''remote_deleted''] then ''delete_review''
      else if status_action \<in> set [''local_new'', ''remote_new''] then ''new_skill_review''
      else ''manual_review'')"

definition blocked_recommendation :: "string \<Rightarrow> string \<Rightarrow> string \<Rightarrow> string \<Rightarrow> string" where
  "blocked_recommendation category plan_action status_action writer_policy =
     (if category = ''writer_policy'' then
        (if writer_policy = ''pull-only'' then ''Review the local change. If it should be saved to the shared library, run an explicit approved-push path instead of changing the unattended OpenClaw policy.''
         else if writer_policy = ''push-only'' then ''Review the remote change. If it should install locally, run an explicit approved pull path instead of changing the unattended writer policy.''
         else ''Review whether policy '' @ writer_policy @ '' should allow '' @ plan_action @ '' for this skill.'')
      else if category = ''conflict'' then ''Materialize a conflict package and resolve local, remote, and base contents manually.''
      else if category = ''delete_review'' then
        (if status_action = ''local_deleted'' then ''Restore the skill to the missing device, or mark it deprecated in the central library. Do not physically delete central files from a device-side deletion.''
         else if status_action = ''remote_deleted'' then ''Review whether the local copy should be republished or removed locally after the central repository'' @ [quote_char] @ ''s dedicated deletion flow.''
         else ''Review whether to restore the missing copy or mark the central skill deprecated; ordinary sync must not physically delete central files.'')
      else if category = ''new_skill_review'' then
        (if status_action = ''local_new'' then ''Review the local new skill before saving it to the shared library with --allow-new.''
         else ''Review the remote new skill before installing it locally with --allow-new.'')
      else ''Inspect this blocked item and choose an explicit pull, push, or defer action.'')"

definition enrich_item :: "string \<Rightarrow> pydict \<Rightarrow> pydict" where
  "enrich_item writer_policy item =
     (let status_action = py_str (dget item ''status_action'');
          reason = py_str (dget item ''reason'');
          plan_action = py_str (dget item ''plan_action'');
          category = blocked_category status_action reason
      in dset (dset item ''category'' (PStr category))
           ''recommendation'' (PStr (blocked_recommendation category plan_action status_action writer_policy)))"

definition enrich_blocked_items :: "pydict \<Rightarrow> string \<Rightarrow> pydict list res" where
  "enrich_blocked_items plan writer_policy =
     bindR (py_iter (dget_or plan ''items'' (PList []))) (\<lambda>raws. bindR (mapR as_dict raws) (\<lambda>items.
       Inr (map (enrich_item writer_policy) (filter (\<lambda>d. \<not> truthy (dget d ''allowed'')) items))))"

definition backtick :: "string \<Rightarrow> string" where
  "backtick s = [CHR 0x60] @ s @ [CHR 0x60]"

definition render_blocked_item :: "pydict \<Rightarrow> string list" where
  "render_blocked_item item = (let f = (\<lambda>k. py_str (dget item k)) in
     [''### '' @ f ''skill_id'', [],
      ''- Category: '' @ backtick (f ''category''),
      ''- Status action: '' @ backtick (f ''status_action''),
      ''- Plan action: '' @ backtick (f ''plan_action''),
      ''- Reason: '' @ f ''reason'',
      ''- Base hash: '' @ backtick (f ''base_hash''),
      ''- Local hash: '' @ backtick (f ''local_hash''),
      ''- Remote hash: '' @ backtick (f ''remote_hash''),
      ''- Recommendation: '' @ f ''recommendation'', []])"

definition render_blocked_markdown :: "pydict \<Rightarrow> string" where
  "render_blocked_markdown report =
     (let f = (\<lambda>k. py_str (dget report k));
          summary = dict_or_empty (dget report ''summary'');
          items = only_dicts (list_or_empty (dget report ''items''));
          ls = [''# Skill Sync Blocked Report'', [],
             ''- Created: '' @ backtick (f ''created_at''),
             ''- Writer policy: '' @ backtick (f ''writer_policy''),
             ''- Local root: '' @ backtick (f ''local_root''),
             ''- Remote snapshot: '' @ backtick (f ''remote_snapshot''),
             ''- Last applied record: '' @ backtick (f ''last_applied_record''),
             ''- Total blocked: '' @ backtick (f ''total''), [], ''## Summary'', []]
           @ (if summary = [] then [''- No blocked items.'']
              else map (\<lambda>(k, v). ''- '' @ backtick k @ '': '' @ backtick (py_str v)) summary)
           @ (if items = [] then [] else [[], ''## Items'', []] @ concat (map render_blocked_item items))
      in rstrip_set py_space (join_str newline ls) @ newline)"

text \<open>The report computed, and the report written: a JSON file, then a Markdown file.\<close>

definition blocked_report_dict :: "host \<Rightarrow> world \<Rightarrow> sync_args \<Rightarrow> path \<Rightarrow> bool \<Rightarrow> bool \<Rightarrow> string \<Rightarrow> string \<Rightarrow> pydict res" where
  "blocked_report_dict H w a out_dir allow_new allow_delete writer_policy created_at =
     bindR (build_sync_status H w a ''local'' None []) (\<lambda>status.
     bindR (build_sync_plan status allow_new allow_delete writer_policy) (\<lambda>plan.
     bindR (enrich_blocked_items plan writer_policy) (\<lambda>enriched.
       Inr [(''created_at'', PStr created_at),
            (''record_type'', PStr ''skill-sync-blocked-report''),
            (''local_root'', PStr (path_str (norm_path (sa_local_root a)))),
            (''remote_snapshot'', PStr (path_str (norm_path (sa_snapshot a)))),
            (''last_applied_record'', opt_path (map_option norm_path (sa_base_record a))),
            (''writer_policy'', PStr writer_policy),
            (''allow_new'', PBool allow_new),
            (''allow_delete'', PBool allow_delete),
            (''total'', PInt (int (length enriched))),
            (''summary'', counts (sort_items (tally (map (\<lambda>i. py_str (dget i ''category'')) enriched)))),
            (''out'', PStr (path_str (norm_path out_dir))),
            (''items'', PList (map PDict enriched))])))"

definition build_blocked_report ::
    "host \<Rightarrow> sync_args \<Rightarrow> path \<Rightarrow> bool \<Rightarrow> bool \<Rightarrow> string \<Rightarrow> string \<Rightarrow> pydict io" where
  "build_blocked_report H a out_dir allow_new allow_delete writer_policy created_at w =
     (case blocked_report_dict H w a out_dir allow_new allow_delete writer_policy created_at of
        Inl e \<Rightarrow> (Inl e, w)
      | Inr report \<Rightarrow>
          thenI (mkdirs out_dir)
          (thenI (write_data (out_dir @ [''blocked-report.json'']) (Json (PDict report)))
          (thenI (write_data (out_dir @ [''blocked-report.md'']) (Raw (render_blocked_markdown report)))
             (returnI report))) w)"

lemma plan_dict_items: "dget_or (plan_dict p st items) ''items'' v = PList (map (PDict \<circ> plan_item_dict) items)"
  by (simp add: plan_dict_def Let_def)

lemma enrich_item_facts:
  "dget (enrich_item p d) ''skill_id'' = dget d ''skill_id''"
  "dget (enrich_item p d) ''category'' = PStr (blocked_category (py_str (dget d ''status_action'')) (py_str (dget d ''reason'')))"
  by (simp_all add: enrich_item_def Let_def)

lemma dget_plan_item_dict:
  "dget (plan_item_dict i) ''skill_id'' = PStr (pl_skill_id i)" "dget (plan_item_dict i) ''allowed'' = PBool (pl_allowed i)"
  "dget (plan_item_dict i) ''status_action'' = PStr (pl_status_action i)" "dget (plan_item_dict i) ''reason'' = PStr (pl_reason i)"
  "dget (plan_item_dict i) ''plan_action'' = PStr (pl_plan_action i)" "dget (plan_item_dict i) ''remote_hash'' = pl_remote_hash i"
  by (simp_all add: plan_item_dict_def)

text \<open>The category an item belongs to, from its status and the permissions alone.\<close>

definition review_category :: "bool \<Rightarrow> bool \<Rightarrow> string \<Rightarrow> string" where
  "review_category allow_new allow_delete a =
     (if raw_plan_action allow_new allow_delete a \<noteq> ''blocked'' then ''writer_policy''
      else if a = ''conflict'' then ''conflict''
      else if a \<in> {''local_deleted'', ''remote_deleted''} then ''delete_review''
      else if a \<in> {''local_new'', ''remote_new''} then ''new_skill_review''
      else ''manual_review'')"

text \<open>the blocked report lists exactly the items of the plan that are not allowed, in the plan's
  order, and files each under one category; an item the writer policy blocked is filed under
  \<open>writer_policy\<close>, and a conflict that no policy touched under \<open>conflict\<close>.\<close>

theorem blocked_report_lists_what_is_blocked:
  assumes "plan_items allow_new allow_delete p status = Inr items"
  shows "\<exists>enriched. enrich_blocked_items (plan_dict p status items) q = Inr enriched
    \<and> map (\<lambda>d. dget d ''skill_id'') enriched = map (PStr \<circ> pl_skill_id) (filter (\<lambda>i. \<not> pl_allowed i) items)
    \<and> (\<forall>d \<in> set enriched. \<exists>i \<in> set items. \<not> pl_allowed i \<and> dget d ''skill_id'' = PStr (pl_skill_id i)
        \<and> dget d ''category'' = PStr (review_category allow_new allow_delete (pl_status_action i)))"
proof -
  let ?bl = "filter (\<lambda>i. \<not> pl_allowed i) items"
  have filt: "filter (\<lambda>d. \<not> truthy (dget d ''allowed'')) (map plan_item_dict items) = map plan_item_dict ?bl"
    by (simp add: filter_map comp_def dget_plan_item_dict)
  have e: "enrich_blocked_items (plan_dict p status items) q = Inr (map (enrich_item q) (map plan_item_dict ?bl))"
    using filt by (simp add: enrich_blocked_items_def plan_dict_items comp_def)
  have cat: "dget (enrich_item q (plan_item_dict i)) ''category'' = PStr (review_category allow_new allow_delete (pl_status_action i))" if i: "i \<in> set ?bl" for i
  proof -
    from i plan_items_Inr(2) [OF assms] obtain d where d: "i = apply_writer_policy p (plan_item allow_new allow_delete d)" by auto
    show ?thesis
    proof (cases "raw_plan_action allow_new allow_delete (pl_status_action i) = ''blocked''")
      case True
      then have a: "py_str (dget d ''action'') \<notin> {''local_only'', ''local_override''}" "\<not> pl_allowed (plan_item allow_new allow_delete d)"
        using d by (auto simp: plan_item_facts raw_plan_action_def)
      then have "pl_reason i = pl_reason (plan_item allow_new allow_delete d)" using d by (simp add: apply_writer_policy_def)
      moreover have "\<not> starts_with (pl_reason (plan_item allow_new allow_delete d)) ''writer policy ''"
        using a by (auto simp: plan_item_def Let_def starts_with_def)
      ultimately show ?thesis using True
        by (simp add: enrich_item_facts dget_plan_item_dict blocked_category_def review_category_def)
    next
      case False
      then have "pl_allowed (plan_item allow_new allow_delete d)" using d by (simp add: plan_item_facts)
      then have "starts_with (pl_reason i) ''writer policy ''"
        using i d by (auto simp: apply_writer_policy_def starts_with_def)
      then show ?thesis using False
        by (simp add: enrich_item_facts dget_plan_item_dict blocked_category_def review_category_def)
    qed
  qed
  have all: "\<exists>i \<in> set items. \<not> pl_allowed i \<and> dget d ''skill_id'' = PStr (pl_skill_id i)
      \<and> dget d ''category'' = PStr (review_category allow_new allow_delete (pl_status_action i))"
    if d: "d \<in> set (map (enrich_item q) (map plan_item_dict ?bl))" for d
  proof -
    from d obtain i where i: "i \<in> set ?bl" "d = enrich_item q (plan_item_dict i)" by auto
    from cat [OF i(1)] i show ?thesis
      by (intro bexI [of _ i]) (simp_all add: enrich_item_facts(1) dget_plan_item_dict)
  qed
  show ?thesis unfolding e using all
    by (simp add: enrich_item_facts(1) dget_plan_item_dict comp_def)
qed

theorem blocked_report_lists_what_is_blocked_witness:
  "\<exists>items enriched. plan_items False False ''pull-only'' demo_status = Inr items
     \<and> enrich_blocked_items (plan_dict ''pull-only'' demo_status items) ''pull-only'' = Inr enriched
     \<and> map (\<lambda>d. dget d ''skill_id'') enriched = map (PStr \<circ> pl_skill_id) (filter (\<lambda>i. \<not> pl_allowed i) items)"
proof -
  obtain items where i: "plan_items False False ''pull-only'' demo_status = Inr items"
    using demo_plan_eval by (cases "plan_items False False ''pull-only'' demo_status") auto
  from blocked_report_lists_what_is_blocked [OF i] i show ?thesis by blast
qed

end
