(* ===== verification/Frame.thy ===== *)
theory Frame
  imports World
begin

text \<open>
  Which paths an action may touch. \<open>only_under p m\<close> says that \<open>m\<close>, whatever it returns, raises or
  leaves behind when an operation faults, changes nothing at any path apart from \<open>p\<close>; the rules
  below derive it along the structure of an action. Also the rules that compute the writing
  operations on clean paths when no fault is pending.
\<close>

lemmas io_Inr = bindI_eq_Inr thenI_eq_Inr returnI_def raiseI_def liftI_def askI_def

definition only_under :: "path \<Rightarrow> 'a io \<Rightarrow> bool" where
  "only_under p m = (\<forall>w q. apart p q \<longrightarrow> lookup (w_tree (snd (m w))) q = lookup (w_tree w) q)"

named_theorems frame_intros \<open>rules for the paths an action may touch\<close>

lemma only_underI: "(\<And>w q. apart p q \<Longrightarrow> lookup (w_tree (snd (m w))) q = lookup (w_tree w) q) \<Longrightarrow> only_under p m"
  by (simp add: only_under_def)

lemma only_underD: "only_under p m \<Longrightarrow> apart p q \<Longrightarrow> lookup (w_tree (snd (m w))) q = lookup (w_tree w) q"
  by (simp add: only_under_def)

lemma only_under_pure [frame_intros]:
  "only_under p (returnI x)" "only_under p (raiseI e)" "only_under p (liftI r)" "only_under p (askI f)"
  by (simp_all add: only_under_def io_defs)

lemma only_under_reading [frame_intros]: "only_under p (read_data q)" "only_under p (read_json q)"
  by (simp_all add: only_under_def read_data_keeps read_json_keeps)

lemma only_under_bindI [frame_intros]:
  assumes "only_under p m" "\<And>x. only_under p (f x)"
  shows "only_under p (bindI m f)"
proof (rule only_underI)
  fix w q assume a: "apart p q"
  show "lookup (w_tree (snd (bindI m f w))) q = lookup (w_tree w) q"
    using only_underD [OF assms(1) a, of w] only_underD [OF assms(2) a]
    by (cases "m w") (auto simp: bindI_def split: sum.splits)
qed

lemma only_under_thenI [frame_intros]: "only_under p m \<Longrightarrow> only_under p k \<Longrightarrow> only_under p (thenI m k)"
  unfolding thenI_def by (rule only_under_bindI)

text \<open>A guard that a reading of the world decides, and a case on what it holds.\<close>

lemma only_under_if [frame_intros]:
  "(b \<Longrightarrow> only_under p m) \<Longrightarrow> (\<not> b \<Longrightarrow> only_under p k) \<Longrightarrow> only_under p (if b then m else k)"
  by simp

lemma only_under_at:
  assumes "\<And>w. only_under p (f w)"
  shows "only_under p (\<lambda>w. f w w)"
  using assms by (simp add: only_under_def)

lemma only_under_bind_lift:
  assumes "\<And>x. r = Inr x \<Longrightarrow> only_under p (f x)"
  shows "only_under p (bindI (liftI r) f)"
  using assms by (cases r) (auto simp: only_under_def bindI_def liftI_def)

lemma only_under_mapI [frame_intros]:
  "(\<And>x. x \<in> set xs \<Longrightarrow> only_under p (f x)) \<Longrightarrow> only_under p (mapI f xs)"
  by (induction xs) (auto intro: frame_intros)

lemma only_under_foldI [frame_intros]:
  "(\<And>x s. x \<in> set xs \<Longrightarrow> only_under p (f x s)) \<Longrightarrow> only_under p (foldI f xs s)"
  by (induction xs arbitrary: s) (auto intro!: frame_intros)

lemma only_under_catchI [frame_intros]:
  assumes "only_under p m" "\<And>e. only_under p (h e)"
  shows "only_under p (catchI m h)"
proof (rule only_underI)
  fix w q assume a: "apart p q"
  show "lookup (w_tree (snd (catchI m h w))) q = lookup (w_tree w) q"
    using only_underD [OF assms(1) a, of w] only_underD [OF assms(2) a]
    by (cases "m w") (auto simp: catchI_def split: sum.splits)
qed

lemma apart_under: "apart p q \<Longrightarrow> prefix p p' \<Longrightarrow> apart p' q"
  unfolding apart_def by (meson prefix_order.trans prefix_same_cases)

lemma only_under_mono: "only_under p' m \<Longrightarrow> prefix p p' \<Longrightarrow> only_under p m"
  by (rule only_underI) (blast intro: only_underD apart_under)

lemma step_at_frame: "apart q r \<Longrightarrow> (\<And>t. lookup (f t) r = lookup t r)
    \<Longrightarrow> lookup (w_tree (snd (step_at q f w))) r = lookup (w_tree w) r"
  by (cases rule: step_at_cases [of q f w]) (auto simp: leave_apart)

lemma step_clean_frame: "lookup (f (w_tree w)) r = lookup (w_tree w) r
    \<Longrightarrow> lookup (w_tree (snd (step_clean f w))) r = lookup (w_tree w) r"
  by (cases rule: step_clean_cases [of f w]) auto

text \<open>Making directories adds prefixes of its path and nothing else.\<close>

lemma mkdirs_frame:
  assumes "\<not> prefix r (norm_path q)"
  shows "lookup (w_tree (snd (mkdirs q w))) r = lookup (w_tree w) r"
proof -
  let ?q = "norm_path q"
  have "lookup (put (w_tree w) ?q (NDir [])) r = lookup (w_tree w) r"
    if none: "lookup (w_tree w) ?q = None" and ok: "parent_ok (w_tree w) ?q"
  proof (cases "prefix ?q r")
    case True
    then obtain s where r: "r = ?q @ s" by (auto simp: prefix_def)
    with assms have "s \<noteq> []" by auto
    then have "lookup (NDir []) s = None" by (cases s) auto
    with none show ?thesis unfolding r lookup_put_under [OF ok] by (simp add: lookup_append)
  next
    case False
    with assms show ?thesis by (intro lookup_put_apart) (simp add: apart_def)
  qed
  then show ?thesis
    by (auto simp: mkdirs_def Let_def is_file_def is_dir_def at_def intro!: step_clean_frame
        split: option.splits node.splits)
qed

lemma only_under_mkdirs [frame_intros]: "\<not> apart p (norm_path q) \<Longrightarrow> only_under p (mkdirs q)"
  by (rule only_underI, rule mkdirs_frame) (auto simp: apart_def dest: prefix_order.trans prefix_same_cases)

lemma only_under_write_data [frame_intros]: "prefix p (norm_path q) \<Longrightarrow> only_under p (write_data q d)"
  by (rule only_underI)
    (auto simp: write_data_def Let_def intro!: step_at_frame lookup_put_apart dest: apart_under)

lemma only_under_copytree [frame_intros]: "prefix p (norm_path q) \<Longrightarrow> only_under p (copytree s q)"
  by (rule only_underI)
    (auto simp: copytree_def Let_def intro!: step_at_frame lookup_put_apart
      split: option.splits node.splits dest: apart_under)

lemma only_under_copy_file [frame_intros]:
  assumes "prefix p (norm_path q)" shows "only_under p (copy_file s q)"
proof (rule only_underI)
  fix w r assume "apart p r"
  from only_underD [OF only_under_write_data [OF assms] this]
  show "lookup (w_tree (snd (copy_file s q w))) r = lookup (w_tree w) r"
    by (auto simp: copy_file_def split: option.splits node.splits)
qed

lemma only_under_rmtree [frame_intros]: "prefix p (norm_path q) \<Longrightarrow> only_under p (rmtree q)"
  by (rule only_underI)
    (auto simp: rmtree_def Let_def intro!: step_at_frame lookup_del_apart dest: apart_under)

lemma only_under_unlink [frame_intros]: "prefix p (norm_path q) \<Longrightarrow> only_under p (unlink q)"
  by (rule only_underI)
    (auto simp: unlink_def Let_def intro!: step_clean_frame lookup_del_apart dest: apart_under)

section \<open>Triples\<close>

text \<open>
  \<open>ensures P m Q E\<close>: from a world in \<open>P\<close>, faults included, \<open>m\<close> returns in \<open>Q\<close> or raises in \<open>E\<close>.
\<close>

definition ensures ::
    "('s \<Rightarrow> bool) \<Rightarrow> ('s, 'a) act \<Rightarrow> ('a \<Rightarrow> 's \<Rightarrow> bool) \<Rightarrow> (exn \<Rightarrow> 's \<Rightarrow> bool) \<Rightarrow> bool" where
  "ensures P m Q E = (\<forall>w. P w \<longrightarrow> (case m w of (Inr x, w') \<Rightarrow> Q x w' | (Inl e, w') \<Rightarrow> E e w'))"

named_theorems triples \<open>rules for triples along the structure of an action\<close>

lemma ensuresI: "(\<And>w. P w \<Longrightarrow> (case m w of (Inr x, w') \<Rightarrow> Q x w' | (Inl e, w') \<Rightarrow> E e w')) \<Longrightarrow> ensures P m Q E"
  by (simp add: ensures_def)

lemma ensures_Inr: "ensures P m Q E \<Longrightarrow> P w \<Longrightarrow> m w = (Inr x, w') \<Longrightarrow> Q x w'"
  by (fastforce simp: ensures_def)

lemma ensures_Inl: "ensures P m Q E \<Longrightarrow> P w \<Longrightarrow> m w = (Inl e, w') \<Longrightarrow> E e w'"
  by (fastforce simp: ensures_def)

lemma ensures_bindI [triples]:
  "ensures P m R E \<Longrightarrow> (\<And>x. ensures (R x) (f x) Q E) \<Longrightarrow> ensures P (bindI m f) Q E"
  unfolding ensures_def bindI_def by (fastforce split: prod.splits sum.splits)

lemma ensures_thenI [triples]:
  "ensures P m (\<lambda>_. R) E \<Longrightarrow> ensures R k Q E \<Longrightarrow> ensures P (thenI m k) Q E"
  unfolding thenI_def by (rule ensures_bindI)

lemma ensures_catchI [triples]:
  "ensures P m Q R \<Longrightarrow> (\<And>e. ensures (R e) (h e) Q E) \<Longrightarrow> ensures P (catchI m h) Q E"
  unfolding ensures_def catchI_def by (fastforce split: prod.splits sum.splits)

lemma ensures_askI [triples]: "(\<And>w. P w \<Longrightarrow> Q (f w) w) \<Longrightarrow> ensures P (askI f) Q E"
  by (simp add: ensures_def askI_def)

lemma ensures_returnI [triples]: "(\<And>w. P w \<Longrightarrow> Q x w) \<Longrightarrow> ensures P (returnI x) Q E"
  by (simp add: ensures_def returnI_def)

lemma ensures_raiseI [triples]: "(\<And>w. P w \<Longrightarrow> E e w) \<Longrightarrow> ensures P (raiseI e) Q E"
  by (simp add: ensures_def raiseI_def)

lemma ensures_if [triples]:
  "(b \<Longrightarrow> ensures P m Q E) \<Longrightarrow> (\<not> b \<Longrightarrow> ensures P k Q E) \<Longrightarrow> ensures P (if b then m else k) Q E"
  by simp

lemma ensures_weaken:
  "ensures P m Q E \<Longrightarrow> (\<And>w. P' w \<Longrightarrow> P w) \<Longrightarrow> (\<And>x w. Q x w \<Longrightarrow> Q' x w) \<Longrightarrow> (\<And>e w. E e w \<Longrightarrow> E' e w)
    \<Longrightarrow> ensures P' m Q' E'"
  unfolding ensures_def by (fastforce split: prod.splits sum.splits)

text \<open>What holds at paths apart from \<open>p\<close> survives an action that stays under \<open>p\<close>.\<close>

definition reads_apart :: "path \<Rightarrow> (world \<Rightarrow> bool) \<Rightarrow> bool" where
  "reads_apart p P = (\<forall>w w'. (\<forall>q. apart p q \<longrightarrow> lookup (w_tree w') q = lookup (w_tree w) q) \<longrightarrow> P w \<longrightarrow> P w')"

lemma reads_apart_at: "apart p q \<Longrightarrow> reads_apart p (\<lambda>w. R (lookup (w_tree w) q))"
  by (simp add: reads_apart_def)

lemma reads_apart_disj: "reads_apart p P \<Longrightarrow> reads_apart p Q \<Longrightarrow> reads_apart p (\<lambda>w. P w \<or> Q w)"
  unfolding reads_apart_def by blast

lemma reads_apart_conj: "reads_apart p P \<Longrightarrow> reads_apart p Q \<Longrightarrow> reads_apart p (\<lambda>w. P w \<and> Q w)"
  unfolding reads_apart_def by blast

lemma ensures_frame: "only_under p m \<Longrightarrow> reads_apart p P \<Longrightarrow> ensures P m (\<lambda>_. P) (\<lambda>_. P)"
proof (rule ensuresI)
  fix w assume o: "only_under p m" and r: "reads_apart p P" and "P w"
  then have "P (snd (m w))" unfolding reads_apart_def using only_underD [OF o, of _ w] by blast
  then show "case m w of (Inr x, w') \<Rightarrow> P w' | (Inl e, w') \<Rightarrow> P w'"
    by (auto split: prod.splits sum.splits)
qed

section \<open>No fault stays no fault\<close>

definition calm :: "'a io \<Rightarrow> bool" where
  "calm m = (\<forall>w. no_fault w \<longrightarrow> no_fault (snd (m w)))"

named_theorems calm_intros \<open>actions that add no fault\<close>

lemma calmI: "(\<And>w. no_fault w \<Longrightarrow> no_fault (snd (m w))) \<Longrightarrow> calm m"
  by (simp add: calm_def)

lemma calmD: "calm m \<Longrightarrow> no_fault w \<Longrightarrow> m w = (r, w') \<Longrightarrow> no_fault w'"
  by (metis calm_def snd_conv)

lemma calm_pure [calm_intros]: "calm (returnI x)" "calm (raiseI e)" "calm (liftI r)" "calm (askI f)"
  "calm (read_data q)" "calm (read_json q)"
  by (simp_all add: calm_def io_defs read_data_keeps read_json_keeps)

lemma calm_bindI [calm_intros]: "calm m \<Longrightarrow> (\<And>x. calm (f x)) \<Longrightarrow> calm (bindI m f)"
  unfolding calm_def bindI_def by (auto split: prod.splits sum.splits) (metis snd_conv)+

lemma calm_thenI [calm_intros]: "calm m \<Longrightarrow> calm k \<Longrightarrow> calm (thenI m k)"
  unfolding thenI_def by (rule calm_bindI)

lemma calm_catchI [calm_intros]: "calm m \<Longrightarrow> (\<And>e. calm (h e)) \<Longrightarrow> calm (catchI m h)"
  unfolding calm_def catchI_def by (auto split: prod.splits sum.splits) (metis snd_conv)+

lemma calm_if [calm_intros]: "calm m \<Longrightarrow> calm k \<Longrightarrow> calm (if b then m else k)"
  by simp

lemma calm_step: "no_fault w \<Longrightarrow> no_fault (snd (step_at p f w))" "no_fault w \<Longrightarrow> no_fault (snd (step_clean f w))"
  by (simp_all add: step_at_no_fault step_clean_no_fault)

lemma calm_mkdirs [calm_intros]: "calm (mkdirs q)"
  by (rule calmI) (simp add: mkdirs_def Let_def calm_step)

lemma calm_write_data [calm_intros]: "calm (write_data q d)"
  by (rule calmI) (simp add: write_data_def Let_def calm_step)

lemma calm_copytree [calm_intros]: "calm (copytree s q)"
  by (rule calmI) (simp add: copytree_def Let_def calm_step split: option.split node.split)

lemma calm_copy_file [calm_intros]: "calm (copy_file s q)"
  using calm_write_data by (intro calmI) (simp add: copy_file_def calm_def split: option.split node.split)

lemma calm_rmtree [calm_intros]: "calm (rmtree q)"
  by (rule calmI) (simp add: rmtree_def Let_def calm_step)

lemma calm_unlink [calm_intros]: "calm (unlink q)"
  by (rule calmI) (simp add: unlink_def Let_def calm_step)

lemma calm_replace_path [calm_intros]: "calm (replace_path p q)"
  by (rule calmI) (auto simp: replace_path_def Let_def calm_step split: option.split node.split list.split)

section \<open>What an action leaves as it is\<close>

definition keeps :: "('s \<Rightarrow> 'v) \<Rightarrow> ('s, 'a) act \<Rightarrow> bool" where
  "keeps g m = (\<forall>w. g (snd (m w)) = g w)"

named_theorems keeps_intros \<open>what an action leaves as it is, along its structure\<close>

lemma keepsI: "(\<And>w. g (snd (m w)) = g w) \<Longrightarrow> keeps g m"
  by (simp add: keeps_def)

lemma keepsD: "keeps g m \<Longrightarrow> m w = (r, w') \<Longrightarrow> g w' = g w"
  by (metis keeps_def snd_conv)

lemma keeps_pure [keeps_intros]: "keeps g (returnI x)" "keeps g (raiseI e)" "keeps g (liftI r)" "keeps g (askI f)"
  by (simp_all add: keeps_def io_defs)

lemma keeps_reading [keeps_intros]: "keeps g (read_data q)" "keeps g (read_json q)"
  by (simp_all add: keeps_def read_data_keeps read_json_keeps)

lemma keeps_catchI [keeps_intros]: "keeps g m \<Longrightarrow> (\<And>e. keeps g (h e)) \<Longrightarrow> keeps g (catchI m h)"
  unfolding keeps_def catchI_def by (auto split: prod.splits sum.splits) (metis snd_conv)+

lemma keeps_ask: "(\<And>w. keeps g (f (a w))) \<Longrightarrow> keeps g (bindI (askI a) f)"
  by (simp add: keeps_def bindI_def askI_def)

lemma keeps_bindI [keeps_intros]: "keeps g m \<Longrightarrow> (\<And>x. keeps g (f x)) \<Longrightarrow> keeps g (bindI m f)"
  unfolding keeps_def bindI_def by (auto split: prod.splits sum.splits) (metis snd_conv)+

lemma keeps_thenI [keeps_intros]: "keeps g m \<Longrightarrow> keeps g k \<Longrightarrow> keeps g (thenI m k)"
  unfolding thenI_def by (rule keeps_bindI)

lemma keeps_if [keeps_intros]: "(b \<Longrightarrow> keeps g m) \<Longrightarrow> (\<not> b \<Longrightarrow> keeps g k) \<Longrightarrow> keeps g (if b then m else k)"
  by simp

lemma keeps_bind_lift: "(\<And>x. r = Inr x \<Longrightarrow> keeps g (f x)) \<Longrightarrow> keeps g (bindI (liftI r) f)"
  by (cases r) (auto simp: keeps_def bindI_def liftI_def)

lemma keeps_foldI [keeps_intros]: "(\<And>x s. x \<in> set xs \<Longrightarrow> keeps g (f x s)) \<Longrightarrow> keeps g (foldI f xs s)"
  by (induction xs arbitrary: s) (auto intro!: keeps_intros)

section \<open>Computing without a fault\<close>

lemma mkdirs_ok:
  assumes "no_fault w" "clean q" "parent_ok (w_tree w) q" "\<not> is_file w q"
  shows "mkdirs q w = (Inr (), if is_dir w q then w else w\<lparr>w_tree := put (w_tree w) q (NDir [])\<rparr>)"
  using assms by (simp add: mkdirs_def step_clean_no_fault)

lemma write_data_ok:
  assumes "no_fault w" "clean q" "q \<noteq> []" "\<not> is_dir w q" "dir_at (w_tree w) (butlast q)"
  shows "write_data q d w = (Inr (), w\<lparr>w_tree := put (w_tree w) q (NFile d)\<rparr>)"
  using assms by (simp add: write_data_def Let_def step_at_no_fault)

lemma rmtree_ok:
  assumes "no_fault w" "clean q" "q \<noteq> []" "is_dir w q"
  shows "rmtree q w = (Inr (), w\<lparr>w_tree := del (w_tree w) q\<rparr>)"
  using assms by (simp add: rmtree_def Let_def step_at_no_fault)

lemma copytree_ok:
  assumes "no_fault w" "clean d" "clean s" "at w s = Some (NDir es)" "\<not> exists w d" "parent_ok (w_tree w) d"
  shows "copytree s d w = (Inr (), w\<lparr>w_tree := put (w_tree w) d (NDir es)\<rparr>)"
  using assms by (simp add: copytree_def step_at_no_fault)

section \<open>Paths as text\<close>

definition plain_path :: "path \<Rightarrow> bool" where
  "plain_path p = list_all (\<lambda>c. c \<noteq> [] \<and> c \<noteq> ''.'' \<and> CHR 0x2F \<notin> set c) p"

lemma split_on_id: "c \<notin> set s \<Longrightarrow> split_on c s = [s]"
  by (induction s) auto

lemma split_on_append_sep: "c \<notin> set x \<Longrightarrow> split_on c (x @ c # s) = x # split_on c s"
  by (induction x) auto

lemma split_on_join: "p \<noteq> [] \<Longrightarrow> \<forall>x \<in> set p. CHR 0x2F \<notin> set x \<Longrightarrow> split_on CHR 0x2F (join_str ''/'' p) = p"
  by (induction "''/''" p rule: join_str.induct) (auto simp: split_on_id split_on_append_sep)

lemma path_of_path_str:
  assumes "plain_path p" shows "path_of (path_str p) = p"
proof (cases "p = []")
  case True
  then show ?thesis by (simp add: path_of_def path_str_def)
next
  case False
  have "filter (\<lambda>c. c \<noteq> [] \<and> c \<noteq> ''.'') p = p"
    using assms by (auto simp: plain_path_def list_all_iff intro: filter_True)
  then show ?thesis using assms False split_on_join [of p]
    by (auto simp: path_of_def path_str_def plain_path_def list_all_iff)
qed

lemma plain_path_of: "plain_path (path_of s)"
  using split_on_no_sep by (auto simp: path_of_def plain_path_def list_all_iff)

lemma path_of_name: "CHR 0x2F \<notin> set s \<Longrightarrow> s \<noteq> [] \<Longrightarrow> s \<noteq> ''.'' \<Longrightarrow> path_of s = [s]"
  by (simp add: path_of_def split_on_id)

end
