(* ===== verification/Stage.thy ===== *)
theory Stage
  imports Scanner Frame
begin

text \<open>
  \<open>stage.py\<close>: unpacking a snapshot's archives below a staging root, and the checks that make a
  staged skill trustworthy: safe member names, one hash and size per file, one content hash for
  the whole. An archive comes from the central library, so its member names are not trusted.
\<close>

section \<open>Names\<close>

definition sanitize_component :: "string \<Rightarrow> string" where
  "sanitize_component value =
     (let keep = map (\<lambda>c. if is_alnum c \<or> c \<in> set ''-_.'' then c else CHR 0x2D) value;
          cleaned = strip_set ''-._'' keep
      in if cleaned = [] then ''unnamed'' else cleaned)"

definition validate_archive_member :: "string \<Rightarrow> unit res" where
  "validate_archive_member member =
     raise_if (starts_with member ''/'' \<or> ''..'' \<in> set (path_of member))
       (Exn StageError (''unsafe archive member path: '' @ member))"

section \<open>The checks on staged files\<close>

text \<open>One entry of the manifest: the file found must have the entry's size (when given) and hash.\<close>

definition staged_file :: "host \<Rightarrow> world \<Rightarrow> path \<Rightarrow> pyval \<Rightarrow> skill_file res" where
  "staged_file H w target_dir file_data =
     bindR (as_dict file_data) (\<lambda>fd.
       let rel = dget fd ''path''; expected_sha = dget fd ''sha256''; expected_size = dget fd ''size'' in
       if \<not> truthy rel \<or> \<not> truthy expected_sha
       then Inl (Exn StageError ''manifest file entry missing path or sha256'')
       else bindR (validate_archive_member (py_str rel)) (\<lambda>_.
         let p = path_div target_dir (py_str rel) in
         if \<not> exists w p then Inl (Exn StageError (''staged file missing: '' @ py_str rel))
         else bindR (fst (read_data p w)) (\<lambda>d.
           bindR (if expected_size = PNone then Inr (h_size H d) else py_int expected_size) (\<lambda>size.
             if h_size H d \<noteq> size
             then Inl (Exn StageError (''size mismatch for '' @ py_str rel @ '': expected='' @ py_str expected_size
                    @ '' actual='' @ int_str (h_size H d)))
             else if PStr (h_sha H d) \<noteq> expected_sha
             then Inl (Exn StageError (''sha256 mismatch for '' @ py_str rel))
             else Inr \<lparr>sf_path = py_str rel, sf_size = h_size H d, sf_sha256 = h_sha H d\<rparr>))))"

definition validate_staged_files :: "host \<Rightarrow> world \<Rightarrow> path \<Rightarrow> pydict \<Rightarrow> unit res" where
  "validate_staged_files H w target_dir manifest =
     bindR (py_iter (por (dget manifest ''files'') (PList []))) (\<lambda>entries.
     bindR (mapR (staged_file H w target_dir) entries) (\<lambda>files.
       let actual_hash = hash_skill_files H (sort_files files); expected_hash = dget manifest ''content_hash'' in
       raise_if (truthy expected_hash \<and> PStr actual_hash \<noteq> expected_hash)
         (Exn StageError (''staged content hash mismatch: expected='' @ py_str expected_hash
            @ '' actual='' @ actual_hash))))"

section \<open>Staging one skill\<close>

record staged_skill =
  st_key :: string
  st_skill_id :: string
  st_source :: string
  st_scope :: string
  st_targets :: "string list"
  st_content_hash :: string
  st_output_path :: path
  st_file_count :: int

definition staged_dict :: "staged_skill \<Rightarrow> pydict" where
  "staged_dict s = [(''key'', PStr (st_key s)), (''skill_id'', PStr (st_skill_id s)),
     (''source'', PStr (st_source s)), (''scope'', PStr (st_scope s)), (''targets'', strs (st_targets s)),
     (''content_hash'', PStr (st_content_hash s)), (''output_path'', PStr (path_str (st_output_path s))),
     (''file_count'', PInt (st_file_count s))]"

definition read_archive :: "path \<Rightarrow> (string \<times> fdata) list io" where
  "read_archive p w = (zip_members w p, w)"

definition extract_member :: "path \<Rightarrow> (string \<times> fdata) list \<Rightarrow> string \<Rightarrow> unit \<Rightarrow> unit io" where
  "extract_member target_dir members member u =
     (if member = manifest_name \<or> ends_with member ''/'' then returnI ()
      else bindI (liftI (validate_archive_member member)) (\<lambda>_.
        let destination = path_div target_dir member in
        thenI (mkdirs (path_parent destination))
          (bindI (liftI (zip_read members member)) (write_data destination))))"

definition staged_record :: "pydict \<Rightarrow> pydict \<Rightarrow> string \<Rightarrow> string \<Rightarrow> path \<Rightarrow> staged_skill res" where
  "staged_record skill manifest source skill_id target_dir =
     bindR (py_iter (por (por (dget skill ''targets'') (dget manifest ''targets'')) (PList []))) (\<lambda>targets.
     bindR (py_len (por (dget manifest ''files'') (PList []))) (\<lambda>n.
     bindR (py_int (por (dget skill ''file_count'') (PInt n))) (\<lambda>count.
       Inr \<lparr>st_key = py_str (por (dget skill ''key'')
              (PStr (py_str (dget skill ''source'') @ ''/'' @ py_str (dget skill ''skill_id'')))),
            st_skill_id = py_str (por (dget skill ''skill_id'') (PStr skill_id)),
            st_source = py_str (por (dget skill ''source'') (PStr source)),
            st_scope = py_str (por (por (dget skill ''scope'') (dget manifest ''scope'')) (PStr ''global'')),
            st_targets = map py_str targets,
            st_content_hash = py_str (por (dget skill ''content_hash'') (PStr [])),
            st_output_path = target_dir, st_file_count = count\<rparr>)))"

text \<open>Where a skill of the index is staged: two sanitised components below the root.\<close>

definition stage_target :: "path \<Rightarrow> pydict \<Rightarrow> path" where
  "stage_target stage_root skill =
     stage_root @ [sanitize_component (py_str (por (dget skill ''source'') (PStr ''unknown-source''))),
       sanitize_component (py_str (por (dget skill ''skill_id'') (PStr ''unknown-skill'')))]"

definition unpack_skill :: "path \<Rightarrow> pydict \<Rightarrow> string \<Rightarrow> path \<Rightarrow> pydict io" where
  "unpack_skill archive_path skill archive_rel target_dir =
     bindI (read_archive archive_path) (\<lambda>members.
       let names = map fst members in
       if manifest_name \<notin> set names
       then raiseI (Exn StageError (''archive has no '' @ manifest_name @ '': '' @ archive_rel))
       else bindI (liftI (bindR (zip_read members manifest_name) json_loads)) (\<lambda>loaded.
         bindI (liftI (as_dict loaded)) (\<lambda>manifest.
           if dget skill ''content_hash'' \<noteq> dget manifest ''content_hash''
           then raiseI (Exn StageError (''content hash mismatch for '' @ py_str (dget skill ''key'') @ '': index=''
                  @ py_str (dget skill ''content_hash'') @ '' manifest='' @ py_str (dget manifest ''content_hash'')))
           else thenI (foldI (extract_member target_dir members) names ()) (returnI manifest))))"

definition stage_skill :: "host \<Rightarrow> path \<Rightarrow> path \<Rightarrow> pyval \<Rightarrow> staged_skill io" where
  "stage_skill H snapshot_dir stage_root skill_value =
     bindI (liftI (as_dict skill_value)) (\<lambda>skill.
     let archive = dget skill ''archive''; archive_rel = py_str archive;
         archive_path = path_div snapshot_dir archive_rel; target_dir = stage_target stage_root skill in
     if \<not> truthy archive
     then raiseI (Exn StageError (''skill has no archive field: '' @ py_str (dget skill ''key'')))
     else bindI (askI (\<lambda>w. exists w archive_path)) (\<lambda>present.
       if \<not> present then raiseI (Exn StageError (''archive missing: '' @ archive_rel))
       else bindI (askI (\<lambda>w. exists w target_dir)) (\<lambda>stale.
         thenI (if stale then rmtree target_dir else returnI ())
           (thenI (mkdirs target_dir)
             (bindI (unpack_skill archive_path skill archive_rel target_dir) (\<lambda>manifest.
               bindI (bindI (askI (\<lambda>w. validate_staged_files H w target_dir manifest)) liftI) (\<lambda>_.
                 liftI (staged_record skill manifest (last (butlast target_dir)) (last target_dir) target_dir))))))))"

text \<open>Staging a whole snapshot: the index decides where, every skill is staged, the stage index is written last.\<close>

definition stage_index_dict :: "pydict \<Rightarrow> string \<Rightarrow> path \<Rightarrow> staged_skill list \<Rightarrow> pydict" where
  "stage_index_dict index snapshot_id snapshot_dir staged =
     [(''protocol_version'', dget_or index ''protocol_version'' (PInt 0)),
      (''snapshot_id'', PStr snapshot_id),
      (''source_snapshot'', PStr (path_str (norm_path snapshot_dir))),
      (''total'', PInt (int (length staged))),
      (''skills'', PList (map (PDict \<circ> staged_dict) staged))]"

definition stage_snapshot :: "host \<Rightarrow> path \<Rightarrow> path \<Rightarrow> bool \<Rightarrow> pydict io" where
  "stage_snapshot H snapshot_dir output_dir clean_first =
     bindI (askI (\<lambda>w. exists w (snapshot_dir @ [''index.json'']))) (\<lambda>present.
       if \<not> present then raiseI (Exn StageError (''snapshot has no index.json: '' @ path_str snapshot_dir))
       else bindI (read_json (snapshot_dir @ [''index.json''])) (\<lambda>loaded.
         bindI (liftI (as_dict loaded)) (\<lambda>index.
           let snapshot_id = py_str (por (dget index ''snapshot_id'') (PStr ''unknown-snapshot''));
               stage_root = output_dir @ [sanitize_component snapshot_id] in
           bindI (askI (\<lambda>w. exists w stage_root)) (\<lambda>stale.
             thenI (if clean_first \<and> stale then rmtree stage_root else returnI ())
               (thenI (mkdirs stage_root)
                 (bindI (liftI (py_iter (dget_or index ''skills'' (PList [])))) (\<lambda>skills.
                   bindI (mapI (stage_skill H snapshot_dir stage_root) skills) (\<lambda>staged.
                     let stage_index = stage_index_dict index snapshot_id snapshot_dir staged in
                     thenI (write_data (stage_root @ [''.stage-index.json'']) (Json (PDict stage_index)))
                       (returnI stage_index)))))))))"

section \<open>Sanitised names are single components\<close>

lemma sanitize_component_facts:
  "sanitize_component v \<noteq> []"
  "c \<in> set (sanitize_component v) \<Longrightarrow> is_alnum c \<or> c \<in> set ''-_.''"
  "hd (sanitize_component v) \<notin> set ''-._''" "last (sanitize_component v) \<notin> set ''-._''"
proof -
  let ?m = "map (\<lambda>c. if is_alnum c \<or> c \<in> set ''-_.'' then c else CHR 0x2D) v"
  show "sanitize_component v \<noteq> []" by (simp add: sanitize_component_def Let_def)
  have u: "d \<in> set ''unnamed'' \<Longrightarrow> is_alnum d" for d
    by (auto simp: is_alnum_def is_lower_alpha_def)
  have m: "d \<in> set ?m \<Longrightarrow> is_alnum d \<or> d \<in> set ''-_.''" for d by auto
  show "is_alnum c \<or> c \<in> set ''-_.''" if c: "c \<in> set (sanitize_component v)"
  proof (cases "strip_set ''-._'' ?m = []")
    case True
    with c u show ?thesis by (simp add: sanitize_component_def Let_def)
  next
    case False
    with c have "c \<in> set (strip_set ''-._'' ?m)" by (simp add: sanitize_component_def Let_def)
    then have "c \<in> set ?m" using set_strip_set by blast
    then show ?thesis by (rule m)
  qed
  show "hd (sanitize_component v) \<notin> set ''-._''" "last (sanitize_component v) \<notin> set ''-._''"
    using strip_set_ends [of "''-._''" ?m] by (auto simp: sanitize_component_def Let_def)
qed

lemma sanitize_component_plain:
  "CHR 0x2F \<notin> set (sanitize_component v)" "sanitize_component v \<noteq> ''.''" "sanitize_component v \<noteq> ''..''"
proof -
  show "CHR 0x2F \<notin> set (sanitize_component v)"
    using sanitize_component_facts(2) [of "CHR 0x2F" v] by (auto simp: is_alnum_def is_lower_alpha_def is_digit_def)
  show "sanitize_component v \<noteq> ''.''" "sanitize_component v \<noteq> ''..''"
    using sanitize_component_facts(3) [of v] by auto
qed

text \<open>a sanitised name is one safe path component: splitting it as a path gives just itself, it is
  neither empty nor the parent directory, and sanitising it again changes nothing.\<close>

theorem sanitize_component_safe:
  "path_of (sanitize_component v) = [sanitize_component v]
   \<and> sanitize_component v \<noteq> ''..''
   \<and> sanitize_component (sanitize_component v) = sanitize_component v"
proof -
  let ?s = "sanitize_component v"
  have "map (\<lambda>c. if is_alnum c \<or> c \<in> set ''-_.'' then c else CHR 0x2D) ?s = ?s"
    using sanitize_component_facts(2) [of _ v] by (intro map_idI) auto
  moreover have "strip_set ''-._'' ?s = ?s"
    using sanitize_component_facts(1,3,4) [of v] by (intro strip_set_id)
  ultimately have "sanitize_component ?s = ?s"
    using sanitize_component_facts(1) [of v] by (subst sanitize_component_def) (simp add: Let_def)
  then show ?thesis
    using sanitize_component_plain [of v] sanitize_component_facts(1) [of v] by (simp add: path_of_name)
qed

section \<open>Staging stays below its target\<close>

lemma stage_target_clean: "clean r \<Longrightarrow> clean (stage_target r skill)"
  by (simp add: stage_target_def sanitize_component_plain)

lemma validated_member:
  assumes "validate_archive_member m = Inr u" "clean t"
  shows "path_div t m = t @ path_of m" "clean (path_div t m)"
  using assms by (auto simp: validate_archive_member_def path_div_def clean_def)

lemma extract_member_frame:
  assumes t: "clean t"
  shows "only_under t (extract_member t members m u)"
proof -
  have *: "\<not> apart t (norm_path (path_parent (path_div t m)))" "prefix t (norm_path (path_div t m))"
    if v: "validate_archive_member m = Inr u" for u
  proof -
    note c = validated_member [OF v t]
    then have "clean (path_parent (path_div t m))" by (simp add: path_parent_def clean_butlast)
    then show "\<not> apart t (norm_path (path_parent (path_div t m)))"
      using c by (auto simp: path_parent_def butlast_append apart_def prefixeq_butlast)
    show "prefix t (norm_path (path_div t m))" using c by simp
  qed
  show ?thesis unfolding extract_member_def Let_def
    by (intro frame_intros only_under_bind_lift *)
qed

lemma unpack_skill_frame: "clean t \<Longrightarrow> only_under t (unpack_skill a skill rel t)"
proof -
  assume t: "clean t"
  have r: "only_under t (read_archive a)" by (simp add: only_under_def read_archive_def)
  show ?thesis unfolding unpack_skill_def Let_def
    by (intro frame_intros r extract_member_frame t)
qed

lemma only_under_ask_lift: "only_under p (bindI (askI f) liftI)"
  by (intro frame_intros)

lemma stage_skill_frame:
  assumes "clean stage_root"
  shows "only_under (stage_target stage_root skill) (stage_skill H snapshot_dir stage_root (PDict skill))"
proof -
  let ?t = "stage_target stage_root skill"
  have c: "clean ?t" using assms by (rule stage_target_clean)
  have "\<not> apart ?t (norm_path ?t)" "prefix ?t (norm_path ?t)" using c by (simp_all add: apart_def)
  then show ?thesis
    unfolding stage_skill_def Let_def as_dict_PDict
    by (intro only_under_bind_lift) (auto intro!: frame_intros unpack_skill_frame c)
qed

lemma stage_skill_under_root:
  assumes "clean stage_root" shows "only_under stage_root (stage_skill H snapshot_dir stage_root v)"
proof (cases v)
  case (PDict skill)
  have "prefix stage_root (stage_target stage_root skill)" by (simp add: stage_target_def)
  with stage_skill_frame [OF assms] show ?thesis unfolding PDict by (rule only_under_mono)
qed (simp_all add: only_under_def stage_skill_def as_dict_def bindI_def liftI_def)

lemma stage_snapshot_frame:
  assumes "clean output_dir" shows "only_under output_dir (stage_snapshot H snapshot_dir output_dir clean_first)"
proof -
  have c: "clean (output_dir @ [sanitize_component s])" for s using assms by (simp add: sanitize_component_plain)
  have m: "only_under output_dir (mapI (stage_skill H snapshot_dir (output_dir @ [sanitize_component s])) vs)" for s vs
    by (rule only_under_mono [OF only_under_mapI [OF stage_skill_under_root [OF c]]]) simp
  show ?thesis unfolding stage_snapshot_def Let_def
    by (intro frame_intros m) (use c in \<open>simp_all add: apart_def\<close>)
qed

text \<open>C6: unpacking never escapes (no archive member, whatever its name, is written outside): when
  a skill is staged, whether that succeeds, is refused or is cut short by a failing write, nothing
  changes at any path apart from the skill's own target directory below the staging root.\<close>

theorem stage_skill_stays_below_target:
  assumes "clean stage_root" and "apart (stage_target stage_root skill) q"
  shows "lookup (w_tree (snd (stage_skill H snapshot_dir stage_root (PDict skill) w))) q = lookup (w_tree w) q"
  using only_underD [OF stage_skill_frame [OF assms(1)] assms(2)] .

section \<open>What a staged skill is worth\<close>

text \<open>\<open>checked_file H w t e f\<close>: the manifest entry \<open>e\<close> is met by the file \<open>f\<close> found below \<open>t\<close>.\<close>

definition checked_file :: "host \<Rightarrow> world \<Rightarrow> path \<Rightarrow> pyval \<Rightarrow> skill_file \<Rightarrow> bool" where
  "checked_file H w t e f = (case (e, at w (t @ path_of (sf_path f))) of
      (PDict d, Some (NFile data)) \<Rightarrow> py_str (dget d ''path'') = sf_path f \<and> ''..'' \<notin> set (path_of (sf_path f))
        \<and> dget d ''sha256'' = PStr (sf_sha256 f) \<and> h_sha H data = sf_sha256 f \<and> h_size H data = sf_size f
        \<and> (dget d ''size'' = PNone \<or> py_int (dget d ''size'') = Inr (sf_size f))
    | _ \<Rightarrow> False)"

lemma read_data_Inr: "fst (read_data p w) = Inr d \<Longrightarrow> at w p = Some (NFile d)"
  by (auto simp: read_data_def split: option.splits node.splits)

lemma staged_file_checked:
  assumes "staged_file H w t e = Inr f"
  shows "checked_file H w t e f"
proof -
  from assms obtain d where d: "e = PDict d" by (auto simp: staged_file_def)
  let ?rel = "py_str (dget d ''path'')"
  from assms d obtain u data size where
    v: "validate_archive_member ?rel = Inr u" and
    r: "fst (read_data (path_div t ?rel) w) = Inr data" and
    s: "(if dget d ''size'' = PNone then Inr (h_size H data) else py_int (dget d ''size'')) = Inr size" and
    eq: "h_size H data = size" "PStr (h_sha H data) = dget d ''sha256''" and
    f: "f = \<lparr>sf_path = ?rel, sf_size = h_size H data, sf_sha256 = h_sha H data\<rparr>"
    by (fastforce simp: staged_file_def Let_def split: if_splits)
  from v have "path_div t ?rel = t @ path_of ?rel" "''..'' \<notin> set (path_of ?rel)"
    by (auto simp: validate_archive_member_def path_div_def)
  with read_data_Inr [OF r] s eq f d show ?thesis
    by (auto simp: checked_file_def split: if_splits)
qed

lemma staged_record_output: "staged_record skill m a b t = Inr s \<Longrightarrow> st_output_path s = t"
  by (auto simp: staged_record_def)

lemma unpack_skill_Inr:
  assumes "unpack_skill a skill rel t w = (Inr m, w')"
  shows "dget m ''content_hash'' = dget skill ''content_hash''"
    "\<exists>members. zip_members w a = Inr members \<and> zip_read members manifest_name = Inr (Json (PDict m))"
  using assms by (auto simp: unpack_skill_def Let_def io_Inr read_archive_def json_loads_def as_dict_def split: if_splits fdata.splits pyval.splits)

lemma zip_members_cong: "lookup (w_tree w') (norm_path p) = lookup (w_tree w) (norm_path p) \<Longrightarrow> zip_members w' p = zip_members w p"
  by (simp add: zip_members_def read_data_def at_def split: option.split node.split)

text \<open>C7: the files of a skill that staging accepts are the ones its manifest lists. The manifest is the one in the
  entry's archive in the snapshot and carries the content hash of the index; each file it lists is there below the
  target with the listed hash and size; and when there is a content hash, it is the hash computed over exactly those
  files. An entry without a content hash is not refused: then only the files' own hashes are checked, as in the code.\<close>

theorem stage_skill_accepts_only_what_is_hashed:
  assumes "stage_skill H snapshot_dir stage_root (PDict skill) w = (Inr s, w')" "clean stage_root"
    and "apart (stage_target stage_root skill) (norm_path (path_div snapshot_dir (py_str (dget skill ''archive''))))"
  shows "\<exists>members manifest entries files.
      zip_members w (path_div snapshot_dir (py_str (dget skill ''archive''))) = Inr members
    \<and> zip_read members manifest_name = Inr (Json (PDict manifest))
    \<and> dget manifest ''content_hash'' = dget skill ''content_hash''
    \<and> py_iter (por (dget manifest ''files'') (PList [])) = Inr entries
    \<and> list_all2 (checked_file H w' (stage_target stage_root skill)) entries files
    \<and> (truthy (dget skill ''content_hash'') \<longrightarrow>
        dget skill ''content_hash'' = PStr (hash_skill_files H (sort_files files)))
    \<and> st_output_path s = stage_target stage_root skill"
proof -
  let ?t = "stage_target stage_root skill" and ?a = "path_div snapshot_dir (py_str (dget skill ''archive''))"
  from assms(1) obtain m rel u0 wa w1 where m: "(if exists w ?t then rmtree ?t else returnI ()) w = (Inr u0, wa)" "mkdirs ?t wa = (Inr (), w1)"
    and u: "unpack_skill ?a skill rel ?t w1 = (Inr m, w')"
    and v: "\<exists>u. validate_staged_files H w' ?t m = Inr u"
    and r: "staged_record skill m (last (butlast ?t)) (last ?t) ?t = Inr s"
    by (auto simp: stage_skill_def Let_def bindI_eq_Inr thenI_eq_Inr raiseI_def liftI_def askI_def split: if_splits)
  have c: "clean ?t" using stage_target_clean [OF assms(2)] .
  have "only_under ?t (if exists w ?t then rmtree ?t else returnI ())" by (intro frame_intros) (simp add: c)
  from only_underD [OF this assms(3), of w] m(1) have "lookup (w_tree wa) (norm_path ?a) = lookup (w_tree w) (norm_path ?a)" by simp
  moreover have "only_under ?t (mkdirs ?t)" by (rule only_under_mkdirs) (simp add: c apart_def)
  note only_underD [OF this assms(3), of wa]
  ultimately have z: "zip_members w1 ?a = zip_members w ?a" using m(2) by (intro zip_members_cong) simp
  from v obtain entries files where f: "py_iter (por (dget m ''files'') (PList [])) = Inr entries"
    "mapR (staged_file H w' ?t) entries = Inr files"
    "truthy (dget m ''content_hash'') \<longrightarrow> PStr (hash_skill_files H (sort_files files)) = dget m ''content_hash''"
    by (auto simp: validate_staged_files_def Let_def)
  have "list_all2 (checked_file H w' ?t) entries files"
    using f(2) by (auto simp: mapR_Inr_iff intro: staged_file_checked list_all2_mono)
  moreover obtain members where "zip_members w ?a = Inr members" "zip_read members manifest_name = Inr (Json (PDict m))"
    using unpack_skill_Inr(2) [OF u] z by auto
  ultimately show ?thesis using unpack_skill_Inr(1) [OF u] f staged_record_output [OF r]
    by (intro exI [of _ members] exI [of _ m] exI [of _ entries] exI [of _ files]) auto
qed

text \<open>A snapshot with one skill whose archive has one listed file and one member the manifest does
  not list.\<close>

definition demo_content_hash :: string where
  "demo_content_hash = hash_skill_files raw_host [\<lparr>sf_path = ''SKILL.md'', sf_size = 1, sf_sha256 = ''x''\<rparr>]"

definition demo_entry_in_index :: pydict where
  "demo_entry_in_index = [(''source'', PStr ''local''), (''skill_id'', PStr ''demo''), (''archive'', PStr ''a.zip''),
     (''content_hash'', PStr demo_content_hash)]"

definition demo_snapshot :: node where
  "demo_snapshot = NDir [(''a.zip'', NFile (Archive
       [(manifest_name, Json (PDict [(''content_hash'', PStr demo_content_hash),
           (''files'', PList [PDict [(''path'', PStr ''SKILL.md''), (''sha256'', PStr ''x'')]])])),
        (''SKILL.md'', Raw ''x''), (''bin/tool'', Raw ''y'')])),
      (''index.json'', NFile (Json (PDict [(''snapshot_id'', PStr ''s1''),
         (''skills'', PList [PDict demo_entry_in_index])])))]"

definition demo_stage_world :: world where
  "demo_stage_world = \<lparr>w_tree = NDir [(''c'', demo_snapshot), (''home'', NFile (Raw ''h''))], w_fault = None\<rparr>"

theorem stage_skill_accepts_only_what_is_hashed_witness:
  "\<exists>s w'. stage_skill raw_host [''c''] [''t''] (PDict demo_entry_in_index) demo_stage_world = (Inr s, w')
     \<and> at w' [''t'', ''local'', ''demo'', ''SKILL.md''] = Some (NFile (Raw ''x''))
     \<and> at w' [''t'', ''local'', ''demo'', ''bin'', ''tool''] = Some (NFile (Raw ''y''))
     \<and> st_output_path s = stage_target [''t''] demo_entry_in_index"
proof -
  have "case stage_skill raw_host [''c''] [''t''] (PDict demo_entry_in_index) demo_stage_world of (r, w') \<Rightarrow>
     (case r of Inl e \<Rightarrow> False | Inr s \<Rightarrow> True)
     \<and> at w' [''t'', ''local'', ''demo'', ''SKILL.md''] = Some (NFile (Raw ''x''))
     \<and> at w' [''t'', ''local'', ''demo'', ''bin'', ''tool''] = Some (NFile (Raw ''y''))"
    by code_simp
  then obtain s w' where s: "stage_skill raw_host [''c''] [''t''] (PDict demo_entry_in_index) demo_stage_world = (Inr s, w')"
      "at w' [''t'', ''local'', ''demo'', ''SKILL.md''] = Some (NFile (Raw ''x''))"
      "at w' [''t'', ''local'', ''demo'', ''bin'', ''tool''] = Some (NFile (Raw ''y''))"
    by (auto split: prod.splits sum.splits)
  have c: "clean [''t'']" "apart (stage_target [''t''] demo_entry_in_index) (norm_path (path_div [''c''] (py_str (dget demo_entry_in_index ''archive''))))"
    by code_simp+
  from stage_skill_accepts_only_what_is_hashed [OF s(1) c] have "st_output_path s = stage_target [''t''] demo_entry_in_index"
    by blast
  with s show ?thesis by blast
qed

theorem stage_skill_stays_below_target_witness:
  "lookup (w_tree (snd (stage_skill raw_host [''c''] [''t''] (PDict demo_entry_in_index) demo_stage_world))) [''home'']
     = Some (NFile (Raw ''h''))"
proof -
  have "apart (stage_target [''t''] demo_entry_in_index) [''home'']"
    by (simp add: stage_target_def apart_def)
  from stage_skill_stays_below_target [OF _ this, of raw_host "[''c'']" demo_stage_world] show ?thesis
    by (simp add: demo_stage_world_def)
qed

end
