(* ===== verification/Apply.thy ===== *)
theory Apply
  imports Stage
begin

text \<open>
  \<open>apply.py\<close> and the deletion of \<open>protect.py\<close>: which staged skills may be installed into which
  root, the installation of one item (copy beside the target, back up, swap), the record of a run,
  and its rollback. A tree without symbolic links has no target that links into the canonical
  library, so that exception of the plan does not arise here.
\<close>

section \<open>Targets\<close>

record tool_target =
  tt_default_root :: path
  tt_scopes :: "string list"
  tt_aliases :: "string list"
  tt_scope_skip :: string

definition tool_at :: "path \<Rightarrow> path \<Rightarrow> string list \<Rightarrow> string \<Rightarrow> tool_target" where
  "tool_at home sub aliases scope_skip =
     \<lparr>tt_default_root = home @ sub, tt_scopes = [''global''], tt_aliases = aliases, tt_scope_skip = scope_skip\<rparr>"

definition global_tool_targets :: "path \<Rightarrow> (string \<times> tool_target) list" where
  "global_tool_targets home =
     [(''cc-switch-global'', tool_at home [''.cc-switch'', ''skills''] [''cc-switch'']
         ''project-scoped skills are not installed into global roots''),
      (''skillshub-global'', tool_at home [''.skillshub''] [''skillshub'']
         ''project-scoped skills are not installed into skillshub global root''),
      (''codex-global'', tool_at home [''.codex'', ''skills''] [''codex'']
         ''project-scoped skills are not installed into Codex global root''),
      (''cursor-global'', tool_at home [''.cursor'', ''skills''] [''cursor'']
         ''project-scoped skills are not installed into Cursor global root''),
      (''claude-code-global'', tool_at home [''.claude'', ''skills''] [''claude-code'', ''claude'']
         ''project-scoped skills are not installed into Claude Code global root''),
      (''qoder-global'', tool_at home [''.qoder'', ''skills''] [''qoder'']
         ''project-scoped skills are not installed into Qoder global root''),
      (''deepseek-harness-global'', tool_at home [''.dsh'', ''skills''] [''deepseek-harness'', ''deepseek'']
         ''project-scoped skills are not installed into DeepSeek Harness global root'')]"

section \<open>The plan\<close>

record apply_plan_item =
  ap_key :: string
  ap_skill_id :: string
  ap_content_hash :: string
  ap_source_path :: string
  ap_target_path :: string
  ap_backup_path :: string
  ap_action :: string
  ap_scope :: string
  ap_targets :: "string list"
  ap_allowed :: bool
  ap_reason :: "string option"

definition apply_item_dict :: "apply_plan_item \<Rightarrow> pydict" where
  "apply_item_dict i = [(''key'', PStr (ap_key i)), (''skill_id'', PStr (ap_skill_id i)),
     (''content_hash'', PStr (ap_content_hash i)), (''source_path'', PStr (ap_source_path i)),
     (''target_path'', PStr (ap_target_path i)), (''backup_path'', PStr (ap_backup_path i)),
     (''action'', PStr (ap_action i)), (''scope'', PStr (ap_scope i)), (''targets'', strs (ap_targets i)),
     (''allowed'', PBool (ap_allowed i)), (''reason'', opt_str (ap_reason i))]"

definition apply_skill_ids :: "string list \<Rightarrow> string list" where
  "apply_skill_ids ids = filter (\<lambda>s. s \<noteq> []) (map strip ids)"

definition selected :: "string \<Rightarrow> string list \<Rightarrow> bool" where
  "selected skill_id ids = (ids = [] \<or> skill_id \<in> set ids)"

definition targets_tool :: "string list \<Rightarrow> string list \<Rightarrow> bool" where
  "targets_tool targets aliases =
     (targets = [] \<or> list_ex (\<lambda>t. lower (strip t) \<in> set (map (lower \<circ> strip) aliases)) targets)"

definition global_tool_allowance ::
    "string \<Rightarrow> string \<Rightarrow> string list \<Rightarrow> tool_target \<Rightarrow> string list \<Rightarrow> bool \<times> string option" where
  "global_tool_allowance skill_id scope targets config ids =
     (if \<not> selected skill_id ids then (False, Some ''not selected by --skill-id allowlist'')
      else if scope \<notin> set (tt_scopes config) then (False, Some (tt_scope_skip config))
      else if \<not> targets_tool targets (tt_aliases config)
      then (False, Some (''manifest targets do not include '' @ hd (sort (tt_aliases config))))
      else (True, None))"

definition mixed_scope_skip_reason :: "string \<Rightarrow> bool \<Rightarrow> string option" where
  "mixed_scope_skip_reason scope sel =
     (if \<not> sel then Some ''not selected by --skill-id allowlist''
      else if scope \<notin> set [''global'', ''project'']
      then Some (scope @ ''-scoped skills are not installed into mixed-scope-root'')
      else None)"

definition codex_project_skip_reason :: "string \<Rightarrow> bool \<Rightarrow> bool \<Rightarrow> string option" where
  "codex_project_skip_reason scope sel targeted =
     (if \<not> sel then Some ''not selected by --skill-id allowlist''
      else if scope \<noteq> ''project'' then Some ''global skills are not installed into project roots by default''
      else if \<not> targeted then Some ''manifest targets do not include codex''
      else None)"

text \<open>One staged skill, with the verdict that \<open>allowance\<close> gives on its id, scope and targets.\<close>

definition plan_staged ::
    "(string \<Rightarrow> string \<Rightarrow> string list \<Rightarrow> bool \<times> string option) \<Rightarrow> path \<Rightarrow> path \<Rightarrow> pyval \<Rightarrow> apply_plan_item res" where
  "plan_staged allowance root backup_root skill_value =
     bindR (as_dict skill_value) (\<lambda>skill.
     bindR (py_iter (por (dget skill ''targets'') (PList []))) (\<lambda>ts.
       let skill_id = py_str (dget skill ''skill_id'');
           scope = py_str (por (dget skill ''scope'') (PStr ''global''));
           targets = map py_str ts;
           (allowed, reason) = allowance skill_id scope targets
       in Inr \<lparr>ap_key = py_str (dget skill ''key''), ap_skill_id = skill_id,
            ap_content_hash = py_str (por (dget skill ''content_hash'') (PStr [])),
            ap_source_path = py_str (dget skill ''output_path''),
            ap_target_path = path_str (path_div root skill_id),
            ap_backup_path = path_str (path_div backup_root skill_id),
            ap_action = (if allowed then ''install_or_replace'' else ''skip''),
            ap_scope = scope, ap_targets = targets, ap_allowed = allowed, ap_reason = reason\<rparr>))"

text \<open>The root, the backup root and the verdict each kind of target uses.\<close>

definition target_layout :: "path \<Rightarrow> string \<Rightarrow> path option \<Rightarrow> path option \<Rightarrow> string list \<Rightarrow> string
    \<Rightarrow> (path \<times> path \<times> (string \<Rightarrow> string \<Rightarrow> string list \<Rightarrow> bool \<times> string option)) res" where
  "target_layout home target target_root project_root ids apply_id =
     (case map_of (global_tool_targets home) target of
        Some config \<Rightarrow>
          (let root = (case target_root of Some r \<Rightarrow> r | None \<Rightarrow> tt_default_root config)
           in Inr (root, path_div (root @ [''.skill-sync-backups'']) apply_id,
                (\<lambda>i s ts. global_tool_allowance i s ts config ids)))
      | None \<Rightarrow>
          (if target = ''mixed-scope-root'' then
             (case target_root of
                None \<Rightarrow> Inl (Exn ApplyPlanError ''--target-root is required for mixed-scope-root'')
              | Some root \<Rightarrow> Inr (root, path_div (root @ [''.skill-sync-backups'']) apply_id,
                  (\<lambda>i s ts. (selected i ids \<and> s \<in> set [''global'', ''project''], mixed_scope_skip_reason s (selected i ids)))))
           else if target = ''codex-project'' then
             (case project_root of
                None \<Rightarrow> Inl (Exn ApplyPlanError ''--project-root is required for codex-project'')
              | Some p \<Rightarrow> Inr (p @ [''skills''], path_div (p @ [''.skill-sync-backups'']) apply_id,
                  (\<lambda>i s ts. (selected i ids \<and> s = ''project'' \<and> targets_tool ts [''codex''],
                    codex_project_skip_reason s (selected i ids) (targets_tool ts [''codex''])))))
           else Inl (Exn ApplyPlanError (''unsupported apply target: '' @ target))))"

definition apply_plan_items :: "path \<Rightarrow> pydict \<Rightarrow> string \<Rightarrow> path option \<Rightarrow> path option \<Rightarrow> string list \<Rightarrow> string
    \<Rightarrow> (path \<times> path \<times> apply_plan_item list) res" where
  "apply_plan_items home stage_index target target_root project_root skill_ids apply_id =
     bindR (target_layout home target target_root project_root (apply_skill_ids skill_ids) apply_id)
       (\<lambda>(root, backup_root, allowance).
         bindR (py_iter (dget_or stage_index ''skills'' (PList []))) (\<lambda>skills.
         bindR (mapR (plan_staged allowance root backup_root) skills) (\<lambda>items.
           Inr (root, backup_root, items))))"

definition build_apply_plan :: "path \<Rightarrow> world \<Rightarrow> path \<Rightarrow> string \<Rightarrow> path option \<Rightarrow> path option \<Rightarrow> string list \<Rightarrow> string
    \<Rightarrow> pydict res" where
  "build_apply_plan home w staged_dir target target_root project_root skill_ids apply_id =
     (if \<not> exists w (staged_dir @ [''.stage-index.json''])
      then Inl (Exn ApplyPlanError (''staged snapshot has no .stage-index.json: '' @ path_str staged_dir))
      else bindR (fst (read_json (staged_dir @ [''.stage-index.json'']) w)) (\<lambda>loaded.
        bindR (as_dict loaded) (\<lambda>stage_index.
        bindR (apply_plan_items home stage_index target target_root project_root skill_ids apply_id)
          (\<lambda>(root, backup_root, items).
            Inr [(''apply_id'', PStr apply_id), (''target'', PStr target),
                 (''target_root'', PStr (path_str (norm_path root))),
                 (''backup_root'', PStr (path_str (norm_path backup_root))),
                 (''snapshot_id'', dget stage_index ''snapshot_id''),
                 (''staged_snapshot'', PStr (path_str (norm_path staged_dir))),
                 (''dry_run'', PBool True),
                 (''selected_skill_ids'', strs (sorted_set (apply_skill_ids skill_ids))),
                 (''total'', PInt (int (length items))),
                 (''allowed'', PInt (int (length (filter ap_allowed items)))),
                 (''skipped'', PInt (int (length (filter (\<lambda>i. \<not> ap_allowed i) items)))),
                 (''items'', PList (map (PDict \<circ> apply_item_dict) items))]))))"

section \<open>Installing one item\<close>

definition copy_path :: "path \<Rightarrow> path \<Rightarrow> unit io" where
  "copy_path source target w =
     (if is_dir w source then copytree source target w
      else thenI (mkdirs (path_parent target)) (copy_file source target) w)"

text \<open>\<open>protect.remove_path\<close>, and the two other deletions and moves of \<open>protect.py\<close> that the program uses.\<close>

definition remove_path :: "path \<Rightarrow> unit io" where
  "remove_path p w =
     (if \<not> exists w p then (Inr (), w)
      else if is_dir w p then rmtree p w
      else unlink p w)"

definition temp_target :: "path \<Rightarrow> string \<Rightarrow> path" where
  "temp_target target apply_id =
     path_div (path_parent target) (''.'' @ path_name target @ ''.skill-sync-tmp-'' @ apply_id)"

text \<open>The swap: back up what is there, remove it, move the copy in; on any error put the old version
  back if it is gone, drop the copy and raise again.\<close>

definition swap_in :: "path \<Rightarrow> path \<Rightarrow> path \<Rightarrow> bool \<Rightarrow> unit io" where
  "swap_in temp target backup had_existing =
     thenI (if had_existing
            then bindI (askI (\<lambda>w. exists w backup)) (\<lambda>taken.
                   if taken then raiseI (Exn ApplyError (''backup path already exists: '' @ path_str backup))
                   else thenI (mkdirs (path_parent backup)) (copy_path target backup))
            else returnI ())
       (thenI (remove_path target) (replace_path temp target))"

definition swap_undo :: "path \<Rightarrow> path \<Rightarrow> path \<Rightarrow> bool \<Rightarrow> exn \<Rightarrow> unit io" where
  "swap_undo temp target backup had_existing e =
     bindI (askI (\<lambda>w. had_existing \<and> exists w backup \<and> \<not> exists w target)) (\<lambda>lost.
       thenI (if lost then copy_path backup target else returnI ())
         (thenI (remove_path temp) (raiseI e)))"

definition install_result :: "pydict \<Rightarrow> path \<Rightarrow> path \<Rightarrow> path \<Rightarrow> bool \<Rightarrow> pydict" where
  "install_result item source target backup had_existing =
     [(''key'', dget item ''key''), (''skill_id'', dget item ''skill_id''),
      (''content_hash'', dget item ''content_hash''), (''source_path'', PStr (path_str source)),
      (''target_path'', PStr (path_str target)), (''backup_path'', PStr (path_str backup)),
      (''had_existing'', PBool had_existing), (''backup_written'', PBool had_existing),
      (''action'', PStr ''installed_or_replaced'')]"

definition install_paths :: "pydict \<Rightarrow> (path \<times> path \<times> path) res" where
  "install_paths item =
     bindR (dindex item ''source_path'') (\<lambda>s. bindR (dindex item ''target_path'') (\<lambda>t.
     bindR (dindex item ''backup_path'') (\<lambda>b.
       Inr (path_of (py_str s), path_of (py_str t), path_of (py_str b)))))"

definition install_at :: "path \<Rightarrow> path \<Rightarrow> path \<Rightarrow> string \<Rightarrow> bool io" where
  "install_at source target backup apply_id =
     bindI (askI (\<lambda>w. is_dir w source)) (\<lambda>staged.
       if \<not> staged then raiseI (Exn ApplyError (''staged source is not a directory: '' @ path_str source))
       else thenI (mkdirs (path_parent target))
         (let temp = temp_target target apply_id in
          bindI (askI (\<lambda>w. exists w temp)) (\<lambda>taken.
            if taken then raiseI (Exn ApplyError (''temporary target already exists: '' @ path_str temp))
            else thenI (copy_path source temp)
              (bindI (askI (\<lambda>w. exists w target)) (\<lambda>had_existing.
                thenI (catchI (swap_in temp target backup had_existing) (swap_undo temp target backup had_existing))
                  (returnI had_existing))))))"

definition apply_item :: "pydict \<Rightarrow> string \<Rightarrow> pydict io" where
  "apply_item item apply_id =
     bindI (liftI (install_paths item)) (\<lambda>(source, target, backup).
     bindI (install_at source target backup apply_id) (\<lambda>had_existing.
       returnI (install_result item source target backup had_existing)))"

section \<open>A run and its record\<close>

fun apply_items :: "pydict list \<Rightarrow> string \<Rightarrow> pydict list \<Rightarrow> world \<Rightarrow> (pydict list \<times> exn option) \<times> world" where
  "apply_items [] apply_id applied w = ((applied, None), w)"
| "apply_items (i # items) apply_id applied w =
     (if \<not> truthy (dget i ''allowed'') then apply_items items apply_id applied w
      else (case apply_item i apply_id w of
          (Inl e, w') \<Rightarrow> ((applied, Some e), w')
        | (Inr r, w') \<Rightarrow> apply_items items apply_id (applied @ [r]) w'))"

definition apply_record :: "pydict \<Rightarrow> string \<Rightarrow> path \<Rightarrow> string \<Rightarrow> pydict list \<Rightarrow> pydict list \<Rightarrow> pydict" where
  "apply_record plan apply_id backup_root created_at applied skipped =
     [(''protocol_version'', PInt 0), (''record_type'', PStr ''skill-sync-apply''),
      (''apply_id'', PStr apply_id), (''created_at'', PStr created_at), (''status'', PStr ''running''),
      (''dry_run'', PBool False), (''target'', dget plan ''target''), (''target_root'', dget plan ''target_root''),
      (''backup_root'', PStr (path_str backup_root)), (''snapshot_id'', dget plan ''snapshot_id''),
      (''staged_snapshot'', dget plan ''staged_snapshot''),
      (''applied'', PList (map PDict applied)), (''skipped'', PList (map PDict skipped))]"

definition closed_record :: "pydict \<Rightarrow> path \<Rightarrow> pydict list \<Rightarrow> pydict list \<Rightarrow> pydict" where
  "closed_record rec record_path applied skipped =
     dset (dset (dset rec ''total_applied'' (PInt (int (length applied))))
       ''total_skipped'' (PInt (int (length skipped)))) ''record_path'' (PStr (path_str record_path))"

definition write_apply_record :: "pydict \<Rightarrow> path \<Rightarrow> pydict list \<Rightarrow> pydict list \<Rightarrow> pydict io" where
  "write_apply_record rec record_path applied skipped =
     (let closed = closed_record rec record_path applied skipped in
      thenI (mkdirs (path_parent record_path))
        (thenI (write_data record_path (Json (PDict closed))) (returnI closed)))"

definition complete_record :: "pydict \<Rightarrow> string \<Rightarrow> pydict" where
  "complete_record rec now = dset (dset rec ''status'' (PStr ''complete'')) ''completed_at'' (PStr now)"

definition failed_record :: "pydict \<Rightarrow> exn \<Rightarrow> string \<Rightarrow> pydict" where
  "failed_record rec e now =
     dset (dset (dset rec ''status'' (PStr ''failed'')) ''error'' (PStr (exn_text e))) ''failed_at'' (PStr now)"

definition as_apply_error :: "exn \<Rightarrow> exn" where
  "as_apply_error e = (if exn_kind e = ApplyError then e else Exn ApplyError (exn_text e))"

text \<open>The handler: the failed record is written before the error leaves, as an \<open>ApplyError\<close>.\<close>

definition fail_run :: "pydict \<Rightarrow> path \<Rightarrow> pydict list \<Rightarrow> pydict list \<Rightarrow> string \<Rightarrow> exn \<Rightarrow> pydict io" where
  "fail_run rec record_path applied skipped now e =
     thenI (write_apply_record (failed_record rec e now) record_path applied skipped)
       (raiseI (as_apply_error e))"

definition run_items :: "pydict list \<Rightarrow> pydict \<Rightarrow> string \<Rightarrow> path \<Rightarrow> string \<Rightarrow> string \<Rightarrow> pydict list \<Rightarrow> pydict io" where
  "run_items items plan apply_id backup_root created_at now skipped w =
     (let record_path = backup_root @ [''.apply-record.json''];
          rec = apply_record plan apply_id backup_root created_at in
      case mkdirs backup_root w of
        (Inl e, w1) \<Rightarrow> fail_run (rec [] skipped) record_path [] skipped now e w1
      | (Inr u, w1) \<Rightarrow>
          (case apply_items items apply_id [] w1 of
             ((applied, Some e), w2) \<Rightarrow> fail_run (rec applied skipped) record_path applied skipped now e w2
           | ((applied, None), w2) \<Rightarrow>
               (let done_rec = complete_record (rec applied skipped) now in
                catchI (write_apply_record done_rec record_path applied skipped)
                  (fail_run done_rec record_path applied skipped now) w2)))"

definition execute_apply_plan :: "pydict \<Rightarrow> string \<Rightarrow> string \<Rightarrow> string \<Rightarrow> pydict io" where
  "execute_apply_plan plan fresh_id created_at now =
     (let apply_id = py_str (por (dget plan ''apply_id'') (PStr fresh_id)) in
      bindI (liftI (dindex plan ''backup_root'')) (\<lambda>b.
      bindI (liftI (bindR (py_iter (dget_or plan ''items'' (PList []))) (mapR as_dict))) (\<lambda>items.
        run_items items plan apply_id (path_of (py_str b)) created_at now
          (filter (\<lambda>i. \<not> truthy (dget i ''allowed'')) items))))"

section \<open>Rollback\<close>

definition rollback_at :: "path \<Rightarrow> path \<Rightarrow> bool \<Rightarrow> string io" where
  "rollback_at target backup had_existing =
     (if had_existing then
        bindI (askI (\<lambda>w. exists w backup)) (\<lambda>present.
          if \<not> present then raiseI (Exn ApplyError (''backup missing for rollback: '' @ path_str backup))
          else thenI (remove_path target) (thenI (copy_path backup target) (returnI ''restored_backup'')))
      else thenI (remove_path target) (returnI ''removed_new_install''))"

definition rollback_item :: "pydict \<Rightarrow> pydict io" where
  "rollback_item item =
     bindI (liftI (dindex item ''target_path'')) (\<lambda>t.
     bindI (liftI (dindex item ''backup_path'')) (\<lambda>b.
       let target = path_of (py_str t) in
       bindI (rollback_at target (path_of (py_str b)) (truthy (dget item ''had_existing''))) (\<lambda>action.
         returnI [(''key'', dget item ''key''), (''skill_id'', dget item ''skill_id''),
           (''target_path'', PStr (path_str target)), (''action'', PStr action)])))"

definition rollback_apply_record :: "path \<Rightarrow> string \<Rightarrow> string \<Rightarrow> pydict io" where
  "rollback_apply_record record_path created_at rollback_id =
     bindI (askI (\<lambda>w. exists w record_path)) (\<lambda>present.
       if \<not> present then raiseI (Exn ApplyError (''apply record not found: '' @ path_str record_path))
       else bindI (read_json record_path) (\<lambda>loaded.
         bindI (liftI (as_dict loaded)) (\<lambda>record.
         bindI (liftI (py_iter (dget_or record ''applied'' (PList [])))) (\<lambda>applied.
         bindI (mapI (\<lambda>v. bindI (liftI (as_dict v)) rollback_item) (rev applied)) (\<lambda>rolled_back.
           let rollback = [(''protocol_version'', PInt 0), (''record_type'', PStr ''skill-sync-rollback''),
                 (''apply_id'', dget record ''apply_id''), (''created_at'', PStr created_at),
                 (''record_path'', PStr (path_str (norm_path record_path))),
                 (''rolled_back'', PList (map PDict rolled_back)), (''total'', PInt (int (length rolled_back)))];
               rollback_path = path_div (path_parent record_path) (''.rollback-record-'' @ rollback_id @ ''.json'')
           in thenI (write_data rollback_path (Json (PDict rollback)))
                (returnI (rollback @ [(''rollback_record_path'', PStr (path_str rollback_path))])))))))"

section \<open>What the file operations guarantee\<close>

lemma copy_path_frame:
  assumes "clean d" shows "only_under d (copy_path s d)"
proof -
  from assms have p: "\<not> apart d (norm_path (path_parent d))" "prefix d (norm_path d)"
    by (simp_all add: path_parent_def clean_butlast apart_def prefixeq_butlast)
  have "only_under d (thenI (mkdirs (path_parent d)) (copy_file s d))" by (intro frame_intros p)
  then show ?thesis using p
    by (auto simp: copy_path_def only_under_def intro: only_underD [OF only_under_copytree])
qed

lemma remove_path_frame: "clean p \<Longrightarrow> only_under p (remove_path p)"
  by (rule only_underI)
    (auto simp: remove_path_def intro!: only_underD [OF only_under_rmtree] only_underD [OF only_under_unlink])

lemma step_at_Inr: "step_at p f w = (Inr u, w') \<Longrightarrow> w_tree w' = f (w_tree w)"
  by (cases rule: step_at_cases [of p f w]) auto

lemma step_clean_Inr: "step_clean f w = (Inr u, w') \<Longrightarrow> w_tree w' = f (w_tree w)"
  by (cases rule: step_clean_cases [of f w]) auto

lemma step_clean_Inl: "step_clean f w = (Inl e, w') \<Longrightarrow> w_tree w' = w_tree w"
  by (cases rule: step_clean_cases [of f w]) auto

lemma write_data_Inr: "clean d \<Longrightarrow> write_data d x w = (Inr u, w') \<Longrightarrow> lookup (w_tree w') d = Some (NFile x)"
  using lookup_put_under [of "w_tree w" d "NFile x" "[]"] dir_at_parent_ok [of "w_tree w" d]
  by (auto simp: write_data_def Let_def split: if_splits dest!: step_at_Inr)

lemma copytree_Inr:
  "clean d \<Longrightarrow> copytree s d w = (Inr u, w') \<Longrightarrow> lookup (w_tree w') d = at w s \<and> is_dir w s"
  using lookup_put_under [of "w_tree w" d _ "[]"]
  by (auto simp: copytree_def Let_def is_dir_def split: if_splits option.splits node.splits dest!: step_at_Inr)

lemma copy_path_Inr:
  assumes "clean s" "clean d" "apart s d" "copy_path s d w = (Inr u, w')"
  shows "lookup (w_tree w') d = lookup (w_tree w) s"
proof (cases "is_dir w s")
  case True
  with assms show ?thesis by (auto simp: copy_path_def at_clean dest: copytree_Inr)
next
  case False
  with assms(4) obtain w1 where m: "mkdirs (path_parent d) w = (Inr (), w1)" "copy_file s d w1 = (Inr u, w')"
    by (auto simp: copy_path_def thenI_eq_Inr)
  have "\<not> prefix s (norm_path (path_parent d))"
    using assms by (auto simp: path_parent_def clean_butlast apart_def dest: prefix_order.trans [OF _ prefixeq_butlast])
  from mkdirs_frame [OF this, of w] m(1) have "lookup (w_tree w1) s = lookup (w_tree w) s" by simp
  with m(2) assms show ?thesis
    by (auto simp: copy_file_def at_clean split: option.splits node.splits dest: write_data_Inr)
qed

lemma replace_path_Inr:
  assumes "clean p" "clean d" "apart p d" "replace_path p d w = (Inr u, w')"
  shows "lookup (w_tree w') d = lookup (w_tree w) p" "lookup (w_tree w') p = None"
    "apart p q \<Longrightarrow> apart d q \<Longrightarrow> lookup (w_tree w') q = lookup (w_tree w) q"
proof -
  have "p \<noteq> []" "p \<noteq> d" using assms(3) by (auto simp: apart_def)
  then have "\<exists>n. lookup (w_tree w) p = Some n \<and> dir_at (w_tree w) (butlast d)
      \<and> step_clean (\<lambda>t. put (del t p) d n) w = (Inr u, w')"
    using assms
    by (cases "lookup (w_tree w) p"; cases "lookup (w_tree w) d")
      (simp_all add: replace_path_def at_clean split: if_split_asm node.split_asm list.split_asm)
  then obtain n where n: "lookup (w_tree w) p = Some n" "dir_at (w_tree w) (butlast d)"
    "step_clean (\<lambda>t. put (del t p) d n) w = (Inr u, w')" by blast
  have "parent_ok (w_tree w) d" using n(2) by (rule dir_at_parent_ok)
  note t = tree.get_move [OF assms(3) \<open>p \<noteq> []\<close> this, unfolded tree.move_def]
  show "lookup (w_tree w') d = lookup (w_tree w) p" "lookup (w_tree w') p = None"
    "apart p q \<Longrightarrow> apart d q \<Longrightarrow> lookup (w_tree w') q = lookup (w_tree w) q"
    using t n step_clean_Inr [OF n(3)] by auto
qed

lemma replace_path_Inl: "replace_path p d w = (Inl e, w') \<Longrightarrow> w_tree w' = w_tree w"
  by (auto simp: replace_path_def Let_def split: option.splits if_splits node.splits list.splits prod.splits
      dest: step_clean_Inl)

section \<open>Installing never loses the old version\<close>

definition install_layout :: "path \<Rightarrow> path \<Rightarrow> path \<Rightarrow> path \<Rightarrow> bool" where
  "install_layout source target temp backup =
     (clean source \<and> clean target \<and> clean temp \<and> clean backup \<and> target \<noteq> []
      \<and> apart temp target \<and> apart temp backup \<and> apart target backup
      \<and> apart source temp \<and> apart source target \<and> apart source backup)"

abbreviation there :: "world \<Rightarrow> path \<Rightarrow> node option" where
  "there w p \<equiv> lookup (w_tree w) p"

lemma ensures_copy_path:
  assumes "clean s" "clean d" "apart s d" "reads_apart d P"
  shows "ensures (\<lambda>w. P w \<and> there w s = x) (copy_path s d) (\<lambda>_ w. P w \<and> there w s = x \<and> there w d = x)
     (\<lambda>_ w. P w \<and> there w s = x)"
proof -
  have "reads_apart d (\<lambda>w. P w \<and> there w s = x)"
    using assms by (intro reads_apart_conj reads_apart_at) (auto dest: apart_sym)
  note f = ensures_frame [OF copy_path_frame [OF assms(2)] this, of s]
  show ?thesis
  proof (rule ensuresI)
    fix w assume w: "P w \<and> there w s = x"
    show "case copy_path s d w of (Inr u, w') \<Rightarrow> P w' \<and> there w' s = x \<and> there w' d = x
        | (Inl e, w') \<Rightarrow> P w' \<and> there w' s = x"
      using ensures_Inr [OF f, of w] ensures_Inl [OF f, of w] copy_path_Inr [OF assms(1-3), of w] w
      by (cases "copy_path s d w") (auto split: sum.splits)
  qed
qed

lemma ensures_replace_path:
  assumes "clean p" "clean d" "apart p d" "reads_apart p P" "reads_apart d P"
    "\<And>w w'. (\<And>q. apart p q \<Longrightarrow> apart d q \<Longrightarrow> there w' q = there w q) \<Longrightarrow> P w \<Longrightarrow> P w'"
  shows "ensures (\<lambda>w. P w \<and> there w p = x) (replace_path p d) (\<lambda>_ w. P w \<and> there w d = x) (\<lambda>_. P)"
proof (rule ensuresI)
  fix w assume w: "P w \<and> there w p = x"
  show "case replace_path p d w of (Inr u, w') \<Rightarrow> P w' \<and> there w' d = x | (Inl e, w') \<Rightarrow> P w'"
  proof (cases "replace_path p d w")
    case (Pair r w')
    show ?thesis
    proof (cases r)
      case (Inl e)
      with Pair have "w_tree w' = w_tree w" using replace_path_Inl by blast
      then have "P w'" using assms(6) [of w' w] w by simp
      with Pair Inl show ?thesis by simp
    next
      case (Inr u)
      note r = replace_path_Inr [OF assms(1-3) Pair [unfolded Inr]]
      have "P w'" by (rule assms(6) [of w' w]) (use r w in auto)
      with Pair Inr r w show ?thesis by simp
    qed
  qed
qed

lemma ensures_mkdirs_parent:
  assumes "clean d" "reads_apart d P"
  shows "ensures P (mkdirs (path_parent d)) (\<lambda>_. P) (\<lambda>_. P)"
proof (rule ensures_frame [OF only_under_mkdirs assms(2)])
  show "\<not> apart d (norm_path (path_parent d))"
    using assms by (simp add: path_parent_def clean_butlast apart_def prefixeq_butlast)
qed

lemma swap_in_ensures:
  assumes lay: "install_layout source target temp backup"
  shows "ensures (\<lambda>w. (had \<longrightarrow> there w target = Some old) \<and> there w temp = Some new)
    (swap_in temp target backup had)
    (\<lambda>_ w. (had \<longrightarrow> there w backup = Some old) \<and> there w target = Some new)
    (\<lambda>_ w. had \<longrightarrow> there w target = Some old \<or> there w backup = Some old)"
proof -
  from lay have c: "clean target" "clean temp" "clean backup" and
    a: "apart temp target" "apart temp backup" "apart target backup" "apart backup temp" "apart backup target" "apart target temp"
    by (auto simp: install_layout_def dest: apart_sym)
  let ?P = "\<lambda>w. there w temp = Some new \<and> there w target = Some old"
  let ?R = "\<lambda>w. (had \<longrightarrow> there w backup = Some old) \<and> there w temp = Some new"
  let ?E = "\<lambda>(_::exn) w. had \<longrightarrow> there w target = Some old \<or> there w backup = Some old"
  have rb: "reads_apart backup (\<lambda>w. there w q = v)" if "apart backup q" for q v
    using that by (rule reads_apart_at)
  have cp: "ensures ?P (copy_path target backup) (\<lambda>_. ?R) ?E"
    by (rule ensures_weaken [OF ensures_copy_path [OF c(1,3) a(3) rb [OF a(4), of "Some new"], of "Some old"]]) auto
  have md: "ensures ?P (mkdirs (path_parent backup)) (\<lambda>_. ?P) ?E"
    by (rule ensures_weaken [OF ensures_mkdirs_parent [OF c(3) reads_apart_conj [OF rb [OF a(4)] rb [OF a(5)]]]]) auto
  have bk: "ensures (\<lambda>w. (had \<longrightarrow> there w target = Some old) \<and> there w temp = Some new)
     (if had then bindI (askI (\<lambda>w. exists w backup)) (\<lambda>taken.
         if taken then raiseI (Exn ApplyError (''backup path already exists: '' @ path_str backup))
         else thenI (mkdirs (path_parent backup)) (copy_path target backup)) else returnI ()) (\<lambda>_. ?R) ?E"
  proof (cases had)
    case True
    have "ensures ?P (bindI (askI (\<lambda>w. exists w backup)) (\<lambda>taken.
         if taken then raiseI (Exn ApplyError (''backup path already exists: '' @ path_str backup))
         else thenI (mkdirs (path_parent backup)) (copy_path target backup))) (\<lambda>_. ?R) ?E"
      by (rule ensures_bindI [of _ _ "\<lambda>_. ?P"], rule ensures_askI, assumption,
          rule ensures_if, rule ensures_raiseI, simp, rule ensures_thenI [OF md cp])
    then show ?thesis using True by (simp add: conj_commute)
  next
    case False
    then show ?thesis by (auto intro: ensures_returnI)
  qed
  have rm: "ensures ?R (remove_path target) (\<lambda>_. ?R) ?E"
    by (rule ensures_weaken [OF ensures_frame [OF remove_path_frame [OF c(1)], of ?R]])
      (use a in \<open>auto simp: reads_apart_def\<close>)
  have rp: "ensures ?R (replace_path temp target) (\<lambda>_ w. (had \<longrightarrow> there w backup = Some old) \<and> there w target = Some new) ?E"
    by (rule ensures_weaken [OF ensures_replace_path [OF c(2,1) a(1), of "\<lambda>w. had \<longrightarrow> there w backup = Some old" "Some new"]])
      (use a in \<open>auto simp: reads_apart_def\<close>)
  show ?thesis unfolding swap_in_def by (rule ensures_thenI [OF bk ensures_thenI [OF rm rp]])
qed

lemma not_prefix_butlast: "p \<noteq> [] \<Longrightarrow> \<not> prefix p (butlast p)"
  using prefix_length_le [of p "butlast p"] by (cases p) auto

lemma swap_undo_ensures:
  assumes lay: "install_layout source target temp backup"
  shows "ensures (\<lambda>w. had \<longrightarrow> there w target = Some old \<or> there w backup = Some old)
    (swap_undo temp target backup had e) (\<lambda>_ _. False)
    (\<lambda>_ w. had \<longrightarrow> there w target = Some old \<or> there w backup = Some old)"
proof -
  from lay have c: "clean target" "clean temp" "clean backup" and
    a: "apart temp target" "apart temp backup" "apart target backup"
    by (auto simp: install_layout_def)
  let ?S = "\<lambda>w. had \<longrightarrow> there w target = Some old \<or> there w backup = Some old"
  have put_back: "ensures (\<lambda>w. had \<longrightarrow> there w backup = Some old) (copy_path backup target) (\<lambda>_. ?S) (\<lambda>_. ?S)"
    by (rule ensures_weaken [OF ensures_frame [OF copy_path_frame [OF c(1)], of "\<lambda>w. had \<longrightarrow> there w backup = Some old"]])
      (use a in \<open>auto simp: reads_apart_def\<close>)
  have "ensures (\<lambda>w. ?S w \<and> (lost \<longrightarrow> had \<longrightarrow> there w backup = Some old))
      (if lost then copy_path backup target else returnI ()) (\<lambda>_. ?S) (\<lambda>_. ?S)" for lost
    by (cases lost) (auto intro: ensures_returnI ensures_weaken [OF put_back])
  moreover have "ensures ?S (remove_path temp) (\<lambda>_. ?S) (\<lambda>_. ?S)"
    by (rule ensures_frame [OF remove_path_frame [OF c(2)]]) (use a in \<open>auto simp: reads_apart_def\<close>)
  ultimately show ?thesis unfolding swap_undo_def
    by (intro ensures_bindI [where R = "\<lambda>lost w. ?S w \<and> (lost \<longrightarrow> had \<longrightarrow> there w backup = Some old)"]
        ensures_thenI [where R = ?S] ensures_askI ensures_raiseI)
      (use c in \<open>auto simp: exists_def at_clean\<close>)
qed

lemma install_at_ensures:
  assumes lay: "install_layout source target (temp_target target apply_id) backup"
  shows "ensures (\<lambda>w. there w target = old \<and> there w source = Some new)
    (install_at source target backup apply_id)
    (\<lambda>had w. had = (old \<noteq> None) \<and> (had \<longrightarrow> there w backup = old) \<and> there w target = Some new)
    (\<lambda>_ w. old \<noteq> None \<longrightarrow> there w target = old \<or> there w backup = old)"
proof -
  let ?temp = "temp_target target apply_id"
  from lay have c: "clean target" "clean ?temp" "clean source" "target \<noteq> []" and
    a: "apart ?temp target" "apart source ?temp" "apart source target"
    by (auto simp: install_layout_def)
  let ?P = "\<lambda>w. there w target = old \<and> there w source = Some new"
  let ?Q = "\<lambda>w. there w target = old \<and> there w ?temp = Some new"
  let ?S = "\<lambda>w. old \<noteq> None \<longrightarrow> there w target = old \<or> there w backup = old"
  have md: "ensures ?P (mkdirs (path_parent target)) (\<lambda>_. ?P) (\<lambda>_. ?S)"
  proof (rule ensuresI)
    fix w :: world assume P: "?P w"
    have n: "\<not> prefix target (norm_path (path_parent target))" "\<not> prefix source (norm_path (path_parent target))"
      using c a by (auto simp: path_parent_def clean_butlast apart_def not_prefix_butlast
          dest: prefix_order.trans [OF _ prefixeq_butlast])
    show "case mkdirs (path_parent target) w of (Inr x, w') \<Rightarrow> ?P w' | (Inl e, w') \<Rightarrow> ?S w'"
      using mkdirs_frame [OF n(1), of w] mkdirs_frame [OF n(2), of w] P
      by (cases "mkdirs (path_parent target) w") (auto split: sum.splits)
  qed
  have cp: "ensures ?P (copy_path source ?temp) (\<lambda>_. ?Q) (\<lambda>_. ?S)"
    by (rule ensures_weaken [OF ensures_copy_path [OF c(3,2) a(2) reads_apart_at [OF a(1), of "\<lambda>v. v = old"], of "Some new"]]) auto
  have sw: "ensures (\<lambda>w. ?Q w \<and> had = (old \<noteq> None))
      (thenI (catchI (swap_in ?temp target backup had) (swap_undo ?temp target backup had)) (returnI had))
      (\<lambda>had w. had = (old \<noteq> None) \<and> (had \<longrightarrow> there w backup = old) \<and> there w target = Some new) (\<lambda>_. ?S)" for had
  proof (cases "had = (old \<noteq> None)")
    case True
    have "ensures ?Q (catchI (swap_in ?temp target backup had) (swap_undo ?temp target backup had))
        (\<lambda>_ w. (had \<longrightarrow> there w backup = old) \<and> there w target = Some new) (\<lambda>_. ?S)"
      by (rule ensures_weaken [OF ensures_catchI [OF swap_in_ensures [OF lay, of had "the old" new]
            ensures_weaken [OF swap_undo_ensures [OF lay, of had "the old"]]]]) (use True in auto)
    then show ?thesis using True
      by (intro ensures_thenI) (auto intro: ensures_returnI ensures_weaken)
  next
    case False
    then show ?thesis by (intro ensuresI) blast
  qed
  show ?thesis unfolding install_at_def Let_def
    by (intro ensures_bindI [where R = "\<lambda>_. ?P"] ensures_askI ensures_if ensures_raiseI ensures_thenI [OF md]
        ensures_bindI [where R = "\<lambda>_. ?P"] ensures_thenI [OF cp]
        ensures_bindI [where R = "\<lambda>had w. ?Q w \<and> had = (old \<noteq> None)"] sw)
      (use c in \<open>auto simp: exists_def at_clean\<close>)
qed

text \<open>C4: installing a skill never loses the version it replaces: at whatever operation a write fails,
  and however much of it was done, the old directory is afterwards either still complete at the
  target or complete in the backup; when the installation returns, it is in the backup, the target
  holds exactly the staged version, and the result says whether there was an old version.\<close>

theorem apply_item_never_loses_the_old_version:
  assumes "install_paths item = Inr (source, target, backup)"
    and "install_layout source target (temp_target target apply_id) backup"
    and "there w target = old" and "there w source = Some new"
    and "apply_item item apply_id w = (r, w')"
  shows "(old \<noteq> None \<longrightarrow> there w' target = old \<or> there w' backup = old)
    \<and> (\<forall>res. r = Inr res \<longrightarrow> there w' target = Some new \<and> truthy (dget res ''had_existing'') = (old \<noteq> None)
      \<and> (old \<noteq> None \<longrightarrow> there w' backup = old))"
proof -
  obtain q where q: "install_at source target backup apply_id w = (q, w')"
    "r = (case q of Inl e \<Rightarrow> Inl e | Inr had \<Rightarrow> Inr (install_result item source target backup had))"
    using assms(1,5) by (auto simp: apply_item_def bindI_def liftI_def returnI_def split: prod.splits sum.splits)
  have P: "there w target = old \<and> there w source = Some new" using assms(3,4) by simp
  show ?thesis
  proof (cases q)
    case (Inl e)
    with ensures_Inl [OF install_at_ensures [OF assms(2)] P, of e w'] q show ?thesis by auto
  next
    case (Inr had)
    with ensures_Inr [OF install_at_ensures [OF assms(2)] P, of had w'] q show ?thesis
      by (auto simp: install_result_def)
  qed
qed

text \<open>A skill \<open>a\<close> installed over an old version, with a fault at the given operation.\<close>

definition demo_item :: pydict where
  "demo_item = [(''key'', PStr ''k''), (''skill_id'', PStr ''a''), (''content_hash'', PStr ''h''),
     (''source_path'', PStr ''/t/a''), (''target_path'', PStr ''/r/a''), (''backup_path'', PStr ''/b/1/a''),
     (''allowed'', PBool True)]"

definition demo_old :: node where
  "demo_old = NDir [(''SKILL.md'', NFile (Raw ''1'')), (''data'', NFile (Raw ''mine''))]"

definition demo_new :: node where
  "demo_new = NDir [(''SKILL.md'', NFile (Raw ''2''))]"

definition demo_install_world :: "(nat \<times> node option) option \<Rightarrow> world" where
  "demo_install_world fault =
     \<lparr>w_tree = NDir [(''t'', NDir [(''a'', demo_new)]), (''r'', NDir [(''a'', demo_old)])], w_fault = fault\<rparr>"

definition demo_half :: node where
  "demo_half = NDir [(''data'', NFile (Raw ''mine''))]"

lemma demo_paths:
  "install_paths demo_item = Inr ([''t'', ''a''], [''r'', ''a''], [''b'', ''1'', ''a''])"
  "install_layout [''t'', ''a''] [''r'', ''a''] (temp_target [''r'', ''a''] ''1'') [''b'', ''1'', ''a'']"
  by code_simp+

theorem apply_item_never_loses_the_old_version_witness:
  "\<exists>e w'. apply_item demo_item ''1'' (demo_install_world (Some (3, Some demo_half))) = (Inl e, w')
     \<and> there w' [''r'', ''a''] = Some demo_half \<and> there w' [''b'', ''1'', ''a''] = Some demo_old"
proof -
  let ?w = "demo_install_world (Some (3, Some demo_half))"
  have "case apply_item demo_item ''1'' ?w of (r, w') \<Rightarrow>
      (case r of Inl e \<Rightarrow> True | Inr x \<Rightarrow> False) \<and> there w' [''r'', ''a''] = Some demo_half"
    by code_simp
  then obtain e w' where e: "apply_item demo_item ''1'' ?w = (Inl e, w')" "there w' [''r'', ''a''] = Some demo_half"
    by (auto split: prod.splits sum.splits)
  have "there ?w [''r'', ''a''] = Some demo_old" "there ?w [''t'', ''a''] = Some demo_new"
    by (simp_all add: demo_install_world_def)
  from apply_item_never_loses_the_old_version [OF demo_paths this e(1)] e(2)
  have "there w' [''b'', ''1'', ''a''] = Some demo_old"
    by (auto simp: demo_half_def demo_old_def)
  with e show ?thesis by blast
qed

section \<open>Rollback undoes a run\<close>

lemma calm_copy_path [calm_intros]: "calm (copy_path s d)"
proof (rule calmI)
  fix w :: world assume n: "no_fault w"
  have c: "calm (thenI (mkdirs (path_parent d)) (copy_file s d))" by (intro calm_intros)
  show "no_fault (snd (copy_path s d w))"
    using n c calm_copytree [of s d] by (simp add: copy_path_def calm_def)
qed

lemma calm_remove_path [calm_intros]: "calm (remove_path p)"
  using calm_rmtree [of p] calm_unlink [of p] by (simp add: remove_path_def calm_def)

lemma calm_install_at: "calm (install_at s t b i)"
  unfolding install_at_def swap_in_def swap_undo_def Let_def by (intro calm_intros)

lemma replace_path_frame:
  assumes "clean p" "clean d" "apart p d" "apart p q" "apart d q"
  shows "there (snd (replace_path p d w)) q = there w q"
proof (cases "replace_path p d w")
  case (Pair r w')
  show ?thesis
  proof (cases r)
    case (Inl e)
    with Pair replace_path_Inl show ?thesis by fastforce
  next
    case (Inr u)
    from replace_path_Inr(3) [OF assms(1-3) Pair [unfolded Inr] assms(4,5)] Pair show ?thesis by simp
  qed
qed

text \<open>Outside its target, its backup and its temporary copy an installation changes nothing.\<close>

lemma install_at_frame:
  assumes lay: "install_layout source target (temp_target target apply_id) backup"
    and q: "apart target q" "apart (temp_target target apply_id) q" "apart backup q"
  shows "there (snd (install_at source target backup apply_id w)) q = there w q"
proof -
  let ?temp = "temp_target target apply_id"
  let ?P = "\<lambda>w'. there w' q = there w q"
  from lay have c: "clean target" "clean ?temp" "clean backup" "apart ?temp target" by (auto simp: install_layout_def)
  have r: "reads_apart p ?P" if "apart p q" for p
    using that by (rule reads_apart_at)
  have cp: "ensures ?P (copy_path s d) (\<lambda>_. ?P) (\<lambda>_. ?P)" if "clean d" "apart d q" for s d
    using that by (intro ensures_frame [OF copy_path_frame] r)
  have rm: "ensures ?P (remove_path d) (\<lambda>_. ?P) (\<lambda>_. ?P)" if "clean d" "apart d q" for d
    using that by (intro ensures_frame [OF remove_path_frame] r)
  have mk: "ensures ?P (mkdirs (path_parent d)) (\<lambda>_. ?P) (\<lambda>_. ?P)" if "clean d" "apart d q" for d
    using that by (intro ensures_mkdirs_parent r)
  have rp: "ensures ?P (replace_path ?temp target) (\<lambda>_. ?P) (\<lambda>_. ?P)"
  proof (rule ensuresI)
    fix w1 :: world assume "?P w1"
    then have "there (snd (replace_path ?temp target w1)) q = there w q"
      using replace_path_frame [OF c(2,1,4) q(2,1)] by simp
    then show "case replace_path ?temp target w1 of (Inr u, w') \<Rightarrow> ?P w' | (Inl e, w') \<Rightarrow> ?P w'"
      by (simp add: split_beta split: sum.split)
  qed
  have sw: "ensures ?P (swap_in ?temp target backup had) (\<lambda>_. ?P) (\<lambda>_. ?P)" for had
    unfolding swap_in_def
    by (intro triples ensures_bindI [where R = "\<lambda>_. ?P"] ensures_thenI [where R = ?P] cp rm mk rp c q)
  have un: "ensures ?P (swap_undo ?temp target backup had e) (\<lambda>_. ?P) (\<lambda>_. ?P)" for had e
    unfolding swap_undo_def
    by (intro triples ensures_bindI [where R = "\<lambda>_. ?P"] ensures_thenI [where R = ?P] cp rm mk c q)
  have "ensures ?P (install_at source target backup apply_id) (\<lambda>_. ?P) (\<lambda>_. ?P)"
    unfolding install_at_def Let_def
    by (intro ensures_bindI [where R = "\<lambda>_. ?P"] ensures_thenI [where R = ?P] ensures_catchI [where R = "\<lambda>_. ?P"]
        ensures_if ensures_askI ensures_raiseI ensures_returnI sw un cp mk c q)
  from ensures_Inr [OF this refl] ensures_Inl [OF this refl] show ?thesis
    by (cases "install_at source target backup apply_id w"; cases "fst (install_at source target backup apply_id w)") auto
qed

lemma there_dir_above: "there w p = Some n \<Longrightarrow> p \<noteq> [] \<Longrightarrow> dir_at (w_tree w) (butlast p)"
proof -
  assume a: "there w p = Some n" "p \<noteq> []"
  then have "lookup (w_tree w) (butlast p @ [last p]) = Some n" by simp
  then obtain m where "lookup (w_tree w) (butlast p) = Some m" "lookup m [last p] = Some n"
    by (auto simp: lookup_append split: option.splits)
  then show ?thesis by (cases m) (auto simp: dir_at_def)
qed

lemma remove_path_ok:
  assumes "no_fault w" "clean p" "p \<noteq> []" "there w p = Some n"
  shows "\<exists>w'. remove_path p w = (Inr (), w') \<and> no_fault w' \<and> there w' p = None \<and> dir_at (w_tree w') (butlast p)"
proof -
  have "remove_path p w = (Inr (), w\<lparr>w_tree := del (w_tree w) p\<rparr>)"
    using assms by (cases n) (auto simp: remove_path_def exists_def at_clean is_dir_def is_file_def rmtree_ok unlink_def step_clean_no_fault)
  moreover have "dir_at (del (w_tree w) p) (butlast p)"
    using there_dir_above [OF assms(4,3)] assms(3) by (intro dir_at_del not_prefix_butlast)
  ultimately show ?thesis using assms lookup_del_under [of p "w_tree w" "[]"] by simp
qed

lemma copy_path_ok:
  assumes "no_fault w" "clean s" "clean d" "apart s d" "there w s = Some n" "there w d = None"
    "dir_at (w_tree w) (butlast d)"
  shows "\<exists>w'. copy_path s d w = (Inr (), w')"
proof -
  have d: "d \<noteq> []" using assms(4) by (auto simp: apart_def)
  have b: "clean (butlast d)" using assms(3) by (rule clean_butlast)
  show ?thesis
  proof (cases n)
    case (NDir es)
    then have "is_dir w s" "at w s = Some (NDir es)" "\<not> exists w d" "parent_ok (w_tree w) d"
      using assms dir_at_parent_ok by (simp_all add: is_dir_def exists_def at_clean)
    with assms show ?thesis by (simp add: copy_path_def copytree_ok)
  next
    case (NFile x)
    then have s: "\<not> is_dir w s" "at w s = Some (NFile x)" using assms by (simp_all add: is_dir_def at_clean)
    have "mkdirs (path_parent d) w = (Inr (), w)"
      using assms b by (simp add: mkdirs_def path_parent_def is_dir_dir_at is_file_def at_clean dir_at_def
          dir_at_parent_ok lookup_parent_ok split: option.splits node.splits)
    moreover have "copy_file s d w = write_data d x w" using s by (simp add: copy_file_def)
    moreover have "\<not> is_dir w d" using assms by (simp add: is_dir_def at_clean)
    ultimately show ?thesis using s assms d by (simp add: copy_path_def thenI_Inr write_data_ok)
  qed
qed

lemma rollback_at_ok:
  assumes "no_fault w" "clean t" "clean b" "apart t b" "there w t = Some m" "had \<Longrightarrow> there w b = Some n"
  shows "\<exists>a w'. rollback_at t b had w = (Inr a, w') \<and> no_fault w' \<and> there w' t = (if had then Some n else None)
    \<and> (\<forall>q. apart t q \<longrightarrow> there w' q = there w q)"
proof -
  have "t \<noteq> []" using assms(4) by (auto simp: apart_def)
  with assms obtain w1 where r: "remove_path t w = (Inr (), w1)" "no_fault w1" "there w1 t = None"
    "dir_at (w_tree w1) (butlast t)" using remove_path_ok by blast
  have f: "there w1 q = there w q" if "apart t q" for q
    using only_underD [OF remove_path_frame [OF assms(2)] that, of w] r(1) by simp
  show ?thesis
  proof (cases had)
    case True
    with assms have b: "there w1 b = Some n" "exists w b" using f [of b] by (simp_all add: exists_def at_clean)
    obtain w2 where c: "copy_path b t w1 = (Inr (), w2)"
      using copy_path_ok [OF r(2) assms(3,2) apart_sym [OF assms(4)] b(1) r(3,4)] by blast
    have "there w2 t = Some n" using copy_path_Inr [OF assms(3,2) apart_sym [OF assms(4)] c] b by simp
    moreover have "there w2 q = there w q" if "apart t q" for q
      using only_underD [OF copy_path_frame [OF assms(2)] that, of b w1] c f [OF that] by simp
    moreover have "no_fault w2" using calmD [OF calm_copy_path r(2) c] .
    moreover have "rollback_at t b had w = (Inr ''restored_backup'', w2)"
      using True b r(1) c by (simp add: rollback_at_def bindI_def thenI_def askI_def returnI_def)
    ultimately show ?thesis using True by (intro exI [of _ "''restored_backup''"] exI [of _ w2]) simp
  next
    case False
    then have "rollback_at t b had w = (Inr ''removed_new_install'', w1)"
      using r(1) by (simp add: rollback_at_def bindI_def thenI_def askI_def returnI_def)
    then show ?thesis using r f False by auto
  qed
qed

text \<open>The items of a run do not get in each other's way.\<close>

fun separate :: "string \<Rightarrow> (path \<times> path \<times> path) list \<Rightarrow> bool" where
  "separate apply_id [] = True"
| "separate apply_id ((s, t, b) # ps) =
     (install_layout s t (temp_target t apply_id) b
      \<and> list_all (\<lambda>(s', t', b'). list_all (\<lambda>p. list_all (apart p) [t', temp_target t' apply_id, b'])
           [t, temp_target t apply_id, b]) ps
      \<and> separate apply_id ps)"

definition places :: "string \<Rightarrow> (path \<times> path \<times> path) list \<Rightarrow> path list" where
  "places apply_id ps = concat (map (\<lambda>(s, t, b). [t, temp_target t apply_id, b]) ps)"

lemma separate_Cons_apart:
  "separate i ((s, t, b) # ps) \<Longrightarrow> p \<in> {t, temp_target t i, b} \<Longrightarrow> q \<in> set (places i ps) \<Longrightarrow> apart q p"
  by (fastforce simp: places_def list_all_iff dest: apart_sym)

lemma separate_target_places: "(s, t, b) \<in> set ps \<Longrightarrow> t \<in> set (places i ps)"
  by (force simp: places_def)

definition requested :: "(path \<times> path \<times> path) list \<Rightarrow> pydict list \<Rightarrow> bool" where
  "requested ps items = list_all2 (\<lambda>p i. install_paths i = Inr p \<and> truthy (dget i ''allowed'')) ps items"

lemma mapI_append: "mapI f (xs @ ys) = bindI (mapI f xs) (\<lambda>a. bindI (mapI f ys) (\<lambda>b. returnI (a @ b)))"
proof (induction xs)
  case Nil
  show ?case by (rule ext) (auto simp: bindI_def returnI_def split: prod.splits sum.splits)
next
  case (Cons x xs)
  show ?case by (rule ext) (auto simp: Cons.IH bindI_def returnI_def split: prod.splits sum.splits)
qed

lemma apply_items_acc:
  "apply_items items i acc w = ((applied, err), w') \<Longrightarrow> \<exists>rs. applied = acc @ rs"
  by (induction items i acc w rule: apply_items.induct) (fastforce split: if_splits prod.splits sum.splits)+

lemma rollback_item_install_result:
  assumes "plain_path t" "plain_path b"
  shows "rollback_item (install_result item s t b had) = bindI (rollback_at t b had)
    (\<lambda>action. returnI [(''key'', dget item ''key''), (''skill_id'', dget item ''skill_id''),
       (''target_path'', PStr (path_str t)), (''action'', PStr action)])"
  using assms by (simp add: rollback_item_def install_result_def dindex_def path_of_path_str bindI_def liftI_def fun_eq_iff)

lemma install_paths_plain: "install_paths i = Inr (s, t, b) \<Longrightarrow> plain_path s \<and> plain_path t \<and> plain_path b"
  by (auto simp: install_paths_def plain_path_of)

lemma apply_item_Inr:
  assumes "install_paths i = Inr (s, t, b)" "install_layout s t (temp_target t aid) b" "no_fault w"
    "apply_item i aid w = (Inr r, w')"
  shows "no_fault w'" "r = install_result i s t b (there w t \<noteq> None)" "\<exists>n. there w' t = Some n"
    "there w t = Some old \<Longrightarrow> there w' b = Some old"
    "apart t q \<Longrightarrow> apart (temp_target t aid) q \<Longrightarrow> apart b q \<Longrightarrow> there w' q = there w q"
proof -
  from assms(1,4) obtain had where h: "install_at s t b aid w = (Inr had, w')" "r = install_result i s t b had"
    by (auto simp: apply_item_def io_Inr)
  from h(1) have "is_dir w s" by (auto simp: install_at_def io_Inr split: if_splits)
  then obtain n where n: "there w s = Some n"
    using assms(2) by (auto simp: is_dir_def at_clean install_layout_def split: option.splits)
  note e = ensures_Inr [OF install_at_ensures [OF assms(2), of "there w t" n] _ h(1)]
  show "no_fault w'" by (rule calmD [OF calm_install_at assms(3) h(1)])
  show "r = install_result i s t b (there w t \<noteq> None)" "\<exists>n. there w' t = Some n" using e n h(2) by simp_all
  show "there w t = Some old \<Longrightarrow> there w' b = Some old" using e n by simp
  show "apart t q \<Longrightarrow> apart (temp_target t aid) q \<Longrightarrow> apart b q \<Longrightarrow> there w' q = there w q"
    using install_at_frame [OF assms(2), of q w] h(1) by simp
qed

lemma rollback_chain:
  assumes "separate aid ps" "requested ps items" "no_fault w"
    "apply_items items aid acc w = ((acc @ rs, None), w1)"
  shows "no_fault w1 \<and> (\<exists>acts w2. mapI rollback_item (rev rs) w1 = (Inr acts, w2) \<and> no_fault w2
    \<and> (\<forall>(s, t, b) \<in> set ps. there w2 t = there w t)
    \<and> (\<forall>q. (\<forall>p \<in> set (places aid ps). apart p q) \<longrightarrow> there w2 q = there w q))"
  using assms
proof (induction ps arbitrary: items w acc rs)
  case Nil
  then show ?case by (auto simp: requested_def returnI_def)
next
  case (Cons p ps)
  obtain s t b where p: "p = (s, t, b)" by (cases p)
  from Cons.prems(2) p obtain i its where i: "items = i # its" "install_paths i = Inr (s, t, b)"
    "truthy (dget i ''allowed'')" "requested ps its" by (auto simp: requested_def list_all2_Cons1)
  from Cons.prems(1) p have lay: "install_layout s t (temp_target t aid) b" and sep: "separate aid ps" by simp_all
  let ?here = "{t, temp_target t aid, b}"
  have ap: "apart q r" "apart r q" if "r \<in> ?here" "q \<in> set (places aid ps)" for q r
    using separate_Cons_apart [OF Cons.prems(1) [unfolded p] that] by (auto dest: apart_sym)
  from Cons.prems(4) i obtain r wa where a: "apply_item i aid w = (Inr r, wa)"
    "apply_items its aid (acc @ [r]) wa = ((acc @ rs, None), w1)"
    by (auto split: prod.splits sum.splits)
  from apply_items_acc [OF a(2)] obtain rs' where rs: "rs = r # rs'" by auto
  note I = apply_item_Inr [OF i(2) lay Cons.prems(3) a(1)]
  from Cons.IH [OF sep i(4) I(1), of "acc @ [r]" rs'] a(2) rs obtain acts w2 where
    n1: "no_fault w1" and m: "mapI rollback_item (rev rs') w1 = (Inr acts, w2)" "no_fault w2"
    and bk: "\<forall>(s, t, b) \<in> set ps. there w2 t = there wa t"
    and rest: "\<forall>q. (\<forall>p \<in> set (places aid ps). apart p q) \<longrightarrow> there w2 q = there wa q" by auto
  have here: "there w2 q = there wa q" if "q \<in> ?here" for q using rest ap [OF that] by blast
  from I(3) here obtain m where t2: "there w2 t = Some m" by auto
  have b2: "there w2 b = Some (the (there w t))" if "there w t \<noteq> None"
    using I(4) here that by auto
  have c: "clean t" "clean b" "apart t b" using lay by (auto simp: install_layout_def)
  obtain act w3 where k: "rollback_at t b (there w t \<noteq> None) w2 = (Inr act, w3)" "no_fault w3"
    "there w3 t = there w t" "\<forall>q. apart t q \<longrightarrow> there w3 q = there w2 q"
    using rollback_at_ok [OF m(2) c t2, of "there w t \<noteq> None", OF b2] by (cases "there w t") auto
  have pl: "plain_path t" "plain_path b" using install_paths_plain [OF i(2)] by simp_all
  have "\<exists>acts'. mapI rollback_item (rev rs) w1 = (Inr acts', w3)"
    using m(1) k(1) I(2) rollback_item_install_result [OF pl]
    by (simp add: rs mapI_append bindI_def returnI_def)
  moreover have "there w3 t' = there w t'" if "(s', t', b') \<in> set ps" for s' t' b'
  proof -
    have "t' \<in> set (places aid ps)" using that by (rule separate_target_places)
    then have "apart t t'" "apart (temp_target t aid) t'" "apart b t'" using ap by blast+
    with k(4) I(5) bk that show ?thesis by fastforce
  qed
  moreover have "there w3 q = there w q" if "\<forall>p \<in> set (places aid ((s, t, b) # ps)). apart p q" for q
    using that k(4) I(5) rest by (simp add: places_def)
  ultimately show ?case using n1 k(2,3) p by auto
qed

text \<open>C5: a run can be undone: when all requested installations have succeeded, rolling the record
  back (in reverse order) succeeds, puts at every target exactly what was there before the run (the
  old version, or nothing), and leaves everything away from the run's own places as it was.\<close>

theorem rollback_restores_what_a_run_replaced:
  assumes "separate apply_id ps" and "requested ps items" and "no_fault w"
    and "apply_items items apply_id [] w = ((applied, None), w1)"
  shows "\<exists>acts w2. mapI rollback_item (rev applied) w1 = (Inr acts, w2)
    \<and> (\<forall>(source, target, backup) \<in> set ps. there w2 target = there w target)
    \<and> (\<forall>q. (\<forall>p \<in> set (places apply_id ps). apart p q) \<longrightarrow> there w2 q = there w q)"
  using rollback_chain [of apply_id ps items w "[]" applied w1] assms by auto

definition demo_item2 :: pydict where
  "demo_item2 = [(''key'', PStr ''k2''), (''skill_id'', PStr ''n''), (''content_hash'', PStr ''h2''),
     (''source_path'', PStr ''/t/a''), (''target_path'', PStr ''/r/n''), (''backup_path'', PStr ''/b/1/n''),
     (''allowed'', PBool True)]"

definition demo_places :: "(path \<times> path \<times> path) list" where
  "demo_places = [([''t'', ''a''], [''r'', ''a''], [''b'', ''1'', ''a'']), ([''t'', ''a''], [''r'', ''n''], [''b'', ''1'', ''n''])]"

theorem rollback_restores_what_a_run_replaced_witness:
  "\<exists>applied w1 acts w2. apply_items [demo_item, demo_item2] ''1'' [] (demo_install_world None) = ((applied, None), w1)
     \<and> there w1 [''r'', ''a''] = Some demo_new \<and> there w1 [''r'', ''n''] = Some demo_new
     \<and> mapI rollback_item (rev applied) w1 = (Inr acts, w2)
     \<and> there w2 [''r'', ''a''] = Some demo_old \<and> there w2 [''r'', ''n''] = None"
proof -
  let ?w = "demo_install_world None"
  have "case apply_items [demo_item, demo_item2] ''1'' [] ?w of ((applied, err), w1) \<Rightarrow> err = None
      \<and> there w1 [''r'', ''a''] = Some demo_new \<and> there w1 [''r'', ''n''] = Some demo_new"
    by code_simp
  then obtain applied w1 where a: "apply_items [demo_item, demo_item2] ''1'' [] ?w = ((applied, None), w1)"
    "there w1 [''r'', ''a''] = Some demo_new" "there w1 [''r'', ''n''] = Some demo_new"
    by (auto split: prod.splits)
  have s: "separate ''1'' demo_places" by code_simp
  have r: "requested demo_places [demo_item, demo_item2]"
    unfolding requested_def demo_places_def list.rel_inject by (intro conjI; code_simp)
  have n: "no_fault ?w" by (simp add: demo_install_world_def)
  from rollback_restores_what_a_run_replaced [OF s r n a(1)] obtain acts w2 where
    "mapI rollback_item (rev applied) w1 = (Inr acts, w2)"
    "\<forall>(source, target, backup) \<in> set demo_places. there w2 target = there ?w target" by blast
  then show ?thesis using a by (intro exI [of _ applied] exI [of _ w1] exI [of _ acts] exI [of _ w2])
      (simp add: demo_places_def demo_install_world_def)
qed

section \<open>The record of a run\<close>

lemma step_kind: "step_at p f w = (Inl e, w') \<Longrightarrow> exn_kind e = OSError" "step_clean f w = (Inl e, w') \<Longrightarrow> exn_kind e = OSError"
  by (auto simp: step_at_def step_clean_def io_fault_def split: prod.splits option.splits)

lemma mkdirs_kind: "mkdirs p w = (Inl e, w') \<Longrightarrow> exn_kind e = OSError"
  by (auto simp: mkdirs_def Let_def os_error_def split: if_splits dest: step_kind)

lemma write_data_kind: "write_data p d w = (Inl e, w') \<Longrightarrow> exn_kind e = OSError"
  by (auto simp: write_data_def Let_def os_error_def split: if_splits dest: step_kind)

lemma thenI_eq_Inl: "thenI m k w = (Inl e, w2) \<longleftrightarrow> m w = (Inl e, w2) \<or> (\<exists>x w1. m w = (Inr x, w1) \<and> k w1 = (Inl e, w2))"
  by (auto simp: thenI_def bindI_def split: prod.splits sum.splits)

lemma write_apply_record_Inr:
  assumes "clean p" "write_apply_record rec p a s w = (Inr r, w')"
  shows "r = closed_record rec p a s \<and> there w' p = Some (NFile (Json (PDict r)))"
  using assms by (auto simp: write_apply_record_def Let_def io_Inr dest: write_data_Inr)

lemma write_apply_record_Inl: "write_apply_record rec p a s w = (Inl e, w') \<Longrightarrow> exn_kind e = OSError"
  by (auto simp: write_apply_record_def Let_def thenI_eq_Inl returnI_def dest: mkdirs_kind write_data_kind)

lemma fail_run_Inl:
  assumes "clean p" "fail_run rec p a s now e0 w = (r, w')"
  shows "\<exists>e. r = Inl e \<and> (exn_kind e = OSError \<or>
    (exn_kind e = ApplyError \<and> exn_text e = exn_text e0
      \<and> there w' p = Some (NFile (Json (PDict (closed_record (failed_record rec e0 now) p a s))))))"
proof (cases "write_apply_record (failed_record rec e0 now) p a s w")
  case (Pair q w1)
  show ?thesis
  proof (cases q)
    case (Inl e)
    with Pair assms write_apply_record_Inl show ?thesis by (fastforce simp: fail_run_def thenI_Inl)
  next
    case (Inr x)
    with Pair assms write_apply_record_Inr [OF assms(1) Pair [unfolded Inr]]
    show ?thesis by (cases e0) (auto simp: fail_run_def thenI_Inr raiseI_def as_apply_error_def)
  qed
qed

lemma dget_closed: "k \<notin> {''total_applied'', ''total_skipped'', ''record_path''} \<Longrightarrow> dget (closed_record rec p a s) k = dget rec k"
  by (simp add: closed_record_def)

lemma dget_failed: "dget (failed_record rec e now) ''status'' = PStr ''failed''"
  "dget (failed_record rec e now) ''error'' = PStr (exn_text e)"
  by (simp_all add: failed_record_def)

lemma apply_items_count:
  "apply_items items aid acc w = ((applied, None), w') \<Longrightarrow>
     length applied = length acc + length (filter (\<lambda>i. truthy (dget i ''allowed'')) items)"
  by (induction items aid acc w rule: apply_items.induct) (auto split: if_splits prod.splits sum.splits)

text \<open>a run always accounts for itself: when it returns, the record on disk is the one returned, it
  says complete and counts one installation per allowed item; when it raises an \<open>ApplyError\<close>, the
  record on disk says failed and carries the same error (only an \<open>OSError\<close> from writing the record
  itself can leave no record).\<close>

theorem run_accounts_for_itself:
  assumes "clean backup_root" and "run_items items plan apply_id backup_root created_at now skipped w = (r, w')"
  shows "(\<forall>rec. r = Inr rec \<longrightarrow>
        there w' (backup_root @ [''.apply-record.json'']) = Some (NFile (Json (PDict rec)))
      \<and> dget rec ''status'' = PStr ''complete''
      \<and> dget rec ''total_applied'' = PInt (int (length (filter (\<lambda>i. truthy (dget i ''allowed'')) items)))
      \<and> dget rec ''total_skipped'' = PInt (int (length skipped)))
    \<and> (\<forall>e. r = Inl e \<longrightarrow> exn_kind e = OSError \<or>
        (exn_kind e = ApplyError \<and> (\<exists>rec. there w' (backup_root @ [''.apply-record.json'']) = Some (NFile (Json (PDict rec)))
          \<and> dget rec ''status'' = PStr ''failed'' \<and> dget rec ''error'' = PStr (exn_text e))))"
proof -
  let ?p = "backup_root @ [''.apply-record.json'']"
  let ?rec = "apply_record plan apply_id backup_root created_at"
  have c: "clean ?p" using assms(1) by simp
  have failed: "\<exists>e. r = Inl e \<and> (exn_kind e = OSError \<or>
        (exn_kind e = ApplyError \<and> (\<exists>rec. there w' ?p = Some (NFile (Json (PDict rec)))
          \<and> dget rec ''status'' = PStr ''failed'' \<and> dget rec ''error'' = PStr (exn_text e))))"
    if "fail_run rc ?p a skipped now e0 w1 = (r, w')" for rc a e0 w1
    using fail_run_Inl [OF c that] by (auto simp: dget_closed dget_failed)
  obtain m w1 where m: "mkdirs backup_root w = (m, w1)" by (cases "mkdirs backup_root w")
  show ?thesis
  proof (cases m)
    case (Inl e)
    with m assms(2) failed show ?thesis by (fastforce simp: run_items_def Let_def)
  next
    case (Inr u)
    obtain applied err w2 where a: "apply_items items apply_id [] w1 = ((applied, err), w2)"
      by (metis surj_pair)
    show ?thesis
    proof (cases err)
      case (Some e)
      with m Inr a assms(2) failed show ?thesis by (fastforce simp: run_items_def Let_def)
    next
      case None
      let ?d = "complete_record (?rec applied skipped) now"
      obtain q w3 where q: "write_apply_record ?d ?p applied skipped w2 = (q, w3)" by (metis surj_pair)
      show ?thesis
      proof (cases q)
        case (Inl e)
        with m Inr a None q assms(2) have "fail_run ?d ?p applied skipped now e w3 = (r, w')"
          by (simp add: run_items_def Let_def catchI_def)
        with failed show ?thesis by fastforce
      next
        case (Inr rc)
        with m \<open>m = Inr u\<close> a None q assms(2) have "r = Inr rc" "w' = w3"
          by (simp_all add: run_items_def Let_def catchI_def)
        with write_apply_record_Inr [OF c q [unfolded Inr]] apply_items_count [OF a [unfolded None]]
        show ?thesis by (simp add: closed_record_def complete_record_def)
      qed
    qed
  qed
qed

theorem run_accounts_for_itself_witness:
  "\<exists>rec w'. run_items [demo_item, demo_item2] [] ''1'' [''b'', ''1''] ''t0'' ''t1'' [] (demo_install_world None) = (Inr rec, w')
     \<and> there w' [''b'', ''1'', ''.apply-record.json''] = Some (NFile (Json (PDict rec))) \<and> dget rec ''total_applied'' = PInt 2"
proof -
  let ?run = "run_items [demo_item, demo_item2] [] ''1'' [''b'', ''1''] ''t0'' ''t1'' [] (demo_install_world None)"
  have "case fst ?run of Inl e \<Rightarrow> False | Inr rec \<Rightarrow> True" by code_simp
  then obtain rec w' where r: "?run = (Inr rec, w')" by (cases ?run) (auto split: sum.splits)
  have "clean [''b'', ''1'']" by simp
  from run_accounts_for_itself [OF this r] r show ?thesis by (auto simp: demo_item_def demo_item2_def)
qed

section \<open>What a plan allows\<close>

definition scope_fits :: "string \<Rightarrow> string \<Rightarrow> bool" where
  "scope_fits target scope =
     (if target = ''mixed-scope-root'' then scope \<in> set [''global'', ''project'']
      else if target = ''codex-project'' then scope = ''project''
      else scope = ''global'')"

definition tool_aliases :: "string \<Rightarrow> string list" where
  "tool_aliases target =
     (if target = ''codex-project'' then [''codex'']
      else case map_of (global_tool_targets []) target of Some c \<Rightarrow> tt_aliases c | None \<Rightarrow> [])"

lemma global_targets_aliases:
  "map_of (global_tool_targets home) target = Some c \<Longrightarrow>
     tt_scopes c = [''global''] \<and> tool_aliases target = tt_aliases c \<and> target \<noteq> ''mixed-scope-root'' \<and> target \<noteq> ''codex-project''"
  by (auto simp: global_tool_targets_def tool_at_def tool_aliases_def split: if_splits)

lemma target_layout_allowance:
  assumes "target_layout home target troot proot ids aid = Inr (root, br, allow)"
  shows "fst (allow i s ts) \<longleftrightarrow> selected i ids \<and> scope_fits target s
      \<and> (target = ''mixed-scope-root'' \<or> targets_tool ts (tool_aliases target))"
    and "fst (allow i s ts) \<longleftrightarrow> snd (allow i s ts) = None"
proof -
  consider (tool) c where "map_of (global_tool_targets home) target = Some c"
      "allow = (\<lambda>i s ts. global_tool_allowance i s ts c ids)"
    | (mixed) "target = ''mixed-scope-root''"
      "allow = (\<lambda>i s ts. (selected i ids \<and> s \<in> set [''global'', ''project''], mixed_scope_skip_reason s (selected i ids)))"
    | (project) "target = ''codex-project''"
      "allow = (\<lambda>i s ts. (selected i ids \<and> s = ''project'' \<and> targets_tool ts [''codex''],
                    codex_project_skip_reason s (selected i ids) (targets_tool ts [''codex''])))"
    using assms by (auto simp: target_layout_def Let_def split: option.splits if_splits)
  then have "(fst (allow i s ts) \<longleftrightarrow> selected i ids \<and> scope_fits target s
      \<and> (target = ''mixed-scope-root'' \<or> targets_tool ts (tool_aliases target)))
    \<and> (fst (allow i s ts) \<longleftrightarrow> snd (allow i s ts) = None)"
  proof (cases)
    case tool
    then show ?thesis using global_targets_aliases [of home target c]
      by (auto simp: global_tool_allowance_def scope_fits_def)
  qed (auto simp: scope_fits_def mixed_scope_skip_reason_def codex_project_skip_reason_def tool_aliases_def)
  then show "fst (allow i s ts) \<longleftrightarrow> selected i ids \<and> scope_fits target s
      \<and> (target = ''mixed-scope-root'' \<or> targets_tool ts (tool_aliases target))"
    and "fst (allow i s ts) \<longleftrightarrow> snd (allow i s ts) = None" by blast+
qed

text \<open>a plan installs what fits and nothing else: an item is allowed exactly when its id is
  selected, its scope is one the target takes (project-scoped skills never go to a global root) and
  its targets name the tool or nobody; an item has a reason exactly when it is skipped, its action
  says which, and each staged skill gives one item.\<close>

theorem apply_plan_allows_what_fits:
  assumes "apply_plan_items home stage_index target target_root project_root ids apply_id = Inr (root, backup_root, items)"
  shows "(\<forall>i \<in> set items. (ap_allowed i \<longleftrightarrow> selected (ap_skill_id i) (apply_skill_ids ids) \<and> scope_fits target (ap_scope i)
          \<and> (target = ''mixed-scope-root'' \<or> targets_tool (ap_targets i) (tool_aliases target)))
      \<and> (ap_allowed i \<longleftrightarrow> ap_reason i = None)
      \<and> ap_action i = (if ap_allowed i then ''install_or_replace'' else ''skip'')
      \<and> ap_target_path i = path_str (path_div root (ap_skill_id i)))
    \<and> (\<exists>skills. py_iter (dget_or stage_index ''skills'' (PList [])) = Inr skills \<and> length items = length skills)"
proof -
  from assms obtain allow skills where
    l: "target_layout home target target_root project_root (apply_skill_ids ids) apply_id = Inr (root, backup_root, allow)"
    and s: "py_iter (dget_or stage_index ''skills'' (PList [])) = Inr skills"
    and m: "mapR (plan_staged allow root backup_root) skills = Inr items"
    by (auto simp: apply_plan_items_def)
  have "(ap_allowed i \<longleftrightarrow> selected (ap_skill_id i) (apply_skill_ids ids) \<and> scope_fits target (ap_scope i)
          \<and> (target = ''mixed-scope-root'' \<or> targets_tool (ap_targets i) (tool_aliases target)))
      \<and> (ap_allowed i \<longleftrightarrow> ap_reason i = None)
      \<and> ap_action i = (if ap_allowed i then ''install_or_replace'' else ''skip'')
      \<and> ap_target_path i = path_str (path_div root (ap_skill_id i))" if "i \<in> set items" for i
  proof -
    from mapR_mem [OF m that] obtain sk where "plan_staged allow root backup_root sk = Inr i" by blast
    then have f: "ap_allowed i = fst (allow (ap_skill_id i) (ap_scope i) (ap_targets i))"
      "ap_reason i = snd (allow (ap_skill_id i) (ap_scope i) (ap_targets i))"
      "ap_action i = (if ap_allowed i then ''install_or_replace'' else ''skip'')"
      "ap_target_path i = path_str (path_div root (ap_skill_id i))"
      by (auto simp: plan_staged_def Let_def split_beta)
    show ?thesis unfolding f using target_layout_allowance [OF l] by simp
  qed
  moreover have "length items = length skills" using m by (rule mapR_length)
  ultimately show ?thesis using s by blast
qed

text \<open>The staged id is used as a path below the root without being sanitised: an id that climbs is
  planned, allowed, outside the root.\<close>

theorem apply_plan_allows_what_fits_witness:
  "\<exists>items. apply_plan_items [''h''] [(''skills'', PList [PDict [(''skill_id'', PStr ''a''), (''scope'', PStr ''global'')],
        PDict [(''skill_id'', PStr ''../../x''), (''scope'', PStr ''global'')],
        PDict [(''skill_id'', PStr ''p''), (''scope'', PStr ''project'')]])] ''codex-global'' None None [] ''1''
      = Inr ([''h'', ''.codex'', ''skills''], [''h'', ''.codex'', ''skills'', ''.skill-sync-backups'', ''1''], items)
    \<and> map ap_allowed items = [True, True, False] \<and> length items = 3
    \<and> map (norm_path \<circ> path_of \<circ> ap_target_path) items = [[''h'', ''.codex'', ''skills'', ''a''], [''h'', ''x''], [''h'', ''.codex'', ''skills'', ''p'']]"
proof -
  let ?ix = "[(''skills'', PList [PDict [(''skill_id'', PStr ''a''), (''scope'', PStr ''global'')],
        PDict [(''skill_id'', PStr ''../../x''), (''scope'', PStr ''global'')],
        PDict [(''skill_id'', PStr ''p''), (''scope'', PStr ''project'')]])]"
  let ?r = "apply_plan_items [''h''] ?ix ''codex-global'' None None [] ''1''"
  have "case ?r of Inl e \<Rightarrow> False | Inr (root, br, items) \<Rightarrow> root = [''h'', ''.codex'', ''skills'']
      \<and> br = [''h'', ''.codex'', ''skills'', ''.skill-sync-backups'', ''1''] \<and> map ap_allowed items = [True, True, False]
      \<and> map (norm_path \<circ> path_of \<circ> ap_target_path) items = [[''h'', ''.codex'', ''skills'', ''a''], [''h'', ''x''], [''h'', ''.codex'', ''skills'', ''p'']]"
    by code_simp
  then obtain items where r: "?r = Inr ([''h'', ''.codex'', ''skills''], [''h'', ''.codex'', ''skills'', ''.skill-sync-backups'', ''1''], items)"
    "map ap_allowed items = [True, True, False]"
    "map (norm_path \<circ> path_of \<circ> ap_target_path) items = [[''h'', ''.codex'', ''skills'', ''a''], [''h'', ''x''], [''h'', ''.codex'', ''skills'', ''p'']]"
    by (auto split: sum.splits)
  from apply_plan_allows_what_fits [OF r(1)] have "length items = 3" by simp
  with r show ?thesis by (intro exI [of _ items] conjI)
qed

end
