(* ===== verification/Remote.thy ===== *)
theory Remote
  imports Apply
begin

text \<open>
  \<open>remote.py\<close>: the remote store the central library lives on. A remote is the record of the
  operations that the callers use; \<open>file_remote\<close> is the store below a directory. The WebDAV client
  is modelled up to the network: \<open>urlopen\<close> is a parameter, its request loop, its addresses and its
  reading, writing and directory operations are the code's (the XML listing is not modelled).
\<close>

section \<open>Names on a remote\<close>

definition join_remote_path :: "string \<Rightarrow> string \<Rightarrow> string" where
  "join_remote_path pre p =
     (let left = strip_set ''/'' pre; right = strip_set ''/'' p in
      if left \<noteq> [] \<and> right \<noteq> [] then left @ ''/'' @ right
      else if left \<noteq> [] then left else right)"

text \<open>\<open>str(PurePosixPath(p).parent)\<close> for a relative path.\<close>

definition posix_parent :: "string \<Rightarrow> string" where
  "posix_parent p = (let cs = butlast (path_of p) in if cs = [] then ''.'' else join_str ''/'' cs)"

section \<open>The operations of a remote\<close>

record remote =
  rm_exists :: "string \<Rightarrow> bool io"
  rm_get :: "string \<Rightarrow> fdata io"
  rm_put :: "string \<Rightarrow> fdata \<Rightarrow> unit io"
  rm_ensure_dir :: "string \<Rightarrow> unit io"

record remote_entry =
  re_path :: string
  re_kind :: string
  re_size :: "int option"

section \<open>A remote below a directory\<close>

definition file_path :: "path \<Rightarrow> string \<Rightarrow> path res" where
  "file_path root p =
     (let target = norm_path (path_div root (strip_set ''/'' p)) in
      if prefix root target then Inr target
      else Inl (Exn RemoteError (''Path escapes file remote root: '' @ p)))"

definition file_exists :: "path \<Rightarrow> string \<Rightarrow> bool io" where
  "file_exists root p = bindI (liftI (file_path root p)) (\<lambda>t. askI (\<lambda>w. exists w t))"

text \<open>Reading turns an \<open>OSError\<close> into a \<open>RemoteError\<close>.\<close>

definition file_get :: "path \<Rightarrow> string \<Rightarrow> fdata io" where
  "file_get root p =
     catchI (bindI (liftI (file_path root p)) read_data)
       (\<lambda>e. raiseI (if exn_kind e = OSError then Exn RemoteError (exn_text e) else e))"

definition file_put :: "path \<Rightarrow> string \<Rightarrow> fdata \<Rightarrow> unit io" where
  "file_put root p d = bindI (liftI (file_path root p)) (\<lambda>t. thenI (mkdirs (path_parent t)) (write_data t d))"

definition file_ensure_dir :: "path \<Rightarrow> string \<Rightarrow> unit io" where
  "file_ensure_dir root p = bindI (liftI (file_path root p)) mkdirs"

definition rel_posix :: "path \<Rightarrow> path \<Rightarrow> string" where
  "rel_posix root p = (let r = drop (length root) p in if r = [] then ''.'' else join_str ''/'' r)"

definition file_list :: "host \<Rightarrow> path \<Rightarrow> string \<Rightarrow> remote_entry list io" where
  "file_list H root p =
     bindI (liftI (file_path root p)) (\<lambda>t. askI (\<lambda>w. case at w t of
         None \<Rightarrow> []
       | Some (NFile d) \<Rightarrow> [\<lparr>re_path = rel_posix root t, re_kind = ''file'', re_size = Some (h_size H d)\<rparr>]
       | Some (NDir es) \<Rightarrow> map (\<lambda>(n, m). \<lparr>re_path = rel_posix root (t @ [n]),
             re_kind = (case m of NDir _ \<Rightarrow> ''dir'' | NFile _ \<Rightarrow> ''file''),
             re_size = (case m of NDir _ \<Rightarrow> None | NFile d \<Rightarrow> Some (h_size H d))\<rparr>) (sort_items es)))"

definition file_remote :: "path \<Rightarrow> remote" where
  "file_remote root = \<lparr>rm_exists = file_exists root, rm_get = file_get root, rm_put = file_put root,
     rm_ensure_dir = file_ensure_dir root\<rparr>"

section \<open>A remote behind WebDAV\<close>

datatype http_reply = Body fdata | HttpError nat string | NetError string

record http_request =
  hq_method :: string
  hq_url :: string
  hq_data :: "fdata option"

text \<open>\<open>urllib.parse.quote\<close> of one path component.\<close>

definition upper_hex :: "nat \<Rightarrow> char" where
  "upper_hex n = (if n < 10 then char_of (48 + n) else char_of (55 + n))"

definition quote_component :: "string \<Rightarrow> string" where
  "quote_component s = concat (map (\<lambda>c. if is_alnum c \<or> c \<in> set ''_.-~'' then [c]
     else [CHR 0x25, upper_hex (of_char c div 16), upper_hex (of_char c mod 16)]) s)"

definition dav_url :: "string \<Rightarrow> string \<Rightarrow> string" where
  "dav_url base p =
     (rstrip_set ''/'' base @ ''/'') @ join_str ''/'' (map quote_component (filter (\<lambda>c. c \<noteq> []) (split_on CHR 0x2F (strip_set ''/'' p))))"

text \<open>The request loop over the network \<open>urlopen\<close> and its state: an HTTP error ends it, a network
  error is tried again while attempts are left.\<close>

fun request_loop :: "(http_request \<Rightarrow> 's \<Rightarrow> http_reply \<times> 's) \<Rightarrow> string \<Rightarrow> http_request \<Rightarrow> nat \<Rightarrow> 's \<Rightarrow> fdata res \<times> 's" where
  "request_loop urlopen p rq 0 s =
     (Inl (Exn RemoteError (''Network error for '' @ hq_method rq @ '' '' @ p @ '': retry loop exhausted'')), s)"
| "request_loop urlopen p rq (Suc left) s =
     (case urlopen rq s of
        (Body d, s') \<Rightarrow> (Inr d, s')
      | (HttpError code reason, s') \<Rightarrow>
          (Inl (Exn RemoteError (''HTTP '' @ nat_str code @ '' '' @ reason @ '' for '' @ hq_method rq @ '' '' @ p)), s')
      | (NetError reason, s') \<Rightarrow>
          (if left = 0 then (Inl (Exn RemoteError (''Network error for '' @ hq_method rq @ '' '' @ p @ '': '' @ reason)), s')
           else request_loop urlopen p rq left s'))"

definition dav_request ::
    "(http_request \<Rightarrow> 's \<Rightarrow> http_reply \<times> 's) \<Rightarrow> string \<Rightarrow> nat \<Rightarrow> string \<Rightarrow> string \<Rightarrow> fdata option \<Rightarrow> 's \<Rightarrow> fdata res \<times> 's" where
  "dav_request urlopen base retries method p data =
     request_loop urlopen p \<lparr>hq_method = method, hq_url = dav_url base p, hq_data = data\<rparr> (retries + 1)"

definition dav_get :: "(http_request \<Rightarrow> 's \<Rightarrow> http_reply \<times> 's) \<Rightarrow> string \<Rightarrow> nat \<Rightarrow> string \<Rightarrow> 's \<Rightarrow> fdata res \<times> 's" where
  "dav_get urlopen base retries p = dav_request urlopen base retries ''GET'' p None"

definition dav_put :: "(http_request \<Rightarrow> 's \<Rightarrow> http_reply \<times> 's) \<Rightarrow> string \<Rightarrow> nat \<Rightarrow> string \<Rightarrow> fdata \<Rightarrow> 's \<Rightarrow> unit res \<times> 's" where
  "dav_put urlopen base retries p d s =
     (case dav_request urlopen base retries ''PUT'' p (Some d) s of (Inl e, s') \<Rightarrow> (Inl e, s') | (Inr x, s') \<Rightarrow> (Inr (), s'))"

definition mentions :: "string \<Rightarrow> string \<Rightarrow> bool" where
  "mentions needle s = sublist needle s"

text \<open>Each directory of the path is made in turn; a server saying that it is there already, or that a
  parent conflicts, is not an error.\<close>

fun dav_make_dirs :: "(http_request \<Rightarrow> 's \<Rightarrow> http_reply \<times> 's) \<Rightarrow> string \<Rightarrow> nat \<Rightarrow> string \<Rightarrow> string list \<Rightarrow> 's \<Rightarrow> unit res \<times> 's" where
  "dav_make_dirs urlopen base retries current [] s = (Inr (), s)"
| "dav_make_dirs urlopen base retries current (part # parts) s =
     (let here = (if current \<noteq> [] then current @ ''/'' @ part else part) in
      case dav_request urlopen base retries ''MKCOL'' here None s of
        (Inr x, s') \<Rightarrow> dav_make_dirs urlopen base retries here parts s'
      | (Inl e, s') \<Rightarrow>
          (if exn_kind e = RemoteError \<and> (mentions ''HTTP 405'' (exn_text e) \<or> mentions ''HTTP 409'' (exn_text e))
           then dav_make_dirs urlopen base retries here parts s'
           else (Inl e, s')))"

definition dav_ensure_dir :: "(http_request \<Rightarrow> 's \<Rightarrow> http_reply \<times> 's) \<Rightarrow> string \<Rightarrow> nat \<Rightarrow> string \<Rightarrow> 's \<Rightarrow> unit res \<times> 's" where
  "dav_ensure_dir urlopen base retries p =
     dav_make_dirs urlopen base retries [] (filter (\<lambda>c. c \<noteq> []) (split_on CHR 0x2F (strip_set ''/'' p)))"

section \<open>Snapshots on a remote\<close>

text \<open>All files below a node, in the order of their component lists.\<close>

fun tree_files :: "path \<Rightarrow> node \<Rightarrow> path list" where
  "tree_files p (NFile d) = [p]"
| "tree_files p (NDir es) = concat (map snd (sort_items (map (\<lambda>(n, m). (n, tree_files (p @ [n]) m)) es)))"

definition build_upload_plan :: "world \<Rightarrow> path \<Rightarrow> (path \<times> string) list" where
  "build_upload_plan w snapshot_dir =
     (case at w snapshot_dir of
        Some (NDir es) \<Rightarrow> map (\<lambda>r. (snapshot_dir @ r, join_str ''/'' r)) (tree_files [] (NDir es))
      | _ \<Rightarrow> [])"

definition plan_bytes :: "host \<Rightarrow> world \<Rightarrow> (path \<times> string) list \<Rightarrow> int" where
  "plan_bytes H w files = sum_list (map (\<lambda>(p, r). case at w p of Some (NFile d) \<Rightarrow> h_size H d | _ \<Rightarrow> 0) files)"

definition store_file :: "remote \<Rightarrow> string \<Rightarrow> path \<times> string \<Rightarrow> (path \<times> string) list \<Rightarrow> (path \<times> string) list io" where
  "store_file R remote_path f uploaded =
     (let parent = posix_parent remote_path in
      thenI (if parent \<noteq> ''.'' then rm_ensure_dir R parent else returnI ())
        (bindI (read_data (fst f)) (\<lambda>d. thenI (rm_put R remote_path d) (returnI (uploaded @ [f])))))"

definition upload_file :: "remote \<Rightarrow> string \<Rightarrow> string list option \<Rightarrow> bool \<Rightarrow> path \<times> string
    \<Rightarrow> (path \<times> string) list \<Rightarrow> (path \<times> string) list io" where
  "upload_file R remote_prefix include_paths skip_existing f uploaded =
     (let rel_path = snd f; remote_path = join_remote_path remote_prefix rel_path in
      if include_paths \<noteq> None \<and> rel_path \<noteq> ''index.json'' \<and> rel_path \<notin> set (the include_paths) then returnI uploaded
      else bindI (if rel_path \<noteq> ''index.json'' \<and> skip_existing then rm_exists R remote_path else returnI False) (\<lambda>present.
        if present then returnI uploaded else store_file R remote_path f uploaded))"

definition upload_order :: "(path \<times> string) list \<Rightarrow> (path \<times> string) list" where
  "upload_order files = sort_key (\<lambda>f. if snd f = ''index.json'' then 1 else 0 :: nat) files"

definition upload_snapshot :: "path \<Rightarrow> remote \<Rightarrow> string \<Rightarrow> string list option \<Rightarrow> bool \<Rightarrow> (path \<times> string) list io" where
  "upload_snapshot snapshot_dir R remote_prefix include_paths skip_existing =
     bindI (askI (\<lambda>w. build_upload_plan w snapshot_dir)) (\<lambda>plan.
       foldI (upload_file R remote_prefix include_paths skip_existing) (upload_order plan) [])"

definition file_bytes :: "host \<Rightarrow> world \<Rightarrow> path \<Rightarrow> int" where
  "file_bytes H w p = (case at w p of Some (NFile d) \<Rightarrow> h_size H d | Some (NDir es) \<Rightarrow> 1 | None \<Rightarrow> 0)"

text \<open>The archive name of an entry, appended to the cache directory as it is.\<close>

definition archive_name :: "pyval \<Rightarrow> string res" where
  "archive_name v = (case v of PStr s \<Rightarrow> Inr s
     | _ \<Rightarrow> Inl (Exn TypeError (''unsupported operand type(s) for /: '' @ in_quotes ''PosixPath'' @ '' and '' @ in_quotes (type_name v))))"

definition download_archive :: "host \<Rightarrow> remote \<Rightarrow> path \<Rightarrow> string \<Rightarrow> pyval \<Rightarrow> unit \<Rightarrow> unit io" where
  "download_archive H R cache_dir remote_prefix skill_value u =
     bindI (liftI (as_dict skill_value)) (\<lambda>skill.
       if \<not> truthy (dget skill ''archive'') then returnI ()
       else bindI (liftI (archive_name (dget skill ''archive''))) (\<lambda>archive.
         let target = path_div cache_dir archive in
         bindI (askI (\<lambda>w. exists w target \<and> file_bytes H w target > 0)) (\<lambda>have_it.
           if have_it then returnI ()
           else bindI (rm_get R (join_remote_path remote_prefix archive)) (\<lambda>d.
             thenI (mkdirs (path_parent target)) (write_data target d)))))"

definition download_snapshot :: "host \<Rightarrow> remote \<Rightarrow> path \<Rightarrow> string \<Rightarrow> pydict io" where
  "download_snapshot H R cache_dir remote_prefix =
     bindI (rm_get R (join_remote_path remote_prefix ''index.json'')) (\<lambda>data.
     bindI (liftI (json_loads data)) (\<lambda>loaded.
     thenI (mkdirs cache_dir)
       (thenI (write_data (cache_dir @ [''index.json'']) (Json loaded))
         (bindI (liftI (as_dict loaded)) (\<lambda>index.
          bindI (liftI (py_iter (dget_or index ''skills'' (PList [])))) (\<lambda>skills.
            thenI (foldI (download_archive H R cache_dir remote_prefix) skills ()) (returnI index)))))))"

definition copy_snapshot_to_file_remote :: "path \<Rightarrow> path \<Rightarrow> unit io" where
  "copy_snapshot_to_file_remote snapshot_dir output_dir =
     bindI (askI (\<lambda>w. exists w output_dir)) (\<lambda>stale.
       thenI (if stale then rmtree output_dir else returnI ()) (copytree snapshot_dir output_dir))"

section \<open>A directory remote stays inside its root\<close>

lemma file_path_Inr: "file_path root p = Inr t \<Longrightarrow> prefix root t \<and> clean t"
  by (auto simp: file_path_def Let_def split: if_splits)

lemma file_put_frame: "only_under root (file_put root p d)"
  unfolding file_put_def
proof (rule only_under_bind_lift)
  fix t assume "file_path root p = Inr t"
  then have t: "prefix root t" "clean t" using file_path_Inr by blast+
  then have "\<not> apart root (norm_path (path_parent t))" "prefix root (norm_path t)"
    by (auto simp: path_parent_def clean_butlast apart_def dest: prefix_same_cases [OF _ prefixeq_butlast])
  then show "only_under root (thenI (mkdirs (path_parent t)) (write_data t d))" by (intro frame_intros)
qed

lemma file_ensure_dir_frame: "only_under root (file_ensure_dir root p)"
  unfolding file_ensure_dir_def
proof (rule only_under_bind_lift)
  fix t assume "file_path root p = Inr t"
  then have "\<not> apart root (norm_path t)" using file_path_Inr [of root p t] by (simp add: apart_def)
  then show "only_under root (mkdirs t)" by (rule only_under_mkdirs)
qed

lemma file_get_keeps: "snd (file_get root p w) = w"
  using read_data_keeps
  by (auto simp: file_get_def catchI_def bindI_def liftI_def raiseI_def split: prod.splits sum.splits) (metis snd_conv)+

text \<open>a directory remote is confined to its root: whatever path it is asked for (with \<open>..\<close>, or
  absolute), it resolves inside the root or is refused with a \<open>RemoteError\<close>; storing a file or making a
  directory, failing writes included, changes nothing apart from the root; reading changes nothing.\<close>

theorem file_remote_is_confined:
  "(case file_path root p of Inr t \<Rightarrow> prefix root t | Inl e \<Rightarrow> exn_kind e = RemoteError)
   \<and> (apart root q \<longrightarrow> there (snd (rm_put (file_remote root) p d w)) q = there w q
        \<and> there (snd (rm_ensure_dir (file_remote root) p w)) q = there w q)
   \<and> snd (rm_get (file_remote root) p w) = w"
proof -
  have "case file_path root p of Inr t \<Rightarrow> prefix root t | Inl e \<Rightarrow> exn_kind e = RemoteError"
    by (simp add: file_path_def Let_def)
  then show ?thesis
    using only_underD [OF file_put_frame, of root q p d w] only_underD [OF file_ensure_dir_frame, of root q p w]
    by (simp add: file_remote_def file_get_keeps)
qed

theorem file_remote_is_confined_witness:
  "file_path [''srv'', ''hub''] ''/../x'' = Inl (Exn RemoteError ''Path escapes file remote root: /../x'')
   \<and> there (snd (rm_put (file_remote [''srv'', ''hub'']) ''a/../../y'' (Raw ''d'') demo_stage_world)) [''home''] = Some (NFile (Raw ''h''))"
proof -
  have e: "file_path [''srv'', ''hub''] ''/../x'' = Inl (Exn RemoteError ''Path escapes file remote root: /../x'')"
    by code_simp
  have a: "apart [''srv'', ''hub''] [''home'']" by (simp add: apart_def)
  have h: "there demo_stage_world [''home''] = Some (NFile (Raw ''h''))" by (simp add: demo_stage_world_def)
  from file_remote_is_confined [of "[''srv'', ''hub'']" "''a/../../y''" "[''home'']" "Raw ''d''" demo_stage_world] a h e
  show ?thesis by (elim conjE) simp
qed

section \<open>What is stored is found\<close>

definition file_at :: "world \<Rightarrow> path \<Rightarrow> fdata option" where
  "file_at w p = (case lookup (w_tree w) p of Some (NFile d) \<Rightarrow> Some d | _ \<Rightarrow> None)"

text \<open>Making a directory changes no file; writing a file changes no file apart from it.\<close>

lemma mkdirs_file_at [simp]: "file_at (snd (mkdirs q w)) r = file_at w r"
proof (cases "prefix r (norm_path q)")
  case False
  then show ?thesis by (simp add: file_at_def mkdirs_frame)
next
  case True
  then obtain s where q: "norm_path q = r @ s" by (auto simp: prefix_def)
  have *: "file_at (w'\<lparr>w_tree := put (w_tree w) (r @ s) (NDir [])\<rparr>) r = file_at w r"
    if ok: "parent_ok (w_tree w) (r @ s)" and no: "there w (r @ s) = None \<or> s \<noteq> []" and nf: "\<forall>d. there w r = Some (NFile d) \<longrightarrow> False" for w'
  proof (cases "s = []")
    case True
    with ok no show ?thesis using lookup_put_under [of "w_tree w" r "NDir []" "[]"] by (simp add: file_at_def)
  next
    case False
    with dir_at_put_above [OF ok False, of "NDir []"] nf show ?thesis
      by (auto simp: file_at_def dir_at_def split: option.splits node.splits)
  qed
  have "\<not> parent_ok (w_tree w) (r @ s) \<or> is_file w q" if "there w r = Some (NFile d)" for d
  proof (cases "s = []")
    case True
    with that q show ?thesis by (simp add: is_file_def at_def)
  next
    case False
    have "\<not> parent_ok t (r @ s)" if "lookup t r = Some (NFile d)" for t
      using that False by (induction t r rule: lookup.induct) (auto split: option.splits, cases s, auto)
    with that show ?thesis by blast
  qed
  with * q show ?thesis
    by (cases rule: step_clean_cases [of "\<lambda>t. put t (r @ s) (NDir [])" w])
      (auto simp: mkdirs_def Let_def is_dir_def is_file_def at_def file_at_def split: option.splits node.splits)
qed

lemma write_data_file_at:
  "apart (norm_path q) r \<Longrightarrow> file_at (snd (write_data q d w)) r = file_at w r"
  using only_underD [OF only_under_write_data [OF prefix_order.refl], of q r d w] by (simp add: file_at_def)

lemma file_at_read: "clean p \<Longrightarrow> fst (read_data p w) = Inr d \<longleftrightarrow> file_at w p = Some d"
  by (auto simp: read_data_def file_at_def at_clean split: option.splits node.splits)

text \<open>
  What a client needs of a store: a value just stored is read back, and storing at one name changes
  no value at a separate name. Then a list of values stored one after the other at separate names
  is all there at the end, and a name apart from all of them still has its value.
\<close>

locale value_store =
  fixes put :: "'k \<Rightarrow> 'v \<Rightarrow> 's \<Rightarrow> 's option"
    and get :: "'k \<Rightarrow> 's \<Rightarrow> 'v option"
    and sep :: "'k \<Rightarrow> 'k \<Rightarrow> bool"
  assumes get_put: "put k v s = Some s' \<Longrightarrow> get k s' = Some v"
    and get_put_sep: "put k v s = Some s' \<Longrightarrow> sep k j \<Longrightarrow> get j s' = get j s"
    and sep_sym: "sep k j \<Longrightarrow> sep j k"
begin

fun put_all :: "('k \<times> 'v) list \<Rightarrow> 's \<Rightarrow> 's option" where
  "put_all [] s = Some s"
| "put_all ((k, v) # kvs) s = (case put k v s of None \<Rightarrow> None | Some s' \<Rightarrow> put_all kvs s')"

lemma put_all_sep:
  "put_all kvs s = Some s' \<Longrightarrow> \<forall>k \<in> fst ` set kvs. sep k j \<Longrightarrow> get j s' = get j s"
  by (induction kvs s rule: put_all.induct) (auto simp: get_put_sep split: option.splits)

lemma put_all_get:
  "put_all kvs s = Some s' \<Longrightarrow> sorted_wrt sep (map fst kvs) \<Longrightarrow> (k, v) \<in> set kvs \<Longrightarrow> get k s' = Some v"
proof (induction kvs s rule: put_all.induct)
  case (2 k1 v1 kvs s)
  then obtain s1 where s1: "put k1 v1 s = Some s1" "put_all kvs s1 = Some s'" by (auto split: option.splits)
  show ?case
  proof (cases "(k, v) \<in> set kvs")
    case True
    with 2 s1 show ?thesis by auto
  next
    case False
    with 2 have k: "k = k1" "v = v1" by auto
    have "\<forall>j \<in> fst ` set kvs. sep j k1" using 2 sep_sym by auto
    from put_all_sep [OF s1(2) this] get_put [OF s1(1)] k show ?thesis by simp
  qed
qed simp

end

definition file_put_option :: "path \<Rightarrow> string \<Rightarrow> fdata \<Rightarrow> world \<Rightarrow> world option" where
  "file_put_option root p d w = (case file_put root p d w of (Inr u, w') \<Rightarrow> Some w' | (Inl e, w') \<Rightarrow> None)"

definition file_get_option :: "path \<Rightarrow> string \<Rightarrow> world \<Rightarrow> fdata option" where
  "file_get_option root p w = (case fst (file_get root p w) of Inr d \<Rightarrow> Some d | Inl e \<Rightarrow> None)"

definition separate_names :: "path \<Rightarrow> string \<Rightarrow> string \<Rightarrow> bool" where
  "separate_names root p q = (case (file_path root p, file_path root q) of (Inr s, Inr t) \<Rightarrow> apart s t | _ \<Rightarrow> True)"

lemma file_get_option: "file_get_option root p w = (case file_path root p of Inr t \<Rightarrow> file_at w t | Inl e \<Rightarrow> None)"
  using file_at_read [of _ w]
  by (auto simp: file_get_option_def file_get_def catchI_def bindI_def liftI_def raiseI_def read_data_def file_at_def at_def
      dest!: file_path_Inr split: sum.splits prod.splits option.splits node.splits)

lemma file_put_Inr:
  assumes "file_put root p d w = (Inr u, w')" "file_path root p = Inr t"
  shows "file_at w' t = Some d" "apart t q \<Longrightarrow> file_at w' q = file_at w q"
proof -
  have c: "clean t" using file_path_Inr [OF assms(2)] by simp
  from assms obtain w1 where m: "mkdirs (path_parent t) w = (Inr (), w1)" "write_data t d w1 = (Inr u, w')"
    by (auto simp: file_put_def io_Inr)
  show "file_at w' t = Some d" using write_data_Inr [OF c m(2)] by (simp add: file_at_def)
  show "apart t q \<Longrightarrow> file_at w' q = file_at w q"
    using write_data_file_at [of t q d w1] mkdirs_file_at [of "path_parent t" w q] m c by simp
qed

interpretation dir_store: value_store "file_put_option root" "file_get_option root" "separate_names root"
proof unfold_locales
  fix k j :: string and v :: fdata and s s' :: world
  assume "file_put_option root k v s = Some s'"
  then obtain u where u: "file_put root k v s = (Inr u, s')" by (auto simp: file_put_option_def split: prod.splits sum.splits)
  then obtain t where t: "file_path root k = Inr t" by (cases "file_path root k") (auto simp: file_put_def bindI_def liftI_def)
  show "file_get_option root k s' = Some v" using file_put_Inr(1) [OF u t] t by (simp add: file_get_option)
  show "separate_names root k j \<Longrightarrow> file_get_option root j s' = file_get_option root j s"
    using file_put_Inr(2) [OF u t] t by (auto simp: file_get_option separate_names_def split: sum.splits)
next
  fix k j :: string
  show "separate_names root k j \<Longrightarrow> separate_names root j k"
    by (auto simp: separate_names_def dest: apart_sym split: sum.splits)
qed

section \<open>Uploading: the index goes last\<close>

text \<open>Where the files of a plan go on a directory remote, and that these places are files of their own,
  apart from the local snapshot.\<close>

definition remote_place :: "path \<Rightarrow> string \<Rightarrow> path \<times> string \<Rightarrow> path" where
  "remote_place root pre f = (case file_path root (join_remote_path pre (snd f)) of Inr t \<Rightarrow> t | Inl e \<Rightarrow> [])"

definition upload_layout :: "path \<Rightarrow> string \<Rightarrow> (path \<times> string) list \<Rightarrow> bool" where
  "upload_layout root pre plan =
     (sorted_wrt (\<lambda>f g. apart (remote_place root pre f) (remote_place root pre g)) plan
      \<and> list_all (\<lambda>f. clean (fst f) \<and> (case file_path root (join_remote_path pre (snd f)) of Inr t \<Rightarrow> True | Inl e \<Rightarrow> False)
          \<and> list_all (\<lambda>g. apart (remote_place root pre g) (fst f)) plan) plan)"

definition chosen :: "string list option \<Rightarrow> path \<times> string \<Rightarrow> bool" where
  "chosen inc f = (inc = None \<or> snd f = ''index.json'' \<or> snd f \<in> set (the inc))"

text \<open>A chosen file is stored at its place: with the local bytes, or, for an archive when existing archives are
  skipped, something was already there and has the bytes it had.\<close>

definition stored :: "bool \<Rightarrow> world \<Rightarrow> world \<Rightarrow> path \<Rightarrow> path \<times> string \<Rightarrow> bool" where
  "stored skip w w' t f = (exists w' t
     \<and> (file_at w' t = file_at w (fst f) \<or> skip \<and> snd f \<noteq> ''index.json'' \<and> file_at w' t = file_at w t))"

text \<open>One file: whatever happens, files apart from its place stay; on success it is there, and it is the
  local file unless an existing archive was kept.\<close>

lemma file_remote_simps [simp]:
  "rm_exists (file_remote root) = file_exists root" "rm_get (file_remote root) = file_get root"
  "rm_put (file_remote root) = file_put root" "rm_ensure_dir (file_remote root) = file_ensure_dir root"
  by (simp_all add: file_remote_def)

lemma keeps_mkdirs [keeps_intros]: "keeps (\<lambda>w. file_at w q) (mkdirs p)"
  by (rule keepsI) simp

lemma keeps_ensure_dir [keeps_intros]: "keeps (\<lambda>w. file_at w q) (file_ensure_dir root p)"
  unfolding file_ensure_dir_def by (intro keeps_intros)

lemma keeps_file_exists [keeps_intros]: "keeps g (file_exists root p)"
  unfolding file_exists_def by (intro keeps_intros)

lemma keeps_file_put:
  assumes "file_path root p = Inr t" "apart t q"
  shows "keeps (\<lambda>w. file_at w q) (file_put root p d)"
proof -
  have c: "clean t" using file_path_Inr [OF assms(1)] by simp
  then have "keeps (\<lambda>w. file_at w q) (write_data t d)"
    using assms(2) by (intro keepsI write_data_file_at) simp
  then show ?thesis using assms(1) unfolding file_put_def
    by (intro keeps_bind_lift keeps_thenI keeps_mkdirs) simp
qed

lemma keeps_upload_file:
  assumes "file_path root (join_remote_path pre (snd f)) = Inr t" "apart t q"
  shows "keeps (\<lambda>w. file_at w q) (upload_file (file_remote root) pre inc skip f acc)"
  unfolding upload_file_def store_file_def Let_def file_remote_simps
  by (intro keeps_intros keeps_file_put [OF assms])

lemma upload_file_Inr:
  assumes t: "file_path root (join_remote_path pre (snd f)) = Inr t" and c: "clean (fst f)" "apart t (fst f)"
    and ch: "chosen inc f"
    and u: "upload_file (file_remote root) pre inc skip f acc w = (Inr acc', w')"
  shows "exists w' t" "\<not> skip \<or> snd f = ''index.json'' \<Longrightarrow> file_at w' t = file_at w (fst f)" "stored skip w w' t f"
proof -
  have ct: "clean t" using file_path_Inr [OF t] by simp
  let ?rp = "join_remote_path pre (snd f)"
  have store: "file_at w2 t = file_at w1 (fst f) \<and> file_at w2 t \<noteq> None"
    if "store_file (file_remote root) ?rp f acc w1 = (Inr acc', w2)" for w1 w2
  proof -
    from that [unfolded store_file_def Let_def file_remote_simps] obtain wa d wb u v where a: "(if posix_parent ?rp \<noteq> ''.'' then file_ensure_dir root (posix_parent ?rp) else returnI ()) w1 = (Inr u, wa)"
      "read_data (fst f) wa = (Inr d, wb)" "file_put root ?rp d wb = (Inr v, w2)"
      by (fastforce simp: bindI_eq_Inr thenI_eq_Inr returnI_def)
    have "keeps (\<lambda>w. file_at w (fst f)) (if posix_parent ?rp \<noteq> ''.'' then file_ensure_dir root (posix_parent ?rp) else returnI ())"
      by (intro keeps_intros)
    from keepsD [OF this a(1)] have "file_at wa (fst f) = file_at w1 (fst f)" .
    moreover have "file_at wa (fst f) = Some d" using a(2) file_at_read [OF c(1), of wa d] by simp
    moreover have "file_at w2 t = Some d" using file_put_Inr(1) [OF a(3) t] .
    ultimately show ?thesis by (metis option.distinct(1))
  qed
  have nc: "(inc \<noteq> None \<and> snd f \<noteq> ''index.json'' \<and> snd f \<notin> set (the inc)) = False"
    using ch by (auto simp: chosen_def)
  from u [unfolded upload_file_def Let_def file_remote_simps nc if_False bindI_eq_Inr]
  obtain pr w1 where p: "(if snd f \<noteq> ''index.json'' \<and> skip then file_exists root ?rp else returnI False) w = (Inr pr, w1)"
    "(if pr then returnI acc else store_file (file_remote root) ?rp f acc) w1 = (Inr acc', w')"
    by blast
  have w1: "w1 = w" using p(1) t by (auto simp: file_exists_def io_Inr split: if_splits)
  show ex: "exists w' t"
  proof (cases pr)
    case True
    with p w1 t show ?thesis by (auto simp: file_exists_def io_Inr split: if_splits)
  next
    case False
    with p(2) store [of w1 w'] ct show ?thesis by (auto simp: exists_def at_clean file_at_def split: option.splits)
  qed
  show "\<not> skip \<or> snd f = ''index.json'' \<Longrightarrow> file_at w' t = file_at w (fst f)"
    using p store [of w1 w'] w1 by (auto simp: returnI_def split: if_splits)
  show "stored skip w w' t f"
  proof (cases pr)
    case True
    with p w1 ex show ?thesis by (auto simp: stored_def returnI_def split: if_splits)
  next
    case False
    with p(2) store [of w1 w'] w1 ex show ?thesis by (auto simp: stored_def)
  qed
qed

text \<open>What is there stays there.\<close>

abbreviation stays :: "path \<Rightarrow> 'a io \<Rightarrow> bool" where
  "stays t m \<equiv> ensures (\<lambda>w. exists w t) m (\<lambda>_ w. exists w t) (\<lambda>_ w. exists w t)"

lemma stays_reading: "keeps (\<lambda>w. exists w t) m \<Longrightarrow> stays t m"
  unfolding keeps_def by (rule ensuresI) (simp add: split_beta split: sum.split)

lemma stays_mkdirs: assumes "clean t" shows "stays t (mkdirs p)"
proof (rule ensuresI)
  fix w assume e: "exists w t"
  have "exists (snd (mkdirs p w)) t"
  proof (cases "prefix t (norm_path p)")
    case False
    with e assms mkdirs_frame [OF False, of w] show ?thesis by (simp add: exists_def at_clean)
  next
    case True
    then obtain s where s: "norm_path p = t @ s" by (auto simp: prefix_def)
    have "lookup (put (w_tree w) (t @ s) (NDir [])) t \<noteq> None" if "parent_ok (w_tree w) (t @ s)"
      using lookup_put_under [OF that, of "NDir []" "[]"]
      by (auto simp: lookup_append split: option.splits)
    with e assms s show ?thesis
      by (cases rule: step_clean_cases [of "\<lambda>v. put v (t @ s) (NDir [])" w])
        (auto simp: mkdirs_def Let_def exists_def at_clean)
  qed
  then show "case mkdirs p w of (Inr x, w') \<Rightarrow> exists w' t | (Inl e, w') \<Rightarrow> exists w' t"
    by (simp add: split_beta split: sum.split)
qed

lemma stays_frame: "clean t \<Longrightarrow> only_under p m \<Longrightarrow> apart p t \<Longrightarrow> stays t m"
  by (rule ensures_frame) (auto simp: reads_apart_def exists_def at_clean)

lemma stays_upload_file:
  assumes u: "file_path root (join_remote_path pre (snd f)) = Inr u" and t: "clean t" "apart u t"
  shows "stays t (upload_file (file_remote root) pre inc skip f acc)"
proof -
  have cu: "clean u" using file_path_Inr [OF u] by simp
  have put: "stays t (file_put root (join_remote_path pre (snd f)) d)" for d
  proof -
    have "stays t (thenI (mkdirs (path_parent u)) (write_data u d))"
      using cu t by (intro ensures_thenI [OF stays_mkdirs] stays_frame [of t u]) (auto intro!: frame_intros)
    then show ?thesis unfolding file_put_def u by (simp add: bindI_def liftI_def ensures_def)
  qed
  have ens: "stays t (file_ensure_dir root p)" for p
    unfolding file_ensure_dir_def by (intro ensures_bindI [OF stays_reading] stays_mkdirs t keeps_intros)
  show ?thesis
    unfolding upload_file_def store_file_def Let_def file_remote_simps
    by (intro ensures_bindI [where R = "\<lambda>_ w. exists w t"] ensures_thenI [where R = "\<lambda>w. exists w t"] ensures_if
        put ens ensures_returnI stays_reading keeps_intros) auto
qed

lemma upload_order_split:
  "upload_order files = filter (\<lambda>f. snd f \<noteq> ''index.json'') files @ filter (\<lambda>f. snd f = ''index.json'') files"
proof -
  have *: "insort_key k x (ys @ zs) = ys @ x # zs" if "\<forall>y \<in> set ys. k y < k x" "\<forall>z \<in> set zs. k x \<le> k z"
    for k :: "path \<times> string \<Rightarrow> nat" and x ys zs
    using that by (induction ys) (auto simp: insort_is_Cons)
  let ?k = "\<lambda>f :: path \<times> string. if snd f = ''index.json'' then 1 else 0 :: nat"
  have "sort_key ?k files = filter (\<lambda>f. snd f \<noteq> ''index.json'') files @ filter (\<lambda>f. snd f = ''index.json'') files"
  proof (induction files)
    case (Cons f fs)
    show ?case
    proof (cases "snd f = ''index.json''")
      case True
      then show ?thesis using Cons
          * [of "filter (\<lambda>f. snd f \<noteq> ''index.json'') fs" ?k f "filter (\<lambda>f. snd f = ''index.json'') fs"] by simp
    next
      case False
      then show ?thesis using Cons * [of "[]" ?k f "sort_key ?k fs"] by simp
    qed
  qed simp
  then show ?thesis by (simp add: upload_order_def)
qed

lemma stays_uploads:
  assumes "clean t" and "\<And>g. g \<in> set gs \<Longrightarrow> file_path root (join_remote_path pre (snd g)) = Inr (place g) \<and> apart (place g) t"
  shows "stays t (foldI (upload_file (file_remote root) pre inc skip) gs acc)"
  using assms(2)
proof (induction gs arbitrary: acc)
  case (Cons g gs)
  then have "file_path root (join_remote_path pre (snd g)) = Inr (place g)" "apart (place g) t" by auto
  note g = stays_upload_file [OF this(1) assms(1) this(2)]
  show ?case unfolding foldI.simps by (rule ensures_bindI [OF g]) (use Cons in auto)
qed (auto intro: ensures_returnI)

lemma stays_run: "stays t m \<Longrightarrow> m w = (r, w') \<Longrightarrow> exists w t \<Longrightarrow> exists w' t"
  by (cases r) (auto dest: ensures_Inr ensures_Inl)

lemma foldI_append: "foldI f (xs @ ys) s = bindI (foldI f xs s) (foldI f ys)"
proof (induction xs arbitrary: s)
  case Nil
  show ?case by (rule ext) (simp add: bindI_def returnI_def)
next
  case (Cons x xs)
  show ?case by (rule ext) (auto simp: Cons.IH bindI_def split: prod.splits sum.splits)
qed

lemma upload_snapshot_split:
  "upload_snapshot snapshot_dir rm pre inc skip w =
     bindI (foldI (upload_file rm pre inc skip) (filter (\<lambda>f. snd f \<noteq> ''index.json'') (build_upload_plan w snapshot_dir)) [])
       (foldI (upload_file rm pre inc skip) (filter (\<lambda>f. snd f = ''index.json'') (build_upload_plan w snapshot_dir))) w"
  by (simp add: upload_snapshot_def upload_order_split foldI_append bindI_def [of "askI _"] askI_def)

lemma upload_fold:
  assumes "list_all (\<lambda>f. file_path root (join_remote_path pre (snd f)) = Inr (place f) \<and> clean (fst f)
      \<and> list_all (\<lambda>g. apart (place g) (fst f)) fs) fs"
    and "sorted_wrt (\<lambda>f g. apart (place f) (place g)) fs"
    and "foldI (upload_file (file_remote root) pre inc skip) fs acc w = (r, w')"
  shows "(\<forall>q. (\<forall>f \<in> set fs. apart (place f) q) \<longrightarrow> file_at w' q = file_at w q)
    \<and> (\<forall>acc'. r = Inr acc' \<longrightarrow> (\<forall>f \<in> set fs. chosen inc f \<longrightarrow> stored skip w w' (place f) f))"
  using assms
proof (induction fs arbitrary: acc w)
  case Nil
  then show ?case by (simp add: returnI_def)
next
  case (Cons f fs)
  let ?up = "upload_file (file_remote root) pre inc skip"
  from Cons.prems(1) have f: "file_path root (join_remote_path pre (snd f)) = Inr (place f)" "clean (fst f)" "apart (place f) (fst f)"
    and fs: "list_all (\<lambda>f. file_path root (join_remote_path pre (snd f)) = Inr (place f) \<and> clean (fst f)
      \<and> list_all (\<lambda>g. apart (place g) (fst f)) fs) fs" and a: "\<forall>g \<in> set fs. apart (place f) (fst g)"
    by (auto simp: list_all_iff)
  from Cons.prems(2) have s: "\<forall>g \<in> set fs. apart (place f) (place g)" "sorted_wrt (\<lambda>f g. apart (place f) (place g)) fs" by auto
  obtain q w1 where u: "?up f acc w = (q, w1)" by (metis surj_pair)
  have k: "file_at w1 x = file_at w x" if "apart (place f) x" for x
    using keepsD [OF keeps_upload_file [OF f(1) that] u] .
  show ?case
  proof (cases q)
    case (Inl e)
    with u Cons.prems(3) have "r = Inl e" "w' = w1" by (simp_all add: bindI_def)
    then show ?thesis using k by simp
  next
    case (Inr acc1)
    with u Cons.prems(3) have r: "foldI ?up fs acc1 w1 = (r, w')" by (simp add: bindI_def)
    note IH = Cons.IH [OF fs s(2) r]
    have 1: "file_at w' x = file_at w x" if "\<forall>g \<in> set (f # fs). apart (place g) x" for x
      using that k IH by simp
    have cp: "clean (place f)" using file_path_Inr [OF f(1)] by simp
    have ex: "exists w' (place f)" if "exists w1 (place f)"
      by (rule stays_run [OF stays_uploads [OF cp] r that]) (use fs s(1) in \<open>auto simp: list_all_iff dest: apart_sym\<close>)
    have "stored skip w w' (place f) f" if "chosen inc f" "r = Inr z" for z
    proof -
      have "\<forall>g \<in> set fs. apart (place g) (place f)" using s(1) by (auto intro: apart_sym)
      with IH have "file_at w' (place f) = file_at w1 (place f)" by blast
      with upload_file_Inr(3) [OF f that(1) u [unfolded Inr]] ex show ?thesis by (auto simp: stored_def)
    qed
    moreover have "file_at w1 (fst g) = file_at w (fst g)" "file_at w1 (place g) = file_at w (place g)" if "g \<in> set fs" for g
      using a s(1) k that by blast+
    then have "stored skip w1 w' (place g) g = stored skip w w' (place g) g" if "g \<in> set fs" for g
      using that by (simp add: stored_def)
    ultimately show ?thesis using 1 IH by simp
  qed
qed

text \<open>What the layout of a plan gives.\<close>

lemma upload_layout_place:
  "upload_layout root pre plan \<Longrightarrow> f \<in> set plan \<Longrightarrow> file_path root (join_remote_path pre (snd f)) = Inr (remote_place root pre f)"
  by (fastforce simp: upload_layout_def list_all_iff remote_place_def split: sum.splits)

lemma upload_layout_sub:
  assumes "upload_layout root pre plan"
  shows "list_all (\<lambda>f. file_path root (join_remote_path pre (snd f)) = Inr (remote_place root pre f) \<and> clean (fst f)
      \<and> list_all (\<lambda>g. apart (remote_place root pre g) (fst f)) (filter P plan)) (filter P plan)"
    and "sorted_wrt (\<lambda>f g. apart (remote_place root pre f) (remote_place root pre g)) (filter P plan)"
  using assms upload_layout_place [OF assms] by (fastforce simp: upload_layout_def list_all_iff sorted_wrt_filter)+

lemma upload_layout_apart:
  assumes "upload_layout root pre plan" and "f \<in> set plan" "g \<in> set plan" "f \<noteq> g"
  shows "apart (remote_place root pre f) (remote_place root pre g)"
proof -
  have "sorted_wrt (\<lambda>f g. apart (remote_place root pre f) (remote_place root pre g)) plan" using assms(1) by (simp add: upload_layout_def)
  with assms(2-4) show ?thesis
    by (auto simp: sorted_wrt_iff_nth_less in_set_conv_nth) (metis apart_sym linorder_neqE_nat)
qed

lemma upload_layout_same:
  "upload_layout root pre plan \<Longrightarrow> f \<in> set plan \<Longrightarrow> g \<in> set plan \<Longrightarrow> snd f = snd g \<Longrightarrow> f = g"
  using upload_layout_apart [of root pre plan f g] by (cases "f = g") (auto simp: remote_place_def apart_def)

text \<open>The archives go first; then the index, which leaves them as they are.\<close>

lemma upload_archives_first:
  assumes l: "upload_layout root pre plan" and i: "ix \<in> set plan" "snd ix = ''index.json''"
    and q: "foldI (upload_file (file_remote root) pre inc skip) (filter (\<lambda>f. snd f \<noteq> ''index.json'') plan) [] w = (q, w1)"
  shows "file_at w1 (remote_place root pre ix) = file_at w (remote_place root pre ix)"
    and "file_at w1 (fst ix) = file_at w (fst ix)"
    and "q = Inr acc \<Longrightarrow> f \<in> set plan \<Longrightarrow> snd f \<noteq> ''index.json'' \<Longrightarrow> chosen inc f
      \<Longrightarrow> stored skip w w1 (remote_place root pre f) f"
proof -
  note A = upload_fold [OF upload_layout_sub [OF l] q]
  have "apart (remote_place root pre f) (remote_place root pre ix)" if "f \<in> set (filter (\<lambda>f. snd f \<noteq> ''index.json'') plan)" for f
    using that upload_layout_apart [OF l _ i(1), of f] i(2) by auto
  with A show "file_at w1 (remote_place root pre ix) = file_at w (remote_place root pre ix)" by blast
  have "list_all (\<lambda>g. apart (remote_place root pre g) (fst ix)) plan"
    using upload_layout_sub(1) [OF l, of "\<lambda>_. True"] i(1) by (simp add: list_all_iff)
  with A show "file_at w1 (fst ix) = file_at w (fst ix)" by (auto simp: list_all_iff)
  show "stored skip w w1 (remote_place root pre f) f"
    if "q = Inr acc" "f \<in> set plan" "snd f \<noteq> ''index.json''" "chosen inc f" using A that by (cases f) auto
qed

lemma upload_index_last:
  assumes l: "upload_layout root pre plan" and i: "ix \<in> set plan" "snd ix = ''index.json''"
    and r: "foldI (upload_file (file_remote root) pre inc skip) (filter (\<lambda>f. snd f = ''index.json'') plan) acc w1 = (r, w')"
  shows "f \<in> set plan \<Longrightarrow> snd f \<noteq> ''index.json'' \<Longrightarrow> file_at w' (remote_place root pre f) = file_at w1 (remote_place root pre f)
      \<and> (exists w1 (remote_place root pre f) \<longrightarrow> exists w' (remote_place root pre f))"
    and "r = Inr up \<Longrightarrow> file_at w' (remote_place root pre ix) = file_at w1 (fst ix) \<and> exists w' (remote_place root pre ix)"
proof -
  let ?is = "filter (\<lambda>f. snd f = ''index.json'') plan"
  note B = upload_fold [OF upload_layout_sub [OF l] r]
  have one: "g = ix" if "g \<in> set ?is" for g using upload_layout_same [OF l _ i(1), of g] that i(2) by simp
  have "ix \<in> set ?is" "chosen inc ix" using i by (simp_all add: chosen_def)
  with B have "stored skip w1 w' (remote_place root pre ix) ix" if "r = Inr up" using that by blast
  with i(2) show "file_at w' (remote_place root pre ix) = file_at w1 (fst ix) \<and> exists w' (remote_place root pre ix)" if "r = Inr up"
    using that by (simp add: stored_def)
  assume f: "f \<in> set plan" "snd f \<noteq> ''index.json''"
  then have a: "apart (remote_place root pre g) (remote_place root pre f)" if "g \<in> set ?is" for g
    using upload_layout_apart [OF l, of g f] that by auto
  have "clean (remote_place root pre f)" using upload_layout_place [OF l f(1)] file_path_Inr by blast
  then have "stays (remote_place root pre f) (foldI (upload_file (file_remote root) pre inc skip) ?is acc)"
    by (rule stays_uploads) (use upload_layout_place [OF l] a in auto)
  with r a B show "file_at w' (remote_place root pre f) = file_at w1 (remote_place root pre f)
      \<and> (exists w1 (remote_place root pre f) \<longrightarrow> exists w' (remote_place root pre f))"
    using stays_run by blast
qed

text \<open>C23: on a directory remote a snapshot is published by its index, and the index goes last. At whatever operation an
  upload stops, the remote index is what it was, or every chosen archive is stored: it is there with the local
  bytes, or, when existing archives are skipped, it was there already and has the bytes it had (an archive that is
  kept is not compared with the local one). When the upload returns, the index is the local one and every chosen
  archive is stored in this sense.\<close>

theorem upload_replaces_the_index_last:
  assumes "build_upload_plan w snapshot_dir = plan" and "upload_layout root pre plan"
    and "ix \<in> set plan" and "snd ix = ''index.json''"
    and "upload_snapshot snapshot_dir (file_remote root) pre inc skip w = (r, w')"
  shows "(file_at w' (remote_place root pre ix) = file_at w (remote_place root pre ix)
      \<or> (\<forall>f \<in> set plan. snd f \<noteq> ''index.json'' \<and> chosen inc f \<longrightarrow> stored skip w w' (remote_place root pre f) f))
    \<and> (\<forall>up. r = Inr up \<longrightarrow> file_at w' (remote_place root pre ix) = file_at w (fst ix)
        \<and> (\<forall>f \<in> set plan. chosen inc f \<longrightarrow> stored skip w w' (remote_place root pre f) f))"
proof -
  let ?up = "upload_file (file_remote root) pre inc skip"
  let ?as = "filter (\<lambda>f. snd f \<noteq> ''index.json'') plan" and ?is = "filter (\<lambda>f. snd f = ''index.json'') plan"
  obtain q w1 where q: "foldI ?up ?as [] w = (q, w1)" by (metis surj_pair)
  have u: "bindI (foldI ?up ?as []) (foldI ?up ?is) w = (r, w')"
    using assms(5) by (simp add: upload_snapshot_split assms(1))
  note A = upload_archives_first [OF assms(2-4) q]
  show ?thesis
  proof (cases q)
    case (Inl e)
    with q u have "r = Inl e" "w' = w1" by (simp_all add: bindI_def)
    with A(1) show ?thesis by simp
  next
    case (Inr acc)
    with q u have r: "foldI ?up ?is acc w1 = (r, w')" by (simp add: bindI_def)
    note B = upload_index_last [OF assms(2-4) r]
    have st: "stored skip w w' (remote_place root pre f) f" if "f \<in> set plan" "snd f \<noteq> ''index.json''" "chosen inc f" for f
      using A(3) [OF Inr that] B(1) [OF that(1,2)] by (auto simp: stored_def)
    moreover have ix: "file_at w' (remote_place root pre ix) = file_at w (fst ix) \<and> exists w' (remote_place root pre ix)" if "r = Inr up" for up
      using B(2) [OF that] A(2) by simp
    moreover have "stored skip w w' (remote_place root pre f) f" if "r = Inr up" "f \<in> set plan" "chosen inc f" for f up
    proof (cases "snd f = ''index.json''")
      case True
      with upload_layout_same [OF assms(2) that(2) assms(3)] assms(4) have "f = ix" by simp
      with ix [OF that(1)] show ?thesis by (simp add: stored_def)
    qed (use st that in blast)
    ultimately show ?thesis by blast
  qed
qed

definition demo_upload_world :: "(nat \<times> node option) option \<Rightarrow> world" where
  "demo_upload_world fault = \<lparr>w_tree = NDir
     [(''s'', NDir [(''index.json'', NFile (Json (PInt 2))), (''skills'', NDir [(''h.zip'', NFile (Archive []))])]),
      (''r'', NDir [(''p'', NDir [(''index.json'', NFile (Json (PInt 1)))])])], w_fault = fault\<rparr>"

definition demo_upload_plan :: "(path \<times> string) list" where
  "demo_upload_plan = [([''s'', ''index.json''], ''index.json''), ([''s'', ''skills'', ''h.zip''], ''skills/h.zip'')]"

theorem upload_replaces_the_index_last_witness:
  "\<exists>w'. snd (upload_snapshot [''s''] (file_remote [''r'']) ''p'' None False (demo_upload_world (Some (1, None)))) = w'
     \<and> file_at w' [''r'', ''p'', ''skills'', ''h.zip''] = None
     \<and> file_at w' [''r'', ''p'', ''index.json''] = Some (Json (PInt 1))"
proof -
  let ?w = "demo_upload_world (Some (1, None))" and ?ix = "([''s'', ''index.json''], ''index.json'')"
    and ?z = "([''s'', ''skills'', ''h.zip''], ''skills/h.zip'')"
  have p: "build_upload_plan ?w [''s''] = demo_upload_plan" by code_simp
  have l: "upload_layout [''r''] ''p'' demo_upload_plan" by code_simp
  have i: "?ix \<in> set demo_upload_plan" "snd ?ix = ''index.json''" "?z \<in> set demo_upload_plan" by (simp_all add: demo_upload_plan_def)
  have n: "file_at (snd (upload_snapshot [''s''] (file_remote [''r'']) ''p'' None False ?w)) [''r'', ''p'', ''skills'', ''h.zip''] = None"
    "file_at ?w [''s'', ''skills'', ''h.zip''] = Some (Archive [])" "file_at ?w [''r'', ''p'', ''index.json''] = Some (Json (PInt 1))"
    "remote_place [''r''] ''p'' ?z = [''r'', ''p'', ''skills'', ''h.zip'']" "remote_place [''r''] ''p'' ?ix = [''r'', ''p'', ''index.json'']"
    by code_simp+
  obtain r w' where u: "upload_snapshot [''s''] (file_remote [''r'']) ''p'' None False ?w = (r, w')" by (metis surj_pair)
  from upload_replaces_the_index_last [OF p l i(1,2) u, THEN conjunct1] n i(3) u
  have "file_at w' [''r'', ''p'', ''index.json''] = Some (Json (PInt 1))"
    by (fastforce simp: chosen_def stored_def)
  with n u show ?thesis by simp
qed

section \<open>The request loop\<close>

text \<open>A network that gives the replies of a list, one per request.\<close>

fun scripted :: "http_request \<Rightarrow> http_reply list \<Rightarrow> http_reply \<times> http_reply list" where
  "scripted rq [] = (NetError ''no reply'', [])"
| "scripted rq (r # rs) = (r, rs)"

definition network_error :: "http_reply \<Rightarrow> bool" where
  "network_error r = (case r of NetError s \<Rightarrow> True | _ \<Rightarrow> False)"

lemma request_loop_scripted:
  assumes "n < length rs"
  shows "\<exists>k \<le> n. request_loop scripted p rq (Suc n) rs = (fst (request_loop scripted p rq (Suc n) rs), drop (Suc k) rs)
    \<and> (\<forall>i < k. network_error (rs ! i)) \<and> (k < n \<longrightarrow> \<not> network_error (rs ! k))
    \<and> (case rs ! k of Body d \<Rightarrow> fst (request_loop scripted p rq (Suc n) rs) = Inr d
        | _ \<Rightarrow> (\<exists>m. fst (request_loop scripted p rq (Suc n) rs) = Inl (Exn RemoteError m)))"
  using assms
proof (induction n arbitrary: rs)
  case 0
  then obtain r rs' where rs: "rs = r # rs'" by (cases rs) auto
  then show ?case by (cases r) auto
next
  case (Suc n)
  then obtain r rs' where rs: "rs = r # rs'" "n < length rs'" by (cases rs) auto
  show ?case
  proof (cases r)
    case (NetError s)
    with rs have e: "request_loop scripted p rq (Suc (Suc n)) rs = request_loop scripted p rq (Suc n) rs'" by simp
    from Suc.IH [OF rs(2)] obtain k where k: "k \<le> n"
      "request_loop scripted p rq (Suc n) rs' = (fst (request_loop scripted p rq (Suc n) rs'), drop (Suc k) rs')"
      "\<forall>i < k. network_error (rs' ! i)" "k < n \<longrightarrow> \<not> network_error (rs' ! k)"
      "case rs' ! k of Body d \<Rightarrow> fst (request_loop scripted p rq (Suc n) rs') = Inr d
        | _ \<Rightarrow> (\<exists>m. fst (request_loop scripted p rq (Suc n) rs') = Inl (Exn RemoteError m))" by blast
    have "\<forall>i < Suc k. network_error (rs ! i)"
      using k(3) rs NetError by (auto simp: network_error_def nth_Cons split: nat.splits)
    then show ?thesis unfolding e using k rs by (intro exI [of _ "Suc k"]) simp
  qed (use rs in \<open>auto simp: network_error_def intro!: exI [of _ 0]\<close>)
qed

text \<open>a WebDAV request is sent at most \<open>retries + 1\<close> times: it is sent again only after a network
  error, an answer of the server (a body or an HTTP error) ends it at once and nothing after that
  answer is consumed, the body is returned as it came, and every failure is a \<open>RemoteError\<close>.\<close>

theorem dav_request_retries_network_errors_only:
  assumes "retries < length replies"
  shows "\<exists>k \<le> retries. dav_request scripted base retries m p data replies
        = (fst (dav_request scripted base retries m p data replies), drop (Suc k) replies)
    \<and> (\<forall>i < k. network_error (replies ! i)) \<and> (k < retries \<longrightarrow> \<not> network_error (replies ! k))
    \<and> (case replies ! k of Body d \<Rightarrow> fst (dav_request scripted base retries m p data replies) = Inr d
        | _ \<Rightarrow> (\<exists>msg. fst (dav_request scripted base retries m p data replies) = Inl (Exn RemoteError msg)))"
  unfolding dav_request_def Suc_eq_plus1 [symmetric] by (rule request_loop_scripted [OF assms])

theorem dav_request_retries_network_errors_only_witness:
  "dav_request scripted ''http://h'' 2 ''GET'' ''a'' None [NetError ''t'', Body (Raw ''x''), HttpError 500 ''e''] = (Inr (Raw ''x''), [HttpError 500 ''e''])
   \<and> (\<exists>k \<le> 2. \<forall>i < k. network_error ([NetError ''t'', Body (Raw ''x''), HttpError 500 ''e''] ! i))"
proof -
  have "dav_request scripted ''http://h'' 2 ''GET'' ''a'' None [NetError ''t'', Body (Raw ''x''), HttpError 500 ''e''] = (Inr (Raw ''x''), [HttpError 500 ''e''])"
    by code_simp
  moreover have "2 < length [NetError ''t'', Body (Raw ''x''), HttpError 500 ''e'']" by simp
  note dav_request_retries_network_errors_only [OF this, of "''http://h''" "''GET''" "''a''" None]
  ultimately show ?thesis by blast
qed

section \<open>Downloading: what the index names is in the cache\<close>

lemma stays_write_data:
  assumes "clean t"
  shows "ensures (\<lambda>w. exists w t) (write_data q d) (\<lambda>_ w. exists w t) (\<lambda>_ _. True)"
proof (rule ensuresI)
  fix w assume e: "exists w t"
  let ?q = "norm_path q"
  show "case write_data q d w of (Inr u, w') \<Rightarrow> exists w' t | (Inl e, w') \<Rightarrow> True"
  proof (cases "write_data q d w")
    case (Pair r w')
    have "exists w' t" if "r = Inr u" for u
    proof -
      from Pair that have s: "w_tree w' = put (w_tree w) ?q (NFile d)" "dir_at (w_tree w) (butlast ?q)" "\<not> is_dir w q"
        by (auto simp: write_data_def Let_def split: if_splits dest: step_at_Inr)
      have ok: "parent_ok (w_tree w) ?q" using s(2) by (rule dir_at_parent_ok)
      consider "apart ?q t" | (above) x where "?q = t @ x" | (below) x where "t = ?q @ x" "x \<noteq> []"
        unfolding apart_def prefix_def by (metis append_Nil2)
      then show ?thesis
      proof cases
        case 1
        with e s assms show ?thesis by (simp add: exists_def at_clean lookup_put_apart)
      next
        case above
        with ok lookup_put_under [OF ok, of "NFile d" "[]"] s assms show ?thesis
          by (auto simp: exists_def at_clean lookup_append split: option.splits)
      next
        case below
        with e assms obtain n where "lookup (w_tree w) (?q @ x) = Some n" by (auto simp: exists_def at_clean)
        with below(2) obtain m where "lookup (w_tree w) ?q = Some m" "lookup m x = Some n"
          by (auto simp: lookup_append split: option.splits)
        with s(3) below(2) show ?thesis by (cases m; cases x) (auto simp: is_dir_def at_def)
      qed
    qed
    with Pair show ?thesis by (auto split: sum.splits)
  qed
qed

abbreviation lasts :: "path \<Rightarrow> 'a io \<Rightarrow> bool" where
  "lasts t m \<equiv> ensures (\<lambda>w. exists w t) m (\<lambda>_ w. exists w t) (\<lambda>_ _. True)"

lemma lasts_stays: "stays t m \<Longrightarrow> lasts t m"
  by (erule ensures_weaken) auto

lemma lasts_bindI: "lasts t m \<Longrightarrow> (\<And>x. lasts t (f x)) \<Longrightarrow> lasts t (bindI m f)"
  by (rule ensures_bindI)

lemma keeps_file_get: "keeps g (file_get root p)"
  by (simp add: keeps_def file_get_keeps)

lemma lasts_download_archive: "clean t \<Longrightarrow> lasts t (download_archive H (file_remote root) cache pre v u)"
  unfolding download_archive_def thenI_def Let_def file_remote_simps
  by (intro lasts_bindI ensures_if ensures_returnI stays_write_data lasts_stays [OF stays_mkdirs]
      lasts_stays [OF stays_reading] keeps_intros keeps_file_get) auto

lemma download_archive_Inr:
  assumes "download_archive H (file_remote root) cache pre (PDict skill) u w = (Inr x, w')"
    and "dget skill ''archive'' = PStr a" and "a \<noteq> []"
  shows "exists w' (path_div cache a)"
proof -
  let ?t = "path_div cache a"
  from assms consider "exists w ?t" "w' = w"
    | d w1 w2 where "mkdirs (path_parent ?t) w1 = (Inr (), w2)" "write_data ?t d w2 = (Inr x, w')"
    by (auto simp: download_archive_def archive_name_def Let_def io_Inr split: if_splits)
  then show ?thesis
  proof cases
    case 2
    then have "lookup (w_tree w') (norm_path ?t) = Some (NFile d)"
      using write_data_Inr [of "norm_path ?t" d w2 x w'] by (simp add: write_data_def is_dir_def at_def Let_def)
    then show ?thesis by (simp add: exists_def at_def)
  qed simp
qed

lemma exists_norm: "exists w (norm_path p) = exists w p"
  by (simp add: exists_def at_def)

lemma download_fold:
  assumes "foldI (download_archive H (file_remote root) cache pre) skills u w = (Inr x, w')"
    and "PDict skill \<in> set skills" and "dget skill ''archive'' = PStr a" and "a \<noteq> []"
  shows "exists w' (path_div cache a)"
  using assms(1,2)
proof (induction skills arbitrary: u w)
  case (Cons s skills)
  let ?dl = "download_archive H (file_remote root) cache pre"
  from Cons.prems obtain y w1 where d: "?dl s u w = (Inr y, w1)" "foldI ?dl skills y w1 = (Inr x, w')"
    by (auto simp: bindI_eq_Inr)
  show ?case
  proof (cases "PDict skill \<in> set skills")
    case True
    with Cons.IH [OF d(2)] show ?thesis by blast
  next
    case False
    with Cons.prems have s: "s = PDict skill" by auto
    have e: "exists w1 (norm_path (path_div cache a))"
      using download_archive_Inr [OF d(1) [unfolded s] assms(3,4)] by (simp add: exists_norm)
    have "lasts (norm_path (path_div cache a)) (foldI ?dl ss z)" for ss z
    proof (induction ss arbitrary: z)
      case (Cons s ss)
      show ?case unfolding foldI.simps by (rule ensures_bindI [OF lasts_download_archive]) (simp_all add: Cons)
    qed (simp add: ensures_returnI)
    from ensures_Inr [OF this e d(2)] show ?thesis by (simp add: exists_norm)
  qed
qed simp

text \<open>a download leaves a usable cache: the index it returns is the one on the remote, and every
  archive that index names is afterwards present in the cache.\<close>

theorem download_fetches_every_archive:
  assumes "download_snapshot H (file_remote root) cache pre w = (Inr index, w')"
  shows "file_get_option root (join_remote_path pre ''index.json'') w = Some (Json (PDict index))
    \<and> (\<forall>skills. py_iter (dget_or index ''skills'' (PList [])) = Inr skills \<longrightarrow>
        (\<forall>skill a. PDict skill \<in> set skills \<and> dget skill ''archive'' = PStr a \<and> a \<noteq> [] \<longrightarrow> exists w' (path_div cache a)))"
proof -
  from assms obtain d w1 skills w3 u where g: "file_get root (join_remote_path pre ''index.json'') w = (Inr d, w1)"
    "json_loads d = Inr (PDict index)" and s: "py_iter (dget_or index ''skills'' (PList [])) = Inr skills"
    "foldI (download_archive H (file_remote root) cache pre) skills () w3 = (Inr u, w')"
    by (auto simp: download_snapshot_def io_Inr)
  have "file_get_option root (join_remote_path pre ''index.json'') w = Some (Json (PDict index))"
    using g by (simp add: file_get_option_def json_loads_def split: fdata.splits)
  then show ?thesis using s(1) download_fold [OF s(2)] by auto
qed

text \<open>The archive name is appended to the cache directory unchecked: an index can make the download
  write outside the cache.\<close>

definition demo_remote_world :: world where
  "demo_remote_world = \<lparr>w_tree = NDir
     [(''r'', NDir [(''p'', NDir [(''index.json'', NFile (Json (PDict [(''skills'', PList [PDict [(''archive'', PStr ''k/h.zip'')],
          PDict [(''archive'', PStr ''../own'')]])]))), (''k'', NDir [(''h.zip'', NFile (Raw ''z''))])]),
        (''own'', NFile (Raw ''x''))])], w_fault = None\<rparr>"

theorem download_fetches_every_archive_witness:
  "\<exists>index w'. download_snapshot raw_host (file_remote [''r'']) [''c'', ''d''] ''p'' demo_remote_world = (Inr index, w')
     \<and> exists w' [''c'', ''d'', ''k'', ''h.zip''] \<and> file_at w' [''c'', ''own''] = Some (Raw ''x'')"
proof -
  let ?dl = "download_snapshot raw_host (file_remote [''r'']) [''c'', ''d''] ''p'' demo_remote_world"
  have "case ?dl of (r, w') \<Rightarrow> (case r of Inl e \<Rightarrow> False | Inr index \<Rightarrow> index = [(''skills'', PList [PDict [(''archive'', PStr ''k/h.zip'')],
          PDict [(''archive'', PStr ''../own'')]])]) \<and> file_at w' [''c'', ''own''] = Some (Raw ''x'')"
    by code_simp
  then obtain index w' where d: "?dl = (Inr index, w')" "file_at w' [''c'', ''own''] = Some (Raw ''x'')"
    "index = [(''skills'', PList [PDict [(''archive'', PStr ''k/h.zip'')], PDict [(''archive'', PStr ''../own'')]])]"
    by (auto split: prod.splits sum.splits)
  have "exists w' (path_div [''c'', ''d''] ''k/h.zip'')"
    using conjunct2 [OF download_fetches_every_archive [OF d(1)], rule_format,
        of _ "[(''archive'', PStr ''k/h.zip'')]" "''k/h.zip''"] d(3) by simp
  moreover have "path_div [''c'', ''d''] ''k/h.zip'' = [''c'', ''d'', ''k'', ''h.zip'']" by code_simp
  ultimately show ?thesis using d by auto
qed

end
