(* ===== verification/CentralLifecycle.thy ===== *)
theory CentralLifecycle
  imports SyncPlan Remote
begin

text \<open>
  \<open>central_lifecycle.py\<close>: marking skills of the central index deprecated or published again. The
  preview says what would change; the execution checks that the remote index is still the cached
  one, writes the new index to the remote and then to the cache. Nothing is ever removed.
\<close>

section \<open>The central index\<close>

text \<open>The clock as the code reads it: the ISO time and the compact time stamp.\<close>

record clock =
  ck_iso :: string
  ck_stamp :: string

text \<open>\<open>json.dumps(..., sort_keys=True)\<close>: the value with the keys of every object sorted.\<close>

fun canon :: "pyval \<Rightarrow> pyval" where
  "canon (PList xs) = PList (map canon xs)"
| "canon (PDict d) = PDict (sort_items (map (\<lambda>(k, v). (k, canon v)) d))"
| "canon v = v"

definition index_sha256 :: "host \<Rightarrow> pyval \<Rightarrow> string" where
  "index_sha256 H index = h_sha H (Raw (h_dumps H (canon index)))"

definition skill_lifecycle_state :: "pydict \<Rightarrow> string" where
  "skill_lifecycle_state skill =
     (let lifecycle = dget skill ''lifecycle'' in
      if is_dict lifecycle \<and> truthy (dget (dict_or_empty lifecycle) ''state'')
      then py_str (dget (dict_or_empty lifecycle) ''state'')
      else if truthy (dget skill ''state'') then py_str (dget skill ''state'')
      else ''published'')"

fun unique_ids :: "string list \<Rightarrow> string list \<Rightarrow> string list" where
  "unique_ids seen [] = []"
| "unique_ids seen (raw # raws) =
     (let skill_id = strip raw in
      if skill_id = [] \<or> skill_id \<in> set seen then unique_ids seen raws
      else skill_id # unique_ids (skill_id # seen) raws)"

definition lifecycle_skill_ids :: "string list \<Rightarrow> string list res" where
  "lifecycle_skill_ids skill_ids = (let result = unique_ids [] skill_ids in
     if result = [] then Inl (Exn CentralLifecycleError ''at least one skill id is required'') else Inr result)"

definition lifecycle_load_index :: "world \<Rightarrow> path \<Rightarrow> pydict res" where
  "lifecycle_load_index w snapshot_dir =
     (let index_path = snapshot_dir @ [''index.json''] in
      if \<not> exists w index_path
      then Inl (Exn CentralLifecycleError (''central snapshot cache has no index.json: '' @ path_str index_path))
      else (case fst (read_json index_path w) of
          Inl e \<Rightarrow> (if exn_kind e \<in> set [OSError, JSONDecodeError]
             then Inl (Exn CentralLifecycleError (''cannot read central snapshot index: '' @ exn_text e)) else Inl e)
        | Inr (PDict d) \<Rightarrow> Inr d
        | Inr _ \<Rightarrow> Inl (Exn CentralLifecycleError ''central snapshot index must be a JSON object'')))"

definition index_skills :: "pydict \<Rightarrow> pydict list res" where
  "index_skills index = bindR (py_iter (dget_or index ''skills'' (PList []))) (\<lambda>skills. Inr (only_dicts skills))"

definition skills_by_id :: "pydict list \<Rightarrow> (string \<times> pydict) list" where
  "skills_by_id skills = fold (\<lambda>skill result. if truthy (dget skill ''skill_id'')
     then AList.update (py_str (dget skill ''skill_id'')) skill result else result) skills []"

section \<open>Marking\<close>

text \<open>\<open>dict(v or {})\<close>: an object is copied, nothing gives an empty one, other values raise.\<close>

definition as_new_dict :: "pyval \<Rightarrow> pydict res" where
  "as_new_dict v = (if \<not> truthy v then Inr [] else case v of PDict d \<Rightarrow> Inr d
     | PInt n \<Rightarrow> Inl (Exn TypeError (in_quotes ''int'' @ '' object is not iterable''))
     | PBool b \<Rightarrow> Inl (Exn TypeError (in_quotes ''bool'' @ '' object is not iterable''))
     | _ \<Rightarrow> Inl (Exn ValueError ''dictionary update sequence element #0 has length 1; 2 is required''))"

definition mark_skill :: "pydict \<Rightarrow> string \<Rightarrow> string \<Rightarrow> pydict \<Rightarrow> pydict res" where
  "mark_skill marks reason_key reason skill =
     bindR (as_new_dict (dget skill ''lifecycle'')) (\<lambda>old.
       let lifecycle = dmerge old marks;
           lifecycle' = (if reason \<noteq> [] then dset lifecycle reason_key (PStr reason) else lifecycle)
       in Inr (dset skill ''lifecycle'' (PDict lifecycle')))"

definition deprecate_skill :: "string list \<Rightarrow> string \<Rightarrow> string \<Rightarrow> string \<Rightarrow> pydict \<Rightarrow> pydict res" where
  "deprecate_skill ids actor reason deprecated_at skill =
     (if py_str (dget skill ''skill_id'') \<in> set ids \<and> skill_lifecycle_state skill \<noteq> ''deprecated''
      then mark_skill [(''state'', PStr ''deprecated''), (''deprecated_at'', PStr deprecated_at), (''deprecated_by'', PStr actor)]
             ''reason'' reason skill
      else Inr skill)"

definition reactivate_skill :: "string list \<Rightarrow> string \<Rightarrow> string \<Rightarrow> string \<Rightarrow> pydict \<Rightarrow> pydict res" where
  "reactivate_skill ids actor reason reactivated_at skill =
     (if py_str (dget skill ''skill_id'') \<in> set ids \<and> skill_lifecycle_state skill = ''deprecated''
      then mark_skill [(''state'', PStr ''published''), (''reactivated_at'', PStr reactivated_at), (''reactivated_by'', PStr actor)]
             ''reactivate_reason'' reason skill
      else Inr skill)"

definition new_index :: "string \<Rightarrow> clock \<Rightarrow> pydict \<Rightarrow> pydict list \<Rightarrow> pydict" where
  "new_index kind c index skills =
     dset (dset (dset (dset index ''snapshot_id'' (PStr (''central-'' @ kind @ ''-'' @ ck_stamp c)))
       ''created_at'' (PStr (ck_iso c))) ''total'' (PInt (int (length skills))))
       ''skills'' (PList (map PDict skills))"

definition deprecate_index :: "clock \<Rightarrow> pydict \<Rightarrow> string list \<Rightarrow> string \<Rightarrow> string \<Rightarrow> pydict res" where
  "deprecate_index c index ids actor reason =
     bindR (index_skills index) (\<lambda>skills. bindR (mapR (deprecate_skill ids actor reason (ck_iso c)) skills) (\<lambda>updated.
       Inr (new_index ''deprecate'' c index updated)))"

definition reactivate_index :: "clock \<Rightarrow> pydict \<Rightarrow> string list \<Rightarrow> string \<Rightarrow> string \<Rightarrow> pydict res" where
  "reactivate_index c index ids actor reason =
     bindR (index_skills index) (\<lambda>skills. bindR (mapR (reactivate_skill ids actor reason (ck_iso c)) skills) (\<lambda>updated.
       Inr (new_index ''reactivate'' c index updated)))"

section \<open>Previews\<close>

definition preview_item :: "string \<Rightarrow> (string \<Rightarrow> string) \<Rightarrow> string \<Rightarrow> pydict \<Rightarrow> pydict" where
  "preview_item next_state action skill_id skill =
     [(''skill_id'', PStr skill_id), (''current_state'', PStr (skill_lifecycle_state skill)),
      (''next_state'', PStr next_state), (''action'', PStr (action (skill_lifecycle_state skill))),
      (''content_hash'', dget skill ''content_hash''), (''archive'', dget skill ''archive''), (''allowed'', PBool True)]"

definition deprecate_action :: "string \<Rightarrow> string" where
  "deprecate_action state = (if state = ''deprecated'' then ''noop'' else ''mark_deprecated'')"

definition reactivate_action :: "string \<Rightarrow> string" where
  "reactivate_action state = (if state = ''deprecated'' then ''mark_published'' else ''noop'')"

definition planned_items :: "pydict \<Rightarrow> string list \<Rightarrow> string \<Rightarrow> (string \<Rightarrow> string) \<Rightarrow> (nat \<times> pydict list) res" where
  "planned_items index ids next_state action =
     bindR (index_skills index) (\<lambda>skills.
       let by_id = skills_by_id skills; missing = filter (\<lambda>i. map_of by_id i = None) ids;
           items = map (\<lambda>i. preview_item next_state action i (the (map_of by_id i))) ids
       in if missing \<noteq> [] then Inl (Exn CentralLifecycleError (''skill is not present in central snapshot: '' @ join_str '', '' missing))
          else Inr (length (filter (\<lambda>i. action (skill_lifecycle_state (the (map_of by_id i))) \<noteq> ''noop'') ids), items))"

definition preview_dict :: "host \<Rightarrow> string \<Rightarrow> string list \<Rightarrow> string \<Rightarrow> string \<Rightarrow> pydict \<Rightarrow> pydict \<Rightarrow> nat \<Rightarrow> pydict list \<Rightarrow> pydict" where
  "preview_dict H kind ids actor reason index index' planned items =
     [(''ok'', PBool True), (''record_type'', PStr (''skill-sync-central-'' @ kind)), (''mode'', PStr ''dry_run''),
      (''dry_run'', PBool True), (''safe_to_'' @ kind, PBool True), (''skill_ids'', strs ids),
      (''actor'', PStr actor), (''reason'', PStr reason), (''snapshot_id'', dget index ''snapshot_id''),
      (''new_snapshot_id'', dget index' ''snapshot_id''), (''planned'', PInt (int planned)),
      (''items'', PList (map PDict items)), (''index_sha256'', PStr (index_sha256 H (PDict index))),
      (''new_index_sha256'', PStr (index_sha256 H (PDict index')))]"

definition build_central_deprecate_preview ::
    "host \<Rightarrow> world \<Rightarrow> clock \<Rightarrow> path \<Rightarrow> string list \<Rightarrow> string \<Rightarrow> string \<Rightarrow> pydict res" where
  "build_central_deprecate_preview H w c snapshot_dir skill_ids actor reason =
     bindR (lifecycle_skill_ids skill_ids) (\<lambda>ids.
     bindR (lifecycle_load_index w snapshot_dir) (\<lambda>index.
     bindR (planned_items index ids ''deprecated'' deprecate_action) (\<lambda>(planned, items).
     bindR (deprecate_index c index ids actor reason) (\<lambda>index'.
       Inr (preview_dict H ''deprecate'' ids actor reason index index' planned items)))))"

definition build_central_reactivate_preview ::
    "host \<Rightarrow> world \<Rightarrow> clock \<Rightarrow> path \<Rightarrow> string list \<Rightarrow> string \<Rightarrow> string \<Rightarrow> pydict res" where
  "build_central_reactivate_preview H w c snapshot_dir skill_ids actor reason =
     bindR (lifecycle_skill_ids skill_ids) (\<lambda>ids.
     bindR (lifecycle_load_index w snapshot_dir) (\<lambda>index.
     bindR (planned_items index ids ''published'' reactivate_action) (\<lambda>(planned, items).
     bindR (reactivate_index c index ids actor reason) (\<lambda>index'.
       Inr (preview_dict H ''reactivate'' ids actor reason index index' planned items)))))"

section \<open>Execution\<close>

definition assert_remote_index_matches_cache :: "host \<Rightarrow> remote \<Rightarrow> string \<Rightarrow> pydict \<Rightarrow> unit io" where
  "assert_remote_index_matches_cache H R remote_prefix cache_index =
     bindI (catchI (bindI (rm_get R (join_remote_path remote_prefix ''index.json'')) (\<lambda>d. liftI (json_loads d)))
        (\<lambda>e. raiseI (if exn_kind e \<in> set [JSONDecodeError, RemoteError]
           then Exn CentralLifecycleError (''cannot verify remote snapshot before lifecycle update: '' @ exn_text e) else e)))
       (\<lambda>remote_index.
         if index_sha256 H remote_index \<noteq> index_sha256 H (PDict cache_index)
         then raiseI (Exn CentralLifecycleError ''remote index changed since the local cache was pulled; refresh before lifecycle update'')
         else returnI ())"

text \<open>The new index goes to the remote, then to the cache.\<close>

definition commit_index :: "host \<Rightarrow> string \<Rightarrow> pydict \<Rightarrow> pydict \<Rightarrow> path \<Rightarrow> remote \<Rightarrow> string \<Rightarrow> pydict \<Rightarrow> pydict io" where
  "commit_index H mode preview index snapshot_dir R remote_prefix index' =
     (let data = Json (canon (PDict index')) in
      thenI (rm_put R (join_remote_path remote_prefix ''index.json'') data)
        (thenI (mkdirs snapshot_dir)
          (thenI (write_data (snapshot_dir @ [''index.json'']) data)
            (returnI (dmerge preview [(''mode'', PStr mode), (''dry_run'', PBool False),
               (''snapshot_id'', dget index ''snapshot_id''), (''new_snapshot_id'', dget index' ''snapshot_id''),
               (''new_index_sha256'', PStr (index_sha256 H (PDict index'))), (''uploaded_files'', PInt 1)])))))"

text \<open>What the two executions share: \<open>preview_of\<close> and \<open>update\<close> are the two kinds' own functions.\<close>

definition execute_lifecycle ::
    "host \<Rightarrow> string \<Rightarrow> string \<Rightarrow> (world \<Rightarrow> pydict res) \<Rightarrow> (pydict \<Rightarrow> string list \<Rightarrow> pydict res) \<Rightarrow> path
      \<Rightarrow> remote \<Rightarrow> string \<Rightarrow> bool \<Rightarrow> pydict io" where
  "execute_lifecycle H mode noop_reason preview_of update snapshot_dir R remote_prefix require_match =
     bindI (bindI (askI preview_of) liftI) (\<lambda>preview.
     bindI (bindI (askI (\<lambda>w. lifecycle_load_index w snapshot_dir)) liftI) (\<lambda>index.
     bindI (liftI (py_int (por (dget preview ''planned'') (PInt 0)))) (\<lambda>planned.
       if planned = 0
       then returnI (dmerge preview [(''mode'', PStr mode), (''dry_run'', PBool False), (''uploaded_files'', PInt 0),
              (''noop_reason'', PStr noop_reason)])
       else thenI (if require_match then assert_remote_index_matches_cache H R remote_prefix index else returnI ())
         (bindI (liftI (update index (map py_str (list_or_empty (dget preview ''skill_ids'')))))
           (commit_index H mode preview index snapshot_dir R remote_prefix)))))"

definition execute_central_deprecate ::
    "host \<Rightarrow> clock \<Rightarrow> clock \<Rightarrow> path \<Rightarrow> string list \<Rightarrow> remote \<Rightarrow> string \<Rightarrow> string \<Rightarrow> string \<Rightarrow> bool \<Rightarrow> pydict io" where
  "execute_central_deprecate H c c' snapshot_dir skill_ids R remote_prefix actor reason require_match =
     execute_lifecycle H ''deprecate'' ''selected skills are already deprecated''
       (\<lambda>w. build_central_deprecate_preview H w c snapshot_dir skill_ids actor reason)
       (\<lambda>index ids. deprecate_index c' index ids actor reason) snapshot_dir R remote_prefix require_match"

definition execute_central_reactivate ::
    "host \<Rightarrow> clock \<Rightarrow> clock \<Rightarrow> path \<Rightarrow> string list \<Rightarrow> remote \<Rightarrow> string \<Rightarrow> string \<Rightarrow> string \<Rightarrow> bool \<Rightarrow> pydict io" where
  "execute_central_reactivate H c c' snapshot_dir skill_ids R remote_prefix actor reason require_match =
     execute_lifecycle H ''reactivate'' ''selected skills are already published''
       (\<lambda>w. build_central_reactivate_preview H w c snapshot_dir skill_ids actor reason)
       (\<lambda>index ids. reactivate_index c' index ids actor reason) snapshot_dir R remote_prefix require_match"

section \<open>What a marking changes\<close>

lemma skill_lifecycle_state_same: "skill_lifecycle_state = central_lifecycle_state"
  by (rule ext) (auto simp: skill_lifecycle_state_def central_lifecycle_state_def is_dict_def dict_or_empty_def Let_def
      split: pyval.splits)

lemma mark_skill_Inr:
  assumes "mark_skill [(''state'', PStr st), (a, x), (b, y)] rk reason skill = Inr s"
    and "st \<noteq> []" "''state'' \<notin> {a, b, rk}"
  shows "skill_lifecycle_state s = st" "k \<noteq> ''lifecycle'' \<Longrightarrow> dget s k = dget skill k"
  using assms by (cases "reason = []"; auto simp: mark_skill_def Let_def skill_lifecycle_state_def is_dict_def dict_or_empty_def)+

lemma deprecate_skill_Inr:
  assumes "deprecate_skill ids actor reason t skill = Inr s"
  shows "k \<noteq> ''lifecycle'' \<Longrightarrow> dget s k = dget skill k"
    "py_str (dget skill ''skill_id'') \<in> set ids \<Longrightarrow> skill_lifecycle_state s = ''deprecated''"
    "py_str (dget skill ''skill_id'') \<notin> set ids \<Longrightarrow> s = skill"
    "deprecate_skill ids actor' reason' t' s = Inr s"
proof -
  have m: "(k \<noteq> ''lifecycle'' \<longrightarrow> dget s k = dget skill k)
    \<and> (py_str (dget skill ''skill_id'') \<in> set ids \<longrightarrow> skill_lifecycle_state s = ''deprecated'')
    \<and> (py_str (dget skill ''skill_id'') \<notin> set ids \<longrightarrow> s = skill)" for k
    using assms mark_skill_Inr(1) [of "''deprecated''" "''deprecated_at''" "PStr t" "''deprecated_by''" "PStr actor" "''reason''" reason skill s]
      mark_skill_Inr(2) [of "''deprecated''" "''deprecated_at''" "PStr t" "''deprecated_by''" "PStr actor" "''reason''" reason skill s k]
    by (auto simp: deprecate_skill_def split: if_splits)
  then show "k \<noteq> ''lifecycle'' \<Longrightarrow> dget s k = dget skill k"
    "py_str (dget skill ''skill_id'') \<in> set ids \<Longrightarrow> skill_lifecycle_state s = ''deprecated''"
    "py_str (dget skill ''skill_id'') \<notin> set ids \<Longrightarrow> s = skill" by blast+
  have "dget s ''skill_id'' = dget skill ''skill_id''" using m [of "''skill_id''"] by simp
  with m show "deprecate_skill ids actor' reason' t' s = Inr s" by (auto simp: deprecate_skill_def)
qed

lemma reactivate_skill_Inr:
  assumes "reactivate_skill ids actor reason t skill = Inr s"
  shows "k \<noteq> ''lifecycle'' \<Longrightarrow> dget s k = dget skill k"
    "py_str (dget skill ''skill_id'') \<in> set ids \<Longrightarrow> skill_lifecycle_state s \<noteq> ''deprecated''"
    "py_str (dget skill ''skill_id'') \<in> set ids \<Longrightarrow> skill_lifecycle_state skill = ''deprecated'' \<Longrightarrow> skill_lifecycle_state s = ''published''"
    "py_str (dget skill ''skill_id'') \<notin> set ids \<Longrightarrow> s = skill"
  using assms mark_skill_Inr(1) [of "''published''" "''reactivated_at''" "PStr t" "''reactivated_by''" "PStr actor" "''reactivate_reason''" reason skill s]
    mark_skill_Inr(2) [of "''published''" "''reactivated_at''" "PStr t" "''reactivated_by''" "PStr actor" "''reactivate_reason''" reason skill s k]
  by (auto simp: reactivate_skill_def split: if_splits)

lemma index_skills_new_index: "index_skills (new_index kind c index skills) = Inr skills"
proof -
  have "map_of (new_index kind c index skills) ''skills'' = Some (PList (map PDict skills))"
    by (simp add: new_index_def dset_def update_conv)
  then show ?thesis by (simp add: index_skills_def dget_or_def)
qed

lemma dget_new_index: "k \<notin> {''snapshot_id'', ''created_at'', ''total'', ''skills''} \<Longrightarrow> dget (new_index kind c index skills) k = dget index k"
  by (simp add: new_index_def)

lemma deprecate_index_Inr:
  assumes "deprecate_index c index ids actor reason = Inr index'" "index_skills index = Inr skills"
  obtains skills' where "index' = new_index ''deprecate'' c index skills'"
    "list_all2 (\<lambda>s s'. deprecate_skill ids actor reason (ck_iso c) s = Inr s') skills skills'"
  using assms by (auto simp: deprecate_index_def mapR_Inr_iff)

text \<open>deprecation marks and never removes: the new index has the same skills in the same order,
  every selected one is in the state \<open>deprecated\<close>, every other one is unchanged, no field of any skill
  but its lifecycle differs (so its archive and content hash stay), and no field of the index differs
  but its id, time, total and skills.\<close>

theorem deprecation_marks_and_never_removes:
  assumes "deprecate_index c index ids actor reason = Inr index'" and "index_skills index = Inr skills"
  shows "\<exists>skills'. index_skills index' = Inr skills' \<and> length skills' = length skills
    \<and> list_all2 (\<lambda>s s'. (\<forall>k. k \<noteq> ''lifecycle'' \<longrightarrow> dget s' k = dget s k)
        \<and> (if py_str (dget s ''skill_id'') \<in> set ids then skill_lifecycle_state s' = ''deprecated'' else s' = s)) skills skills'
    \<and> (\<forall>k. k \<notin> {''snapshot_id'', ''created_at'', ''total'', ''skills''} \<longrightarrow> dget index' k = dget index k)"
proof -
  from deprecate_index_Inr [OF assms] obtain skills' where s: "index' = new_index ''deprecate'' c index skills'"
    "list_all2 (\<lambda>s s'. deprecate_skill ids actor reason (ck_iso c) s = Inr s') skills skills'" by blast
  have "list_all2 (\<lambda>s s'. (\<forall>k. k \<noteq> ''lifecycle'' \<longrightarrow> dget s' k = dget s k)
        \<and> (if py_str (dget s ''skill_id'') \<in> set ids then skill_lifecycle_state s' = ''deprecated'' else s' = s)) skills skills'"
    using s(2) by (rule list_all2_mono) (use deprecate_skill_Inr in auto)
  moreover have "length skills' = length skills" using s(2) by (simp add: list_all2_lengthD)
  ultimately show ?thesis
    using dget_new_index unfolding s(1) by (intro exI [of _ skills'] conjI index_skills_new_index) auto
qed

text \<open>reactivation undoes deprecation and both can be repeated: after deprecating and reactivating
  the same ids, a selected skill is published, or was deprecated before and is published now, none of
  its fields but the lifecycle has changed, the others are as they were; deprecating a second time
  changes no skill.\<close>

theorem reactivation_undoes_deprecation:
  assumes "deprecate_index c index ids actor reason = Inr index1" and "index_skills index = Inr skills"
    and "reactivate_index c' index1 ids actor' reason' = Inr index2"
  shows "(\<exists>skills2. index_skills index2 = Inr skills2
        \<and> list_all2 (\<lambda>s s2. (\<forall>k. k \<noteq> ''lifecycle'' \<longrightarrow> dget s2 k = dget s k)
            \<and> (if py_str (dget s ''skill_id'') \<in> set ids then skill_lifecycle_state s2 = ''published'' else s2 = s)) skills skills2)
    \<and> (\<exists>skills1. index_skills index1 = Inr skills1
        \<and> deprecate_index c' index1 ids actor' reason' = Inr (new_index ''deprecate'' c' index1 skills1))"
proof -
  from deprecate_index_Inr [OF assms(1,2)] obtain skills1 where s1: "index1 = new_index ''deprecate'' c index skills1"
    "list_all2 (\<lambda>s s'. deprecate_skill ids actor reason (ck_iso c) s = Inr s') skills skills1" by blast
  have i1: "index_skills index1 = Inr skills1" by (simp add: s1(1) index_skills_new_index)
  from assms(3) i1 obtain skills2 where s2: "index2 = new_index ''reactivate'' c' index1 skills2"
    "list_all2 (\<lambda>s s'. reactivate_skill ids actor' reason' (ck_iso c') s = Inr s') skills1 skills2"
    by (auto simp: reactivate_index_def mapR_Inr_iff)
  have "list_all2 (\<lambda>s s2. (\<forall>k. k \<noteq> ''lifecycle'' \<longrightarrow> dget s2 k = dget s k)
            \<and> (if py_str (dget s ''skill_id'') \<in> set ids then skill_lifecycle_state s2 = ''published'' else s2 = s)) skills skills2"
  proof (rule list_all2_trans [OF _ s1(2) s2(2)])
    fix s sa sb
    assume d: "deprecate_skill ids actor reason (ck_iso c) s = Inr sa" and r: "reactivate_skill ids actor' reason' (ck_iso c') sa = Inr sb"
    note d = deprecate_skill_Inr [OF d] and r = reactivate_skill_Inr [OF r]
    have i: "dget sa ''skill_id'' = dget s ''skill_id''" using d(1) by simp
    show "(\<forall>k. k \<noteq> ''lifecycle'' \<longrightarrow> dget sb k = dget s k)
      \<and> (if py_str (dget s ''skill_id'') \<in> set ids then skill_lifecycle_state sb = ''published'' else sb = s)"
      using d r i by auto
  qed
  moreover have "mapR (deprecate_skill ids actor' reason' (ck_iso c')) skills1 = Inr skills1"
  proof -
    have "\<forall>x \<in> set skills1. deprecate_skill ids actor' reason' (ck_iso c') x = Inr x"
      using s1(2) deprecate_skill_Inr(4) by (fastforce simp: list_all2_conv_all_nth in_set_conv_nth)
    then show ?thesis using mapR_total [of skills1 "deprecate_skill ids actor' reason' (ck_iso c')" "\<lambda>x. x"] by simp
  qed
  ultimately show ?thesis using i1 s2(1) by (simp add: index_skills_new_index deprecate_index_def)
qed

section \<open>What an execution writes\<close>

lemma assert_remote_keeps: "snd (assert_remote_index_matches_cache H (file_remote root) pre index w) = w"
  using file_get_keeps [of root "join_remote_path pre ''index.json''" w]
  by (auto simp: assert_remote_index_matches_cache_def bindI_def catchI_def liftI_def raiseI_def returnI_def
      split: prod.splits sum.splits)

lemma assert_remote_Inr:
  assumes "assert_remote_index_matches_cache H (file_remote root) pre index w = (Inr u, w')"
  shows "\<exists>v. file_get_option root (join_remote_path pre ''index.json'') w = Some (Json v)
    \<and> index_sha256 H v = index_sha256 H (PDict index)"
proof -
  obtain r w1 where g: "file_get root (join_remote_path pre ''index.json'') w = (r, w1)" by (metis surj_pair)
  with assms show ?thesis
    by (auto simp: assert_remote_index_matches_cache_def bindI_def catchI_def liftI_def raiseI_def returnI_def
        file_get_option_def json_loads_def split: prod.splits sum.splits fdata.splits if_splits)
qed

definition checked_remote :: "host \<Rightarrow> path \<Rightarrow> string \<Rightarrow> path \<Rightarrow> world \<Rightarrow> bool" where
  "checked_remote H root pre snapshot_dir w =
     (case (lifecycle_load_index w snapshot_dir, file_get_option root (join_remote_path pre ''index.json'') w) of
        (Inr index, Some (Json v)) \<Rightarrow> index_sha256 H v = index_sha256 H (PDict index)
      | _ \<Rightarrow> False)"

lemma ask_lift: "bindI (bindI (askI f) liftI) F w = (case f w of Inl e \<Rightarrow> (Inl e, w) | Inr x \<Rightarrow> F x w)"
  by (simp add: bindI_def askI_def liftI_def split: sum.split)

lemma lift_bind: "bindI (liftI r) F w = (case r of Inl e \<Rightarrow> (Inl e, w) | Inr x \<Rightarrow> F x w)"
  by (simp add: bindI_def liftI_def split: sum.split)

lemma commit_index_Inr:
  assumes "commit_index H mode preview index dir R pre index' w = (Inr res, w')" "clean dir"
  shows "dget res ''uploaded_files'' = PInt 1" "file_at w' (dir @ [''index.json'']) = Some (Json (canon (PDict index')))"
  using assms write_data_Inr [of "dir @ [''index.json'']"]
  by (auto simp: commit_index_def Let_def io_Inr file_at_def simp del: canon.simps)

lemma execute_lifecycle_outcomes:
  assumes "execute_lifecycle H mode nr preview_of update dir (file_remote root) pre True w = (r, w')"
  obtains (early) e where "r = Inl e" "w' = w"
    | (none) res where "r = Inr res" "dget res ''uploaded_files'' = PInt 0" "w' = w"
    | (run) preview index index' where "preview_of w = Inr preview" "lifecycle_load_index w dir = Inr index"
      "checked_remote H root pre dir w" "update index (map py_str (list_or_empty (dget preview ''skill_ids''))) = Inr index'"
      "commit_index H mode preview index dir (file_remote root) pre index' w = (r, w')"
proof (cases "preview_of w")
  case (Inl e)
  with assms show ?thesis by (intro early [of e]) (auto simp: execute_lifecycle_def ask_lift)
next
  case (Inr preview)
  note p = this
  show ?thesis
  proof (cases "lifecycle_load_index w dir")
    case (Inl e)
    with p assms show ?thesis by (intro early [of e]) (auto simp: execute_lifecycle_def ask_lift)
  next
    case (Inr index)
    note l = this
    show ?thesis
    proof (cases "py_int (por (dget preview ''planned'') (PInt 0))")
      case (Inl e)
      with p l assms show ?thesis by (intro early [of e]) (auto simp: execute_lifecycle_def ask_lift lift_bind)
    next
      case (Inr n)
      note n = this
      let ?rest = "bindI (liftI (update index (map py_str (list_or_empty (dget preview ''skill_ids'')))))
           (commit_index H mode preview index dir (file_remote root) pre)"
      show ?thesis
      proof (cases "n = 0")
        case True
        with p l n assms show ?thesis
          by (intro none [of "dmerge preview [(''mode'', PStr mode), (''dry_run'', PBool False), (''uploaded_files'', PInt 0),
              (''noop_reason'', PStr nr)]"]) (auto simp: execute_lifecycle_def ask_lift lift_bind returnI_def)
      next
        case False
        with p l n assms have e: "thenI (assert_remote_index_matches_cache H (file_remote root) pre index) ?rest w = (r, w')"
          by (simp add: execute_lifecycle_def ask_lift lift_bind)
        obtain a where a: "assert_remote_index_matches_cache H (file_remote root) pre index w = (a, w)"
          using assert_remote_keeps by (metis surj_pair snd_conv)
        show ?thesis
        proof (cases a)
          case (Inl e')
          with a e show ?thesis by (intro early [of e']) (auto simp: thenI_Inl)
        next
          case (Inr u)
          with a e have rest: "?rest w = (r, w')" by (simp add: thenI_Inr)
          from assert_remote_Inr [OF a [unfolded Inr]] l have "checked_remote H root pre dir w"
            by (auto simp: checked_remote_def)
          show ?thesis
          proof (cases "update index (map py_str (list_or_empty (dget preview ''skill_ids'')))")
            case (Inl e2)
            with rest show ?thesis by (intro early [of e2]) (auto simp: lift_bind)
          next
            case (Inr index')
            with rest p l \<open>checked_remote H root pre dir w\<close> show ?thesis by (intro run) (auto simp: lift_bind)
          qed
        qed
      qed
    qed
  qed
qed

text \<open>a lifecycle change cannot overwrite what another device published: unless the remote index
  still has the hash of the cached one, a deprecation writes nothing at all; when nothing is planned it
  reports no upload and writes nothing; and when it returns after an upload, the cache holds the new
  index computed from the cached one.\<close>

theorem deprecation_refuses_a_stale_cache:
  assumes "execute_central_deprecate H c c' dir ids (file_remote root) pre actor reason True w = (r, w')" and "clean dir"
  shows "(w' = w \<or> checked_remote H root pre dir w)
    \<and> (\<forall>res. r = Inr res \<longrightarrow> (dget res ''uploaded_files'' = PInt 0 \<and> w' = w)
        \<or> (dget res ''uploaded_files'' = PInt 1 \<and> (\<exists>index index' done. lifecycle_load_index w dir = Inr index
            \<and> deprecate_index c' index done actor reason = Inr index'
            \<and> file_at w' (dir @ [''index.json'']) = Some (Json (canon (PDict index'))))))"
  using assms(1) unfolding execute_central_deprecate_def
proof (cases rule: execute_lifecycle_outcomes)
  case (run preview index index')
  then show ?thesis using commit_index_Inr [OF _ assms(2), of H "''deprecate''" preview index "file_remote root" pre index' w] by blast
qed auto

definition text_host :: host where
  "text_host = \<lparr>h_sha = (\<lambda>d. case d of Raw s \<Rightarrow> s | _ \<Rightarrow> []),
     h_size = (\<lambda>d. case d of Raw s \<Rightarrow> int (length s) | _ \<Rightarrow> 0), h_dumps = py_repr\<rparr>"

definition central_entry :: "string \<Rightarrow> pyval" where
  "central_entry s = PDict [(''skill_id'', PStr s), (''content_hash'', PStr ''h''), (''archive'', PStr ''a.zip'')]"

definition central_index :: pydict where
  "central_index = [(''snapshot_id'', PStr ''s''), (''skills'', PList [central_entry ''a'', central_entry ''b''])]"

definition central_world :: "pydict \<Rightarrow> world" where
  "central_world cached = \<lparr>w_tree = NDir
     [(''c'', NDir [(''index.json'', NFile (Json (PDict cached)))]),
      (''r'', NDir [(''index.json'', NFile (Json (PDict central_index)))])], w_fault = None\<rparr>"

definition clock0 :: clock where
  "clock0 = \<lparr>ck_iso = ''t'', ck_stamp = ''z''\<rparr>"

theorem deprecation_refuses_a_stale_cache_witness:
  "\<exists>r w'. execute_central_deprecate text_host clock0 clock0 [''c''] ['' a ''] (file_remote [''r'']) [] ''mac'' [] True
        (central_world [(''skills'', PList [central_entry ''a''])]) = (Inl r, w')
      \<and> w' = central_world [(''skills'', PList [central_entry ''a''])]"
proof -
  let ?w = "central_world [(''skills'', PList [central_entry ''a''])]"
  let ?x = "execute_central_deprecate text_host clock0 clock0 [''c''] ['' a ''] (file_remote [''r'']) [] ''mac'' [] True ?w"
  have "case fst ?x of Inl e \<Rightarrow> True | Inr y \<Rightarrow> False" by code_simp
  then obtain e w' where x: "?x = (Inl e, w')" by (cases ?x) (auto split: sum.splits)
  have "\<not> checked_remote text_host [''r''] [] [''c''] ?w" by code_simp
  with deprecation_refuses_a_stale_cache [OF x] x show ?thesis by simp
qed

theorem deprecation_marks_and_never_removes_witness:
  "\<exists>index'. deprecate_index clock0 central_index [''a''] ''mac'' ''old'' = Inr index'
     \<and> (\<exists>skills'. index_skills index' = Inr skills' \<and> map skill_lifecycle_state skills' = [''deprecated'', ''published''] \<and> length skills' = 2)"
proof -
  have s: "index_skills central_index = Inr [dict_or_empty (central_entry ''a''), dict_or_empty (central_entry ''b'')]"
    by code_simp
  have "case deprecate_index clock0 central_index [''a''] ''mac'' ''old'' of Inl e \<Rightarrow> False | Inr index' \<Rightarrow>
     (case index_skills index' of Inl e \<Rightarrow> False | Inr sk \<Rightarrow> map skill_lifecycle_state sk = [''deprecated'', ''published''])"
    by code_simp
  then obtain index' sk where i: "deprecate_index clock0 central_index [''a''] ''mac'' ''old'' = Inr index'"
    "index_skills index' = Inr sk" "map skill_lifecycle_state sk = [''deprecated'', ''published'']"
    by (auto split: sum.splits)
  from deprecation_marks_and_never_removes [OF i(1) s] i show ?thesis by auto
qed

theorem reactivation_undoes_deprecation_witness:
  "\<exists>index1 index2 skills2. deprecate_index clock0 central_index [''a''] ''mac'' ''old'' = Inr index1
     \<and> reactivate_index clock0 index1 [''a''] ''mac'' [] = Inr index2
     \<and> index_skills index2 = Inr skills2 \<and> map skill_lifecycle_state skills2 = [''published'', ''published'']"
proof -
  have s: "index_skills central_index = Inr [dict_or_empty (central_entry ''a''), dict_or_empty (central_entry ''b'')]"
    by code_simp
  have "case deprecate_index clock0 central_index [''a''] ''mac'' ''old'' of Inl e \<Rightarrow> False | Inr index1 \<Rightarrow>
     (case reactivate_index clock0 index1 [''a''] ''mac'' [] of Inl e \<Rightarrow> False | Inr index2 \<Rightarrow>
       (case index_skills index2 of Inl e \<Rightarrow> False | Inr sk \<Rightarrow> map skill_lifecycle_state sk = [''published'', ''published'']))"
    by code_simp
  then obtain index1 index2 where i: "deprecate_index clock0 central_index [''a''] ''mac'' ''old'' = Inr index1"
    "reactivate_index clock0 index1 [''a''] ''mac'' [] = Inr index2"
    "case index_skills index2 of Inl e \<Rightarrow> False | Inr sk \<Rightarrow> map skill_lifecycle_state sk = [''published'', ''published'']"
    by (auto split: sum.splits)
  from reactivation_undoes_deprecation [OF i(1) s i(2)] obtain skills2 where "index_skills index2 = Inr skills2" by blast
  with i show ?thesis by auto
qed

end
