(* ===== verification/Snapshot.thy ===== *)
theory Snapshot
  imports Remote
begin

text \<open>
  \<open>snapshot.py\<close>: a snapshot directory is one archive per scanned skill, named by its content hash
  below \<open>skills/<source>/<id>\<close>, and an index of all of them. Also temporary directories.
\<close>

section \<open>Archives\<close>

text \<open>The members of a skill's archive: its record as the manifest, then each of its files as it is on disk.
  The archive is written once its members have been read.\<close>

definition write_skill_zip :: "skill_record \<Rightarrow> path \<Rightarrow> unit io" where
  "write_skill_zip skill archive_path =
     bindI (mapI (\<lambda>f. bindI (read_data (path_div (sk_path skill) (sf_path f))) (\<lambda>d. returnI (sf_path f, d))) (sk_files skill)) (\<lambda>files.
       write_data archive_path (Archive ((manifest_name, Json (PDict (record_to_dict True skill))) # files)))"

section \<open>Entries and index\<close>

definition archive_rel :: "skill_record \<Rightarrow> string" where
  "archive_rel skill = ''skills/'' @ normalize_skill_id (sk_source skill) @ ''/'' @ sk_id skill @ ''/'' @ sk_hash skill @ ''.zip''"

definition snapshot_entry :: "skill_record \<Rightarrow> pydict" where
  "snapshot_entry skill =
     [(''key'', PStr (sk_source skill @ ''/'' @ sk_id skill)), (''source'', PStr (sk_source skill)),
      (''skill_id'', PStr (sk_id skill)), (''scope'', sk_scope skill), (''name'', sk_name skill),
      (''description'', sk_description skill), (''targets'', PList (sk_targets skill)),
      (''project_path'', opt_path (sk_project_path skill)), (''content_hash'', PStr (sk_hash skill)),
      (''risk_level'', PStr (risk_level skill)), (''size_bytes'', PInt (sk_size skill)),
      (''file_count'', PInt (sk_file_count skill)), (''source_path'', PStr (path_str (sk_path skill))),
      (''archive'', PStr (archive_rel skill)), (''issues'', PList (map (PDict \<circ> issue_dict) (sk_issues skill)))]"

definition snapshot_index :: "string \<Rightarrow> string \<Rightarrow> skill_record list \<Rightarrow> pydict" where
  "snapshot_index snapshot_id created_at skills =
     [(''protocol_version'', PInt 0), (''snapshot_id'', PStr snapshot_id), (''created_at'', PStr created_at),
      (''total'', PInt (int (length skills))), (''skills'', PList (map (PDict \<circ> snapshot_entry) skills))]"

definition write_entry :: "path \<Rightarrow> skill_record \<Rightarrow> unit \<Rightarrow> unit io" where
  "write_entry output_dir skill u =
     thenI (mkdirs (path_div (output_dir @ [''skills'', normalize_skill_id (sk_source skill)]) (sk_id skill)))
       (write_skill_zip skill (path_div output_dir (archive_rel skill)))"

definition write_snapshot :: "skill_record list \<Rightarrow> path \<Rightarrow> string \<Rightarrow> string \<Rightarrow> pydict io" where
  "write_snapshot skills output_dir snapshot_id created_at =
     thenI (mkdirs output_dir)
       (thenI (mkdirs (output_dir @ [''skills'']))
         (thenI (foldI (write_entry output_dir) skills ())
           (let index = snapshot_index snapshot_id created_at skills in
            thenI (write_data (output_dir @ [''index.json'']) (Json (PDict index))) (returnI index))))"

section \<open>Temporary directories\<close>

text \<open>\<open>with TemporaryDirectory() as tmp\<close>: made before, removed after, also when the body raises.\<close>

definition with_tmp :: "path \<Rightarrow> 'a io \<Rightarrow> 'a io" where
  "with_tmp tmp m =
     thenI (mkdirs tmp)
       (bindI (catchI m (\<lambda>e. thenI (remove_path tmp) (raiseI e))) (\<lambda>x. thenI (remove_path tmp) (returnI x)))"

section \<open>What an index of a snapshot says\<close>

lemma dget_snapshot_entry:
  "dget (snapshot_entry r) ''skill_id'' = PStr (sk_id r)" "dget (snapshot_entry r) ''content_hash'' = PStr (sk_hash r)"
  "dget (snapshot_entry r) ''archive'' = PStr (archive_rel r)" "dget (snapshot_entry r) ''lifecycle'' = PNone"
  "dget (snapshot_entry r) ''state'' = PNone" "dget (snapshot_entry r) ''scope'' = sk_scope r"
  by (simp_all add: snapshot_entry_def)

lemma snapshot_index_skills:
  "py_iter (dget_or (snapshot_index s c skills) ''skills'' v) = Inr (map (PDict \<circ> snapshot_entry) skills)"
  "dget (snapshot_index s c skills) ''snapshot_id'' = PStr s"
  by (simp_all add: snapshot_index_def)

lemma write_snapshot_Inr:
  assumes "write_snapshot skills out s c w = (Inr index, w')" "clean out"
  shows "index = snapshot_index s c skills" "file_at w' (out @ [''index.json'']) = Some (Json (PDict index))"
  using assms write_data_Inr [of "out @ [''index.json'']"]
  by (auto simp: write_snapshot_def Let_def io_Inr file_at_def)

section \<open>A snapshot is written below its directory\<close>

lemma scan_found_mem:
  "scan_found H w source mds acc = Inr (seen, skills) \<Longrightarrow> r \<in> set skills
    \<Longrightarrow> r \<in> set (snd acc) \<or> (\<exists>d md. scan_skill H w source d md = Inr r)"
proof (induction H w source mds acc arbitrary: seen skills rule: scan_found.induct)
  case (2 H w source md mds seen0 skills0)
  then show ?case by (fastforce simp: Let_def split: if_splits)
qed auto

lemma scan_each_root_mem:
  "scan_each_root H w roots acc = Inr (seen, skills) \<Longrightarrow> r \<in> set skills
    \<Longrightarrow> r \<in> set (snd acc) \<or> (\<exists>s d md. s \<in> fst ` set roots \<and> scan_skill H w s d md = Inr r)"
proof (induction H w roots acc arbitrary: seen skills rule: scan_each_root.induct)
  case (2 H w source root roots acc)
  show ?case
  proof (cases "at w root")
    case None
    with 2 show ?thesis by auto
  next
    case (Some n)
    with 2(3) obtain seen1 skills1 where f: "scan_found H w source (discover_skill_files (norm_path root) n) acc = Inr (seen1, skills1)"
      "scan_each_root H w roots (seen1, skills1) = Inr (seen, skills)" by auto
    from 2(2) [OF Some f(1) f(2) 2(4)] show ?thesis
    proof
      assume "r \<in> set (snd (seen1, skills1))"
      then have "r \<in> set skills1" by simp
      from scan_found_mem [OF f(1) this] show ?thesis by auto
    next
      assume "\<exists>s d md. s \<in> fst ` set roots \<and> scan_skill H w s d md = Inr r"
      then show ?thesis by auto
    qed
  qed
qed auto

lemma scan_roots_mem:
  assumes "scan_roots H w roots = Inr summary" "r \<in> set (ss_skills summary)"
  obtains s d md where "s \<in> fst ` set roots" "scan_skill H w s d md = Inr r"
proof -
  from assms obtain seen skills where e: "scan_each_root H w roots ([], []) = Inr (seen, skills)" "r \<in> set skills"
    by (auto simp: scan_roots_def sort_records_def)
  from scan_each_root_mem [OF e] that show ?thesis by auto
qed

text \<open>A component that can be a path component as it is.\<close>

definition plain_name :: "string \<Rightarrow> bool" where
  "plain_name s = (s \<noteq> [] \<and> s \<noteq> ''.'' \<and> s \<noteq> ''..'' \<and> CHR 0x2F \<notin> set s)"

lemma plain_normalize_skill_id: "plain_name (normalize_skill_id raw)"
  using normalize_skill_id_facts [of raw]
  by (cases "normalize_skill_id raw") (auto simp: plain_name_def list_all_iff safe_id_char_def is_lower_alpha_def is_digit_def)

lemma plain_suffix: "CHR 0x2F \<notin> set s \<Longrightarrow> plain_name (s @ ''.zip'')"
proof -
  assume a: "CHR 0x2F \<notin> set s"
  have "length (s @ ''.zip'') > 2" by simp
  then have "s @ ''.zip'' \<noteq> ''.''" "s @ ''.zip'' \<noteq> ''..''" by fastforce+
  with a show ?thesis by (simp add: plain_name_def)
qed

text \<open>A digest is text without separators, as SHA-256's hexadecimal digest is.\<close>

definition digest_host :: "host \<Rightarrow> bool" where
  "digest_host H = (\<forall>d. CHR 0x2F \<notin> set (h_sha H d))"

lemma scanned_archive:
  assumes "scan_roots H w roots = Inr summary" "r \<in> set (ss_skills summary)" "digest_host H"
  shows "path_of (archive_rel r) = [''skills'', normalize_skill_id (sk_source r), sk_id r, sk_hash r @ ''.zip'']"
    "plain_name (sk_id r)" "plain_name (sk_hash r @ ''.zip'')"
proof -
  obtain s d md where k: "scan_skill H w s d md = Inr r" by (rule scan_roots_mem [OF assms(1,2)])
  have "sk_hash r = hash_skill_files H (sk_files r)" by (rule scan_skill_Inr(2) [OF k])
  then have h: "CHR 0x2F \<notin> set (sk_hash r)" using assms(3) by (simp add: hash_skill_files_def digest_host_def)
  then show z: "plain_name (sk_hash r @ ''.zip'')" by (rule plain_suffix)
  have "\<exists>x. sk_id r = normalize_skill_id x"
    using k by (auto simp: scan_skill_def Let_def normalize_skill_id_value_def split: pyval.splits)
  then show i: "plain_name (sk_id r)" using plain_normalize_skill_id by auto
  have s: "plain_name ''skills''" by (simp add: plain_name_def)
  have "path_of (join_str ''/'' [''skills'', normalize_skill_id (sk_source r), sk_id r, sk_hash r @ ''.zip''])
      = [''skills'', normalize_skill_id (sk_source r), sk_id r, sk_hash r @ ''.zip'']"
    using i z s plain_normalize_skill_id [of "sk_source r"]
    by (subst path_of_def) (subst split_on_join; auto simp: plain_name_def)
  then show "path_of (archive_rel r) = [''skills'', normalize_skill_id (sk_source r), sk_id r, sk_hash r @ ''.zip'']"
    by (simp add: archive_rel_def)
qed

lemma write_entry_frame:
  assumes "clean out" "path_of (archive_rel r) = [''skills'', normalize_skill_id (sk_source r), sk_id r, z]"
    "plain_name (sk_id r)" "plain_name z"
  shows "only_under out (write_entry out r u)"
proof -
  have d: "path_div (out @ [''skills'', normalize_skill_id (sk_source r)]) (sk_id r) = out @ [''skills'', normalize_skill_id (sk_source r), sk_id r]"
    using assms(3) by (cases "sk_id r") (auto simp: plain_name_def path_div_def starts_with_def path_of_name)
  have a: "path_div out (archive_rel r) = out @ [''skills'', normalize_skill_id (sk_source r), sk_id r, z]"
    using assms(2) by (simp add: path_div_def starts_with_def archive_rel_def)
  have c: "norm_path (out @ [''skills'', normalize_skill_id (sk_source r), sk_id r]) = out @ [''skills'', normalize_skill_id (sk_source r), sk_id r]"
    "norm_path (out @ [''skills'', normalize_skill_id (sk_source r), sk_id r, z]) = out @ [''skills'', normalize_skill_id (sk_source r), sk_id r, z]"
    using assms plain_normalize_skill_id [of "sk_source r"] by (auto simp: plain_name_def intro!: norm_path_clean)
  show ?thesis unfolding write_entry_def write_skill_zip_def d a
    by (intro frame_intros) (simp_all add: c apart_def)
qed

lemma write_snapshot_frame:
  assumes "scan_roots H w0 roots = Inr summary" "digest_host H" "clean out"
  shows "only_under out (write_snapshot (ss_skills summary) out s c)"
proof -
  note w = write_entry_frame [OF assms(3) scanned_archive [OF assms(1) _ assms(2)]]
  have m: "only_under out (foldI (write_entry out) (ss_skills summary) ())" by (intro only_under_foldI w)
  have "\<not> apart out (norm_path (out @ [''skills'']))" "prefix out (norm_path (out @ [''index.json'']))" "\<not> apart out (norm_path out)"
    using assms(3) by (simp_all add: apart_def)
  then show ?thesis unfolding write_snapshot_def Let_def by (intro frame_intros m)
qed

section \<open>Publishing the index of a snapshot\<close>

lemma keeps_frame: "only_under p m \<Longrightarrow> apart p q \<Longrightarrow> clean q \<Longrightarrow> keeps (\<lambda>w. file_at w q) m"
  by (rule keepsI) (simp add: file_at_def only_underD)

lemma upload_file_frame: "only_under root (upload_file (file_remote root) pre inc skip f acc)"
  unfolding upload_file_def store_file_def Let_def file_remote_simps file_exists_def
  by (intro frame_intros file_ensure_dir_frame file_put_frame)

lemma upload_snapshot_frame: "only_under root (upload_snapshot dir (file_remote root) pre inc skip)"
  unfolding upload_snapshot_def by (intro frame_intros upload_file_frame)

lemma index_rel_unique: "join_str ''/'' p = ''index.json'' \<Longrightarrow> p = [''index.json'']"
proof (induction p)
  case (Cons c cs)
  show ?case
  proof (cases cs)
    case (Cons d ds)
    then have "CHR 0x2F \<in> set (join_str ''/'' (c # cs))" by simp
    with Cons.prems show ?thesis by simp
  qed (use Cons.prems in simp)
qed simp

lemma build_upload_plan_index:
  "f \<in> set (build_upload_plan w dir) \<Longrightarrow> snd f = ''index.json'' \<Longrightarrow> f = (dir @ [''index.json''], ''index.json'')"
  by (auto simp: build_upload_plan_def dest!: index_rel_unique split: option.splits node.splits)

lemma tree_files_file:
  "lookup n r = Some (NFile d) \<Longrightarrow> p @ r \<in> set (tree_files p n)"
proof (induction r arbitrary: n p)
  case Nil
  then show ?case by (cases n) auto
next
  case (Cons c r)
  then obtain es m where n: "n = NDir es" and m: "map_of es c = Some m" "lookup m r = Some (NFile d)"
    by (cases n) (auto split: option.splits)
  have "(p @ [c]) @ r \<in> set (tree_files (p @ [c]) m)" by (rule Cons.IH [OF m(2)])
  moreover have "(c, m) \<in> set es" using m(1) by (rule map_of_SomeD)
  ultimately show ?case unfolding n by (force simp: set_sort_items)
qed

lemma upload_publishes_index:
  assumes up: "upload_snapshot dir (file_remote root) pre inc skip w = (Inr files, w')"
    and d: "file_at w (dir @ [''index.json'']) = Some d" and c: "clean dir" and a: "apart root dir"
  shows "file_get_option root (join_remote_path pre ''index.json'') w' = Some d"
proof -
  let ?ix = "(dir @ [''index.json''], ''index.json'')" and ?up = "upload_file (file_remote root) pre inc skip"
  let ?plan = "build_upload_plan w dir"
  have cs: "clean (fst ?ix)" using c by simp
  have as: "apart root (fst ?ix)" using apart_under [OF apart_sym [OF a], of "fst ?ix"] by (auto intro: apart_sym)
  have e: "foldI ?up (filter (\<lambda>f. snd f \<noteq> ''index.json'') ?plan @ filter (\<lambda>f. snd f = ''index.json'') ?plan) [] w = (Inr files, w')"
    using up by (simp add: upload_snapshot_def upload_order_split bindI_def askI_def)
  have split: "\<exists>acc1 w1. foldI f xs s v = (Inr acc1, w1) \<and> foldI f ys acc1 w1 = (r, v')"
    if "foldI f (xs @ ys) s v = (r, v')" "r = Inr x" for f :: "path \<times> string \<Rightarrow> (path \<times> string) list \<Rightarrow> _" and xs ys s v r v' x
    using that by (induction xs arbitrary: s v) (auto simp: io_Inr)
  from split [OF e refl] obtain acc1 w1 where f: "foldI ?up (filter (\<lambda>f. snd f \<noteq> ''index.json'') ?plan) [] w = (Inr acc1, w1)"
    "foldI ?up (filter (\<lambda>f. snd f = ''index.json'') ?plan) acc1 w1 = (Inr files, w')" by blast
  have d1: "file_at w1 (fst ?ix) = Some d"
    using keepsD [OF keeps_frame [OF only_under_foldI [OF upload_file_frame] as cs] f(1)] d by simp
  have "at w dir \<noteq> None \<and> ?ix \<in> set ?plan"
  proof -
    from d have l: "lookup (w_tree w) (dir @ [''index.json'']) = Some (NFile d)"
      using c by (simp add: file_at_def split: option.splits node.splits)
    then obtain n where n: "lookup (w_tree w) dir = Some n" "lookup n [''index.json''] = Some (NFile d)"
      by (auto simp: lookup_append split: option.splits)
    then obtain es where "n = NDir es" by (cases n) auto
    with n c tree_files_file [OF n(2), of "[]"] show ?thesis by (force simp: build_upload_plan_def at_clean)
  qed
  then have "?ix \<in> set (filter (\<lambda>f. snd f = ''index.json'') ?plan)" by simp
  then have ne: "filter (\<lambda>f. snd f = ''index.json'') ?plan \<noteq> []" by (metis empty_iff list.set(1))
  have fold: "file_get_option root (join_remote_path pre ''index.json'') v' = Some d"
    if "foldI ?up fs acc v = (Inr files, v')" "fs \<noteq> []" "set fs \<subseteq> {?ix}" "file_at v (fst ?ix) = Some d" for fs acc v v'
    using that
  proof (induction fs arbitrary: acc v)
    case (Cons g fs)
    then have g: "g = ?ix" by simp
    from Cons.prems(1) obtain acc2 v2 where u: "?up ?ix acc v = (Inr acc2, v2)" "foldI ?up fs acc2 v2 = (Inr files, v')"
      unfolding g by (auto simp: io_Inr)
    have v2: "file_at v2 (fst ?ix) = Some d" using keepsD [OF keeps_frame [OF upload_file_frame as cs] u(1)] Cons.prems(4) by simp
    show ?case
    proof (cases "fs = []")
      case False
      with Cons.IH [OF u(2) _ _ v2] Cons.prems(3) show ?thesis by simp
    next
      case True
      with u have v': "?up ?ix acc v = (Inr acc2, v')" by (simp add: returnI_def)
      obtain t where t: "file_path root (join_remote_path pre (snd ?ix)) = Inr t"
        using v' by (cases "file_path root (join_remote_path pre ''index.json'')")
          (auto simp: upload_file_def store_file_def Let_def io_Inr file_put_def)
      have "apart t (fst ?ix)" using as file_path_Inr [OF t] by (blast intro: apart_under)
      from upload_file_Inr(2) [OF t cs this _ v'] t Cons.prems(4) show ?thesis by (simp add: chosen_def file_get_option)
    qed
  qed simp
  show ?thesis by (rule fold [OF f(2) ne _ d1]) (use build_upload_plan_index in auto)
qed

end
