(* ===== verification/SyncApply.thy ===== *)
theory SyncApply
  imports CentralLifecycle Snapshot
begin

text \<open>
  \<open>sync_apply.py\<close>: what a sync would do and doing it. The preview joins the plan with the remote
  entries and refuses what does not fit the target; the execution refuses a preview with anything
  blocked or unsupported, checks the remote before a push, installs the pulls from a staged copy of
  the cache, then publishes a snapshot of the whole local root and records the new base.
\<close>

section \<open>Targets\<close>

definition pull_actions :: "string list" where
  "pull_actions = [''pull'', ''pull_new'']"

definition push_actions :: "string list" where
  "push_actions = [''push'', ''push_new'']"

definition supported_actions :: "string list" where
  "supported_actions = ''noop'' # pull_actions @ push_actions"

definition target_scopes :: "(string \<times> string option) list" where
  "target_scopes = [(''cc-switch-global'', Some ''global''), (''skillshub-global'', Some ''global''),
     (''codex-global'', Some ''global''), (''cursor-global'', Some ''global''), (''claude-code-global'', Some ''global''),
     (''qoder-global'', Some ''global''), (''deepseek-harness-global'', Some ''global''),
     (''codex-project'', Some ''project''), (''mixed-scope-root'', None)]"

definition target_aliases :: "(string \<times> string list) list" where
  "target_aliases = [(''cc-switch-global'', [''cc-switch'']), (''skillshub-global'', [''skillshub'']),
     (''codex-global'', [''codex'']), (''cursor-global'', [''cursor'']), (''claude-code-global'', [''claude-code'', ''claude'']),
     (''qoder-global'', [''qoder'']), (''deepseek-harness-global'', [''deepseek-harness'', ''deepseek'']),
     (''codex-project'', [''codex'']), (''mixed-scope-root'', [])]"

definition expected_scope :: "string \<Rightarrow> string option res" where
  "expected_scope target = (case map_of target_scopes target of Some s \<Rightarrow> Inr s
     | None \<Rightarrow> Inl (Exn SyncApplyError (''unsupported sync-apply target: '' @ target)))"

definition allowed_scopes :: "string \<Rightarrow> string list res" where
  "allowed_scopes target = bindR (expected_scope target) (\<lambda>e. Inr (case e of None \<Rightarrow> [''global'', ''project''] | Some s \<Rightarrow> [s]))"

definition sync_targets_tool :: "string list \<Rightarrow> string \<Rightarrow> bool" where
  "sync_targets_tool targets target =
     (let aliases = (case map_of target_aliases target of Some xs \<Rightarrow> xs | None \<Rightarrow> []) in
      aliases = [] \<or> targets = [] \<or> list_ex (\<lambda>t. lower (strip t) \<in> set aliases) targets)"

section \<open>The preview\<close>

definition remote_entries_by_id :: "world \<Rightarrow> path \<Rightarrow> (string \<times> pydict) list res" where
  "remote_entries_by_id w snapshot_dir =
     (if \<not> exists w (snapshot_dir @ [''index.json'']) then Inr []
      else bindR (fst (read_json (snapshot_dir @ [''index.json'']) w)) (\<lambda>loaded. bindR (as_dict loaded) (\<lambda>index.
        bindR (py_iter (dget_or index ''skills'' (PList []))) (\<lambda>raws. bindR (mapR as_dict raws) (\<lambda>skills.
          Inr (fold (\<lambda>s entries. if truthy (dget s ''skill_id'') then AList.update (py_str (dget s ''skill_id'')) s entries else entries)
                 skills []))))))"

record preview_entry =
  pv_item :: sync_plan_item
  pv_remote_scope :: string
  pv_remote_targets :: "string list"
  pv_action :: string
  pv_supported :: bool
  pv_reason :: string
  pv_unsupported :: bool

definition preview_entry_dict :: "preview_entry \<Rightarrow> pydict" where
  "preview_entry_dict p = plan_item_dict (pv_item p) @
     [(''remote_scope'', PStr (pv_remote_scope p)), (''remote_targets'', strs (pv_remote_targets p)),
      (''sync_apply_action'', PStr (pv_action p)), (''sync_apply_supported'', PBool (pv_supported p)),
      (''sync_apply_reason'', PStr (pv_reason p))]"

text \<open>One item: \<open>pv_unsupported\<close> says that the item was counted as unsupported.\<close>

definition preview_one :: "string list \<Rightarrow> string \<Rightarrow> (string \<times> pydict) list \<Rightarrow> sync_plan_item \<Rightarrow> preview_entry res" where
  "preview_one scopes target remote_entries item =
     (let remote_entry = (case map_of remote_entries (pl_skill_id item) of Some e \<Rightarrow> e | None \<Rightarrow> []);
          scope = py_str (por (dget remote_entry ''scope'') (PStr ''global'')); action = pl_plan_action item in
      bindR (py_iter (por (dget remote_entry ''targets'') (PList []))) (\<lambda>ts.
        let targets = map py_str ts;
            mk = (\<lambda>act ok reason bad. Inr \<lparr>pv_item = item, pv_remote_scope = scope, pv_remote_targets = targets,
                    pv_action = act, pv_supported = ok, pv_reason = reason, pv_unsupported = bad\<rparr>)
        in if \<not> pl_allowed item then mk ''none'' False (pl_reason item) False
           else if action \<in> set pull_actions then
             (if scope \<notin> set scopes then mk ''none'' False (scope @ ''-scoped skills are not installed into '' @ target) True
              else if \<not> sync_targets_tool targets target then mk ''none'' False (''manifest targets do not include '' @ target) True
              else mk ''install_or_replace'' True (pl_reason item) False)
           else if action \<in> set push_actions then mk ''upload_snapshot'' True (pl_reason item) False
           else if action \<notin> set supported_actions
           then mk ''none'' False ''sync-apply currently supports pull/pull_new/push/push_new/noop only'' True
           else mk ''none'' True (pl_reason item) False))"

definition is_executable :: "preview_entry \<Rightarrow> bool" where
  "is_executable p = (pv_action p \<noteq> ''none'')"

definition sync_preview_items ::
    "host \<Rightarrow> world \<Rightarrow> sync_args \<Rightarrow> bool \<Rightarrow> bool \<Rightarrow> string \<Rightarrow> string \<Rightarrow> (pydict \<times> preview_entry list) res" where
  "sync_preview_items H w a allow_new allow_delete writer_policy target =
     bindR (allowed_scopes target) (\<lambda>scopes.
     bindR (build_sync_status H w a ''local'' None []) (\<lambda>status.
     bindR (plan_items allow_new allow_delete writer_policy status) (\<lambda>items.
     bindR (remote_entries_by_id w (sa_snapshot a)) (\<lambda>remote_entries.
     bindR (mapR (preview_one scopes target remote_entries) items) (\<lambda>entries.
       Inr (plan_dict writer_policy status items, entries))))))"

definition blocked_count :: "preview_entry list \<Rightarrow> nat" where
  "blocked_count entries = length (filter (\<lambda>p. \<not> pl_allowed (pv_item p)) entries)"

definition unsupported_count :: "preview_entry list \<Rightarrow> nat" where
  "unsupported_count entries = length (filter pv_unsupported entries)"

definition sync_preview_dict :: "pydict \<Rightarrow> string \<Rightarrow> preview_entry list \<Rightarrow> pydict res" where
  "sync_preview_dict plan target entries =
     bindR (expected_scope target) (\<lambda>expected.
       Inr (dmerge plan
         [(''dry_run'', PBool True), (''mode'', PStr ''two-way-safe''), (''target'', PStr target),
          (''expected_scope'', PStr (case expected of Some s \<Rightarrow> s | None \<Rightarrow> ''global,project'')),
          (''executable'', PInt (int (length (filter is_executable entries)))),
          (''unsupported'', PInt (int (unsupported_count entries))),
          (''supported_to_apply'', PBool (blocked_count entries = 0 \<and> unsupported_count entries = 0)),
          (''items'', PList (map (PDict \<circ> preview_entry_dict) entries))]))"

definition build_sync_apply_preview ::
    "host \<Rightarrow> world \<Rightarrow> sync_args \<Rightarrow> bool \<Rightarrow> bool \<Rightarrow> string \<Rightarrow> string \<Rightarrow> pydict res" where
  "build_sync_apply_preview H w a allow_new allow_delete writer_policy target =
     bindR (sync_preview_items H w a allow_new allow_delete writer_policy target) (\<lambda>(plan, entries).
       sync_preview_dict plan target entries)"

section \<open>Pulling\<close>

definition action_ids :: "preview_entry list \<Rightarrow> string list \<Rightarrow> string list" where
  "action_ids entries actions =
     map (pl_skill_id \<circ> pv_item) (filter (\<lambda>p. pl_plan_action (pv_item p) \<in> set actions \<and> pl_allowed (pv_item p)) entries)"

definition pull_plan_item ::
    "path \<Rightarrow> path \<Rightarrow> string \<Rightarrow> string list \<Rightarrow> (string \<times> pydict) list \<Rightarrow> preview_entry \<Rightarrow> pydict res" where
  "pull_plan_item local_root backup_root target scopes staged_by_id p =
     (let skill_id = pl_skill_id (pv_item p) in
      case map_of staged_by_id skill_id of
        None \<Rightarrow> Inl (Exn SyncApplyError (''remote skill was not present after staging: '' @ skill_id))
      | Some staged \<Rightarrow>
          (let staged_scope = py_str (por (dget staged ''scope'') (PStr ''global'')) in
           if staged_scope \<notin> set scopes
           then Inl (Exn SyncApplyError (''refusing to install '' @ py_str (dget staged ''scope'') @ ''-scoped skill into '' @ target @ '': '' @ skill_id))
           else Inr [(''key'', dget staged ''key''), (''skill_id'', PStr skill_id),
                (''content_hash'', por (por (dget staged ''content_hash'') (pl_remote_hash (pv_item p))) (PStr [])),
                (''source_path'', dget staged ''output_path''),
                (''target_path'', PStr (path_str (path_div local_root skill_id))),
                (''backup_path'', PStr (path_str (path_div backup_root skill_id))),
                (''action'', PStr ''install_or_replace''), (''scope'', PStr staged_scope), (''allowed'', PBool True),
                (''reason'', PStr (pl_reason (pv_item p)))]))"

definition build_pull_apply_plan ::
    "path \<Rightarrow> path \<Rightarrow> pydict \<Rightarrow> preview_entry list \<Rightarrow> string \<Rightarrow> path option \<Rightarrow> string \<Rightarrow> pydict res" where
  "build_pull_apply_plan local_root snapshot_dir stage_index entries target backup_override apply_id =
     (let backup_root = path_div (case backup_override of Some b \<Rightarrow> b | None \<Rightarrow> local_root @ [''.skill-sync-backups'']) apply_id;
          staged = only_dicts (list_or_empty (dget stage_index ''skills''));
          staged_by_id = fold (\<lambda>s m. AList.update (py_str (dget s ''skill_id'')) s m) staged [] in
      bindR (allowed_scopes target) (\<lambda>scopes.
      bindR (mapR (pull_plan_item local_root backup_root target scopes staged_by_id)
               (filter (\<lambda>p. pl_plan_action (pv_item p) \<in> set pull_actions) entries)) (\<lambda>items.
        Inr [(''apply_id'', PStr apply_id), (''target'', PStr target),
             (''target_root'', PStr (path_str (norm_path local_root))),
             (''backup_root'', PStr (path_str (norm_path backup_root))),
             (''snapshot_id'', dget stage_index ''snapshot_id''),
             (''staged_snapshot'', PStr (path_str (norm_path
                (if items \<noteq> [] \<and> staged \<noteq> []
                 then path_parent (path_parent (path_of (py_str (dget (hd staged) ''output_path''))))
                 else snapshot_dir)))),
             (''dry_run'', PBool False), (''total'', PInt (int (length items))),
             (''allowed'', PInt (int (length items))), (''skipped'', PInt 0),
             (''items'', PList (map PDict items))])))"

section \<open>Pushing\<close>

definition hashes_by_id :: "pyval \<Rightarrow> (string \<times> string) list res" where
  "hashes_by_id index_value =
     bindR (as_dict index_value) (\<lambda>index. bindR (py_iter (dget_or index ''skills'' (PList []))) (\<lambda>raws.
     bindR (mapR as_dict raws) (\<lambda>skills.
       Inr (fold (\<lambda>s m. AList.update (py_str (dget s ''skill_id'')) (py_str (dget s ''content_hash'')) m)
         (filter (\<lambda>s. truthy (dget s ''skill_id'') \<and> truthy (dget s ''content_hash'')) skills) []))))"

text \<open>Two Python dictionaries are equal when they have the same items.\<close>

definition same_items :: "(string \<times> string) list \<Rightarrow> (string \<times> string) list \<Rightarrow> bool" where
  "same_items a b = (sort_items a = sort_items b)"

definition assert_remote_matches_cache :: "remote \<Rightarrow> string \<Rightarrow> path \<Rightarrow> unit io" where
  "assert_remote_matches_cache R remote_prefix snapshot_dir =
     bindI (askI (\<lambda>w. exists w (snapshot_dir @ [''index.json'']))) (\<lambda>present.
       if \<not> present then raiseI (Exn SyncApplyError (''remote snapshot cache has no index.json: '' @ path_str snapshot_dir))
       else bindI (read_json (snapshot_dir @ [''index.json''])) (\<lambda>cache_index.
         bindI (bindI (rm_get R (join_remote_path remote_prefix ''index.json'')) (\<lambda>d. liftI (json_loads d))) (\<lambda>remote_index.
         bindI (liftI (hashes_by_id remote_index)) (\<lambda>rh.
         bindI (liftI (hashes_by_id cache_index)) (\<lambda>ch.
           if \<not> same_items rh ch
           then raiseI (Exn SyncApplyError ''remote changed since the local cache was pulled; refresh pull-cache before pushing'')
           else returnI ())))))"

definition archive_paths_for_ids :: "pydict \<Rightarrow> string list \<Rightarrow> string list" where
  "archive_paths_for_ids index ids =
     map (\<lambda>s. py_str (dget s ''archive''))
       (filter (\<lambda>s. py_str (dget s ''skill_id'') \<in> set ids \<and> truthy (dget s ''archive''))
         (only_dicts (list_or_empty (dget index ''skills''))))"

definition push_local_snapshot ::
    "host \<Rightarrow> path \<Rightarrow> remote \<Rightarrow> string \<Rightarrow> string list \<Rightarrow> path \<Rightarrow> string \<Rightarrow> string \<Rightarrow> (pydict \<times> pydict) io" where
  "push_local_snapshot H local_root R remote_prefix push_ids tmp label created_at =
     with_tmp tmp
       (bindI (bindI (askI (\<lambda>w. scan_roots H w [(''cc-switch'', local_root)])) liftI) (\<lambda>summary.
        bindI (write_snapshot (ss_skills summary) (tmp @ [''snapshot'']) label created_at) (\<lambda>index.
        bindI (upload_snapshot (tmp @ [''snapshot'']) R remote_prefix
                 (if push_ids \<noteq> [] then Some (archive_paths_for_ids index push_ids) else None) False) (\<lambda>files.
        bindI (askI (\<lambda>w. plan_bytes H w files)) (\<lambda>bytes.
          returnI ([(''snapshot_id'', dget index ''snapshot_id''), (''total'', dget index ''total''),
             (''files'', PInt (int (length files))), (''bytes'', PInt bytes),
             (''remote_prefix'', PStr remote_prefix), (''snapshot_index'', PDict index)], index))))))"

definition base_record :: "path \<Rightarrow> string \<Rightarrow> string \<Rightarrow> string \<Rightarrow> pydict \<Rightarrow> pydict list \<Rightarrow> pydict" where
  "base_record local_root remote_prefix sync_id created_at index skills =
     [(''protocol_version'', PInt 0), (''record_type'', PStr ''skill-sync-base''), (''sync_id'', PStr sync_id),
      (''created_at'', PStr created_at), (''target_root'', PStr (path_str (norm_path local_root))),
      (''remote_prefix'', PStr remote_prefix), (''snapshot_id'', dget index ''snapshot_id''),
      (''applied'', PList (map (\<lambda>s. PDict [(''skill_id'', dget s ''skill_id''), (''content_hash'', dget s ''content_hash'')])
         (filter (\<lambda>s. truthy (dget s ''skill_id'') \<and> truthy (dget s ''content_hash'')) skills)))]"

definition write_sync_base_record :: "path \<Rightarrow> pydict \<Rightarrow> string \<Rightarrow> string \<Rightarrow> string \<Rightarrow> path io" where
  "write_sync_base_record local_root index remote_prefix sync_id created_at =
     (let record_dir = local_root @ [''.skill-sync-bases'']; record_path = path_div record_dir (sync_id @ ''.json'') in
      thenI (mkdirs record_dir)
        (bindI (liftI (bindR (py_iter (dget_or index ''skills'' (PList []))) (mapR as_dict))) (\<lambda>skills.
          thenI (write_data record_path (Json (PDict (base_record local_root remote_prefix sync_id created_at index skills))))
            (returnI record_path))))"

section \<open>The execution\<close>

text \<open>The names and times the run makes up: the two temporary directories, the apply id, the snapshot
  label, the base record's id, and the clock.\<close>

record run_names =
  rn_stage_tmp :: path
  rn_push_tmp :: path
  rn_apply_id :: string
  rn_label :: string
  rn_sync_id :: string
  rn_now :: string

definition run_pulls :: "host \<Rightarrow> sync_args \<Rightarrow> preview_entry list \<Rightarrow> string \<Rightarrow> path option \<Rightarrow> run_names \<Rightarrow> pydict io" where
  "run_pulls H a entries target backup_root n =
     with_tmp (rn_stage_tmp n)
       (bindI (stage_snapshot H (sa_snapshot a) (rn_stage_tmp n) True) (\<lambda>stage_index.
        bindI (liftI (build_pull_apply_plan (sa_local_root a) (sa_snapshot a) stage_index entries target backup_root (rn_apply_id n)))
          (\<lambda>plan. execute_apply_plan plan (rn_apply_id n) (rn_now n) (rn_now n))))"

definition run_pushes :: "host \<Rightarrow> sync_args \<Rightarrow> preview_entry list \<Rightarrow> remote \<Rightarrow> string \<Rightarrow> run_names \<Rightarrow> (pydict \<times> path) io" where
  "run_pushes H a entries R remote_prefix n =
     bindI (push_local_snapshot H (sa_local_root a) R remote_prefix (action_ids entries push_actions) (rn_push_tmp n) (rn_label n) (rn_now n))
       (\<lambda>(upload, index). bindI (write_sync_base_record (sa_local_root a) index remote_prefix (rn_sync_id n) (rn_now n))
          (\<lambda>base. returnI (upload, base)))"

definition sync_result :: "pydict \<Rightarrow> pydict option \<Rightarrow> (pydict \<times> path) option \<Rightarrow> pydict" where
  "sync_result preview apply_result upload =
     [(''status'', PStr ''complete''), (''dry_run'', PBool False), (''mode'', PStr ''two-way-safe''),
      (''applied'', case apply_result of None \<Rightarrow> PInt 0 | Some r \<Rightarrow> dget_or r ''total_applied'' (PInt 0)),
      (''uploaded'', case upload of None \<Rightarrow> PInt 0 | Some (u, b) \<Rightarrow> dget_or u ''files'' (PInt 0)),
      (''sync_plan'', PDict preview),
      (''apply_result'', case apply_result of None \<Rightarrow> PNone | Some r \<Rightarrow> PDict r),
      (''upload_result'', case upload of None \<Rightarrow> PNone | Some (u, b) \<Rightarrow> PDict u),
      (''base_record_path'', case upload of None \<Rightarrow> PNone | Some (u, b) \<Rightarrow> PStr (path_str b))]"

definition execute_sync_apply ::
    "host \<Rightarrow> sync_args \<Rightarrow> bool \<Rightarrow> bool \<Rightarrow> string \<Rightarrow> remote option \<Rightarrow> string \<Rightarrow> string \<Rightarrow> path option \<Rightarrow> run_names \<Rightarrow> pydict io" where
  "execute_sync_apply H a allow_new allow_delete writer_policy R remote_prefix target backup_root n =
     bindI (bindI (askI (\<lambda>w. sync_preview_items H w a allow_new allow_delete writer_policy target)) liftI) (\<lambda>(plan, entries).
     bindI (liftI (sync_preview_dict plan target entries)) (\<lambda>preview.
       let pulls = action_ids entries pull_actions; pushes = action_ids entries push_actions in
       if blocked_count entries \<noteq> 0
       then raiseI (Exn SyncApplyError (''sync plan has '' @ int_str (int (blocked_count entries)) @ '' blocked item(s); inspect sync-plan first''))
       else if unsupported_count entries \<noteq> 0
       then raiseI (Exn SyncApplyError ''sync-apply can currently execute only pull/pull_new/push/push_new/noop actions'')
       else if pushes \<noteq> [] \<and> R = None
       then raiseI (Exn SyncApplyError ''push actions require a remote destination'')
       else thenI (if pushes \<noteq> [] then assert_remote_matches_cache (the R) remote_prefix (sa_snapshot a) else returnI ())
         (bindI (if pulls \<noteq> [] then bindI (run_pulls H a entries target backup_root n) (\<lambda>r. returnI (Some r)) else returnI None) (\<lambda>apply_result.
          bindI (if pushes \<noteq> [] then bindI (run_pushes H a entries (the R) remote_prefix n) (\<lambda>r. returnI (Some r)) else returnI None) (\<lambda>upload.
            returnI (sync_result preview apply_result upload))))))"

section \<open>What a preview says\<close>

text \<open>\<open>fits_target\<close>: the scope and the targets of a preview item fit the target.\<close>

definition fits_target :: "string list \<Rightarrow> string \<Rightarrow> preview_entry \<Rightarrow> bool" where
  "fits_target scopes target p =
     (pv_remote_scope p \<in> set scopes \<and> sync_targets_tool (pv_remote_targets p) target)"

lemma preview_one_Inr:
  assumes "preview_one scopes target es item = Inr p"
  shows "pv_item p = item"
    "pv_action p = (if \<not> pl_allowed item then ''none''
       else if pl_plan_action item \<in> set pull_actions then (if fits_target scopes target p then ''install_or_replace'' else ''none'')
       else if pl_plan_action item \<in> set push_actions then ''upload_snapshot'' else ''none'')"
    "pv_unsupported p = (pl_allowed item \<and> pl_plan_action item \<noteq> ''noop'' \<and> pl_plan_action item \<notin> set push_actions
       \<and> \<not> (pl_plan_action item \<in> set pull_actions \<and> fits_target scopes target p))"
    "pv_supported p = (pl_allowed item \<and> \<not> pv_unsupported p)"
  using assms
  by (auto simp: preview_one_def Let_def fits_target_def supported_actions_def pull_actions_def push_actions_def split: if_splits)

lemma sync_preview_items_Inr:
  assumes "sync_preview_items H w a an ad pol target = Inr (plan, entries)"
  obtains scopes status items es where "allowed_scopes target = Inr scopes" "plan_items an ad pol status = Inr items"
    "plan = plan_dict pol status items" "list_all2 (\<lambda>i p. preview_one scopes target es i = Inr p) items entries"
  using assms by (auto simp: sync_preview_items_def mapR_Inr_iff)

text \<open>a preview separates what will be done from what will not: an item is installed exactly when it
  is an allowed pull whose scope and targets fit, uploaded exactly when it is an allowed push; deletions
  and deprecations are never executed; the items that will be executed, those unsupported, those blocked
  and those that need nothing are all the items.\<close>

theorem sync_preview_accounts_for_every_item:
  assumes "sync_preview_items H w a allow_new allow_delete policy target = Inr (plan, entries)"
    and "allowed_scopes target = Inr scopes"
  shows "(\<forall>p \<in> set entries.
        (pv_action p = ''install_or_replace'' \<longleftrightarrow> pl_allowed (pv_item p) \<and> pl_plan_action (pv_item p) \<in> {''pull'', ''pull_new''}
            \<and> fits_target scopes target p)
      \<and> (pv_action p = ''upload_snapshot'' \<longleftrightarrow> pl_allowed (pv_item p) \<and> pl_plan_action (pv_item p) \<in> {''push'', ''push_new''})
      \<and> (pl_plan_action (pv_item p) \<in> {''delete_local'', ''deprecate_remote''} \<longrightarrow> \<not> is_executable p)
      \<and> (pv_supported p \<longleftrightarrow> pl_allowed (pv_item p) \<and> \<not> pv_unsupported p))
    \<and> length (filter is_executable entries) + unsupported_count entries + blocked_count entries
        + length (filter (\<lambda>p. pl_allowed (pv_item p) \<and> pl_plan_action (pv_item p) = ''noop'') entries) = length entries"
proof -
  from sync_preview_items_Inr [OF assms(1)] obtain status items es where
    l: "list_all2 (\<lambda>i p. preview_one scopes target es i = Inr p) items entries"
    using assms(2) by (metis sum.inject(2))
  have one: "preview_one scopes target es (pv_item p) = Inr p" if "p \<in> set entries" for p
    using l that preview_one_Inr(1) by (fastforce simp: list_all2_conv_all_nth in_set_conv_nth)
  have cl: "is_executable p \<longleftrightarrow> pl_allowed (pv_item p) \<and> (pl_plan_action (pv_item p) \<in> set pull_actions \<and> fits_target scopes target p
      \<or> pl_plan_action (pv_item p) \<in> set push_actions)" if "p \<in> set entries" for p
    unfolding is_executable_def preview_one_Inr(2) [OF one [OF that]] by (simp add: pull_actions_def push_actions_def)
  have sum: "length (filter is_executable ps) + unsupported_count ps + blocked_count ps
        + length (filter (\<lambda>p. pl_allowed (pv_item p) \<and> pl_plan_action (pv_item p) = ''noop'') ps) = length ps"
    if "set ps \<subseteq> set entries" for ps
    using that
  proof (induction ps)
    case (Cons p ps)
    then have p: "p \<in> set entries" by simp
    from Cons show ?case
      using cl [OF p] preview_one_Inr(3) [OF one [OF p]]
      by (auto simp: unsupported_count_def blocked_count_def pull_actions_def push_actions_def)
  qed (simp add: unsupported_count_def blocked_count_def)
  have "(pv_action p = ''install_or_replace'' \<longleftrightarrow> pl_allowed (pv_item p) \<and> pl_plan_action (pv_item p) \<in> {''pull'', ''pull_new''}
            \<and> fits_target scopes target p)
      \<and> (pv_action p = ''upload_snapshot'' \<longleftrightarrow> pl_allowed (pv_item p) \<and> pl_plan_action (pv_item p) \<in> {''push'', ''push_new''})
      \<and> (pl_plan_action (pv_item p) \<in> {''delete_local'', ''deprecate_remote''} \<longrightarrow> \<not> is_executable p)
      \<and> (pv_supported p \<longleftrightarrow> pl_allowed (pv_item p) \<and> \<not> pv_unsupported p)" if "p \<in> set entries" for p
    using cl [OF that] preview_one_Inr(2,4) [OF one [OF that]]
    by (auto simp: pull_actions_def push_actions_def)
  with sum [OF order.refl] show ?thesis by blast
qed

section \<open>What a refused sync leaves\<close>

lemma keeps_all_Inl: "keeps (\<lambda>w. w) m \<Longrightarrow> m w = (r, w') \<Longrightarrow> w' = w"
  by (metis keeps_def snd_conv)

lemma assert_matches_keeps: "keeps (\<lambda>w. w) (assert_remote_matches_cache (file_remote root) pre dir)"
  unfolding assert_remote_matches_cache_def file_remote_simps by (intro keeps_intros keeps_file_get)

text \<open>A remote that reading does not change.\<close>

definition reads_only :: "remote \<Rightarrow> bool" where
  "reads_only R = (\<forall>p w. snd (rm_get R p w) = w)"

lemma file_remote_reads_only: "reads_only (file_remote root)"
  by (simp add: reads_only_def file_get_keeps)

text \<open>The cache is stale: its index and the one on the remote give some skill different hashes.\<close>

definition stale_cache :: "remote \<Rightarrow> string \<Rightarrow> path \<Rightarrow> world \<Rightarrow> bool" where
  "stale_cache R pre dir w =
     (case (file_at w (dir @ [''index.json'']), fst (rm_get R (join_remote_path pre ''index.json'') w)) of
        (Some (Json cached), Inr (Json rcvd)) \<Rightarrow>
          (case (hashes_by_id cached, hashes_by_id rcvd) of
             (Inr ch, Inr rh) \<Rightarrow> list_ex (\<lambda>k. map_of rh k \<noteq> map_of ch k) (map fst rh @ map fst ch)
           | _ \<Rightarrow> False)
      | _ \<Rightarrow> False)"

lemma hashes_by_id_distinct: "hashes_by_id v = Inr m \<Longrightarrow> distinct (map fst m)"
proof -
  have "distinct (map fst (fold (\<lambda>s m. AList.update (py_str (dget s ''skill_id'')) (py_str (dget s ''content_hash'')) m) ss acc))"
    if "distinct (map fst acc)" for ss and acc :: "(string \<times> string) list"
    using that by (induction ss arbitrary: acc) (simp_all add: distinct_update)
  then show "hashes_by_id v = Inr m \<Longrightarrow> distinct (map fst m)" by (auto simp: hashes_by_id_def)
qed

lemma same_items_map_of: "same_items a b \<Longrightarrow> distinct (map fst a) \<Longrightarrow> distinct (map fst b) \<Longrightarrow> map_of a = map_of b"
  unfolding same_items_def sort_items_def by (metis map_of_inject_set set_sort)

lemma stale_cacheD:
  assumes "stale_cache R pre dir w"
  obtains cached rcvd ch rh where "file_at w (dir @ [''index.json'']) = Some (Json cached)"
    "fst (rm_get R (join_remote_path pre ''index.json'') w) = Inr (Json rcvd)" "hashes_by_id cached = Inr ch" "hashes_by_id rcvd = Inr rh"
    "\<exists>k. map_of rh k \<noteq> map_of ch k"
proof -
  obtain fc where c: "file_at w (dir @ [''index.json'']) = Some fc"
    using assms by (cases "file_at w (dir @ [''index.json''])") (simp_all add: stale_cache_def)
  obtain cached where c2: "fc = Json cached" using assms c by (cases fc) (simp_all add: stale_cache_def)
  obtain fr where r: "fst (rm_get R (join_remote_path pre ''index.json'') w) = Inr fr"
    using assms c c2 by (cases "fst (rm_get R (join_remote_path pre ''index.json'') w)") (simp_all add: stale_cache_def)
  obtain rcvd where r2: "fr = Json rcvd" using assms c c2 r by (cases fr) (simp_all add: stale_cache_def)
  obtain ch where ch: "hashes_by_id cached = Inr ch"
    using assms c c2 r r2 by (cases "hashes_by_id cached") (simp_all add: stale_cache_def)
  obtain rh where rh: "hashes_by_id rcvd = Inr rh"
    using assms c c2 r r2 ch by (cases "hashes_by_id rcvd") (simp_all add: stale_cache_def)
  have "\<exists>k. map_of rh k \<noteq> map_of ch k" using assms c c2 r r2 ch rh by (auto simp: stale_cache_def list_ex_iff)
  with c c2 r r2 ch rh that show thesis by blast
qed

lemma stale_cache_refused:
  assumes "stale_cache R pre dir w" "reads_only R" "clean dir" "assert_remote_matches_cache R pre dir w = (r, w')"
  shows "w' = w" "\<exists>e. r = Inl e"
proof -
  have c: "clean (dir @ [''index.json''])" using assms(3) by simp
  obtain cached there' ch rh where f: "file_at w (dir @ [''index.json'']) = Some (Json cached)"
    "fst (rm_get R (join_remote_path pre ''index.json'') w) = Inr (Json there')" "hashes_by_id cached = Inr ch" "hashes_by_id there' = Inr rh"
    "\<exists>k. map_of rh k \<noteq> map_of ch k"
    by (rule stale_cacheD [OF assms(1)])
  have g: "rm_get R (join_remote_path pre ''index.json'') w = (Inr (Json there'), w)"
    using f(2) assms(2) by (metis prod.collapse reads_only_def)
  have d: "read_json (dir @ [''index.json'']) w = (Inr cached, w)"
    using f(1) file_at_read [OF c, of w "Json cached"] read_data_keeps [of "dir @ [''index.json'']" w]
    by (cases "read_data (dir @ [''index.json'']) w") (auto simp: read_json_def bindI_def liftI_def json_loads_def)
  have n: "\<not> same_items rh ch" using same_items_map_of hashes_by_id_distinct f(3-5) by metis
  have "assert_remote_matches_cache R pre dir w = (Inl (Exn SyncApplyError ''remote changed since the local cache was pulled; refresh pull-cache before pushing''), w)
      \<or> assert_remote_matches_cache R pre dir w = (Inl (Exn SyncApplyError (''remote snapshot cache has no index.json: '' @ path_str dir)), w)"
    using d g f(3,4) n by (simp add: assert_remote_matches_cache_def bindI_def askI_def liftI_def raiseI_def json_loads_def)
  with assms(4) show "w' = w" "\<exists>e. r = Inl e" by auto
qed

text \<open>C21: a sync that may not run does nothing: with a blocked item, an unsupported item, a push without a remote, or a
  push while some skill has different hashes in the remote's index and in the cached one (the cache is stale), it
  raises and leaves every file, local and remote, as it was. The remote may be any whose reads change nothing.\<close>

theorem refused_sync_changes_nothing:
  assumes "sync_preview_items H w a allow_new allow_delete policy target = Inr (plan, entries)"
    and "execute_sync_apply H a allow_new allow_delete policy R pre target backup n w = (r, w')"
    and "blocked_count entries \<noteq> 0 \<or> unsupported_count entries \<noteq> 0
      \<or> (action_ids entries push_actions \<noteq> [] \<and> (R = None \<or> reads_only (the R) \<and> stale_cache (the R) pre (sa_snapshot a) w))"
    and "clean (sa_snapshot a)"
  shows "(\<exists>e. r = Inl e) \<and> w' = w"
proof -
  let ?go = "\<lambda>(plan, entries). bindI (liftI (sync_preview_dict plan target entries)) (\<lambda>preview.
       let pulls = action_ids entries pull_actions; pushes = action_ids entries push_actions in
       if blocked_count entries \<noteq> 0
       then raiseI (Exn SyncApplyError (''sync plan has '' @ int_str (int (blocked_count entries)) @ '' blocked item(s); inspect sync-plan first''))
       else if unsupported_count entries \<noteq> 0
       then raiseI (Exn SyncApplyError ''sync-apply can currently execute only pull/pull_new/push/push_new/noop actions'')
       else if pushes \<noteq> [] \<and> R = None
       then raiseI (Exn SyncApplyError ''push actions require a remote destination'')
       else thenI (if pushes \<noteq> [] then assert_remote_matches_cache (the R) pre (sa_snapshot a) else returnI ())
         (bindI (if pulls \<noteq> [] then bindI (run_pulls H a entries target backup n) (\<lambda>r. returnI (Some r)) else returnI None) (\<lambda>apply_result.
          bindI (if pushes \<noteq> [] then bindI (run_pushes H a entries (the R) pre n) (\<lambda>r. returnI (Some r)) else returnI None) (\<lambda>upload.
            returnI (sync_result preview apply_result upload)))))"
  have x: "?go (plan, entries) w = (r, w')"
    using assms(1,2) unfolding execute_sync_apply_def ask_lift by simp
  show ?thesis
  proof (cases "sync_preview_dict plan target entries")
    case (Inl e)
    from x Inl have "r = Inl e" "w' = w" by (simp_all add: lift_bind)
    then show ?thesis by blast
  next
    case (Inr preview)
    show ?thesis
    proof (cases "blocked_count entries \<noteq> 0 \<or> unsupported_count entries \<noteq> 0 \<or> R = None \<and> action_ids entries push_actions \<noteq> []")
      case True
      with x Inr show ?thesis by (auto simp: lift_bind Let_def raiseI_def split: if_splits)
    next
      case False
      have R: "action_ids entries push_actions \<noteq> []" "R \<noteq> None" "reads_only (the R)" "stale_cache (the R) pre (sa_snapshot a) w"
        using False assms(3) by (cases "R = None"; simp)+
      obtain q w1 where q: "assert_remote_matches_cache (the R) pre (sa_snapshot a) w = (q, w1)" by (metis surj_pair)
      obtain e where "q = Inl e" "w1 = w" using stale_cache_refused [OF R(4,3) assms(4) q] by blast
      with x Inr False R q show ?thesis by (auto simp: lift_bind Let_def thenI_Inl)
    qed
  qed
qed

section \<open>What a push publishes\<close>

lemma with_tmp_Inr:
  assumes "with_tmp tmp m w = (Inr x, w')"
  obtains w1 w2 where "mkdirs tmp w = (Inr (), w1)" "m w1 = (Inr x, w2)" "remove_path tmp w2 = (Inr (), w')"
proof -
  from assms obtain w1 w2 u where "mkdirs tmp w = (Inr (), w1)"
    "catchI m (\<lambda>e. thenI (remove_path tmp) (raiseI e)) w1 = (Inr x, w2)" "remove_path tmp w2 = (Inr u, w')"
    by (auto simp: with_tmp_def io_Inr)
  then show ?thesis by (intro that) (auto simp: catchI_def thenI_def bindI_def raiseI_def split: prod.splits sum.splits)
qed

lemma path_div_name: "CHR 0x2F \<notin> set s \<Longrightarrow> s \<noteq> [] \<Longrightarrow> s \<noteq> ''.'' \<Longrightarrow> path_div p s = p @ [s]"
  by (cases s) (auto simp: path_div_def path_of_name starts_with_def)

lemma push_local_snapshot_Inr:
  assumes "push_local_snapshot H lr (file_remote root) pre ids tmp label now w = (Inr (upload, index), w')"
    and "clean tmp" "apart root tmp"
  obtains w1 summary where "mkdirs tmp w = (Inr (), w1)" "scan_roots H w1 [(''cc-switch'', lr)] = Inr summary"
    "index = snapshot_index label now (ss_skills summary)"
    "file_get_option root (join_remote_path pre ''index.json'') w' = Some (Json (PDict index))"
proof -
  let ?s = "tmp @ [''snapshot'']"
  from assms(1) obtain w1 w4 where t: "mkdirs tmp w = (Inr (), w1)" "remove_path tmp w4 = (Inr (), w')"
    and "bindI (bindI (askI (\<lambda>w. scan_roots H w [(''cc-switch'', lr)])) liftI) (\<lambda>summary.
        bindI (write_snapshot (ss_skills summary) ?s label now) (\<lambda>index.
        bindI (upload_snapshot ?s (file_remote root) pre (if ids \<noteq> [] then Some (archive_paths_for_ids index ids) else None) False) (\<lambda>files.
        bindI (askI (\<lambda>w. plan_bytes H w files)) (\<lambda>bytes.
          returnI ([(''snapshot_id'', dget index ''snapshot_id''), (''total'', dget index ''total''),
             (''files'', PInt (int (length files))), (''bytes'', PInt bytes),
             (''remote_prefix'', PStr pre), (''snapshot_index'', PDict index)], index))))) w1 = (Inr (upload, index), w4)"
    unfolding push_local_snapshot_def by (rule with_tmp_Inr) blast
  then obtain summary w2 files where s: "scan_roots H w1 [(''cc-switch'', lr)] = Inr summary"
    "write_snapshot (ss_skills summary) ?s label now w1 = (Inr index, w2)"
    "upload_snapshot ?s (file_remote root) pre (if ids \<noteq> [] then Some (archive_paths_for_ids index ids) else None) False w2 = (Inr files, w4)"
    by (auto simp: io_Inr)
  have a: "apart root ?s" using apart_under [OF apart_sym [OF assms(3)], of ?s] by (auto intro: apart_sym)
  have c: "clean ?s" using assms(2) by simp
  note i = write_snapshot_Inr [OF s(2) c]
  have "file_get_option root (join_remote_path pre ''index.json'') w4 = Some (Json (PDict index))"
    by (rule upload_publishes_index [OF s(3) i(2) c a])
  moreover have "file_get_option root r w' = file_get_option root r w4" for r
  proof (cases "file_path root r")
    case (Inr t)
    then have "apart tmp t" "clean t" using file_path_Inr apart_under [OF assms(3)] by (blast intro: apart_sym)+
    with keepsD [OF keeps_frame [OF remove_path_frame [OF assms(2)]] t(2)] Inr show ?thesis by (simp add: file_get_option)
  qed (simp add: file_get_option)
  ultimately show ?thesis by (intro that [OF t(1) s(1) i(1)]) simp
qed

lemma write_sync_base_record_Inr:
  assumes "write_sync_base_record lr index pre sync_id now w = (Inr base, w')" and "clean lr" and "CHR 0x2F \<notin> set sync_id"
  shows "base = lr @ [''.skill-sync-bases'', sync_id @ ''.json'']"
    "\<exists>skills. bindR (py_iter (dget_or index ''skills'' (PList []))) (mapR as_dict) = Inr skills
       \<and> file_at w' base = Some (Json (PDict (base_record lr pre sync_id now index skills)))"
    "apart lr q \<Longrightarrow> clean q \<Longrightarrow> file_at w' q = file_at w q"
proof -
  let ?d = "lr @ [''.skill-sync-bases'']" and ?f = "sync_id @ ''.json''"
  let ?b = "lr @ [''.skill-sync-bases'', ?f]"
  have pd: "path_div ?d ?f = ?b" using assms(3) by (subst path_div_name) auto
  have "?f \<noteq> ''..''"
  proof
    assume "?f = ''..''"
    then have "length ?f = 2" by simp
    then show False by simp
  qed
  then have cb: "clean ?b" using assms(2) by simp
  from assms(1) obtain w1 skills where m: "mkdirs ?d w = (Inr (), w1)"
    "bindR (py_iter (dget_or index ''skills'' (PList []))) (mapR as_dict) = Inr skills"
    "write_data ?b (Json (PDict (base_record lr pre sync_id now index skills))) w1 = (Inr (), w')" "base = ?b"
    unfolding write_sync_base_record_def Let_def pd by (auto simp: io_Inr)
  show "base = ?b" by (rule m(4))
  show "\<exists>skills. bindR (py_iter (dget_or index ''skills'' (PList []))) (mapR as_dict) = Inr skills
       \<and> file_at w' base = Some (Json (PDict (base_record lr pre sync_id now index skills)))"
    using m(2,4) write_data_Inr [OF cb m(3)] by (auto simp: file_at_def)
  show "file_at w' q = file_at w q" if "apart lr q" "clean q"
    using that keepsD [OF keeps_mkdirs m(1)]
      keepsD [OF keeps_frame [OF only_under_write_data, of lr ?b q] m(3)] cb by simp
qed

definition pushed_hashes :: "skill_record list \<Rightarrow> pyval list" where
  "pushed_hashes skills = map (\<lambda>r. PDict [(''skill_id'', PStr (sk_id r)), (''content_hash'', PStr (sk_hash r))])
     (filter (\<lambda>r. sk_id r \<noteq> [] \<and> sk_hash r \<noteq> []) skills)"


section \<open>Examples\<close>

text \<open>A device with one skill; the central index lists it as deprecated, and another skill it never had.\<close>

definition tiny_skill_node :: node where
  "tiny_skill_node = NDir [(''SKILL.md'', NFile (Raw []))]"

definition push_world :: "pyval list \<Rightarrow> world" where
  "push_world remote = \<lparr>w_tree = NDir
     [(''l'', NDir [(''demo-skill'', tiny_skill_node)]),
      (''c'', NDir [(''index.json'', NFile (Json (PDict [(''skills'', PList [])])))]),
      (''r'', NDir [(''index.json'', NFile (Json (PDict [(''skills'', PList remote)])))])], w_fault = None\<rparr>"

definition push_args :: sync_args where
  "push_args = \<lparr>sa_local_root = [''l''], sa_snapshot = [''c''], sa_base_record = None\<rparr>"

definition push_names :: run_names where
  "push_names = \<lparr>rn_stage_tmp = [''t1''], rn_push_tmp = [''t2''], rn_apply_id = ''a1'', rn_label = ''s1'', rn_sync_id = ''y1'', rn_now = ''now''\<rparr>"

definition deprecated_demo :: pyval where
  "deprecated_demo = PDict [(''skill_id'', PStr ''demo-skill''), (''content_hash'', PStr ''h''),
     (''lifecycle'', PDict [(''state'', PStr ''deprecated'')])]"

theorem sync_preview_accounts_for_every_item_witness:
  "\<exists>plan entries. sync_preview_items raw_host (push_world []) push_args True False ''push-pull'' ''cc-switch-global'' = Inr (plan, entries)
     \<and> map pv_action entries = [''upload_snapshot'']
     \<and> length (filter is_executable entries) + unsupported_count entries + blocked_count entries
        + length (filter (\<lambda>p. pl_allowed (pv_item p) \<and> pl_plan_action (pv_item p) = ''noop'') entries) = 1"
proof -
  have "case sync_preview_items raw_host (push_world []) push_args True False ''push-pull'' ''cc-switch-global'' of
      Inl e \<Rightarrow> False | Inr (plan, entries) \<Rightarrow> map pv_action entries = [''upload_snapshot'']"
    by code_simp
  then obtain plan entries where e: "sync_preview_items raw_host (push_world []) push_args True False ''push-pull'' ''cc-switch-global'' = Inr (plan, entries)"
    "map pv_action entries = [''upload_snapshot'']"
    by (auto split: sum.splits)
  have l: "length entries = 1" using arg_cong [OF e(2), of length] by simp
  have "allowed_scopes ''cc-switch-global'' = Inr [''global'']" by code_simp
  from sync_preview_accounts_for_every_item [OF e(1) this, THEN conjunct2] l e show ?thesis by auto
qed

text \<open>The central index has a skill that the cached one does not list.\<close>

theorem refused_sync_changes_nothing_witness:
  "\<exists>e. execute_sync_apply raw_host push_args True False ''push-pull'' (Some (file_remote [''r''])) [] ''cc-switch-global'' None push_names
      (push_world [central_entry ''b'']) = (Inl e, push_world [central_entry ''b''])"
proof -
  let ?w = "push_world [central_entry ''b'']"
  have "case sync_preview_items raw_host ?w push_args True False ''push-pull'' ''cc-switch-global'' of
      Inl e \<Rightarrow> False | Inr (plan, entries) \<Rightarrow> action_ids entries push_actions = [''demo-skill'']"
    by code_simp
  then obtain plan entries where e: "sync_preview_items raw_host ?w push_args True False ''push-pull'' ''cc-switch-global'' = Inr (plan, entries)"
    "action_ids entries push_actions = [''demo-skill'']"
    by (auto split: sum.splits)
  obtain r w' where x: "execute_sync_apply raw_host push_args True False ''push-pull'' (Some (file_remote [''r''])) [] ''cc-switch-global'' None push_names ?w = (r, w')"
    by (metis surj_pair)
  have "stale_cache (file_remote [''r'']) [] (sa_snapshot push_args) ?w" "clean (sa_snapshot push_args)" by code_simp+
  with refused_sync_changes_nothing [OF e(1) x] e(2) x file_remote_reads_only show ?thesis by auto
qed


end
