(* ===== verification/ApprovedPush.thy ===== *)
theory ApprovedPush
  imports SyncApply
begin

text \<open>
  \<open>approved_push.py\<close>: pushing chosen skills that a blocked report held back. The ids are checked
  against the report and the current plan, the central index is merged with the local entries of
  exactly these skills, and the merged snapshot is uploaded after the remote was compared with the
  cache. Unlike a plain push, everything that was not approved stays as it is in the index.
\<close>

section \<open>Approval\<close>

definition load_blocked_report :: "world \<Rightarrow> path \<Rightarrow> pydict res" where
  "load_blocked_report w p =
     (if \<not> exists w p then Inl (Exn ApprovedPushError (''blocked report not found: '' @ path_str p))
      else bindR (fst (read_json p w)) (\<lambda>v. bindR (as_dict v) (\<lambda>report.
        if dget report ''record_type'' \<noteq> PStr ''skill-sync-blocked-report''
        then Inl (Exn ApprovedPushError ''input is not a skill-sync blocked report'') else Inr report)))"

text \<open>A repeated id is an error here, not skipped.\<close>

fun approved_ids_from :: "string list \<Rightarrow> string list \<Rightarrow> string list res" where
  "approved_ids_from seen [] = Inr []"
| "approved_ids_from seen (raw # raws) =
     (let skill_id = strip raw in
      if skill_id = [] then approved_ids_from seen raws
      else if skill_id \<in> set seen then Inl (Exn ApprovedPushError (''duplicate approved skill id: '' @ skill_id))
      else bindR (approved_ids_from (skill_id # seen) raws) (\<lambda>rest. Inr (skill_id # rest)))"

definition approved_skill_ids :: "string list \<Rightarrow> string list res" where
  "approved_skill_ids skill_ids = bindR (approved_ids_from [] skill_ids) (\<lambda>result.
     if result = [] then Inl (Exn ApprovedPushError ''approved push requires at least one --skill-id'') else Inr result)"

definition report_items_by_id :: "pydict \<Rightarrow> (string \<times> pydict) list res" where
  "report_items_by_id report =
     bindR (py_iter (dget_or report ''items'' (PList []))) (\<lambda>raws. bindR (mapR as_dict raws) (\<lambda>items.
       Inr (fold (\<lambda>item m. if truthy (dget item ''skill_id'') then AList.update (py_str (dget item ''skill_id'')) item m else m) items [])))"

definition conflict_local_wins :: "pydict \<Rightarrow> pydict \<Rightarrow> bool \<Rightarrow> bool" where
  "conflict_local_wins report_item current allow =
     (allow \<and> dget report_item ''category'' = PStr ''conflict'' \<and> dget report_item ''status_action'' = PStr ''conflict''
      \<and> dget current ''status_action'' = PStr ''conflict'' \<and> dget current ''plan_action'' = PStr ''blocked''
      \<and> \<not> truthy (dget current ''allowed'') \<and> truthy (dget current ''local_hash'') \<and> truthy (dget current ''remote_hash''))"

definition approval :: "string \<Rightarrow> pydict \<Rightarrow> pydict \<Rightarrow> pyval \<Rightarrow> string \<Rightarrow> pydict" where
  "approval skill_id report_item current action reason =
     [(''skill_id'', PStr skill_id), (''approved_action'', action), (''status_action'', dget current ''status_action''),
      (''base_hash'', dget current ''base_hash''), (''local_hash'', dget current ''local_hash''),
      (''remote_hash'', dget current ''remote_hash''), (''blocked_reason'', dget report_item ''reason''),
      (''approval_reason'', PStr reason)]"

definition approved_item :: "(string \<times> pydict) list \<Rightarrow> (string \<times> pydict) list \<Rightarrow> bool \<Rightarrow> string \<Rightarrow> pydict res" where
  "approved_item report_by_id plan_by_id allow skill_id =
     (case map_of report_by_id skill_id of
        None \<Rightarrow> Inl (Exn ApprovedPushError (''skill was not present in blocked report: '' @ skill_id))
      | Some report_item \<Rightarrow> (case map_of plan_by_id skill_id of
          None \<Rightarrow> Inl (Exn ApprovedPushError (''skill is not present in the current sync plan: '' @ skill_id))
        | Some current \<Rightarrow>
            (case find (\<lambda>k. dget current k \<noteq> dget report_item k) [''base_hash'', ''local_hash'', ''remote_hash''] of
               Some k \<Rightarrow> Inl (Exn ApprovedPushError (''skill changed since blocked report was generated: '' @ skill_id @ '' ('' @ k @ '')''))
             | None \<Rightarrow>
                 if conflict_local_wins report_item current allow
                 then Inr (approval skill_id report_item current (PStr ''conflict_local_wins'')
                        ''explicit local-wins conflict resolution from blocked-report queue'')
                 else if dget report_item ''category'' \<noteq> PStr ''writer_policy''
                 then Inl (Exn ApprovedPushError (''skill is not blocked by writer policy: '' @ skill_id))
                 else if dget report_item ''status_action'' \<noteq> PStr ''push'' \<and> dget report_item ''status_action'' \<noteq> PStr ''local_new''
                 then Inl (Exn ApprovedPushError (''skill is not a local-to-remote push candidate: '' @ skill_id))
                 else if (dget current ''plan_action'' \<noteq> PStr ''push'' \<and> dget current ''plan_action'' \<noteq> PStr ''push_new'') \<or> \<not> truthy (dget current ''allowed'')
                 then Inl (Exn ApprovedPushError (''skill is not currently pushable under explicit approval: '' @ skill_id))
                 else Inr (approval skill_id report_item current (dget current ''plan_action'')
                        ''explicit approved push from blocked-report writer-policy queue''))))"

section \<open>The merged snapshot\<close>

definition entries_by_id :: "pydict list \<Rightarrow> (string \<times> pydict) list" where
  "entries_by_id skills = fold (\<lambda>s m. AList.update (py_str (dget s ''skill_id'')) s m) skills []"

definition local_replacement :: "(string \<times> pydict) list \<Rightarrow> string \<Rightarrow> pydict res" where
  "local_replacement local_by_id skill_id =
     (case map_of local_by_id skill_id of Some e \<Rightarrow> Inr e
      | None \<Rightarrow> Inl (Exn ApprovedPushError (''approved local skill disappeared before push: '' @ skill_id)))"

definition merge_remote :: "(string \<times> pydict) list \<Rightarrow> string list \<Rightarrow> pydict \<Rightarrow> pydict res" where
  "merge_remote local_by_id approved remote_skill =
     (if py_str (dget remote_skill ''skill_id'') \<in> set approved
      then local_replacement local_by_id (py_str (dget remote_skill ''skill_id'')) else Inr remote_skill)"

text \<open>The ids approved but not in the remote index, sorted.\<close>

definition new_approved :: "pydict list \<Rightarrow> string list \<Rightarrow> string list" where
  "new_approved remote_skills approved =
     sorted_set (filter (\<lambda>i. i \<notin> set (map (\<lambda>s. py_str (dget s ''skill_id'')) (filter (\<lambda>s. truthy (dget s ''skill_id'')) remote_skills))) approved)"

definition merge_skills :: "(string \<times> pydict) list \<Rightarrow> pydict list \<Rightarrow> string list \<Rightarrow> pydict list res" where
  "merge_skills local_by_id remote_skills approved =
     bindR (mapR (merge_remote local_by_id approved) remote_skills) (\<lambda>kept.
     bindR (mapR (local_replacement local_by_id) (new_approved remote_skills approved)) (\<lambda>new. Inr (kept @ new)))"

text \<open>The archives of the skills taken from the local snapshot, each once. The code keeps a set of names.\<close>

definition approved_archives :: "(string \<times> pydict) list \<Rightarrow> pydict list \<Rightarrow> string list \<Rightarrow> string list res" where
  "approved_archives local_by_id remote_skills approved =
     bindR (mapR (local_replacement local_by_id)
              (filter (\<lambda>i. i \<in> set approved) (map (\<lambda>s. py_str (dget s ''skill_id'')) remote_skills) @ new_approved remote_skills approved))
       (\<lambda>skills. bindR (mapR (\<lambda>s. dindex s ''archive'') skills) (\<lambda>archives. Inr (remdups (map py_str archives))))"

definition merged_index :: "string \<Rightarrow> string \<Rightarrow> pydict \<Rightarrow> pydict list \<Rightarrow> pydict" where
  "merged_index label created_at remote_index skills =
     [(''protocol_version'', dget_or remote_index ''protocol_version'' (PInt 0)), (''snapshot_id'', PStr label),
      (''created_at'', PStr created_at), (''total'', PInt (int (length skills))), (''skills'', PList (map PDict skills))]"

definition copy_archive :: "path \<Rightarrow> path \<Rightarrow> string \<Rightarrow> unit \<Rightarrow> unit io" where
  "copy_archive local_dir out_dir archive u =
     thenI (mkdirs (path_parent (path_div out_dir archive))) (copy_file (path_div local_dir archive) (path_div out_dir archive))"

definition merge_into :: "host \<Rightarrow> sync_args \<Rightarrow> string list \<Rightarrow> path \<Rightarrow> path \<Rightarrow> string \<Rightarrow> string \<Rightarrow> (pydict \<times> pydict list \<times> string list) io" where
  "merge_into H a approved out_dir local_dir label now =
     bindI (bindI (askI (\<lambda>w. scan_roots H w [(''cc-switch'', sa_local_root a)])) liftI) (\<lambda>summary.
     bindI (write_snapshot (ss_skills summary) local_dir label now) (\<lambda>local_index.
     bindI (read_json (sa_snapshot a @ [''index.json''])) (\<lambda>loaded.
     bindI (liftI (as_dict loaded)) (\<lambda>remote_index.
     bindI (liftI (index_skills remote_index)) (\<lambda>remote_skills.
     let local_by_id = entries_by_id (only_dicts (list_or_empty (dget local_index ''skills''))) in
     bindI (liftI (merge_skills local_by_id remote_skills approved)) (\<lambda>merged.
     bindI (liftI (approved_archives local_by_id remote_skills approved)) (\<lambda>archives.
       thenI (mkdirs out_dir)
         (thenI (foldI (copy_archive local_dir out_dir) archives ())
           (returnI (remote_index, merged, archives))))))))))"

text \<open>The snapshot of the local root lives in a temporary directory of its own, gone before the index is written.\<close>

definition build_merged_snapshot ::
    "host \<Rightarrow> sync_args \<Rightarrow> string list \<Rightarrow> path \<Rightarrow> path \<Rightarrow> string \<Rightarrow> string \<Rightarrow> (pydict \<times> string list) io" where
  "build_merged_snapshot H a approved out_dir tmp label now =
     bindI (with_tmp tmp (merge_into H a approved out_dir (tmp @ [''local-snapshot'']) label now)) (\<lambda>(remote_index, merged, archives).
       let index = merged_index label now remote_index merged in
       thenI (write_data (out_dir @ [''index.json'']) (Json (PDict index))) (returnI (index, archives)))"

section \<open>Preview\<close>

text \<open>The temporary directories, labels, record id and time the run makes up, of the preview and of the push.\<close>

record approved_names =
  an_preview_tmp :: path
  an_preview_inner :: path
  an_tmp :: path
  an_inner :: path
  an_preview_label :: string
  an_label :: string
  an_sync_id :: string
  an_now :: string

definition deferred_push :: "sync_plan_item \<Rightarrow> pydict" where
  "deferred_push i = [(''skill_id'', PStr (pl_skill_id i)), (''plan_action'', PStr (pl_plan_action i)),
     (''reason'', PStr ''not selected for this approved push'')]"

definition deferred_pushes :: "sync_plan_item list \<Rightarrow> string list \<Rightarrow> pydict list" where
  "deferred_pushes items approved =
     map deferred_push (filter (\<lambda>i. pl_plan_action i \<in> set push_actions \<and> pl_skill_id i \<notin> set approved) items)"

definition effective_allow_new :: "bool option \<Rightarrow> pydict \<Rightarrow> bool" where
  "effective_allow_new allow_new report = (case allow_new of None \<Rightarrow> truthy (dget report ''allow_new'') | Some b \<Rightarrow> b)"

text \<open>What is decided before anything is written: the ids, the plan and the approvals.\<close>

definition approve ::
    "host \<Rightarrow> world \<Rightarrow> sync_args \<Rightarrow> path \<Rightarrow> string list \<Rightarrow> bool option \<Rightarrow> bool
      \<Rightarrow> (pydict \<times> string list \<times> sync_plan_item list \<times> pydict \<times> pydict list) res" where
  "approve H w a report_path skill_ids allow_new allow_wins =
     bindR (load_blocked_report w report_path) (\<lambda>report.
     bindR (approved_skill_ids skill_ids) (\<lambda>approved.
     bindR (build_sync_status H w a ''local'' None []) (\<lambda>status.
     bindR (plan_items (effective_allow_new allow_new report) False ''push-pull'' status) (\<lambda>items.
     bindR (report_items_by_id report) (\<lambda>report_by_id.
     bindR (mapR (approved_item report_by_id (entries_by_id (map plan_item_dict items)) allow_wins) approved) (\<lambda>approvals.
       Inr (report, approved, items, plan_dict ''push-pull'' status items, approvals)))))))"

definition preview_upload :: "host \<Rightarrow> sync_args \<Rightarrow> string list \<Rightarrow> approved_names \<Rightarrow> pydict io" where
  "preview_upload H a approved n =
     with_tmp (an_preview_tmp n)
       (let out = an_preview_tmp n @ [''merged-snapshot''] in
        bindI (build_merged_snapshot H a approved out (an_preview_inner n) (an_preview_label n) (an_now n)) (\<lambda>(index, archives).
        bindI (askI (\<lambda>w. build_upload_plan w out)) (\<lambda>files.
        bindI (askI (\<lambda>w. plan_bytes H w files)) (\<lambda>bytes.
          returnI [(''snapshot_id'', dget index ''snapshot_id''), (''total'', dget index ''total''),
             (''files'', PInt (int (length files))), (''bytes'', PInt bytes), (''archives'', strs (sort archives))]))))"

definition build_approved_push_preview ::
    "host \<Rightarrow> sync_args \<Rightarrow> path \<Rightarrow> string list \<Rightarrow> bool option \<Rightarrow> bool \<Rightarrow> approved_names \<Rightarrow> pydict io" where
  "build_approved_push_preview H a report_path skill_ids allow_new allow_wins n =
     bindI (bindI (askI (\<lambda>w. approve H w a report_path skill_ids allow_new allow_wins)) liftI)
       (\<lambda>(report, approved, items, plan, approvals).
     bindI (preview_upload H a approved n) (\<lambda>upload.
       returnI [(''record_type'', PStr ''skill-sync-approved-push-preview''), (''dry_run'', PBool True), (''safe_to_push'', PBool True),
         (''local_root'', PStr (path_str (norm_path (sa_local_root a)))), (''remote_snapshot'', PStr (path_str (norm_path (sa_snapshot a)))),
         (''blocked_report'', PStr (path_str (norm_path report_path))),
         (''last_applied_record'', opt_path (map_option norm_path (sa_base_record a))),
         (''allow_new'', PBool (effective_allow_new allow_new report)), (''allow_conflict_local_wins'', PBool allow_wins),
         (''approved'', PInt (int (length approvals))), (''approved_skill_ids'', strs approved),
         (''deferred_pushes'', PList (map PDict (deferred_pushes items approved))),
         (''current_plan_summary'', dget_or plan ''summary'' (PDict [])), (''upload_preview'', PDict upload),
         (''items'', PList (map PDict approvals))]))"

section \<open>Reports of a push\<close>

definition render_approved_item :: "pydict \<Rightarrow> string list" where
  "render_approved_item item = (let f = (\<lambda>k. py_str (dget item k)) in
     [''### '' @ f ''skill_id'', [], ''- Approved action: '' @ backtick (f ''approved_action''),
      ''- Base hash: '' @ backtick (f ''base_hash''), ''- Local hash: '' @ backtick (f ''local_hash''),
      ''- Remote hash: '' @ backtick (f ''remote_hash''), ''- Blocked reason: '' @ f ''blocked_reason'', []])"

definition render_approved_markdown :: "string \<Rightarrow> pydict \<Rightarrow> string" where
  "render_approved_markdown now r =
     (let f = (\<lambda>k. py_str (dget r k));
          items = only_dicts (list_or_empty (dget r ''items''));
          deferred = only_dicts (list_or_empty (dget r ''deferred_pushes''));
          ls = [''# Skill Sync '' @ (if truthy (dget r ''dry_run'') then ''Approved Push Preview'' else ''Approved Push Record''), [],
             ''- Created: '' @ backtick (py_str (por (dget r ''created_at'') (PStr now))),
             ''- Dry run: '' @ backtick (f ''dry_run''), ''- Local root: '' @ backtick (f ''local_root''),
             ''- Remote snapshot: '' @ backtick (f ''remote_snapshot''), ''- Blocked report: '' @ backtick (f ''blocked_report''),
             ''- Approved: '' @ backtick (f ''approved''), [], ''## Approved Skills'', []]
           @ (if items = [] then [''- None.''] else concat (map render_approved_item items))
           @ (if deferred = [] then [] else [''## Deferred Pushes'', []]
                @ map (\<lambda>d. ''- '' @ backtick (py_str (dget d ''skill_id'')) @ '': '' @ backtick (py_str (dget d ''plan_action''))) deferred)
           @ (if truthy (dget r ''base_record_path'') then [[], ''Base record: '' @ backtick (f ''base_record_path'')] else [])
      in rstrip_set py_space (join_str newline ls) @ newline)"

text \<open>The two files \<open>name.json\<close> and \<open>name.md\<close> of a report.\<close>

definition write_report_pair :: "string \<Rightarrow> string \<Rightarrow> path \<Rightarrow> pydict \<Rightarrow> pydict io" where
  "write_report_pair name now out_dir r =
     thenI (mkdirs out_dir)
       (let result = dset r ''out'' (PStr (path_str (norm_path out_dir))) in
        thenI (write_data (out_dir @ [name @ ''.json'']) (Json (PDict result)))
          (thenI (write_data (out_dir @ [name @ ''.md'']) (Raw (render_approved_markdown now result))) (returnI result)))"

definition write_approved_push_preview :: "string \<Rightarrow> path \<Rightarrow> pydict \<Rightarrow> pydict io" where
  "write_approved_push_preview now out_dir preview = write_report_pair ''approved-push-preview'' now out_dir preview"

section \<open>The push\<close>

text \<open>The skills of an index without the values that are not objects.\<close>

definition dict_hashes_by_id :: "pyval \<Rightarrow> (string \<times> string) list res" where
  "dict_hashes_by_id index_value =
     bindR (as_dict index_value) (\<lambda>index. bindR (index_skills index) (\<lambda>skills.
       Inr (fold (\<lambda>s m. AList.update (py_str (dget s ''skill_id'')) (py_str (dget s ''content_hash'')) m)
         (filter (\<lambda>s. truthy (dget s ''skill_id'') \<and> truthy (dget s ''content_hash'')) skills) [])))"

definition assert_approved_remote :: "remote \<Rightarrow> string \<Rightarrow> path \<Rightarrow> unit io" where
  "assert_approved_remote R remote_prefix snapshot_dir =
     bindI (catchI
        (bindI (read_json (snapshot_dir @ [''index.json''])) (\<lambda>cache_index.
         bindI (bindI (rm_get R (join_remote_path remote_prefix ''index.json'')) (\<lambda>d. liftI (json_loads d))) (\<lambda>remote_index.
           returnI (cache_index, remote_index))))
        (\<lambda>e. raiseI (if exn_kind e \<in> set [OSError, JSONDecodeError, RemoteError]
           then Exn ApprovedPushError (''cannot verify remote snapshot before approved push: '' @ exn_text e) else e)))
       (\<lambda>(cache_index, remote_index).
         bindI (liftI (dict_hashes_by_id remote_index)) (\<lambda>rh.
         bindI (liftI (dict_hashes_by_id cache_index)) (\<lambda>ch.
           if \<not> same_items rh ch
           then raiseI (Exn ApprovedPushError ''remote changed since the blocked-report cache was pulled; refresh pull-cache before approved push'')
           else returnI ())))"

definition write_approved_base_record :: "path \<Rightarrow> pydict \<Rightarrow> string \<Rightarrow> path option \<Rightarrow> string \<Rightarrow> string \<Rightarrow> path io" where
  "write_approved_base_record local_root index remote_prefix out sync_id created_at =
     (let record_path = (case out of None \<Rightarrow> path_div (local_root @ [''.skill-sync-bases'']) (sync_id @ ''.json'') | Some p \<Rightarrow> p) in
      thenI (mkdirs (case out of None \<Rightarrow> local_root @ [''.skill-sync-bases''] | Some p \<Rightarrow> path_parent p))
        (bindI (liftI (bindR (py_iter (dget_or index ''skills'' (PList []))) (mapR as_dict))) (\<lambda>skills.
          thenI (write_data record_path (Json (PDict (base_record local_root remote_prefix sync_id created_at index skills))))
            (returnI (norm_path record_path)))))"

definition push_merged ::
    "host \<Rightarrow> sync_args \<Rightarrow> string list \<Rightarrow> remote \<Rightarrow> string \<Rightarrow> path option \<Rightarrow> approved_names \<Rightarrow> (nat \<times> int \<times> path) io" where
  "push_merged H a approved R remote_prefix base_out n =
     with_tmp (an_tmp n)
       (let out = an_tmp n @ [''merged-snapshot''] in
        bindI (build_merged_snapshot H a approved out (an_inner n) (an_label n) (an_now n)) (\<lambda>(index, archives).
        bindI (upload_snapshot out R remote_prefix (Some archives) True) (\<lambda>files.
        bindI (askI (\<lambda>w. plan_bytes H w files)) (\<lambda>bytes.
        bindI (write_approved_base_record (sa_local_root a) index remote_prefix base_out (an_sync_id n) (an_now n)) (\<lambda>base.
          returnI (length files, bytes, base))))))"

definition approved_record :: "sync_args \<Rightarrow> path \<Rightarrow> string \<Rightarrow> string \<Rightarrow> pydict \<Rightarrow> nat \<Rightarrow> int \<Rightarrow> path \<Rightarrow> pydict" where
  "approved_record a report_path remote_prefix now preview files bytes base =
     [(''record_type'', PStr ''skill-sync-approved-push-record''), (''created_at'', PStr now), (''status'', PStr ''complete''),
      (''dry_run'', PBool False), (''local_root'', PStr (path_str (norm_path (sa_local_root a)))),
      (''remote_snapshot'', PStr (path_str (norm_path (sa_snapshot a)))),
      (''blocked_report'', PStr (path_str (norm_path report_path))),
      (''last_applied_record'', opt_path (map_option norm_path (sa_base_record a))), (''remote_prefix'', PStr remote_prefix),
      (''approved'', dget preview ''approved''), (''allow_conflict_local_wins'', dget preview ''allow_conflict_local_wins''),
      (''approved_skill_ids'', dget preview ''approved_skill_ids''), (''deferred_pushes'', dget preview ''deferred_pushes''),
      (''uploaded_files'', PInt (int files)), (''uploaded_bytes'', PInt bytes), (''base_record_path'', PStr (path_str base)),
      (''items'', dget preview ''items'')]"

text \<open>The check of the cache against the remote, and the push it guards.\<close>

definition checked_push ::
    "host \<Rightarrow> sync_args \<Rightarrow> string list \<Rightarrow> remote \<Rightarrow> string \<Rightarrow> path option \<Rightarrow> approved_names \<Rightarrow> (nat \<times> int \<times> path) io" where
  "checked_push H a approved R remote_prefix base_out n =
     thenI (assert_approved_remote R remote_prefix (sa_snapshot a)) (push_merged H a approved R remote_prefix base_out n)"

definition execute_approved_push ::
    "host \<Rightarrow> sync_args \<Rightarrow> path \<Rightarrow> string list \<Rightarrow> remote \<Rightarrow> string \<Rightarrow> bool option \<Rightarrow> bool \<Rightarrow> path option \<Rightarrow> path option
      \<Rightarrow> approved_names \<Rightarrow> pydict io" where
  "execute_approved_push H a report_path skill_ids R remote_prefix allow_new allow_wins base_out out_dir n =
     bindI (build_approved_push_preview H a report_path skill_ids allow_new allow_wins n) (\<lambda>preview.
       bindI (checked_push H a (map py_str (list_or_empty (dget preview ''approved_skill_ids''))) R remote_prefix base_out n)
         (\<lambda>(files, bytes, base).
           let r = approved_record a report_path remote_prefix (an_now n) preview files bytes base in
           case out_dir of None \<Rightarrow> returnI r | Some d \<Rightarrow> write_report_pair ''approved-push-record'' (an_now n) d r))"

section \<open>What a merge keeps\<close>

lemma entries_by_id_mem:
  assumes "map_of (entries_by_id ss) k = Some s"
  shows "s \<in> set ss \<and> py_str (dget s ''skill_id'') = k"
proof -
  have "map_of (fold (\<lambda>s m. AList.update (py_str (dget s ''skill_id'')) s m) ss m) k = Some s
    \<Longrightarrow> (s \<in> set ss \<and> py_str (dget s ''skill_id'') = k) \<or> map_of m k = Some s" for m
  proof (induction ss arbitrary: m)
    case (Cons a ss)
    from Cons.prems have "map_of (fold (\<lambda>s m. AList.update (py_str (dget s ''skill_id'')) s m) ss
        (AList.update (py_str (dget a ''skill_id'')) a m)) k = Some s" by simp
    from Cons.IH [OF this] show ?case by (auto simp: update_conv split: if_splits)
  qed simp
  from this [of "[]"] assms show ?thesis by (simp add: entries_by_id_def)
qed

lemma local_replacement_Inr: "local_replacement l k = Inr e \<longleftrightarrow> map_of l k = Some e"
  by (auto simp: local_replacement_def split: option.splits)

lemma merge_skills_Inr:
  assumes "merge_skills l remote approved = Inr merged"
  shows "length remote \<le> length merged"
    "i < length remote \<Longrightarrow> py_str (dget (remote ! i) ''skill_id'') \<notin> set approved \<Longrightarrow> merged ! i = remote ! i"
    "i < length merged \<Longrightarrow> i < length remote \<longrightarrow> py_str (dget (remote ! i) ''skill_id'') \<in> set approved
      \<Longrightarrow> \<exists>k \<in> set approved. map_of l k = Some (merged ! i)"
proof -
  from assms obtain kept new where m: "merged = kept @ new"
    "list_all2 (\<lambda>s k. merge_remote l approved s = Inr k) remote kept"
    "list_all2 (\<lambda>j k. local_replacement l j = Inr k) (new_approved remote approved) new"
    by (auto simp: merge_skills_def mapR_Inr_iff)
  note lens = list_all2_lengthD [OF m(2)] list_all2_lengthD [OF m(3)]
  show "length remote \<le> length merged" using m(1) lens(1) by simp
  have k: "merge_remote l approved (remote ! i) = Inr (merged ! i)" if "i < length remote" for i
    using list_all2_nthD [OF m(2) that] m(1) lens(1) that by (simp add: nth_append)
  show "i < length remote \<Longrightarrow> py_str (dget (remote ! i) ''skill_id'') \<notin> set approved \<Longrightarrow> merged ! i = remote ! i"
    using k [of i] by (simp add: merge_remote_def)
  show "\<exists>k \<in> set approved. map_of l k = Some (merged ! i)"
    if "i < length merged" "i < length remote \<longrightarrow> py_str (dget (remote ! i) ''skill_id'') \<in> set approved"
  proof (cases "i < length remote")
    case True
    with k [of i] that(2) show ?thesis by (auto simp: merge_remote_def local_replacement_Inr)
  next
    case False
    let ?j = "i - length remote"
    have j: "?j < length new" using False that(1) m(1) lens(1) by simp
    then have "local_replacement l (new_approved remote approved ! ?j) = Inr (merged ! i)"
      using list_all2_nthD2 [OF m(3) j] m(1) lens(1) False by (simp add: nth_append)
    moreover have "new_approved remote approved ! ?j \<in> set approved"
      using j lens(2) nth_mem [of ?j "new_approved remote approved"] by (auto simp: new_approved_def)
    ultimately show ?thesis by (auto simp: local_replacement_Inr)
  qed
qed

lemma write_approved_base_record_Inr:
  assumes "write_approved_base_record lr index pre out sync_id now w = (Inr base, w')"
  shows "base = norm_path (case out of None \<Rightarrow> path_div (lr @ [''.skill-sync-bases'']) (sync_id @ ''.json'') | Some p \<Rightarrow> p)"
    "bindR (py_iter (dget_or index ''skills'' (PList []))) (mapR as_dict) = Inr skills
       \<Longrightarrow> file_at w' base = Some (Json (PDict (base_record lr pre sync_id now index skills)))"
    "apart base q \<Longrightarrow> clean q \<Longrightarrow> file_at w' q = file_at w q"
proof -
  let ?b = "case out of None \<Rightarrow> path_div (lr @ [''.skill-sync-bases'']) (sync_id @ ''.json'') | Some p \<Rightarrow> p"
  let ?d = "case out of None \<Rightarrow> lr @ [''.skill-sync-bases''] | Some p \<Rightarrow> path_parent p"
  from assms obtain w1 ss where m: "mkdirs ?d w = (Inr (), w1)"
    "bindR (py_iter (dget_or index ''skills'' (PList []))) (mapR as_dict) = Inr ss"
    "write_data ?b (Json (PDict (base_record lr pre sync_id now index ss))) w1 = (Inr (), w')" "base = norm_path ?b"
    unfolding write_approved_base_record_def Let_def by (auto simp: io_Inr)
  show "base = norm_path ?b" by (rule m(4))
  have n: "write_data (norm_path ?b) d w1 = write_data ?b d w1" for d
    by (simp add: write_data_def is_dir_def at_def)
  show "bindR (py_iter (dget_or index ''skills'' (PList []))) (mapR as_dict) = Inr skills
       \<Longrightarrow> file_at w' base = Some (Json (PDict (base_record lr pre sync_id now index skills)))"
    using m write_data_Inr [of "norm_path ?b" _ w1 "()" w'] n by (simp add: file_at_def)
  show "file_at w' q = file_at w q" if "apart base q" "clean q"
    using that keepsD [OF keeps_mkdirs m(1)] keepsD [OF keeps_frame [OF only_under_write_data, of base ?b q] m(3)] m(4) by simp
qed

lemma merge_into_Inr:
  assumes "merge_into H a approved out local_dir label now w = (Inr (remote_index, merged, archives), w')"
    and "digest_host H" "clean local_dir" "clean (sa_snapshot a)" "apart local_dir (sa_snapshot a)"
  obtains summary remote_skills where "scan_roots H w [(''cc-switch'', sa_local_root a)] = Inr summary"
    "file_at w (sa_snapshot a @ [''index.json'']) = Some (Json (PDict remote_index))"
    "index_skills remote_index = Inr remote_skills"
    "merge_skills (entries_by_id (map snapshot_entry (ss_skills summary))) remote_skills approved = Inr merged"
proof -
  let ?c = "sa_snapshot a @ [''index.json'']"
  from assms(1) obtain summary local_index w1 loaded remote_skills where
    s: "scan_roots H w [(''cc-switch'', sa_local_root a)] = Inr summary"
    "write_snapshot (ss_skills summary) local_dir label now w = (Inr local_index, w1)"
    "\<exists>w2. read_json ?c w1 = (Inr loaded, w2)" "as_dict loaded = Inr remote_index" "index_skills remote_index = Inr remote_skills"
    "merge_skills (entries_by_id (only_dicts (list_or_empty (dget local_index ''skills'')))) remote_skills approved = Inr merged"
    unfolding merge_into_def Let_def by (fastforce simp: bindI_eq_Inr thenI_eq_Inr returnI_def liftI_def askI_def)
  have c: "clean ?c" "apart local_dir ?c"
    using assms(4,5) apart_under [OF apart_sym [OF assms(5)], of ?c] by (auto intro: apart_sym)
  have f: "file_at w1 ?c = file_at w ?c"
    by (rule keepsD [OF keeps_frame [OF write_snapshot_frame [OF s(1) assms(2,3)] c(2,1)] s(2)])
  have "file_at w1 ?c = Some (Json (PDict remote_index))"
    using s(3,4) file_at_read [OF c(1), of w1]
    by (auto simp: read_json_def bindI_def liftI_def json_loads_def split: prod.splits sum.splits fdata.splits)
  moreover have "only_dicts (list_or_empty (dget local_index ''skills'')) = map snapshot_entry (ss_skills summary)"
    using write_snapshot_Inr(1) [OF s(2) assms(3)] only_dicts_map [of "map snapshot_entry (ss_skills summary)"]
    by (simp add: snapshot_index_def list_or_empty_def)
  ultimately show ?thesis using that [OF s(1) _ s(5)] s(6) f by simp
qed

definition hash_items :: "pydict list \<Rightarrow> pyval list" where
  "hash_items skills = map (\<lambda>s. PDict [(''skill_id'', dget s ''skill_id''), (''content_hash'', dget s ''content_hash'')])
     (filter (\<lambda>s. truthy (dget s ''skill_id'') \<and> truthy (dget s ''content_hash'')) skills)"

lemma dget_base_record: "dget (base_record lr pre i c ix ss) ''applied'' = PList (hash_items ss)"
  by (simp add: base_record_def hash_items_def)

text \<open>What a merge may change: the entries of approved skills, which become the local ones; new ones come last.\<close>

definition changes_only :: "string list \<Rightarrow> skill_record list \<Rightarrow> pydict list \<Rightarrow> pydict list \<Rightarrow> bool" where
  "changes_only approved skills old new =
     (length old \<le> length new
      \<and> (\<forall>i < length old. py_str (dget (old ! i) ''skill_id'') \<notin> set approved \<longrightarrow> new ! i = old ! i)
      \<and> (\<forall>i < length new. (i < length old \<longrightarrow> py_str (dget (old ! i) ''skill_id'') \<in> set approved)
          \<longrightarrow> (\<exists>r \<in> set skills. new ! i = snapshot_entry r \<and> sk_id r \<in> set approved)))"

lemma merge_changes_only:
  assumes "merge_skills (entries_by_id (map snapshot_entry skills)) old approved = Inr new"
  shows "changes_only approved skills old new"
proof -
  note ms = merge_skills_Inr [OF assms]
  have "\<exists>r \<in> set skills. new ! i = snapshot_entry r \<and> sk_id r \<in> set approved"
    if i: "i < length new" "i < length old \<longrightarrow> py_str (dget (old ! i) ''skill_id'') \<in> set approved" for i
  proof -
    obtain k where k: "k \<in> set approved" "map_of (entries_by_id (map snapshot_entry skills)) k = Some (new ! i)"
      using ms(3) [OF i] by blast
    obtain r where "r \<in> set skills" "new ! i = snapshot_entry r" using entries_by_id_mem [OF k(2)] by auto
    with k entries_by_id_mem [OF k(2)] show ?thesis by (intro bexI [of _ r]) (simp_all add: dget_snapshot_entry)
  qed
  with ms show ?thesis unfolding changes_only_def by blast
qed

text \<open>The hashes that an index lists for its skills depend, skill by skill, only on the entries of that skill.\<close>

definition add_hash :: "pydict \<Rightarrow> (string \<times> string) list \<Rightarrow> (string \<times> string) list" where
  "add_hash s m = AList.update (py_str (dget s ''skill_id'')) (py_str (dget s ''content_hash'')) m"

lemma add_hash_only: "map_of (fold add_hash ss m) k = map_of (fold add_hash (filter (\<lambda>s. py_str (dget s ''skill_id'') = k) ss) m') k"
  if "map_of m k = map_of m' k"
  using that by (induction ss arbitrary: m m') (simp_all add: add_hash_def update_conv')

lemma dict_hashes_by_id_fold: "dict_hashes_by_id v = bindR (as_dict v) (\<lambda>index. bindR (index_skills index) (\<lambda>skills.
    Inr (fold add_hash (filter (\<lambda>s. truthy (dget s ''skill_id'') \<and> truthy (dget s ''content_hash'')) skills) [])))"
  by (simp add: dict_hashes_by_id_def add_hash_def [abs_def])

lemma dict_hashes_distinct: "dict_hashes_by_id v = Inr m \<Longrightarrow> distinct (map fst m)"
proof -
  have "distinct (map fst (fold add_hash ss acc))" if "distinct (map fst acc)" for ss acc
    using that by (induction ss arbitrary: acc) (simp_all add: add_hash_def distinct_update)
  then show "dict_hashes_by_id v = Inr m \<Longrightarrow> distinct (map fst m)" by (auto simp: dict_hashes_by_id_fold)
qed

lemma filter_pointwise:
  assumes "length xs \<le> length ys" "\<And>i. i < length xs \<Longrightarrow> P (xs ! i) \<Longrightarrow> ys ! i = xs ! i"
    "\<And>i. i < length ys \<Longrightarrow> i < length xs \<longrightarrow> \<not> P (xs ! i) \<Longrightarrow> \<not> P (ys ! i)"
  shows "filter P ys = filter P xs"
  using assms
proof (induction xs arbitrary: ys)
  case Nil
  then have "\<not> P y" if "y \<in> set ys" for y using that by (auto simp: in_set_conv_nth)
  then show ?case by simp
next
  case (Cons x xs)
  obtain y ys' where ys: "ys = y # ys'" using Cons.prems(1) by (cases ys) simp_all
  have "filter P ys' = filter P xs"
  proof (rule Cons.IH)
    show "length xs \<le> length ys'" using Cons.prems(1) by (simp add: ys)
    show "ys' ! i = xs ! i" if "i < length xs" "P (xs ! i)" for i
      using Cons.prems(2) [of "Suc i"] that by (simp add: ys)
    show "\<not> P (ys' ! i)" if "i < length ys'" "i < length xs \<longrightarrow> \<not> P (xs ! i)" for i
      using Cons.prems(3) [of "Suc i"] that by (simp add: ys)
  qed
  with Cons.prems(2) [of 0] Cons.prems(3) [of 0] show ?case by (cases "P x") (simp_all add: ys)
qed

lemma changes_only_filter:
  assumes "changes_only approved skills old new" "k \<notin> set approved"
  shows "filter (\<lambda>s. py_str (dget s ''skill_id'') = k) new = filter (\<lambda>s. py_str (dget s ''skill_id'') = k) old"
proof (rule filter_pointwise)
  fix i assume i: "i < length new" "i < length old \<longrightarrow> py_str (dget (old ! i) ''skill_id'') \<noteq> k"
  show "py_str (dget (new ! i) ''skill_id'') \<noteq> k"
  proof (cases "i < length old \<and> py_str (dget (old ! i) ''skill_id'') \<notin> set approved")
    case True
    with assms(1) i show ?thesis by (simp add: changes_only_def)
  next
    case False
    with assms(1) i(1) obtain r where "new ! i = snapshot_entry r" "sk_id r \<in> set approved"
      unfolding changes_only_def by blast
    with assms(2) show ?thesis by (auto simp: dget_snapshot_entry)
  qed
qed (use assms in \<open>auto simp: changes_only_def\<close>)

lemma index_skills_merged: "index_skills (merged_index label now ix merged) = Inr merged"
  by (simp add: index_skills_def merged_index_def only_dicts_map)

lemma changes_only_hashes:
  assumes "changes_only approved skills old new" "k \<notin> set approved"
    and "dict_hashes_by_id (PDict ix) = Inr m" "index_skills ix = Inr old"
  shows "\<exists>m'. dict_hashes_by_id (PDict (merged_index label now ix new)) = Inr m' \<and> map_of m' k = map_of m k"
proof -
  let ?t = "\<lambda>s. truthy (dget s ''skill_id'') \<and> truthy (dget s ''content_hash'')"
  let ?k = "\<lambda>s. py_str (dget s ''skill_id'') = k"
  have f: "filter ?k (filter ?t new) = filter ?k (filter ?t old)"
    using arg_cong [OF changes_only_filter [OF assms(1,2)], of "filter ?t"] by (simp add: conj_commute conj_left_commute)
  have m: "m = fold add_hash (filter ?t old) []" using assms(3,4) by (simp add: dict_hashes_by_id_fold)
  have "map_of (fold add_hash (filter ?t new) []) k = map_of m k"
    unfolding m using add_hash_only [of "[]" k "[]" "filter ?t new"] add_hash_only [of "[]" k "[]" "filter ?t old"] f by simp
  then show ?thesis by (simp add: dict_hashes_by_id_fold index_skills_merged)
qed

text \<open>What the check has compared: the cached index and the one of the remote.\<close>

lemma assert_approved_keeps: "keeps (\<lambda>w. w) (assert_approved_remote (file_remote root) pre dir)"
  unfolding assert_approved_remote_def file_remote_simps split_beta by (intro keeps_intros keeps_file_get)

lemma assert_approved_Inr:
  assumes "assert_approved_remote (file_remote root) pre dir w = (Inr u, w')" "clean dir"
  obtains cached remote_index ch rh where "file_at w (dir @ [''index.json'']) = Some (Json cached)"
    "file_get_option root (join_remote_path pre ''index.json'') w = Some (Json remote_index)"
    "dict_hashes_by_id cached = Inr ch" "dict_hashes_by_id remote_index = Inr rh" "map_of rh = map_of ch"
proof -
  let ?ix = "join_remote_path pre ''index.json''"
  have cd: "clean (dir @ [''index.json''])" using assms(2) by simp
  from assms(1) obtain cached remote_index w1 w2 d rh ch where
    c: "read_json (dir @ [''index.json'']) w = (Inr cached, w1)" "file_get root ?ix w1 = (Inr d, w2)" "json_loads d = Inr remote_index"
      "dict_hashes_by_id remote_index = Inr rh" "dict_hashes_by_id cached = Inr ch" "same_items rh ch"
    unfolding assert_approved_remote_def file_remote_simps
    by (auto simp: io_Inr catchI_def split: prod.splits sum.splits if_splits)
  have w1: "w1 = w" using c(1) read_json_keeps [of "dir @ [''index.json'']" w] by simp
  have "file_at w (dir @ [''index.json'']) = Some (Json cached)"
    using c(1) file_at_read [OF cd, of w]
    by (auto simp: read_json_def bindI_def liftI_def json_loads_def split: prod.splits sum.splits fdata.splits)
  moreover have "d = Json remote_index" using c(3) by (cases d) (simp_all add: json_loads_def)
  then have "file_get_option root ?ix w = Some (Json remote_index)" using c(2) w1 by (simp add: file_get_option_def)
  moreover have "map_of rh = map_of ch" using same_items_map_of [OF c(6)] c(4,5) dict_hashes_distinct by blast
  ultimately show thesis using that c(4,5) by blast
qed

text \<open>A merge that is built, uploaded and recorded as the base.\<close>

lemma published_merge:
  assumes b: "build_merged_snapshot H a approved out inner label now w1 = (Inr (index, archives), w6)"
    and u: "upload_snapshot out (file_remote root) pre (Some archives) True w6 = (Inr up, w7)"
    and r: "write_approved_base_record lr index pre base_out sync_id time w7 = (Inr base, w9)"
    and "digest_host H" "clean out" "clean inner" "clean (sa_snapshot a)" "apart inner (sa_snapshot a)" "apart root out" "apart base root"
  obtains w2 summary remote_index remote_skills merged where
    "mkdirs inner w1 = (Inr (), w2)" "scan_roots H w2 [(''cc-switch'', sa_local_root a)] = Inr summary"
    "file_at w1 (sa_snapshot a @ [''index.json'']) = Some (Json (PDict remote_index))" "index_skills remote_index = Inr remote_skills"
    "changes_only approved (ss_skills summary) remote_skills merged" "index = merged_index label now remote_index merged"
    "file_get_option root (join_remote_path pre ''index.json'') w9 = Some (Json (PDict index))" "clean base"
    "file_at w9 base = Some (Json (PDict (base_record lr pre sync_id time index merged)))"
proof -
  let ?ix = "join_remote_path pre ''index.json''"
  from b obtain remote_index merged w5 where m: "with_tmp inner (merge_into H a approved out (inner @ [''local-snapshot'']) label now) w1
      = (Inr (remote_index, merged, archives), w5)"
    "write_data (out @ [''index.json'']) (Json (PDict index)) w5 = (Inr (), w6)" "index = merged_index label now remote_index merged"
    by (auto simp: build_merged_snapshot_def Let_def io_Inr)
  obtain w2 w4 where i: "mkdirs inner w1 = (Inr (), w2)"
    "merge_into H a approved out (inner @ [''local-snapshot'']) label now w2 = (Inr (remote_index, merged, archives), w4)"
    by (rule with_tmp_Inr [OF m(1)])
  have la: "apart (inner @ [''local-snapshot'']) (sa_snapshot a)" using apart_under [OF assms(8)] by simp
  obtain summary remote_skills where g: "scan_roots H w2 [(''cc-switch'', sa_local_root a)] = Inr summary"
    "file_at w2 (sa_snapshot a @ [''index.json'']) = Some (Json (PDict remote_index))" "index_skills remote_index = Inr remote_skills"
    "merge_skills (entries_by_id (map snapshot_entry (ss_skills summary))) remote_skills approved = Inr merged"
    by (rule merge_into_Inr [OF i(2) assms(4) _ assms(7) la]) (use assms(6) in simp)
  have co: "clean (out @ [''index.json''])" using assms(5) by simp
  have "file_at w6 (out @ [''index.json'']) = Some (Json (PDict index))"
    using write_data_Inr [OF co m(2)] co by (simp add: file_at_def)
  with u have p7: "file_get_option root ?ix w7 = Some (Json (PDict index))" using upload_publishes_index [OF _ _ assms(5,9)] by blast
  obtain t0 where t0: "file_path root ?ix = Inr t0" using p7 by (cases "file_path root ?ix") (auto simp: file_get_option)
  have at0: "clean t0" "apart base t0" using file_path_Inr [OF t0] apart_under [OF apart_sym [OF assms(10)]] by (auto intro: apart_sym)
  note rec = write_approved_base_record_Inr [OF r]
  have "bindR (py_iter (dget_or index ''skills'' (PList []))) (mapR as_dict) = Inr merged"
    unfolding m(3) by (simp add: merged_index_def mapR_as_dict_PDict)
  moreover have "clean base" using rec(1) by simp
  ultimately show thesis using that [OF i(1) g(1) _ g(3) merge_changes_only [OF g(4)] m(3) _ _ rec(2)]
      g(2) keepsD [OF keeps_mkdirs i(1)] p7 t0 at0 rec(3) by (simp add: file_get_option)
qed


section \<open>What an approval needs\<close>

lemma approved_ids_from_Inr:
  "approved_ids_from seen raws = Inr ids \<Longrightarrow> distinct ids \<and> set ids \<inter> set seen = {} \<and> [] \<notin> set ids"
  by (induction seen raws arbitrary: ids rule: approved_ids_from.induct) (fastforce simp: Let_def split: if_splits)+

text \<open>\<open>may_push\<close>: what the report and the current plan have to say of an approved skill.\<close>

definition may_push :: "bool \<Rightarrow> pydict \<Rightarrow> sync_plan_item \<Rightarrow> bool" where
  "may_push allow_wins ri i =
     (dget ri ''base_hash'' = pl_base_hash i \<and> dget ri ''local_hash'' = pl_local_hash i \<and> dget ri ''remote_hash'' = pl_remote_hash i
      \<and> ((pl_allowed i \<and> pl_plan_action i \<in> {''push'', ''push_new''} \<and> dget ri ''category'' = PStr ''writer_policy'')
         \<or> (allow_wins \<and> \<not> pl_allowed i \<and> pl_status_action i = ''conflict'' \<and> dget ri ''category'' = PStr ''conflict'')))"

lemma approved_item_Inr:
  assumes "approved_item report_by_id plan_by_id allow k = Inr x"
  obtains ri current where "map_of report_by_id k = Some ri" "map_of plan_by_id k = Some current"
    "\<forall>h \<in> {''base_hash'', ''local_hash'', ''remote_hash''}. dget current h = dget ri h"
    "dget ri ''category'' = PStr ''writer_policy'' \<and> truthy (dget current ''allowed'')
       \<and> (dget current ''plan_action'' = PStr ''push'' \<or> dget current ''plan_action'' = PStr ''push_new'')
     \<or> conflict_local_wins ri current allow"
  using assms by (fastforce simp: approved_item_def find_None_iff split: option.splits if_splits)

text \<open>nothing is pushed on an approval that is not fresh: the approved ids are distinct and not empty,
  and each of them is in the blocked report and in the plan computed now, with the same base, local and
  remote hash in both; it is an allowed push that only the writer policy had blocked, or, when local wins
  was asked for, a conflict.\<close>

theorem approval_needs_a_fresh_report:
  assumes "approve H w a report_path skill_ids allow_new allow_wins = Inr (report, approved, items, plan, approvals)"
  shows "approved \<noteq> [] \<and> distinct approved \<and> load_blocked_report w report_path = Inr report
    \<and> (\<exists>report_by_id. report_items_by_id report = Inr report_by_id
      \<and> (\<forall>k \<in> set approved. \<exists>ri. map_of report_by_id k = Some ri \<and> (\<exists>i \<in> set items. pl_skill_id i = k \<and> may_push allow_wins ri i)))"
proof -
  from assms obtain status report_by_id where f: "load_blocked_report w report_path = Inr report" "approved_skill_ids skill_ids = Inr approved"
    "report_items_by_id report = Inr report_by_id"
    "list_all2 (\<lambda>k x. approved_item report_by_id (entries_by_id (map plan_item_dict items)) allow_wins k = Inr x) approved approvals"
    by (auto simp: approve_def mapR_Inr_iff)
  have "approved_ids_from [] skill_ids = Inr approved" "approved \<noteq> []"
    using f(2) by (auto simp: approved_skill_ids_def split: if_splits)
  then have d: "approved \<noteq> []" "distinct approved" using approved_ids_from_Inr by blast+
  have "\<exists>ri. map_of report_by_id k = Some ri \<and> (\<exists>i \<in> set items. pl_skill_id i = k \<and> may_push allow_wins ri i)"
    if k: "k \<in> set approved" for k
  proof -
    obtain x where x: "approved_item report_by_id (entries_by_id (map plan_item_dict items)) allow_wins k = Inr x"
      using f(4) k by (auto simp: list_all2_conv_all_nth in_set_conv_nth)
    obtain ri current where c: "map_of report_by_id k = Some ri" "map_of (entries_by_id (map plan_item_dict items)) k = Some current"
      "\<forall>h \<in> {''base_hash'', ''local_hash'', ''remote_hash''}. dget current h = dget ri h"
      "dget ri ''category'' = PStr ''writer_policy'' \<and> truthy (dget current ''allowed'')
         \<and> (dget current ''plan_action'' = PStr ''push'' \<or> dget current ''plan_action'' = PStr ''push_new'')
       \<or> conflict_local_wins ri current allow_wins"
      by (rule approved_item_Inr [OF x])
    from entries_by_id_mem [OF c(2)] obtain i where i: "i \<in> set items" "current = plan_item_dict i" "pl_skill_id i = k"
      by (auto simp: plan_item_dict_def)
    have "may_push allow_wins ri i"
      using c(3,4) unfolding i(2) by (auto simp: may_push_def plan_item_dict_def conflict_local_wins_def)
    with c(1) i show ?thesis by blast
  qed
  with d f show ?thesis by blast
qed

section \<open>Examples\<close>

definition hex_host :: host where
  "hex_host = \<lparr>h_sha = (\<lambda>d. ''ab''), h_size = (\<lambda>d. 1), h_dumps = (\<lambda>v. [])\<rparr>"

definition gone_b :: pyval where
  "gone_b = PDict [(''skill_id'', PStr ''b''), (''content_hash'', PStr ''h''), (''lifecycle'', PDict [(''state'', PStr ''deprecated'')])]"

definition approved_world :: world where
  "approved_world = \<lparr>w_tree = NDir
     [(''l'', NDir [(''demo-skill'', tiny_skill_node)]),
      (''c'', NDir [(''index.json'', NFile (Json (PDict [(''skills'', PList [gone_b, deprecated_demo])])))]),
      (''r'', NDir [(''index.json'', NFile (Json (PDict [(''skills'', PList [gone_b, deprecated_demo])])))])], w_fault = None\<rparr>"

definition approved_names0 :: approved_names where
  "approved_names0 = \<lparr>an_preview_tmp = [''t1''], an_preview_inner = [''t2''], an_tmp = [''t3''], an_inner = [''t4''],
     an_preview_label = ''p1'', an_label = ''p2'', an_sync_id = ''y1'', an_now = ''now''\<rparr>"


text \<open>The remote deprecated \<open>b\<close> after the cache was pulled: the hashes agree, the push passes, and \<open>b\<close> is listed without its mark.\<close>

definition marked_later_world :: world where
  "marked_later_world = \<lparr>w_tree = NDir
     [(''l'', NDir [(''demo-skill'', tiny_skill_node)]),
      (''c'', NDir [(''index.json'', NFile (Json (PDict [(''skills'', PList [PDict [(''skill_id'', PStr ''b''), (''content_hash'', PStr ''h'')]])])))]),
      (''r'', NDir [(''index.json'', NFile (Json (PDict [(''skills'', PList [gone_b])])))])], w_fault = None\<rparr>"

lemma a_later_mark_is_undone:
  "case checked_push hex_host push_args [''demo-skill''] (file_remote [''r'']) [] None approved_names0 marked_later_world of (r, w') \<Rightarrow>
     (case r of Inl e \<Rightarrow> False
      | Inr x \<Rightarrow> (case file_get_option [''r''] ''index.json'' w' of
          Some (Json (PDict index)) \<Rightarrow>
            map (\<lambda>s. (dget s ''skill_id'', skill_lifecycle_state s)) (only_dicts (list_or_empty (dget index ''skills'')))
              = [(PStr ''b'', ''published''), (PStr ''demo-skill'', ''published'')]
        | _ \<Rightarrow> False))
   \<and> skill_lifecycle_state (dict_or_empty gone_b) = ''deprecated''"
  by code_simp

definition report_world :: "string \<Rightarrow> world" where
  "report_world local_hash = \<lparr>w_tree = NDir
     [(''l'', NDir [(''demo-skill'', tiny_skill_node)]),
      (''c'', NDir [(''index.json'', NFile (Json (PDict [(''skills'', PList [])])))]),
      (''b.json'', NFile (Json (PDict [(''record_type'', PStr ''skill-sync-blocked-report''), (''allow_new'', PBool True),
         (''items'', PList [PDict [(''skill_id'', PStr ''demo-skill''), (''category'', PStr ''writer_policy''),
            (''status_action'', PStr ''local_new''), (''base_hash'', PNone), (''local_hash'', PStr local_hash), (''remote_hash'', PNone)]])])))],
     w_fault = None\<rparr>"

theorem approval_needs_a_fresh_report_witness:
  "\<exists>report items plan approvals. approve hex_host (report_world ''ab'') push_args [''b.json''] ['' demo-skill ''] None False
       = Inr (report, [''demo-skill''], items, plan, approvals)
     \<and> (\<exists>i \<in> set items. pl_skill_id i = ''demo-skill'' \<and> pl_plan_action i \<in> {''push'', ''push_new''} \<and> pl_allowed i)"
proof -
  have "case load_blocked_report (report_world ''ab'') [''b.json''] of Inl e \<Rightarrow> False | Inr report \<Rightarrow>
     (case report_items_by_id report of Inl e \<Rightarrow> False | Inr by_id \<Rightarrow>
     (case build_sync_status hex_host (report_world ''ab'') push_args ''local'' None [] of Inl e \<Rightarrow> False | Inr status \<Rightarrow>
     (case plan_items (effective_allow_new None report) False ''push-pull'' status of Inl e \<Rightarrow> False | Inr items \<Rightarrow>
     (case mapR (approved_item by_id (entries_by_id (map plan_item_dict items)) False) [''demo-skill''] of Inl e \<Rightarrow> False | Inr x \<Rightarrow> True))))"
    by code_simp
  then obtain report by_id status items approvals where s: "load_blocked_report (report_world ''ab'') [''b.json''] = Inr report"
    "report_items_by_id report = Inr by_id" "build_sync_status hex_host (report_world ''ab'') push_args ''local'' None [] = Inr status"
    "plan_items (effective_allow_new None report) False ''push-pull'' status = Inr items"
    "mapR (approved_item by_id (entries_by_id (map plan_item_dict items)) False) [''demo-skill''] = Inr approvals"
    by (auto split: sum.splits)
  have "approved_skill_ids ['' demo-skill ''] = Inr [''demo-skill'']" by code_simp
  with s have a: "approve hex_host (report_world ''ab'') push_args [''b.json''] ['' demo-skill ''] None False
      = Inr (report, [''demo-skill''], items, plan_dict ''push-pull'' status items, approvals)"
    by (simp add: approve_def)
  from approval_needs_a_fresh_report [OF a] a show ?thesis by (fastforce simp: may_push_def)
qed

end
