(* ===== verification/Regions.thy ===== *)
theory Regions
  imports Snapshot
begin

text \<open>
  Actions that touch several places: \<open>only_within ps m\<close> says that \<open>m\<close>, whatever it returns, raises or
  leaves behind when an operation faults, changes nothing at a path that is apart from every path
  of \<open>ps\<close>. \<open>Frame\<close>'s \<open>only_under\<close> is the case of one place.
\<close>

definition only_within :: "path set \<Rightarrow> 'a io \<Rightarrow> bool" where
  "only_within ps m = (\<forall>w q. (\<forall>p \<in> ps. apart p q) \<longrightarrow> lookup (w_tree (snd (m w))) q = lookup (w_tree w) q)"

named_theorems region_intros \<open>rules for the places an action may touch\<close>

lemma only_withinI:
  "(\<And>w q. \<forall>p \<in> ps. apart p q \<Longrightarrow> lookup (w_tree (snd (m w))) q = lookup (w_tree w) q) \<Longrightarrow> only_within ps m"
  by (simp add: only_within_def)

lemma only_withinD: "only_within ps m \<Longrightarrow> \<forall>p \<in> ps. apart p q \<Longrightarrow> lookup (w_tree (snd (m w))) q = lookup (w_tree w) q"
  by (simp add: only_within_def)

lemma only_within_run: "only_within ps m \<Longrightarrow> m w = (r, w') \<Longrightarrow> \<forall>p \<in> ps. apart p q
    \<Longrightarrow> lookup (w_tree w') q = lookup (w_tree w) q"
  by (metis only_withinD snd_conv)

lemma only_under_run: "only_under p m \<Longrightarrow> m w = (r, w') \<Longrightarrow> apart p q \<Longrightarrow> lookup (w_tree w') q = lookup (w_tree w) q"
  by (metis only_underD snd_conv)

lemma only_within_under: "only_under p m \<Longrightarrow> p \<in> ps \<Longrightarrow> only_within ps m"
  by (rule only_withinI) (blast intro: only_underD)

lemma only_within_below: "only_under p' m \<Longrightarrow> p \<in> ps \<Longrightarrow> prefix p p' \<Longrightarrow> only_within ps m"
  by (blast intro: only_within_under only_under_mono)

lemma only_within_mono: "only_within ps m \<Longrightarrow> ps \<subseteq> qs \<Longrightarrow> only_within qs m"
  by (rule only_withinI) (blast intro: only_withinD)

lemma only_within_reader: "(\<And>w. snd (m w) = w) \<Longrightarrow> only_within ps m"
  by (simp add: only_within_def)

lemma only_within_pure [region_intros]:
  "only_within ps (returnI x)" "only_within ps (raiseI e)" "only_within ps (liftI r)" "only_within ps (askI f)"
  "only_within ps (read_data q)" "only_within ps (read_json q)"
  by (simp_all add: only_within_def io_defs read_data_keeps read_json_keeps)

lemma only_within_bindI [region_intros]:
  assumes "only_within ps m" "\<And>x. only_within ps (f x)"
  shows "only_within ps (bindI m f)"
proof (rule only_withinI)
  fix w q assume a: "\<forall>p \<in> ps. apart p q"
  show "lookup (w_tree (snd (bindI m f w))) q = lookup (w_tree w) q"
    using only_withinD [OF assms(1) a, of w] only_withinD [OF assms(2) a]
    by (cases "m w") (auto simp: bindI_def split: sum.splits)
qed

lemma only_within_bind_value:
  assumes "only_within ps m" "\<And>w x w'. m w = (Inr x, w') \<Longrightarrow> only_within ps (f x)"
  shows "only_within ps (bindI m f)"
proof (rule only_withinI)
  fix w q assume a: "\<forall>p \<in> ps. apart p q"
  show "lookup (w_tree (snd (bindI m f w))) q = lookup (w_tree w) q"
    using only_withinD [OF assms(1) a, of w] only_withinD [OF assms(2) a]
    by (cases "m w") (auto simp: bindI_def split: sum.splits)
qed

lemma only_within_thenI [region_intros]: "only_within ps m \<Longrightarrow> only_within ps k \<Longrightarrow> only_within ps (thenI m k)"
  unfolding thenI_def by (rule only_within_bindI)

lemma only_within_if [region_intros]:
  "(b \<Longrightarrow> only_within ps m) \<Longrightarrow> (\<not> b \<Longrightarrow> only_within ps k) \<Longrightarrow> only_within ps (if b then m else k)"
  by simp

lemma only_within_catchI [region_intros]:
  assumes "only_within ps m" "\<And>e. only_within ps (h e)"
  shows "only_within ps (catchI m h)"
proof (rule only_withinI)
  fix w q assume a: "\<forall>p \<in> ps. apart p q"
  show "lookup (w_tree (snd (catchI m h w))) q = lookup (w_tree w) q"
    using only_withinD [OF assms(1) a, of w] only_withinD [OF assms(2) a]
    by (cases "m w") (auto simp: catchI_def split: sum.splits)
qed

lemma only_within_mapI [region_intros]:
  "(\<And>x. x \<in> set xs \<Longrightarrow> only_within ps (f x)) \<Longrightarrow> only_within ps (mapI f xs)"
  by (induction xs) (auto intro: region_intros)

lemma only_within_foldI [region_intros]:
  "(\<And>x s. x \<in> set xs \<Longrightarrow> only_within ps (f x s)) \<Longrightarrow> only_within ps (foldI f xs s)"
  by (induction xs arbitrary: s) (auto intro!: region_intros)

lemma only_within_bind_lift:
  "(\<And>x. r = Inr x \<Longrightarrow> only_within ps (f x)) \<Longrightarrow> only_within ps (bindI (liftI r) f)"
  by (rule only_within_bind_value) (auto intro: region_intros simp: liftI_def)

lemma only_within_at: "(\<And>w. only_within ps (f w)) \<Longrightarrow> only_within ps (\<lambda>w. f w w)"
  by (simp add: only_within_def)

lemma only_within_ask:
  "(\<And>w. only_within ps (f (g w))) \<Longrightarrow> only_within ps (bindI (askI g) f)"
  by (rule only_within_bind_value) (auto intro: region_intros simp: askI_def)

lemma only_within_replace_path:
  assumes "p \<in> ps" "prefix p (norm_path s)" "q \<in> ps" "prefix q (norm_path d)"
  shows "only_within ps (replace_path s d)"
proof (rule only_withinI)
  fix w r assume "\<forall>p \<in> ps. apart p r"
  with assms have a: "apart (norm_path s) r" "apart (norm_path d) r" by (blast intro: apart_under)+
  have m: "lookup (put (del t (norm_path s)) (norm_path d) n) r = lookup t r" for t n
    using a by (simp add: lookup_put_apart lookup_del_apart)
  show "lookup (w_tree (snd (replace_path s d w))) r = lookup (w_tree w) r"
    by (auto simp: replace_path_def Let_def m intro!: step_clean_frame split: option.split node.split list.split)
qed

lemma only_within_singleton: "only_within {p} m \<Longrightarrow> only_under p m"
  by (simp add: only_within_def only_under_def)

lemma only_under_replace_path [frame_intros]:
  "prefix q (norm_path s) \<Longrightarrow> prefix q (norm_path d) \<Longrightarrow> only_under q (replace_path s d)"
  by (rule only_within_singleton, rule only_within_replace_path) simp_all

text \<open>A handler that raises again returns what it guards.\<close>

lemma catch_raise_Inr: "catchI m (\<lambda>e. thenI k (raiseI e)) w = (Inr x, w') \<longleftrightarrow> m w = (Inr x, w')"
  by (auto simp: catchI_def thenI_def bindI_def raiseI_def split: prod.splits sum.splits)

text \<open>A temporary directory is one more place.\<close>

lemma only_under_remove_path: "clean p \<Longrightarrow> prefix q p \<Longrightarrow> only_under q (remove_path p)"
  by (rule only_under_mono [OF remove_path_frame])

lemma only_within_with_tmp [region_intros]:
  assumes "clean tmp" "tmp \<in> ps" "only_within ps m"
  shows "only_within ps (with_tmp tmp m)"
proof -
  have t: "only_within ps (mkdirs tmp)" "only_within ps (remove_path tmp)"
    using assms(1,2) by (auto intro!: only_within_under [of tmp] only_under_mkdirs remove_path_frame simp: apart_def)
  show ?thesis unfolding with_tmp_def by (intro region_intros t assms(3))
qed

end
