(* ===== verification/Restore.thy ===== *)
theory Restore
  imports ApprovedPush Regions
begin

text \<open>
  \<open>restore.py\<close>: bring selected skills of the central snapshot back into a local root. The snapshot is
  staged into a temporary directory, an apply plan selects the requested skills, and anything that cannot
  be installed refuses the whole restore before a file of the root is touched.
\<close>

definition restore_skill_ids :: "string list \<Rightarrow> string list res" where
  "restore_skill_ids skill_ids = (let result = unique_ids [] skill_ids in
     if result = [] then Inl (Exn RestoreError ''at least one skill id is required'') else Inr result)"

definition restore_load_index :: "world \<Rightarrow> path \<Rightarrow> pyval res" where
  "restore_load_index w snapshot_dir =
     (if \<not> exists w (snapshot_dir @ [''index.json''])
      then Inl (Exn RestoreError (''central snapshot cache has no index.json: '' @ path_str snapshot_dir))
      else case fst (read_json (snapshot_dir @ [''index.json'']) w) of
          Inl e \<Rightarrow> (if exn_kind e \<in> set [OSError, JSONDecodeError]
             then Inl (Exn RestoreError (''cannot read central snapshot index: '' @ exn_text e)) else Inl e)
        | Inr v \<Rightarrow> Inr v)"

definition central_ids :: "pydict \<Rightarrow> string list res" where
  "central_ids index = bindR (py_iter (dget_or index ''skills'' (PList []))) (\<lambda>skills.
     Inr (map (\<lambda>s. py_str (dget s ''skill_id'')) (filter (\<lambda>s. truthy (dget s ''skill_id'')) (only_dicts skills))))"

text \<open>The request and the index it is checked against, before anything is staged.\<close>

definition restore_request :: "world \<Rightarrow> path \<Rightarrow> string list \<Rightarrow> (string list \<times> pydict) res" where
  "restore_request w snapshot_dir skill_ids =
     bindR (restore_skill_ids skill_ids) (\<lambda>normalized.
     bindR (restore_load_index w snapshot_dir) (\<lambda>loaded.
     bindR (as_dict loaded) (\<lambda>index.
     bindR (central_ids index) (\<lambda>remote_ids.
       let missing = filter (\<lambda>i. i \<notin> set remote_ids) normalized in
       if missing \<noteq> [] then Inl (Exn RestoreError (''skill is not present in central snapshot: '' @ join_str '', '' missing))
       else Inr (normalized, index)))))"

text \<open>The directory of the stage index: two above the first staged skill.\<close>

definition staged_dir_of :: "pydict \<Rightarrow> path \<Rightarrow> path" where
  "staged_dir_of stage_index tmp =
     (case only_dicts (list_or_empty (dget stage_index ''skills'')) of [] \<Rightarrow> tmp
      | s # ss \<Rightarrow> path_parent (path_parent (path_of (py_str (dget s ''output_path'')))))"

definition plan_entries :: "pydict \<Rightarrow> pydict list" where
  "plan_entries plan = only_dicts (list_or_empty (dget plan ''items''))"

definition allowed_entries :: "pydict \<Rightarrow> pydict list" where
  "allowed_entries plan = filter (\<lambda>i. truthy (dget i ''allowed'')) (plan_entries plan)"

definition blocked_selection :: "pydict \<Rightarrow> string list \<Rightarrow> pyval" where
  "blocked_selection plan normalized =
     PList (map (\<lambda>i. PDict [(''skill_id'', dget i ''skill_id''), (''reason'', dget i ''reason'')])
       (filter (\<lambda>i. dget i ''skill_id'' \<in> PStr ` set normalized \<and> \<not> truthy (dget i ''allowed'')) (plan_entries plan)))"

definition restore_result :: "string \<Rightarrow> bool \<Rightarrow> string list \<Rightarrow> string \<Rightarrow> path \<Rightarrow> pydict \<Rightarrow> pydict" where
  "restore_result mode dry normalized target local_root index =
     [(''ok'', PBool True), (''record_type'', PStr ''skill-sync-central-restore''), (''mode'', PStr mode), (''dry_run'', PBool dry),
      (''safe_to_restore'', PBool True), (''skill_ids'', strs normalized), (''target'', PStr target),
      (''target_root'', PStr (path_str (norm_path local_root))), (''snapshot_id'', dget index ''snapshot_id'')]"

definition restore_plan ::
    "host \<Rightarrow> path \<Rightarrow> path \<Rightarrow> path \<Rightarrow> string list \<Rightarrow> string \<Rightarrow> path \<Rightarrow> string \<Rightarrow> pydict io" where
  "restore_plan H home local_root snapshot_dir normalized target tmp apply_id =
     bindI (stage_snapshot H snapshot_dir tmp True) (\<lambda>stage_index.
     bindI (bindI (askI (\<lambda>w. build_apply_plan home w (staged_dir_of stage_index tmp) target (Some local_root) None normalized apply_id)) liftI) (\<lambda>plan.
       if length (allowed_entries plan) \<noteq> length normalized
       then raiseI (Exn RestoreError (''selected skill is not restorable into '' @ target @ '': '' @ py_str (blocked_selection plan normalized)))
       else returnI plan))"

definition restore_apply :: "path \<Rightarrow> pydict \<Rightarrow> string list \<Rightarrow> string \<Rightarrow> path option \<Rightarrow> string \<Rightarrow> run_names \<Rightarrow> pydict \<Rightarrow> pydict io" where
  "restore_apply local_root index normalized target base_out remote_prefix n plan =
     bindI (execute_apply_plan plan (rn_apply_id n) (rn_now n) (rn_now n)) (\<lambda>result.
     bindI (case base_out of None \<Rightarrow> returnI None
       | Some p \<Rightarrow> bindI (write_approved_base_record local_root index remote_prefix (Some p) (rn_sync_id n) (rn_now n)) (\<lambda>b. returnI (Some b))) (\<lambda>base.
       returnI (restore_result ''restore'' False normalized target local_root index
         @ [(''restored'', dget_or result ''total_applied'' (PInt 0)), (''apply_result'', PDict result), (''base_record_path'', opt_path base)])))"

definition restore_from_central ::
    "host \<Rightarrow> path \<Rightarrow> path \<Rightarrow> path \<Rightarrow> string list \<Rightarrow> string \<Rightarrow> path option \<Rightarrow> string \<Rightarrow> bool \<Rightarrow> run_names \<Rightarrow> pydict io" where
  "restore_from_central H home local_root snapshot_dir skill_ids target base_out remote_prefix yes n =
     bindI (bindI (askI (\<lambda>w. restore_request w snapshot_dir skill_ids)) liftI) (\<lambda>(normalized, index).
       with_tmp (rn_stage_tmp n)
         (bindI (restore_plan H home local_root snapshot_dir normalized target (rn_stage_tmp n) (rn_apply_id n)) (\<lambda>plan.
            if \<not> yes then returnI (restore_result ''dry_run'' True normalized target local_root index
              @ [(''planned'', PInt (int (length (allowed_entries plan)))), (''items'', PList (map PDict (allowed_entries plan)))])
            else restore_apply local_root index normalized target base_out remote_prefix n plan)))"

section \<open>What a restore guarantees\<close>

lemma restore_request_Inr:
  assumes "restore_request w snapshot_dir skill_ids = Inr (normalized, index)"
  shows "normalized = unique_ids [] skill_ids" "normalized \<noteq> []"
    "\<exists>ids. central_ids index = Inr ids \<and> set normalized \<subseteq> set ids"
  using assms by (auto simp: restore_request_def restore_skill_ids_def Let_def filter_empty_conv split: if_splits)

lemma restore_plan_frame:
  assumes "clean tmp" shows "only_under tmp (restore_plan H home local_root snapshot_dir normalized target tmp apply_id)"
  unfolding restore_plan_def by (intro frame_intros stage_snapshot_frame assms)

lemma restore_plan_Inr:
  "restore_plan H home local_root snapshot_dir normalized target tmp apply_id w = (Inr plan, w')
    \<Longrightarrow> length (allowed_entries plan) = length normalized"
  by (auto simp: restore_plan_def bindI_eq_Inr raiseI_def returnI_def split: if_splits)

lemma restore_from_central_runs:
  assumes "restore_from_central H home lr sd ids target out pre yes n w = (r, w')"
  obtains (refused) e where "restore_request w sd ids = Inl e" "r = Inl e" "w' = w"
  | (staged) normalized index where "restore_request w sd ids = Inr (normalized, index)"
    "with_tmp (rn_stage_tmp n)
       (bindI (restore_plan H home lr sd normalized target (rn_stage_tmp n) (rn_apply_id n)) (\<lambda>plan.
          if \<not> yes then returnI (restore_result ''dry_run'' True normalized target lr index
            @ [(''planned'', PInt (int (length (allowed_entries plan)))), (''items'', PList (map PDict (allowed_entries plan)))])
          else restore_apply lr index normalized target out pre n plan)) w = (r, w')"
proof (cases "restore_request w sd ids")
  case (Inl e)
  with assms show ?thesis by (intro refused [of e]) (auto simp: restore_from_central_def bindI_def askI_def liftI_def)
next
  case (Inr x)
  with assms show ?thesis by (cases x, intro staged) (auto simp: restore_from_central_def bindI_def askI_def liftI_def)
qed

text \<open>a restore is all or nothing up to its first write: it returns only when every requested skill is in the
  central index and every one of them can be installed, and until it is told to go ahead it has changed
  nothing but its temporary directory, whatever it found and whatever operation failed.\<close>

theorem restore_checks_everything_before_it_writes:
  assumes "restore_from_central H home lr snapshot_dir ids target out pre yes n w = (r, w')"
    and "clean (rn_stage_tmp n)"
  shows "(\<not> yes \<longrightarrow> (\<forall>q. apart (rn_stage_tmp n) q \<longrightarrow> there w' q = there w q))
    \<and> (\<forall>result. r = Inr result \<longrightarrow> (\<exists>normalized index central. restore_request w snapshot_dir ids = Inr (normalized, index)
          \<and> normalized = unique_ids [] ids \<and> normalized \<noteq> [] \<and> central_ids index = Inr central \<and> set normalized \<subseteq> set central
          \<and> dget result ''skill_ids'' = strs normalized
          \<and> (\<not> yes \<longrightarrow> dget result ''planned'' = PInt (int (length normalized)))))
    \<and> (\<forall>e. restore_request w snapshot_dir ids = Inl e \<longrightarrow> r = Inl e \<and> w' = w)"
  using assms(1)
proof (cases rule: restore_from_central_runs)
  case (refused e)
  then show ?thesis by auto
next
  case (staged normalized index)
  let ?body = "bindI (restore_plan H home lr snapshot_dir normalized target (rn_stage_tmp n) (rn_apply_id n)) (\<lambda>plan.
          if \<not> yes then returnI (restore_result ''dry_run'' True normalized target lr index
            @ [(''planned'', PInt (int (length (allowed_entries plan)))), (''items'', PList (map PDict (allowed_entries plan)))])
          else restore_apply lr index normalized target out pre n plan)"
  have f: "\<forall>q. apart (rn_stage_tmp n) q \<longrightarrow> there w' q = there w q" if "\<not> yes"
  proof -
    have "only_within {rn_stage_tmp n} (with_tmp (rn_stage_tmp n) ?body)"
      using that by (auto intro!: region_intros only_within_under [OF restore_plan_frame] assms(2))
    from only_under_run [OF only_within_singleton [OF this], OF staged(2)] show ?thesis by blast
  qed
  have "dget result ''skill_ids'' = strs normalized
      \<and> (\<not> yes \<longrightarrow> dget result ''planned'' = PInt (int (length normalized)))" if r: "r = Inr result" for result
  proof -
    from with_tmp_Inr [OF staged(2) [unfolded r]] obtain w1 w2 where "?body w1 = (Inr result, w2)" by blast
    then show ?thesis by (auto simp: io_Inr restore_apply_def restore_result_def split: if_splits dest!: restore_plan_Inr)
  qed
  with staged(1) restore_request_Inr [OF staged(1)] f show ?thesis by auto
qed

section \<open>Examples\<close>

text \<open>A restore of a skill the central index does not list, and the one of a skill it lists without an archive: the
  first is refused at once, the second when it is staged; nothing is left behind.\<close>

definition empty_restore_world :: world where
  "empty_restore_world = \<lparr>w_tree = NDir [(''l'', NDir []), (''c'', NDir [(''index.json'', NFile (Json (demo_index [(''b'', ''h'')])))])], w_fault = None\<rparr>"

theorem restore_checks_everything_before_it_writes_witness:
  "\<exists>e w' e2. restore_from_central raw_host [''h''] [''l''] [''c''] [''b''] ''mixed-scope-root'' None [] False push_names empty_restore_world = (Inl e, w')
     \<and> there w' [''l''] = Some (NDir [])
     \<and> restore_from_central raw_host [''h''] [''l''] [''c''] ['' x ''] ''mixed-scope-root'' None [] True push_names empty_restore_world
         = (Inl e2, empty_restore_world)"
proof -
  let ?run = "restore_from_central raw_host [''h''] [''l''] [''c''] [''b''] ''mixed-scope-root'' None [] False push_names empty_restore_world"
  have "case ?run of (r, w') \<Rightarrow> (case r of Inl e \<Rightarrow> True | Inr x \<Rightarrow> False)" by code_simp
  then obtain e w' where r: "?run = (Inl e, w')" by (auto split: prod.splits sum.splits)
  have h: "clean (rn_stage_tmp push_names)" "apart (rn_stage_tmp push_names) [''l'']" "there empty_restore_world [''l''] = Some (NDir [])"
    by code_simp+
  have "case restore_request empty_restore_world [''c''] ['' x ''] of Inl e \<Rightarrow> True | Inr x \<Rightarrow> False" by code_simp
  then obtain e2 where e2: "restore_request empty_restore_world [''c''] ['' x ''] = Inl e2" by (auto split: sum.splits)
  obtain r2 w2 where r2: "restore_from_central raw_host [''h''] [''l''] [''c''] ['' x ''] ''mixed-scope-root'' None [] True push_names
      empty_restore_world = (r2, w2)" by (metis surj_pair)
  from restore_checks_everything_before_it_writes [OF r2 h(1)] e2 r2 restore_checks_everything_before_it_writes [OF r h(1)] r h(2,3)
  show ?thesis by (metis (no_types, lifting))
qed

end
