(* ===== verification/Retention.thy ===== *)
theory Retention
  imports Snapshot
begin

text \<open>
  \<open>report_retention.py\<close>: which generated deletion reports (tombstone directories) may be deleted, the
  lock directory they live in, and the atomic replacement of a JSON file. Modification times are a
  function of the path, given with the time of the run, in seconds; the lock itself is not modelled
  (one run at a time), only the file it leaves.
\<close>

section \<open>Replacing a JSON file\<close>

text \<open>The new text goes to a temporary file beside the old one, which is then renamed over it; the
  temporary file is deleted whatever happens.\<close>

definition drop_file :: "path \<Rightarrow> unit io" where
  "drop_file p = bindI (askI (\<lambda>w. exists w p)) (\<lambda>there. if there then unlink p else returnI ())"

definition temp_json :: "path \<Rightarrow> string \<Rightarrow> path" where
  "temp_json p fresh = path_parent p @ [''.'' @ path_name p @ ''.'' @ fresh]"

definition atomic_json :: "string \<Rightarrow> path \<Rightarrow> pyval \<Rightarrow> unit io" where
  "atomic_json fresh p payload =
     (let temp = temp_json p fresh in
      thenI (catchI (thenI (write_data temp (Json payload)) (replace_path temp p))
               (\<lambda>e. thenI (drop_file temp) (raiseI e)))
        (drop_file temp))"

section \<open>Records\<close>

definition record_fields :: "string list" where
  "record_fields = [''skill_id'', ''status_action'', ''base_hash'', ''local_hash'', ''remote_hash'', ''reason'',
     ''propagation'', ''state'', ''local_root'', ''remote_snapshot'']"

definition signature_of :: "pydict \<Rightarrow> pyval list" where
  "signature_of metadata = map (dget metadata) record_fields"

text \<open>A tombstone directory: its metadata reads, says so, and has a hashable signature; anything else is
  skipped without an error.\<close>

definition record_at :: "world \<Rightarrow> path \<Rightarrow> (path \<times> pydict) option" where
  "record_at w p =
     (if \<not> is_dir w p then None
      else case fst (read_json (p @ [''tombstone.json'']) w) of
          Inr (PDict m) \<Rightarrow>
            (if dget m ''record_type'' = PStr ''skill-sync-tombstone'' \<and> truthy (dget m ''skill_id'')
                \<and> (dget m ''status_action'' = PStr ''local_deleted'' \<or> dget m ''status_action'' = PStr ''remote_deleted'')
                \<and> list_all (\<lambda>v. \<not> is_list v \<and> \<not> is_dict v) (signature_of m)
             then Some (p, m) else None)
        | _ \<Rightarrow> None)"

definition report_records :: "world \<Rightarrow> path \<Rightarrow> (path \<times> pydict) list" where
  "report_records w root = List.map_filter (\<lambda>name. record_at w (root @ [name])) (iterdir w root)"

definition open_report_lock :: "path \<Rightarrow> unit io" where
  "open_report_lock root =
     thenI (mkdirs root)
       (bindI (askI (\<lambda>w. is_file w (root @ [''.retention.lock'']))) (\<lambda>made.
         if made then returnI () else write_data (root @ [''.retention.lock'']) (Raw [])))"

section \<open>Pruning\<close>

definition group_records :: "(path \<times> pydict) list \<Rightarrow> (pyval list \<times> path list) list" where
  "group_records recs = fold (\<lambda>(p, m) g.
     AList.update (signature_of m) ((case map_of g (signature_of m) of Some ps \<Rightarrow> ps | None \<Rightarrow> []) @ [p]) g) recs []"

definition oldest_first :: "(path \<Rightarrow> int) \<Rightarrow> path list \<Rightarrow> path list" where
  "oldest_first mtime ps = sort_key mtime (sort_key path_name ps)"

definition keep_record :: "(path \<Rightarrow> int) \<Rightarrow> int \<Rightarrow> path list \<Rightarrow> path list \<Rightarrow> path \<Rightarrow> bool" where
  "keep_record mtime now references gs p =
     (p = hd gs \<or> p = last gs \<or> norm_path p \<in> set references \<or> now - mtime p < 3600)"

definition decide_group :: "(path \<Rightarrow> int) \<Rightarrow> int \<Rightarrow> path list \<Rightarrow> path list \<Rightarrow> (path \<times> bool) list" where
  "decide_group mtime now references ps =
     (let gs = oldest_first mtime ps in map (\<lambda>p. (p, keep_record mtime now references gs p)) gs)"

definition prune_decisions :: "(path \<Rightarrow> int) \<Rightarrow> int \<Rightarrow> path list \<Rightarrow> (path \<times> pydict) list \<Rightarrow> (path \<times> bool) list" where
  "prune_decisions mtime now references recs =
     concat (map (\<lambda>(k, ps). decide_group mtime now references ps) (group_records recs))"

text \<open>\<open>v[k]\<close> on any value.\<close>

definition py_item :: "pyval \<Rightarrow> string \<Rightarrow> pyval res" where
  "py_item v k = (case v of PDict d \<Rightarrow> dindex d k
     | _ \<Rightarrow> Inl (Exn TypeError (in_quotes (type_name v) @ '' indices must be integers or slices, not str'')))"

definition reference_path :: "pyval \<Rightarrow> path res" where
  "reference_path item = bindR (py_item item ''path'') (\<lambda>v. case v of PStr s \<Rightarrow> Inr (norm_path (path_of s))
     | _ \<Rightarrow> Inl (Exn TypeError ''expected str, bytes or os.PathLike object''))"

text \<open>What the index refers to; an index that is missing, unreadable or refers to a directory that is not
  there stops the pruning before anything is deleted.\<close>

definition index_references :: "world \<Rightarrow> path \<Rightarrow> path list res" where
  "index_references w root =
     bindR (fst (read_json (root @ [''tombstone-index.json'']) w)) (\<lambda>payload.
     bindR (bindR (py_item payload ''tombstones'') py_iter) (\<lambda>items.
     bindR (mapR reference_path items) (\<lambda>references.
       if list_ex (\<lambda>p. \<not> is_dir w p) references
       then Inl (Exn ValueError ''tombstone index contains a missing reference'') else Inr references)))"

definition retention_report :: "nat \<Rightarrow> (path \<times> bool) list \<Rightarrow> pydict" where
  "retention_report groups ds =
     [(''content_groups'', PInt (int groups)),
      (''removed'', strs (map (path_name \<circ> fst) (filter (\<lambda>d. \<not> snd d) ds))),
      (''kept'', PInt (int (length (filter snd ds)))),
      (''retention'', PStr ''first/latest per content, current index references, all snapshots younger than one hour'')]"

definition remove_unkept :: "bool \<Rightarrow> path \<times> bool \<Rightarrow> unit \<Rightarrow> unit io" where
  "remove_unkept apply d u = (if snd d \<or> \<not> apply then returnI () else rmtree (fst d))"

definition prune_locked :: "(path \<Rightarrow> int) \<Rightarrow> int \<Rightarrow> bool \<Rightarrow> path \<Rightarrow> pydict io" where
  "prune_locked mtime now apply root =
     bindI (bindI (askI (\<lambda>w. index_references w root)) liftI) (\<lambda>references.
     bindI (askI (\<lambda>w. report_records w root)) (\<lambda>recs.
       let ds = prune_decisions mtime now references recs in
       thenI (foldI (remove_unkept apply) ds ()) (returnI (retention_report (length (group_records recs)) ds))))"

definition prune_tombstones :: "(path \<Rightarrow> int) \<Rightarrow> int \<Rightarrow> string \<Rightarrow> bool \<Rightarrow> path \<Rightarrow> pydict io" where
  "prune_tombstones mtime now fresh apply root =
     bindI (askI (\<lambda>w. exists w root)) (\<lambda>present.
       if \<not> present then returnI [(''removed'', PList []), (''kept'', PInt 0)]
       else thenI (open_report_lock root)
         (bindI (prune_locked mtime now apply root) (\<lambda>result.
           thenI (if apply then atomic_json fresh (root @ [''retention-status.json'']) (PDict (dset result ''checked_at'' (PInt now))) else returnI ())
             (returnI result))))"

text \<open>Temporary state files a crashed writer left: the part of a name before the first marker is the file they
  belong to, which must exist.\<close>

fun before_marker :: "string \<Rightarrow> string \<Rightarrow> string" where
  "before_marker marker [] = []"
| "before_marker marker (c # cs) = (if prefix marker (c # cs) then [] else c # before_marker marker cs)"

definition stale_temp :: "(path \<Rightarrow> int) \<Rightarrow> int \<Rightarrow> path \<Rightarrow> string \<Rightarrow> string \<Rightarrow> world \<Rightarrow> bool" where
  "stale_temp mtime now state_dir marker name w =
     (is_file w (state_dir @ [name]) \<and> is_file w (path_div state_dir (before_marker marker name))
      \<and> \<not> now - mtime (state_dir @ [name]) < 86400)"

definition prune_temp :: "(path \<Rightarrow> int) \<Rightarrow> int \<Rightarrow> bool \<Rightarrow> path \<Rightarrow> string \<Rightarrow> string \<Rightarrow> string list \<Rightarrow> string list io" where
  "prune_temp mtime now apply state_dir marker name removed =
     bindI (askI (stale_temp mtime now state_dir marker name)) (\<lambda>stale.
       if \<not> stale then returnI removed
       else thenI (if apply then unlink (state_dir @ [name]) else returnI ()) (returnI (removed @ [name])))"

definition prune_marked :: "(path \<Rightarrow> int) \<Rightarrow> int \<Rightarrow> bool \<Rightarrow> path \<Rightarrow> string \<Rightarrow> string list \<Rightarrow> string list io" where
  "prune_marked mtime now apply state_dir marker removed =
     bindI (askI (\<lambda>w. filter (sublist (''.json'' @ marker)) (iterdir w state_dir)))
       (\<lambda>names. foldI (prune_temp mtime now apply state_dir marker) names removed)"

definition prune_state_temps :: "(path \<Rightarrow> int) \<Rightarrow> int \<Rightarrow> bool \<Rightarrow> path \<Rightarrow> string list io" where
  "prune_state_temps mtime now apply state_dir =
     bindI (askI (\<lambda>w. is_dir w state_dir)) (\<lambda>present.
       if \<not> present then returnI [] else foldI (prune_marked mtime now apply state_dir) [''.tools.'', ''.tmp.''] [])"

section \<open>A JSON file is replaced at once or not at all\<close>

text \<open>A write that faults leaves nothing or part of a file, not a directory.\<close>

definition file_fault :: "world \<Rightarrow> bool" where
  "file_fault w = (case w_fault w of Some (k, Some (NDir es)) \<Rightarrow> False | _ \<Rightarrow> True)"

lemma drop_file_ok:
  assumes "clean t" "t \<noteq> []" "there w t = None \<or> no_fault w \<and> (\<exists>d. there w t = Some (NFile d))"
  shows "\<exists>w'. drop_file t w = (Inr (), w') \<and> there w' t = None \<and> (\<forall>q. apart t q \<longrightarrow> there w' q = there w q)"
proof (cases "there w t")
  case None
  with assms show ?thesis by (intro exI [of _ w]) (simp add: drop_file_def bindI_def askI_def exists_def at_clean returnI_def)
next
  case (Some n)
  with assms obtain d where d: "no_fault w" "there w t = Some (NFile d)" by auto
  have "drop_file t w = (Inr (), w\<lparr>w_tree := del (w_tree w) t\<rparr>)"
    using assms d by (simp add: drop_file_def bindI_def askI_def exists_def at_clean unlink_def is_file_def step_clean_no_fault)
  then show ?thesis using assms(2) lookup_del_under [of t "w_tree w" "[]"] by (simp add: lookup_del_apart)
qed

lemma write_data_cases:
  assumes "clean t" "write_data t d w = (r, w1)" "there w t = None" "file_fault w"
  obtains (ok) "r = Inr ()" "there w1 t = Some (NFile d)" "dir_at (w_tree w1) (butlast t)"
  | (failed) e where "r = Inl e" "there w1 t = None \<or> no_fault w1 \<and> (\<exists>d. there w1 t = Some (NFile d))"
proof (cases "t = [] \<or> is_dir w t \<or> \<not> dir_at (w_tree w) (butlast t)")
  case True
  with assms(1,2) obtain e where e: "r = Inl e" "w1 = w" by (auto simp: write_data_def Let_def split: if_splits)
  with assms(3) show ?thesis by (intro failed [of e]) simp_all
next
  case False
  then have s: "step_at t (\<lambda>x. put x t (NFile d)) w = (r, w1)" and dir: "dir_at (w_tree w) (butlast t)" "t \<noteq> []"
    using assms(1,2) by (simp_all add: write_data_def Let_def)
  have ok1: "parent_ok (w_tree w) t" by (rule dir_at_parent_ok [OF dir(1)])
  show ?thesis
  proof (cases "w_fault w")
    case None
    with s have r: "r = Inr ()" "w1 = w\<lparr>w_tree := put (w_tree w) t (NFile d)\<rparr>" by (simp_all add: step_at_def)
    have "\<not> prefix t (butlast t)" using dir(2) not_prefix_butlast by blast
    with r show ?thesis using ok1 dir lookup_put_under [OF ok1, of "NFile d" "[]"] by (intro ok) (auto intro: dir_at_put)
  next
    case (Some kp)
    then obtain k part where kp: "w_fault w = Some (k, part)" by (cases kp) auto
    show ?thesis
    proof (cases k)
      case 0
      with kp s have r: "r = Inl io_fault" "w1 = leave t part (w\<lparr>w_fault := None\<rparr>)" by (simp_all add: step_at_def)
      show ?thesis
      proof (cases part)
        case None
        with r show ?thesis using dir(2) lookup_del_under [of t "w_tree w" "[]"] by (intro failed) (auto simp: leave_def)
      next
        case (Some n)
        then obtain d' where "n = NFile d'" using assms(4) kp by (cases n) (auto simp: file_fault_def)
        with r Some show ?thesis using lookup_put_under [OF ok1, of "NFile d'" "[]"] by (intro failed) (auto simp: leave_def)
      qed
    next
      case (Suc j)
      with kp s have r: "r = Inr ()" "w1 = w\<lparr>w_fault := Some (j, part), w_tree := put (w_tree w) t (NFile d)\<rparr>" by (simp_all add: step_at_def)
      have "\<not> prefix t (butlast t)" using dir(2) not_prefix_butlast by blast
      with r show ?thesis using ok1 dir lookup_put_under [OF ok1, of "NFile d" "[]"] by (intro ok) (auto intro: dir_at_put)
    qed
  qed
qed

text \<open>replacing a JSON file is atomic: at whatever operation it fails, the file is the old one,
  untouched, and when the call returns it is the new one; the temporary file is gone in both cases, and
  nothing else has changed.\<close>

theorem atomic_json_is_atomic:
  assumes "atomic_json fresh p v w = (r, w')" and "clean p" and "p \<noteq> []" and "clean (temp_json p fresh)"
    and "there w (temp_json p fresh) = None" and "\<not> is_dir w p" and "file_fault w"
  shows "(case r of Inr u \<Rightarrow> there w' p = Some (NFile (Json v)) | Inl e \<Rightarrow> there w' p = there w p)
    \<and> there w' (temp_json p fresh) = None
    \<and> (\<forall>q. apart p q \<and> apart (temp_json p fresh) q \<longrightarrow> there w' q = there w q)"
proof -
  let ?t = "temp_json p fresh"
  let ?m = "thenI (write_data ?t (Json v)) (replace_path ?t p)"
  have "length (''.'' @ path_name p @ ''.'' @ fresh) \<noteq> length (last p)" using assms(3) by (simp add: path_name_def)
  then have "''.'' @ path_name p @ ''.'' @ fresh \<noteq> last p" by metis
  then have a: "apart ?t p" using apart_siblings [of "''.'' @ path_name p @ ''.'' @ fresh" "last p" "butlast p"] assms(3)
    by (simp add: temp_json_def path_parent_def)
  have tne: "?t \<noteq> []" and bl: "butlast ?t = butlast p" by (simp_all add: temp_json_def path_parent_def)
  obtain q w1 where wd: "write_data ?t (Json v) w = (q, w1)" by (metis surj_pair)
  have f1: "there w1 x = there w x" if "apart ?t x" for x
    using only_underD [OF only_under_write_data that, of ?t "Json v" w] assms(4) wd by simp
  have run: "atomic_json fresh p v = thenI (catchI ?m (\<lambda>e. thenI (drop_file ?t) (raiseI e))) (drop_file ?t)"
    by (simp add: atomic_json_def Let_def)
  have fails: "?thesis" if m: "?m w = (Inl e, w2)" and w2: "there w2 ?t = None \<or> no_fault w2 \<and> (\<exists>d. there w2 ?t = Some (NFile d))"
    and same: "\<And>x. apart ?t x \<Longrightarrow> there w2 x = there w x" for e w2
  proof -
    obtain w3 where d: "drop_file ?t w2 = (Inr (), w3)" "there w3 ?t = None" "\<forall>x. apart ?t x \<longrightarrow> there w3 x = there w2 x"
      using drop_file_ok [OF assms(4) tne w2] by blast
    have "(r, w') = (Inl e, w3)"
      using assms(1) m d(1) unfolding run by (simp add: thenI_def bindI_def catchI_def raiseI_def)
    moreover have "there w3 p = there w p" "\<forall>x. apart ?t x \<longrightarrow> there w3 x = there w x" using d(3) same a by simp_all
    ultimately show ?thesis using d(2) by simp
  qed
  from assms(4) wd assms(5,7) show ?thesis
  proof (cases rule: write_data_cases)
    case (failed e)
    have "?m w = (Inl e, w1)" using wd failed(1) by (simp add: thenI_def bindI_def)
    then show ?thesis using failed(2) f1 by (rule fails)
  next
    case ok
    have wf: "there w1 p = there w p" by (rule f1 [OF a])
    have "\<not> prefix ?t p" "?t \<noteq> p" using a by (auto simp: apart_def)
    then have rp: "replace_path ?t p w1 = step_clean (\<lambda>x. put (del x ?t) p (NFile (Json v))) w1"
      using ok assms(2,4,6) tne bl wf
      by (auto simp: replace_path_def Let_def at_clean is_dir_def split: option.splits node.splits)
    show ?thesis
    proof (cases rule: step_clean_cases [of "\<lambda>x. put (del x ?t) p (NFile (Json v))" w1])
      case (fault w2)
      have m: "?m w = (Inl io_fault, w2)" using wd ok(1) rp fault(1) by (simp add: thenI_def bindI_def)
      have "there w2 ?t = None \<or> no_fault w2 \<and> (\<exists>d. there w2 ?t = Some (NFile d))" using fault ok(2) by simp
      from m this show ?thesis by (rule fails) (use fault(2) f1 in simp)
    next
      case moved: (ok w2)
      then have r2: "replace_path ?t p w1 = (Inr (), w2)" using rp by simp
      note g = replace_path_Inr [OF assms(4,2) a r2]
      obtain w3 where d: "drop_file ?t w2 = (Inr (), w3)" "there w3 ?t = None" "\<forall>x. apart ?t x \<longrightarrow> there w3 x = there w2 x"
        using drop_file_ok [OF assms(4) tne, of w2] g(2) by blast
      have "(r, w') = (Inr (), w3)"
        using assms(1) r2 wd ok(1) d(1) unfolding run by (simp add: thenI_def bindI_def catchI_def)
      moreover have "there w3 p = Some (NFile (Json v))" using d(3) g(1) ok(2) a by simp
      moreover have "there w3 x = there w x" if "apart p x" "apart ?t x" for x using d(3) g(3) f1 that by simp
      ultimately show ?thesis using d(2) by simp
    qed
  qed
qed

section \<open>Pruning keeps a copy of every content\<close>

lemma group_records_snoc:
  "group_records (recs @ [(p, m)]) = AList.update (signature_of m)
     ((case map_of (group_records recs) (signature_of m) of Some ps \<Rightarrow> ps | None \<Rightarrow> []) @ [p]) (group_records recs)"
  by (simp add: group_records_def)

lemma map_of_group_records:
  "map_of (group_records recs) k =
     (let ps = map fst (filter (\<lambda>r. signature_of (snd r) = k) recs) in if ps = [] then None else Some ps)"
proof (induction recs rule: rev_induct)
  case Nil
  show ?case by (simp add: group_records_def)
next
  case (snoc r recs)
  obtain p m where r: "r = (p, m)" by (cases r)
  show ?case using snoc.IH unfolding r group_records_snoc by (auto simp: update_conv Let_def split: if_splits)
qed

lemma distinct_group_records: "distinct (map fst (group_records recs))"
proof (induction recs rule: rev_induct)
  case Nil
  show ?case by (simp add: group_records_def)
next
  case (snoc r recs)
  then show ?case by (cases r) (simp add: group_records_snoc distinct_update)
qed

lemma in_group_records: "(k, ps) \<in> set (group_records recs) \<longleftrightarrow>
    ps = map fst (filter (\<lambda>r. signature_of (snd r) = k) recs) \<and> ps \<noteq> []"
  unfolding map_of_eq_Some_iff [OF distinct_group_records, symmetric] map_of_group_records Let_def by auto

lemma set_oldest_first [simp]: "set (oldest_first mtime ps) = set ps"
  by (simp add: oldest_first_def)

lemma in_prune_decisions:
  "(p, b) \<in> set (prune_decisions mtime now refs recs) \<longleftrightarrow>
     (\<exists>m. (p, m) \<in> set recs \<and> b = keep_record mtime now refs
        (oldest_first mtime (map fst (filter (\<lambda>r. signature_of (snd r) = signature_of m) recs))) p)"
proof
  assume "(p, b) \<in> set (prune_decisions mtime now refs recs)"
  then obtain k ps where g: "(k, ps) \<in> set (group_records recs)" "p \<in> set ps" "b = keep_record mtime now refs (oldest_first mtime ps) p"
    by (auto simp: prune_decisions_def decide_group_def Let_def)
  then have ps: "ps = map fst (filter (\<lambda>r. signature_of (snd r) = k) recs)" by (simp add: in_group_records)
  with g(2) obtain m where "(p, m) \<in> set recs" "signature_of m = k" by auto
  with g(3) ps show "\<exists>m. (p, m) \<in> set recs \<and> b = keep_record mtime now refs
        (oldest_first mtime (map fst (filter (\<lambda>r. signature_of (snd r) = signature_of m) recs))) p" by blast
next
  assume "\<exists>m. (p, m) \<in> set recs \<and> b = keep_record mtime now refs
        (oldest_first mtime (map fst (filter (\<lambda>r. signature_of (snd r) = signature_of m) recs))) p"
  then obtain m where m: "(p, m) \<in> set recs" and b: "b = keep_record mtime now refs
        (oldest_first mtime (map fst (filter (\<lambda>r. signature_of (snd r) = signature_of m) recs))) p" by blast
  define ps where "ps = map fst (filter (\<lambda>r. signature_of (snd r) = signature_of m) recs)"
  have "p \<in> set ps" using m unfolding ps_def by force
  then have d: "(p, b) \<in> set (decide_group mtime now refs ps)" unfolding b ps_def [symmetric] decide_group_def Let_def by auto
  from \<open>p \<in> set ps\<close> have "ps \<noteq> []" by auto
  then have "(signature_of m, ps) \<in> set (group_records recs)" by (simp only: in_group_records ps_def simp_thms)
  with d show "(p, b) \<in> set (prune_decisions mtime now refs recs)"
    unfolding prune_decisions_def set_concat set_map by blast
qed

lemma in_map_filter: "y \<in> set (List.map_filter f xs) \<longleftrightarrow> (\<exists>x \<in> set xs. f x = Some y)"
  by (induction xs) (auto simp: map_filter_simps split: option.splits)

lemma record_at_path: "record_at w p = Some (p', m) \<Longrightarrow> p' = p"
  by (auto simp: record_at_def split: if_splits sum.splits pyval.splits)

lemma in_report_records:
  "(p, m) \<in> set (report_records w root) \<longleftrightarrow> (\<exists>n \<in> set (iterdir w root). p = root @ [n] \<and> record_at w p = Some (p, m))"
  using record_at_path by (fastforce simp: report_records_def in_map_filter)

lemma keeps_remove_unkept:
  "\<forall>d \<in> set ds. snd d \<or> clean (fst d) \<and> apart (fst d) q \<Longrightarrow> keeps (\<lambda>w. there w q) (foldI (remove_unkept apply) ds ())"
  unfolding remove_unkept_def
  by (intro keeps_foldI keeps_intros keepsI only_underD [OF only_under_rmtree]) auto

lemma prune_locked_runs:
  assumes "prune_locked mtime now apply root w = (r, w')"
  obtains (refused) e where "index_references w root = Inl e" "w' = w"
  | (run) refs where "index_references w root = Inr refs"
    "w' = snd (foldI (remove_unkept apply) (prune_decisions mtime now refs (report_records w root)) () w)"
proof (cases "index_references w root")
  case (Inl e)
  with assms show ?thesis by (intro refused) (auto simp: prune_locked_def bindI_def askI_def liftI_def)
next
  case (Inr refs)
  let ?f = "foldI (remove_unkept apply) (prune_decisions mtime now refs (report_records w root)) ()"
  from assms Inr have "thenI ?f (returnI (retention_report (length (group_records (report_records w root)))
      (prune_decisions mtime now refs (report_records w root)))) w = (r, w')"
    by (simp add: prune_locked_def bindI_def askI_def liftI_def Let_def)
  then have "w' = snd (?f w)" by (cases "?f w") (auto simp: thenI_def bindI_def returnI_def split: sum.splits)
  with Inr show ?thesis by (rule run)
qed

text \<open>C40: pruning never deletes the last report of a content: whatever it returns, raises or leaves after a
  fault, of all reports with the same signature at least one is untouched; the ones the index refers to and
  the ones younger than an hour are untouched too, nothing outside the reports changes, and an index that
  is missing, unreadable or dangling makes it stop before any deletion.\<close>

theorem pruning_never_drops_the_last_copy:
  assumes "prune_locked mtime now apply root w = (r, w')" and "clean root"
  shows "(\<forall>(p, m) \<in> set (report_records w root).
        (\<exists>(p', m') \<in> set (report_records w root). signature_of m' = signature_of m \<and> there w' p' = there w p')
      \<and> (now - mtime p < 3600 \<longrightarrow> there w' p = there w p)
      \<and> (\<forall>refs. index_references w root = Inr refs \<and> p \<in> set refs \<longrightarrow> there w' p = there w p))
    \<and> (\<forall>q. (\<forall>(p, m) \<in> set (report_records w root). apart p q) \<longrightarrow> there w' q = there w q)
    \<and> (\<forall>e. index_references w root = Inl e \<longrightarrow> w' = w)"
  using assms(1)
proof (cases rule: prune_locked_runs)
  case (refused e)
  then show ?thesis by auto
next
  case (run refs)
  let ?recs = "report_records w root" and ?ds = "prune_decisions mtime now refs (report_records w root)"
  let ?group = "\<lambda>m. oldest_first mtime (map fst (filter (\<lambda>r. signature_of (snd r) = signature_of m) ?recs))"
  have rec: "p = root @ [last p] \<and> clean p \<and> record_at w p = Some (p, m)" if "(p, m) \<in> set ?recs" for p m
    using that assms(2) iterdir_no_parent [of w root] by (auto simp: in_report_records simp del: iterdir_no_parent)
  have same: "there w' q = there w q" if "\<forall>(p, m) \<in> set ?recs. (p, False) \<in> set ?ds \<longrightarrow> apart p q" for q
  proof -
    have "\<forall>d \<in> set ?ds. snd d \<or> clean (fst d) \<and> apart (fst d) q"
    proof
      fix d assume d: "d \<in> set ?ds"
      obtain p b where pb: "d = (p, b)" by (cases d)
      with d obtain m where m: "(p, m) \<in> set ?recs" using in_prune_decisions [of p b] by auto
      show "snd d \<or> clean (fst d) \<and> apart (fst d) q" using that m d rec [OF m] unfolding pb by (cases b) auto
    qed
    from keeps_remove_unkept [OF this] run(2) show ?thesis by (simp add: keeps_def)
  qed
  have kept: "there w' p = there w p" if p: "(p, m) \<in> set ?recs" and k: "keep_record mtime now refs (?group m) p" for p m
  proof (rule same, clarify)
    fix p2 m2 assume p2: "(p2, m2) \<in> set ?recs" "(p2, False) \<in> set ?ds"
    then obtain m3 where m3: "(p2, m3) \<in> set ?recs" "\<not> keep_record mtime now refs (?group m3) p2"
      using in_prune_decisions [of p2 False] by auto
    have "p2 \<noteq> p" using rec [OF p] rec [OF m3(1)] k m3(2) by auto
    then show "apart p2 p" using rec [OF p] rec [OF p2(1)] apart_siblings [of "last p2" "last p" root] by metis
  qed
  have copy: "\<exists>(p', m') \<in> set ?recs. signature_of m' = signature_of m \<and> there w' p' = there w p'" if p: "(p, m) \<in> set ?recs" for p m
  proof -
    have "p \<in> set (?group m)" using p by force
    then have "?group m \<noteq> []" by (metis empty_iff list.set(1))
    then have "hd (?group m) \<in> set (?group m)" by (rule hd_in_set)
    then obtain m' where m': "(hd (?group m), m') \<in> set ?recs" "signature_of m' = signature_of m" by auto
    have "keep_record mtime now refs (?group m') (hd (?group m))" unfolding m'(2) by (simp add: keep_record_def)
    from kept [OF m'(1) this] m' show ?thesis by blast
  qed
  have young: "there w' p = there w p" if "(p, m) \<in> set ?recs" "now - mtime p < 3600" for p m
    by (rule kept [OF that(1)]) (use that(2) in \<open>simp add: keep_record_def\<close>)
  have ref: "there w' p = there w p" if "(p, m) \<in> set ?recs" "p \<in> set refs" for p m
    by (rule kept [OF that(1)]) (use that rec [OF that(1)] in \<open>simp add: keep_record_def\<close>)
  show ?thesis using copy young ref same run(1) by fastforce
qed

section \<open>Examples\<close>

definition json_world :: "(nat \<times> node option) option \<Rightarrow> world" where
  "json_world fault = \<lparr>w_tree = NDir [(''d'', NDir [(''s.json'', NFile (Json (PInt 1)))])], w_fault = fault\<rparr>"

theorem atomic_json_is_atomic_witness:
  "\<exists>e w'. atomic_json ''x'' [''d'', ''s.json''] (PInt 2) (json_world (Some (1, None))) = (Inl e, w')
     \<and> there w' [''d'', ''s.json''] = Some (NFile (Json (PInt 1))) \<and> there w' (temp_json [''d'', ''s.json''] ''x'') = None"
proof -
  let ?w = "json_world (Some (1, None))"
  have "case fst (atomic_json ''x'' [''d'', ''s.json''] (PInt 2) ?w) of Inl e \<Rightarrow> True | Inr u \<Rightarrow> False" by code_simp
  then obtain e w' where a: "atomic_json ''x'' [''d'', ''s.json''] (PInt 2) ?w = (Inl e, w')"
    by (cases "atomic_json ''x'' [''d'', ''s.json''] (PInt 2) ?w") (auto split: sum.splits)
  have h: "clean [''d'', ''s.json'']" "[''d'', ''s.json''] \<noteq> []" "clean (temp_json [''d'', ''s.json''] ''x'')"
    "there ?w (temp_json [''d'', ''s.json''] ''x'') = None" "\<not> is_dir ?w [''d'', ''s.json'']" "file_fault ?w"
    "there ?w [''d'', ''s.json''] = Some (NFile (Json (PInt 1)))"
    by code_simp+
  from atomic_json_is_atomic [OF a h(1-6)] a h(7) show ?thesis by simp
qed

definition demo_tombstone :: "string \<Rightarrow> node" where
  "demo_tombstone skill_id = NDir [(''tombstone.json'', NFile (Json (PDict [(''record_type'', PStr ''skill-sync-tombstone''),
     (''skill_id'', PStr skill_id), (''status_action'', PStr ''local_deleted'')])))]"

definition tombstone_world :: world where
  "tombstone_world = \<lparr>w_tree = NDir [(''t'', NDir
     [(''a'', demo_tombstone ''x''), (''b'', demo_tombstone ''x''), (''c'', demo_tombstone ''x''),
      (''tombstone-index.json'', NFile (Json (PDict [(''tombstones'', PList [])])))])], w_fault = None\<rparr>"

definition demo_mtime :: "path \<Rightarrow> int" where
  "demo_mtime p = int (length (takeWhile (\<lambda>c. c \<noteq> p) [[''t'', ''a''], [''t'', ''b''], [''t'', ''c'']]))"

theorem pruning_never_drops_the_last_copy_witness:
  "\<exists>r w' p m. prune_locked demo_mtime 9999 True [''t''] tombstone_world = (r, w')
     \<and> there w' [''t'', ''b''] = None \<and> dget m ''skill_id'' = PStr ''x''
     \<and> (p, m) \<in> set (report_records tombstone_world [''t'']) \<and> there w' p = there tombstone_world p"
proof -
  obtain r w' where a: "prune_locked demo_mtime 9999 True [''t''] tombstone_world = (r, w')" by (metis surj_pair)
  have "there (snd (prune_locked demo_mtime 9999 True [''t''] tombstone_world)) [''t'', ''b''] = None" by code_simp
  with a have b: "there w' [''t'', ''b''] = None" by simp
  have c: "clean [''t'']" by code_simp
  let ?m = "[(''record_type'', PStr ''skill-sync-tombstone''), (''skill_id'', PStr ''x''), (''status_action'', PStr ''local_deleted'')]"
  have recs: "report_records tombstone_world [''t''] = [([''t'', ''a''], ?m), ([''t'', ''b''], ?m), ([''t'', ''c''], ?m)]" by code_simp
  have in1: "([''t'', ''b''], ?m) \<in> set (report_records tombstone_world [''t''])" unfolding recs by simp
  from conjunct1 [OF pruning_never_drops_the_last_copy [OF a c]] in1
  obtain p' m' where p: "(p', m') \<in> set (report_records tombstone_world [''t''])" "there w' p' = there tombstone_world p'" by blast
  have "dget m' ''skill_id'' = PStr ''x''" using p(1) unfolding recs by auto
  with a b p show ?thesis by blast
qed

end
