(* ===== verification/Conflicts.thy ===== *)
theory Conflicts
  imports SyncApply Retention Regions
begin

text \<open>
  \<open>conflicts.py\<close> and \<open>tombstones.py\<close>: the material both keep of a skill whose two sides cannot be
  reconciled, or that one side has deleted: a copy of the local directory, of the staged central
  archive, and of what is known of the base. Both only ever write below their report directory.
  A time stamp is a function of the skill id.
\<close>

section \<open>Material\<close>

definition staged_by_id :: "pydict \<Rightarrow> (string \<times> pydict) list" where
  "staged_by_id stage_index = fold (\<lambda>s m. AList.update (py_str (dget s ''skill_id'')) s m)
     (only_dicts (list_or_empty (dget stage_index ''skills''))) []"

definition write_json_at :: "path \<Rightarrow> pydict \<Rightarrow> unit io" where
  "write_json_at p d = write_data p (Json (PDict d))"

definition write_local_material :: "path \<Rightarrow> path \<Rightarrow> string \<Rightarrow> unit io" where
  "write_local_material out local_root skill_id =
     (let local_path = path_div local_root skill_id in
      bindI (askI (\<lambda>w. exists w local_path)) (\<lambda>present.
        if present then copytree local_path (out @ [''local''])
        else write_json_at (out @ [''local.json'']) [(''state'', PStr ''absent''), (''path'', PStr (path_str local_path))]))"

definition staged_path :: "(string \<times> pydict) list \<Rightarrow> string \<Rightarrow> path option" where
  "staged_path staged skill_id = (case map_of staged skill_id of None \<Rightarrow> None
     | Some s \<Rightarrow> (if s \<noteq> [] \<and> truthy (dget s ''output_path'') then Some (path_of (py_str (dget s ''output_path''))) else None))"

definition write_remote_material :: "path \<Rightarrow> (string \<times> pydict) list \<Rightarrow> string \<Rightarrow> unit io" where
  "write_remote_material out staged skill_id =
     bindI (askI (\<lambda>w. case staged_path staged skill_id of None \<Rightarrow> None | Some p \<Rightarrow> (if exists w p then Some p else None))) (\<lambda>source.
       case source of Some p \<Rightarrow> copytree p (out @ [''remote''])
       | None \<Rightarrow> write_json_at (out @ [''remote.json'']) [(''state'', PStr ''absent''), (''skill_id'', PStr skill_id)])"

text \<open>The staged copy of the cache, made only when something needs it.\<close>

definition stage_if :: "host \<Rightarrow> bool \<Rightarrow> path \<Rightarrow> path \<Rightarrow> (string \<times> pydict) list io" where
  "stage_if H needed snapshot_dir tmp =
     (if needed then bindI (stage_snapshot H snapshot_dir tmp True) (\<lambda>index. returnI (staged_by_id index)) else returnI [])"

section \<open>Conflict packages\<close>

text \<open>Where the base's files came from, if the record of the last sync names them.\<close>

definition applied_source :: "sync_state_item \<Rightarrow> pydict \<Rightarrow> bool" where
  "applied_source item applied = (dget applied ''skill_id'' = PStr (it_skill_id item)
     \<and> dget applied ''content_hash'' = opt_str (it_base_hash item) \<and> truthy (dget applied ''source_path''))"

definition base_source_path :: "sync_state_item \<Rightarrow> path option \<Rightarrow> world \<Rightarrow> path option res" where
  "base_source_path item base_record_path w =
     (case base_record_path of None \<Rightarrow> Inr None
      | Some p \<Rightarrow>
         (if \<not> exists w p then Inr None
          else case fst (read_json p w) of
             Inl e \<Rightarrow> (if exn_kind e \<in> set [OSError, JSONDecodeError] then Inr None else Inl e)
           | Inr v \<Rightarrow> bindR (as_dict v) (\<lambda>record.
               bindR (py_iter (dget_or record ''applied'' (PList []))) (\<lambda>raws. bindR (mapR as_dict raws) (\<lambda>applied.
                 Inr (map_option (\<lambda>a. path_of (py_str (dget a ''source_path''))) (find (applied_source item) applied)))))))"

definition conflict_base :: "sync_state_item \<Rightarrow> path option \<Rightarrow> pydict" where
  "conflict_base item base_record_path =
     [(''state'', PStr ''metadata_only''), (''skill_id'', PStr (it_skill_id item)), (''base_hash'', opt_str (it_base_hash item)),
      (''last_applied_record'', opt_path (map_option norm_path base_record_path)),
      (''note'', PStr ''Base file contents are not guaranteed to be retained; use this hash to identify the common ancestor.'')]"

definition write_conflict_base :: "path \<Rightarrow> sync_state_item \<Rightarrow> path option \<Rightarrow> unit io" where
  "write_conflict_base out item base_record_path =
     bindI (bindI (askI (base_source_path item base_record_path)) liftI) (\<lambda>source.
     bindI (askI (\<lambda>w. case source of Some p \<Rightarrow> is_dir w p | None \<Rightarrow> False)) (\<lambda>copied.
       thenI (if copied then copytree (the source) (out @ [''base'']) else returnI ())
         (write_json_at (out @ [''base.json'']) (if copied
            then dset (dset (conflict_base item base_record_path) ''state'' (PStr ''copied'')) ''source_path'' (PStr (path_str (the source)))
            else conflict_base item base_record_path))))"

definition conflict_metadata :: "sync_args \<Rightarrow> sync_state_item \<Rightarrow> string \<Rightarrow> pydict" where
  "conflict_metadata a item now =
     [(''protocol_version'', PInt 0), (''record_type'', PStr ''skill-sync-conflict-package''), (''created_at'', PStr now),
      (''skill_id'', PStr (it_skill_id item)), (''reason'', PStr (it_reason item)), (''base_hash'', opt_str (it_base_hash item)),
      (''local_hash'', opt_str (it_local_hash item)), (''remote_hash'', opt_str (it_remote_hash item)),
      (''local_root'', PStr (path_str (norm_path (sa_local_root a)))), (''remote_snapshot'', PStr (path_str (norm_path (sa_snapshot a)))),
      (''last_applied_record'', opt_path (map_option norm_path (sa_base_record a)))]"

definition package_dir :: "path \<Rightarrow> (string \<Rightarrow> string) \<Rightarrow> string \<Rightarrow> path" where
  "package_dir out_dir stamp skill_id = out_dir @ [stamp skill_id @ ''-'' @ sanitize_component skill_id]"

definition write_conflict_package ::
    "sync_args \<Rightarrow> path \<Rightarrow> (string \<times> pydict) list \<Rightarrow> (string \<Rightarrow> string) \<Rightarrow> string \<Rightarrow> sync_state_item \<Rightarrow> pydict io" where
  "write_conflict_package a out_dir staged stamp now item =
     (let skill_id = it_skill_id item; out = package_dir out_dir stamp skill_id in
      bindI (askI (\<lambda>w. exists w out)) (\<lambda>taken.
        if taken then raiseI (Exn ConflictPackageError (''conflict package already exists: '' @ path_str out))
        else thenI (mkdirs out)
          (thenI (write_json_at (out @ [''metadata.json'']) (conflict_metadata a item now))
          (thenI (write_local_material out (sa_local_root a) skill_id)
          (thenI (write_remote_material out staged skill_id)
          (thenI (write_conflict_base out item (sa_base_record a))
            (returnI [(''skill_id'', PStr skill_id), (''path'', PStr (path_str (norm_path out))),
               (''base_hash'', opt_str (it_base_hash item)), (''local_hash'', opt_str (it_local_hash item)),
               (''remote_hash'', opt_str (it_remote_hash item))])))))))"

definition status_items :: "host \<Rightarrow> sync_args \<Rightarrow> world \<Rightarrow> sync_state_item list res" where
  "status_items H a w = bindR (sync_items H w a ''local'' None []) (\<lambda>(items, overrides). Inr items)"

definition build_conflict_packages :: "host \<Rightarrow> sync_args \<Rightarrow> path \<Rightarrow> path \<Rightarrow> (string \<Rightarrow> string) \<Rightarrow> string \<Rightarrow> pydict io" where
  "build_conflict_packages H a out_dir tmp stamp now =
     bindI (bindI (askI (status_items H a)) liftI) (\<lambda>items.
     let conflicts = filter (\<lambda>i. it_action i = ''conflict'') items in
     thenI (mkdirs out_dir)
       (bindI (with_tmp tmp (bindI (stage_if H (conflicts \<noteq> []) (sa_snapshot a) tmp) (\<lambda>staged.
           mapI (write_conflict_package a out_dir staged stamp now) conflicts))) (\<lambda>packages.
         let result = [(''created_at'', PStr now), (''local_root'', PStr (path_str (norm_path (sa_local_root a)))),
            (''remote_snapshot'', PStr (path_str (norm_path (sa_snapshot a)))),
            (''last_applied_record'', opt_path (map_option norm_path (sa_base_record a))),
            (''total_conflicts'', PInt (int (length packages))), (''out'', PStr (path_str (norm_path out_dir))),
            (''packages'', PList (map PDict packages))]
         in thenI (write_json_at (out_dir @ [''conflict-index.json'']) result) (returnI result))))"

section \<open>Tombstones\<close>

definition tombstone_metadata :: "sync_args \<Rightarrow> string \<Rightarrow> sync_state_item \<Rightarrow> pydict" where
  "tombstone_metadata a now item =
     [(''protocol_version'', PInt 0), (''record_type'', PStr ''skill-sync-tombstone''), (''created_at'', PStr now),
      (''skill_id'', PStr (it_skill_id item)), (''status_action'', PStr (it_action item)),
      (''propagation'', PStr (if it_action item = ''local_deleted'' then ''deprecate_remote'' else ''delete_local'')),
      (''reason'', PStr (it_reason item)), (''base_hash'', opt_str (it_base_hash item)),
      (''local_hash'', opt_str (it_local_hash item)), (''remote_hash'', opt_str (it_remote_hash item)),
      (''local_root'', PStr (path_str (norm_path (sa_local_root a)))), (''remote_snapshot'', PStr (path_str (norm_path (sa_snapshot a)))),
      (''last_applied_record'', opt_path (map_option norm_path (sa_base_record a))), (''state'', PStr ''pending''),
      (''note'', PStr ''Device-side deletion can only request restore or central deprecate review; it must not physically delete central files.'')]"

definition tombstone_entry :: "path \<Rightarrow> pydict \<Rightarrow> pydict" where
  "tombstone_entry p metadata =
     [(''skill_id'', dget metadata ''skill_id''), (''action'', dget metadata ''status_action''),
      (''propagation'', dget metadata ''propagation''), (''path'', PStr (path_str (norm_path p))),
      (''base_hash'', dget metadata ''base_hash''), (''local_hash'', dget metadata ''local_hash''),
      (''remote_hash'', dget metadata ''remote_hash'')]"

definition tombstone_base :: "sync_state_item \<Rightarrow> path option \<Rightarrow> pydict" where
  "tombstone_base item base_record_path =
     [(''state'', PStr ''metadata_only''), (''skill_id'', PStr (it_skill_id item)), (''base_hash'', opt_str (it_base_hash item)),
      (''last_applied_record'', opt_path (map_option norm_path base_record_path)),
      (''note'', PStr ''Tombstones are non-destructive markers. Device-side local deletion may lead to restore or central deprecate review, never automatic central file deletion.'')]"

definition tombstone_dir :: "path \<Rightarrow> (string \<Rightarrow> string) \<Rightarrow> sync_state_item \<Rightarrow> path" where
  "tombstone_dir out_dir stamp item =
     out_dir @ [stamp (it_skill_id item) @ ''-'' @ sanitize_component (it_skill_id item) @ ''-'' @ it_action item]"

text \<open>The metadata is written last: it marks the directory as complete. On any error the directory is deleted.\<close>

definition write_tombstone ::
    "sync_args \<Rightarrow> path \<Rightarrow> (string \<times> pydict) list \<Rightarrow> (string \<Rightarrow> string) \<Rightarrow> string \<Rightarrow> string \<Rightarrow> sync_state_item \<Rightarrow> pydict io" where
  "write_tombstone a out_dir staged stamp fresh now item =
     (let skill_id = it_skill_id item; out = tombstone_dir out_dir stamp item; metadata = tombstone_metadata a now item in
      bindI (askI (\<lambda>w. exists w out)) (\<lambda>taken.
        if taken then raiseI (Exn TombstoneError (''tombstone already exists: '' @ path_str out))
        else thenI (mkdirs out)
          (thenI (catchI
             (thenI (write_local_material out (sa_local_root a) skill_id)
             (thenI (write_remote_material out staged skill_id)
             (thenI (write_json_at (out @ [''base.json'']) (tombstone_base item (sa_base_record a)))
                (atomic_json fresh (out @ [''tombstone.json'']) (PDict metadata)))))
             (\<lambda>e. thenI (rmtree out) (raiseI e)))
            (returnI (tombstone_entry out metadata)))))"

definition material_complete :: "world \<Rightarrow> path \<times> pydict \<Rightarrow> bool" where
  "material_complete w r = (is_file w (fst r @ [''base.json'']) \<and> (is_dir w (fst r @ [''local'']) \<or> is_dir w (fst r @ [''remote''])))"

text \<open>The complete records by signature, the newest of each.\<close>

definition existing_records :: "(path \<Rightarrow> int) \<Rightarrow> world \<Rightarrow> path \<Rightarrow> (pyval list \<times> path \<times> pydict) list" where
  "existing_records mtime w out_dir =
     fold (\<lambda>r m. AList.update (signature_of (snd r)) r m)
       (filter (material_complete w) (sort_key (\<lambda>r. mtime (fst r)) (report_records w out_dir))) []"

definition delete_actions :: "string list" where
  "delete_actions = [''local_deleted'', ''remote_deleted'']"

definition reusable :: "sync_args \<Rightarrow> string \<Rightarrow> (pyval list \<times> path \<times> pydict) list \<Rightarrow> sync_state_item \<Rightarrow> (path \<times> pydict) option" where
  "reusable a now existing item = map_of existing (signature_of (tombstone_metadata a now item))"

definition build_tombstones_locked ::
    "host \<Rightarrow> sync_args \<Rightarrow> path \<Rightarrow> path \<Rightarrow> (path \<Rightarrow> int) \<Rightarrow> int \<Rightarrow> (string \<Rightarrow> string) \<Rightarrow> string \<Rightarrow> string \<Rightarrow> pydict io" where
  "build_tombstones_locked H a out_dir tmp mtime clock stamp fresh now =
     bindI (bindI (askI (status_items H a)) liftI) (\<lambda>items.
     bindI (askI (\<lambda>w. existing_records mtime w out_dir)) (\<lambda>existing.
     let deleted = filter (\<lambda>i. it_action i \<in> set delete_actions) items;
         pending = filter (\<lambda>i. reusable a now existing i = None) deleted;
         reused = map (\<lambda>r. tombstone_entry (fst r) (snd r)) (List.map_filter (reusable a now existing) deleted) in
     bindI (with_tmp tmp (bindI (stage_if H (list_ex (\<lambda>i. truthy (opt_str (it_remote_hash i))) pending) (sa_snapshot a) tmp) (\<lambda>staged.
         mapI (write_tombstone a out_dir staged stamp fresh now) pending))) (\<lambda>written.
       let tombstones = reused @ written;
           result = [(''created_at'', PStr now), (''local_root'', PStr (path_str (norm_path (sa_local_root a)))),
             (''remote_snapshot'', PStr (path_str (norm_path (sa_snapshot a)))),
             (''last_applied_record'', opt_path (map_option norm_path (sa_base_record a))),
             (''total_tombstones'', PInt (int (length tombstones))), (''reused'', PInt (int (length reused))),
             (''out'', PStr (path_str (norm_path out_dir))), (''tombstones'', PList (map PDict tombstones))]
       in thenI (atomic_json fresh (out_dir @ [''tombstone-index.json'']) (PDict result))
         (bindI (prune_locked mtime clock True out_dir) (\<lambda>retention.
           thenI (atomic_json fresh (out_dir @ [''retention-status.json'']) (PDict retention))
             (returnI (dset result ''retention'' (PDict retention))))))))"

definition build_tombstones ::
    "host \<Rightarrow> sync_args \<Rightarrow> path \<Rightarrow> path \<Rightarrow> (path \<Rightarrow> int) \<Rightarrow> int \<Rightarrow> (string \<Rightarrow> string) \<Rightarrow> string \<Rightarrow> string \<Rightarrow> pydict io" where
  "build_tombstones H a out_dir tmp mtime clock stamp fresh now =
     thenI (open_report_lock out_dir) (build_tombstones_locked H a out_dir tmp mtime clock stamp fresh now)"

section \<open>What the reports touch\<close>

lemma write_json_at_frame: "clean p \<Longrightarrow> prefix q p \<Longrightarrow> only_under q (write_json_at p d)"
  unfolding write_json_at_def by (rule only_under_write_data) simp

lemma local_material_frame: "clean out \<Longrightarrow> only_under out (write_local_material out local_root skill_id)"
  unfolding write_local_material_def Let_def by (intro frame_intros write_json_at_frame) simp_all

lemma remote_material_frame: "clean out \<Longrightarrow> only_under out (write_remote_material out staged skill_id)"
  unfolding write_remote_material_def
  by (rule only_under_bindI) (auto intro!: frame_intros write_json_at_frame split: option.split)

lemma conflict_base_frame: "clean out \<Longrightarrow> only_under out (write_conflict_base out item base)"
  unfolding write_conflict_base_def
  by (intro frame_intros write_json_at_frame only_under_ask_lift) simp_all

lemma dashed_component: "clean [a @ ''-'' @ b]"
proof -
  have "CHR ''-'' \<in> set (a @ ''-'' @ b)" and "CHR ''-'' \<notin> set ''..''" by simp_all
  then have "a @ ''-'' @ b \<noteq> ''..''" by metis
  then show ?thesis by simp
qed

lemma package_dir_clean: "clean out_dir \<Longrightarrow> clean (package_dir out_dir stamp skill_id)"
  using dashed_component by (simp add: package_dir_def)

lemma tombstone_dir_clean: "clean out_dir \<Longrightarrow> clean (tombstone_dir out_dir stamp item)"
  using dashed_component by (simp add: tombstone_dir_def)

lemma conflict_package_frame:
  assumes "clean out_dir" shows "only_under out_dir (write_conflict_package a out_dir staged stamp now item)"
proof -
  note c = package_dir_clean [OF assms, of stamp "it_skill_id item"]
  have "only_under (package_dir out_dir stamp (it_skill_id item)) (write_conflict_package a out_dir staged stamp now item)"
    unfolding write_conflict_package_def Let_def
    by (intro frame_intros local_material_frame remote_material_frame conflict_base_frame write_json_at_frame)
      (simp_all add: c apart_def)
  then show ?thesis by (rule only_under_mono) (simp add: package_dir_def)
qed

lemma only_under_ensures_dir: "clean p \<Longrightarrow> only_under p (mkdirs p)"
  by (rule only_under_mkdirs) (simp add: apart_def)

lemma stage_if_frame: "clean tmp \<Longrightarrow> only_under tmp (stage_if H b s tmp)"
  unfolding stage_if_def by (intro frame_intros stage_snapshot_frame)

lemma conflict_packages_frame:
  assumes "clean out_dir" "clean tmp"
  shows "only_within {out_dir, tmp} (build_conflict_packages H a out_dir tmp stamp now)"
  unfolding build_conflict_packages_def Let_def
  by (intro region_intros assms only_within_under [OF conflict_package_frame] only_within_under [OF stage_if_frame]
      only_within_under [OF only_under_ensures_dir] only_within_under [OF write_json_at_frame, of _ out_dir])
    (simp_all add: assms)

lemma atomic_json_frame:
  assumes "clean p" "path_name p \<noteq> []" "prefix q (path_parent p)" "p = path_parent p @ [path_name p]"
  shows "only_under q (atomic_json fresh p v)"
proof -
  let ?t = "temp_json p fresh"
  have "path_name p @ ''.'' @ fresh \<noteq> ''.''" using assms(2) by (cases "path_name p") auto
  then have t: "clean ?t" "prefix q ?t" using assms clean_butlast [of p]
    by (auto simp: temp_json_def path_parent_def)
  have p: "prefix q p" using assms(3,4) by (metis prefix_prefix)
  show ?thesis unfolding atomic_json_def drop_file_def Let_def
    by (intro frame_intros) (simp_all add: t p assms(1))
qed

text \<open>The tombstones: the reports pruned are directories found below the report directory.\<close>

lemma tombstone_frame:
  assumes "clean out_dir" shows "only_under out_dir (write_tombstone a out_dir staged stamp fresh now item)"
proof -
  let ?o = "tombstone_dir out_dir stamp item"
  note c = tombstone_dir_clean [OF assms, of stamp item]
  have "only_under ?o (write_tombstone a out_dir staged stamp fresh now item)"
    unfolding write_tombstone_def Let_def
    by (intro frame_intros local_material_frame remote_material_frame write_json_at_frame atomic_json_frame)
      (simp_all add: c apart_def path_parent_def path_name_def)
  then show ?thesis by (rule only_under_mono) (simp add: tombstone_dir_def)
qed

lemma prune_locked_frame:
  assumes "clean root" shows "only_within {root} (prune_locked mtime now apply root)"
proof -
  have r: "only_within {root} (foldI (remove_unkept apply) (prune_decisions mtime now refs (report_records w root)) ())" for w refs
  proof (rule only_within_foldI)
    fix d s assume d: "d \<in> set (prune_decisions mtime now refs (report_records w root))"
    obtain p b where pb: "d = (p, b)" by (cases d)
    with d obtain m where "(p, m) \<in> set (report_records w root)" using in_prune_decisions [of p b] by auto
    then have "prefix root p" "clean p" using assms iterdir_no_parent [of w root] by (auto simp: in_report_records simp del: iterdir_no_parent)
    then show "only_within {root} (remove_unkept apply d s)"
      unfolding remove_unkept_def pb by (intro region_intros only_within_under [OF only_under_rmtree]) simp_all
  qed
  show ?thesis unfolding prune_locked_def Let_def
    by (intro only_within_bindI [OF only_within_bindI] only_within_ask region_intros r)
qed

lemma tombstones_frame:
  assumes "clean out_dir" "clean tmp"
  shows "only_within {out_dir, tmp} (build_tombstones H a out_dir tmp mtime clock stamp fresh now)"
proof -
  have p: "only_within {out_dir, tmp} (prune_locked mtime clock True out_dir)"
    by (rule only_within_mono [OF prune_locked_frame [OF assms(1)]]) simp
  have j: "only_within {out_dir, tmp} (atomic_json fresh (out_dir @ [''tombstone-index.json'']) v)"
    "only_within {out_dir, tmp} (atomic_json fresh (out_dir @ [''retention-status.json'']) v)" for v
    by (rule only_within_under [of out_dir], rule atomic_json_frame; simp add: assms path_parent_def path_name_def)+
  have l: "only_within {out_dir, tmp} (open_report_lock out_dir)"
    unfolding open_report_lock_def
    by (rule only_within_under [of out_dir], intro frame_intros) (simp_all add: assms apart_def)
  show ?thesis unfolding build_tombstones_def build_tombstones_locked_def Let_def
    by (intro region_intros p j l assms only_within_under [OF tombstone_frame] only_within_under [OF stage_if_frame]) (simp_all add: assms)
qed

lemma blocked_report_frame:
  assumes "clean out_dir" shows "only_under out_dir (build_blocked_report H a out_dir an ad pol now)"
proof -
  have "only_under out_dir (thenI (mkdirs out_dir)
          (thenI (write_data (out_dir @ [''blocked-report.json'']) (Json (PDict r)))
          (thenI (write_data (out_dir @ [''blocked-report.md'']) (Raw (render_blocked_markdown r))) (returnI r))))" for r
    by (intro frame_intros) (simp_all add: assms apart_def)
  then show ?thesis unfolding only_under_def build_blocked_report_def by (simp split: sum.split)
qed

section \<open>A tombstone holds what was deleted\<close>

lemma local_material_Inr:
  assumes "write_local_material out lr skill_id w = (Inr u, w')" "clean out" "clean (path_div lr skill_id)"
  shows "\<forall>es. there w (path_div lr skill_id) = Some (NDir es) \<longrightarrow> there w' (out @ [''local'']) = Some (NDir es)"
    "there w (path_div lr skill_id) = None \<longrightarrow> (\<exists>d. there w' (out @ [''local.json'']) = Some (NFile d))"
proof -
  show "\<forall>es. there w (path_div lr skill_id) = Some (NDir es) \<longrightarrow> there w' (out @ [''local'']) = Some (NDir es)"
  proof (intro allI impI)
    fix es assume e: "there w (path_div lr skill_id) = Some (NDir es)"
    with assms have "copytree (path_div lr skill_id) (out @ [''local'']) w = (Inr u, w')"
      by (simp add: write_local_material_def Let_def bindI_def askI_def exists_def at_clean)
    from copytree_Inr [OF _ this] assms e show "there w' (out @ [''local'']) = Some (NDir es)" by (simp add: at_clean)
  qed
  show "there w (path_div lr skill_id) = None \<longrightarrow> (\<exists>d. there w' (out @ [''local.json'']) = Some (NFile d))"
    using assms by (auto simp: write_local_material_def Let_def bindI_def askI_def exists_def at_clean write_json_at_def dest!: write_data_Inr [rotated])
qed

lemma remote_material_siblings:
  "clean out \<Longrightarrow> only_within {out @ [''remote''], out @ [''remote.json'']} (write_remote_material out staged skill_id)"
  unfolding write_remote_material_def
  by (rule only_within_bindI)
    (auto intro!: region_intros only_within_under [OF only_under_copytree, of "out @ [''remote'']"]
      only_within_under [OF write_json_at_frame, of _ "out @ [''remote.json'']"] split: option.split)

lemma atomic_json_Inr:
  assumes "atomic_json fresh p v w = (Inr u, w')" "clean p" "p \<noteq> []" "clean (temp_json p fresh)"
  shows "there w' p = Some (NFile (Json v))"
proof -
  let ?t = "temp_json p fresh"
  have "length (''.'' @ path_name p @ ''.'' @ fresh) \<noteq> length (last p)" using assms(3) by (simp add: path_name_def)
  then have "''.'' @ path_name p @ ''.'' @ fresh \<noteq> last p" by metis
  then have a: "apart ?t p" using apart_siblings [of "''.'' @ path_name p @ ''.'' @ fresh" "last p" "butlast p"] assms(3)
    by (simp add: temp_json_def path_parent_def)
  from assms(1) obtain w1 w2 where w: "write_data ?t (Json v) w = (Inr (), w1)" "replace_path ?t p w1 = (Inr (), w2)"
    "drop_file ?t w2 = (Inr u, w')"
    by (auto simp: atomic_json_def Let_def catch_raise_Inr io_Inr)
  from write_data_Inr [OF assms(4) w(1)] replace_path_Inr [OF assms(4,2) a w(2)] have "there w2 p = Some (NFile (Json v))" by simp
  moreover have "only_under ?t (drop_file ?t)" unfolding drop_file_def by (intro frame_intros) (simp add: assms(4))
  from only_underD [OF this a, of w2] w(3) have "there w' p = there w2 p" by simp
  ultimately show ?thesis by simp
qed

lemma atomic_json_within:
  assumes "clean p" "clean (temp_json p fresh)"
  shows "only_within {temp_json p fresh, p} (atomic_json fresh p v)"
  unfolding atomic_json_def drop_file_def Let_def
  by (intro region_intros only_within_under [OF only_under_write_data, of "temp_json p fresh"]
      only_within_under [OF only_under_unlink, of "temp_json p fresh"]
      only_within_replace_path [of "temp_json p fresh" _ _ p]) (simp_all add: assms)

lemma write_tombstone_Inr:
  assumes "write_tombstone a out_dir staged stamp fresh now item w = (Inr entry, w')"
  obtains w1 w2 w3 w4 where "mkdirs (tombstone_dir out_dir stamp item) w = (Inr (), w1)"
    "write_local_material (tombstone_dir out_dir stamp item) (sa_local_root a) (it_skill_id item) w1 = (Inr (), w2)"
    "write_remote_material (tombstone_dir out_dir stamp item) staged (it_skill_id item) w2 = (Inr (), w3)"
    "write_json_at (tombstone_dir out_dir stamp item @ [''base.json'']) (tombstone_base item (sa_base_record a)) w3 = (Inr (), w4)"
    "atomic_json fresh (tombstone_dir out_dir stamp item @ [''tombstone.json'']) (PDict (tombstone_metadata a now item)) w4 = (Inr (), w')"
    "entry = tombstone_entry (tombstone_dir out_dir stamp item) (tombstone_metadata a now item)"
    "\<not> exists w (tombstone_dir out_dir stamp item)"
  using assms by (auto simp: write_tombstone_def Let_def catch_raise_Inr io_Inr split: if_splits)

text \<open>C39: a reported deletion is not lost: a tombstone directory is new, and when writing it has returned it holds
  a full copy of the local side as it was, or says that there was none, next to the metadata that marks it
  as complete; nothing outside the report directory has changed.\<close>

theorem tombstone_holds_the_deleted_side:
  assumes "write_tombstone a out_dir staged stamp fresh now item w = (Inr entry, w')"
    and "clean out_dir" and "clean (path_div (sa_local_root a) (it_skill_id item))"
    and "apart out_dir (path_div (sa_local_root a) (it_skill_id item))"
  shows "\<not> exists w (tombstone_dir out_dir stamp item)
    \<and> dget entry ''path'' = PStr (path_str (tombstone_dir out_dir stamp item))
    \<and> there w' (tombstone_dir out_dir stamp item @ [''tombstone.json'']) = Some (NFile (Json (PDict (tombstone_metadata a now item))))
    \<and> (\<forall>es. there w (path_div (sa_local_root a) (it_skill_id item)) = Some (NDir es)
          \<longrightarrow> there w' (tombstone_dir out_dir stamp item @ [''local'']) = Some (NDir es))
    \<and> (there w (path_div (sa_local_root a) (it_skill_id item)) = None
          \<longrightarrow> (\<exists>f. there w' (tombstone_dir out_dir stamp item @ [''local.json'']) = Some (NFile f)))
    \<and> (\<forall>q. apart out_dir q \<longrightarrow> there w' q = there w q)"
proof -
  let ?o = "tombstone_dir out_dir stamp item" and ?l = "path_div (sa_local_root a) (it_skill_id item)"
  note o = tombstone_dir_clean [OF assms(2), of stamp item]
  from assms(1) obtain w1 w2 w3 w4 where
    m: "mkdirs ?o w = (Inr (), w1)" and l: "write_local_material ?o (sa_local_root a) (it_skill_id item) w1 = (Inr (), w2)" and
    r: "write_remote_material ?o staged (it_skill_id item) w2 = (Inr (), w3)" and
    b: "write_json_at (?o @ [''base.json'']) (tombstone_base item (sa_base_record a)) w3 = (Inr (), w4)" and
    t: "atomic_json fresh (?o @ [''tombstone.json'']) (PDict (tombstone_metadata a now item)) w4 = (Inr (), w')" and
    e: "entry = tombstone_entry ?o (tombstone_metadata a now item)" "\<not> exists w ?o"
    by (rule write_tombstone_Inr)
  have "prefix out_dir ?o" by (simp add: tombstone_dir_def)
  then have lo: "apart ?o ?l" using assms(4) by (rule apart_under [rotated])
  from only_underD [OF only_under_ensures_dir [OF o] lo, of w] m have lw: "there w1 ?l = there w ?l" by simp
  have later: "there w' (?o @ [n]) = there w2 (?o @ [n])" if n: "n \<in> {''local'', ''local.json''}" for n
  proof -
    have sib: "apart (?o @ [x]) (?o @ [n])" if "x \<noteq> n" for x using apart_siblings that by blast
    have "there w3 (?o @ [n]) = there w2 (?o @ [n])"
      by (rule only_within_run [OF remote_material_siblings [OF o] r]) (use n sib in auto)
    moreover have "there w4 (?o @ [n]) = there w3 (?o @ [n])"
    proof -
      have u: "only_under (?o @ [''base.json'']) (write_json_at (?o @ [''base.json'']) (tombstone_base item (sa_base_record a)))"
        by (rule write_json_at_frame) (simp_all add: o)
      have "apart (?o @ [''base.json'']) (?o @ [n])" using n by (intro sib) auto
      then show ?thesis by (rule only_under_run [OF u, OF b])
    qed
    moreover have "there w' (?o @ [n]) = there w4 (?o @ [n])"
      by (rule only_within_run [OF atomic_json_within t])
        (use n in \<open>auto intro!: sib apart_siblings simp: o temp_json_def path_parent_def path_name_def\<close>)
    ultimately show ?thesis by simp
  qed
  have "there w' (?o @ [''tombstone.json'']) = Some (NFile (Json (PDict (tombstone_metadata a now item))))"
    by (rule atomic_json_Inr [OF t]) (simp_all add: o temp_json_def path_parent_def path_name_def)
  moreover have "\<forall>q. apart out_dir q \<longrightarrow> there w' q = there w q"
    using only_under_run [OF tombstone_frame [OF assms(2)], OF assms(1)] by blast
  moreover have "dget entry ''path'' = PStr (path_str ?o)" using e(1) o by (simp add: tombstone_entry_def)
  moreover note local_material_Inr [OF l o assms(3), unfolded lw]
  ultimately show ?thesis using e(2) later by simp
qed

section \<open>Examples\<close>

definition deleted_item :: sync_state_item where
  "deleted_item = \<lparr>it_skill_id = ''demo-skill'', it_action = ''remote_deleted'', it_base_hash = Some ''h'',
     it_local_hash = Some ''h'', it_remote_hash = None, it_reason = ''gone''\<rparr>"

theorem tombstone_holds_the_deleted_side_witness:
  "\<exists>entry w'. write_tombstone push_args [''w''] [] (\<lambda>s. ''T'') ''f'' ''now'' deleted_item (push_world []) = (Inr entry, w')
     \<and> dget entry ''path'' = PStr ''/w/T-demo-skill-remote_deleted''
     \<and> there w' [''w'', ''T-demo-skill-remote_deleted'', ''local''] = Some tiny_skill_node"
proof -
  let ?i = deleted_item
  let ?m = "write_tombstone push_args [''w''] [] (\<lambda>s. ''T'') ''f'' ''now'' ?i"
  have "case ?m (push_world []) of (r, w') \<Rightarrow> (case r of Inl e \<Rightarrow> False | Inr x \<Rightarrow> True)" by code_simp
  then obtain entry w' where r: "?m (push_world []) = (Inr entry, w')" by (auto split: prod.splits sum.splits)
  have h: "clean [''w'']" "clean (path_div (sa_local_root push_args) (it_skill_id ?i))" "apart [''w''] (path_div (sa_local_root push_args) (it_skill_id ?i))"
    "tombstone_dir [''w''] (\<lambda>s. ''T'') ?i = [''w'', ''T-demo-skill-remote_deleted'']" "path_str [''w'', ''T-demo-skill-remote_deleted''] = ''/w/T-demo-skill-remote_deleted''"
    "there (push_world []) (path_div (sa_local_root push_args) (it_skill_id ?i)) = Some tiny_skill_node"
    by code_simp+
  from tombstone_holds_the_deleted_side [OF r h(1-3)] h(4-6) r show ?thesis by (auto simp: tiny_skill_node_def)
qed

end
