(* ===== verification/SyncCycle.thy ===== *)
theory SyncCycle
  imports Conflicts
begin

text \<open>
  \<open>sync_cycle.py\<close>: one cycle of the background synchronisation. The central snapshot is downloaded, the
  status and the plan are computed, the reports for a reviewer (conflict packages, tombstones, the blocked
  report) are written below the work directory, and the plan is executed only when nothing of it needs a
  reviewer.
\<close>

text \<open>The arguments that stay the same from cycle to cycle.\<close>

record cycle_args =
  ca_local_root :: path
  ca_remote :: remote
  ca_prefix :: string
  ca_cache :: path
  ca_work :: path
  ca_allow_new :: bool
  ca_allow_delete :: bool
  ca_policy :: string
  ca_dry_run :: bool
  ca_target :: string
  ca_backup :: "path option"

text \<open>What one cycle makes up: the names of its temporary directories and files, its clock, and the
  modification times it reads.\<close>

record cycle_names =
  cn_conflict_tmp :: path
  cn_tomb_tmp :: path
  cn_run :: run_names
  cn_stamp :: "string \<Rightarrow> string"
  cn_fresh :: string
  cn_now :: string
  cn_mtime :: "path \<Rightarrow> int"
  cn_clock :: int

definition cycle_sync_args :: "cycle_args \<Rightarrow> path option \<Rightarrow> sync_args" where
  "cycle_sync_args c base = \<lparr>sa_local_root = ca_local_root c, sa_snapshot = ca_cache c, sa_base_record = base\<rparr>"

definition delete_plan_actions :: "string list" where
  "delete_plan_actions = [''delete_local'', ''deprecate_remote'']"

definition build_conflicts_if_needed :: "host \<Rightarrow> cycle_args \<Rightarrow> path option \<Rightarrow> cycle_names \<Rightarrow> pydict \<Rightarrow> pydict option io" where
  "build_conflicts_if_needed H c base n status =
     thenI (remove_path (ca_work c @ [''conflicts'']))
       (if \<not> truthy (dget status ''has_conflicts'') then returnI None
        else bindI (build_conflict_packages H (cycle_sync_args c base) (ca_work c @ [''conflicts'']) (cn_conflict_tmp n) (cn_stamp n) (cn_now n))
          (\<lambda>r. returnI (Some r)))"

definition build_tombstones_if_needed :: "host \<Rightarrow> cycle_args \<Rightarrow> path option \<Rightarrow> cycle_names \<Rightarrow> pydict option io" where
  "build_tombstones_if_needed H c base n =
     bindI (build_tombstones H (cycle_sync_args c base) (ca_work c @ [''tombstones'']) (cn_tomb_tmp n) (cn_mtime n) (cn_clock n)
              (cn_stamp n) (cn_fresh n) (cn_now n))
       (\<lambda>r. returnI (if truthy (dget r ''total_tombstones'') then Some r else None))"

definition write_blocked_report :: "host \<Rightarrow> cycle_args \<Rightarrow> path option \<Rightarrow> cycle_names \<Rightarrow> pydict io" where
  "write_blocked_report H c base n =
     build_blocked_report H (cycle_sync_args c base) (ca_work c @ [''blocked-report'']) (ca_allow_new c) (ca_allow_delete c) (ca_policy c) (cn_now n)"

definition count_delete_plan_actions :: "pydict \<Rightarrow> nat" where
  "count_delete_plan_actions plan =
     length (filter (\<lambda>i. dget i ''plan_action'' \<in> PStr ` set delete_plan_actions \<and> truthy (dget i ''allowed''))
       (only_dicts (list_or_empty (dget plan ''items''))))"

definition cycle_reason :: "bool \<Rightarrow> pydict \<Rightarrow> pydict option \<Rightarrow> pydict option \<Rightarrow> nat \<Rightarrow> string" where
  "cycle_reason dry_run plan conflicts tombstones deletes =
     (let some = (\<lambda>r k. case r of None \<Rightarrow> False | Some d \<Rightarrow> truthy (dget d k)) in
      if dry_run then ''dry-run only; no files changed''
      else if some conflicts ''total_conflicts'' then ''conflicts were materialized for manual review''
      else if deletes \<noteq> 0 then ''delete/deprecate review is staged as tombstones and not executed automatically''
      else if truthy (dget plan ''blocked'') then ''sync plan has blocked items''
      else if some tombstones ''total_tombstones'' then ''delete tombstones were materialized for manual review''
      else ''sync actions applied'')"

definition opt_dict :: "pydict option \<Rightarrow> pyval" where
  "opt_dict r = (case r of None \<Rightarrow> PNone | Some d \<Rightarrow> PDict d)"

text \<open>What the first part of a cycle leaves for the decision: the downloaded index, the status, the plan
  and the three reports.\<close>

record review =
  rv_index :: pydict
  rv_status :: pydict
  rv_plan :: pydict
  rv_conflicts :: "pydict option"
  rv_tombstones :: "pydict option"
  rv_blocked :: pydict

definition review_plan :: "host \<Rightarrow> cycle_args \<Rightarrow> path option \<Rightarrow> world \<Rightarrow> (pydict \<times> pydict) res" where
  "review_plan H c base w =
     bindR (build_sync_status H w (cycle_sync_args c base) ''local'' None []) (\<lambda>status.
     bindR (build_sync_plan status (ca_allow_new c) (ca_allow_delete c) (ca_policy c)) (\<lambda>plan. Inr (status, plan)))"

definition review_cycle :: "host \<Rightarrow> cycle_args \<Rightarrow> path option \<Rightarrow> cycle_names \<Rightarrow> review io" where
  "review_cycle H c base n =
     bindI (download_snapshot H (ca_remote c) (ca_cache c) (ca_prefix c)) (\<lambda>index.
     bindI (bindI (askI (review_plan H c base)) liftI) (\<lambda>(status, plan).
     bindI (build_conflicts_if_needed H c base n status) (\<lambda>conflicts.
     bindI (build_tombstones_if_needed H c base n) (\<lambda>tombstones.
     bindI (write_blocked_report H c base n) (\<lambda>blocked.
       returnI \<lparr>rv_index = index, rv_status = status, rv_plan = plan, rv_conflicts = conflicts,
         rv_tombstones = tombstones, rv_blocked = blocked\<rparr>)))))"

definition may_apply :: "bool \<Rightarrow> review \<Rightarrow> bool" where
  "may_apply dry_run v = (\<not> dry_run \<and> dget (rv_plan v) ''blocked'' = PInt 0 \<and> count_delete_plan_actions (rv_plan v) = 0
     \<and> rv_conflicts v = None)"

definition cycle_result :: "cycle_args \<Rightarrow> review \<Rightarrow> pydict option \<Rightarrow> string \<Rightarrow> pydict" where
  "cycle_result c v apply_result status =
     [(''status'', PStr status), (''dry_run'', PBool (ca_dry_run c)), (''local_root'', PStr (path_str (norm_path (ca_local_root c)))),
      (''remote_prefix'', PStr (ca_prefix c)), (''cache_dir'', PStr (path_str (norm_path (ca_cache c)))),
      (''work_dir'', PStr (path_str (norm_path (ca_work c)))), (''snapshot_id'', dget (rv_index v) ''snapshot_id''),
      (''snapshot_total'', dget (rv_index v) ''total''), (''sync_status'', PDict (rv_status v)), (''sync_plan'', PDict (rv_plan v)),
      (''conflicts'', opt_dict (rv_conflicts v)), (''tombstones'', opt_dict (rv_tombstones v)), (''blocked_report'', PDict (rv_blocked v)),
      (''delete_actions'', PInt (int (count_delete_plan_actions (rv_plan v)))), (''apply_result'', opt_dict apply_result),
      (''reason'', PStr (cycle_reason (ca_dry_run c) (rv_plan v) (rv_conflicts v) (rv_tombstones v) (count_delete_plan_actions (rv_plan v))))]"

definition apply_cycle :: "host \<Rightarrow> cycle_args \<Rightarrow> path option \<Rightarrow> cycle_names \<Rightarrow> pydict io" where
  "apply_cycle H c base n =
     execute_sync_apply H (cycle_sync_args c base) (ca_allow_new c) (ca_allow_delete c) (ca_policy c) (Some (ca_remote c)) (ca_prefix c)
       (ca_target c) (ca_backup c) (cn_run n)"

definition run_sync_cycle :: "host \<Rightarrow> cycle_args \<Rightarrow> path option \<Rightarrow> cycle_names \<Rightarrow> pydict io" where
  "run_sync_cycle H c base n =
     bindI (review_cycle H c base n) (\<lambda>v.
       if may_apply (ca_dry_run c) v
       then bindI (apply_cycle H c base n) (\<lambda>r. returnI (cycle_result c v (Some r) ''complete''))
       else returnI (cycle_result c v None (if ca_dry_run c then ''dry_run'' else ''blocked'')))"

section \<open>Where a cycle writes\<close>

text \<open>The directories a cycle writes to while it prepares its review.\<close>

definition review_places :: "cycle_args \<Rightarrow> cycle_names \<Rightarrow> path set" where
  "review_places c n = {ca_cache c, ca_work c, cn_conflict_tmp n, cn_tomb_tmp n}"

text \<open>The archives an index names lie below the cache; the download does not check it.\<close>

definition archives_below :: "pyval \<Rightarrow> bool" where
  "archives_below v = list_all (\<lambda>s. case dget s ''archive'' of PStr a \<Rightarrow> \<not> starts_with a ''/'' \<and> ''..'' \<notin> set (path_of a) | _ \<Rightarrow> True)
     (only_dicts (list_or_empty (dget (dict_or_empty v) ''skills'')))"

definition index_confined :: "cycle_args \<Rightarrow> world \<Rightarrow> bool" where
  "index_confined c w = (case fst (rm_get (ca_remote c) (join_remote_path (ca_prefix c) ''index.json'') w) of
     Inr (Json v) \<Rightarrow> archives_below v | _ \<Rightarrow> True)"

lemma in_only_dicts: "s \<in> set (only_dicts vs) \<longleftrightarrow> PDict s \<in> set vs"
  by (induction vs) (auto simp: only_dicts_def map_filter_simps split: pyval.splits option.splits)

lemma download_archive_frame:
  assumes "reads_only R" "clean cache"
    and "\<And>s a. v = PDict s \<Longrightarrow> dget s ''archive'' = PStr a \<Longrightarrow> \<not> starts_with a ''/'' \<and> ''..'' \<notin> set (path_of a)"
  shows "only_within {cache} (download_archive H R cache pre v u)"
proof -
  have m: "only_within {cache} (bindI (askI f) (\<lambda>have_it. if have_it then returnI ()
      else bindI (rm_get R (join_remote_path pre a)) (\<lambda>d.
        thenI (mkdirs (path_parent (path_div cache a))) (write_data (path_div cache a) d))))"
    if a: "v = PDict s" "dget s ''archive'' = PStr a" for s a f
  proof -
    from assms(3) [OF a] have d: "path_div cache a = cache @ path_of a" "clean (path_of a)"
      by (auto simp: path_div_def clean_def)
    have get: "only_within {cache} (rm_get R (join_remote_path pre a))"
      using assms(1) by (intro only_within_reader) (simp add: reads_only_def)
    have t: "prefix cache (path_div cache a)" "clean (path_div cache a)" using d assms(2) by simp_all
    then have pp: "clean (path_parent (path_div cache a))" by (simp add: path_parent_def clean_butlast)
    have "prefix cache (path_parent (path_div cache a)) \<or> prefix (path_parent (path_div cache a)) cache"
      unfolding path_parent_def by (meson t(1) prefix_order.dual_order.trans prefix_same_cases prefixeq_butlast)
    then have mk: "only_within {cache} (mkdirs (path_parent (path_div cache a)))"
      using pp by (intro only_within_under [OF only_under_mkdirs]) (auto simp: apart_def)
    have wr: "only_within {cache} (write_data (path_div cache a) d)" for d
      using t by (intro only_within_under [OF only_under_write_data]) auto
    show ?thesis by (intro region_intros get mk wr)
  qed
  show ?thesis unfolding download_archive_def Let_def
    by (intro only_within_bind_lift only_within_if only_within_pure m)
      (auto simp: as_dict_def archive_name_def split: pyval.splits)
qed

lemma download_frame:
  assumes "reads_only (ca_remote c)" "clean (ca_cache c)" "index_confined c w" "apart (ca_cache c) q"
  shows "there (snd (download_snapshot H (ca_remote c) (ca_cache c) (ca_prefix c) w)) q = there w q"
proof -
  let ?cache = "ca_cache c" and ?ix = "join_remote_path (ca_prefix c) ''index.json''"
  obtain r where r: "rm_get (ca_remote c) ?ix w = (r, w)" using assms(1) by (metis reads_only_def surjective_pairing)
  show ?thesis
  proof (cases r)
    case (Inl e)
    with r show ?thesis by (simp add: download_snapshot_def bindI_def)
  next
    case (Inr d)
    let ?rest = "bindI (liftI (json_loads d)) (\<lambda>loaded. thenI (mkdirs ?cache)
       (thenI (write_data (?cache @ [''index.json'']) (Json loaded))
         (bindI (liftI (as_dict loaded)) (\<lambda>index.
          bindI (liftI (py_iter (dget_or index ''skills'' (PList [])))) (\<lambda>skills.
            thenI (foldI (download_archive H (ca_remote c) ?cache (ca_prefix c)) skills ()) (returnI index))))))"
    have f: "only_within {?cache} (foldI (download_archive H (ca_remote c) ?cache (ca_prefix c)) skills ())"
      if d: "json_loads d = Inr loaded" "as_dict loaded = Inr index" "py_iter (dget_or index ''skills'' (PList [])) = Inr skills"
      for loaded index skills
    proof (rule only_within_foldI, rule download_archive_frame [OF assms(1,2)])
      fix v s a assume v: "v \<in> set skills" "v = PDict s" "dget s ''archive'' = PStr a"
      from d have dl: "d = Json (PDict index)" by (auto simp: json_loads_def as_dict_def split: fdata.splits pyval.splits)
      have "PDict s \<in> set (list_or_empty (dget index ''skills''))"
        using d(3) v by (auto simp: py_iter_def list_or_empty_def dget_def dget_or_def split: pyval.splits option.splits)
      then have "s \<in> set (only_dicts (list_or_empty (dget index ''skills'')))" by (simp add: in_only_dicts)
      with assms(3) r Inr dl v(3) show "\<not> starts_with a ''/'' \<and> ''..'' \<notin> set (path_of a)"
        by (fastforce simp: index_confined_def archives_below_def list_all_iff dict_or_empty_def)
    qed
    have "only_within {?cache} ?rest"
      by (intro only_within_bind_lift region_intros f only_within_under [OF only_under_ensures_dir] only_within_under [OF only_under_write_data, of ?cache])
        (simp_all add: assms(2))
    from only_withinD [OF this, of q w] assms(4) r Inr show ?thesis
      by (simp add: download_snapshot_def bindI_Inr)
  qed
qed

section \<open>What a cycle does\<close>

lemma conflicts_if_needed_frame:
  assumes "clean (ca_work c)" "clean (cn_conflict_tmp n)"
  shows "only_within (review_places c n) (build_conflicts_if_needed H c base n status)"
proof -
  have w: "clean (ca_work c @ [''conflicts''])" "ca_work c \<in> review_places c n" using assms by (simp_all add: review_places_def)
  have b: "only_within {ca_work c, cn_conflict_tmp n} (build_conflict_packages H a (ca_work c @ [''conflicts'']) (cn_conflict_tmp n) stamp now)" for a stamp now
    by (rule only_withinI, rule only_withinD [OF conflict_packages_frame [OF w(1) assms(2)]]) (auto intro: apart_under)
  show ?thesis unfolding build_conflicts_if_needed_def
    by (intro region_intros only_within_below [OF remove_path_frame w(2)] only_within_mono [OF b])
      (use w(1) in \<open>auto simp: review_places_def\<close>)
qed

lemma tombstones_if_needed_frame:
  assumes "clean (ca_work c)" "clean (cn_tomb_tmp n)"
  shows "only_within (review_places c n) (build_tombstones_if_needed H c base n)"
proof -
  have w: "clean (ca_work c @ [''tombstones''])" using assms by simp
  have b: "only_within {ca_work c, cn_tomb_tmp n} (build_tombstones H a (ca_work c @ [''tombstones'']) (cn_tomb_tmp n) mt ck st fr now)" for a mt ck st fr now
    by (rule only_withinI, rule only_withinD [OF tombstones_frame [OF w assms(2)]]) (auto intro: apart_under)
  show ?thesis unfolding build_tombstones_if_needed_def
    by (intro region_intros only_within_mono [OF b]) (auto simp: review_places_def)
qed

lemma write_blocked_report_frame:
  assumes "clean (ca_work c)" shows "only_within (review_places c n) (write_blocked_report H c base n)"
  unfolding write_blocked_report_def
  by (rule only_within_below [OF blocked_report_frame, of _ "ca_work c"]) (use assms in \<open>simp_all add: review_places_def\<close>)

lemma review_cycle_frame:
  assumes "reads_only (ca_remote c)" "\<forall>p \<in> review_places c n. clean p" "index_confined c w" "\<forall>p \<in> review_places c n. apart p q"
  shows "there (snd (review_cycle H c base n w)) q = there w q"
proof -
  note cl = assms(2) [unfolded review_places_def, simplified]
  have f: "only_within (review_places c n) (bindI (bindI (askI (review_plan H c base)) liftI) (\<lambda>(status, plan).
     bindI (build_conflicts_if_needed H c base n status) (\<lambda>conflicts.
     bindI (build_tombstones_if_needed H c base n) (\<lambda>tombstones.
     bindI (write_blocked_report H c base n) (\<lambda>blocked.
       returnI \<lparr>rv_index = index, rv_status = status, rv_plan = plan, rv_conflicts = conflicts,
         rv_tombstones = tombstones, rv_blocked = blocked\<rparr>)))))" for index
    by (rule only_within_bindI)
      (use cl in \<open>auto intro!: region_intros conflicts_if_needed_frame tombstones_if_needed_frame write_blocked_report_frame\<close>)
  have "apart (ca_cache c) q" using assms(4) by (simp add: review_places_def)
  note d = download_frame [OF assms(1) _ assms(3) this, of H]
  show ?thesis using d cl only_withinD [OF f assms(4)]
    by (cases "download_snapshot H (ca_remote c) (ca_cache c) (ca_prefix c) w")
      (auto simp: review_cycle_def bindI_def [of "download_snapshot H (ca_remote c) (ca_cache c) (ca_prefix c)"] split: sum.splits)
qed

lemma run_sync_cycle_Inr:
  assumes "run_sync_cycle H c base n w = (Inr result, w')"
  obtains v w1 where "review_cycle H c base n w = (Inr v, w1)"
    "dget result ''status'' = PStr (if may_apply (ca_dry_run c) v then ''complete'' else if ca_dry_run c then ''dry_run'' else ''blocked'')"
    "\<not> may_apply (ca_dry_run c) v \<Longrightarrow> w' = w1"
  using assms by (auto simp: run_sync_cycle_def io_Inr cycle_result_def split: if_splits)

text \<open>Nothing is left for a reviewer: the central snapshot can be downloaded, the status of it and of the local
  root and the plan can be computed, the cycle is not a dry run, no skill is in conflict, and every item of the plan
  is allowed and neither deletes a local skill nor deprecates a central one.\<close>

definition cycle_cleared :: "host \<Rightarrow> cycle_args \<Rightarrow> path option \<Rightarrow> world \<Rightarrow> bool" where
  "cycle_cleared H c base w =
     (case download_snapshot H (ca_remote c) (ca_cache c) (ca_prefix c) w of
        (Inl e, w1) \<Rightarrow> False
      | (Inr index, w1) \<Rightarrow> (case sync_items H w1 (cycle_sync_args c base) ''local'' None [] of
          Inl e \<Rightarrow> False
        | Inr (items, overrides) \<Rightarrow>
            (case plan_items (ca_allow_new c) (ca_allow_delete c) (ca_policy c) (status_dict (cycle_sync_args c base) items overrides) of
               Inl e \<Rightarrow> False
             | Inr plan \<Rightarrow> \<not> ca_dry_run c \<and> list_all (\<lambda>i. it_action i \<noteq> ''conflict'') items
                 \<and> list_all (\<lambda>p. pl_allowed p \<and> pl_plan_action p \<notin> {''delete_local'', ''deprecate_remote''}) plan)))"

lemma count_deletes: "count_delete_plan_actions (plan_dict pol st pls)
    = length (filter (\<lambda>p. pl_plan_action p \<in> {''delete_local'', ''deprecate_remote''} \<and> pl_allowed p) pls)"
proof -
  have "only_dicts (list_or_empty (dget (plan_dict pol st pls) ''items'')) = map plan_item_dict pls"
    using plan_dict_items [of pol st pls PNone] only_dicts_map [of "map plan_item_dict pls"]
    by (simp add: dget_def list_or_empty_def comp_def)
  then show ?thesis
    by (auto simp: count_delete_plan_actions_def filter_map delete_plan_actions_def dget_plan_item_dict comp_def
        intro!: arg_cong [where f = length] filter_cong)
qed

lemma plan_dict_blocked: "dget (plan_dict pol st pls) ''blocked'' = PInt (int (length (filter (\<lambda>p. \<not> pl_allowed p) pls)))"
  by (simp add: plan_dict_def Let_def)

lemma conflicts_if_needed_Inr:
  "build_conflicts_if_needed H c base n status w = (Inr r, w') \<Longrightarrow> r = None \<longleftrightarrow> \<not> truthy (dget status ''has_conflicts'')"
  by (auto simp: build_conflicts_if_needed_def io_Inr split: if_splits)

lemma may_apply_cleared:
  assumes "review_cycle H c base n w = (Inr v, w1)"
  shows "may_apply (ca_dry_run c) v \<longleftrightarrow> cycle_cleared H c base w"
proof -
  from assms obtain index u status plan conflicts u2 where
    d: "download_snapshot H (ca_remote c) (ca_cache c) (ca_prefix c) w = (Inr index, u)" and
    p: "review_plan H c base u = Inr (status, plan)" and
    k: "build_conflicts_if_needed H c base n status u = (Inr conflicts, u2)" and
    rv: "rv_plan v = plan" "rv_conflicts v = conflicts"
    by (auto simp: review_cycle_def io_Inr)
  from p obtain items overrides pls where
    i: "sync_items H u (cycle_sync_args c base) ''local'' None [] = Inr (items, overrides)"
       "status = status_dict (cycle_sync_args c base) items overrides"
       "plan_items (ca_allow_new c) (ca_allow_delete c) (ca_policy c) status = Inr pls" "plan = plan_dict (ca_policy c) status pls"
    by (auto simp: review_plan_def build_sync_status_def build_sync_plan_def)
  have "truthy (dget status ''has_conflicts'') \<longleftrightarrow> (\<exists>i \<in> set items. it_action i = ''conflict'')"
    unfolding i(2) by (simp add: status_dict_def list_ex_iff)
  with conflicts_if_needed_Inr [OF k] have "conflicts = None \<longleftrightarrow> (\<forall>i \<in> set items. it_action i \<noteq> ''conflict'')" by auto
  then have "may_apply (ca_dry_run c) v \<longleftrightarrow> \<not> ca_dry_run c \<and> (\<forall>i \<in> set items. it_action i \<noteq> ''conflict'')
      \<and> (\<forall>p \<in> set pls. pl_allowed p \<and> pl_plan_action p \<notin> {''delete_local'', ''deprecate_remote''})"
    unfolding may_apply_def rv i(4) count_deletes plan_dict_blocked by (auto simp: filter_empty_conv)
  with d i show ?thesis by (simp add: cycle_cleared_def list_all_iff)
qed


text \<open>C26: a cycle that returns has transferred exactly when nothing was left for a reviewer. When it was cleared, the
  synchronisation of the local root with the downloaded snapshot has been executed on the world that the review left,
  it returned, what it left is what the cycle leaves, its result is in the result of the cycle, and the status is
  \<open>complete\<close>. When it was not cleared, the review is the last thing that was done, there is no result of a transfer, and
  the status is \<open>dry_run\<close> or \<open>blocked\<close>.\<close>

theorem cycle_completes_exactly_when_clear:
  assumes "run_sync_cycle H c base n w = (Inr result, w')"
  shows "\<exists>v w1. review_cycle H c base n w = (Inr v, w1)
    \<and> (if cycle_cleared H c base w
       then \<exists>applied. execute_sync_apply H (cycle_sync_args c base) (ca_allow_new c) (ca_allow_delete c) (ca_policy c)
               (Some (ca_remote c)) (ca_prefix c) (ca_target c) (ca_backup c) (cn_run n) w1 = (Inr applied, w')
             \<and> dget result ''status'' = PStr ''complete'' \<and> dget result ''apply_result'' = PDict applied
       else w' = w1 \<and> dget result ''status'' = PStr (if ca_dry_run c then ''dry_run'' else ''blocked'')
         \<and> dget result ''apply_result'' = PNone)"
proof -
  obtain v w1 where v: "review_cycle H c base n w = (Inr v, w1)" using assms by (auto simp: run_sync_cycle_def io_Inr)
  show ?thesis
  proof (cases "cycle_cleared H c base w")
    case True
    then have "run_sync_cycle H c base n w = bindI (apply_cycle H c base n) (\<lambda>r. returnI (cycle_result c v (Some r) ''complete'')) w1"
      using v may_apply_cleared [OF v] by (simp add: run_sync_cycle_def bindI_def)
    with assms obtain applied where "apply_cycle H c base n w1 = (Inr applied, w')" "result = cycle_result c v (Some applied) ''complete''"
      by (auto simp: io_Inr)
    with v True show ?thesis by (auto simp: apply_cycle_def cycle_result_def opt_dict_def)
  next
    case False
    then have "run_sync_cycle H c base n w = (Inr (cycle_result c v None (if ca_dry_run c then ''dry_run'' else ''blocked'')), w1)"
      using v may_apply_cleared [OF v] by (simp add: run_sync_cycle_def bindI_def returnI_def)
    with assms v False show ?thesis by (auto simp: cycle_result_def opt_dict_def)
  qed
qed

section \<open>Examples\<close>

text \<open>A local root without skills and a central index that lists \<open>names\<close>, without archives.\<close>

definition cycle_world :: "string list \<Rightarrow> world" where
  "cycle_world names = \<lparr>w_tree = NDir [(''l'', NDir []), (''t'', NDir []), (''r'', NDir [(''index.json'',
      NFile (Json (demo_index (map (\<lambda>k. (k, ''h'')) names))))])], w_fault = None\<rparr>"

definition demo_cycle :: cycle_args where
  "demo_cycle = \<lparr>ca_local_root = [''l''], ca_remote = file_remote [''r''], ca_prefix = [], ca_cache = [''c''], ca_work = [''w''],
     ca_allow_new = False, ca_allow_delete = False, ca_policy = ''push-pull'', ca_dry_run = False, ca_target = ''cc-switch-global'',
     ca_backup = None\<rparr>"

definition demo_cycle_names :: cycle_names where
  "demo_cycle_names = \<lparr>cn_conflict_tmp = [''t'', ''1''], cn_tomb_tmp = [''t'', ''2''], cn_run = push_names, cn_stamp = (\<lambda>s. ''T''),
     cn_fresh = ''f'', cn_now = ''now'', cn_mtime = (\<lambda>p. 0), cn_clock = 0\<rparr>"


text \<open>A cycle that pushes the one local skill to an empty central library.\<close>

definition pushing_cycle :: cycle_args where
  "pushing_cycle = demo_cycle\<lparr>ca_allow_new := True\<rparr>"

theorem cycle_completes_exactly_when_clear_witness:
  "\<exists>result w' applied. run_sync_cycle raw_host pushing_cycle None demo_cycle_names (push_world []) = (Inr result, w')
     \<and> dget result ''status'' = PStr ''complete'' \<and> dget result ''apply_result'' = PDict applied
     \<and> file_get_option [''r''] ''index.json'' w' \<noteq> file_get_option [''r''] ''index.json'' (push_world [])"
proof -
  have "case run_sync_cycle raw_host pushing_cycle None demo_cycle_names (push_world []) of (r, w') \<Rightarrow>
      (case r of Inl e \<Rightarrow> False | Inr result \<Rightarrow>
        file_get_option [''r''] ''index.json'' w' \<noteq> file_get_option [''r''] ''index.json'' (push_world []))" by code_simp
  then obtain result w' where r: "run_sync_cycle raw_host pushing_cycle None demo_cycle_names (push_world []) = (Inr result, w')"
    "file_get_option [''r''] ''index.json'' w' \<noteq> file_get_option [''r''] ''index.json'' (push_world [])"
    by (auto split: prod.splits sum.splits)
  have "cycle_cleared raw_host pushing_cycle None (push_world [])" by code_simp
  with cycle_completes_exactly_when_clear [OF r(1)] r show ?thesis by auto
qed

end
