(* ===== verification/Daemon.thy ===== *)
theory Daemon
  imports SyncCycle
begin

text \<open>
  \<open>daemon.py\<close>: the loop around the cycles. It writes its state file before and after every cycle, turns an
  error of a cycle into an entry of the history, moves the base record forward when a cycle completed, runs
  the fanout after a cycle that left the local root consistent, and stops when a cycle is blocked or when it
  has run as many cycles as it was given. The loop may run forever, so it is a partial function: \<open>None\<close>
  says that it does not return. Sleeping is an action given from outside, so that whatever happens to
  the files while the daemon sleeps is covered; so is the fanout.
\<close>

record daemon_args =
  da_cycle :: cycle_args
  da_interval :: pyval
  da_max_cycles :: "nat option"
  da_stop_on_blocked :: bool
  da_state_file :: "path option"
  da_base_file :: "path option"
  da_fanout :: "(nat \<Rightarrow> pydict io) option"
  da_sleep :: "nat \<Rightarrow> unit io"
  da_names :: "nat \<Rightarrow> cycle_names"

record daemon_state =
  ds_count :: nat
  ds_cycles :: "pydict list"
  ds_base :: "path option"

definition daemon_summary :: "daemon_args \<Rightarrow> daemon_state \<Rightarrow> string \<Rightarrow> string \<Rightarrow> pydict option \<Rightarrow> pydict" where
  "daemon_summary d s status now active =
     [(''status'', PStr ''complete''), (''daemon_status'', PStr status), (''updated_at'', PStr now),
      (''current_base_record'', opt_path (map_option norm_path (ds_base s))), (''dry_run'', PBool (ca_dry_run (da_cycle d))),
      (''interval_seconds'', da_interval d),
      (''max_cycles'', case da_max_cycles d of None \<Rightarrow> PNone | Some m \<Rightarrow> PInt (int m)),
      (''stop_on_blocked'', PBool (da_stop_on_blocked d)), (''writer_policy'', PStr (ca_policy (da_cycle d))),
      (''target'', PStr (ca_target (da_cycle d))), (''cycles_run'', PInt (int (ds_count s))),
      (''cycles'', PList (map PDict (ds_cycles s)))]
     @ (case active of None \<Rightarrow> [] | Some a \<Rightarrow> [(''active_cycle'', PDict a)])"

text \<open>The new text beside the old file, then a rename; a leftover of a failed write is overwritten by the next.\<close>

definition beside :: "path \<Rightarrow> path" where
  "beside p = path_parent p @ [path_name p @ ''.tmp'']"

definition write_state_file :: "path option \<Rightarrow> pydict \<Rightarrow> unit io" where
  "write_state_file state_file payload =
     (case state_file of None \<Rightarrow> returnI ()
      | Some p \<Rightarrow> thenI (mkdirs (path_parent p))
          (thenI (write_data (beside p) (Json (PDict payload))) (replace_path (beside p) p)))"

text \<open>The record a completed cycle left: the base record of a push, or the record of the pulls.\<close>

definition cycle_record_path :: "pydict \<Rightarrow> pyval" where
  "cycle_record_path result =
     (case dget result ''apply_result'' of
        PDict r \<Rightarrow>
          (let base = dget r ''base_record_path'' in
           if truthy base then base
           else case dget r ''apply_result'' of PDict nested \<Rightarrow> dget nested ''record_path'' | _ \<Rightarrow> base)
      | _ \<Rightarrow> PNone)"

definition record_successful_base :: "pydict \<Rightarrow> path option \<Rightarrow> path option io" where
  "record_successful_base result base_file =
     (if dget result ''status'' \<noteq> PStr ''complete'' \<or> \<not> truthy (cycle_record_path result) then returnI None
      else let source = path_of (py_str (cycle_record_path result)) in
        bindI (askI (\<lambda>w. exists w source)) (\<lambda>present.
          if \<not> present then returnI None
          else case base_file of None \<Rightarrow> returnI (Some source)
            | Some p \<Rightarrow> thenI (mkdirs (path_parent p))
                (thenI (copy_file source (beside p)) (thenI (replace_path (beside p) p) (returnI (Some p))))))"

definition report_field :: "pydict \<Rightarrow> string \<Rightarrow> string \<Rightarrow> pyval res" where
  "report_field result k j = (if truthy (dget result k) then py_item (dget result k) j else Inr (PInt 0))"

definition cycle_summary :: "pydict \<Rightarrow> pydict res" where
  "cycle_summary result =
     (bindR (dindex result ''sync_plan'') (\<lambda>plan.
      bindR (dindex result ''status'') (\<lambda>status. bindR (dindex result ''reason'') (\<lambda>reason.
      bindR (dindex result ''snapshot_id'') (\<lambda>snapshot_id.
      bindR (py_item plan ''summary'') (\<lambda>summary. bindR (py_item plan ''blocked'') (\<lambda>blocked.
      bindR (report_field result ''conflicts'' ''total_conflicts'') (\<lambda>conflicts. bindR (report_field result ''tombstones'' ''total_tombstones'') (\<lambda>tombstones.
      bindR (report_field result ''apply_result'' ''applied'') (\<lambda>applied. bindR (report_field result ''apply_result'' ''uploaded'') (\<lambda>uploaded.
        Inr [(''status'', status), (''reason'', reason), (''snapshot_id'', snapshot_id), (''summary'', summary),
             (''blocked'', blocked), (''conflicts'', conflicts), (''tombstones'', tombstones), (''applied'', applied),
             (''uploaded'', uploaded)])))))))))))"

fun class_name :: "exn_class \<Rightarrow> string" where
  "class_name AttributeError = ''AttributeError''"
| "class_name TypeError = ''TypeError''"
| "class_name KeyError = ''KeyError''"
| "class_name IndexError = ''IndexError''"
| "class_name ValueError = ''ValueError''"
| "class_name RuntimeError = ''RuntimeError''"
| "class_name AssertionError = ''AssertionError''"
| "class_name OSError = ''OSError''"
| "class_name JSONDecodeError = ''JSONDecodeError''"
| "class_name BadZipFile = ''BadZipFile''"
| "class_name SyncStateError = ''SyncStateError''"
| "class_name StageError = ''StageError''"
| "class_name ApplyPlanError = ''ApplyPlanError''"
| "class_name ApplyError = ''ApplyError''"
| "class_name SyncApplyError = ''SyncApplyError''"
| "class_name RestoreError = ''RestoreError''"
| "class_name ReconcileError = ''ReconcileError''"
| "class_name ProjectionError = ''ProjectionError''"
| "class_name BaseAdoptionError = ''BaseAdoptionError''"
| "class_name CentralLifecycleError = ''CentralLifecycleError''"
| "class_name TombstoneError = ''TombstoneError''"
| "class_name ConflictPackageError = ''ConflictPackageError''"
| "class_name RemoteError = ''RemoteError''"
| "class_name ConfigError = ''ConfigError''"
| "class_name FanoutError = ''FanoutError''"
| "class_name ApprovedPushError = ''ApprovedPushError''"
| "class_name SyncCycleError = ''SyncCycleError''"
| "class_name LocalSkillError = ''LocalSkillError''"
| "class_name LocalRootMigrationError = ''LocalRootMigrationError''"
| "class_name HubImportDiagnosisError = ''HubImportDiagnosisError''"
| "class_name HubImportApplyError = ''HubImportApplyError''"
| "class_name LegacySkillshubMigrationError = ''LegacySkillshubMigrationError''"
| "class_name OperatorExecutorError = ''OperatorExecutorError''"
| "class_name TimeoutExpired = ''TimeoutExpired''"

definition cycle_error_summary :: "exn \<Rightarrow> pydict" where
  "cycle_error_summary e =
     [(''status'', PStr ''error''), (''reason'', PStr (exn_text e)), (''snapshot_id'', PNone), (''summary'', PDict []),
      (''blocked'', PInt 0), (''conflicts'', PInt 0), (''tombstones'', PInt 0), (''applied'', PInt 0), (''uploaded'', PInt 0),
      (''error_type'', PStr (class_name (exn_kind e)))]"

section \<open>One turn of the loop\<close>

text \<open>The guarded part of a turn: the summary of the cycle and the base record that follows it. The base
  moves before the summary is made, so a summary that raises keeps the new base.\<close>

definition guarded_cycle :: "host \<Rightarrow> daemon_args \<Rightarrow> daemon_state \<Rightarrow> (pydict \<times> path option) io" where
  "guarded_cycle H d s =
     bindI (run_sync_cycle H (da_cycle d) (ds_base s) (da_names d (ds_count s))) (\<lambda>result.
     bindI (record_successful_base result (da_base_file d)) (\<lambda>next_base. returnI (result, next_base)))"

definition next_base :: "path option \<Rightarrow> path option \<Rightarrow> path option" where
  "next_base base recorded = (case recorded of None \<Rightarrow> base | Some b \<Rightarrow> Some b)"

definition run_guarded :: "host \<Rightarrow> daemon_args \<Rightarrow> daemon_state \<Rightarrow> (pydict \<times> path option) io" where
  "run_guarded H d s w =
     (case guarded_cycle H d s w of
        (Inl e, w') \<Rightarrow> (Inr (cycle_error_summary e, ds_base s), w')
      | (Inr (result, recorded), w') \<Rightarrow>
          (case cycle_summary result of
             Inl e \<Rightarrow> (Inr (cycle_error_summary e, next_base (ds_base s) recorded), w')
           | Inr cycle \<Rightarrow> (Inr (cycle, next_base (ds_base s) recorded), w')))"

text \<open>The guarded part never raises.\<close>

lemma run_guarded_cases:
  obtains (failed) e w' where "guarded_cycle H d s w = (Inl e, w')" "run_guarded H d s w = (Inr (cycle_error_summary e, ds_base s), w')"
  | (ran) result recorded w' cycle where "guarded_cycle H d s w = (Inr (result, recorded), w')"
    "run_guarded H d s w = (Inr (cycle, next_base (ds_base s) recorded), w')"
    "cycle_summary result = Inr cycle \<or> (\<exists>e. cycle_summary result = Inl e \<and> cycle = cycle_error_summary e)"
proof (cases "guarded_cycle H d s w")
  case (Pair r w')
  show ?thesis
  proof (cases r)
    case (Inl e)
    with Pair show ?thesis by (intro failed [of e w']) (simp_all add: run_guarded_def)
  next
    case (Inr x)
    obtain result recorded where x: "x = (result, recorded)" by (cases x)
    show ?thesis
      by (cases "cycle_summary result"; intro ran [of result recorded w'])
        (use Pair Inr x in \<open>auto simp: run_guarded_def\<close>)
  qed
qed

definition consistent_statuses :: "string list" where
  "consistent_statuses = [''complete'', ''blocked'', ''dry_run'']"

definition with_fanout :: "daemon_args \<Rightarrow> nat \<Rightarrow> pydict \<Rightarrow> pydict io" where
  "with_fanout d k cycle =
     (case da_fanout d of None \<Rightarrow> returnI cycle
      | Some fanout \<Rightarrow>
          (if dget cycle ''status'' \<in> PStr ` set consistent_statuses
           then bindI (fanout k) (\<lambda>r. returnI (dset cycle ''fanout'' (PDict r)))
           else returnI cycle))"

text \<open>The announcement of a cycle in the state file.\<close>

definition announce_cycle :: "daemon_args \<Rightarrow> daemon_state \<Rightarrow> unit io" where
  "announce_cycle d s = write_state_file (da_state_file d) (daemon_summary d s ''running'' (cn_now (da_names d (ds_count s)))
     (Some [(''cycle'', PInt (int (ds_count s) + 1)), (''status'', PStr ''running'')]))"

definition daemon_turn :: "host \<Rightarrow> daemon_args \<Rightarrow> daemon_state \<Rightarrow> daemon_state io" where
  "daemon_turn H d s =
      thenI (announce_cycle d s)
        (bindI (run_guarded H d s) (\<lambda>(cycle, base).
         bindI (with_fanout d (ds_count s) cycle) (\<lambda>cycle'.
           let s' = \<lparr>ds_count = ds_count s + 1, ds_cycles = ds_cycles s @ [cycle'], ds_base = base\<rparr> in
           thenI (write_state_file (da_state_file d) (daemon_summary d s' ''running'' (cn_now (da_names d (ds_count s))) None)) (returnI s'))))"

text \<open>Whether the loop goes round again after a turn.\<close>

definition more_cycles :: "daemon_args \<Rightarrow> daemon_state \<Rightarrow> bool" where
  "more_cycles d s = (case da_max_cycles d of None \<Rightarrow> True | Some m \<Rightarrow> ds_count s < m)"

definition last_blocked :: "daemon_state \<Rightarrow> bool" where
  "last_blocked s = (ds_cycles s \<noteq> [] \<and> dget (last (ds_cycles s)) ''status'' = PStr ''blocked'')"

definition goes_on :: "daemon_args \<Rightarrow> daemon_state \<Rightarrow> bool" where
  "goes_on d s = (\<not> (da_stop_on_blocked d \<and> last_blocked s) \<and> more_cycles d s)"

partial_function (option) daemon_loop :: "host \<Rightarrow> daemon_args \<Rightarrow> daemon_state \<Rightarrow> world \<Rightarrow> (daemon_state res \<times> world) option" where
  "daemon_loop H d s w =
     (if \<not> more_cycles d s then Some (Inr s, w)
      else case daemon_turn H d s w of
        (Inl e, w') \<Rightarrow> Some (Inl e, w')
      | (Inr s', w') \<Rightarrow>
          (if \<not> goes_on d s' then Some (Inr s', w')
           else case da_sleep d (ds_count s') w' of
               (Inl e, w'') \<Rightarrow> Some (Inl e, w'')
             | (Inr u, w'') \<Rightarrow> daemon_loop H d s' w''))"

definition daemon_start :: "path option \<Rightarrow> daemon_state" where
  "daemon_start base = \<lparr>ds_count = 0, ds_cycles = [], ds_base = base\<rparr>"

definition finish_daemon :: "daemon_args \<Rightarrow> string \<Rightarrow> daemon_state \<Rightarrow> pydict io" where
  "finish_daemon d now s =
     (let summary = daemon_summary d s ''complete'' now None in
      thenI (write_state_file (da_state_file d) summary) (returnI summary))"

definition run_sync_daemon :: "host \<Rightarrow> daemon_args \<Rightarrow> path option \<Rightarrow> string \<Rightarrow> world \<Rightarrow> (pydict res \<times> world) option" where
  "run_sync_daemon H d base now w =
     (case daemon_loop H d (daemon_start base) w of
        None \<Rightarrow> None
      | Some (Inl e, w') \<Rightarrow> Some (Inl e, w')
      | Some (Inr s, w') \<Rightarrow> Some (finish_daemon d now s w'))"

section \<open>The loop as a transition system\<close>

text \<open>A step is a turn after which the loop goes on, and the sleep that follows; an exit is how the loop
  ends: the guard fails, a turn or a sleep raises, or a turn is the last.\<close>

inductive daemon_step :: "host \<Rightarrow> daemon_args \<Rightarrow> daemon_state \<times> world \<Rightarrow> daemon_state \<times> world \<Rightarrow> bool" for H d where
  turn: "more_cycles d s \<Longrightarrow> daemon_turn H d s w = (Inr s', w') \<Longrightarrow> goes_on d s' \<Longrightarrow> da_sleep d (ds_count s') w' = (Inr u, w'')
    \<Longrightarrow> daemon_step H d (s, w) (s', w'')"

inductive daemon_exit :: "host \<Rightarrow> daemon_args \<Rightarrow> daemon_state \<times> world \<Rightarrow> daemon_state res \<times> world \<Rightarrow> bool" for H d where
  enough: "\<not> more_cycles d s \<Longrightarrow> daemon_exit H d (s, w) (Inr s, w)"
| broken: "more_cycles d s \<Longrightarrow> daemon_turn H d s w = (Inl e, w') \<Longrightarrow> daemon_exit H d (s, w) (Inl e, w')"
| finished: "more_cycles d s \<Longrightarrow> daemon_turn H d s w = (Inr s', w') \<Longrightarrow> \<not> goes_on d s' \<Longrightarrow> daemon_exit H d (s, w) (Inr s', w')"
| woken: "more_cycles d s \<Longrightarrow> daemon_turn H d s w = (Inr s', w') \<Longrightarrow> goes_on d s' \<Longrightarrow> da_sleep d (ds_count s') w' = (Inl e, w'')
    \<Longrightarrow> daemon_exit H d (s, w) (Inl e, w'')"

inductive_cases daemon_stepE: "daemon_step H d (s, w) c"
inductive_cases daemon_exitE: "daemon_exit H d (s, w) c"
inductive_simps daemon_exit_Inr: "daemon_exit H d (s, w) (Inr s', w')"

text \<open>What is reached from the start of the loop.\<close>

inductive daemon_reaches :: "host \<Rightarrow> daemon_args \<Rightarrow> daemon_state \<times> world \<Rightarrow> daemon_state \<times> world \<Rightarrow> bool" for H d c where
  start: "daemon_reaches H d c c"
| step: "daemon_reaches H d c c' \<Longrightarrow> daemon_step H d c' c'' \<Longrightarrow> daemon_reaches H d c c''"

lemma daemon_reaches_front: "daemon_step H d c c1 \<Longrightarrow> daemon_reaches H d c1 c2 \<Longrightarrow> daemon_reaches H d c c2"
  by (rotate_tac, induction rule: daemon_reaches.induct) (auto intro: daemon_reaches.intros)

lemma daemon_loop_exits:
  "daemon_loop H d s w = Some x \<Longrightarrow> \<exists>c. daemon_reaches H d (s, w) c \<and> daemon_exit H d c x"
proof (induction rule: daemon_loop.raw_induct [rotated, consumes 1, case_names body])
  case (body loop H d s w x)
  show ?case
  proof (cases "more_cycles d s")
    case False
    with body(2) show ?thesis by (intro exI [of _ "(s, w)"]) (auto intro: daemon_reaches.start daemon_exit.enough)
  next
    case more: True
    obtain r w' where t: "daemon_turn H d s w = (r, w')" by (metis surj_pair)
    show ?thesis
    proof (cases r)
      case (Inl e)
      with body(2) more t show ?thesis by (intro exI [of _ "(s, w)"]) (auto intro: daemon_reaches.start daemon_exit.broken)
    next
      case (Inr s')
      show ?thesis
      proof (cases "goes_on d s'")
        case False
        with Inr body(2) more t show ?thesis by (intro exI [of _ "(s, w)"]) (auto intro: daemon_reaches.start daemon_exit.finished)
      next
        case on: True
        obtain r2 w2 where z: "da_sleep d (ds_count s') w' = (r2, w2)" by (metis surj_pair)
        show ?thesis
        proof (cases r2)
          case (Inl e)
          with Inr body(2) more t on z show ?thesis by (intro exI [of _ "(s, w)"]) (auto intro: daemon_reaches.start daemon_exit.woken)
        next
          case (Inr u)
          have st: "daemon_step H d (s, w) (s', w2)" using more t \<open>r = Inr s'\<close> on z Inr by (auto intro: daemon_step.turn)
          have "loop H d s' w2 = Some x" using body(2) more t \<open>r = Inr s'\<close> on z Inr by simp
          from body(1) [OF this] st show ?thesis by (blast intro: daemon_reaches_front)
        qed
      qed
    qed
  qed
qed

lemma daemon_exit_loop: "daemon_exit H d c x \<Longrightarrow> daemon_loop H d (fst c) (snd c) = Some x"
  by (induction rule: daemon_exit.induct) (simp_all add: daemon_loop.simps)

lemma daemon_step_loop: "daemon_step H d c c' \<Longrightarrow> daemon_loop H d (fst c) (snd c) = daemon_loop H d (fst c') (snd c')"
  by (induction rule: daemon_step.induct) (simp add: daemon_loop.simps [of H d])

lemma daemon_reaches_loop:
  "daemon_reaches H d c c' \<Longrightarrow> daemon_loop H d (fst c) (snd c) = daemon_loop H d (fst c') (snd c')"
  by (induction rule: daemon_reaches.induct) (simp_all add: daemon_step_loop)


section \<open>Counting cycles\<close>

lemma daemon_turn_Inr:
  assumes "daemon_turn H d s w = (Inr s', w')"
  shows "ds_count s' = ds_count s + 1" "\<exists>c. ds_cycles s' = ds_cycles s @ [c]"
  using assms by (auto simp: daemon_turn_def Let_def io_Inr split: prod.splits)

text \<open>What holds whenever the loop is about to go round: as many entries as cycles, no more than allowed, and
  none blocked when a blocked cycle stops the loop.\<close>

definition blocked_cycle :: "pydict \<Rightarrow> bool" where
  "blocked_cycle c = (dget c ''status'' = PStr ''blocked'')"

definition counts_right :: "daemon_args \<Rightarrow> daemon_state \<Rightarrow> bool" where
  "counts_right d s = (ds_count s = length (ds_cycles s) \<and> (case da_max_cycles d of None \<Rightarrow> True | Some m \<Rightarrow> ds_count s \<le> m)
     \<and> (da_stop_on_blocked d \<longrightarrow> (\<forall>c \<in> set (ds_cycles s). \<not> blocked_cycle c)))"

definition counts_almost :: "daemon_args \<Rightarrow> daemon_state \<Rightarrow> bool" where
  "counts_almost d s = (ds_count s = length (ds_cycles s) \<and> (case da_max_cycles d of None \<Rightarrow> True | Some m \<Rightarrow> ds_count s \<le> m)
     \<and> (da_stop_on_blocked d \<longrightarrow> (\<forall>c \<in> set (butlast (ds_cycles s)). \<not> blocked_cycle c)))"

lemma counts_turn:
  assumes "counts_right d s" "more_cycles d s" "daemon_turn H d s w = (Inr s', w')"
  shows "counts_almost d s'"
  using assms daemon_turn_Inr [OF assms(3)]
  by (auto simp: counts_right_def counts_almost_def more_cycles_def split: option.splits)

lemma counts_step:
  assumes "daemon_step H d c c'" "counts_right d (fst c)" shows "counts_right d (fst c')"
  using assms
proof (induction rule: daemon_step.induct)
  case (turn s w s' w' u w'')
  from counts_turn [OF _ turn(1,2)] turn(5) have a: "counts_almost d s'" by simp
  obtain c where c: "ds_cycles s' = ds_cycles s @ [c]" using daemon_turn_Inr [OF turn(2)] by blast
  with a turn(3,5) show ?case
    by (auto simp: counts_right_def counts_almost_def goes_on_def last_blocked_def blocked_cycle_def)
qed

lemma counts_reached: "daemon_reaches H d c c' \<Longrightarrow> counts_right d (fst c) \<Longrightarrow> counts_right d (fst c')"
  by (induction rule: daemon_reaches.induct) (auto intro: counts_step)

lemma counts_start [simp]: "counts_right d (daemon_start base)"
  by (simp add: counts_right_def daemon_start_def split: option.split)

lemma counts_right_almost: "counts_right d s \<Longrightarrow> counts_almost d s"
  by (auto simp: counts_right_def counts_almost_def dest: in_set_butlastD)

lemma daemon_loop_Inr:
  assumes "daemon_loop H d (daemon_start base) w = Some (Inr s, w')"
  shows "counts_almost d s" "\<not> goes_on d s"
proof -
  from daemon_loop_exits [OF assms] obtain s1 w1 where c: "daemon_reaches H d (daemon_start base, w) (s1, w1)"
    "daemon_exit H d (s1, w1) (Inr s, w')" by auto
  from counts_reached [OF c(1)] have k: "counts_right d s1" by simp
  from c(2) counts_turn [OF k] counts_right_almost [OF k] show "counts_almost d s" "\<not> goes_on d s"
    by (auto simp: daemon_exit_Inr goes_on_def)
qed

lemma finish_daemon_Inr:
  "finish_daemon d now s w = (Inr summary, w') \<Longrightarrow> summary = daemon_summary d s ''complete'' now None"
  by (auto simp: finish_daemon_def Let_def io_Inr)

text \<open>when the daemon returns, it has run as many cycles as its summary lists, never more than it was
  allowed; a blocked cycle stopped it at once when it was told to; and it returned for no other reason
  than that the cycles were used up or the last one was blocked.\<close>

theorem daemon_runs_no_cycle_too_many:
  assumes "run_sync_daemon H d base now w = Some (Inr summary, w')"
  shows "\<exists>cycles. dget summary ''cycles'' = PList (map PDict cycles) \<and> dget summary ''cycles_run'' = PInt (int (length cycles))
    \<and> (\<forall>m. da_max_cycles d = Some m \<longrightarrow> length cycles \<le> m)
    \<and> (da_stop_on_blocked d \<longrightarrow> (\<forall>c \<in> set (butlast cycles). \<not> blocked_cycle c))
    \<and> (da_max_cycles d = Some (length cycles) \<or> da_stop_on_blocked d \<and> cycles \<noteq> [] \<and> blocked_cycle (last cycles))"
proof -
  from assms obtain s w1 where l: "daemon_loop H d (daemon_start base) w = Some (Inr s, w1)" "finish_daemon d now s w1 = (Inr summary, w')"
    by (auto simp: run_sync_daemon_def split: option.splits prod.splits sum.splits)
  note k = daemon_loop_Inr [OF l(1)]
  have "dget summary ''cycles'' = PList (map PDict (ds_cycles s)) \<and> dget summary ''cycles_run'' = PInt (int (ds_count s))"
    unfolding finish_daemon_Inr [OF l(2)] by (simp add: daemon_summary_def)
  with k show ?thesis
    by (intro exI [of _ "ds_cycles s"])
      (auto simp: counts_almost_def goes_on_def more_cycles_def last_blocked_def blocked_cycle_def split: option.splits)
qed

section \<open>The loop ends, or does not\<close>

lemma daemon_bounded_returns:
  assumes "da_max_cycles d = Some m"
  shows "\<exists>x. daemon_loop H d s w = Some x"
proof (induction "m - ds_count s" arbitrary: s w rule: less_induct)
  case less
  show ?case
  proof (cases "more_cycles d s")
    case False
    then show ?thesis by (subst daemon_loop.simps) simp
  next
    case more: True
    obtain r w' where t: "daemon_turn H d s w = (r, w')" by (metis surj_pair)
    have d: "\<exists>x. daemon_loop H d s' w2 = Some x" if "r = Inr s'" for s' w2
    proof -
      have "ds_count s' = ds_count s + 1" "ds_count s < m"
        using daemon_turn_Inr(1) t that more assms by (auto simp: more_cycles_def)
      then have "m - ds_count s' < m - ds_count s" by arith
      from less [OF this] show ?thesis by blast
    qed
    with more t show ?thesis by (subst daemon_loop.simps) (auto split: sum.split prod.split)
  qed
qed

lemma finish_daemon_total: "\<exists>x. finish_daemon d now s w = x"
  by blast

text \<open>C28: a daemon that is given a number of cycles returns, whatever its cycles, its sleeps and its file
  operations do.\<close>

theorem bounded_daemon_terminates:
  assumes "da_max_cycles d = Some m"
  shows "\<exists>r w'. run_sync_daemon H d base now w = Some (r, w')"
proof -
  from daemon_bounded_returns [OF assms] obtain r w1 where "daemon_loop H d (daemon_start base) w = Some (r, w1)" by fastforce
  then show ?thesis by (cases r) (auto simp: run_sync_daemon_def)
qed

text \<open>What can end the service with an exception: the writing of the state file, the fanout, a sleep.\<close>

definition service_error :: "daemon_args \<Rightarrow> exn \<Rightarrow> world \<Rightarrow> bool" where
  "service_error d e w' = ((\<exists>payload w. write_state_file (da_state_file d) payload w = (Inl e, w'))
     \<or> (\<exists>fanout k w. da_fanout d = Some fanout \<and> fanout k w = (Inl e, w'))
     \<or> (\<exists>k w. da_sleep d k w = (Inl e, w')))"

lemma turn_error:
  assumes "daemon_turn H d s w = (Inl e, w')" shows "service_error d e w'"
proof -
  let ?now = "cn_now (da_names d (ds_count s))"
  let ?first = "announce_cycle d s"
  obtain r1 w1 where f: "?first w = (r1, w1)" by (metis surj_pair)
  show ?thesis
  proof (cases r1)
    case (Inl e1)
    with f assms show ?thesis by (auto simp: daemon_turn_def announce_cycle_def Let_def thenI_def bindI_def service_error_def)
  next
    case (Inr u)
    obtain cycle base w2 where g: "run_guarded H d s w1 = (Inr (cycle, base), w2)"
      by (cases rule: run_guarded_cases [of H d s w1]) auto
    obtain r3 w3 where t: "with_fanout d (ds_count s) cycle w2 = (r3, w3)" by (metis surj_pair)
    let ?rest = "\<lambda>cycle'. let s' = \<lparr>ds_count = ds_count s + 1, ds_cycles = ds_cycles s @ [cycle'], ds_base = base\<rparr> in
           thenI (write_state_file (da_state_file d) (daemon_summary d s' ''running'' ?now None)) (returnI s')"
    have run: "bindI (with_fanout d (ds_count s) cycle) ?rest w2 = (Inl e, w')"
      using assms f Inr g by (simp add: daemon_turn_def Let_def thenI_def bindI_def)
    show ?thesis
    proof (cases r3)
      case (Inl e3)
      with t run have "e3 = e" "w3 = w'" by (simp_all add: bindI_def)
      with t Inl show ?thesis
        by (auto simp: with_fanout_def service_error_def bindI_def returnI_def split: option.splits if_splits prod.splits sum.splits)
    next
      case (Inr cycle')
      with t run have "?rest cycle' w3 = (Inl e, w')" by (simp add: bindI_def)
      then show ?thesis
        by (auto simp: Let_def thenI_def bindI_def returnI_def service_error_def split: prod.splits sum.splits)
    qed
  qed
qed

lemma daemon_exit_error: "daemon_exit H d c (Inl e, w') \<Longrightarrow> service_error d e w'"
  by (erule daemon_exit.cases) (auto dest: turn_error simp: service_error_def)

lemma run_sync_daemon_cases:
  assumes "run_sync_daemon H d base now w = Some (r, w')"
  obtains (raised) e where "daemon_loop H d (daemon_start base) w = Some (Inl e, w')" "r = Inl e"
  | (returned) s w1 where "daemon_loop H d (daemon_start base) w = Some (Inr s, w1)" "finish_daemon d now s w1 = (r, w')"
  using assms by (auto simp: run_sync_daemon_def split: option.splits prod.splits sum.splits)

lemma daemon_ends_with:
  assumes "run_sync_daemon H d base now w = Some (Inl e, w')" shows "service_error d e w'"
  using assms
proof (cases rule: run_sync_daemon_cases)
  case (raised e1)
  with daemon_loop_exits [OF raised(1)] daemon_exit_error show ?thesis by auto
next
  case (returned s w1)
  then show ?thesis
    by (auto simp: finish_daemon_def Let_def thenI_def bindI_def returnI_def service_error_def split: prod.splits sum.splits)
qed


section \<open>The base record\<close>

lemma record_successful_base_Inr:
  assumes "record_successful_base result base_file w = (Inr (Some b), w')"
  shows "dget result ''status'' = PStr ''complete''" "base_file = Some b \<or> base_file = None \<and> b = path_of (py_str (cycle_record_path result))"
  using assms by (auto simp: record_successful_base_def Let_def io_Inr split: if_splits option.splits)

lemma guarded_cycle_Inr:
  assumes "guarded_cycle H d s w = (Inr (result, recorded), w')"
  obtains w1 where "run_sync_cycle H (da_cycle d) (ds_base s) (da_names d (ds_count s)) w = (Inr result, w1)"
    "record_successful_base result (da_base_file d) w1 = (Inr recorded, w')"
  using assms by (auto simp: guarded_cycle_def io_Inr)

lemma run_guarded_base:
  assumes "run_guarded H d s w = (Inr (cycle, base), w')" "base \<noteq> ds_base s"
  shows "\<exists>result w1. run_sync_cycle H (da_cycle d) (ds_base s) (da_names d (ds_count s)) w = (Inr result, w1)
     \<and> dget result ''status'' = PStr ''complete''
     \<and> (base = da_base_file d \<or> da_base_file d = None \<and> base = Some (path_of (py_str (cycle_record_path result))))"
proof (cases rule: run_guarded_cases [of H d s w])
  case (failed e w1)
  with assms show ?thesis by simp
next
  case (ran result recorded w1 c)
  with assms obtain b where b: "recorded = Some b" "base = Some b" by (cases recorded) (auto simp: next_base_def)
  from guarded_cycle_Inr [OF ran(1)] obtain w2 where
    r: "run_sync_cycle H (da_cycle d) (ds_base s) (da_names d (ds_count s)) w = (Inr result, w2)"
    "record_successful_base result (da_base_file d) w2 = (Inr (Some b), w1)" unfolding b(1) by blast
  with record_successful_base_Inr [OF r(2)] b(2) show ?thesis by auto
qed

lemma daemon_turn_base:
  assumes "daemon_turn H d s w = (Inr s', w')"
  obtains w1 cycle w2 where "run_guarded H d s w1 = (Inr (cycle, ds_base s'), w2)"
  using assms by (fastforce simp: daemon_turn_def Let_def io_Inr split: prod.splits)

text \<open>What recording a base did: without a file of its own the daemon takes the record itself; with one, the file holds
  the content of the record.\<close>

lemma recorded_base:
  assumes "record_successful_base result base_file w = (Inr (Some b), w')" "\<forall>p. base_file = Some p \<longrightarrow> clean p \<and> p \<noteq> []"
  shows "truthy (cycle_record_path result)" "exists w (path_of (py_str (cycle_record_path result)))"
    "case base_file of None \<Rightarrow> b = path_of (py_str (cycle_record_path result)) \<and> w' = w
     | Some p \<Rightarrow> b = p \<and> (\<exists>x. at w (path_of (py_str (cycle_record_path result))) = Some (NFile x) \<and> there w' p = Some (NFile x))"
proof -
  let ?s = "path_of (py_str (cycle_record_path result))"
  show "truthy (cycle_record_path result)" "exists w ?s"
    using assms(1) by (auto simp: record_successful_base_def Let_def io_Inr split: if_splits option.splits)
  show "case base_file of None \<Rightarrow> b = ?s \<and> w' = w | Some p \<Rightarrow> b = p \<and> (\<exists>x. at w ?s = Some (NFile x) \<and> there w' p = Some (NFile x))"
  proof (cases base_file)
    case None
    with assms(1) show ?thesis by (auto simp: record_successful_base_def Let_def io_Inr split: if_splits)
  next
    case (Some p)
    with assms(2) have cp: "clean p" "p \<noteq> []" by auto
    from assms(1) Some obtain w1 w2 where m: "mkdirs (path_parent p) w = (Inr (), w1)" "copy_file ?s (beside p) w1 = (Inr (), w2)"
      "replace_path (beside p) p w2 = (Inr (), w')" "b = p"
      by (auto simp: record_successful_base_def Let_def io_Inr split: if_splits)
    have cb: "clean (beside p)" using cp by (simp add: beside_def path_parent_def clean_butlast)
    have "p = butlast p @ [path_name p]" using cp(2) by (simp add: path_name_def)
    then have ap: "apart (beside p) p"
      using apart_siblings [of "path_name p @ ''.tmp''" "path_name p" "butlast p"] by (simp add: beside_def path_parent_def)
    from m(2) obtain x where x: "at w1 ?s = Some (NFile x)" "write_data (beside p) x w1 = (Inr (), w2)"
      by (auto simp: copy_file_def split: option.splits node.splits)
    have "file_at w1 (norm_path ?s) = file_at w (norm_path ?s)" by (rule keepsD [OF keeps_mkdirs m(1)])
    with x(1) have "at w ?s = Some (NFile x)" by (simp add: file_at_def at_def split: option.splits node.splits)
    moreover have "there w' p = Some (NFile x)"
      using replace_path_Inr(1) [OF cb cp(1) ap m(3)] write_data_Inr [OF cb x(2)] by simp
    ultimately show ?thesis using Some m(4) by simp
  qed
qed

text \<open>The two parts of a turn.\<close>

lemma daemon_turn_parts:
  assumes "daemon_turn H d s w = (Inr s', w')"
  obtains w1 cycle w2 where "announce_cycle d s w = (Inr (), w1)" "run_guarded H d s w1 = (Inr (cycle, ds_base s'), w2)"
    "da_fanout d = None \<Longrightarrow> da_state_file d = None \<Longrightarrow> w' = w2"
  using assms by (fastforce simp: daemon_turn_def announce_cycle_def Let_def io_Inr with_fanout_def write_state_file_def split: prod.splits option.splits)

lemma run_guarded_recorded:
  assumes "run_guarded H d s w = (Inr (cycle, base), w')" "base \<noteq> ds_base s"
  obtains result w1 b where "run_sync_cycle H (da_cycle d) (ds_base s) (da_names d (ds_count s)) w = (Inr result, w1)"
    "record_successful_base result (da_base_file d) w1 = (Inr (Some b), w')" "base = Some b"
proof (cases rule: run_guarded_cases [of H d s w])
  case (failed e w1)
  with assms show ?thesis by simp
next
  case (ran result recorded w1 c)
  with assms obtain b where b: "recorded = Some b" "base = Some b" "w1 = w'" by (cases recorded) (auto simp: next_base_def)
  from guarded_cycle_Inr [OF ran(1)] b that show ?thesis by metis
qed

text \<open>C33: the base record moves only with a completed cycle. Any turn of the loop, the last one too, leaves the base as it
  was, or the cycle that it ran, on the files as the announcement in the state file left them, returned with status
  \<open>complete\<close> and named a record that exists; the new base is then this record, or, when the daemon was given a file for
  the base, that file, holding the content of the record. Neither the fanout nor the state file is written in between, so
  without the two this is also what the turn leaves.\<close>

theorem base_moves_only_with_a_complete_cycle:
  assumes "daemon_turn H d s w = (Inr s', w')" and "\<forall>p. da_base_file d = Some p \<longrightarrow> clean p \<and> p \<noteq> []"
  shows "ds_base s' = ds_base s
    \<or> (\<exists>w1 result w2 w3. announce_cycle d s w = (Inr (), w1)
        \<and> run_sync_cycle H (da_cycle d) (ds_base s) (da_names d (ds_count s)) w1 = (Inr result, w2)
        \<and> dget result ''status'' = PStr ''complete''
        \<and> (let source = path_of (py_str (cycle_record_path result)) in exists w2 source
          \<and> (case da_base_file d of None \<Rightarrow> ds_base s' = Some source \<and> w3 = w2
             | Some p \<Rightarrow> ds_base s' = Some p \<and> (\<exists>x. at w2 source = Some (NFile x) \<and> there w3 p = Some (NFile x))))
        \<and> (da_fanout d = None \<and> da_state_file d = None \<longrightarrow> w' = w3))"
proof (cases "ds_base s' = ds_base s")
  case False
  obtain w1 cycle w3 where t: "announce_cycle d s w = (Inr (), w1)" "run_guarded H d s w1 = (Inr (cycle, ds_base s'), w3)"
    "da_fanout d = None \<and> da_state_file d = None \<longrightarrow> w' = w3"
    using daemon_turn_parts [OF assms(1)] by metis
  obtain result w2 b where r: "run_sync_cycle H (da_cycle d) (ds_base s) (da_names d (ds_count s)) w1 = (Inr result, w2)"
    "record_successful_base result (da_base_file d) w2 = (Inr (Some b), w3)" "ds_base s' = Some b"
    by (rule run_guarded_recorded [OF t(2) False])
  note b = record_successful_base_Inr(1) [OF r(2)] recorded_base [OF r(2) assms(2)]
  show ?thesis
  proof (rule disjI2, intro exI conjI)
    show "let source = path_of (py_str (cycle_record_path result)) in exists w2 source
          \<and> (case da_base_file d of None \<Rightarrow> ds_base s' = Some source \<and> w3 = w2
             | Some p \<Rightarrow> ds_base s' = Some p \<and> (\<exists>x. at w2 source = Some (NFile x) \<and> there w3 p = Some (NFile x)))"
      using b r(3) by (cases "da_base_file d") (simp_all add: Let_def)
  qed (use t r b in auto)
qed simp

lemma dry_run_turn_base:
  assumes "ca_dry_run (da_cycle d)" "daemon_turn H d s w = (Inr s', w')" shows "ds_base s' = ds_base s"
proof (rule ccontr)
  assume n: "ds_base s' \<noteq> ds_base s"
  from assms(2) obtain w3 cycle w4 where "run_guarded H d s w3 = (Inr (cycle, ds_base s'), w4)" by (rule daemon_turn_base)
  from run_guarded_base [OF this n] obtain result w1 where
    r: "run_sync_cycle H (da_cycle d) (ds_base s) (da_names d (ds_count s)) w3 = (Inr result, w1)" "dget result ''status'' = PStr ''complete''"
    by blast
  from run_sync_cycle_Inr [OF r(1)] r(2) assms(1) show False by (auto simp: may_apply_def)
qed

lemma dry_run_reached_base:
  "daemon_reaches H d c c' \<Longrightarrow> ca_dry_run (da_cycle d) \<Longrightarrow> ds_base (fst c') = ds_base (fst c)"
proof (induction rule: daemon_reaches.induct)
  case (step c' c'')
  from step(2) have "ds_base (fst c'') = ds_base (fst c')"
    by (cases rule: daemon_step.cases) (use dry_run_turn_base [OF step(4)] in simp)
  with step show ?case by simp
qed simp

text \<open>a dry run never moves the base record: the one a dry-run daemon reports at its end is the one it was
  started with.\<close>

theorem dry_run_daemon_keeps_its_base:
  assumes "ca_dry_run (da_cycle d)" and "run_sync_daemon H d base now w = Some (Inr summary, w')"
  shows "dget summary ''current_base_record'' = opt_path (map_option norm_path base)"
proof -
  from assms(2) obtain s w1 where l: "daemon_loop H d (daemon_start base) w = Some (Inr s, w1)" "finish_daemon d now s w1 = (Inr summary, w')"
    by (auto simp: run_sync_daemon_def split: option.splits prod.splits sum.splits)
  from daemon_loop_exits [OF l(1)] obtain s1 w2 where r: "daemon_reaches H d (daemon_start base, w) (s1, w2)"
    "daemon_exit H d (s1, w2) (Inr s, w1)" by auto
  from r(2) have "ds_base s = ds_base s1" by (auto simp: daemon_exit_Inr dest: dry_run_turn_base [OF assms(1)])
  with dry_run_reached_base [OF r(1) assms(1)] have "ds_base s = base" by (simp add: daemon_start_def)
  then show ?thesis unfolding finish_daemon_Inr [OF l(2)] by (simp add: daemon_summary_def)
qed

section \<open>The history\<close>

definition counted :: "pyval \<Rightarrow> bool" where
  "counted v = (case v of PInt n \<Rightarrow> 0 \<le> n | _ \<Rightarrow> False)"

lemma counted_PInt [simp]: "counted (PInt n) \<longleftrightarrow> 0 \<le> n"
  by (simp_all add: counted_def)

lemma dget_or_counted: "counted (dget d k) \<Longrightarrow> counted (dget_or d k v)"
  by (auto simp: dget_def dget_or_def counted_def split: option.splits)

lemma py_item_counted: "counted (dget d k) \<Longrightarrow> \<exists>v. py_item (PDict d) k = Inr v \<and> counted v"
  by (auto simp: py_item_def dindex_def dget_def dget_or_def counted_def split: option.splits)

lemma written_record_closed: "write_apply_record rec p ap sk w = (Inr r, w') \<Longrightarrow> r = closed_record rec p ap sk"
  by (auto simp: write_apply_record_def Let_def io_Inr)

lemma fail_run_raises: "\<exists>e w'. fail_run rec p ap sk now e0 w = (Inl e, w')"
  by (cases "write_apply_record (failed_record rec e0 now) p ap sk w")
    (auto simp: fail_run_def thenI_def bindI_def raiseI_def split: sum.splits)

lemma run_items_Inr:
  assumes "run_items items plan aid broot created now sk w = (Inr r, w')"
  shows "\<exists>rec p ap. r = closed_record rec p ap sk"
proof -
  note f = fail_run_raises
  from assms obtain u w1 ap w2 rec p where "catchI (write_apply_record rec p ap sk) (fail_run rec p ap sk now) w2 = (Inr r, w')"
    by (auto simp: run_items_def Let_def split: prod.splits sum.splits option.splits) (metis f old.prod.inject sum.distinct(1))+
  then have "\<exists>w3. write_apply_record rec p ap sk w2 = (Inr r, w3)"
    by (auto simp: catchI_def split: prod.splits sum.splits) (metis f old.prod.inject sum.distinct(1))+
  then show ?thesis using written_record_closed by blast
qed

lemma execute_apply_plan_counted:
  "execute_apply_plan plan f c n w = (Inr r, w') \<Longrightarrow> counted (dget r ''total_applied'')"
  by (auto simp: execute_apply_plan_def Let_def io_Inr closed_record_def dest!: run_items_Inr)

lemma run_pulls_counted: "run_pulls H a es t b n w = (Inr r, w') \<Longrightarrow> counted (dget r ''total_applied'')"
  unfolding run_pulls_def by (erule with_tmp_Inr) (auto simp: io_Inr dest!: execute_apply_plan_counted)

lemma push_local_snapshot_counted:
  "push_local_snapshot H lr R pre ids tmp label now w = (Inr (u, ix), w') \<Longrightarrow> counted (dget u ''files'')"
  unfolding push_local_snapshot_def by (erule with_tmp_Inr) (auto simp: io_Inr)

lemma run_pushes_counted: "run_pushes H a es R pre n w = (Inr (u, b), w') \<Longrightarrow> counted (dget u ''files'')"
  by (auto simp: run_pushes_def io_Inr dest!: push_local_snapshot_counted split: prod.splits)

lemma execute_sync_apply_counted:
  assumes "execute_sync_apply H a an ad pol R pre t b n w = (Inr r, w')"
  shows "counted (dget r ''applied'')" "counted (dget r ''uploaded'')"
proof -
  from assms obtain preview ar up where r: "r = sync_result preview ar up"
    "\<forall>x. ar = Some x \<longrightarrow> counted (dget x ''total_applied'')" "\<forall>u p. up = Some (u, p) \<longrightarrow> counted (dget u ''files'')"
    by (auto simp: execute_sync_apply_def Let_def io_Inr split: prod.splits if_splits dest!: run_pulls_counted run_pushes_counted)
  then show "counted (dget r ''applied'')" "counted (dget r ''uploaded'')"
    by (auto simp: sync_result_def intro: dget_or_counted split: option.split prod.split)
qed

lemma build_conflict_packages_counted:
  "build_conflict_packages H a out tmp st now w = (Inr r, w') \<Longrightarrow> counted (dget r ''total_conflicts'')"
  by (auto simp: build_conflict_packages_def Let_def io_Inr)

lemma build_tombstones_counted:
  "build_tombstones H a out tmp mt ck st fr now w = (Inr r, w') \<Longrightarrow> counted (dget r ''total_tombstones'')"
  by (auto simp: build_tombstones_def build_tombstones_locked_def Let_def io_Inr)

text \<open>An entry of the history: its status is one of four, its counts are numbers that are not negative, and it names
  an error class exactly when the cycle failed.\<close>

definition entry_ok :: "pydict \<Rightarrow> bool" where
  "entry_ok c = (dget c ''status'' \<in> PStr ` {''complete'', ''blocked'', ''dry_run'', ''error''}
     \<and> (\<forall>k \<in> {''blocked'', ''conflicts'', ''tombstones'', ''applied'', ''uploaded''}. counted (dget c k))
     \<and> (dget c ''status'' = PStr ''error'' \<longleftrightarrow> dget c ''error_type'' \<noteq> PNone))"

lemma error_entry_ok: "entry_ok (cycle_error_summary e)"
  by (simp add: entry_ok_def cycle_error_summary_def)

lemma run_sync_cycle_result:
  assumes "run_sync_cycle H c base n w = (Inr result, w')"
  obtains v ar status pls pol st where "result = cycle_result c v ar status" "rv_plan v = plan_dict pol st pls"
    "status \<in> {''complete'', ''blocked'', ''dry_run''}"
    "\<forall>r. rv_conflicts v = Some r \<longrightarrow> counted (dget r ''total_conflicts'')"
    "\<forall>r. rv_tombstones v = Some r \<longrightarrow> counted (dget r ''total_tombstones'')"
    "\<forall>r. ar = Some r \<longrightarrow> counted (dget r ''applied'') \<and> counted (dget r ''uploaded'')"
proof -
  from assms obtain v w1 where v: "review_cycle H c base n w = (Inr v, w1)"
    "(if may_apply (ca_dry_run c) v
       then bindI (apply_cycle H c base n) (\<lambda>r. returnI (cycle_result c v (Some r) ''complete''))
       else returnI (cycle_result c v None (if ca_dry_run c then ''dry_run'' else ''blocked''))) w1 = (Inr result, w')"
    by (auto simp: run_sync_cycle_def bindI_eq_Inr)
  from v(1) obtain u status plan conflicts u2 u1 tombstones u3 where
    p: "review_plan H c base u = Inr (status, plan)" and
    k: "build_conflicts_if_needed H c base n status u1 = (Inr conflicts, u2)" and
    t: "build_tombstones_if_needed H c base n u2 = (Inr tombstones, u3)" and
    rv: "rv_plan v = plan" "rv_conflicts v = conflicts" "rv_tombstones v = tombstones"
    by (auto simp: review_cycle_def io_Inr)
  from p obtain pls where pls: "plan = plan_dict (ca_policy c) status pls"
    by (auto simp: review_plan_def build_sync_plan_def)
  have k2: "\<forall>r. rv_conflicts v = Some r \<longrightarrow> counted (dget r ''total_conflicts'')"
    using k rv by (auto simp: build_conflicts_if_needed_def io_Inr split: if_splits dest: build_conflict_packages_counted)
  have t2: "\<forall>r. rv_tombstones v = Some r \<longrightarrow> counted (dget r ''total_tombstones'')"
    using t rv by (auto simp: build_tombstones_if_needed_def io_Inr split: if_splits dest: build_tombstones_counted)
  from v(2) obtain ar s where "result = cycle_result c v ar s" "s \<in> {''complete'', ''blocked'', ''dry_run''}"
    "\<forall>r. ar = Some r \<longrightarrow> counted (dget r ''applied'') \<and> counted (dget r ''uploaded'')"
    by (auto simp: io_Inr apply_cycle_def split: if_splits dest: execute_sync_apply_counted)
  with pls rv(1) k2 t2 show ?thesis by (intro that) auto
qed

text \<open>The count of an optional report.\<close>

lemma report_field_counted:
  assumes "dget result k = opt_dict r" "\<forall>d. r = Some d \<longrightarrow> counted (dget d j)"
  shows "\<exists>v. report_field result k j = Inr v \<and> counted v"
  using assms py_item_counted by (cases r) (fastforce simp: opt_dict_def report_field_def)+

lemma cycle_summary_ok:
  assumes "run_sync_cycle H c base n w = (Inr result, w')"
  shows "\<exists>cycle. cycle_summary result = Inr cycle \<and> entry_ok cycle \<and> dget cycle ''status'' = dget result ''status''"
proof -
  from assms obtain v ar status pls pol st where r: "result = cycle_result c v ar status" "rv_plan v = plan_dict pol st pls"
    "status \<in> {''complete'', ''blocked'', ''dry_run''}" and
    k: "\<forall>r. rv_conflicts v = Some r \<longrightarrow> counted (dget r ''total_conflicts'')"
    "\<forall>r. rv_tombstones v = Some r \<longrightarrow> counted (dget r ''total_tombstones'')"
    "\<forall>r. ar = Some r \<longrightarrow> counted (dget r ''applied'') \<and> counted (dget r ''uploaded'')"
    by (rule run_sync_cycle_result)
  have g: "dget result ''conflicts'' = opt_dict (rv_conflicts v)" "dget result ''tombstones'' = opt_dict (rv_tombstones v)"
    "dget result ''apply_result'' = opt_dict ar" "dget result ''status'' = PStr status"
    "\<exists>reason. dindex result ''reason'' = Inr reason" "dindex result ''status'' = Inr (PStr status)"
    "\<exists>i. dindex result ''snapshot_id'' = Inr i" "dindex result ''sync_plan'' = Inr (PDict (plan_dict pol st pls))"
    unfolding r(1) by (simp_all add: cycle_result_def dindex_def r(2))
  obtain v1 v2 v3 v4 where f: "report_field result ''conflicts'' ''total_conflicts'' = Inr v1" "counted v1"
    "report_field result ''tombstones'' ''total_tombstones'' = Inr v2" "counted v2"
    "report_field result ''apply_result'' ''applied'' = Inr v3" "counted v3"
    "report_field result ''apply_result'' ''uploaded'' = Inr v4" "counted v4"
    using report_field_counted [OF g(1) k(1)] report_field_counted [OF g(2) k(2)] report_field_counted [OF g(3), of "''applied''"]
      report_field_counted [OF g(3), of "''uploaded''"] k(3) by blast
  have pl: "\<exists>s. py_item (PDict (plan_dict pol st pls)) ''summary'' = Inr s"
    "\<exists>k. py_item (PDict (plan_dict pol st pls)) ''blocked'' = Inr (PInt (int k))"
    by (auto simp: plan_dict_def Let_def py_item_def dindex_def)
  then obtain s b where "py_item (PDict (plan_dict pol st pls)) ''summary'' = Inr s"
    "py_item (PDict (plan_dict pol st pls)) ''blocked'' = Inr (PInt (int b))" by blast
  moreover from g(5,7) obtain reason i where "dindex result ''reason'' = Inr reason" "dindex result ''snapshot_id'' = Inr i" by blast
  ultimately have "cycle_summary result = Inr [(''status'', PStr status), (''reason'', reason), (''snapshot_id'', i), (''summary'', s),
             (''blocked'', PInt (int b)), (''conflicts'', v1), (''tombstones'', v2), (''applied'', v3), (''uploaded'', v4)]"
    using f g(4,6,8) by (simp add: cycle_summary_def del: bindR_Inr_iff)
  then show ?thesis using f r(3) g(4) by (auto simp: entry_ok_def)
qed

lemma run_guarded_entry:
  "run_guarded H d s w = (Inr (cycle, base), w') \<Longrightarrow> entry_ok cycle"
proof (cases rule: run_guarded_cases [of H d s w])
  case (ran result recorded w1 c)
  assume r: "run_guarded H d s w = (Inr (cycle, base), w')"
  from guarded_cycle_Inr [OF ran(1)] cycle_summary_ok ran(3) have "entry_ok c" by (metis sum.distinct(1) sum.inject(2))
  with ran(2) r show ?thesis by simp
qed (use error_entry_ok in auto)

lemma with_fanout_entry:
  "with_fanout d k cycle w = (Inr c, w') \<Longrightarrow> entry_ok cycle \<Longrightarrow> entry_ok c"
  by (auto simp: with_fanout_def io_Inr entry_ok_def split: option.splits if_splits)

lemma turn_entries:
  assumes "daemon_turn H d s w = (Inr s', w')" "\<forall>c \<in> set (ds_cycles s). entry_ok c"
  shows "\<forall>c \<in> set (ds_cycles s'). entry_ok c"
proof -
  from assms(1) obtain w1 w2 w3 cycle base c where "run_guarded H d s w1 = (Inr (cycle, base), w2)"
    "with_fanout d (ds_count s) cycle w2 = (Inr c, w3)" "ds_cycles s' = ds_cycles s @ [c]"
    by (fastforce simp: daemon_turn_def Let_def io_Inr split: prod.splits)
  with assms(2) with_fanout_entry run_guarded_entry show ?thesis by fastforce
qed

lemma reached_entries:
  "daemon_reaches H d c c' \<Longrightarrow> \<forall>x \<in> set (ds_cycles (fst c)). entry_ok x \<Longrightarrow> \<forall>x \<in> set (ds_cycles (fst c')). entry_ok x"
  by (induction rule: daemon_reaches.induct) (auto elim!: daemon_step.cases dest: turn_entries)

text \<open>C34: every entry of the history a daemon ever holds is well-formed: its status is \<open>complete\<close>, \<open>blocked\<close>,
  \<open>dry_run\<close> or \<open>error\<close>, its five counts are numbers that are not negative, and it names an error class
  exactly when it is an error. This holds in every state the loop reaches, after every turn from such a state, the last
  turn included, and for the entries of the summary that the daemon returns. Summarising a cycle that returned never
  fails and gives its status.\<close>

theorem daemon_history_is_well_formed:
  assumes "daemon_reaches H d (daemon_start base, w) (s, w1)"
  shows "(\<forall>c \<in> set (ds_cycles s). entry_ok c)
    \<and> (\<forall>s' w2. daemon_turn H d s w1 = (Inr s', w2) \<longrightarrow> (\<forall>c \<in> set (ds_cycles s'). entry_ok c))
    \<and> (\<forall>summary w2. run_sync_daemon H d base now w = Some (Inr summary, w2) \<longrightarrow>
        (\<exists>cycles. dget summary ''cycles'' = PList (map PDict cycles) \<and> (\<forall>c \<in> set cycles. entry_ok c)))
    \<and> (\<forall>b n w2 result w3. run_sync_cycle H (da_cycle d) b n w2 = (Inr result, w3) \<longrightarrow>
        (\<exists>cycle. cycle_summary result = Inr cycle \<and> entry_ok cycle \<and> dget cycle ''status'' = dget result ''status''))"
proof (intro conjI allI impI)
  have ok: "\<forall>x \<in> set (ds_cycles s1). entry_ok x" if "daemon_reaches H d (daemon_start base, w) (s1, w2)" for s1 w2
    using reached_entries [OF that] by (simp add: daemon_start_def)
  show "\<forall>c \<in> set (ds_cycles s). entry_ok c" by (rule ok [OF assms])
  show "\<forall>c \<in> set (ds_cycles s'). entry_ok c" if "daemon_turn H d s w1 = (Inr s', w2)" for s' w2
    by (rule turn_entries [OF that ok [OF assms]])
  show "\<exists>cycles. dget summary ''cycles'' = PList (map PDict cycles) \<and> (\<forall>c \<in> set cycles. entry_ok c)"
    if "run_sync_daemon H d base now w = Some (Inr summary, w2)" for summary w2
    using that
  proof (cases rule: run_sync_daemon_cases)
    case (returned s2 w3)
    from daemon_loop_exits [OF returned(1)] obtain s1 w4 where r: "daemon_reaches H d (daemon_start base, w) (s1, w4)"
      "daemon_exit H d (s1, w4) (Inr s2, w3)" by auto
    from r(2) ok [OF r(1)] have "\<forall>c \<in> set (ds_cycles s2). entry_ok c" by (auto simp: daemon_exit_Inr dest: turn_entries)
    with finish_daemon_Inr [OF returned(2)] show ?thesis by (intro exI [of _ "ds_cycles s2"]) (simp add: daemon_summary_def)
  qed simp
qed (rule cycle_summary_ok)

section \<open>Examples\<close>

definition demo_daemon :: "nat option \<Rightarrow> bool \<Rightarrow> cycle_args \<Rightarrow> daemon_args" where
  "demo_daemon m stop c = \<lparr>da_cycle = c, da_interval = PInt 300, da_max_cycles = m, da_stop_on_blocked = stop,
     da_state_file = None, da_base_file = None, da_fanout = None, da_sleep = (\<lambda>k. returnI ()), da_names = (\<lambda>k. demo_cycle_names)\<rparr>"

lemma demo_turn: "\<exists>s' w'. daemon_turn raw_host (demo_daemon m stop c) s w = (Inr s', w')"
proof -
  obtain x w' where "run_guarded raw_host (demo_daemon m stop c) s w = (Inr x, w')"
    by (cases rule: run_guarded_cases [of raw_host "demo_daemon m stop c" s w])
  then show ?thesis
    by (cases x) (auto simp: daemon_turn_def announce_cycle_def demo_daemon_def write_state_file_def with_fanout_def io_defs Let_def)
qed

lemma demo_returns:
  "\<exists>summary w'. run_sync_daemon raw_host (demo_daemon (Some m) stop c) base now w = Some (Inr summary, w')"
proof -
  let ?d = "demo_daemon (Some m) stop c"
  have "da_max_cycles ?d = Some m" by (simp add: demo_daemon_def)
  from daemon_bounded_returns [OF this] obtain x where "daemon_loop raw_host ?d (daemon_start base) w = Some x" by blast
  then obtain r w' where r: "run_sync_daemon raw_host ?d base now w = Some (r, w')"
    by (cases x; cases "fst x"; cases "finish_daemon ?d now (projr (fst x)) (snd x)") (auto simp: run_sync_daemon_def)
  have "\<not> service_error ?d e w'" for e
    by (auto simp: service_error_def demo_daemon_def write_state_file_def returnI_def)
  with r show ?thesis by (cases r) (auto dest: daemon_ends_with)
qed

theorem daemon_runs_no_cycle_too_many_witness:
  "\<exists>summary w' cycles. run_sync_daemon raw_host (demo_daemon None True demo_cycle) None ''now'' (cycle_world [''b'']) = Some (Inr summary, w')
     \<and> dget summary ''cycles'' = PList (map PDict cycles) \<and> cycles \<noteq> [] \<and> blocked_cycle (last cycles)"
proof -
  let ?d = "demo_daemon None True demo_cycle"
  have "case daemon_turn raw_host ?d (daemon_start None) (cycle_world [''b'']) of (r, w') \<Rightarrow>
      (case r of Inl e \<Rightarrow> False | Inr s \<Rightarrow> \<not> goes_on ?d s)" by code_simp
  then obtain s w1 where t: "daemon_turn raw_host ?d (daemon_start None) (cycle_world [''b'']) = (Inr s, w1)" "\<not> goes_on ?d s"
    by (auto split: prod.splits sum.splits)
  have "more_cycles ?d (daemon_start None)" by (simp add: more_cycles_def demo_daemon_def)
  with t have "daemon_loop raw_host ?d (daemon_start None) (cycle_world [''b'']) = Some (Inr s, w1)"
    by (simp add: daemon_loop.simps [of raw_host ?d])
  then have r: "run_sync_daemon raw_host ?d None ''now'' (cycle_world [''b'']) = Some (Inr (daemon_summary ?d s ''complete'' ''now'' None), w1)"
    by (simp add: run_sync_daemon_def finish_daemon_def write_state_file_def demo_daemon_def io_defs)
  from daemon_runs_no_cycle_too_many [OF r] r show ?thesis by (fastforce simp: demo_daemon_def)
qed

theorem bounded_daemon_terminates_witness:
  "\<exists>r w'. run_sync_daemon raw_host (demo_daemon (Some 3) False demo_cycle) None ''now'' (cycle_world [''b'']) = Some (r, w')"
  by (rule bounded_daemon_terminates [of _ 3]) (simp add: demo_daemon_def)


theorem dry_run_daemon_keeps_its_base_witness:
  "\<exists>summary w'. run_sync_daemon raw_host (demo_daemon (Some 2) False (demo_cycle\<lparr>ca_dry_run := True\<rparr>)) (Some [''b.json'']) ''now'' (cycle_world []) = Some (Inr summary, w')
     \<and> dget summary ''current_base_record'' = PStr ''/b.json''"
proof -
  let ?d = "demo_daemon (Some 2) False (demo_cycle\<lparr>ca_dry_run := True\<rparr>)"
  obtain summary w' where r: "run_sync_daemon raw_host ?d (Some [''b.json'']) ''now'' (cycle_world []) = Some (Inr summary, w')"
    using demo_returns by blast
  have "ca_dry_run (da_cycle ?d)" by (simp add: demo_daemon_def)
  from dry_run_daemon_keeps_its_base [OF this r] r show ?thesis by (simp add: opt_path_def path_str_def opt_str_def)
qed

lemma demo_step:
  "\<exists>s' w'. daemon_step raw_host (demo_daemon None False demo_cycle) (daemon_start None, w) (s', w') \<and> length (ds_cycles s') = 1"
proof -
  let ?d = "demo_daemon None False demo_cycle"
  obtain s' w' where t: "daemon_turn raw_host ?d (daemon_start None) w = (Inr s', w')" using demo_turn by blast
  have "more_cycles ?d s" for s by (simp add: more_cycles_def demo_daemon_def)
  then have "daemon_step raw_host ?d (daemon_start None, w) (s', w')"
    using t by (intro daemon_step.turn [where u = "()"]) (auto simp: goes_on_def demo_daemon_def returnI_def)
  moreover have "length (ds_cycles s') = 1" using daemon_turn_Inr(2) [OF t] by (auto simp: daemon_start_def)
  ultimately show ?thesis by blast
qed

theorem daemon_history_is_well_formed_witness:
  "\<exists>s w'. daemon_reaches raw_host (demo_daemon None False demo_cycle) (daemon_start None, cycle_world [''b'']) (s, w')
     \<and> (\<exists>c. ds_cycles s = [c] \<and> entry_ok c)"
proof -
  from demo_step [of "cycle_world [''b'']"] obtain s w' where s:
    "daemon_step raw_host (demo_daemon None False demo_cycle) (daemon_start None, cycle_world [''b'']) (s, w')" "length (ds_cycles s) = 1" by blast
  from daemon_reaches.step [OF daemon_reaches.start s(1)] have r:
    "daemon_reaches raw_host (demo_daemon None False demo_cycle) (daemon_start None, cycle_world [''b'']) (s, w')" .
  from s(2) obtain c where "ds_cycles s = [c]" by (auto simp: length_Suc_conv)
  with r daemon_history_is_well_formed [OF r] show ?thesis by auto
qed

text \<open>A device with a new skill, allowed to publish it: the base moves to the record of the push.\<close>

theorem base_moves_only_with_a_complete_cycle_witness:
  "\<exists>s w' result w2. daemon_turn raw_host (demo_daemon None False (demo_cycle\<lparr>ca_allow_new := True\<rparr>)) (daemon_start None) (push_world []) = (Inr s, w')
     \<and> ds_base s = Some [''l'', ''.skill-sync-bases'', ''y1.json'']
     \<and> run_sync_cycle raw_host (demo_cycle\<lparr>ca_allow_new := True\<rparr>) None demo_cycle_names (push_world []) = (Inr result, w2)
     \<and> dget result ''status'' = PStr ''complete'' \<and> exists w2 [''l'', ''.skill-sync-bases'', ''y1.json'']"
proof -
  let ?c = "demo_cycle\<lparr>ca_allow_new := True\<rparr>"
  let ?d = "demo_daemon None False ?c"
  have "case daemon_turn raw_host ?d (daemon_start None) (push_world []) of (r, w') \<Rightarrow>
      (case r of Inl e \<Rightarrow> False | Inr s \<Rightarrow> ds_base s = Some [''l'', ''.skill-sync-bases'', ''y1.json''])" by code_simp
  then obtain s w' where t: "daemon_turn raw_host ?d (daemon_start None) (push_world []) = (Inr s, w')"
    "ds_base s = Some [''l'', ''.skill-sync-bases'', ''y1.json'']" by (auto split: prod.splits sum.splits)
  have p: "\<forall>p. da_base_file ?d = Some p \<longrightarrow> clean p \<and> p \<noteq> []" by (simp add: demo_daemon_def)
  have a: "announce_cycle ?d (daemon_start None) w = (Inr (), w)" for w
    by (simp add: announce_cycle_def write_state_file_def demo_daemon_def returnI_def)
  have d: "ds_base (daemon_start None) = None" "ds_count (daemon_start None) = 0" "da_cycle ?d = ?c" "da_base_file ?d = None"
    "da_names ?d = (\<lambda>k. demo_cycle_names)"
    by (simp_all add: daemon_start_def demo_daemon_def)
  from base_moves_only_with_a_complete_cycle [OF t(1) p] t(2) a d show ?thesis by (auto simp: Let_def t(1))
qed

end
