(* ===== verification/Reconcile.thy ===== *)
theory Reconcile
  imports SyncApply
begin

text \<open>
  \<open>reconcile.py\<close>: the one-time comparison of a device's inventory with a central snapshot, made before
  there is a base record: the status of every skill, for the ones that differ the files that do, what kind
  of difference it is, and the report for a reviewer. \<open>base_adoption.py\<close>: taking what both sides
  already agree on as the first base record.
\<close>

section \<open>Entries\<close>

definition load_inventory :: "path \<Rightarrow> world \<Rightarrow> pydict res" where
  "load_inventory p w =
     (let none = Inl (Exn ReconcileError (''inventory JSON has no skills list: '' @ path_str p)) in
      if \<not> exists w p then Inl (Exn ReconcileError (''inventory JSON not found: '' @ path_str p))
      else bindR (fst (read_json p w)) (\<lambda>data. case data of
          PDict d \<Rightarrow> (if is_list (dget d ''skills'') then Inr d else none)
        | PList xs \<Rightarrow> (if PStr ''skills'' \<in> set xs then Inl (Exn TypeError ''list indices must be integers or slices, not str'') else none)
        | PStr s \<Rightarrow> (if sublist ''skills'' s then Inl (Exn TypeError ''string indices must be integers, not str'') else none)
        | v \<Rightarrow> Inl (Exn TypeError (''argument of type '' @ in_quotes (type_name v) @ '' is not iterable''))))"

definition inventory_entries :: "pyval \<Rightarrow> string \<Rightarrow> (string \<times> pydict) list res" where
  "inventory_entries entries label =
     (case entries of
        PList xs \<Rightarrow> bindR (collect_by_id (map PDict (only_dicts xs)) [] []) (\<lambda>(result, duplicates).
          if duplicates \<noteq> [] then Inl (Exn ReconcileError (''duplicate '' @ label @ '' skill ids: '' @ join_str '', '' (sorted_set duplicates)))
          else Inr result)
      | _ \<Rightarrow> Inl (Exn ReconcileError (label @ '' skills must be a list'')))"

section \<open>The files that differ\<close>

type_synonym file_map = "(string \<times> pyval \<times> pyval) list"

definition files_by_path :: "pyval list \<Rightarrow> file_map" where
  "files_by_path items = fold (\<lambda>i m. if truthy (dget i ''path'') then AList.update (py_str (dget i ''path'')) (dget i ''size'', dget i ''sha256'') m else m)
     (only_dicts items) []"

definition remote_files_from_archive :: "world \<Rightarrow> path \<Rightarrow> pydict \<Rightarrow> file_map res" where
  "remote_files_from_archive w snapshot_dir entry =
     (if \<not> truthy (dget entry ''archive'') then Inr []
      else let archive_path = path_div snapshot_dir (py_str (dget entry ''archive'')) in
        if \<not> exists w archive_path then Inl (Exn ReconcileError (''remote archive missing: '' @ path_str archive_path))
        else bindR (zip_members w archive_path) (\<lambda>ms.
          bindR (case bindR (zip_read ms manifest_name) json_loads of
              Inl e \<Rightarrow> (if exn_kind e = KeyError
                 then Inl (Exn ReconcileError (''remote archive has no .skill-sync/manifest.json: '' @ path_str archive_path)) else Inl e)
            | Inr v \<Rightarrow> Inr v) (\<lambda>loaded.
          bindR (as_dict loaded) (\<lambda>manifest. bindR (py_iter (dget_or manifest ''files'' (PList []))) (\<lambda>items. Inr (files_by_path items))))))"

record file_diff =
  fd_changed :: "string list"
  fd_remote_only :: "string list"
  fd_local_only :: "string list"

definition diff_files :: "file_map \<Rightarrow> file_map \<Rightarrow> file_diff" where
  "diff_files local remote =
     \<lparr>fd_changed = sorted_set (filter (\<lambda>p. p \<in> set (map fst remote) \<and> map_of local p \<noteq> map_of remote p) (map fst local)),
      fd_remote_only = sorted_set (filter (\<lambda>p. p \<notin> set (map fst local)) (map fst remote)),
      fd_local_only = sorted_set (filter (\<lambda>p. p \<notin> set (map fst remote)) (map fst local))\<rparr>"

definition entry_diff :: "world \<Rightarrow> path \<Rightarrow> pydict \<Rightarrow> pydict \<Rightarrow> file_diff res" where
  "entry_diff w snapshot_dir local remote =
     bindR (py_iter (dget_or local ''files'' (PList []))) (\<lambda>items.
     bindR (remote_files_from_archive w snapshot_dir remote) (\<lambda>remote_files.
       Inr (diff_files (files_by_path items) remote_files)))"

section \<open>What kind of difference\<close>

definition is_generated_path :: "string \<Rightarrow> bool" where
  "is_generated_path p = (starts_with p ''data/session-timers/'' \<or> starts_with p ''data/session-archives/'')"

definition is_doc_path :: "string \<Rightarrow> bool" where
  "is_doc_path p = (p = ''SKILL.md'' \<or> starts_with p ''docs/'' \<or> list_ex (ends_with p) [''.md'', ''.mdx'', ''.txt''])"

definition is_code_or_config_path :: "string \<Rightarrow> bool" where
  "is_code_or_config_path p = list_ex (ends_with p)
     [''.py'', ''.js'', ''.ts'', ''.sh'', ''.json'', ''.yaml'', ''.yml'', ''.toml'', ''.sql'', ''.cfg'', ''.ini'']"

definition conflict_category :: "string \<Rightarrow> file_diff \<Rightarrow> string option" where
  "conflict_category status d =
     (let paths = fd_changed d @ fd_remote_only d @ fd_local_only d; real = filter (\<lambda>p. \<not> is_generated_path p) paths in
      if status \<noteq> ''conflict'' then None
      else if paths = [] then Some ''hash_only''
      else if list_all is_generated_path paths then Some ''generated_only''
      else if real = [''SKILL.md''] then Some ''skill_md_only''
      else if list_all is_doc_path real then Some ''docs_only''
      else if list_all is_code_or_config_path real then Some ''code_or_config''
      else if list_ex is_code_or_config_path real then Some ''mixed_with_code''
      else Some ''mixed'')"

definition reconcile_recommendation :: "string \<Rightarrow> string" where
  "reconcile_recommendation status =
     (if status = ''same_without_base'' then ''adopt_base_candidate''
      else if status = ''remote_new'' then ''review_pull_new''
      else if status = ''local_new'' then ''review_push_new''
      else if status = ''conflict'' then ''manual_merge_required''
      else ''review_required'')"

section \<open>The report\<close>

record reconcile_item =
  rc_skill_id :: string
  rc_status :: string
  rc_recommendation :: string
  rc_category :: "string option"
  rc_local_hash :: "string option"
  rc_remote_hash :: "string option"
  rc_local_path :: "string option"
  rc_remote_archive :: "string option"
  rc_diff :: file_diff

definition reconcile_item_dict :: "reconcile_item \<Rightarrow> pydict" where
  "reconcile_item_dict i =
     [(''skill_id'', PStr (rc_skill_id i)), (''status'', PStr (rc_status i)), (''recommendation'', PStr (rc_recommendation i)),
      (''conflict_category'', opt_str (rc_category i)), (''local_hash'', opt_str (rc_local_hash i)), (''remote_hash'', opt_str (rc_remote_hash i)),
      (''local_path'', opt_str (rc_local_path i)), (''remote_archive'', opt_str (rc_remote_archive i)),
      (''changed_files'', strs (fd_changed (rc_diff i))), (''remote_only_files'', strs (fd_remote_only (rc_diff i))),
      (''local_only_files'', strs (fd_local_only (rc_diff i)))]"

definition entry_text :: "pydict option \<Rightarrow> string \<Rightarrow> string option" where
  "entry_text e k = (case e of None \<Rightarrow> None | Some d \<Rightarrow> (if truthy (dget d k) then Some (py_str (dget d k)) else None))"

definition present :: "pydict option \<Rightarrow> bool" where
  "present e = (case e of None \<Rightarrow> False | Some d \<Rightarrow> d \<noteq> [])"

definition reconcile_status :: "pydict option \<Rightarrow> pydict option \<Rightarrow> string" where
  "reconcile_status local remote =
     (if present local \<and> \<not> present remote then ''local_new''
      else if present remote \<and> \<not> present local then ''remote_new''
      else if entry_hash local = entry_hash remote then ''same_without_base''
      else ''conflict'')"

definition reconcile_one :: "world \<Rightarrow> path \<Rightarrow> (string \<times> pydict) list \<Rightarrow> (string \<times> pydict) list \<Rightarrow> string \<Rightarrow> reconcile_item res" where
  "reconcile_one w snapshot_dir locals remotes skill_id =
     (let local = map_of locals skill_id; remote = map_of remotes skill_id; status = reconcile_status local remote in
      bindR (if status = ''conflict'' \<and> present local \<and> present remote then entry_diff w snapshot_dir (the local) (the remote)
             else Inr \<lparr>fd_changed = [], fd_remote_only = [], fd_local_only = []\<rparr>) (\<lambda>d.
        Inr \<lparr>rc_skill_id = skill_id, rc_status = status, rc_recommendation = reconcile_recommendation status,
          rc_category = conflict_category status d, rc_local_hash = entry_hash local, rc_remote_hash = entry_hash remote,
          rc_local_path = entry_text local ''path'', rc_remote_archive = entry_text remote ''archive'', rc_diff = d\<rparr>))"

definition changed_since_previous :: "(string \<times> pydict) list \<Rightarrow> (string \<times> pydict) list \<Rightarrow> pydict" where
  "changed_since_previous previous current =
     (let changed = sorted_set (filter (\<lambda>k. k \<in> set (map fst current) \<and> entry_hash (map_of previous k) \<noteq> entry_hash (map_of current k)) (map fst previous)) in
      [(''changed_count'', PInt (int (length changed))), (''changed'', strs changed),
       (''added'', strs (sorted_set (filter (\<lambda>k. k \<notin> set (map fst previous)) (map fst current)))),
       (''removed'', strs (sorted_set (filter (\<lambda>k. k \<notin> set (map fst current)) (map fst previous))))])"

definition reconcile_items :: "world \<Rightarrow> path \<Rightarrow> (string \<times> pydict) list \<Rightarrow> (string \<times> pydict) list \<Rightarrow> reconcile_item list res" where
  "reconcile_items w snapshot_dir locals remotes =
     mapR (reconcile_one w snapshot_dir locals remotes) (sorted_set (map fst locals @ map fst remotes))"

definition status_count :: "string \<Rightarrow> reconcile_item list \<Rightarrow> nat" where
  "status_count status items = length (filter (\<lambda>i. rc_status i = status) items)"

definition reconcile_report :: "string option \<Rightarrow> string \<Rightarrow> nat \<Rightarrow> nat \<Rightarrow> reconcile_item list \<Rightarrow> pydict option \<Rightarrow> pydict" where
  "reconcile_report label created_at locals remotes items changed =
     [(''protocol_version'', PInt 0), (''report_type'', PStr ''skill-sync-reconcile''), (''label'', opt_str label),
      (''created_at'', PStr created_at), (''local_total'', PInt (int locals)), (''remote_total'', PInt (int remotes)),
      (''comparison_total'', PInt (int (length items))), (''summary'', counts (sort_items (tally (map rc_status items)))),
      (''recommendations'', counts (sort_items (tally (map rc_recommendation items)))),
      (''changed_since_previous'', case changed of None \<Rightarrow> PNone | Some d \<Rightarrow> PDict d),
      (''safe_to_auto_apply'', PBool (status_count ''conflict'' items = 0 \<and> status_count ''local_new'' items = 0)),
      (''items'', PList (map (PDict \<circ> reconcile_item_dict) items))]"

definition build_reconcile_report :: "world \<Rightarrow> pydict \<Rightarrow> path \<Rightarrow> pydict option \<Rightarrow> string option \<Rightarrow> string \<Rightarrow> pydict res" where
  "build_reconcile_report w inventory snapshot_dir previous label created_at =
     (if \<not> exists w (snapshot_dir @ [''index.json''])
      then Inl (Exn ReconcileError (''remote snapshot has no index.json: '' @ path_str snapshot_dir))
      else bindR (fst (read_json (snapshot_dir @ [''index.json'']) w)) (\<lambda>loaded.
        bindR (inventory_entries (dget_or inventory ''skills'' (PList [])) ''local'') (\<lambda>locals.
        bindR (as_dict loaded) (\<lambda>index.
        bindR (inventory_entries (dget_or index ''skills'' (PList [])) ''remote'') (\<lambda>remotes.
        bindR (case previous of None \<Rightarrow> Inr [] | Some d \<Rightarrow>
                 (if d = [] then Inr [] else inventory_entries (dget_or d ''skills'' (PList [])) ''previous_local'')) (\<lambda>previous_entries.
        bindR (reconcile_items w snapshot_dir locals remotes) (\<lambda>items.
          Inr (reconcile_report label created_at (length locals) (length remotes) items
            (if previous_entries \<noteq> [] then Some (changed_since_previous previous_entries locals) else None)))))))))"

text \<open>The Markdown rendering; a list of files is cut after twelve.\<close>

definition render_files :: "string \<Rightarrow> string list \<Rightarrow> string list" where
  "render_files title ps = (if ps = [] then [] else [''  - '' @ title @ '': '' @ join_str '', '' (map backtick (take 12 ps))])"

definition dict_strs :: "pydict \<Rightarrow> string \<Rightarrow> string list" where
  "dict_strs d k = map py_str (list_or_empty (dget d k))"

definition render_reconcile_item :: "pydict \<Rightarrow> string list" where
  "render_reconcile_item item =
     [''- '' @ backtick (py_str (dget item ''skill_id'')) @ '': '' @ backtick (py_str (dget item ''recommendation''))
        @ (if truthy (dget item ''conflict_category'') then '' / '' @ backtick (py_str (dget item ''conflict_category'')) else [])]
     @ render_files ''changed'' (dict_strs item ''changed_files'')
     @ render_files ''remote_only'' (dict_strs item ''remote_only_files'')
     @ render_files ''local_only'' (dict_strs item ''local_only_files'')"

definition render_changed :: "pyval \<Rightarrow> string list" where
  "render_changed v = (case v of
      PDict changed \<Rightarrow>
        [[], ''## Changed Since Previous Local Inventory'', [],
         ''- Changed: '' @ backtick (py_str (dget_or changed ''changed_count'' (PInt 0))),
         ''- Added: '' @ backtick (int_str (int (length (dict_strs changed ''added'')))),
         ''- Removed: '' @ backtick (int_str (int (length (dict_strs changed ''removed''))))]
        @ (if dict_strs changed ''changed'' = [] then []
           else [[], ''Changed skills:''] @ map (\<lambda>k. ''- '' @ backtick k) (dict_strs changed ''changed''))
    | _ \<Rightarrow> [])"

definition render_group :: "pydict list \<Rightarrow> string \<Rightarrow> string list" where
  "render_group items status =
     (let group_items = filter (\<lambda>i. py_str (dget i ''status'') = status) items in
      if group_items = [] then [] else [[], ''## '' @ status, []] @ concat (map render_reconcile_item group_items))"

definition render_reconcile_markdown :: "pydict \<Rightarrow> string" where
  "render_reconcile_markdown report =
     (let items = only_dicts (list_or_empty (dget report ''items'')) in
      join_str newline
        ([''# Skill Sync Reconcile Report'', [],
          ''- Created at: '' @ backtick (py_str (dget report ''created_at'')),
          ''- Label: '' @ backtick (py_str (por (dget report ''label'') (PStr []))),
          ''- Local skills: '' @ backtick (py_str (dget report ''local_total'')),
          ''- Remote skills: '' @ backtick (py_str (dget report ''remote_total'')),
          ''- Safe to auto apply: '' @ backtick (lower (py_str (dget report ''safe_to_auto_apply''))),
          [], ''## Summary'', []]
         @ map (\<lambda>(k, v). ''- '' @ backtick k @ '': '' @ backtick (py_str v)) (dict_or_empty (dget report ''summary''))
         @ render_changed (dget report ''changed_since_previous'')
         @ concat (map (render_group items) [''conflict'', ''local_new'', ''remote_new'', ''same_without_base''])
         @ [[]]))"

definition write_reconcile_outputs :: "pydict \<Rightarrow> path \<Rightarrow> pydict io" where
  "write_reconcile_outputs report output_dir =
     thenI (mkdirs output_dir)
     (thenI (write_data (output_dir @ [''reconcile-report.json'']) (Json (PDict report)))
     (thenI (write_data (output_dir @ [''reconcile-report.md'']) (Raw (render_reconcile_markdown report)))
       (returnI [(''json'', PStr (path_str (norm_path (output_dir @ [''reconcile-report.json''])))),
          (''markdown'', PStr (path_str (norm_path (output_dir @ [''reconcile-report.md'']))))])))"

section \<open>Adopting a base\<close>

definition adoptable_actions :: "string list" where
  "adoptable_actions = [''same_without_base'', ''unchanged'', ''already_converged'']"

definition adoptable :: "sync_state_item \<Rightarrow> bool" where
  "adoptable i = (it_action i \<in> set adoptable_actions \<and> truthy (opt_str (it_local_hash i)) \<and> it_local_hash i = it_remote_hash i)"

definition adoption_blocked :: "sync_state_item \<Rightarrow> pydict" where
  "adoption_blocked i = [(''skill_id'', PStr (it_skill_id i)), (''action'', PStr (it_action i)), (''reason'', PStr (it_reason i)),
     (''local_hash'', opt_str (it_local_hash i)), (''remote_hash'', opt_str (it_remote_hash i))]"

definition adoption_entry :: "sync_state_item \<Rightarrow> pydict" where
  "adoption_entry i = [(''skill_id'', PStr (it_skill_id i)), (''content_hash'', opt_str (it_local_hash i))]"

definition adoption_preview :: "sync_args \<Rightarrow> sync_state_item list \<Rightarrow> pydict \<Rightarrow> pydict" where
  "adoption_preview a items status =
     (let blocked = filter (\<lambda>i. \<not> adoptable i) items; applied = filter adoptable items in
     [(''dry_run'', PBool True), (''mode'', PStr ''base-adoption''), (''safe_to_adopt'', PBool (blocked = [])),
      (''local_root'', dget status ''local_root''), (''remote_snapshot'', dget status ''remote_snapshot''),
      (''last_applied_record'', dget status ''last_applied_record''), (''total'', dget status ''total''),
      (''summary'', dget status ''summary''), (''adoptable'', PInt (int (length applied))), (''blocked'', PInt (int (length blocked))),
      (''blocked_items'', PList (map (PDict \<circ> adoption_blocked) blocked)), (''applied'', PList (map (PDict \<circ> adoption_entry) applied))])"

definition build_base_adoption_preview :: "host \<Rightarrow> world \<Rightarrow> sync_args \<Rightarrow> (sync_state_item list \<times> pydict) res" where
  "build_base_adoption_preview H w a =
     bindR (sync_items H w a ''local'' None []) (\<lambda>(items, overrides). Inr (items, adoption_preview a items (status_dict a items overrides)))"

definition adoption_index :: "world \<Rightarrow> path \<Rightarrow> pydict res" where
  "adoption_index w snapshot_dir =
     (if \<not> exists w (snapshot_dir @ [''index.json''])
      then Inl (Exn BaseAdoptionError (''remote snapshot has no index.json: '' @ path_str snapshot_dir))
      else bindR (fst (read_json (snapshot_dir @ [''index.json'']) w)) (\<lambda>v. case v of PDict d \<Rightarrow> Inr d
        | _ \<Rightarrow> Inl (Exn BaseAdoptionError ''remote snapshot index is not a JSON object'')))"

definition adoption_record :: "sync_args \<Rightarrow> string \<Rightarrow> string \<Rightarrow> string \<Rightarrow> pydict \<Rightarrow> pydict \<Rightarrow> pydict" where
  "adoption_record a remote_prefix sync_id now index preview =
     [(''protocol_version'', PInt 0), (''record_type'', PStr ''skill-sync-base''), (''sync_id'', PStr sync_id), (''created_at'', PStr now),
      (''target_root'', PStr (path_str (norm_path (sa_local_root a)))), (''remote_prefix'', PStr remote_prefix),
      (''remote_snapshot'', PStr (path_str (norm_path (sa_snapshot a)))), (''snapshot_id'', dget index ''snapshot_id''),
      (''adoption_summary'', dget preview ''summary''), (''applied'', dget preview ''applied'')]"

definition adoption_temp :: "path \<Rightarrow> path" where
  "adoption_temp out = path_parent out @ [path_name out @ ''.tmp'']"

definition execute_base_adoption :: "host \<Rightarrow> sync_args \<Rightarrow> path \<Rightarrow> string \<Rightarrow> string \<Rightarrow> string \<Rightarrow> pydict io" where
  "execute_base_adoption H a out remote_prefix sync_id now =
     bindI (bindI (askI (\<lambda>w. build_base_adoption_preview H w a)) liftI) (\<lambda>(items, preview).
       if \<not> truthy (dget preview ''safe_to_adopt'')
       then raiseI (Exn BaseAdoptionError (''base adoption has '' @ py_str (dget preview ''blocked'') @ '' blocked item(s)''))
       else bindI (bindI (askI (\<lambda>w. adoption_index w (sa_snapshot a))) liftI) (\<lambda>index.
         thenI (mkdirs (path_parent out))
         (thenI (write_data (adoption_temp out) (Json (PDict (adoption_record a remote_prefix sync_id now index preview))))
         (thenI (replace_path (adoption_temp out) out)
           (returnI (dmerge preview [(''dry_run'', PBool False), (''status'', PStr ''complete''),
             (''record_path'', PStr (path_str (norm_path out))), (''sync_id'', PStr sync_id), (''snapshot_id'', dget index ''snapshot_id'')]))))))"

section \<open>A reconciliation agrees with a first synchronisation\<close>

definition hashed_entry :: "pydict option \<Rightarrow> bool" where
  "hashed_entry e = (\<forall>d. e = Some d \<longrightarrow> truthy (dget d ''content_hash''))"

lemma hashed_entry_present: "hashed_entry e \<Longrightarrow> present e \<longleftrightarrow> entry_hash e \<noteq> None"
  by (cases e) (auto simp: hashed_entry_def present_def entry_hash_def)

text \<open>The central entry is marked deprecated.\<close>

definition marked_deprecated :: "pydict option \<Rightarrow> bool" where
  "marked_deprecated e = (case e of None \<Rightarrow> False | Some d \<Rightarrow> d \<noteq> [] \<and> central_lifecycle_state d = ''deprecated'')"


text \<open>the file lists of a conflict are a partition: sorted, without repetition and disjoint, a path is listed
  exactly when the two sides differ on it, under what tells how, and two sides with the same files list nothing.\<close>

theorem diff_files_partitions_the_difference:
  "distinct (fd_changed (diff_files l r) @ fd_remote_only (diff_files l r) @ fd_local_only (diff_files l r))
    \<and> sorted (fd_changed (diff_files l r)) \<and> sorted (fd_remote_only (diff_files l r)) \<and> sorted (fd_local_only (diff_files l r))
    \<and> (\<forall>p. (map_of l p \<noteq> map_of r p) = (p \<in> set (fd_changed (diff_files l r)) \<or> p \<in> set (fd_remote_only (diff_files l r))
          \<or> p \<in> set (fd_local_only (diff_files l r))))
    \<and> (\<forall>p. (p \<in> set (fd_remote_only (diff_files l r))) = (map_of l p = None \<and> map_of r p \<noteq> None))
    \<and> (\<forall>p. (p \<in> set (fd_local_only (diff_files l r))) = (map_of l p \<noteq> None \<and> map_of r p = None))"
proof -
  have k: "p \<in> fst ` set m \<longleftrightarrow> map_of m p \<noteq> None" for p and m :: file_map
    by (auto simp: map_of_eq_None_iff)
  have ss: "distinct (sorted_set xs)" "sorted (sorted_set xs)" for xs by (simp_all add: sorted_set_def)
  have m: "(p \<in> set (fd_changed (diff_files l r))) = (map_of l p \<noteq> None \<and> map_of r p \<noteq> None \<and> map_of l p \<noteq> map_of r p)"
    "(p \<in> set (fd_remote_only (diff_files l r))) = (map_of l p = None \<and> map_of r p \<noteq> None)"
    "(p \<in> set (fd_local_only (diff_files l r))) = (map_of l p \<noteq> None \<and> map_of r p = None)" for p
    by (auto simp: diff_files_def k simp del: not_None_eq)
  have "distinct (fd_changed (diff_files l r) @ fd_remote_only (diff_files l r) @ fd_local_only (diff_files l r))"
    unfolding distinct_append using m by (auto simp: diff_files_def ss simp del: set_sorted_set)
  moreover have "(map_of l p \<noteq> map_of r p) = (p \<in> set (fd_changed (diff_files l r)) \<or> p \<in> set (fd_remote_only (diff_files l r))
          \<or> p \<in> set (fd_local_only (diff_files l r)))" for p
    unfolding m by (cases "map_of l p"; cases "map_of r p") auto
  moreover have "sorted (fd_changed (diff_files l r))" "sorted (fd_remote_only (diff_files l r))" "sorted (fd_local_only (diff_files l r))"
    by (simp_all add: diff_files_def ss)
  ultimately show ?thesis using m(2,3) by blast
qed

section \<open>An adopted base is read back\<close>

lemma py_str_truthy: "truthy v \<Longrightarrow> py_str v \<noteq> []"
  by (cases v) (auto simp: py_str_def int_str_def nat_str_not_Nil)

lemma collect_by_id_ids:
  "collect_by_id es r d = Inr (r', d') \<Longrightarrow> \<forall>k \<in> fst ` set r. k \<noteq> [] \<Longrightarrow> \<forall>k \<in> fst ` set r'. k \<noteq> []"
proof (induction es arbitrary: r d)
  case (Cons e es)
  from Cons.prems(1) obtain x where x: "as_dict e = Inr x" by auto
  show ?case
  proof (cases "truthy (dget x ''skill_id'')")
    case True
    have "\<forall>k \<in> fst ` set (AList.update (py_str (dget x ''skill_id'')) x r). k \<noteq> []"
      using Cons.prems(2) py_str_truthy [OF True] by (auto simp: dom_update)
    with Cons x True show ?thesis by (auto simp: Let_def)
  next
    case False
    with Cons x show ?thesis by auto
  qed
qed simp

lemma unique_by_skill_id_ids: "unique_by_skill_id es label = Inr m \<Longrightarrow> k \<in> fst ` set m \<Longrightarrow> k \<noteq> []"
  by (auto simp: unique_by_skill_id_def split: if_splits prod.splits dest!: collect_by_id_ids)

lemma sync_items_ids:
  assumes "sync_items H w a src ovp ids = Inr (items, ovs)"
  shows "distinct (map it_skill_id items)" "\<forall>i \<in> set items. it_skill_id i \<noteq> []"
proof -
  from assms obtain l r b ov where e: "local_entries H w (sa_local_root a) src ids = Inr l" "snapshot_entries w (sa_snapshot a) = Inr r"
    "base_entries w (sa_base_record a) = Inr b" and
    m: "mapR (\<lambda>skill_id. classify_with_override H w (sa_snapshot a) skill_id (map_of b skill_id)
      (map_of l skill_id) (map_of r skill_id) (map_of ov skill_id)) (sorted_set (map fst b @ map fst l @ map fst r)) = Inr items"
    by (auto simp: sync_items_def)
  from e(1) obtain es lab where "unique_by_skill_id es lab = Inr l" by (auto simp: local_entries_def Let_def)
  moreover from e(2) obtain rs rlab where "unique_by_skill_id rs rlab = Inr r" by (auto simp: snapshot_entries_def Let_def split: if_splits)
  moreover from e(3) have "b = [] \<or> (\<exists>bs lab. unique_by_skill_id bs lab = Inr b)"
    by (auto simp: base_entries_def Let_def split: option.splits if_splits)
  ultimately have k: "k \<noteq> []" if "k \<in> fst ` set b \<union> fst ` set l \<union> fst ` set r" for k
    using that unique_by_skill_id_ids [of es lab l k] unique_by_skill_id_ids [of rs rlab r k] unique_by_skill_id_ids [of _ _ b k] by auto
  from m have l2: "list_all2 (\<lambda>s i. it_skill_id i = s) (sorted_set (map fst b @ map fst l @ map fst r)) items"
    unfolding mapR_Inr_iff by (rule list_all2_mono) (auto dest: classify_with_override_id)
  then have ids: "map it_skill_id items = sorted_set (map fst b @ map fst l @ map fst r)"
    by (induction rule: list_all2_induct) auto
  then show "distinct (map it_skill_id items)" by (simp add: sorted_set_def)
  show "\<forall>i \<in> set items. it_skill_id i \<noteq> []"
  proof
    fix i assume "i \<in> set items"
    then have "it_skill_id i \<in> set (map it_skill_id items)" by simp
    then have "it_skill_id i \<in> fst ` set b \<union> fst ` set l \<union> fst ` set r" unfolding ids by auto
    then show "it_skill_id i \<noteq> []" by (rule k)
  qed
qed

lemma update_fresh: "k \<notin> fst ` set m \<Longrightarrow> AList.update k v m = m @ [(k, v)]"
  by (induction m) auto

text \<open>Collecting entries with distinct ids that are not empty collects them all, in order.\<close>

lemma collect_fresh:
  assumes "\<forall>d \<in> set ds. \<exists>s. dget d ''skill_id'' = PStr s \<and> s \<noteq> []"
    and "distinct (map (\<lambda>d. py_str (dget d ''skill_id'')) ds)" and "fst ` set m \<inter> (\<lambda>d. py_str (dget d ''skill_id'')) ` set ds = {}"
  shows "collect_by_id (map PDict ds) m dups = Inr (m @ map (\<lambda>d. (py_str (dget d ''skill_id''), d)) ds, dups)"
  using assms
proof (induction ds arbitrary: m)
  case (Cons d ds)
  then obtain s where s: "dget d ''skill_id'' = PStr s" "s \<noteq> []" "s \<notin> fst ` set m" by auto
  have "fst ` set (m @ [(s, d)]) \<inter> (\<lambda>d. py_str (dget d ''skill_id'')) ` set ds = {}"
    using Cons.prems(2,3) s by auto
  from Cons.IH [OF _ _ this] Cons.prems s show ?case by (auto simp: update_fresh Let_def)
qed simp

lemma base_entries_of_record:
  assumes "at w p = Some (NFile (Json (PDict rec)))" "dget_or rec ''applied'' (PList []) = PList (map PDict ds)"
    and "\<forall>d \<in> set ds. (\<exists>s. dget d ''skill_id'' = PStr s \<and> s \<noteq> []) \<and> truthy (dget d ''content_hash'')"
    and "distinct (map (\<lambda>d. py_str (dget d ''skill_id'')) ds)"
  shows "base_entries w (Some p) = Inr (map (\<lambda>d. (py_str (dget d ''skill_id''),
     [(''skill_id'', dget d ''skill_id''), (''content_hash'', dget d ''content_hash'')])) ds)"
proof -
  let ?es = "map (\<lambda>d. [(''skill_id'', dget d ''skill_id''), (''content_hash'', dget d ''content_hash'')]) ds"
  have f: "filter (\<lambda>d. truthy (dget d ''content_hash'')) ds = ds" using assms(3) by simp
  have m: "mapR as_dict (map PDict ds) = Inr ds" by (auto simp: mapR_Inr_iff list_all2_conv_all_nth)
  have "collect_by_id (map PDict ?es) [] [] = Inr ([] @ map (\<lambda>d. (py_str (dget d ''skill_id''), d)) ?es, [])"
    by (rule collect_fresh) (use assms(3,4) in \<open>auto simp: comp_def\<close>)
  then have u: "unique_by_skill_id (map PDict ?es) l = Inr (map (\<lambda>d. (py_str (dget d ''skill_id''), d)) ?es)" for l
    by (simp add: unique_by_skill_id_def)
  have "fst (read_json p w) = Inr (PDict rec)"
    by (simp add: read_json_def read_data_def assms(1) bindI_def liftI_def json_loads_def)
  then have "base_entries w (Some p) = unique_by_skill_id (map PDict ?es) ''base''"
    by (simp add: base_entries_def exists_def assms(1,2) py_iter_def m Let_def f comp_def del: bindR_Inr_iff)
  also note u
  finally show ?thesis by (simp add: comp_def)
qed

text \<open>C37: an adopted base is read back as the base of the next synchronisation: after an adoption the record
  holds every skill of the status with the hash both sides have, and with it every skill whose sides have
  not changed classifies as unchanged.\<close>

theorem adopted_base_is_read_back:
  assumes "execute_base_adoption H a out remote_prefix sync_id now w = (Inr result, w')"
    and "clean out" and "out \<noteq> []"
  shows "\<exists>items overrides base. sync_items H w a ''local'' None [] = Inr (items, overrides)
    \<and> base_entries w' (Some out) = Inr base \<and> map fst base = map it_skill_id items
    \<and> (\<forall>i \<in> set items. it_local_hash i \<noteq> None \<and> it_local_hash i = it_remote_hash i
        \<and> entry_hash (map_of base (it_skill_id i)) = it_local_hash i
        \<and> it_action (classify_hashes (it_skill_id i) (entry_hash (map_of base (it_skill_id i))) (it_local_hash i) (it_remote_hash i)) = ''unchanged'')"
proof -
  from assms(1) obtain items ovs index w1 w2 where
    i: "sync_items H w a ''local'' None [] = Inr (items, ovs)" "\<forall>i \<in> set items. adoptable i" and
    wr: "write_data (adoption_temp out) (Json (PDict (adoption_record a remote_prefix sync_id now index
        (adoption_preview a items (status_dict a items ovs))))) w1 = (Inr (), w2)" and
    mv: "replace_path (adoption_temp out) out w2 = (Inr (), w')"
    by (auto simp: execute_base_adoption_def build_base_adoption_preview_def io_Inr adoption_preview_def Let_def filter_empty_conv split: if_splits)
  let ?rec = "adoption_record a remote_prefix sync_id now index (adoption_preview a items (status_dict a items ovs))"
  have n: "path_name out @ ''.tmp'' \<noteq> last out" "path_name out @ ''.tmp'' \<noteq> ''..''" using assms(3) by (simp_all add: path_name_def)
  then have t: "clean (adoption_temp out)" "apart (adoption_temp out) out"
    using assms(2,3) apart_siblings [OF n(1), of "butlast out"] by (simp_all add: adoption_temp_def path_parent_def clean_butlast)
  from write_data_Inr [OF t(1) wr] replace_path_Inr(1) [OF t(1) assms(2) t(2) mv]
  have f: "at w' out = Some (NFile (Json (PDict ?rec)))" using assms(2) by (simp add: at_clean)
  have fa: "filter adoptable items = items" using i(2) by (simp add: filter_id_conv)
  have ap: "dget_or ?rec ''applied'' (PList []) = PList (map PDict (map adoption_entry items))"
    by (simp add: adoption_record_def adoption_preview_def Let_def fa)
  let ?base = "map (\<lambda>i. (it_skill_id i, [(''skill_id'', PStr (it_skill_id i)), (''content_hash'', opt_str (it_local_hash i))])) items"
  have t: "\<forall>i \<in> set items. truthy (opt_str (it_local_hash i))" using i(2) by (metis adoptable_def)
  have b: "base_entries w' (Some out) = Inr ?base"
    using base_entries_of_record [OF f ap] sync_items_ids [OF i(1)] t by (simp add: adoption_entry_def comp_def del: truthy_opt_str)
  have mb: "map_of ?base (it_skill_id i) = Some [(''skill_id'', PStr (it_skill_id i)), (''content_hash'', opt_str (it_local_hash i))]"
    if "i \<in> set items" for i
    using that sync_items_ids(1) [OF i(1)] by (intro map_of_is_SomeI) (auto simp: comp_def)
  have "it_local_hash j \<noteq> None \<and> it_local_hash j = it_remote_hash j
        \<and> entry_hash (map_of ?base (it_skill_id j)) = it_local_hash j
        \<and> it_action (classify_hashes (it_skill_id j) (entry_hash (map_of ?base (it_skill_id j))) (it_local_hash j) (it_remote_hash j)) = ''unchanged''"
    if j: "j \<in> set items" for j
  proof -
    from i(2) j obtain h where h: "it_local_hash j = Some h" "h \<noteq> []" "it_remote_hash j = Some h" by (auto simp: adoptable_def)
    have "entry_hash (map_of ?base (it_skill_id j)) = Some h" unfolding mb [OF j] h(1) using h(2) by (simp add: entry_hash_def opt_str_def)
    with h show ?thesis by (simp add: classify_hashes_def state_item_def)
  qed
  moreover have "map fst ?base = map it_skill_id items" by (simp add: comp_def)
  ultimately show ?thesis using i(1) b by blast
qed

section \<open>Examples\<close>


text \<open>A device and a central index that agree on one skill.\<close>

definition agreed_hash :: string where
  "agreed_hash = ''SKILL.md'' @ [CHR 0x00] @ ''0'' @ [CHR 0x00, CHR 0x00]"

definition adopt_world :: world where
  "adopt_world = \<lparr>w_tree = NDir [(''l'', NDir [(''demo-skill'', tiny_skill_node)]),
      (''c'', NDir [(''index.json'', NFile (Json (PDict [(''skills'',
          PList [PDict [(''skill_id'', PStr ''demo-skill''), (''content_hash'', PStr agreed_hash)]])])))])], w_fault = None\<rparr>"

theorem adopted_base_is_read_back_witness:
  "\<exists>r w' base. execute_base_adoption raw_host push_args [''b.json''] [] ''y'' ''now'' adopt_world = (Inr r, w')
     \<and> base_entries w' (Some [''b.json'']) = Inr base \<and> map fst base = [''demo-skill'']"
proof -
  let ?x = "execute_base_adoption raw_host push_args [''b.json''] [] ''y'' ''now'' adopt_world"
  have "case ?x of (r, w') \<Rightarrow> (case r of Inl e \<Rightarrow> False | Inr x \<Rightarrow> True)" by code_simp
  then obtain r w' where x: "?x = (Inr r, w')" by (auto split: prod.splits sum.splits)
  have c: "clean [''b.json'']" "[''b.json''] \<noteq> []" by code_simp+
  have "case sync_items raw_host adopt_world push_args ''local'' None [] of Inl e \<Rightarrow> False | Inr (items, ovs) \<Rightarrow> map it_skill_id items = [''demo-skill'']"
    by code_simp
  then obtain items ovs where i: "sync_items raw_host adopt_world push_args ''local'' None [] = Inr (items, ovs)" "map it_skill_id items = [''demo-skill'']"
    by (auto split: sum.splits)
  from adopted_base_is_read_back [OF x c] i x show ?thesis by auto
qed

end
