(* ===== verification/OpsStatus.thy ===== *)
theory OpsStatus
  imports Reconcile Regions "HOL-Library.Product_Lexorder"
begin

text \<open>
  \<open>openclaw_gate.py\<close> and \<open>ops_status.py\<close>: what an operator is shown. The gate reads the latest
  reconcile report and lists what stands against going on; the status puts the plan, the artifacts and the
  gate together into one of three colours.
\<close>

section \<open>Reading artifacts\<close>

text \<open>An artifact that cannot be read is described, not raised.\<close>

definition load_json_file :: "world \<Rightarrow> path \<Rightarrow> string + pydict" where
  "load_json_file w p =
     (if \<not> exists w p then Inl (''not found: '' @ path_str p)
      else case fst (read_json p w) of
          Inl e \<Rightarrow> Inl (if exn_kind e = JSONDecodeError then ''invalid json: '' @ exn_text e else exn_text e)
        | Inr v \<Rightarrow> (case v of PDict d \<Rightarrow> Inr d | _ \<Rightarrow> Inl ''json root is not an object''))"

section \<open>The gate\<close>

definition report_sort_key :: "world \<Rightarrow> (path \<Rightarrow> int) \<Rightarrow> path \<Rightarrow> string \<times> int \<times> string" where
  "report_sort_key w mtime p =
     (case load_json_file w p of Inl e \<Rightarrow> [] | Inr report \<Rightarrow> py_str (por (dget report ''created_at'') (PStr [])), mtime p, path_str p)"

definition later_report :: "world \<Rightarrow> (path \<Rightarrow> int) \<Rightarrow> path \<Rightarrow> path \<Rightarrow> path" where
  "later_report w mtime p best = (if report_sort_key w mtime best < report_sort_key w mtime p then p else best)"

definition report_candidates :: "world \<Rightarrow> path \<Rightarrow> path list" where
  "report_candidates w root = (case at w root of None \<Rightarrow> []
     | Some n \<Rightarrow> map (\<lambda>p. root @ p) (filter (\<lambda>p. p \<noteq> [] \<and> last p = ''reconcile-report.json'') (tree_files [] n)))"

definition select_latest_reconcile_report :: "world \<Rightarrow> (path \<Rightarrow> int) \<Rightarrow> path \<Rightarrow> path option" where
  "select_latest_reconcile_report w mtime root =
     (case report_candidates w root of [] \<Rightarrow> None | p # ps \<Rightarrow> Some (fold (later_report w mtime) ps p))"

text \<open>\<open>int(summary.get(k, 0) or 0)\<close>.\<close>

definition summary_count :: "pydict \<Rightarrow> string \<Rightarrow> int res" where
  "summary_count summary k = py_int (por (dget_or summary k (PInt 0)) (PInt 0))"

definition count_blocker :: "string \<Rightarrow> int \<Rightarrow> string list" where
  "count_blocker k n = (if n \<noteq> 0 then [k @ ''='' @ int_str n] else [])"

definition gate_blockers :: "pydict \<Rightarrow> pydict \<Rightarrow> pyval \<Rightarrow> bool \<Rightarrow> string list res" where
  "gate_blockers report summary changed_count require_complete =
     bindR (summary_count summary ''conflict'') (\<lambda>conflicts.
     bindR (summary_count summary ''local_new'') (\<lambda>local_new.
     bindR (if require_complete then summary_count summary ''remote_new'' else Inr 0) (\<lambda>remote_new.
       Inr ((if truthy (dget report ''safe_to_auto_apply'') then [] else [''safe_to_auto_apply=false''])
         @ count_blocker ''conflict'' conflicts @ count_blocker ''local_new'' local_new
         @ (if truthy changed_count then [''changed_since_previous='' @ py_str changed_count] else [])
         @ count_blocker ''remote_new'' remote_new))))"

definition gate_result :: "pydict \<Rightarrow> path \<Rightarrow> string \<Rightarrow> bool \<Rightarrow> pydict res" where
  "gate_result report p selected_by require_complete =
     (let summary = dict_or_empty (dget report ''summary''); changed = dget report ''changed_since_previous'';
          changed_count = (case changed of PDict d \<Rightarrow> dget d ''changed_count'' | _ \<Rightarrow> PNone) in
      bindR (gate_blockers report summary changed_count require_complete) (\<lambda>blockers.
        Inr [(''ok'', PBool (blockers = [])), (''available'', PBool True), (''require_complete'', PBool require_complete),
          (''path'', PStr (path_str p)), (''selected_by'', PStr selected_by), (''label'', dget report ''label''),
          (''created_at'', dget report ''created_at''), (''local_total'', dget report ''local_total''),
          (''remote_total'', dget report ''remote_total''), (''safe_to_auto_apply'', dget report ''safe_to_auto_apply''),
          (''summary'', PDict summary), (''changed_since_previous'', changed), (''changed_count'', changed_count),
          (''blockers'', strs blockers)]))"

definition build_openclaw_gate :: "world \<Rightarrow> (path \<Rightarrow> int) \<Rightarrow> path option \<Rightarrow> path option \<Rightarrow> bool \<Rightarrow> pydict res" where
  "build_openclaw_gate w mtime report_path report_root require_complete =
     (let chosen = (case report_path of Some p \<Rightarrow> Some (p, ''explicit'')
        | None \<Rightarrow> map_option (\<lambda>p. (p, ''latest'')) (case report_root of None \<Rightarrow> None | Some root \<Rightarrow> select_latest_reconcile_report w mtime root)) in
      case chosen of
        None \<Rightarrow> Inr [(''ok'', PBool True), (''available'', PBool False), (''reason'', PStr ''no OpenClaw reconcile report found'')]
      | Some (p, selected_by) \<Rightarrow>
          (case load_json_file w p of
             Inl e \<Rightarrow> Inr [(''ok'', PBool False), (''available'', PBool False), (''path'', PStr (path_str p)), (''error'', PStr e)]
           | Inr report \<Rightarrow> gate_result report p selected_by require_complete))"

definition render_openclaw_gate_text :: "pydict \<Rightarrow> string" where
  "render_openclaw_gate_text gate =
     (let f = (\<lambda>k. py_str (dget gate k)); blockers = list_or_empty (dget gate ''blockers'') in
      if \<not> truthy (dget gate ''available'') then
        ''openclaw_gate: unavailable ('' @ (if truthy (dget gate ''error'') then f ''error'' else f ''reason'') @ '')''
      else join_str newline
        ([''openclaw_gate: ok='' @ f ''ok'' @ '' safe_to_auto_apply='' @ f ''safe_to_auto_apply'',
          ''require_complete: '' @ py_str (dget_or gate ''require_complete'' (PBool False)), ''report: '' @ f ''path'',
          ''summary: '' @ f ''summary'', ''changed_since_previous: '' @ f ''changed_count'']
         @ (if blockers = [] then [] else [''blockers: '' @ join_str '', '' (map py_str blockers)])))"

section \<open>Sections of the status\<close>

definition artifact :: "path \<Rightarrow> string + pydict \<Rightarrow> (pydict \<Rightarrow> pydict res) \<Rightarrow> pydict res" where
  "artifact p loaded details = (case loaded of
      Inl e \<Rightarrow> Inr [(''ok'', PBool False), (''path'', PStr (path_str p)), (''error'', PStr e)]
    | Inr d \<Rightarrow> bindR (details d) (\<lambda>m. Inr ([(''ok'', PBool True), (''path'', PStr (path_str p))] @ m)))"

definition copy_fields :: "pydict \<Rightarrow> string list \<Rightarrow> pydict" where
  "copy_fields d ks = map (\<lambda>k. (k, dget d k)) ks"

definition snapshot_summary :: "world \<Rightarrow> path \<Rightarrow> pydict res" where
  "snapshot_summary w snapshot_dir = artifact snapshot_dir (load_json_file w (snapshot_dir @ [''index.json''])) (\<lambda>index.
     bindR (py_len (dget_or index ''skills'' (PList []))) (\<lambda>n.
       Inr [(''snapshot_id'', dget index ''snapshot_id''), (''created_at'', dget index ''created_at''),
            (''total'', dget_or index ''total'' (PInt n)), (''protocol_version'', dget index ''protocol_version'')]))"

definition base_record_summary :: "world \<Rightarrow> path option \<Rightarrow> pydict option res" where
  "base_record_summary w record_path = (case record_path of None \<Rightarrow> Inr None
     | Some p \<Rightarrow> map_sum (\<lambda>e. e) Some (artifact p (load_json_file w p) (\<lambda>r.
         Inr (copy_fields r [''record_type'', ''sync_id'', ''snapshot_id'', ''created_at'']
           @ [(''applied_count'', PInt (int (length (list_or_empty (dget_or r ''applied'' (PList []))))))]))))"

definition blocked_summary_item :: "pydict \<Rightarrow> pydict" where
  "blocked_summary_item item =
     copy_fields item [''skill_id'', ''category'', ''status_action'', ''plan_action'', ''reason'', ''recommendation'']"

definition blocked_report_summary :: "world \<Rightarrow> path option \<Rightarrow> pydict option res" where
  "blocked_report_summary w report_path = (case report_path of None \<Rightarrow> Inr None
     | Some p \<Rightarrow> map_sum (\<lambda>e. e) Some (artifact p (load_json_file w p) (\<lambda>r.
         let items = map blocked_summary_item (only_dicts (list_or_empty (dget r ''items''))) in
         Inr (copy_fields r [''record_type'', ''created_at'', ''writer_policy'']
           @ [(''total'', dget_or r ''total'' (PInt (int (length items)))), (''summary'', dget_or r ''summary'' (PDict [])),
              (''items'', PList (map PDict items))]))))"

definition daemon_state_summary :: "world \<Rightarrow> path option \<Rightarrow> pydict option res" where
  "daemon_state_summary w state_file = (case state_file of None \<Rightarrow> Inr None
     | Some p \<Rightarrow> map_sum (\<lambda>e. e) Some (artifact p (load_json_file w p) (\<lambda>s.
         let cycles = list_or_empty (dget s ''cycles'') in
         Inr (copy_fields s [''status'', ''daemon_status'', ''updated_at'', ''cycles_run'', ''current_base_record'', ''target'',
                ''writer_policy'', ''interval_seconds'', ''stop_on_blocked'']
           @ [(''last_cycle'', if cycles = [] then PNone else last cycles), (''active_cycle'', dget s ''active_cycle'')]))))"

definition reconcile_summary :: "world \<Rightarrow> path \<Rightarrow> pydict res" where
  "reconcile_summary w p = artifact p (load_json_file w p) (\<lambda>r.
     Inr (copy_fields r [''label'', ''local_total'', ''remote_total'', ''safe_to_auto_apply'']
       @ [(''summary'', dget_or r ''summary'' (PDict [])), (''changed_since_previous'', dget r ''changed_since_previous'')]))"

text \<open>Only the errors of the status itself are described; any other exception leaves.\<close>

definition sync_plan_summary :: "host \<Rightarrow> world \<Rightarrow> sync_args \<Rightarrow> bool \<Rightarrow> bool \<Rightarrow> string \<Rightarrow> pydict res" where
  "sync_plan_summary H w a allow_new allow_delete writer_policy =
     (case bindR (build_sync_status H w a ''local'' None []) (\<lambda>status.
           bindR (build_sync_plan status allow_new allow_delete writer_policy) (\<lambda>plan. Inr (status, plan))) of
        Inl e \<Rightarrow> (if exn_kind e \<in> set [SyncStateError, ValueError, JSONDecodeError]
           then Inr [(''ok'', PBool False), (''error'', PStr (exn_text e))] else Inl e)
      | Inr (status, plan) \<Rightarrow> bindR (enrich_blocked_items plan writer_policy) (\<lambda>blocked_items.
           Inr ([(''ok'', PBool True)] @ copy_fields plan [''writer_policy'', ''total'', ''summary'', ''allowed'', ''blocked'']
             @ [(''blocked_items'', PList (map PDict blocked_items)), (''safe_to_apply'', dget plan ''safe_to_apply''),
                (''status_summary'', dget status ''summary''), (''local_overrides'', dget status ''local_overrides''),
                (''has_conflicts'', dget status ''has_conflicts'')])))"

section \<open>The colour\<close>

definition int_field :: "pydict \<Rightarrow> string \<Rightarrow> int" where
  "int_field d k = (case dget d k of PInt n \<Rightarrow> n | PBool b \<Rightarrow> (if b then 1 else 0) | _ \<Rightarrow> 0)"

definition ops_health :: "nat \<Rightarrow> pydict \<Rightarrow> pydict option \<Rightarrow> bool \<Rightarrow> string" where
  "ops_health error_count plan blocked_report gate_blocked =
     (if error_count \<noteq> 0 then ''red''
      else if plan \<noteq> [] \<and> dget plan ''ok'' = PBool False then ''red''
      else if (case blocked_report of None \<Rightarrow> False | Some r \<Rightarrow> r \<noteq> [] \<and> dget r ''ok'' = PBool False) then ''red''
      else if int_field plan ''blocked'' + (case blocked_report of None \<Rightarrow> 0 | Some r \<Rightarrow> int_field r ''total'') \<noteq> 0 \<or> gate_blocked
      then ''yellow'' else ''green'')"

definition section_fails :: "pydict option \<Rightarrow> bool" where
  "section_fails s = (case s of None \<Rightarrow> False | Some d \<Rightarrow> \<not> truthy (dget d ''ok''))"

definition gate_blocked :: "pydict \<Rightarrow> bool" where
  "gate_blocked gate = (truthy (dget_or gate ''available'' (PBool False)) \<and> \<not> truthy (dget_or gate ''ok'' (PBool True)))"

definition gate_error :: "pydict \<Rightarrow> bool" where
  "gate_error gate = (\<not> truthy (dget_or gate ''available'' (PBool False)) \<and> truthy (dget gate ''error''))"

text \<open>The files the status reads.\<close>

record ops_args =
  oa_sync :: sync_args
  oa_state_file :: "path option"
  oa_blocked_report :: "path option"
  oa_reconcile_report :: "path option"
  oa_reconcile_root :: "path option"
  oa_allow_new :: bool
  oa_allow_delete :: bool
  oa_policy :: string

definition opt_section :: "pydict option \<Rightarrow> pyval" where
  "opt_section s = (case s of None \<Rightarrow> PNone | Some d \<Rightarrow> PDict d)"

definition build_ops_status :: "host \<Rightarrow> world \<Rightarrow> (path \<Rightarrow> int) \<Rightarrow> ops_args \<Rightarrow> pydict res" where
  "build_ops_status H w mtime args =
     bindR (sync_plan_summary H w (oa_sync args) (oa_allow_new args) (oa_allow_delete args) (oa_policy args)) (\<lambda>plan.
     bindR (blocked_report_summary w (oa_blocked_report args)) (\<lambda>blocked.
     bindR (build_openclaw_gate w mtime (oa_reconcile_report args) (oa_reconcile_root args) False) (\<lambda>gate.
     bindR (snapshot_summary w (sa_snapshot (oa_sync args))) (\<lambda>snapshot.
     bindR (base_record_summary w (sa_base_record (oa_sync args))) (\<lambda>base.
     bindR (daemon_state_summary w (oa_state_file args)) (\<lambda>daemon_state.
     bindR (if truthy (dget gate ''available'')
            then map_sum (\<lambda>e. e) Some (reconcile_summary w (path_of (py_str (dget gate ''path'')))) else Inr None) (\<lambda>reconcile.
       let error_count = length (filter section_fails [Some snapshot, base, daemon_state, blocked, Some plan])
             + (if gate_error gate then 1 else 0);
           health = ops_health error_count plan blocked (gate_blocked gate) in
       Inr [(''ok'', PBool (health = ''green'')), (''health'', PStr health),
         (''local_root'', PStr (path_str (norm_path (sa_local_root (oa_sync args))))), (''remote_snapshot'', PDict snapshot),
         (''base_record'', opt_section base), (''daemon_state'', opt_section daemon_state), (''blocked_report'', opt_section blocked),
         (''sync_plan'', PDict plan), (''openclaw_reconcile'', opt_section reconcile), (''openclaw_gate'', PDict gate),
         (''allow_new'', PBool (oa_allow_new args)), (''allow_delete'', PBool (oa_allow_delete args)), (''writer_policy'', PStr (oa_policy args)),
         (''error_count'', PInt (int error_count))])))))))"

section \<open>The text\<close>

definition field_text :: "pydict \<Rightarrow> string \<Rightarrow> string" where
  "field_text d k = py_str (dget d k)"

definition render_unavailable :: "string \<Rightarrow> pydict \<Rightarrow> string list" where
  "render_unavailable name d = [name @ '': unavailable ('' @ field_text d ''error'' @ '')'']"

definition render_snapshot :: "pydict \<Rightarrow> string list" where
  "render_snapshot s = (if s = [] then [] else if \<not> truthy (dget s ''ok'') then render_unavailable ''remote_snapshot'' s
     else [''remote_snapshot: '' @ field_text s ''snapshot_id'' @ '' total='' @ field_text s ''total'',
           ''remote_created_at: '' @ field_text s ''created_at''])"

definition render_base_record :: "pydict option \<Rightarrow> string list" where
  "render_base_record b = (case b of None \<Rightarrow> [''base_record: none'']
     | Some r \<Rightarrow> (if \<not> truthy (dget r ''ok'') then render_unavailable ''base_record'' r
         else [''base_record: '' @ py_str (por (dget r ''sync_id'') (dget r ''record_type'')) @ '' applied='' @ field_text r ''applied_count'',
               ''base_snapshot: '' @ field_text r ''snapshot_id'']))"

definition render_daemon_state :: "pydict option \<Rightarrow> string list" where
  "render_daemon_state b = (case b of None \<Rightarrow> [''daemon_state: none'']
     | Some s \<Rightarrow> (if \<not> truthy (dget s ''ok'') then render_unavailable ''daemon_state'' s
         else [''daemon_state: '' @ field_text s ''daemon_status'' @ '' cycles_run='' @ field_text s ''cycles_run'',
               ''daemon_updated_at: '' @ field_text s ''updated_at'']
           @ (case dget s ''last_cycle'' of PDict c \<Rightarrow>
                [''last_cycle: '' @ field_text c ''status'' @ '' snapshot='' @ field_text c ''snapshot_id'' @ '' blocked='' @ field_text c ''blocked''
                   @ '' summary='' @ field_text c ''summary''] | _ \<Rightarrow> [])))"

definition render_blocked_report :: "pydict option \<Rightarrow> string list" where
  "render_blocked_report b = (case b of None \<Rightarrow> [''blocked_report: none'']
     | Some r \<Rightarrow> (if \<not> truthy (dget r ''ok'') then render_unavailable ''blocked_report'' r
         else [''blocked_report: total='' @ field_text r ''total'' @ '' writer_policy='' @ field_text r ''writer_policy'',
               ''blocked_summary: '' @ field_text r ''summary'']
           @ map (\<lambda>i. ''blocked_item: '' @ field_text i ''skill_id'' @ '' category='' @ field_text i ''category'' @ '' status='' @ field_text i ''status_action''
               @ '' plan='' @ field_text i ''plan_action'' @ '' reason='' @ field_text i ''reason'') (only_dicts (list_or_empty (dget r ''items'')))))"

definition render_sync_plan :: "pydict \<Rightarrow> string list" where
  "render_sync_plan p = (if p = [] then [] else if \<not> truthy (dget p ''ok'') then render_unavailable ''sync_plan'' p
     else [''sync_plan: safe_to_apply='' @ field_text p ''safe_to_apply'' @ '' blocked='' @ field_text p ''blocked'' @ '' allowed='' @ field_text p ''allowed'',
           ''writer_policy: '' @ field_text p ''writer_policy'', ''sync_summary: '' @ field_text p ''summary'',
           ''status_summary: '' @ field_text p ''status_summary'', ''local_overrides: '' @ field_text p ''local_overrides''])"

definition render_reconcile :: "pydict option \<Rightarrow> string list" where
  "render_reconcile b = (case b of None \<Rightarrow> [''openclaw_reconcile: none'']
     | Some r \<Rightarrow> (if \<not> truthy (dget r ''ok'') then render_unavailable ''openclaw_reconcile'' r
         else [''openclaw_reconcile: safe_to_auto_apply='' @ field_text r ''safe_to_auto_apply'' @ '' local='' @ field_text r ''local_total''
                 @ '' remote='' @ field_text r ''remote_total'',
               ''openclaw_summary: '' @ field_text r ''summary'',
               ''openclaw_changed_since_previous: '' @ py_str (case dget r ''changed_since_previous'' of PDict c \<Rightarrow> dget c ''changed_count'' | _ \<Rightarrow> PNone)]))"

definition render_openclaw_gate :: "pydict \<Rightarrow> string list" where
  "render_openclaw_gate g = (if g = [] then [] else if \<not> truthy (dget g ''available'')
     then [''openclaw_gate: unavailable ('' @ py_str (por (dget g ''reason'') (dget g ''error'')) @ '')'']
     else [''openclaw_gate: ok='' @ field_text g ''ok'' @ '' blockers='' @ field_text g ''blockers'']
       @ (if truthy (dget g ''selected_by'') then [''openclaw_report_selected_by: '' @ field_text g ''selected_by''] else []))"

definition opt_of :: "pyval \<Rightarrow> pydict option" where
  "opt_of v = (case v of PDict d \<Rightarrow> Some d | _ \<Rightarrow> None)"

definition render_ops_status_text :: "pydict \<Rightarrow> string" where
  "render_ops_status_text status =
     join_str newline ([''skill-sync ops status'', ''health: '' @ py_str (dget_or status ''health'' (PStr ''unknown'')),
         ''local_root: '' @ field_text status ''local_root'']
       @ render_snapshot (dict_or_empty (dget status ''remote_snapshot'')) @ render_base_record (opt_of (dget status ''base_record''))
       @ render_daemon_state (opt_of (dget status ''daemon_state'')) @ render_blocked_report (opt_of (dget status ''blocked_report''))
       @ render_sync_plan (dict_or_empty (dget status ''sync_plan'')) @ render_reconcile (opt_of (dget status ''openclaw_reconcile''))
       @ render_openclaw_gate (dict_or_empty (dget status ''openclaw_gate'')) @ [''overall_ok: '' @ field_text status ''ok''])"

section \<open>What the gate and the colour say\<close>

lemma summary_count_of_tally:
  "summary_count (dict_or_empty (counts (sort_items (tally ks)))) k = Inr (int (count_list ks k))"
proof -
  have "map_of (map (\<lambda>(k, n). (k, PInt (int n))) c) k = map_option (\<lambda>n. PInt (int n)) (map_of c k)" for c
    by (induction c) auto
  then show ?thesis
    by (simp add: summary_count_def dget_or_def counts_def dict_or_empty_def map_of_sort_items map_of_tally por_def py_int_def
        count_list_0_iff)
qed

lemma count_status_0: "count_list (map rc_status items) s = 0 \<longleftrightarrow> (\<forall>i \<in> set items. rc_status i \<noteq> s)"
  by (auto simp: count_list_0_iff)

lemma status_count_0: "status_count s items = 0 \<longleftrightarrow> (\<forall>i \<in> set items. rc_status i \<noteq> s)"
  by (auto simp: status_count_def filter_empty_conv)

lemma count_blocker_Nil [simp]: "count_blocker k n = [] \<longleftrightarrow> n = 0"
  by (simp add: count_blocker_def)

lemma changed_count_0:
  "truthy (dget (changed_since_previous p c) ''changed_count'') \<longleftrightarrow> dget (changed_since_previous p c) ''changed'' \<noteq> PList []"
  by (simp add: changed_since_previous_def Let_def strs_def)

text \<open>What the gate makes of a report of this program.\<close>

lemma gate_of_report:
  assumes r: "report = reconcile_report label now locals remotes items changed"
    and c: "\<And>d. changed = Some d \<Longrightarrow> \<exists>p c. d = changed_since_previous p c"
  shows "\<exists>gate. gate_result report p selected_by require_complete = Inr gate \<and> truthy (dget gate ''available'')
    \<and> (dget gate ''ok'' = PBool True) =
        ((\<forall>i \<in> set items. rc_status i \<noteq> ''conflict'' \<and> rc_status i \<noteq> ''local_new'' \<and> (require_complete \<longrightarrow> rc_status i \<noteq> ''remote_new''))
         \<and> (\<forall>d. changed = Some d \<longrightarrow> dget d ''changed'' = PList []))"
proof -
  let ?cc = "case dget report ''changed_since_previous'' of PDict d \<Rightarrow> dget d ''changed_count'' | _ \<Rightarrow> PNone"
  let ?sum = "dict_or_empty (dget report ''summary'')"
  have f: "dget report ''summary'' = counts (sort_items (tally (map rc_status items)))"
    "truthy (dget report ''safe_to_auto_apply'') \<longleftrightarrow> status_count ''conflict'' items = 0 \<and> status_count ''local_new'' items = 0"
    "dget report ''changed_since_previous'' = (case changed of None \<Rightarrow> PNone | Some d \<Rightarrow> PDict d)"
    by (simp_all add: r reconcile_report_def)
  have cc: "truthy ?cc \<longleftrightarrow> (\<exists>d. changed = Some d \<and> dget d ''changed'' \<noteq> PList [])"
    unfolding f(3) using c changed_count_0 by (cases changed) auto
  have n: "summary_count ?sum k = Inr (int (count_list (map rc_status items) k))" for k
    unfolding f(1) by (rule summary_count_of_tally)
  obtain bs where bs: "gate_blockers report ?sum ?cc require_complete = Inr bs" and
    b: "bs = [] \<longleftrightarrow> (status_count ''conflict'' items = 0 \<and> status_count ''local_new'' items = 0)
      \<and> count_list (map rc_status items) ''conflict'' = 0 \<and> count_list (map rc_status items) ''local_new'' = 0 \<and> \<not> truthy ?cc
      \<and> (require_complete \<longrightarrow> count_list (map rc_status items) ''remote_new'' = 0)"
    by (cases require_complete) (simp_all add: gate_blockers_def n f(2))
  show ?thesis
    using bs b by (auto simp: gate_result_def Let_def cc status_count_0 count_status_0)
qed

text \<open>the gate opens exactly for a clean report: of a report that was built and written here, read back from
  its file, the gate has no blocker exactly when no skill conflicts or exists only on the device, with the
  complete requirement none exists only on the remote, and no skill changed since the previous inventory.\<close>

theorem gate_opens_exactly_for_a_clean_report:
  assumes "build_reconcile_report w0 inventory snapshot_dir previous label now = Inr report"
    and "write_reconcile_outputs report out w = (Inr paths, w')" and "clean out"
  shows "\<exists>items gate. dget report ''items'' = PList (map (PDict \<circ> reconcile_item_dict) items)
    \<and> build_openclaw_gate w' mtime (Some (out @ [''reconcile-report.json''])) root require_complete = Inr gate
    \<and> truthy (dget gate ''available'')
    \<and> (dget gate ''ok'' = PBool True) =
        ((\<forall>i \<in> set items. rc_status i \<noteq> ''conflict'' \<and> rc_status i \<noteq> ''local_new'' \<and> (require_complete \<longrightarrow> rc_status i \<noteq> ''remote_new''))
         \<and> (\<forall>d. dget report ''changed_since_previous'' = PDict d \<longrightarrow> dget d ''changed'' = PList []))"
proof -
  let ?j = "out @ [''reconcile-report.json'']" and ?m = "out @ [''reconcile-report.md'']"
  from assms(1) obtain items locals remotes pe ls where r: "report = reconcile_report label now locals remotes items
      (if pe \<noteq> [] then Some (changed_since_previous pe ls) else None)" (is "_ = reconcile_report _ _ _ _ _ ?changed")
    by (cases "exists w0 (snapshot_dir @ [''index.json''])") (auto simp: build_reconcile_report_def split del: if_split)
  have c: "?changed = Some d \<Longrightarrow> \<exists>p c. d = changed_since_previous p c" for d by (auto split: if_splits)
  from assms(2) obtain w1 w2 where
    wr: "write_data ?j (Json (PDict report)) w1 = (Inr (), w2)" "write_data ?m (Raw (render_reconcile_markdown report)) w2 = (Inr (), w')"
    by (auto simp: write_reconcile_outputs_def io_Inr)
  have cl: "clean ?j" "clean ?m" "apart ?m ?j" using assms(3) by (simp_all add: apart_siblings)
  have "lookup (w_tree w') ?j = Some (NFile (Json (PDict report)))"
    using only_under_run [OF only_under_write_data wr(2), of ?m ?j] write_data_Inr [OF cl(1) wr(1)] cl by simp
  then have l: "load_json_file w' ?j = Inr report"
    using cl(1) by (simp add: load_json_file_def exists_def at_clean read_json_def read_data_def bindI_def liftI_def json_loads_def)
  from gate_of_report [OF r c, of ?j "''explicit''" require_complete] obtain gate where
    "gate_result report ?j ''explicit'' require_complete = Inr gate" "truthy (dget gate ''available'')"
    "(dget gate ''ok'' = PBool True) =
        ((\<forall>i \<in> set items. rc_status i \<noteq> ''conflict'' \<and> rc_status i \<noteq> ''local_new'' \<and> (require_complete \<longrightarrow> rc_status i \<noteq> ''remote_new''))
         \<and> (\<forall>d. ?changed = Some d \<longrightarrow> dget d ''changed'' = PList []))" by blast
  moreover have "dget report ''items'' = PList (map (PDict \<circ> reconcile_item_dict) items)"
    "(dget report ''changed_since_previous'' = PDict d) = (?changed = Some d)" for d
    by (simp_all add: r reconcile_report_def)
  ultimately show ?thesis by (intro exI [of _ items] exI [of _ gate]) (simp add: build_openclaw_gate_def l)
qed

section \<open>Green\<close>

lemma artifact_fails:
  "artifact p loaded details = Inr d \<Longrightarrow> section_fails (Some d) = (\<exists>e. loaded = Inl e)"
  by (auto simp: artifact_def section_fails_def split: sum.splits)

lemma opt_artifact_fails:
  assumes "(case x of None \<Rightarrow> Inr None | Some p \<Rightarrow> map_sum (\<lambda>e. e) Some (artifact p (load_json_file w p) (details :: pydict \<Rightarrow> pydict res))) = Inr d"
  shows "section_fails d = (\<exists>p e. x = Some p \<and> load_json_file w p = Inl e)"
proof (cases x)
  case None
  with assms show ?thesis by (auto simp: section_fails_def)
next
  case (Some p)
  with assms obtain d' where "d = Some d'" "artifact p (load_json_file w p) details = Inr d'"
    by (cases "artifact p (load_json_file w p) details") auto
  with artifact_fails [of p "load_json_file w p" details d'] Some show ?thesis by simp
qed

lemma plan_section:
  assumes "sync_plan_summary H w a an ad policy = Inr plan"
  shows "(\<not> section_fails (Some plan) \<and> int_field plan ''blocked'' = 0) =
    (\<exists>status items. build_sync_status H w a ''local'' None [] = Inr status \<and> plan_items an ad policy status = Inr items
       \<and> (\<forall>i \<in> set items. pl_allowed i))" (is "_ = ?R")
    and "0 \<le> int_field plan ''blocked''" and "dget plan ''ok'' \<noteq> PBool False \<or> section_fails (Some plan)"
proof -
  show "dget plan ''ok'' \<noteq> PBool False \<or> section_fails (Some plan)" by (auto simp: section_fails_def)
  let ?both = "bindR (build_sync_status H w a ''local'' None []) (\<lambda>status.
           bindR (build_sync_plan status an ad policy) (\<lambda>plan. Inr (status, plan)))"
  have "(\<not> section_fails (Some plan) \<and> int_field plan ''blocked'' = 0) = ?R \<and> 0 \<le> int_field plan ''blocked''"
  proof (cases ?both)
    case (Inl e)
    then have "\<not> ?R" by (auto simp: build_sync_plan_def)
    moreover have "plan = [(''ok'', PBool False), (''error'', PStr (exn_text e))]"
      using assms by (simp add: sync_plan_summary_def Inl split: if_splits)
    ultimately show ?thesis by (simp add: section_fails_def int_field_def)
  next
    case (Inr sp)
    then obtain status items where s: "build_sync_status H w a ''local'' None [] = Inr status" "plan_items an ad policy status = Inr items"
      and sp: "sp = (status, plan_dict policy status items)" by (auto simp: build_sync_plan_def)
    from assms have "int_field plan ''blocked'' = int (length (filter (\<lambda>i. \<not> pl_allowed i) items))" "\<not> section_fails (Some plan)"
      by (auto simp: sync_plan_summary_def Inr sp section_fails_def int_field_def copy_fields_def plan_dict_def Let_def)
    with s show ?thesis by (auto simp: filter_empty_conv)
  qed
  then show "(\<not> section_fails (Some plan) \<and> int_field plan ''blocked'' = 0) = ?R" "0 \<le> int_field plan ''blocked''" by blast+
qed

lemma int_field_default: "0 \<le> int_field r k \<Longrightarrow> 0 \<le> int_field [(k, dget_or r k (PInt (int n)))] k"
  by (cases "map_of r k") (simp_all add: int_field_def dget_def dget_or_def)

lemma blocked_section:
  assumes "blocked_report_summary w x = Inr b" and "\<And>p d. x = Some p \<Longrightarrow> load_json_file w p = Inr d \<Longrightarrow> 0 \<le> int_field d ''total''"
  shows "0 \<le> (case b of None \<Rightarrow> 0 | Some r \<Rightarrow> int_field r ''total'')"
proof (cases x)
  case None
  with assms(1) show ?thesis by (auto simp: blocked_report_summary_def)
next
  case (Some p)
  show ?thesis
  proof (cases "load_json_file w p")
    case (Inl e)
    with Some assms(1) show ?thesis by (auto simp: blocked_report_summary_def artifact_def int_field_def)
  next
    case (Inr r)
    with Some assms(1) obtain d n where "b = Some d" and d: "dget d ''total'' = dget_or r ''total'' (PInt (int n))"
      by (auto simp: blocked_report_summary_def artifact_def Let_def copy_fields_def)
    moreover have "0 \<le> int_field [(''total'', dget_or r ''total'' (PInt (int n)))] ''total''"
      using assms(2) [OF Some Inr] by (rule int_field_default)
    ultimately show ?thesis by (simp add: int_field_def [of _ "''total''"])
  qed
qed

lemma read_json_error: "fst (read_json p w) = Inl e \<Longrightarrow> exn_text e \<noteq> []"
  by (auto simp: read_json_def read_data_def bindI_def liftI_def json_loads_def os_error_def
      split: option.splits node.splits fdata.splits)

lemma load_json_file_error: "load_json_file w p = Inl e \<Longrightarrow> e \<noteq> []"
  by (auto simp: load_json_file_def read_json_error split: if_splits sum.splits pyval.splits)

lemma gate_section:
  assumes "build_openclaw_gate w mtime rp rr rc = Inr gate"
  shows "(\<not> gate_blocked gate \<and> \<not> gate_error gate) = (dget gate ''ok'' = PBool True)"
proof -
  have g: "(\<not> gate_blocked g \<and> \<not> gate_error g) = (dget g ''ok'' = PBool True)" if "gate_result report p sb rc = Inr g" for report p sb g
    using that by (auto simp: gate_result_def Let_def gate_blocked_def gate_error_def dget_or_def)
  let ?chosen = "case rp of Some p \<Rightarrow> Some (p, ''explicit'')
        | None \<Rightarrow> map_option (\<lambda>p. (p, ''latest'')) (case rr of None \<Rightarrow> None | Some root \<Rightarrow> select_latest_reconcile_report w mtime root)"
  show ?thesis
  proof (cases ?chosen)
    case None
    with assms show ?thesis by (auto simp: build_openclaw_gate_def Let_def gate_blocked_def gate_error_def dget_or_def)
  next
    case (Some ps)
    obtain p sb where ps: "ps = (p, sb)" by (cases ps)
    show ?thesis
    proof (cases "load_json_file w p")
      case (Inl e)
      from assms load_json_file_error [OF Inl] show ?thesis
        by (auto simp: build_openclaw_gate_def Let_def Some ps Inl gate_blocked_def gate_error_def dget_or_def)
    next
      case (Inr report)
      from assms have "gate_result report p sb rc = Inr gate" by (simp add: build_openclaw_gate_def Let_def Some ps Inr)
      then show ?thesis by (rule g)
    qed
  qed
qed

lemma no_error: "(\<not> (\<exists>e. x = Inl e)) = (\<exists>d. x = Inr d)"
  by (cases x) auto

lemma no_opt_error: "(\<not> (\<exists>p e. x = Some p \<and> f p = Inl e)) = (\<forall>p \<in> set_option x. \<exists>d. f p = Inr d)"
  by (cases x) (auto simp: no_error simp flip: no_error)

text \<open>C38: green means nothing waits: the status is green exactly when the plan could be made and blocks no item,
  every artifact that was named can be read, the gate's report, if one was found, can be read and has no
  blocker, and the blocked report lists nothing.\<close>

theorem green_means_nothing_waits:
  assumes "build_ops_status H w mtime args = Inr st"
    and "\<And>p d. oa_blocked_report args = Some p \<Longrightarrow> load_json_file w p = Inr d \<Longrightarrow> 0 \<le> int_field d ''total''"
  shows "(dget st ''ok'' = PBool True) =
    ((\<exists>status items. build_sync_status H w (oa_sync args) ''local'' None [] = Inr status
        \<and> plan_items (oa_allow_new args) (oa_allow_delete args) (oa_policy args) status = Inr items \<and> (\<forall>i \<in> set items. pl_allowed i))
     \<and> (\<forall>p \<in> {sa_snapshot (oa_sync args) @ [''index.json'']} \<union> set_option (sa_base_record (oa_sync args))
            \<union> set_option (oa_state_file args) \<union> set_option (oa_blocked_report args). \<exists>d. load_json_file w p = Inr d)
     \<and> (\<exists>b. blocked_report_summary w (oa_blocked_report args) = Inr b \<and> (\<forall>r. b = Some r \<longrightarrow> int_field r ''total'' = 0))
     \<and> (\<exists>gate. build_openclaw_gate w mtime (oa_reconcile_report args) (oa_reconcile_root args) False = Inr gate
          \<and> dget gate ''ok'' = PBool True))"
proof -
  from assms(1) obtain plan b gate snap base daemon where
    s: "sync_plan_summary H w (oa_sync args) (oa_allow_new args) (oa_allow_delete args) (oa_policy args) = Inr plan"
      "blocked_report_summary w (oa_blocked_report args) = Inr b"
      "build_openclaw_gate w mtime (oa_reconcile_report args) (oa_reconcile_root args) False = Inr gate"
      "snapshot_summary w (sa_snapshot (oa_sync args)) = Inr snap"
      "base_record_summary w (sa_base_record (oa_sync args)) = Inr base"
      "daemon_state_summary w (oa_state_file args) = Inr daemon" and
    h: "(dget st ''ok'' = PBool True) = (ops_health (length (filter section_fails [Some snap, base, daemon, b, Some plan])
         + (if gate_error gate then 1 else 0)) plan b (gate_blocked gate) = ''green'')"
    by (auto simp: build_ops_status_def Let_def)
  let ?total = "case b of None \<Rightarrow> 0 | Some r \<Rightarrow> int_field r ''total''"
  have t: "0 \<le> ?total" using blocked_section [OF s(2) assms(2)] by simp
  have f: "section_fails (Some snap) = (\<exists>e. load_json_file w (sa_snapshot (oa_sync args) @ [''index.json'']) = Inl e)"
    "section_fails base = (\<exists>p e. sa_base_record (oa_sync args) = Some p \<and> load_json_file w p = Inl e)"
    "section_fails daemon = (\<exists>p e. oa_state_file args = Some p \<and> load_json_file w p = Inl e)"
    "section_fails b = (\<exists>p e. oa_blocked_report args = Some p \<and> load_json_file w p = Inl e)"
    using artifact_fails [OF s(4) [unfolded snapshot_summary_def]] opt_artifact_fails [OF s(5) [unfolded base_record_summary_def]]
      opt_artifact_fails [OF s(6) [unfolded daemon_state_summary_def]] opt_artifact_fails [OF s(2) [unfolded blocked_report_summary_def]]
    by blast+
  note p = plan_section [OF s(1)]
  have "(dget st ''ok'' = PBool True) = (\<not> section_fails (Some snap) \<and> \<not> section_fails base \<and> \<not> section_fails daemon \<and> \<not> section_fails b
      \<and> (\<not> section_fails (Some plan) \<and> int_field plan ''blocked'' = 0) \<and> ?total = 0 \<and> (\<not> gate_blocked gate \<and> \<not> gate_error gate))"
    unfolding h using p(2,3) t
    by (auto simp: ops_health_def section_fails_def split: option.splits)
  also note p(1) also note gate_section [OF s(3)]
  finally show ?thesis
    unfolding f no_error no_opt_error by (cases b) (simp_all add: s(2,3) ball_Un conj_ac del: elem_set)
qed

section \<open>Examples\<close>

definition demo_inventory :: pydict where
  "demo_inventory = [(''skills'', PList [PDict [(''skill_id'', PStr ''demo-skill''), (''content_hash'', PStr agreed_hash)]])]"

theorem gate_opens_exactly_for_a_clean_report_witness:
  "\<exists>report paths w' gate. build_reconcile_report adopt_world demo_inventory [''c''] None None ''now'' = Inr report
     \<and> write_reconcile_outputs report [''o''] adopt_world = (Inr paths, w')
     \<and> build_openclaw_gate w' (\<lambda>p. 0) (Some [''o'', ''reconcile-report.json'']) None True = Inr gate \<and> truthy (dget gate ''available'')"
proof -
  have "case build_reconcile_report adopt_world demo_inventory [''c''] None None ''now'' of Inl e \<Rightarrow> False
     | Inr report \<Rightarrow> (case fst (write_reconcile_outputs report [''o''] adopt_world) of Inl e \<Rightarrow> False | Inr ps \<Rightarrow> True)"
    by code_simp
  then obtain report paths w' where r: "build_reconcile_report adopt_world demo_inventory [''c''] None None ''now'' = Inr report"
    "write_reconcile_outputs report [''o''] adopt_world = (Inr paths, w')"
    by (cases "build_reconcile_report adopt_world demo_inventory [''c''] None None ''now''")
       (auto simp: prod_eq_iff split: sum.splits)
  have c: "clean [''o'']" by code_simp
  from gate_opens_exactly_for_a_clean_report [OF r c, of "\<lambda>p. 0" None True] r show ?thesis by auto
qed

definition demo_ops :: ops_args where
  "demo_ops = \<lparr>oa_sync = push_args, oa_state_file = None, oa_blocked_report = None, oa_reconcile_report = None,
     oa_reconcile_root = None, oa_allow_new = False, oa_allow_delete = False, oa_policy = ''push-pull''\<rparr>"

theorem green_means_nothing_waits_witness:
  "\<exists>status items. build_sync_status raw_host adopt_world push_args ''local'' None [] = Inr status
     \<and> plan_items False False ''push-pull'' status = Inr items \<and> (\<forall>i \<in> set items. pl_allowed i)"
proof -
  have "case build_ops_status raw_host adopt_world (\<lambda>p. 0) demo_ops of Inl e \<Rightarrow> False | Inr st \<Rightarrow> dget st ''ok'' = PBool True"
    by code_simp
  then obtain st where s: "build_ops_status raw_host adopt_world (\<lambda>p. 0) demo_ops = Inr st" "dget st ''ok'' = PBool True"
    by (auto split: sum.splits)
  have o: "oa_sync demo_ops = push_args" "oa_blocked_report demo_ops = None" "oa_allow_new demo_ops = False"
    "oa_allow_delete demo_ops = False" "oa_policy demo_ops = ''push-pull''" by (simp_all add: demo_ops_def)
  from green_means_nothing_waits [OF s(1)] s(2) show ?thesis unfolding o by auto
qed

end
