(* ===== verification/Projection.thy ===== *)
theory Projection
  imports SyncApply
begin

text \<open>
  \<open>projection.py\<close>: how the skills of a central snapshot stand in the roots of the tools of a device. Each
  tool has an adapter; each canonical skill gets one status for it, and what the tool has beyond the
  snapshot is listed.
\<close>

section \<open>Adapters\<close>

record tool_adapter =
  ta_tool_id :: string
  ta_name :: string
  ta_roots :: "path list"
  ta_aliases :: "string list"
  ta_scopes :: "string list"

definition adapter :: "string \<Rightarrow> string \<Rightarrow> path list \<Rightarrow> string list \<Rightarrow> string list \<Rightarrow> tool_adapter" where
  "adapter tool_id name roots aliases scopes =
     \<lparr>ta_tool_id = tool_id, ta_name = name, ta_roots = roots, ta_aliases = aliases, ta_scopes = scopes\<rparr>"

definition default_tool_adapters :: "path \<Rightarrow> tool_adapter list" where
  "default_tool_adapters home =
     [adapter ''cc-switch'' ''cc-switch'' [home @ [''.cc-switch'', ''skills'']] [''cc-switch''] [''global'', ''project''],
      adapter ''codex'' ''Codex'' [home @ [''.codex'', ''skills''], home @ [''.agents'', ''skills'']] [''codex''] [''global''],
      adapter ''cursor'' ''Cursor'' [home @ [''.cursor'', ''skills''], home @ [''.cursor'', ''skills-cursor'']] [''cursor''] [''global''],
      adapter ''claude-code'' ''Claude Code'' [home @ [''.claude'', ''skills'']] [''claude-code'', ''claude''] [''global''],
      adapter ''qoder'' ''Qoder'' [home @ [''.qoder'', ''skills'']] [''qoder''] [''global''],
      adapter ''deepseek-harness'' ''DeepSeek Harness'' [home @ [''.dsh'', ''skills'']] [''deepseek-harness'', ''deepseek''] [''global'']]"

definition find_adapter :: "path \<Rightarrow> string \<Rightarrow> tool_adapter option" where
  "find_adapter home tool_id = List.find (\<lambda>a. ta_tool_id a = tool_id) (default_tool_adapters home)"

definition parse_tool_adapter_spec :: "path \<Rightarrow> string \<Rightarrow> tool_adapter res" where
  "parse_tool_adapter_spec home spec =
     (let bad = Inl (Exn ValueError (''tool adapter must be id=/path[,/path]: '' @ spec));
          tool_id = strip (takeWhile (\<lambda>c. c \<noteq> CHR 0x3D) spec);
          roots = map path_of (filter (\<lambda>i. strip i \<noteq> []) (split_on CHR 0x2C (tl (dropWhile (\<lambda>c. c \<noteq> CHR 0x3D) spec)))) in
      if CHR 0x3D \<notin> set spec then bad
      else if tool_id = [] \<or> roots = [] then bad
      else Inr (case find_adapter home tool_id of
          None \<Rightarrow> adapter tool_id tool_id roots [tool_id] [''global'']
        | Some d \<Rightarrow> d\<lparr>ta_tool_id := tool_id, ta_roots := roots\<rparr>))"

section \<open>What a tool has\<close>

record installed_entry =
  ie_path :: string
  ie_hash :: string
  ie_risk :: string

type_synonym installed = "(string \<times> installed_entry list) list"

definition add_installed :: "skill_record \<Rightarrow> installed \<Rightarrow> installed" where
  "add_installed r m =
     (let e = \<lparr>ie_path = path_str (sk_path r), ie_hash = sk_hash r, ie_risk = risk_level r\<rparr> in
      AList.update (sk_id r) ((case map_of m (sk_id r) of None \<Rightarrow> [] | Some es \<Rightarrow> es) @ [e]) m)"

definition adapter_root_specs :: "world \<Rightarrow> tool_adapter \<Rightarrow> string list" where
  "adapter_root_specs w a =
     map (\<lambda>(i, root). ta_tool_id a @ ''-'' @ nat_str i @ ''='' @ path_str root)
       (filter (\<lambda>(i, root). exists w root) (enumerate 0 (ta_roots a)))"

definition adapter_scan :: "host \<Rightarrow> world \<Rightarrow> tool_adapter \<Rightarrow> scan_summary res" where
  "adapter_scan H w a = scan_roots H w (map parse_root_spec (adapter_root_specs w a))"

definition installed_by_skill_id :: "host \<Rightarrow> world \<Rightarrow> tool_adapter \<Rightarrow> installed res" where
  "installed_by_skill_id H w a =
     (if adapter_root_specs w a = [] then Inr []
      else bindR (adapter_scan H w a) (\<lambda>summary. Inr (fold add_installed (ss_skills summary) [])))"

section \<open>The status of a skill for a tool\<close>

definition projection_targets_tool :: "string list \<Rightarrow> tool_adapter \<Rightarrow> bool" where
  "projection_targets_tool targets a = list_ex (\<lambda>t. lower (strip t) \<in> set (map (lower \<circ> strip) (ta_aliases a))) targets"

record projected_skill =
  pj_skill_id :: string
  pj_scope :: string
  pj_targets :: "string list"
  pj_risk :: string
  pj_hash :: string
  pj_installed :: "installed_entry list"
  pj_status :: string
  pj_reason :: string

definition project_skill :: "pydict \<Rightarrow> tool_adapter \<Rightarrow> installed_entry list option \<Rightarrow> projected_skill" where
  "project_skill skill a installed_entries =
     (let text = (\<lambda>k d. py_str (por (dget skill k) (PStr d)));
          scope = text ''scope'' ''global''; targets = map py_str (list_or_empty (dget skill ''targets''));
          risk = text ''risk_level'' ''unknown''; content_hash = text ''content_hash'' [];
          entries = (case installed_entries of None \<Rightarrow> [] | Some es \<Rightarrow> es);
          mk = (\<lambda>status reason. \<lparr>pj_skill_id = text ''skill_id'' [], pj_scope = scope, pj_targets = targets, pj_risk = risk,
             pj_hash = content_hash, pj_installed = entries, pj_status = status, pj_reason = reason\<rparr>) in
      if \<not> projection_targets_tool targets a then mk ''not_targeted'' (''manifest targets do not include '' @ ta_tool_id a)
      else if scope \<notin> set (ta_scopes a)
      then mk ''unsupported_scope'' (scope @ ''-scoped skills are not installed into '' @ ta_tool_id a @ '' global root'')
      else if risk = ''error'' then mk ''blocked_error'' ''skill has validation errors''
      else if entries = [] then mk ''missing'' ''target tool does not have this canonical skill''
      else if content_hash \<in> set (map ie_hash entries) then mk ''installed'' ''target tool has the canonical hash''
      else mk ''drift'' ''target tool has the skill id but a different content hash'')"

definition projected_dict :: "projected_skill \<Rightarrow> pydict" where
  "projected_dict p =
     [(''skill_id'', PStr (pj_skill_id p)), (''scope'', PStr (pj_scope p)), (''targets'', strs (pj_targets p)),
      (''risk_level'', PStr (pj_risk p)), (''canonical_hash'', PStr (pj_hash p)),
      (''installed_hashes'', strs (map ie_hash (pj_installed p))), (''installed_paths'', strs (map ie_path (pj_installed p))),
      (''status'', PStr (pj_status p)), (''reason'', PStr (pj_reason p))]"

section \<open>The projection of a tool\<close>

definition canonical_id :: "pydict \<Rightarrow> string" where
  "canonical_id skill = py_str (por (dget skill ''skill_id'') (PStr []))"

definition extra_local :: "pydict list \<Rightarrow> installed \<Rightarrow> installed" where
  "extra_local canonical m = filter (\<lambda>(k, es). k \<notin> set (map canonical_id canonical)) (sort_items m)"

definition extra_dict :: "string \<times> installed_entry list \<Rightarrow> pydict" where
  "extra_dict e = [(''skill_id'', PStr (fst e)), (''paths'', strs (map ie_path (snd e))),
     (''content_hashes'', strs (sorted_set (map ie_hash (snd e))))]"

definition project_items :: "pydict list \<Rightarrow> tool_adapter \<Rightarrow> installed \<Rightarrow> projected_skill list" where
  "project_items canonical a m = map (\<lambda>skill. project_skill skill a (map_of m (canonical_id skill))) canonical"

definition tool_projection_dict :: "tool_adapter \<Rightarrow> projected_skill list \<Rightarrow> installed \<Rightarrow> installed \<Rightarrow> pydict" where
  "tool_projection_dict a items m extras =
     (let count = (\<lambda>s. length (filter (\<lambda>p. pj_status p = s) items)) in
     [(''id'', PStr (ta_tool_id a)), (''name'', PStr (ta_name a)), (''roots'', strs (map path_str (ta_roots a))),
      (''target_aliases'', strs (ta_aliases a)), (''supported_scopes'', strs (ta_scopes a)),
      (''installed_total'', PInt (int (sum_list (map (\<lambda>e. length (snd e)) m)))),
      (''canonical_targeted'', PInt (int (length (filter (\<lambda>p. pj_status p \<noteq> ''not_targeted'') items)))),
      (''actionable'', PInt (int (count ''missing'' + count ''drift''))),
      (''summary'', counts (sort_items (tally (map pj_status items)))),
      (''items'', PList (map (PDict \<circ> projected_dict) items)), (''extra_local'', PList (map (PDict \<circ> extra_dict) extras))])"

definition project_tool :: "host \<Rightarrow> world \<Rightarrow> pydict list \<Rightarrow> tool_adapter \<Rightarrow> (projected_skill list \<times> installed \<times> pydict) res" where
  "project_tool H w canonical a =
     bindR (installed_by_skill_id H w a) (\<lambda>m.
       let items = project_items canonical a m; extras = extra_local canonical m in
       Inr (items, extras, tool_projection_dict a items m extras))"

definition projection_index :: "world \<Rightarrow> path \<Rightarrow> pydict res" where
  "projection_index w snapshot_dir =
     (let index_path = snapshot_dir @ [''index.json'']; text = path_str index_path in
      case fst (read_json index_path w) of
        Inl e \<Rightarrow> Inl (Exn ProjectionError
          (if at w index_path = None \<and> parent_ok (w_tree w) (norm_path index_path) then ''snapshot index not found: '' @ text
           else ''snapshot index is unreadable: '' @ text @ '': '' @ exn_text e))
      | Inr v \<Rightarrow> (case v of PDict d \<Rightarrow> Inr d
          | _ \<Rightarrow> Inl (Exn ProjectionError (''snapshot index must contain a JSON object: '' @ text))))"

definition build_tool_projection :: "host \<Rightarrow> world \<Rightarrow> path \<Rightarrow> path \<Rightarrow> tool_adapter list \<Rightarrow> pydict res" where
  "build_tool_projection H w home snapshot_dir adapters =
     bindR (projection_index w snapshot_dir) (\<lambda>index.
     bindR (py_iter (dget_or index ''skills'' (PList []))) (\<lambda>raws.
       let canonical = only_dicts raws in
       bindR (mapR (project_tool H w canonical) (if adapters = [] then default_tool_adapters home else adapters)) (\<lambda>tools.
         Inr [(''record_type'', PStr ''skill-sync-tool-projection''), (''snapshot_id'', dget index ''snapshot_id''),
           (''canonical_total'', PInt (int (length canonical))), (''tools'', PList (map (\<lambda>(i, e, d). PDict d) tools))])))"

section \<open>A projection accounts for every skill\<close>

lemma map_of_add_installed:
  "map_of (fold add_installed rs m) k =
     (let new = map (\<lambda>r. \<lparr>ie_path = path_str (sk_path r), ie_hash = sk_hash r, ie_risk = risk_level r\<rparr>) (filter (\<lambda>r. sk_id r = k) rs) in
      case map_of m k of None \<Rightarrow> (if new = [] then None else Some new) | Some es \<Rightarrow> Some (es @ new))"
  by (induction rs arbitrary: m) (auto simp: add_installed_def update_conv' Let_def split: option.splits)

lemma distinct_add_installed: "distinct (map fst m) \<Longrightarrow> distinct (map fst (fold add_installed rs m))"
  by (induction rs arbitrary: m) (auto simp: add_installed_def Let_def distinct_update)

lemma update_total:
  "distinct (map fst m) \<Longrightarrow> sum_list (map (\<lambda>e. length (snd e)) (AList.update k ((case map_of m k of None \<Rightarrow> [] | Some es \<Rightarrow> es) @ [e]) m))
     = Suc (sum_list (map (\<lambda>e. length (snd e)) m))"
  by (induction m) (auto simp: map_of_eq_None_iff split: option.splits)

lemma installed_total: "distinct (map fst m)
    \<Longrightarrow> sum_list (map (\<lambda>e. length (snd e)) (fold add_installed rs m)) = length rs + sum_list (map (\<lambda>e. length (snd e)) m)"
proof (induction rs arbitrary: m)
  case (Cons r rs)
  have "distinct (map fst (add_installed r m))" using distinct_add_installed [of m "[r]"] Cons.prems by simp
  moreover have "sum_list (map (\<lambda>e. length (snd e)) (add_installed r m)) = Suc (sum_list (map (\<lambda>e. length (snd e)) m))"
    unfolding add_installed_def Let_def by (rule update_total [OF Cons.prems])
  ultimately show ?case using Cons.IH by simp
qed simp

lemma installed_entries:
  "map_of (fold add_installed rs []) k = (let new = map (\<lambda>r. \<lparr>ie_path = path_str (sk_path r), ie_hash = sk_hash r, ie_risk = risk_level r\<rparr>)
      (filter (\<lambda>r. sk_id r = k) rs) in if new = [] then None else Some new)"
  by (simp add: map_of_add_installed)

lemma installed_keys: "fst ` set (fold add_installed rs []) = sk_id ` set rs"
proof -
  have "k \<in> fst ` set (fold add_installed rs []) \<longleftrightarrow> map_of (fold add_installed rs []) k \<noteq> None" for k
    by (simp only: map_of_eq_None_iff not_not)
  also have "\<dots> k \<longleftrightarrow> k \<in> sk_id ` set rs" for k
    by (auto simp: installed_entries Let_def filter_empty_conv)
  finally show ?thesis by blast
qed

text \<open>The tool has to be given the skill: it is meant for the tool, can be installed, and no scanned record has
  its content.\<close>

definition tool_needs :: "skill_record list \<Rightarrow> tool_adapter \<Rightarrow> pydict \<Rightarrow> bool" where
  "tool_needs records a skill =
     (projection_targets_tool (map py_str (list_or_empty (dget skill ''targets''))) a
      \<and> py_str (por (dget skill ''scope'') (PStr ''global'')) \<in> set (ta_scopes a)
      \<and> py_str (por (dget skill ''risk_level'') (PStr ''unknown'')) \<noteq> ''error''
      \<and> \<not> list_ex (\<lambda>r. sk_id r = canonical_id skill \<and> sk_hash r = py_str (por (dget skill ''content_hash'') (PStr []))) records)"

lemma project_skill_needs:
  "pj_status (project_skill skill a (map_of (fold add_installed rs []) (canonical_id skill))) \<in> {''missing'', ''drift''} \<longleftrightarrow> tool_needs rs a skill"
proof -
  have e: "(case map_of (fold add_installed rs []) k of None \<Rightarrow> [] | Some es \<Rightarrow> es)
     = map (\<lambda>r. \<lparr>ie_path = path_str (sk_path r), ie_hash = sk_hash r, ie_risk = risk_level r\<rparr>) (filter (\<lambda>r. sk_id r = k) rs)" for k
    by (simp add: installed_entries Let_def)
  show ?thesis unfolding project_skill_def Let_def e
    by (auto simp: tool_needs_def list_ex_iff filter_empty_conv image_iff)
qed

text \<open>a projection accounts for every skill: there is one item for each canonical skill, in order; the number
  of actions is the number of skills the tool has to be given; every record found in the tool's roots is
  counted, and the extra entries are, sorted and once each, the ids found there that are not canonical.\<close>

theorem projection_accounts_for_every_skill:
  assumes "project_tool H w canonical a = Inr (items, extras, d)"
  shows "\<exists>summary. adapter_scan H w a = Inr summary
    \<and> map pj_skill_id items = map canonical_id canonical
    \<and> dget d ''actionable'' = PInt (int (length (filter (tool_needs (ss_skills summary) a) canonical)))
    \<and> dget d ''installed_total'' = PInt (int (length (ss_skills summary)))
    \<and> sorted (map fst extras) \<and> distinct (map fst extras)
    \<and> set (map fst extras) = sk_id ` set (ss_skills summary) - set (map canonical_id canonical)"
proof -
  from assms obtain m where m: "installed_by_skill_id H w a = Inr m" and r: "items = project_items canonical a m"
    "extras = extra_local canonical m" "d = tool_projection_dict a items m extras"
    by (auto simp: project_tool_def Let_def)
  from m obtain summary where s: "adapter_scan H w a = Inr summary" "m = fold add_installed (ss_skills summary) []"
    by (auto simp: installed_by_skill_id_def adapter_scan_def scan_roots_def sort_records_def split: if_splits)
  have d: "distinct (map fst m)" unfolding s(2) by (rule distinct_add_installed) simp
  have n: "length (filter (\<lambda>p. pj_status p = ''missing'') items) + length (filter (\<lambda>p. pj_status p = ''drift'') items)
      = length (filter (\<lambda>p. pj_status p \<in> {''missing'', ''drift''}) items)"
    by (induction items) auto
  have "filter (\<lambda>p. pj_status p \<in> {''missing'', ''drift''}) items
      = map (\<lambda>skill. project_skill skill a (map_of m (canonical_id skill))) (filter (tool_needs (ss_skills summary) a) canonical)"
    unfolding r(1) project_items_def filter_map comp_def s(2) project_skill_needs ..
  then have "dget d ''actionable'' = PInt (int (length (filter (tool_needs (ss_skills summary) a) canonical)))"
    unfolding r(3) tool_projection_dict_def Let_def n by simp
  moreover have "dget d ''installed_total'' = PInt (int (length (ss_skills summary)))"
    using installed_total [of "[]" "ss_skills summary"] by (simp add: r(3) tool_projection_dict_def Let_def s(2))
  moreover have "map pj_skill_id items = map canonical_id canonical"
    by (simp add: r(1) project_items_def project_skill_def canonical_id_def Let_def)
  moreover have "sorted (map fst extras)" "distinct (map fst extras)"
    using d mset_eq_imp_distinct_iff [of "map fst (sort_key fst m)" "map fst m"]
    by (simp_all add: r(2) extra_local_def sort_items_def sorted_filter distinct_map_filter)
  moreover have "set (map fst extras) = sk_id ` set (ss_skills summary) - set (map canonical_id canonical)"
  proof -
    have "set (map fst extras) = fst ` set m - set (map canonical_id canonical)" by (force simp: r(2) extra_local_def)
    then show ?thesis by (simp add: s(2) installed_keys)
  qed
  ultimately show ?thesis using s(1) by blast
qed

section \<open>Examples\<close>

definition demo_adapter :: tool_adapter where
  "demo_adapter = adapter ''demo'' ''Demo'' [[''l''], [''nowhere'']] [''Demo''] [''global'']"

definition demo_canonical :: "pydict list" where
  "demo_canonical = [[(''skill_id'', PStr ''demo-skill''), (''targets'', strs ['' demo'']), (''content_hash'', PStr ''ab'')]]"

theorem projection_accounts_for_every_skill_witness:
  "\<exists>items extras d. project_tool raw_host (push_world []) demo_canonical demo_adapter = Inr (items, extras, d)
     \<and> dget d ''actionable'' = PInt 1 \<and> map pj_skill_id items = [''demo-skill''] \<and> sorted (map fst extras)"
proof -
  have "case project_tool raw_host (push_world []) demo_canonical demo_adapter of Inl e \<Rightarrow> False
     | Inr (items, extras, d) \<Rightarrow> dget d ''actionable'' = PInt 1" by code_simp
  then obtain items extras d where p: "project_tool raw_host (push_world []) demo_canonical demo_adapter = Inr (items, extras, d)"
    "dget d ''actionable'' = PInt 1" by (auto split: sum.splits)
  have "map canonical_id demo_canonical = [''demo-skill'']" by code_simp
  with projection_accounts_for_every_skill [OF p(1)] p show ?thesis by auto
qed

end
