(* ===== verification/Config.thy ===== *)
theory Config
  imports SyncPlan Regions
begin

text \<open>
  \<open>config.py\<close>: the settings of a device. The address and the password of the WebDAV server come from the
  sidecar's own configuration file, or, on a device that has none, from the settings of cc-switch; the same
  file names the local root, the cached snapshot, the remote prefix and the base record.

  The home directory, the platform, the environment variables and the permission bits of a file are
  arguments. The command \<open>security\<close>, which keeps passwords, is an argument over a state of its own.
\<close>

section \<open>The device\<close>

record machine =
  mc_home :: path
  mc_darwin :: bool
  mc_env :: "string \<Rightarrow> string option"
  mc_mode :: "path \<Rightarrow> nat"

type_synonym 'k security = "string list \<Rightarrow> 'k \<Rightarrow> (int \<times> string \<times> string) option \<times> 'k"

definition default_keychain_service :: string where
  "default_keychain_service = ''skill-sync-sidecar-webdav''"

definition default_remote_prefix :: string where
  "default_remote_prefix = ''skill-sync-sidecar-dev/current-mac''"

text \<open>An environment variable that is set and not empty.\<close>

definition set_env :: "machine \<Rightarrow> string \<Rightarrow> string option" where
  "set_env mc k = (case mc_env mc k of None \<Rightarrow> None | Some v \<Rightarrow> (if v = [] then None else Some v))"

definition application_support :: "machine \<Rightarrow> path" where
  "application_support mc = mc_home mc @ [''Library'', ''Application Support'', ''skill-sync-sidecar'']"

definition xdg_dir :: "machine \<Rightarrow> string \<Rightarrow> path \<Rightarrow> path" where
  "xdg_dir mc k fallback = (case set_env mc k of Some v \<Rightarrow> path_of v | None \<Rightarrow> mc_home mc @ fallback)"

definition default_config_path :: "machine \<Rightarrow> path" where
  "default_config_path mc =
     (case set_env mc ''SKILL_SYNC_CONFIG'' of Some v \<Rightarrow> path_of v
      | None \<Rightarrow> (if mc_darwin mc then application_support mc @ [''config.json'']
          else xdg_dir mc ''XDG_CONFIG_HOME'' [''.config''] @ [''skill-sync-sidecar'', ''config.json'']))"

definition config_path_or_default :: "machine \<Rightarrow> path option \<Rightarrow> path" where
  "config_path_or_default mc p = (case p of Some q \<Rightarrow> q | None \<Rightarrow> default_config_path mc)"

definition sidecar_skills_root :: "machine \<Rightarrow> path" where
  "sidecar_skills_root mc = (if mc_darwin mc then application_support mc @ [''skills'']
     else xdg_dir mc ''XDG_DATA_HOME'' [''.local'', ''share''] @ [''skill-sync-sidecar'', ''skills''])"

definition sidecar_state_dir :: "machine \<Rightarrow> path" where
  "sidecar_state_dir mc = (if mc_darwin mc then application_support mc
     else xdg_dir mc ''XDG_STATE_HOME'' [''.local'', ''state''] @ [''skill-sync-sidecar''])"

section \<open>Reading JSON with its errors\<close>

text \<open>The branches of reading: no such file, not JSON, any other error of the operating system.\<close>

definition not_found :: "world \<Rightarrow> path \<Rightarrow> bool" where
  "not_found w p = (at w p = None \<and> parent_ok (w_tree w) (norm_path p))"

definition read_settings :: "world \<Rightarrow> path \<Rightarrow> string \<Rightarrow> string \<Rightarrow> pyval res" where
  "read_settings w p missing invalid =
     (case fst (read_json p w) of
        Inr v \<Rightarrow> Inr v
      | Inl e \<Rightarrow> Inl (if not_found w p then Exn ConfigError (missing @ path_str p)
          else if exn_kind e = JSONDecodeError then Exn ConfigError (invalid @ path_str p) else e))"

record webdav_settings =
  ws_base_url :: pyval
  ws_username :: pyval
  ws_password :: pyval
  ws_remote_root :: pyval
  ws_enabled :: pyval
  ws_auto_sync :: pyval

definition load_cc_switch_webdav_settings :: "machine \<Rightarrow> world \<Rightarrow> path option \<Rightarrow> webdav_settings res" where
  "load_cc_switch_webdav_settings mc w p =
     (let settings_path = (case p of Some q \<Rightarrow> q | None \<Rightarrow> mc_home mc @ [''.cc-switch'', ''settings.json'']) in
      bindR (read_settings w settings_path ''cc-switch settings not found: '' ''cc-switch settings is not valid JSON: '') (\<lambda>v.
      bindR (as_dict v) (\<lambda>data.
      bindR (as_dict (por (por (dget data ''webdavSync'') (dget data ''webdav_sync'')) (PDict []))) (\<lambda>webdav.
        let base_url = por (dget webdav ''baseUrl'') (dget webdav ''base_url'') in
        if \<not> truthy base_url then Inl (Exn ConfigError ''cc-switch WebDAV baseUrl is not configured'')
        else Inr \<lparr>ws_base_url = base_url, ws_username = dget webdav ''username'', ws_password = dget webdav ''password'',
          ws_remote_root = por (dget webdav ''remoteRoot'') (dget webdav ''remote_root''), ws_enabled = dget webdav ''enabled'',
          ws_auto_sync = (if map_of webdav ''autoSync'' \<noteq> None then dget webdav ''autoSync'' else dget webdav ''auto_sync'')\<rparr>))))"

section \<open>Passwords\<close>

definition keychain_read_password :: "'k security \<Rightarrow> 'k \<Rightarrow> string \<Rightarrow> string \<Rightarrow> string res" where
  "keychain_read_password sec k service account =
     (case fst (sec [''security'', ''find-generic-password'', ''-s'', service, ''-a'', account, ''-w''] k) of
        None \<Rightarrow> Inl (Exn ConfigError (''macOS '' @ backtick ''security''
          @ '' command not found; Keychain password source is macOS-only''))
      | Some (code, out, err) \<Rightarrow>
          (if code \<noteq> 0 then Inl (Exn ConfigError (''Keychain item not found: service='' @ service @ '' account='' @ account))
           else Inr (rstrip_set [CHR 0x0A] out)))"

definition keychain_write_password :: "'k security \<Rightarrow> string \<Rightarrow> string \<Rightarrow> string \<Rightarrow> 'k \<Rightarrow> unit res \<times> 'k" where
  "keychain_write_password sec service account password k =
     (case sec [''security'', ''add-generic-password'', ''-U'', ''-s'', service, ''-a'', account, ''-w'', password] k of
        (None, k') \<Rightarrow> (Inl (Exn OSError ''[Errno 2] No such file or directory: security''), k')
      | (Some (code, out, err), k') \<Rightarrow>
          (if code \<noteq> 0 then (Inl (Exn ConfigError (''failed to write Keychain item service='' @ service @ '' account='' @ account
             @ '': '' @ strip err)), k') else (Inr (), k')))"

text \<open>Arguments of a command are strings.\<close>

definition keychain_writer :: "'k security \<Rightarrow> string \<Rightarrow> pyval \<Rightarrow> pyval \<Rightarrow> 'k \<Rightarrow> unit res \<times> 'k" where
  "keychain_writer sec service account password k =
     (case account of
        PStr a \<Rightarrow> (case password of
            PStr s \<Rightarrow> keychain_write_password sec service a s k
          | v \<Rightarrow> (Inl (Exn TypeError (''expected str, bytes or os.PathLike object, not '' @ type_name v)), k))
      | v \<Rightarrow> (Inl (Exn TypeError (''expected str, bytes or os.PathLike object, not '' @ type_name v)), k))"

fun oct_str :: "nat \<Rightarrow> string" where
  "oct_str n = (if n < 8 then nat_str n else oct_str (n div 8) @ nat_str (n mod 8))"

text \<open>The bits \<open>0o077\<close> of a mode are its remainder by 64.\<close>

definition read_password_file :: "host \<Rightarrow> machine \<Rightarrow> world \<Rightarrow> path \<Rightarrow> string res" where
  "read_password_file H mc w p =
     (if at w p = None
      then (if not_found w p then Inl (Exn ConfigError (''WebDAV password file not found: '' @ path_str p))
            else Inl (os_error ''[Errno 20] Not a directory'' p))
      else if mc_mode mc p mod 64 \<noteq> 0
      then Inl (Exn ConfigError (''WebDAV password file '' @ path_str p @ '' is readable by others (mode '' @ oct_str (mc_mode mc p) @ ''); chmod 600 it''))
      else bindR (fst (read_data p w)) (\<lambda>d. case file_text H d of
          Some s \<Rightarrow> Inr (rstrip_set [CHR 0x0A] s)
        | None \<Rightarrow> Inl (Exn ValueError ''invalid start byte'')))"

definition resolve_password :: "host \<Rightarrow> machine \<Rightarrow> (string \<Rightarrow> string \<Rightarrow> string res) \<Rightarrow> world \<Rightarrow> pyval \<Rightarrow> string option res" where
  "resolve_password H mc reader w source =
     (case source of
        PNone \<Rightarrow> Inr None
      | PDict [(kind, spec)] \<Rightarrow> map_sum (\<lambda>e. e) Some
          (if kind = ''keychain'' then
             (case spec of
                PDict d \<Rightarrow> (if truthy (dget d ''account'')
                  then reader (py_str (por (dget d ''service'') (PStr default_keychain_service))) (py_str (dget d ''account''))
                  else Inl (Exn ConfigError ''webdav.password_source.keychain needs an account''))
              | _ \<Rightarrow> Inl (Exn ConfigError ''webdav.password_source.keychain needs an account''))
           else if kind = ''env'' then
             (case mc_env mc (py_str spec) of
                None \<Rightarrow> Inl (Exn ConfigError (''environment variable '' @ py_str spec @ '' for the WebDAV password is not set''))
              | Some v \<Rightarrow> Inr v)
           else if kind = ''file'' then read_password_file H mc w (path_of (py_str spec))
           else Inl (Exn ConfigError (''unknown webdav.password_source kind: '' @ kind)))
      | _ \<Rightarrow> Inl (Exn ConfigError ''webdav.password_source must have exactly one of: keychain, env, file''))"

section \<open>The settings of the WebDAV server\<close>

definition load_sidecar_webdav_settings :: "host \<Rightarrow> machine \<Rightarrow> (string \<Rightarrow> string \<Rightarrow> string res) \<Rightarrow> world \<Rightarrow> path option \<Rightarrow> webdav_settings res" where
  "load_sidecar_webdav_settings H mc reader w p =
     (let config_path = config_path_or_default mc p; text = path_str config_path in
      bindR (read_settings w config_path ''sidecar config not found: '' ''sidecar config is not valid JSON: '') (\<lambda>data.
      case (case data of PDict d \<Rightarrow> dget d ''webdav'' | _ \<Rightarrow> PNone) of
        PDict webdav \<Rightarrow>
          (if map_of webdav ''password'' \<noteq> None
           then Inl (Exn ConfigError (text @ '': plaintext webdav.password is not allowed; use password_source (keychain, env or file)''))
           else if \<not> truthy (dget webdav ''base_url'')
           then Inl (Exn ConfigError (''sidecar config webdav.base_url is not configured: '' @ text))
           else bindR (resolve_password H mc reader w (dget webdav ''password_source'')) (\<lambda>password.
             Inr \<lparr>ws_base_url = dget webdav ''base_url'', ws_username = dget webdav ''username'', ws_password = opt_str password,
               ws_remote_root = dget webdav ''remote_root'', ws_enabled = dget webdav ''enabled'', ws_auto_sync = dget webdav ''auto_sync''\<rparr>))
      | _ \<Rightarrow> Inl (Exn ConfigError (''sidecar config has no webdav section: '' @ text))))"

text \<open>The settings, and the warnings that were printed.\<close>

definition load_webdav_settings :: "host \<Rightarrow> machine \<Rightarrow> (string \<Rightarrow> string \<Rightarrow> string res) \<Rightarrow> world \<Rightarrow> path option \<Rightarrow> path option
    \<Rightarrow> (webdav_settings \<times> string list) res" where
  "load_webdav_settings H mc reader w p cc_switch_path =
     (let q = config_path_or_default mc p in
      if exists w q then bindR (load_sidecar_webdav_settings H mc reader w (Some q)) (\<lambda>s. Inr (s, []))
      else bindR (load_cc_switch_webdav_settings mc w cc_switch_path) (\<lambda>s.
        Inr (s, [''skill-sync-sidecar: '' @ path_str q @ '' not found, falling back to ~/.cc-switch/settings.json (run ''
          @ backtick ''config-init --from-cc-switch'' @ '' to migrate)''])))"

section \<open>Writing the configuration\<close>

text \<open>\<open>with_suffix\<close>: the last suffix of the name is replaced.\<close>

definition drop_suffix :: "string \<Rightarrow> string" where
  "drop_suffix name =
     (let tail = takeWhile (\<lambda>c. c \<noteq> CHR 0x2E) (rev name); stem = rev (drop (Suc (length tail)) (rev name)) in
      if CHR 0x2E \<in> set name \<and> tail \<noteq> [] \<and> stem \<noteq> [] then stem else name)"

definition config_temp :: "path \<Rightarrow> path" where
  "config_temp p = path_parent p @ [drop_suffix (path_name p) @ ''.json.tmp'']"

definition write_config :: "path \<Rightarrow> pydict \<Rightarrow> unit io" where
  "write_config p data =
     thenI (mkdirs (path_parent p))
     (thenI (write_data (config_temp p) (Json (PDict data)))
       (replace_path (config_temp p) p))"

definition init_plan :: "machine \<Rightarrow> world \<Rightarrow> path option \<Rightarrow> path option \<Rightarrow> string \<Rightarrow> bool \<Rightarrow> (webdav_settings \<times> pydict \<times> pydict) res" where
  "init_plan mc w p cc_switch_path service dry_run =
     (let q = config_path_or_default mc p in
      if exists w q then Inl (Exn ConfigError (''sidecar config already exists, not overwriting: '' @ path_str q))
      else bindR (load_cc_switch_webdav_settings mc w cc_switch_path) (\<lambda>s.
        if \<not> truthy (ws_username s) then Inl (Exn ConfigError ''cc-switch WebDAV username is empty; cannot key the Keychain item'')
        else let key = PDict [(''service'', PStr service), (''account'', ws_username s)];
                 webdav = [(''base_url'', ws_base_url s), (''username'', ws_username s)]
                   @ (if truthy (ws_password s) then [(''password_source'', PDict [(''keychain'', key)])] else []) in
          Inr (s, webdav, [(''config_path'', PStr (path_str q)), (''config'', PDict [(''webdav'', PDict webdav)]),
            (''keychain'', if truthy (ws_password s) then key else PNone), (''dry_run'', PBool dry_run)])))"

text \<open>The keychain is a state beside the world.\<close>

definition init_config_from_cc_switch :: "machine \<Rightarrow> (string \<Rightarrow> pyval \<Rightarrow> pyval \<Rightarrow> 'k \<Rightarrow> unit res \<times> 'k) \<Rightarrow> path option \<Rightarrow> path option
    \<Rightarrow> string \<Rightarrow> bool \<Rightarrow> 'k \<Rightarrow> world \<Rightarrow> pydict res \<times> 'k \<times> world" where
  "init_config_from_cc_switch mc writer p cc_switch_path service dry_run k w =
     (case init_plan mc w p cc_switch_path service dry_run of
        Inl e \<Rightarrow> (Inl e, k, w)
      | Inr (s, webdav, plan) \<Rightarrow>
          (if dry_run then (Inr plan, k, w)
           else case (if truthy (ws_password s) then writer service (ws_username s) (ws_password s) k else (Inr (), k)) of
               (Inl e, k') \<Rightarrow> (Inl e, k', w)
             | (Inr u, k') \<Rightarrow>
                 (case thenI (write_config (config_path_or_default mc p) [(''webdav'', PDict webdav)]) (returnI plan) w of
                    (r, w') \<Rightarrow> (r, k', w'))))"

section \<open>The places of the configuration\<close>

definition read_config :: "world \<Rightarrow> path \<Rightarrow> pydict res" where
  "read_config w p =
     (case fst (read_json p w) of
        Inr v \<Rightarrow> (case v of PDict d \<Rightarrow> Inr d | _ \<Rightarrow> Inl (Exn ConfigError (''sidecar config must be a JSON object: '' @ path_str p)))
      | Inl e \<Rightarrow> (if not_found w p then Inr []
          else Inl (if exn_kind e = JSONDecodeError then Exn ConfigError (''sidecar config is not valid JSON: '' @ path_str p) else e)))"

definition config_path_value :: "machine \<Rightarrow> world \<Rightarrow> string \<Rightarrow> path option \<Rightarrow> path option res" where
  "config_path_value mc w key p =
     bindR (read_config w (config_path_or_default mc p)) (\<lambda>data. case dget data key of
        PNone \<Rightarrow> Inr None
      | v \<Rightarrow> (case v of PStr s \<Rightarrow> (if s = [] then Inl (Exn ConfigError (''sidecar config '' @ key @ '' must be a non-empty path string''))
            else Inr (Some (path_of s)))
          | _ \<Rightarrow> Inl (Exn ConfigError (''sidecar config '' @ key @ '' must be a non-empty path string''))))"

definition configured_local_root :: "machine \<Rightarrow> world \<Rightarrow> path option \<Rightarrow> path res" where
  "configured_local_root mc w p =
     bindR (config_path_value mc w ''local_root'' p) (\<lambda>r. Inr (case r of None \<Rightarrow> mc_home mc @ [''.cc-switch'', ''skills''] | Some q \<Rightarrow> q))"

definition write_config_local_root :: "machine \<Rightarrow> path \<Rightarrow> path option \<Rightarrow> path io" where
  "write_config_local_root mc local_root p =
     (let q = config_path_or_default mc p in
      bindI (bindI (askI (\<lambda>w. read_config w q)) liftI) (\<lambda>data.
        thenI (write_config q (dset data ''local_root'' (PStr (path_str local_root)))) (returnI q)))"

definition configured_remote_prefix :: "machine \<Rightarrow> world \<Rightarrow> path option \<Rightarrow> string res" where
  "configured_remote_prefix mc w p =
     (case set_env mc ''SKILL_SYNC_PREFIX'' of Some v \<Rightarrow> Inr v
      | None \<Rightarrow> bindR (read_config w (config_path_or_default mc p)) (\<lambda>data. case dget data ''remote_prefix'' of
            PNone \<Rightarrow> Inr default_remote_prefix
          | PStr s \<Rightarrow> (if strip_set [CHR 0x2F] s = [] then Inl (Exn ConfigError ''sidecar config remote_prefix must be a non-empty string'') else Inr s)
          | _ \<Rightarrow> Inl (Exn ConfigError ''sidecar config remote_prefix must be a non-empty string'')))"

definition configured_remote_snapshot :: "machine \<Rightarrow> world \<Rightarrow> path option \<Rightarrow> path res" where
  "configured_remote_snapshot mc w p =
     bindR (config_path_value mc w ''remote_snapshot'' p) (\<lambda>r.
       Inr (case r of Some q \<Rightarrow> q | None \<Rightarrow> path_div (mc_home mc @ [''public-sync'']) default_remote_prefix))"

definition configured_base_record :: "machine \<Rightarrow> world \<Rightarrow> path option \<Rightarrow> path res" where
  "configured_base_record mc w p =
     bindR (config_path_value mc w ''base_record'' p) (\<lambda>r.
       Inr (case r of Some q \<Rightarrow> q | None \<Rightarrow> sidecar_state_dir mc @ [''base-record.json'']))"

section \<open>The configuration is replaced in one step\<close>

lemma drop_suffix_differs: "drop_suffix n @ ''.json.tmp'' \<noteq> n"
proof
  assume e: "drop_suffix n @ ''.json.tmp'' = n"
  then have r: "rev n = ''pmt.nosj.'' @ rev (drop_suffix n)" using arg_cong [OF e, of rev] by simp
  then have t: "takeWhile (\<lambda>c. c \<noteq> CHR 0x2E) (rev n) = ''pmt''" unfolding r by simp
  show False
  proof (cases "drop_suffix n = n")
    case True
    with e show False by simp
  next
    case False
    then have "drop_suffix n = rev (drop 4 (rev n))" using t by (auto simp: drop_suffix_def Let_def eval_nat_numeral split: if_splits)
    then have "length (drop_suffix n) = length n - 4" by simp
    with arg_cong [OF e, of length] show False by simp
  qed
qed

lemma config_temp_apart:
  assumes "clean q" "q \<noteq> []"
  shows "clean (config_temp q)" "apart (config_temp q) q"
proof -
  have "drop_suffix (path_name q) @ ''.json.tmp'' \<noteq> ''..''" by (cases "drop_suffix (path_name q)") auto
  then show "clean (config_temp q)" using assms by (simp add: config_temp_def path_parent_def clean_butlast)
  have "drop_suffix (path_name q) @ ''.json.tmp'' \<noteq> last q" using drop_suffix_differs [of "path_name q"] assms(2) by (simp add: path_name_def)
  from apart_siblings [OF this, of "butlast q"] show "apart (config_temp q) q" using assms(2) by (simp add: config_temp_def path_parent_def)
qed

text \<open>A rename at the end: a run that raises leaves the file as it was, one that returns has replaced it.\<close>

lemma write_config_atomic:
  assumes "write_config q data w = (r, w')" and "clean q" "q \<noteq> []"
  shows "lookup (w_tree w') q = (case r of Inl e \<Rightarrow> lookup (w_tree w) q | Inr u \<Rightarrow> Some (NFile (Json (PDict data))))"
proof -
  note t = config_temp_apart [OF assms(2,3)]
  have p: "\<not> prefix q (norm_path (path_parent q))"
    using assms(2,3) prefix_length_le [of q "butlast q"] by (cases q) (auto simp: path_parent_def clean_butlast)
  obtain r1 w1 where m: "mkdirs (path_parent q) w = (r1, w1)" by (metis surj_pair)
  with mkdirs_frame [OF p, of w] have k1: "lookup (w_tree w1) q = lookup (w_tree w) q" by simp
  obtain r2 w2 where d: "write_data (config_temp q) (Json (PDict data)) w1 = (r2, w2)" by (metis surj_pair)
  have "prefix (config_temp q) (norm_path (config_temp q))" using t(1) by simp
  from only_under_run [OF only_under_write_data [OF this] d t(2)] k1
  have k2: "lookup (w_tree w2) q = lookup (w_tree w) q" by simp
  show ?thesis
  proof (cases r1)
    case (Inl e)
    with m assms(1) k1 show ?thesis by (auto simp: write_config_def thenI_def bindI_def)
  next
    case i1: (Inr u)
    show ?thesis
    proof (cases r2)
      case (Inl e)
      with i1 m d assms(1) k2 show ?thesis by (auto simp: write_config_def thenI_def bindI_def)
    next
      case (Inr u2)
      with i1 m d assms(1) have v: "replace_path (config_temp q) q w2 = (r, w')" by (auto simp: write_config_def thenI_def bindI_def)
      show ?thesis
      proof (cases r)
        case (Inl e)
        with v replace_path_Inl k2 show ?thesis by fastforce
      next
        case (Inr u3)
        with v replace_path_Inr(1) [OF t(1) assms(2) t(2)] write_data_Inr [OF t(1)] d \<open>r2 = Inr u2\<close> show ?thesis by auto
      qed
    qed
  qed
qed

lemma read_config_file:
  "clean q \<Longrightarrow> lookup (w_tree w) q = Some (NFile (Json (PDict d))) \<Longrightarrow> read_config w q = Inr d"
  by (simp add: read_config_def read_json_def read_data_def at_clean bindI_def liftI_def json_loads_def)

lemma read_config_frame:
  assumes "clean q" "lookup (w_tree w') q = lookup (w_tree w) q" "lookup (w_tree w) q \<noteq> None"
  shows "read_config w' q = read_config w q"
  using assms by (auto simp: read_config_def read_json_def read_data_def at_clean bindI_def liftI_def not_found_def json_loads_def
      split: node.splits fdata.splits)

lemma local_root_set:
  assumes "write_config_local_root mc root p w = (r, w')" and "q = config_path_or_default mc p"
    and "clean q" "q \<noteq> []" "plain_path root"
  shows "case r of
      Inl e \<Rightarrow> lookup (w_tree w') q = lookup (w_tree w) q
    | Inr out \<Rightarrow> out = q \<and> configured_local_root mc w' p = Inr root
        \<and> (\<exists>old new. read_config w q = Inr old \<and> read_config w' q = Inr new \<and> (\<forall>k. k \<noteq> ''local_root'' \<longrightarrow> dget new k = dget old k))"
proof (cases "read_config w q")
  case (Inl e)
  with assms(1,2) show ?thesis by (auto simp: write_config_local_root_def Let_def bindI_def askI_def liftI_def)
next
  case (Inr old)
  let ?new = "dset old ''local_root'' (PStr (path_str root))"
  obtain r1 where c: "write_config q ?new w = (r1, w')" and r: "r = (case r1 of Inl e \<Rightarrow> Inl e | Inr u \<Rightarrow> Inr q)"
    using assms(1) Inr unfolding assms(2) write_config_local_root_def Let_def
    by (auto simp: bindI_def askI_def liftI_def thenI_def returnI_def split: prod.splits sum.splits)
  note a = write_config_atomic [OF c assms(3,4)]
  show ?thesis
  proof (cases r1)
    case (Inl e)
    with a r show ?thesis by simp
  next
    case i: (Inr u)
    with a have n: "read_config w' q = Inr ?new" using read_config_file [OF assms(3)] by simp
    have "path_str root \<noteq> []" by (simp add: path_str_def)
    then have "configured_local_root mc w' p = Inr root"
      using path_of_path_str [OF assms(5)] by (simp add: configured_local_root_def config_path_value_def assms(2) [symmetric] n)
    with i r n Inr show ?thesis by simp
  qed
qed

lemma write_config_local_root_frame:
  assumes "write_config_local_root mc root p w = (r, w')" "q = config_path_or_default mc p" "clean q" "q \<noteq> []"
    and "apart q x" "apart (config_temp q) x"
  shows "lookup (w_tree w') x = lookup (w_tree w) x"
proof -
  note t = config_temp_apart [OF assms(3,4)]
  have "\<not> prefix x (norm_path (path_parent q))"
    using assms(3,5) prefixeq_butlast [of q] by (auto simp: path_parent_def clean_butlast apart_def dest: prefix_order.trans)
  from mkdirs_frame [OF this] have m: "lookup (w_tree (snd (mkdirs (path_parent q) w))) x = lookup (w_tree w) x" for w .
  have d: "only_within {config_temp q, q} (write_data (config_temp q) v)" for v
    by (rule only_within_under [OF only_under_write_data, of "config_temp q"]) (simp_all add: t(1))
  have v: "only_within {config_temp q, q} (replace_path (config_temp q) q)"
    by (rule only_within_replace_path [of "config_temp q" _ _ q]) (simp_all add: t(1) assms(3))
  have "lookup (w_tree (snd (write_config q data w))) x = lookup (w_tree w) x" for data w
    using m [of w] only_withinD [OF only_within_thenI [OF d v], of x] assms(5,6)
    by (cases "mkdirs (path_parent q) w") (auto simp: write_config_def thenI_def [of "mkdirs (path_parent q)"] bindI_def split: sum.splits)
  with assms(1,2) show ?thesis
    by (auto simp: write_config_local_root_def Let_def bindI_def askI_def liftI_def thenI_def returnI_def split: sum.splits prod.splits)
      (metis snd_conv)+
qed

text \<open>the local root that is written is the one that is read, and nothing else of the configuration
  changes; when writing it raises, wherever, the configuration file is what it was.\<close>

theorem local_root_setting_is_read_back:
  assumes "write_config_local_root mc root p w = (r, w')" and "q = config_path_or_default mc p"
    and "clean q" "q \<noteq> []" "plain_path root"
  shows "case r of
      Inl e \<Rightarrow> lookup (w_tree w') q = lookup (w_tree w) q
    | Inr out \<Rightarrow> out = q \<and> configured_local_root mc w' p = Inr root
        \<and> (\<exists>old new. read_config w q = Inr old \<and> read_config w' q = Inr new \<and> (\<forall>k. k \<noteq> ''local_root'' \<longrightarrow> dget new k = dget old k))"
  using local_root_set [OF assms] .

section \<open>Moving the settings of cc-switch\<close>

text \<open>moving the settings keeps them: when the configuration is made from the settings of cc-switch, what is
  loaded afterwards comes from the configuration alone, without a warning, and has the same address, user
  name and password, though the file holds no password; when it is not made, for whatever reason, there is
  no new configuration. The keychain gives back, on a line, what was stored for the account.\<close>

theorem config_init_keeps_the_settings:
  assumes "init_config_from_cc_switch mc (keychain_writer sec) p cc service False k w = (r, k', w')"
    and "q = config_path_or_default mc p" "clean q" "q \<noteq> []" "service \<noteq> []"
    and "\<And>account password k out err k'. sec [''security'', ''add-generic-password'', ''-U'', ''-s'', service, ''-a'', account, ''-w'', password] k
            = (Some (0, out, err), k') \<Longrightarrow> \<exists>e. fst (sec [''security'', ''find-generic-password'', ''-s'', service, ''-a'', account, ''-w''] k')
            = Some (0, password @ [CHR 0x0A], e)"
    and "\<And>s0 pw. load_cc_switch_webdav_settings mc w cc = Inr s0 \<Longrightarrow> ws_password s0 = PStr pw \<Longrightarrow> rstrip_set [CHR 0x0A] pw = pw"
  shows "case r of
      Inl e \<Rightarrow> lookup (w_tree w') q = lookup (w_tree w) q
    | Inr plan \<Rightarrow> \<exists>s0 s d. load_cc_switch_webdav_settings mc w cc = Inr s0
        \<and> load_webdav_settings H mc (keychain_read_password sec k') w' p cc = Inr (s, [])
        \<and> ws_base_url s = ws_base_url s0 \<and> ws_username s = ws_username s0
        \<and> ws_password s = (if truthy (ws_password s0) then ws_password s0 else PNone)
        \<and> lookup (w_tree w') q = Some (NFile (Json (PDict [(''webdav'', PDict d)]))) \<and> map_of d ''password'' = None"
proof (cases "init_plan mc w p cc service False")
  case (Inl e)
  with assms(1) show ?thesis by (auto simp: init_config_from_cc_switch_def)
next
  case (Inr swp)
  obtain s0 webdav plan where swp: "swp = (s0, webdav, plan)" by (cases swp)
  define key where "key = PDict [(''service'', PStr service), (''account'', ws_username s0)]"
  from Inr swp have l: "load_cc_switch_webdav_settings mc w cc = Inr s0" "truthy (ws_username s0)" and
    wd: "webdav = [(''base_url'', ws_base_url s0), (''username'', ws_username s0)]
           @ (if truthy (ws_password s0) then [(''password_source'', PDict [(''keychain'', key)])] else [])"
    by (auto simp: init_plan_def Let_def key_def split: if_splits)
  have b: "truthy (ws_base_url s0)"
    using l(1) by (auto simp: load_cc_switch_webdav_settings_def Let_def split: if_splits)
  let ?kw = "if truthy (ws_password s0) then keychain_writer sec service (ws_username s0) (ws_password s0) k else (Inr (), k)"
  obtain r1 k1 where k: "?kw = (r1, k1)" by (metis surj_pair)
  show ?thesis
  proof (cases r1)
    case (Inl e)
    with k Inr swp assms(1) show ?thesis by (auto simp: init_config_from_cc_switch_def)
  next
    case r1: (Inr u)
    obtain r2 where c: "write_config q [(''webdav'', PDict webdav)] w = (r2, w')"
      and r: "r = (case r2 of Inl e \<Rightarrow> Inl e | Inr u \<Rightarrow> Inr plan)" and k1: "k' = k1"
      using assms(1) Inr k r1 swp unfolding assms(2)
      by (auto simp: init_config_from_cc_switch_def bindI_def thenI_def returnI_def split: prod.splits sum.splits)
    note a = write_config_atomic [OF c assms(3,4)]
    show ?thesis
    proof (cases r2)
      case (Inl e)
      with a r show ?thesis by simp
    next
      case r2: (Inr u2)
      with a have f: "lookup (w_tree w') q = Some (NFile (Json (PDict [(''webdav'', PDict webdav)])))" by simp
      have pw: "resolve_password H mc (keychain_read_password sec k') w' (dget webdav ''password_source'')
          = Inr (if truthy (ws_password s0) then (case ws_password s0 of PStr s \<Rightarrow> Some s | _ \<Rightarrow> None) else None)
        \<and> (truthy (ws_password s0) \<longrightarrow> (\<exists>s. ws_password s0 = PStr s))"
      proof (cases "truthy (ws_password s0)")
        case False
        then show ?thesis by (simp add: wd resolve_password_def)
      next
        case True
        with k r1 obtain acc s out err where v: "ws_username s0 = PStr acc" "ws_password s0 = PStr s"
          "sec [''security'', ''add-generic-password'', ''-U'', ''-s'', service, ''-a'', acc, ''-w'', s] k = (Some (0, out, err), k')"
          by (auto simp: keychain_writer_def keychain_write_password_def k1 split: pyval.splits prod.splits option.splits if_splits)
        from assms(6) [OF v(3)] obtain e where
          "fst (sec [''security'', ''find-generic-password'', ''-s'', service, ''-a'', acc, ''-w''] k') = Some (0, s @ [CHR 0x0A], e)" by blast
        moreover have "rstrip_set [CHR 0x0A] (s @ [CHR 0x0A]) = s" using assms(7) [OF l(1) v(2)] by (simp add: rstrip_set_def)
        moreover have "acc \<noteq> []" using l(2) v(1) by simp
        ultimately show ?thesis using True assms(5) v(1,2)
          by (simp add: wd key_def resolve_password_def keychain_read_password_def por_def)
      qed
      have "load_sidecar_webdav_settings H mc (keychain_read_password sec k') w' (Some q) = Inr \<lparr>ws_base_url = ws_base_url s0,
          ws_username = ws_username s0, ws_password = (if truthy (ws_password s0) then ws_password s0 else PNone),
          ws_remote_root = PNone, ws_enabled = PNone, ws_auto_sync = PNone\<rparr>"
        using pw b assms(3) f
        by (auto simp: load_sidecar_webdav_settings_def Let_def config_path_or_default_def read_settings_def read_json_def read_data_def
            at_clean bindI_def liftI_def json_loads_def wd opt_str_def)
      moreover have "exists w' q" using f assms(3) by (simp add: exists_def at_clean)
      moreover have "map_of webdav ''password'' = None" by (simp add: wd)
      ultimately show ?thesis using r r2 l(1) f
        by (simp add: load_webdav_settings_def Let_def assms(2) [symmetric])
    qed
  qed
qed

section \<open>Where a password comes from\<close>

lemma map_sum_Some: "map_sum (\<lambda>e. e) Some x = Inr y \<longleftrightarrow> (\<exists>z. x = Inr z \<and> y = Some z)"
  by (cases x) auto

text \<open>a configuration that exists is never passed over, and a password never stands in it: settings that are
  loaded without a warning come from a configuration without a password field, and their password, if they
  have one, from the named source alone, a file only if nobody else can read it; the settings of cc-switch are
  used only when there is no configuration at all, with a warning.\<close>

theorem settings_come_from_the_configuration:
  assumes "load_webdav_settings H mc reader w p cc = Inr (s, warnings)" and "q = config_path_or_default mc p"
  shows "(exists w q \<and> warnings = []
      \<and> (\<exists>data d. fst (read_json q w) = Inr (PDict data) \<and> dget data ''webdav'' = PDict d \<and> map_of d ''password'' = None
          \<and> truthy (ws_base_url s)
          \<and> (dget d ''password_source'' = PNone \<and> ws_password s = PNone
             \<or> (\<exists>pw. ws_password s = PStr pw
                 \<and> ((\<exists>service account. reader service account = Inr pw)
                    \<or> (\<exists>name. dget d ''password_source'' = PDict [(''env'', name)] \<and> mc_env mc (py_str name) = Some pw)
                    \<or> (\<exists>name. dget d ''password_source'' = PDict [(''file'', name)] \<and> mc_mode mc (path_of (py_str name)) mod 64 = 0))))))
    \<or> (\<not> exists w q \<and> length warnings = 1 \<and> load_cc_switch_webdav_settings mc w cc = Inr s)"
proof (cases "exists w q")
  case False
  with assms show ?thesis by (auto simp: load_webdav_settings_def Let_def)
next
  case True
  with assms have s: "load_sidecar_webdav_settings H mc reader w (Some q) = Inr s" "warnings = []"
    by (auto simp: load_webdav_settings_def Let_def)
  then obtain data d pw where d: "fst (read_json q w) = Inr (PDict data)" "dget data ''webdav'' = PDict d" "map_of d ''password'' = None"
    "truthy (dget d ''base_url'')" "resolve_password H mc reader w (dget d ''password_source'') = Inr pw"
    "ws_base_url s = dget d ''base_url''" "ws_password s = opt_str pw"
    by (auto simp: load_sidecar_webdav_settings_def Let_def config_path_or_default_def read_settings_def
        split: sum.splits pyval.splits if_splits)
  have "dget d ''password_source'' = PNone \<and> pw = None \<or> (\<exists>x. pw = Some x \<and> ((\<exists>service account. reader service account = Inr x)
        \<or> (\<exists>name. dget d ''password_source'' = PDict [(''env'', name)] \<and> mc_env mc (py_str name) = Some x)
        \<or> (\<exists>name. dget d ''password_source'' = PDict [(''file'', name)] \<and> mc_mode mc (path_of (py_str name)) mod 64 = 0)))"
    using d(5)
    by (auto simp: resolve_password_def read_password_file_def map_sum_Some
        split: pyval.splits list.splits prod.splits if_splits option.splits)
  with True s(2) d show ?thesis by (auto simp: opt_str_def)
qed

section \<open>Examples\<close>

definition demo_machine :: machine where
  "demo_machine = \<lparr>mc_home = [''home''], mc_darwin = False, mc_env = (\<lambda>k. None), mc_mode = (\<lambda>p. 384)\<rparr>"

text \<open>A keychain that is an association list.\<close>

definition list_security :: "((string \<times> string) \<times> string) list security" where
  "list_security args k =
     (if args ! 1 = ''find-generic-password''
      then (case map_of k (args ! 3, args ! 5) of None \<Rightarrow> (Some (44, [], ''not found''), k) | Some pw \<Rightarrow> (Some (0, pw @ [CHR 0x0A], []), k))
      else (Some (0, [], []), ((args ! 4, args ! 6), args ! 8) # k))"

definition cc_world :: world where
  "cc_world = \<lparr>w_tree = NDir [(''s.json'', NFile (Json (PDict [(''webdavSync'', PDict [(''baseUrl'', PStr ''https://nas''),
     (''username'', PStr ''me''), (''password'', PStr ''pw'')])])))], w_fault = None\<rparr>"

theorem config_init_keeps_the_settings_witness:
  "\<exists>plan k' w' s. init_config_from_cc_switch demo_machine (keychain_writer list_security) (Some [''c'', ''config.json'']) (Some [''s.json''])
       ''svc'' False [] cc_world = (Inr plan, k', w')
     \<and> load_webdav_settings raw_host demo_machine (keychain_read_password list_security k') w' (Some [''c'', ''config.json'']) (Some [''s.json''])
       = Inr (s, []) \<and> ws_password s = PStr ''pw''"
proof -
  let ?x = "init_config_from_cc_switch demo_machine (keychain_writer list_security) (Some [''c'', ''config.json'']) (Some [''s.json''])
       ''svc'' False [] cc_world"
  have "case ?x of (r, k', w') \<Rightarrow> (case r of Inl e \<Rightarrow> False | Inr plan \<Rightarrow> True)" by code_simp
  then obtain plan k' w' where x: "?x = (Inr plan, k', w')" by (auto split: prod.splits sum.splits)
  have q: "[''c'', ''config.json''] = config_path_or_default demo_machine (Some [''c'', ''config.json''])" by (simp add: config_path_or_default_def)
  have c: "clean [''c'', ''config.json'']" "[''c'', ''config.json''] \<noteq> []" "''svc'' \<noteq> []" by code_simp+
  have l: "load_cc_switch_webdav_settings demo_machine cc_world (Some [''s.json'']) = Inr \<lparr>ws_base_url = PStr ''https://nas'',
      ws_username = PStr ''me'', ws_password = PStr ''pw'', ws_remote_root = PNone, ws_enabled = PNone, ws_auto_sync = PNone\<rparr>"
    by code_simp
  have sec: "\<exists>e. fst (list_security [''security'', ''find-generic-password'', ''-s'', ''svc'', ''-a'', account, ''-w''] k')
      = Some (0, password @ [CHR 0x0A], e)"
    if "list_security [''security'', ''add-generic-password'', ''-U'', ''-s'', ''svc'', ''-a'', account, ''-w'', password] k = (Some (0, out, err), k')"
    for account password k out err k' using that by (auto simp: list_security_def)
  have pw: "rstrip_set [CHR 0x0A] pw = pw"
    if "load_cc_switch_webdav_settings demo_machine cc_world (Some [''s.json'']) = Inr s0" "ws_password s0 = PStr pw" for s0 pw
    using that unfolding l by (auto simp: rstrip_set_def)
  note m = config_init_keeps_the_settings [OF x q c, of raw_host, simplified sum.case]
  have "\<exists>s0 s d. load_cc_switch_webdav_settings demo_machine cc_world (Some [''s.json'']) = Inr s0
      \<and> load_webdav_settings raw_host demo_machine (keychain_read_password list_security k') w' (Some [''c'', ''config.json'']) (Some [''s.json'']) = Inr (s, [])
      \<and> ws_base_url s = ws_base_url s0 \<and> ws_username s = ws_username s0
      \<and> ws_password s = (if truthy (ws_password s0) then ws_password s0 else PNone)
      \<and> lookup (w_tree w') [''c'', ''config.json''] = Some (NFile (Json (PDict [(''webdav'', PDict d)]))) \<and> map_of d ''password'' = None"
    by (rule m, erule sec, erule pw, assumption)
  with x show ?thesis unfolding l by auto
qed

text \<open>A configuration whose password is in the environment.\<close>

definition env_world :: world where
  "env_world = \<lparr>w_tree = NDir [(''c.json'', NFile (Json (PDict [(''webdav'', PDict [(''base_url'', PStr ''https://nas''),
     (''password_source'', PDict [(''env'', PStr ''PW'')])])])))], w_fault = None\<rparr>"

theorem settings_come_from_the_configuration_witness:
  "\<exists>s. load_webdav_settings raw_host (demo_machine\<lparr>mc_env := (\<lambda>k. if k = ''PW'' then Some ''x'' else None)\<rparr>) (\<lambda>s a. Inl (Exn ConfigError []))
       env_world (Some [''c.json'']) None = Inr (s, []) \<and> ws_password s = PStr ''x'' \<and> truthy (ws_base_url s)"
proof -
  let ?x = "load_webdav_settings raw_host (demo_machine\<lparr>mc_env := (\<lambda>k. if k = ''PW'' then Some ''x'' else None)\<rparr>) (\<lambda>s a. Inl (Exn ConfigError []))
       env_world (Some [''c.json'']) None"
  have "case ?x of Inl e \<Rightarrow> False | Inr (s, ws) \<Rightarrow> ws = [] \<and> ws_password s = PStr ''x''" by code_simp
  then obtain s where x: "?x = Inr (s, [])" "ws_password s = PStr ''x''" by (auto split: sum.splits)
  from settings_come_from_the_configuration [OF x(1) refl] x show ?thesis by auto
qed

theorem local_root_setting_is_read_back_witness:
  "\<exists>w'. write_config_local_root demo_machine [''new''] (Some [''c.json'']) env_world = (Inr [''c.json''], w')
     \<and> configured_local_root demo_machine w' (Some [''c.json'']) = Inr [''new'']"
proof -
  let ?x = "write_config_local_root demo_machine [''new''] (Some [''c.json'']) env_world"
  have "case ?x of (r, w') \<Rightarrow> (case r of Inl e \<Rightarrow> False | Inr q \<Rightarrow> True)" by code_simp
  then obtain q w' where x: "?x = (Inr q, w')" by (auto split: prod.splits sum.splits)
  have c: "[''c.json''] = config_path_or_default demo_machine (Some [''c.json''])" "clean [''c.json'']" "[''c.json''] \<noteq> []" "plain_path [''new'']"
    by code_simp+
  from local_root_setting_is_read_back [OF x c] x show ?thesis by auto
qed

end
