(* ===== verification/LocalRoot.thy ===== *)
theory LocalRoot
  imports Config SyncApply
begin

text \<open>
  \<open>local_root.py\<close>: moving the local root of a device. The skills are copied beside the destination, renamed
  into place and compared with the old root, skill by skill and in what a synchronisation would do; only
  then the configuration is switched. The time in the name of the temporary copy is an argument.
\<close>

section \<open>Comparing two roots\<close>

definition skipped_top_level :: "string list" where
  "skipped_top_level = [''.skill-sync-backups'', ''.skill-sync-bases'']"

definition project_markers :: "string list" where
  "project_markers = [''AGENTS.md'', ''.git'']"

fun collect_hashes :: "skill_record list \<Rightarrow> (string \<times> string) list \<Rightarrow> string list \<Rightarrow> (string \<times> string) list \<times> string list" where
  "collect_hashes [] m dups = (m, dups)"
| "collect_hashes (r # rs) m dups =
     collect_hashes rs (AList.update (sk_id r) (sk_hash r) m) (if sk_id r \<in> set (map fst m) then dups @ [sk_id r] else dups)"

definition root_hashes :: "host \<Rightarrow> world \<Rightarrow> path \<Rightarrow> (string \<times> string) list res" where
  "root_hashes H w root =
     bindR (scan_roots H w [parse_root_spec (''local='' @ path_str root)]) (\<lambda>summary.
       case collect_hashes (ss_skills summary) [] [] of (m, dups) \<Rightarrow>
         if dups \<noteq> [] then Inl (Exn LocalRootMigrationError (''duplicate skill ids under '' @ path_str root @ '': '' @ join_str '', '' (sorted_set dups)))
         else Inr m)"

definition sync_outcome :: "host \<Rightarrow> world \<Rightarrow> path \<Rightarrow> path \<Rightarrow> path option \<Rightarrow> (string \<times> string) list res" where
  "sync_outcome H w root snapshot base =
     bindR (sync_items H w \<lparr>sa_local_root = root, sa_snapshot = snapshot, sa_base_record = base\<rparr> ''local'' None []) (\<lambda>(items, overrides).
       Inr (fold (\<lambda>i m. AList.update (it_skill_id i) (it_action i) m) items []))"

text \<open>Dictionaries are equal when they map alike; the keys on which they differ.\<close>

definition same_map :: "(string \<times> string) list \<Rightarrow> (string \<times> string) list \<Rightarrow> bool" where
  "same_map a b = list_all (\<lambda>k. map_of a k = map_of b k) (map fst a @ map fst b)"

definition changed_keys :: "(string \<times> string) list \<Rightarrow> (string \<times> string) list \<Rightarrow> string list" where
  "changed_keys a b = sorted_set (filter (\<lambda>k. map_of a k \<noteq> map_of b k) (map fst a @ map fst b))"

definition outcome_counts :: "(string \<times> string) list \<Rightarrow> pyval" where
  "outcome_counts outcome = counts (sort_items (tally (map snd outcome)))"

section \<open>Before anything is copied\<close>

definition preflight :: "machine \<Rightarrow> world \<Rightarrow> path \<Rightarrow> path \<Rightarrow> path option \<Rightarrow> string list res" where
  "preflight mc w source dest p =
     bindR (configured_local_root mc w p) (\<lambda>current.
       let src = norm_path source; dst = norm_path dest; hits = filter (\<lambda>m. exists w (path_parent dest @ [m])) project_markers in
       Inr ((if is_dir w source then [] else [''source root does not exist: '' @ path_str source])
         @ (if norm_path current \<noteq> src then [''configured local_root is '' @ path_str current @ '', not '' @ path_str source @ ''; already migrated?''] else [])
         @ (if exists w dest \<and> (\<not> is_dir w dest \<or> iterdir w dest \<noteq> []) then [''destination is not empty: '' @ path_str dest] else [])
         @ (if prefix src dst \<or> prefix dst src then [''source and destination must not contain each other''] else [])
         @ (if path_name dest = ''skills'' \<and> hits \<noteq> []
            then [path_str (path_parent dest) @ '' contains '' @ join_str '', '' hits @ ''; skills under '' @ path_str dest @ '' would be scanned as project scope'']
            else [])))"

section \<open>The copy\<close>

text \<open>\<open>shutil.copytree\<close> with some names of the top level left out; \<open>p.rmdir()\<close>.\<close>

definition copytree_without :: "string list \<Rightarrow> path \<Rightarrow> path \<Rightarrow> unit io" where
  "copytree_without skip s d w = (let q = norm_path d in
     case at w s of
       Some (NDir es) \<Rightarrow>
         (if exists w d \<or> \<not> parent_ok (w_tree w) q then (Inl (os_error ''[Errno 17] File exists'' q), w)
          else step_at q (\<lambda>t. put t q (NDir (filter (\<lambda>(n, x). n \<notin> set skip) es))) w)
     | Some (NFile f) \<Rightarrow> (Inl (os_error ''[Errno 20] Not a directory'' s), w)
     | None \<Rightarrow> (Inl (os_error ''[Errno 2] No such file or directory'' s), w))"

definition rmdir :: "path \<Rightarrow> unit io" where
  "rmdir p w = (let q = norm_path p in
     case at w p of
       Some (NDir []) \<Rightarrow> (if q = [] then (Inl (os_error ''[Errno 16] Resource busy'' q), w) else step_clean (\<lambda>t. del t q) w)
     | Some (NDir (e # es)) \<Rightarrow> (Inl (os_error ''[Errno 66] Directory not empty'' q), w)
     | Some (NFile f) \<Rightarrow> (Inl (os_error ''[Errno 20] Not a directory'' q), w)
     | None \<Rightarrow> (Inl (os_error ''[Errno 2] No such file or directory'' q), w))"

text \<open>The handler: what the copy has left is removed, an error of the operating system is wrapped; every other
  exception passes.\<close>

definition undo_copy :: "path \<Rightarrow> path \<Rightarrow> bool \<Rightarrow> exn \<Rightarrow> unit io" where
  "undo_copy staging dest renamed e =
     (if exn_kind e \<in> set [OSError, LocalRootMigrationError]
      then thenI (bindI (askI (\<lambda>w. exists w staging)) (\<lambda>b. if b then remove_path staging else returnI ()))
          (thenI (bindI (askI (\<lambda>w. renamed \<and> exists w dest)) (\<lambda>b. if b then remove_path dest else returnI ()))
            (raiseI (if exn_kind e = LocalRootMigrationError then e else Exn LocalRootMigrationError (''copy failed: '' @ exn_text e))))
      else raiseI e)"

definition copy_root :: "path \<Rightarrow> path \<Rightarrow> path \<Rightarrow> unit io" where
  "copy_root source staging dest =
     thenI (copytree_without skipped_top_level source staging)
     (thenI (bindI (askI (\<lambda>w. exists w dest)) (\<lambda>b. if b then rmdir dest else returnI ()))
       (replace_path staging dest))"

text \<open>The comparison; a list of differing keys is cut after ten.\<close>

definition compare_roots :: "host \<Rightarrow> path \<Rightarrow> path \<Rightarrow> path option \<Rightarrow> (string \<times> string) list \<Rightarrow> (string \<times> string) list \<Rightarrow> unit io" where
  "compare_roots H dest snapshot base hashes outcome =
     bindI (bindI (askI (\<lambda>w. root_hashes H w dest)) liftI) (\<lambda>dest_hashes.
       if \<not> same_map dest_hashes hashes
       then raiseI (Exn LocalRootMigrationError (''content hashes differ after copy: '' @ join_str '', '' (take 10 (changed_keys hashes dest_hashes))))
       else bindI (bindI (askI (\<lambda>w. sync_outcome H w dest snapshot base)) liftI) (\<lambda>dest_outcome.
         if \<not> same_map dest_outcome outcome
         then raiseI (Exn LocalRootMigrationError (''sync actions differ after copy: '' @ join_str '', '' (take 10 (changed_keys outcome dest_outcome))))
         else returnI ()))"

record migration_args =
  ma_source :: path
  ma_dest :: path
  ma_snapshot :: path
  ma_base :: "path option"
  ma_config :: "path option"
  ma_stamp :: string

definition staging_path :: "migration_args \<Rightarrow> path" where
  "staging_path m = path_parent (ma_dest m) @ [path_name (ma_dest m) @ ''.migrating-'' @ ma_stamp m]"

definition migration_result :: "migration_args \<Rightarrow> world \<Rightarrow> (string \<times> string) list \<Rightarrow> (string \<times> string) list \<Rightarrow> bool \<Rightarrow> pydict" where
  "migration_result m w hashes outcome yes =
     [(''source'', PStr (path_str (ma_source m))), (''dest'', PStr (path_str (ma_dest m))), (''skills'', PInt (int (length hashes))),
      (''sync_actions'', outcome_counts outcome),
      (''skipped'', strs (sorted_set (filter (\<lambda>n. exists w (ma_source m @ [n])) skipped_top_level))),
      (''dry_run'', PBool (\<not> yes)), (''config_updated'', PBool False)]"

text \<open>What is known before the copy: the problems, the hashes, the outcome, the result so far.\<close>

definition migration_plan :: "host \<Rightarrow> machine \<Rightarrow> world \<Rightarrow> migration_args \<Rightarrow> bool \<Rightarrow> ((string \<times> string) list \<times> (string \<times> string) list \<times> pydict) res" where
  "migration_plan H mc w m yes =
     bindR (preflight mc w (ma_source m) (ma_dest m) (ma_config m)) (\<lambda>problems.
       if problems \<noteq> [] then Inl (Exn LocalRootMigrationError (join_str ''; '' problems))
       else bindR (root_hashes H w (ma_source m)) (\<lambda>hashes.
         bindR (sync_outcome H w (ma_source m) (ma_snapshot m) (ma_base m)) (\<lambda>outcome.
           Inr (hashes, outcome, migration_result m w hashes outcome yes))))"

definition switch_config :: "machine \<Rightarrow> migration_args \<Rightarrow> pydict \<Rightarrow> pydict io" where
  "switch_config mc m result =
     bindI (catchI (write_config_local_root mc (ma_dest m) (ma_config m))
        (\<lambda>e. if exn_kind e = ConfigError then thenI (remove_path (ma_dest m)) (raiseI e) else raiseI e)) (\<lambda>q.
       returnI (dmerge result [(''config_path'', PStr (path_str q)), (''config_updated'', PBool True)]))"

definition migrate_local_root :: "host \<Rightarrow> machine \<Rightarrow> migration_args \<Rightarrow> bool \<Rightarrow> pydict io" where
  "migrate_local_root H mc m yes =
     bindI (bindI (askI (\<lambda>w. migration_plan H mc w m yes)) liftI) (\<lambda>(hashes, outcome, result).
       if \<not> yes then returnI result
       else thenI (catchI (copy_root (ma_source m) (staging_path m) (ma_dest m)) (undo_copy (staging_path m) (ma_dest m) False))
         (thenI (catchI (compare_roots H (ma_dest m) (ma_snapshot m) (ma_base m) hashes outcome) (undo_copy (staging_path m) (ma_dest m) True))
           (switch_config mc m result)))"

section \<open>The configuration is switched to an equal root only\<close>

lemma only_within_remove_path: "clean p \<Longrightarrow> p \<in> ps \<Longrightarrow> only_within ps (remove_path p)"
  by (rule only_within_under [OF remove_path_frame])

lemma only_under_copytree_without: "clean d \<Longrightarrow> only_under d (copytree_without skip s d)"
  by (rule only_underI)
    (auto simp: copytree_without_def Let_def intro!: step_at_frame lookup_put_apart split: option.splits node.splits)

lemma only_under_rmdir: "clean d \<Longrightarrow> only_under d (rmdir d)"
  by (rule only_underI)
    (auto simp: rmdir_def Let_def intro!: step_clean_frame lookup_del_apart split: option.splits node.splits list.splits)

lemma copytree_without_Inr:
  assumes "copytree_without skip s d w = (Inr u, w')" "clean d" "clean s"
  obtains es where "lookup (w_tree w) s = Some (NDir es)"
    "lookup (w_tree w') d = Some (NDir (filter (\<lambda>(n, x). n \<notin> set skip) es))"
  using assms lookup_put_under [of "w_tree w" d _ "[]"]
  by (auto simp: copytree_without_def Let_def at_clean split: if_splits option.splits node.splits dest!: step_at_Inr)

lemma copy_root_within: "clean st \<Longrightarrow> clean d \<Longrightarrow> only_within {st, d} (copy_root s st d)"
  unfolding copy_root_def
  by (intro region_intros only_within_under [OF only_under_copytree_without] only_within_ask only_within_under [OF only_under_rmdir]
      only_within_replace_path [of st _ _ d]) simp_all

lemma undo_copy_within: "clean st \<Longrightarrow> clean d \<Longrightarrow> only_within {st, d} (undo_copy st d renamed e)"
  unfolding undo_copy_def by (intro region_intros only_within_ask only_within_remove_path) simp_all

lemma undo_copy_raises: "undo_copy st d renamed e w \<noteq> (Inr x, w')"
  by (auto simp: undo_copy_def raiseI_def thenI_eq_Inr)

lemma copy_root_Inr:
  assumes "copy_root s st d w = (Inr u, w')" "clean s" "clean st" "clean d" "apart st d"
  obtains es where "lookup (w_tree w) s = Some (NDir es)"
    "lookup (w_tree w') d = Some (NDir (filter (\<lambda>(n, x). n \<notin> set skipped_top_level) es))"
proof -
  let ?m = "\<lambda>b. if b then rmdir d else returnI ()"
  obtain u1 w1 u2 w2 where c: "copytree_without skipped_top_level s st w = (Inr u1, w1)"
    "?m (exists w1 d) w1 = (Inr u2, w2)" "replace_path st d w2 = (Inr u, w')"
    using assms(1) by (auto simp: copy_root_def io_Inr)
  obtain es where e: "lookup (w_tree w) s = Some (NDir es)"
    "lookup (w_tree w1) st = Some (NDir (filter (\<lambda>(n, x). n \<notin> set skipped_top_level) es))"
    using copytree_without_Inr [OF c(1) assms(3,2)] by blast
  have "only_under d (?m b)" for b using only_under_rmdir [OF assms(4)] by (auto intro: frame_intros)
  from only_under_run [OF this c(2) apart_sym [OF assms(5)]] e(2) replace_path_Inr(1) [OF assms(3,4,5) c(3)] e(1)
  show ?thesis by (intro that) simp_all
qed

text \<open>What the comparison has established; it reads only.\<close>

definition equal_roots :: "host \<Rightarrow> world \<Rightarrow> migration_args \<Rightarrow> (string \<times> string) list \<Rightarrow> (string \<times> string) list \<Rightarrow> bool" where
  "equal_roots H w m hashes outcome =
     (case root_hashes H w (ma_dest m) of Inl e \<Rightarrow> False
      | Inr h \<Rightarrow> same_map h hashes \<and> (case sync_outcome H w (ma_dest m) (ma_snapshot m) (ma_base m) of
            Inl e \<Rightarrow> False | Inr d \<Rightarrow> same_map d outcome))"

lemma compare_roots_run:
  "compare_roots H (ma_dest m) (ma_snapshot m) (ma_base m) hashes outcome w = (r, w')
    \<Longrightarrow> w' = w \<and> (case r of Inl e \<Rightarrow> True | Inr u \<Rightarrow> equal_roots H w m hashes outcome)"
  by (auto simp: compare_roots_def equal_roots_def bindI_def liftI_def askI_def raiseI_def returnI_def split: sum.splits if_splits)

text \<open>The places of a migration: the old root lies apart from all that is written, and the new one and its
  temporary copy lie apart from the configuration.\<close>

definition migration_layout :: "machine \<Rightarrow> migration_args \<Rightarrow> bool" where
  "migration_layout mc m =
     (let q = config_path_or_default mc (ma_config m); written = [ma_dest m, staging_path m, q, config_temp q] in
      q \<noteq> [] \<and> list_all clean (ma_source m # written) \<and> plain_path (ma_dest m) \<and> apart (staging_path m) (ma_dest m)
      \<and> list_all (\<lambda>p. apart p (ma_source m)) written
      \<and> list_all (\<lambda>p. apart (ma_dest m) p \<and> apart (staging_path m) p) [q, config_temp q])"

lemma migrate_run:
  assumes "migrate_local_root H mc m True w = (r, w')" "clean (ma_dest m)" "clean (staging_path m)"
  obtains (raised) e where "r = Inl e" "\<And>p. apart (ma_dest m) p \<Longrightarrow> apart (staging_path m) p \<Longrightarrow> lookup (w_tree w') p = lookup (w_tree w) p"
  | (equal) hashes outcome result u w1 where "migration_plan H mc w m True = Inr (hashes, outcome, result)"
      "copy_root (ma_source m) (staging_path m) (ma_dest m) w = (Inr u, w1)" "equal_roots H w1 m hashes outcome"
      "switch_config mc m result w1 = (r, w')"
proof (cases "migration_plan H mc w m True")
  case (Inl e)
  with assms(1) show ?thesis by (intro raised) (auto simp: migrate_local_root_def bindI_def askI_def liftI_def)
next
  case (Inr hor)
  obtain hashes outcome result where hor: "hor = (hashes, outcome, result)" by (metis surj_pair)
  let ?copy = "copy_root (ma_source m) (staging_path m) (ma_dest m)" and ?undo = "undo_copy (staging_path m) (ma_dest m)"
  let ?cmp = "compare_roots H (ma_dest m) (ma_snapshot m) (ma_base m) hashes outcome"
  let ?ps = "{staging_path m, ma_dest m}"
  have "only_within ?ps ?cmp"
  proof (rule only_within_reader)
    fix w show "snd (?cmp w) = w" using compare_roots_run [of H m hashes outcome w] by (cases "?cmp w") simp
  qed
  then have f1: "only_within ?ps (catchI ?copy (?undo False))" and f2: "only_within ?ps (catchI ?cmp (?undo True))"
    by (intro only_within_catchI copy_root_within undo_copy_within assms(2,3); assumption)+
  obtain r1 w1 where c1: "catchI ?copy (?undo False) w = (r1, w1)" by (metis surj_pair)
  note k1 = only_within_run [OF f1 c1]
  show ?thesis
  proof (cases r1)
    case (Inl e)
    with c1 assms(1) Inr hor k1 show ?thesis by (intro raised) (auto simp: migrate_local_root_def bindI_def thenI_def askI_def liftI_def)
  next
    case i1: (Inr u1)
    with c1 undo_copy_raises have copy: "?copy w = (Inr u1, w1)" by (auto simp: catchI_def split: prod.splits sum.splits)
    obtain r2 w2 where c2: "catchI ?cmp (?undo True) w1 = (r2, w2)" by (metis surj_pair)
    note k2 = only_within_run [OF f2 c2]
    show ?thesis
    proof (cases r2)
      case (Inl e)
      with c1 i1 c2 assms(1) Inr hor k1 k2 show ?thesis
        by (intro raised) (auto simp: migrate_local_root_def bindI_def thenI_def askI_def liftI_def)
    next
      case i2: (Inr u2)
      with c2 undo_copy_raises have "?cmp w1 = (Inr u2, w2)" by (auto simp: catchI_def split: prod.splits sum.splits)
      with compare_roots_run have "w2 = w1" "equal_roots H w1 m hashes outcome" by fastforce+
      with c1 i1 c2 i2 assms(1) Inr hor copy show ?thesis
        by (intro equal) (auto simp: migrate_local_root_def bindI_def thenI_def askI_def liftI_def)
    qed
  qed
qed

text \<open>Switching the configuration: all or nothing, apart from the new root unless it is taken back.\<close>

lemma switch_config_run:
  assumes "switch_config mc m result w = (r, w')" "q = config_path_or_default mc (ma_config m)" "migration_layout mc m"
  shows "lookup (w_tree w') (ma_source m) = lookup (w_tree w) (ma_source m)"
    and "case r of Inl e \<Rightarrow> lookup (w_tree w') q = lookup (w_tree w) q
      | Inr out \<Rightarrow> configured_local_root mc w' (ma_config m) = Inr (ma_dest m) \<and> lookup (w_tree w') (ma_dest m) = lookup (w_tree w) (ma_dest m)"
proof -
  let ?d = "ma_dest m"
  from assms(3) have l: "q \<noteq> []" "clean q" "clean ?d" "plain_path ?d" "apart ?d (ma_source m)" "apart ?d q"
    "apart q (ma_source m)" "apart (config_temp q) (ma_source m)" "apart ?d (config_temp q)"
    by (simp_all add: migration_layout_def assms(2) [symmetric] Let_def)
  obtain r1 w1 where c: "write_config_local_root mc ?d (ma_config m) w = (r1, w1)" by (metis surj_pair)
  note a = local_root_set [OF c assms(2) l(2,1,4)]
  have src: "lookup (w_tree w1) (ma_source m) = lookup (w_tree w) (ma_source m)"
    and dst: "lookup (w_tree w1) ?d = lookup (w_tree w) ?d"
    using write_config_local_root_frame [OF c assms(2)] l apart_sym by blast+
  obtain r2 w2 where x: "remove_path ?d w1 = (r2, w2)" by (metis surj_pair)
  have rm: "lookup (w_tree w2) p = lookup (w_tree w1) p" if "apart ?d p" for p
    using only_under_run [OF remove_path_frame [OF l(3)] x that] .
  show "lookup (w_tree w') (ma_source m) = lookup (w_tree w) (ma_source m)"
    using assms(1) c src x rm [OF l(5)]
    by (cases r1; cases r2) (auto simp: switch_config_def catchI_def bindI_def thenI_def raiseI_def returnI_def split: if_splits)
  show "case r of Inl e \<Rightarrow> lookup (w_tree w') q = lookup (w_tree w) q
      | Inr out \<Rightarrow> configured_local_root mc w' (ma_config m) = Inr ?d \<and> lookup (w_tree w') ?d = lookup (w_tree w) ?d"
    using assms(1) c a x rm [OF l(6)] dst
    by (cases r1; cases r2) (auto simp: switch_config_def catchI_def bindI_def thenI_def raiseI_def returnI_def split: if_splits)
qed

text \<open>C29: moving the local root switches the configuration to an equal root or not at all: when the migration
  raises, wherever, the configuration file is what it was; when it returns, the configured root is the
  destination, which holds the source without its backups and bases, and whose content hashes and
  synchronisation actions have been computed from the copy and found equal to the source's; a dry run
  changes nothing, and the old root is left as it is in every case.\<close>

theorem a_migration_switches_only_to_an_equal_root:
  assumes "migrate_local_root H mc m yes w = (r, w')" and "migration_layout mc m" and "q = config_path_or_default mc (ma_config m)"
  shows "lookup (w_tree w') (ma_source m) = lookup (w_tree w) (ma_source m)
    \<and> (\<not> yes \<longrightarrow> w' = w)
    \<and> (case r of
        Inl e \<Rightarrow> lookup (w_tree w') q = lookup (w_tree w) q
      | Inr out \<Rightarrow> yes \<longrightarrow> configured_local_root mc w' (ma_config m) = Inr (ma_dest m)
          \<and> (\<exists>es. lookup (w_tree w) (ma_source m) = Some (NDir es)
               \<and> lookup (w_tree w') (ma_dest m) = Some (NDir (filter (\<lambda>(n, x). n \<notin> set skipped_top_level) es)))
          \<and> (\<exists>w1 hashes outcome. root_hashes H w (ma_source m) = Inr hashes
               \<and> sync_outcome H w (ma_source m) (ma_snapshot m) (ma_base m) = Inr outcome
               \<and> lookup (w_tree w1) (ma_dest m) = lookup (w_tree w') (ma_dest m) \<and> equal_roots H w1 m hashes outcome))"
proof (cases yes)
  case False
  with assms(1) show ?thesis
    by (cases "migration_plan H mc w m False") (auto simp: migrate_local_root_def bindI_def askI_def liftI_def returnI_def)
next
  case True
  from assms(2) have l: "clean (ma_source m)" "clean (ma_dest m)" "clean (staging_path m)" "apart (staging_path m) (ma_dest m)"
    "apart (ma_dest m) (ma_source m)" "apart (staging_path m) (ma_source m)" "apart (ma_dest m) q" "apart (staging_path m) q"
    by (simp_all add: migration_layout_def assms(3) [symmetric] Let_def)
  have run: "migrate_local_root H mc m True w = (r, w')" using assms(1) True by simp
  show ?thesis
  proof (cases rule: migrate_run [OF run l(2,3)])
    case (1 e)
    with l(5-8) show ?thesis by (simp add: True)
  next
    case (2 hashes outcome result u w1)
    note within = only_within_run [OF copy_root_within [OF l(3,2)] 2(2)]
    have k: "lookup (w_tree w1) (ma_source m) = lookup (w_tree w) (ma_source m)" "lookup (w_tree w1) q = lookup (w_tree w) q"
      using within l(5-8) by simp_all
    obtain es where es: "lookup (w_tree w) (ma_source m) = Some (NDir es)"
      "lookup (w_tree w1) (ma_dest m) = Some (NDir (filter (\<lambda>(n, x). n \<notin> set skipped_top_level) es))"
      using copy_root_Inr [OF 2(2) l(1,3,2,4)] by blast
    from 2(1) have h: "root_hashes H w (ma_source m) = Inr hashes" "sync_outcome H w (ma_source m) (ma_snapshot m) (ma_base m) = Inr outcome"
      by (auto simp: migration_plan_def split: if_splits)
    note s = switch_config_run [OF 2(4) assms(3,2)]
    show ?thesis
    proof (cases r)
      case (Inl e)
      with s k show ?thesis by (simp add: True)
    next
      case (Inr out)
      with s(2) have "configured_local_root mc w' (ma_config m) = Inr (ma_dest m)"
        "lookup (w_tree w') (ma_dest m) = lookup (w_tree w1) (ma_dest m)" by simp_all
      with Inr s(1) k(1) es h 2(3) True show ?thesis by auto
    qed
  qed
qed

section \<open>Example\<close>

text \<open>A root with one skill and a directory of backups, which is not copied.\<close>

definition moving_world :: world where
  "moving_world = \<lparr>w_tree = NDir
     [(''l'', NDir [(''demo-skill'', tiny_skill_node), (''.skill-sync-backups'', NDir [])]),
      (''c'', NDir [(''index.json'', NFile (Json (PDict [(''skills'', PList [])])))]),
      (''c.json'', NFile (Json (PDict [(''local_root'', PStr ''/l'')])))], w_fault = None\<rparr>"

definition moving_args :: migration_args where
  "moving_args = \<lparr>ma_source = [''l''], ma_dest = [''n''], ma_snapshot = [''c''], ma_base = None, ma_config = Some [''c.json''], ma_stamp = ''T''\<rparr>"

theorem a_migration_switches_only_to_an_equal_root_witness:
  "\<exists>out w'. migrate_local_root raw_host demo_machine moving_args True moving_world = (Inr out, w')
     \<and> configured_local_root demo_machine w' (Some [''c.json'']) = Inr [''n'']
     \<and> there w' [''n''] = Some (NDir [(''demo-skill'', tiny_skill_node)])"
proof -
  let ?x = "migrate_local_root raw_host demo_machine moving_args True moving_world"
  have "case ?x of (r, w') \<Rightarrow> (case r of Inl e \<Rightarrow> False | Inr out \<Rightarrow> True)" by code_simp
  then obtain out w' where x: "?x = (Inr out, w')" by (auto split: prod.splits sum.splits)
  have l: "migration_layout demo_machine moving_args" by code_simp
  from a_migration_switches_only_to_an_equal_root [OF x l refl] x show ?thesis
    by (auto simp: moving_args_def moving_world_def skipped_top_level_def)
qed

end
