(* ===== verification/Links.thy ===== *)
theory Links
  imports Regions
begin

text \<open>
  Symbolic links. A device is a world and the links on it, each with the text it holds; a link is resolved
  component by component, as \<open>os.path.realpath\<close> does, through at most forty links. The operations of
  \<open>World\<close> work on a device with \<open>on_world\<close>; the ones that tell a link from what it points to, of \<open>os\<close>, of
  \<open>shutil.move\<close> and of \<open>protect.py\<close>, are defined here. Links stand in the tools' directories: the
  directories themselves, and the insides of a skill, hold none.
\<close>

section \<open>Devices\<close>

record device =
  dv_world :: world
  dv_links :: "(path \<times> string) list"

type_synonym 'a dio = "(device, 'a) act"

definition on_world :: "'a io \<Rightarrow> 'a dio" where
  "on_world m d = (case m (dv_world d) of (r, w') \<Rightarrow> (r, d\<lparr>dv_world := w'\<rparr>))"

fun follow :: "nat \<Rightarrow> (path \<times> string) list \<Rightarrow> path \<Rightarrow> path \<Rightarrow> path option" where
  "follow n L acc [] = Some acc"
| "follow n L acc (c # cs) =
     (if c = ''..'' then follow n L (butlast acc) cs
      else case map_of L (acc @ [c]) of
          None \<Rightarrow> follow n L (acc @ [c]) cs
        | Some t \<Rightarrow> (case n of 0 \<Rightarrow> None | Suc m \<Rightarrow> follow m L (if starts_with t ''/'' then [] else acc) (path_of t @ cs)))"

text \<open>\<open>os.path.realpath(p)\<close>: a chain that does not end leaves the path as it is.\<close>

definition realpath :: "device \<Rightarrow> path \<Rightarrow> path" where
  "realpath d p = (case follow 40 (dv_links d) [] p of Some q \<Rightarrow> q | None \<Rightarrow> norm_path p)"

section \<open>Queries\<close>

definition link_at :: "device \<Rightarrow> path \<Rightarrow> string option" where
  "link_at d p = map_of (dv_links d) (norm_path p)"

definition is_symlink :: "device \<Rightarrow> path \<Rightarrow> bool" where
  "is_symlink d p = (link_at d p \<noteq> None)"

definition d_at :: "device \<Rightarrow> path \<Rightarrow> node option" where
  "d_at d p = (case follow 40 (dv_links d) [] p of Some q \<Rightarrow> lookup (w_tree (dv_world d)) q | None \<Rightarrow> None)"

definition d_exists :: "device \<Rightarrow> path \<Rightarrow> bool" where
  "d_exists d p = (d_at d p \<noteq> None)"

definition d_is_dir :: "device \<Rightarrow> path \<Rightarrow> bool" where
  "d_is_dir d p = (case d_at d p of Some (NDir es) \<Rightarrow> True | _ \<Rightarrow> False)"

definition d_present :: "device \<Rightarrow> path \<Rightarrow> bool" where
  "d_present d p = (d_exists d p \<or> is_symlink d p)"

definition readlink :: "device \<Rightarrow> path \<Rightarrow> string res" where
  "readlink d p = (case link_at d p of Some t \<Rightarrow> Inr t | None \<Rightarrow> Inl (os_error ''[Errno 22] Invalid argument'' p))"

text \<open>\<open>sorted(p.iterdir())\<close>: what the directory holds, and the links in it.\<close>

definition d_iterdir :: "device \<Rightarrow> path \<Rightarrow> string list" where
  "d_iterdir d p = (let q = realpath d p in
     sorted_set (iterdir (dv_world d) q @ map (last \<circ> fst) (filter (\<lambda>(l, t). clean l \<and> l \<noteq> [] \<and> butlast l = q) (dv_links d))))"

section \<open>Operations\<close>

text \<open>An operation on links spends one writing operation and has no partial effect.\<close>

definition dev_step :: "(device \<Rightarrow> device) \<Rightarrow> unit dio" where
  "dev_step f d = (case tick (dv_world d) of
      (Some part, w') \<Rightarrow> (Inl io_fault, d\<lparr>dv_world := w'\<rparr>)
    | (None, w') \<Rightarrow> (Inr (), f (d\<lparr>dv_world := w'\<rparr>)))"

definition add_link :: "path \<Rightarrow> string \<Rightarrow> device \<Rightarrow> device" where
  "add_link p t d = d\<lparr>dv_links := AList.update p t (dv_links d)\<rparr>"

definition drop_link :: "path \<Rightarrow> device \<Rightarrow> device" where
  "drop_link p d = d\<lparr>dv_links := AList.delete p (dv_links d)\<rparr>"

definition on_tree :: "(node \<Rightarrow> node) \<Rightarrow> device \<Rightarrow> device" where
  "on_tree f d = d\<lparr>dv_world := (dv_world d)\<lparr>w_tree := f (w_tree (dv_world d))\<rparr>\<rparr>"

text \<open>\<open>os.symlink(t, p)\<close>, \<open>p.unlink()\<close>.\<close>

definition d_symlink :: "string \<Rightarrow> path \<Rightarrow> unit dio" where
  "d_symlink t p d = (let q = norm_path p in
     if is_symlink d p \<or> exists (dv_world d) p then (Inl (os_error ''[Errno 17] File exists'' q), d)
     else if \<not> dir_at (w_tree (dv_world d)) (butlast q) then (Inl (os_error ''[Errno 2] No such file or directory'' q), d)
     else dev_step (add_link q t) d)"

definition d_unlink :: "path \<Rightarrow> unit dio" where
  "d_unlink p d = (if is_symlink d p then dev_step (drop_link (norm_path p)) d else on_world (unlink p) d)"

text \<open>\<open>os.replace(p, q)\<close> and \<open>p.rename(q)\<close>: a link is moved as it is, and replaced like a file.\<close>

definition d_replace :: "path \<Rightarrow> path \<Rightarrow> unit dio" where
  "d_replace p t d = (let s = norm_path p; q = norm_path t in
     case link_at d p of
       Some text \<Rightarrow>
         (if \<not> is_symlink d t \<and> is_dir (dv_world d) t then (Inl (os_error ''[Errno 21] Is a directory'' q), d)
          else if \<not> dir_at (w_tree (dv_world d)) (butlast q) then (Inl (os_error ''[Errno 2] No such file or directory'' q), d)
          else if s = q then (Inr (), d)
          else dev_step (add_link q text \<circ> drop_link s \<circ> on_tree (\<lambda>x. if exists (dv_world d) t then del x q else x)) d)
     | None \<Rightarrow>
         (if \<not> is_symlink d t then on_world (replace_path p t) d
          else case at (dv_world d) p of
              None \<Rightarrow> (Inl (os_error ''[Errno 2] No such file or directory'' s), d)
            | Some (NDir es) \<Rightarrow> (Inl (os_error ''[Errno 20] Not a directory'' q), d)
            | Some (NFile f) \<Rightarrow> dev_step (drop_link q \<circ> on_tree (\<lambda>x. put (del x s) q (NFile f))) d))"

text \<open>\<open>shutil.copytree\<close> to a new place, \<open>protect.remove_path\<close>, \<open>shutil.move\<close>, \<open>protect.move_path\<close>. The changes of
  modes of \<open>protect.py\<close> are not modelled.\<close>

definition d_copytree :: "path \<Rightarrow> path \<Rightarrow> unit dio" where
  "d_copytree s t d =
     (if is_symlink d t then (Inl (os_error ''[Errno 17] File exists'' (norm_path t)), d) else on_world (copytree (realpath d s) t) d)"

definition d_remove_path :: "path \<Rightarrow> unit dio" where
  "d_remove_path p d =
     (if \<not> d_present d p then (Inr (), d)
      else if d_is_dir d p \<and> \<not> is_symlink d p then on_world (rmtree p) d
      else d_unlink p d)"

definition copy_over :: "path \<Rightarrow> path \<Rightarrow> unit dio" where
  "copy_over s t d =
     (if is_symlink d s then bindI (liftI (readlink d s)) (\<lambda>text. thenI (d_symlink text t) (d_unlink s)) d
      else if d_is_dir d s
      then (if prefix (norm_path s) (norm_path t) then (Inl (Exn OSError ''Cannot move a directory into itself''), d)
            else thenI (d_copytree s t) (on_world (rmtree s)) d)
      else thenI (on_world (copy_file s t)) (d_unlink s) d)"

definition shutil_move :: "path \<Rightarrow> path \<Rightarrow> unit dio" where
  "shutil_move s t d = (let real = (if d_is_dir d t then t @ [path_name s] else t) in
     if d_is_dir d t \<and> d_exists d real then (Inl (Exn OSError (''Destination path '' @ in_quotes (path_str real) @ '' already exists'')), d)
     else catchI (d_replace s real) (\<lambda>e. if exn_kind e = OSError then copy_over s real else raiseI e) d)"

definition d_move_path :: "path \<Rightarrow> path \<Rightarrow> unit dio" where
  "d_move_path s t = thenI (on_world (mkdirs (path_parent t))) (shutil_move s t)"

section \<open>What is at a place\<close>

text \<open>The link and the node at a path: two places of a device are told apart by these.\<close>

definition here :: "path \<Rightarrow> device \<Rightarrow> string option \<times> node option" where
  "here p d = (map_of (dv_links d) p, lookup (w_tree (dv_world d)) p)"

lemma here_eqI: "map_of (dv_links d') p = map_of (dv_links d) p
    \<Longrightarrow> lookup (w_tree (dv_world d')) p = lookup (w_tree (dv_world d)) p \<Longrightarrow> here p d' = here p d"
  by (simp add: here_def)

lemma link_at_clean: "clean p \<Longrightarrow> link_at d p = fst (here p d)"
  by (simp add: link_at_def here_def)

lemma on_world_state [simp]: "dv_world (snd (on_world m d)) = snd (m (dv_world d))" "dv_links (snd (on_world m d)) = dv_links d"
  "fst (on_world m d) = fst (m (dv_world d))"
  by (simp_all add: on_world_def split: prod.split)

named_theorems here_intros \<open>which places an action on a device leaves as they are\<close>

lemma keeps_here_world: "only_under p m \<Longrightarrow> apart p q \<Longrightarrow> keeps (here q) (on_world m)"
  by (rule keepsI, rule here_eqI) (simp_all add: only_underD)

lemma keeps_here_within: "only_within ps m \<Longrightarrow> \<forall>p \<in> ps. apart p q \<Longrightarrow> keeps (here q) (on_world m)"
  by (rule keepsI, rule here_eqI) (simp_all add: only_withinD)

lemma keeps_here_dev_step:
  "(\<And>d. here q (f d) = here q d) \<Longrightarrow> keeps (here q) (dev_step f)"
proof (rule keepsI)
  fix d assume f: "\<And>d. here q (f d) = here q d"
  have "here q (d\<lparr>dv_world := w'\<rparr>) = here q d" if "tick (dv_world d) = (r, w')" for r w'
    using that by (auto simp: here_def split: option.splits prod.splits nat.splits elim!: tick.elims)
  with f show "here q (snd (dev_step f d)) = here q d" by (auto simp: dev_step_def split: prod.split option.split)
qed

lemma here_add_link: "p \<noteq> q \<Longrightarrow> here q (add_link p t d) = here q d"
  by (simp add: here_def add_link_def update_conv)

lemma here_drop_link: "p \<noteq> q \<Longrightarrow> here q (drop_link p d) = here q d"
  by (simp add: here_def drop_link_def delete_conv)

lemma here_on_tree: "(\<And>t. lookup (f t) q = lookup t q) \<Longrightarrow> here q (on_tree f d) = here q d"
  by (simp add: here_def on_tree_def)

lemma keeps_here_at: "(\<And>d. keeps (here q) (f d)) \<Longrightarrow> keeps (here q) (\<lambda>d. f d d)"
  by (simp add: keeps_def)

lemma keeps_here_symlink [here_intros]: "apart (norm_path p) q \<Longrightarrow> keeps (here q) (d_symlink t p)"
  using keeps_here_dev_step [of q "add_link (norm_path p) t"]
  by (auto simp: keeps_def d_symlink_def Let_def apart_def here_add_link)

lemma keeps_here_unlink [here_intros]: "apart (norm_path p) q \<Longrightarrow> keeps (here q) (d_unlink p)"
  using keeps_here_dev_step [of q "drop_link (norm_path p)"] keeps_here_world [OF only_under_unlink, of "norm_path p" p q]
  by (auto simp: keeps_def d_unlink_def apart_def here_drop_link)

lemma keeps_here_replace [here_intros]:
  assumes "apart (norm_path p) q" "apart (norm_path t) q"
  shows "keeps (here q) (d_replace p t)"
proof -
  have "only_within {norm_path p, norm_path t} (replace_path p t)"
    by (rule only_within_replace_path [of "norm_path p" _ _ "norm_path t"]) simp_all
  then have w: "keeps (here q) (on_world (replace_path p t))" using assms by (intro keeps_here_within) auto
  have n: "norm_path p \<noteq> q" "norm_path t \<noteq> q" using assms by (auto simp: apart_def)
  have a: "keeps (here q) (dev_step (add_link (norm_path t) x \<circ> drop_link (norm_path p) \<circ> on_tree (\<lambda>y. if b then del y (norm_path t) else y)))" for x b
    by (rule keeps_here_dev_step) (simp add: here_add_link here_drop_link here_on_tree n assms lookup_del_apart)
  have b: "keeps (here q) (dev_step (drop_link (norm_path t) \<circ> on_tree (\<lambda>y. put (del y (norm_path p)) (norm_path t) x)))" for x
    by (rule keeps_here_dev_step) (simp add: here_drop_link here_on_tree n assms lookup_del_apart lookup_put_apart)
  show ?thesis using w a b by (auto simp: keeps_def d_replace_def Let_def split: option.split node.split)
qed

lemma keeps_here_copytree [here_intros]: "apart (norm_path t) q \<Longrightarrow> keeps (here q) (d_copytree s t)"
  using keeps_here_world [OF only_under_copytree, of "norm_path t" t q] by (auto simp: keeps_def d_copytree_def)

lemma keeps_here_rmtree [here_intros]: "apart (norm_path p) q \<Longrightarrow> keeps (here q) (on_world (rmtree p))"
  by (rule keeps_here_world [OF only_under_rmtree]) simp_all

lemma keeps_here_remove_path [here_intros]: "apart (norm_path p) q \<Longrightarrow> keeps (here q) (d_remove_path p)"
  using keeps_here_rmtree [of p q] keeps_here_unlink [of p q] by (auto simp: keeps_def d_remove_path_def)

lemma keeps_here_copy_over [here_intros]:
  assumes "apart (norm_path s) q" "apart (norm_path t) q"
  shows "keeps (here q) (copy_over s t)"
proof -
  have "keeps (here q) (bindI (liftI r) (\<lambda>text. thenI (d_symlink text t) (d_unlink s)))"
    "keeps (here q) (thenI (d_copytree s t) (on_world (rmtree s)))"
    "keeps (here q) (thenI (on_world (copy_file s t)) (d_unlink s))" for r
    using keeps_here_world [OF only_under_copy_file, of "norm_path t" t q s] assms
    by (auto intro!: keeps_intros here_intros)
  then show ?thesis by (auto simp: keeps_def copy_over_def)
qed

text \<open>A move touches its source and its target; making the parents of the target adds directories above it.\<close>

lemma keeps_here_move [here_intros]:
  assumes "apart (norm_path s) q" "apart (norm_path t) q" "clean t" "path_name s \<noteq> ''..''"
  shows "keeps (here q) (d_move_path s t)"
proof -
  have "\<not> prefix q (norm_path (path_parent t))"
    using assms(2,3) prefixeq_butlast [of t] by (auto simp: path_parent_def clean_butlast apart_def dest: prefix_order.trans)
  from mkdirs_frame [OF this] have m: "keeps (here q) (on_world (mkdirs (path_parent t)))"
    by (intro keepsI here_eqI) simp_all
  have "keeps (here q) (catchI (d_replace s r) (\<lambda>e. if exn_kind e = OSError then copy_over s r else raiseI e))"
    if "r = t \<or> r = t @ [path_name s]" for r
    using that assms apart_under [of t q "t @ [path_name s]"] by (auto intro!: keeps_intros here_intros)
  then have "keeps (here q) (shutil_move s t)" by (auto simp: keeps_def shutil_move_def Let_def)
  with m show ?thesis unfolding d_move_path_def by (rule keeps_thenI)
qed

end
