(* ===== verification/FanoutPlan.thy ===== *)
theory FanoutPlan
  imports Links Config
begin

text \<open>
  The first half of \<open>fanout.py\<close>: the tools a device places skills into, the ledger of the copies that were
  placed, the whole-tree hashes, and the plan: for every tool and every skill of the canonical root what would
  be done to the entry of that name, and which entries the sidecar left behind. Planning reads only.
\<close>

section \<open>Tools\<close>

record fanout_tool =
  ft_id :: string
  ft_root :: path
  ft_mode :: string
  ft_aliases :: "string list"

definition legacy_local_root :: "machine \<Rightarrow> path" where
  "legacy_local_root mc = mc_home mc @ [''.cc-switch'', ''skills'']"

definition fan_tool :: "string \<Rightarrow> path \<Rightarrow> string \<Rightarrow> string list \<Rightarrow> fanout_tool" where
  "fan_tool i root mode aliases = \<lparr>ft_id = i, ft_root = root, ft_mode = mode, ft_aliases = aliases\<rparr>"

definition default_fanout_tools :: "machine \<Rightarrow> fanout_tool list" where
  "default_fanout_tools mc =
     [fan_tool ''codex'' (mc_home mc @ [''.codex'', ''skills'']) ''link'' [''codex''],
      fan_tool ''cursor'' (mc_home mc @ [''.cursor'', ''skills'']) ''copy'' [''cursor''],
      fan_tool ''claude-code'' (mc_home mc @ [''.claude'', ''skills'']) ''link'' [''claude-code'', ''claude''],
      fan_tool ''qoder'' (mc_home mc @ [''.qoder'', ''skills'']) ''link'' [''qoder''],
      fan_tool ''deepseek-harness'' (mc_home mc @ [''.dsh'', ''skills'']) ''link'' [''deepseek-harness'', ''deepseek''],
      fan_tool ''cc-switch'' (legacy_local_root mc) ''link'' [''cc-switch'']]"

definition adoptable_roots :: "machine \<Rightarrow> path list" where
  "adoptable_roots mc = [mc_home mc @ [''.skillshub''], legacy_local_root mc]"

definition configured_tool :: "pydict \<Rightarrow> fanout_tool \<Rightarrow> fanout_tool list res" where
  "configured_tool overrides t =
     (case por (dget overrides (ft_id t)) (PDict []) of
        PDict override \<Rightarrow>
          (if dget override ''enabled'' = PBool False then Inr []
           else let mode = dget_or override ''mode'' (PStr (ft_mode t)) in
             bindR (in_str_set mode [''link'', ''copy'']) (\<lambda>known.
               if \<not> known then Inl (Exn ConfigError (''sidecar config fanout.tools.'' @ ft_id t @ ''.mode must be link or copy''))
               else Inr [t\<lparr>ft_mode := py_str mode\<rparr>]))
      | _ \<Rightarrow> Inl (Exn ConfigError (''sidecar config fanout.tools.'' @ ft_id t @ '' must be an object'')))"

definition configured_tools :: "machine \<Rightarrow> world \<Rightarrow> path option \<Rightarrow> fanout_tool list res" where
  "configured_tools mc w p =
     bindR (read_config w (config_path_or_default mc p)) (\<lambda>data.
       case dget_or data ''fanout'' (PDict []) of
         PDict fanout \<Rightarrow>
           (case dget_or fanout ''tools'' (PDict []) of
              PDict overrides \<Rightarrow> bindR (mapR (configured_tool overrides) (default_fanout_tools mc)) (\<lambda>ts. Inr (concat ts))
            | _ \<Rightarrow> Inl (Exn ConfigError ''sidecar config fanout.tools must be an object''))
       | _ \<Rightarrow> Inl (Exn ConfigError ''sidecar config fanout must be an object''))"

definition fanout_protect_canonical :: "machine \<Rightarrow> world \<Rightarrow> path option \<Rightarrow> bool res" where
  "fanout_protect_canonical mc w p =
     bindR (read_config w (config_path_or_default mc p)) (\<lambda>data.
       case dget_or data ''fanout'' (PDict []) of
         PDict fanout \<Rightarrow> (case dget_or fanout ''protect_canonical'' (PBool True) of PBool b \<Rightarrow> Inr b
           | _ \<Rightarrow> Inl (Exn ConfigError ''sidecar config fanout.protect_canonical must be true or false''))
       | v \<Rightarrow> Inl (Exn AttributeError (in_quotes (type_name v) @ '' object has no attribute '' @ in_quotes ''get'')))"

section \<open>The ledger of copies\<close>

type_synonym ledger = "(string \<times> string) list"

definition fanout_dir :: "machine \<Rightarrow> path option \<Rightarrow> path" where
  "fanout_dir mc state_dir = (case state_dir of Some p \<Rightarrow> p | None \<Rightarrow> sidecar_state_dir mc) @ [''fanout'']"

definition ledger_path :: "machine \<Rightarrow> path option \<Rightarrow> string \<Rightarrow> path" where
  "ledger_path mc state_dir tool_id = fanout_dir mc state_dir @ [tool_id @ ''.json'']"

definition load_ledger :: "world \<Rightarrow> path \<Rightarrow> ledger res" where
  "load_ledger w p =
     (case fst (read_json p w) of
        Inl e \<Rightarrow> (if not_found w p then Inr []
          else Inl (if exn_kind e = JSONDecodeError then Exn ConfigError (''fanout ledger is not valid JSON: '' @ path_str p) else e))
      | Inr v \<Rightarrow> (case (case v of PDict data \<Rightarrow> dget_or data ''entries'' (PDict []) | _ \<Rightarrow> PDict []) of
            PDict entries \<Rightarrow> Inr (List.map_filter (\<lambda>(k, v). case v of PDict e \<Rightarrow> Some (k, py_str (dget e ''content_hash'')) | _ \<Rightarrow> None) entries)
          | x \<Rightarrow> Inl (Exn AttributeError (in_quotes (type_name x) @ '' object has no attribute '' @ in_quotes ''items''))))"

section \<open>Whole-tree hashes\<close>

definition within :: "path \<Rightarrow> path \<Rightarrow> bool" where
  "within p root = prefix root p"

definition relative_str :: "path \<Rightarrow> path \<Rightarrow> string" where
  "relative_str root p = (if p = root then ''.'' else join_str ''/'' (drop (length root) p))"

definition pairs_digest :: "host \<Rightarrow> (string \<times> string) list \<Rightarrow> string" where
  "pairs_digest H pairs = h_sha H (Raw (h_dumps H (PList (map (\<lambda>(a, b). PList [PStr a, PStr b]) pairs))))"

text \<open>\<open>sorted\<close> on pairs: by the first, then by the second.\<close>

definition sort_pairs :: "(string \<times> string) list \<Rightarrow> (string \<times> string) list" where
  "sort_pairs ps = sort_key fst (sort_key snd ps)"

definition tree_pairs :: "path \<Rightarrow> skill_record list \<Rightarrow> (string \<times> string) list" where
  "tree_pairs root skills = sort_pairs (map (\<lambda>s. (relative_str root (sk_path s), sk_hash s)) skills)"

definition hash_of :: "host \<Rightarrow> device \<Rightarrow> path \<Rightarrow> string option res" where
  "hash_of H d p = (let resolved = realpath d p in
     if \<not> is_file (dv_world d) (resolved @ [''SKILL.md'']) then Inr None
     else bindR (scan_roots H (dv_world d) [parse_root_spec (''fanout='' @ path_str resolved)]) (\<lambda>s.
       Inr (Some (pairs_digest H (tree_pairs resolved (ss_skills s))))))"

definition adoption_ignored_files :: "string list" where
  "adoption_ignored_files = [''manifest.json'']"

definition adoption_ignored_dirs :: "string list" where
  "adoption_ignored_dirs = [''__pycache__'', ''node_modules'']"

fun adoption_files :: "string \<Rightarrow> node \<Rightarrow> (string \<times> fdata) list" where
  "adoption_files pre (NFile f) = []"
| "adoption_files pre (NDir es) =
     concat (map snd (sort_items (map (\<lambda>(n, m). (n, case m of
        NFile f \<Rightarrow> (if starts_with n ''.'' \<or> ends_with n ''.pyc'' \<or> n \<in> set adoption_ignored_files then [] else [(pre @ n, f)])
      | NDir sub \<Rightarrow> [])) es)))
   @ concat (map snd (sort_items (map (\<lambda>(n, m). (n,
        if \<not> starts_with n ''.'' \<and> n \<notin> set adoption_ignored_dirs then adoption_files (pre @ n @ ''/'') m else [])) es)))"

definition adoption_hash :: "host \<Rightarrow> device \<Rightarrow> path \<Rightarrow> string option" where
  "adoption_hash H d p = (let resolved = realpath d p in
     if \<not> is_file (dv_world d) (resolved @ [''SKILL.md'']) then None
     else case at (dv_world d) resolved of None \<Rightarrow> None
       | Some n \<Rightarrow> Some (pairs_digest H (map (\<lambda>(rel, f). (rel, h_sha H f)) (adoption_files [] n))))"

definition same_content :: "host \<Rightarrow> device \<Rightarrow> path \<Rightarrow> string option \<Rightarrow> path \<Rightarrow> bool res" where
  "same_content H d entry canonical_hash source =
     bindR (hash_of H d entry) (\<lambda>h. Inr (h = canonical_hash \<or> adoption_hash H d entry = adoption_hash H d source))"

section \<open>One skill in one tool\<close>

definition declared_targets :: "world \<Rightarrow> skill_record \<Rightarrow> string list option" where
  "declared_targets w skill =
     (case sk_manifest_path skill of None \<Rightarrow> None
      | Some p \<Rightarrow> (case fst (read_json p w) of
            Inr (PDict data) \<Rightarrow> (case dget data ''targets'' of
                PList ts \<Rightarrow> (if ts = [] then None else Some (map py_str ts))
              | _ \<Rightarrow> None)
          | _ \<Rightarrow> None))"

text \<open>Why a skill is not placed; \<open>None\<close>: it is.\<close>

definition skill_decision :: "device \<Rightarrow> skill_record \<Rightarrow> path \<Rightarrow> fanout_tool \<Rightarrow> path \<Rightarrow> string option" where
  "skill_decision d skill canonical t entry =
     (if realpath d (path_parent (sk_path skill)) \<noteq> realpath d canonical then Some ''inside_another_skill''
      else if sk_scope skill \<noteq> PStr ''global'' then Some ''project_scope''
      else if risk_level skill = ''error'' then Some ''risk_error''
      else case declared_targets (dv_world d) skill of
          None \<Rightarrow> (if d_present d entry then None else Some ''undeclared_not_present'')
        | Some declared \<Rightarrow> (if list_ex (\<lambda>a. a \<in> set declared) (ft_aliases t) then None else Some ''not_targeted''))"

record fan_item =
  fi_name :: string
  fi_action :: string
  fi_skill_id :: "string option"
  fi_risk :: "string option"
  fi_hash :: "string option"
  fi_source :: "path option"
  fi_link_target :: "string option"
  fi_reason :: "string option"

definition by_mode :: "fanout_tool \<Rightarrow> string \<Rightarrow> string \<Rightarrow> string" where
  "by_mode t l c = (if ft_mode t = ''link'' then l else c)"

text \<open>An entry that is a link: what is done about it, and why not.\<close>

definition plan_link :: "host \<Rightarrow> machine \<Rightarrow> device \<Rightarrow> path \<Rightarrow> path \<Rightarrow> path \<Rightarrow> fanout_tool \<Rightarrow> string option \<Rightarrow> (string \<times> string option) res" where
  "plan_link H mc d entry source canonical t h =
     (let target = realpath d entry; relinked = by_mode t ''relink'' ''replace_link_with_copy'' in
      if target = source then Inr (by_mode t ''ok'' ''replace_link_with_copy'', None)
      else if within target (realpath d canonical) then Inr (relinked, None)
      else if \<not> list_ex (\<lambda>r. d_exists d r \<and> within target (realpath d r)) (adoptable_roots mc) then Inr (''foreign_link'', None)
      else bindR (same_content H d entry h source) (\<lambda>same.
        Inr (if same then (relinked, None) else (''conflict'', Some ''linked content differs from canonical''))))"

text \<open>An entry that is a directory: also the hash that is recorded for it.\<close>

definition plan_dir :: "host \<Rightarrow> device \<Rightarrow> path \<Rightarrow> path \<Rightarrow> fanout_tool \<Rightarrow> ledger \<Rightarrow> string option \<Rightarrow> (string \<times> string option \<times> string option) res" where
  "plan_dir H d entry source t ledger h =
     bindR (hash_of H d entry) (\<lambda>current.
       if ft_mode t = ''link''
       then bindR (same_content H d entry h source) (\<lambda>same.
         Inr (if same then (''replace_dir_with_link'', h, None) else (''conflict'', h, Some ''existing directory differs from canonical'')))
       else let recorded = map_of ledger (path_name entry) in
         bindR (if current = h then Inr True else if recorded = None then same_content H d entry h source else Inr False) (\<lambda>same.
           Inr (if same then (if recorded = current then ''ok'' else ''adopt'', current, None)
                else if recorded \<noteq> None \<and> recorded = current then (''update_copy'', h, None)
                else (''conflict'', h, Some ''existing directory differs from canonical and is not a copy the sidecar recorded''))))"

definition plan_entry :: "host \<Rightarrow> machine \<Rightarrow> device \<Rightarrow> skill_record \<Rightarrow> path \<Rightarrow> path \<Rightarrow> fanout_tool \<Rightarrow> ledger \<Rightarrow> fan_item res" where
  "plan_entry H mc d skill entry canonical t ledger =
     (let source = realpath d (sk_path skill) in
      bindR (hash_of H d source) (\<lambda>h.
        let item = \<lparr>fi_name = path_name entry, fi_action = '''', fi_skill_id = Some (sk_id skill), fi_risk = Some (risk_level skill),
               fi_hash = h, fi_source = Some source, fi_link_target = None, fi_reason = None\<rparr> in
        if \<not> d_present d entry then Inr (item\<lparr>fi_action := by_mode t ''link'' ''copy''\<rparr>)
        else case link_at d entry of
            Some text \<Rightarrow> bindR (plan_link H mc d entry source canonical t h) (\<lambda>(action, reason).
              Inr (item\<lparr>fi_action := action, fi_link_target := Some text, fi_reason := reason\<rparr>))
          | None \<Rightarrow>
              (if \<not> d_is_dir d entry then Inr (item\<lparr>fi_action := ''conflict'', fi_reason := Some ''a non-directory is in the way''\<rparr>)
               else bindR (plan_dir H d entry source t ledger h) (\<lambda>(action, recorded, reason).
                 Inr (item\<lparr>fi_action := action, fi_hash := recorded, fi_reason := reason\<rparr>)))))"

section \<open>What the sidecar left behind\<close>

definition bare_item :: "string \<Rightarrow> string \<Rightarrow> fan_item" where
  "bare_item name action = \<lparr>fi_name = name, fi_action = action, fi_skill_id = None, fi_risk = None, fi_hash = None, fi_source = None,
     fi_link_target = None, fi_reason = None\<rparr>"

definition path_text :: "string \<Rightarrow> string" where
  "path_text s = (if starts_with s ''/'' then path_str (path_of s) else if path_of s = [] then ''.'' else join_str ''/'' (path_of s))"

definition removal :: "host \<Rightarrow> device \<Rightarrow> fanout_tool \<Rightarrow> path \<Rightarrow> ledger \<Rightarrow> string \<Rightarrow> fan_item list res" where
  "removal H d t canonical ledger name =
     (let entry = ft_root t @ [name] in
      case link_at d entry of
        Some text \<Rightarrow>
          (let target = norm_path (path_div (path_parent entry) text) in
           if (within target canonical \<or> within target (realpath d canonical)) \<and> \<not> d_exists d entry
           then Inr [(bare_item name ''remove_dangling_link'')\<lparr>fi_link_target := Some (path_text text)\<rparr>] else Inr [])
      | None \<Rightarrow>
          (if ft_mode t = ''copy'' \<and> map_of ledger name \<noteq> None \<and> d_is_dir d entry
           then bindR (hash_of H d entry) (\<lambda>h.
             Inr [if h = map_of ledger name then bare_item name ''remove_copy''
                  else (bare_item name ''conflict'')\<lparr>fi_reason := Some ''recorded copy was modified; not removed''\<rparr>])
           else Inr []))"

definition removals :: "host \<Rightarrow> device \<Rightarrow> fanout_tool \<Rightarrow> path \<Rightarrow> string list \<Rightarrow> ledger \<Rightarrow> fan_item list res" where
  "removals H d t canonical wanted ledger =
     (if \<not> d_exists d (ft_root t) then Inr []
      else bindR (mapR (removal H d t canonical ledger)
               (filter (\<lambda>n. \<not> starts_with n ''.'' \<and> n \<notin> set wanted) (d_iterdir d (ft_root t)))) (\<lambda>xs. Inr (concat xs)))"

section \<open>The plan\<close>

record fan_report =
  fr_tool :: fanout_tool
  fr_skipped :: "string option"
  fr_items :: "fan_item list"
  fr_not_placed :: "string list"

definition noop_actions :: "string list" where
  "noop_actions = [''ok'', ''conflict'', ''foreign_link'']"

text \<open>Every skill is either not placed, with a reason, or an item.\<close>

definition place_skill :: "host \<Rightarrow> machine \<Rightarrow> device \<Rightarrow> path \<Rightarrow> fanout_tool \<Rightarrow> ledger \<Rightarrow> skill_record \<Rightarrow> (string + fan_item) res" where
  "place_skill H mc d canonical t ledger skill =
     (let entry = ft_root t @ [path_name (sk_path skill)] in
      case skill_decision d skill canonical t entry of
        Some reason \<Rightarrow> Inr (Inl reason)
      | None \<Rightarrow> bindR (plan_entry H mc d skill entry canonical t ledger) (\<lambda>i. Inr (Inr i)))"

definition items_of :: "(string + fan_item) list \<Rightarrow> fan_item list" where
  "items_of ps = List.map_filter (\<lambda>p. case p of Inl r \<Rightarrow> None | Inr i \<Rightarrow> Some i) ps"

definition reasons_of :: "(string + fan_item) list \<Rightarrow> string list" where
  "reasons_of ps = List.map_filter (\<lambda>p. case p of Inl r \<Rightarrow> Some r | Inr i \<Rightarrow> None) ps"

definition tool_ledger :: "machine \<Rightarrow> device \<Rightarrow> (string \<times> ledger) list \<Rightarrow> fanout_tool \<Rightarrow> ledger res" where
  "tool_ledger mc d ledgers t =
     (case map_of ledgers (ft_id t) of Some l \<Rightarrow> Inr l
      | None \<Rightarrow> (if ft_mode t = ''copy'' then load_ledger (dv_world d) (ledger_path mc None (ft_id t)) else Inr []))"

definition plan_tool :: "host \<Rightarrow> machine \<Rightarrow> device \<Rightarrow> path \<Rightarrow> skill_record list \<Rightarrow> (string \<times> ledger) list \<Rightarrow> fanout_tool \<Rightarrow> fan_report res" where
  "plan_tool H mc d canonical skills ledgers t =
     (let skip = (\<lambda>why. Inr \<lparr>fr_tool = t, fr_skipped = Some why, fr_items = [], fr_not_placed = []\<rparr>) in
      if realpath d (ft_root t) = realpath d canonical then skip ''tool root is the canonical root''
      else if \<not> d_exists d (ft_root t) then skip ''tool root not found on this device''
      else bindR (tool_ledger mc d ledgers t) (\<lambda>ledger.
        bindR (mapR (place_skill H mc d canonical t ledger) skills) (\<lambda>placed.
        bindR (removals H d t canonical (map fi_name (items_of placed)) ledger) (\<lambda>gone.
          Inr \<lparr>fr_tool = t, fr_skipped = None, fr_items = items_of placed @ gone, fr_not_placed = reasons_of placed\<rparr>))))"

definition select_tools :: "fanout_tool list \<Rightarrow> string list \<Rightarrow> fanout_tool list res" where
  "select_tools tools tool_ids =
     (if tool_ids = [] then Inr tools
      else let unknown = filter (\<lambda>i. i \<notin> set (map ft_id tools)) tool_ids in
        if unknown \<noteq> [] then Inl (Exn ConfigError (''unknown or disabled fanout tool: '' @ join_str '', '' (sorted_set unknown)))
        else Inr (filter (\<lambda>t. ft_id t \<in> set tool_ids) tools))"

definition tools_or_configured :: "machine \<Rightarrow> world \<Rightarrow> fanout_tool list option \<Rightarrow> fanout_tool list res" where
  "tools_or_configured mc w tools = (case tools of Some ts \<Rightarrow> Inr ts | None \<Rightarrow> configured_tools mc w None)"

text \<open>The scan follows the root when it is a link, and the records hold resolved paths.\<close>

definition canonical_skills :: "host \<Rightarrow> world \<Rightarrow> path \<Rightarrow> skill_record list res" where
  "canonical_skills H w canonical = bindR (scan_roots H w [parse_root_spec (''canonical='' @ path_str canonical)]) (\<lambda>s. Inr (ss_skills s))"

definition build_fanout_plan ::
    "host \<Rightarrow> machine \<Rightarrow> device \<Rightarrow> path \<Rightarrow> fanout_tool list option \<Rightarrow> string list \<Rightarrow> (string \<times> ledger) list \<Rightarrow> (skill_record list \<times> fan_report list) res" where
  "build_fanout_plan H mc d canonical tools tool_ids ledgers =
     bindR (tools_or_configured mc (dv_world d) tools) (\<lambda>all. bindR (select_tools all tool_ids) (\<lambda>ts.
     bindR (canonical_skills H (dv_world d) (realpath d canonical)) (\<lambda>skills.
     bindR (mapR (plan_tool H mc d canonical skills ledgers) ts) (\<lambda>reports. Inr (skills, reports)))))"

section \<open>The plan as it is reported\<close>

definition given :: "string \<Rightarrow> string option \<Rightarrow> pydict" where
  "given k v = (case v of None \<Rightarrow> [] | Some s \<Rightarrow> [(k, PStr s)])"

definition fan_item_dict :: "fan_item \<Rightarrow> pydict" where
  "fan_item_dict i = [(''name'', PStr (fi_name i))]
     @ (case fi_skill_id i of None \<Rightarrow> []
        | Some s \<Rightarrow> [(''skill_id'', PStr s), (''risk_level'', opt_str (fi_risk i)), (''content_hash'', opt_str (fi_hash i)),
            (''source_path'', opt_path (fi_source i))])
     @ given ''link_target'' (fi_link_target i) @ [(''action'', PStr (fi_action i))] @ given ''reason'' (fi_reason i)"

definition fan_summary :: "fan_report \<Rightarrow> (string \<times> nat) list" where
  "fan_summary r = sort_items (tally (map fi_action (fr_items r)))"

definition fan_warnings :: "fan_report \<Rightarrow> string list" where
  "fan_warnings r = sort (map fi_name (filter (\<lambda>i. fi_risk i = Some ''warning'' \<and> fi_action i \<notin> set noop_actions) (fr_items r)))"

definition fan_report_dict :: "fan_report \<Rightarrow> pydict" where
  "fan_report_dict r =
     [(''tool_id'', PStr (ft_id (fr_tool r))), (''root'', PStr (path_str (ft_root (fr_tool r)))), (''mode'', PStr (ft_mode (fr_tool r)))]
     @ (case fr_skipped r of Some why \<Rightarrow> [(''skipped'', PStr why)]
        | None \<Rightarrow> [(''summary'', counts (fan_summary r)), (''not_placed'', counts (sort_items (tally (fr_not_placed r)))),
            (''warnings'', PList (map PStr (fan_warnings r))), (''items'', PList (map (PDict \<circ> fan_item_dict) (fr_items r)))])"

definition fanout_plan_dict :: "path \<Rightarrow> skill_record list \<times> fan_report list \<Rightarrow> pydict" where
  "fanout_plan_dict canonical plan =
     [(''canonical_root'', PStr (path_str canonical)), (''skills'', PInt (int (length (fst plan)))), (''dry_run'', PBool True),
      (''tools'', PList (map (PDict \<circ> fan_report_dict) (snd plan)))]"

section \<open>What a plan may change\<close>

text \<open>The licence of an action, from the entry as it is: nothing is there; a link into the canonical root, or one to
  the same content under a root that may be adopted; a directory with the same content, or a copy that is
  still what the ledger recorded; a link into the canonical root that points nowhere.\<close>

definition ours_or_same :: "host \<Rightarrow> machine \<Rightarrow> device \<Rightarrow> path \<Rightarrow> path \<Rightarrow> fan_item \<Rightarrow> bool" where
  "ours_or_same H mc d canonical entry i =
     (is_symlink d entry
      \<and> (fi_source i = Some (realpath d entry) \<or> within (realpath d entry) (realpath d canonical)
         \<or> list_ex (\<lambda>r. d_exists d r \<and> within (realpath d entry) (realpath d r)) (adoptable_roots mc)
           \<and> (case fi_source i of None \<Rightarrow> False | Some source \<Rightarrow> same_content H d entry (fi_hash i) source = Inr True)))"

definition licence :: "host \<Rightarrow> machine \<Rightarrow> device \<Rightarrow> path \<Rightarrow> fanout_tool \<Rightarrow> ledger \<Rightarrow> fan_item \<Rightarrow> string \<Rightarrow> bool" where
  "licence H mc d canonical t ledger i a =
     (let entry = ft_root t @ [fi_name i]; real_dir = d_is_dir d entry \<and> \<not> is_symlink d entry in
      if a = ''link'' then ft_mode t = ''link'' \<and> \<not> d_present d entry
      else if a = ''copy'' then ft_mode t \<noteq> ''link'' \<and> \<not> d_present d entry
      else if a = ''relink'' then ft_mode t = ''link'' \<and> ours_or_same H mc d canonical entry i
      else if a = ''replace_link_with_copy'' then ft_mode t \<noteq> ''link'' \<and> ours_or_same H mc d canonical entry i
      else if a = ''replace_dir_with_link''
      then ft_mode t = ''link'' \<and> real_dir
        \<and> (case fi_source i of None \<Rightarrow> False | Some source \<Rightarrow> same_content H d entry (fi_hash i) source = Inr True)
      else if a = ''update_copy'' \<or> a = ''remove_copy''
      then ft_mode t \<noteq> ''link'' \<and> real_dir \<and> map_of ledger (fi_name i) \<noteq> None \<and> hash_of H d entry = Inr (map_of ledger (fi_name i))
      else if a = ''adopt'' then ft_mode t \<noteq> ''link'' \<and> real_dir \<and> hash_of H d entry = Inr (fi_hash i)
      else if a = ''remove_dangling_link''
      then \<not> d_exists d entry
        \<and> (case link_at d entry of None \<Rightarrow> False | Some text \<Rightarrow> (let target = norm_path (path_div (ft_root t) text) in
             within target canonical \<or> within target (realpath d canonical)))
      else a \<in> set noop_actions)"

lemma licence_noop [simp]: "licence H mc d canonical t ledger i ''ok''" "licence H mc d canonical t ledger i ''conflict''"
  "licence H mc d canonical t ledger i ''foreign_link''"
  by (simp_all add: licence_def noop_actions_def)

lemma licence_new [simp]:
  "licence H mc d canonical t ledger i ''link'' \<longleftrightarrow> ft_mode t = ''link'' \<and> \<not> d_present d (ft_root t @ [fi_name i])"
  "licence H mc d canonical t ledger i ''copy'' \<longleftrightarrow> ft_mode t \<noteq> ''link'' \<and> \<not> d_present d (ft_root t @ [fi_name i])"
  by (simp_all add: licence_def Let_def)

lemma licence_links [simp]:
  "licence H mc d canonical t ledger i ''relink'' \<longleftrightarrow> ft_mode t = ''link'' \<and> ours_or_same H mc d canonical (ft_root t @ [fi_name i]) i"
  "licence H mc d canonical t ledger i ''replace_link_with_copy'' \<longleftrightarrow> ft_mode t \<noteq> ''link'' \<and> ours_or_same H mc d canonical (ft_root t @ [fi_name i]) i"
  "licence H mc d canonical t ledger i ''remove_dangling_link'' \<longleftrightarrow> \<not> d_exists d (ft_root t @ [fi_name i])
     \<and> (case link_at d (ft_root t @ [fi_name i]) of None \<Rightarrow> False | Some text \<Rightarrow>
          (let target = norm_path (path_div (ft_root t) text) in within target canonical \<or> within target (realpath d canonical)))"
  by (simp_all add: licence_def Let_def)

abbreviation "real_dir d p \<equiv> d_is_dir d p \<and> \<not> is_symlink d p"

lemma licence_dirs [simp]:
  "licence H mc d canonical t ledger i ''replace_dir_with_link'' \<longleftrightarrow> ft_mode t = ''link'' \<and> real_dir d (ft_root t @ [fi_name i])
     \<and> (case fi_source i of None \<Rightarrow> False | Some source \<Rightarrow> same_content H d (ft_root t @ [fi_name i]) (fi_hash i) source = Inr True)"
  "licence H mc d canonical t ledger i ''update_copy'' \<longleftrightarrow> ft_mode t \<noteq> ''link'' \<and> real_dir d (ft_root t @ [fi_name i])
     \<and> map_of ledger (fi_name i) \<noteq> None \<and> hash_of H d (ft_root t @ [fi_name i]) = Inr (map_of ledger (fi_name i))"
  "licence H mc d canonical t ledger i ''remove_copy'' \<longleftrightarrow> ft_mode t \<noteq> ''link'' \<and> real_dir d (ft_root t @ [fi_name i])
     \<and> map_of ledger (fi_name i) \<noteq> None \<and> hash_of H d (ft_root t @ [fi_name i]) = Inr (map_of ledger (fi_name i))"
  "licence H mc d canonical t ledger i ''adopt'' \<longleftrightarrow> ft_mode t \<noteq> ''link'' \<and> real_dir d (ft_root t @ [fi_name i])
     \<and> hash_of H d (ft_root t @ [fi_name i]) = Inr (fi_hash i)"
  by (simp_all add: licence_def Let_def)

text \<open>What the content has to do with the action. \<open>canonical_content\<close>: the entry has the content of the skill it stands for,
  by the hash of the skill's own directory or by the files that an adoption compares. \<open>justified\<close>: an action is the one
  for the content that is there, and an entry is only called a conflict or a foreign link when it is one.\<close>

definition source_hash :: "host \<Rightarrow> device \<Rightarrow> fan_item \<Rightarrow> string option res" where
  "source_hash H d i = (case fi_source i of None \<Rightarrow> Inr None | Some source \<Rightarrow> hash_of H d source)"

definition canonical_content :: "host \<Rightarrow> device \<Rightarrow> fan_item \<Rightarrow> path \<Rightarrow> bool" where
  "canonical_content H d i entry = (case (fi_source i, source_hash H d i) of
     (Some source, Inr h) \<Rightarrow> same_content H d entry h source = Inr True | _ \<Rightarrow> False)"

definition justified :: "host \<Rightarrow> machine \<Rightarrow> device \<Rightarrow> path \<Rightarrow> fanout_tool \<Rightarrow> ledger \<Rightarrow> fan_item \<Rightarrow> string \<Rightarrow> bool" where
  "justified H mc d canonical t ledger i a =
     (let entry = ft_root t @ [fi_name i]; target = realpath d entry; recorded = map_of ledger (fi_name i);
          adoptable = list_ex (\<lambda>r. d_exists d r \<and> within target (realpath d r)) (adoptable_roots mc) in
      if fi_skill_id i = None
      then a = ''conflict'' \<longrightarrow> real_dir d entry \<and> recorded \<noteq> None \<and> hash_of H d entry \<noteq> Inr recorded
      else if a = ''ok''
      then (if ft_mode t = ''link'' then is_symlink d entry \<and> fi_source i = Some target
            else real_dir d entry \<and> hash_of H d entry = Inr recorded \<and> canonical_content H d i entry)
      else if a = ''relink'' \<or> a = ''replace_link_with_copy''
      then fi_source i = Some target \<or> within target (realpath d canonical) \<or> adoptable \<and> canonical_content H d i entry
      else if a = ''replace_dir_with_link'' then canonical_content H d i entry
      else if a = ''adopt''
      then canonical_content H d i entry \<and> hash_of H d entry \<noteq> Inr recorded
        \<and> (recorded = None \<or> hash_of H d entry = source_hash H d i)
      else if a = ''update_copy'' then source_hash H d i = Inr (fi_hash i) \<and> hash_of H d entry \<noteq> Inr (fi_hash i)
      else if a = ''foreign_link''
      then is_symlink d entry \<and> fi_source i \<noteq> Some target \<and> \<not> within target (realpath d canonical) \<and> \<not> adoptable
      else if a = ''conflict''
      then d_present d entry \<and> (\<not> is_symlink d entry \<and> \<not> d_is_dir d entry \<or> \<not> canonical_content H d i entry
        \<or> ft_mode t \<noteq> ''link'' \<and> recorded \<noteq> None \<and> hash_of H d entry \<noteq> Inr recorded)
      else True)"

lemma link_at_symlink: "is_symlink d p \<longleftrightarrow> (\<exists>t. link_at d p = Some t)"
  by (auto simp: is_symlink_def)

lemma plan_link_licensed:
  "plan_link H mc d (ft_root t @ [fi_name i]) source canonical t (fi_hash i) = Inr (a, reason)
    \<Longrightarrow> link_at d (ft_root t @ [fi_name i]) = Some text \<Longrightarrow> fi_source i = Some source \<Longrightarrow> licence H mc d canonical t ledger i a"
  by (auto simp: plan_link_def Let_def by_mode_def ours_or_same_def is_symlink_def split: if_splits)

lemma plan_dir_licensed:
  assumes "plan_dir H d (ft_root t @ [fi_name i]) source t ledger h = Inr (a, fi_hash i, reason)" "link_at d (ft_root t @ [fi_name i]) = None"
    and "d_is_dir d (ft_root t @ [fi_name i])" "fi_source i = Some source"
  shows "licence H mc d canonical t ledger i a"
  using assms by (auto simp: plan_dir_def is_symlink_def Let_def path_name_def split: if_splits)

lemma plan_entry_licensed:
  assumes "plan_entry H mc d skill (ft_root t @ [name]) canonical t ledger = Inr i"
  shows "licence H mc d canonical t ledger i (fi_action i) \<and> fi_name i = name \<and> fi_skill_id i = Some (sk_id skill)"
proof -
  let ?e = "ft_root t @ [name]"
  from assms obtain h where h: "hash_of H d (realpath d (sk_path skill)) = Inr h" by (auto simp: plan_entry_def Let_def)
  have n: "path_name ?e = name" by (simp add: path_name_def)
  show ?thesis
  proof (cases "d_present d ?e")
    case False
    with assms h n show ?thesis by (auto simp: plan_entry_def Let_def by_mode_def)
  next
    case True
    show ?thesis
    proof (cases "link_at d ?e")
      case (Some s)
      with assms h n True obtain a r where p: "plan_link H mc d ?e (realpath d (sk_path skill)) canonical t h = Inr (a, r)"
        and i: "fi_name i = name" "fi_action i = a" "fi_hash i = h" "fi_source i = Some (realpath d (sk_path skill))" "fi_skill_id i = Some (sk_id skill)"
        by (auto simp: plan_entry_def Let_def)
      with plan_link_licensed [of H mc d t i "realpath d (sk_path skill)" canonical a r s ledger] Some show ?thesis by simp
    next
      case None
      show ?thesis
      proof (cases "d_is_dir d ?e")
        case False
        with assms h n True None show ?thesis by (auto simp: plan_entry_def Let_def)
      next
        case dir: True
        with assms h n True None obtain a c r where p: "plan_dir H d ?e (realpath d (sk_path skill)) t ledger h = Inr (a, c, r)"
          and i: "fi_name i = name" "fi_action i = a" "fi_hash i = c" "fi_source i = Some (realpath d (sk_path skill))" "fi_skill_id i = Some (sk_id skill)"
          by (auto simp: plan_entry_def Let_def)
        with plan_dir_licensed [of H d t i "realpath d (sk_path skill)" ledger h a r mc canonical] None dir show ?thesis by simp
      qed
    qed
  qed
qed

lemma plan_link_justified:
  assumes "plan_link H mc d (ft_root t @ [fi_name i]) source canonical t h = Inr (fi_action i, reason)"
    and "link_at d (ft_root t @ [fi_name i]) = Some text" "fi_source i = Some source" "hash_of H d source = Inr h" "fi_skill_id i \<noteq> None"
    and "d_present d (ft_root t @ [fi_name i])"
  shows "justified H mc d canonical t ledger i (fi_action i)"
proof -
  let ?e = "ft_root t @ [fi_name i]"
  have c: "canonical_content H d i ?e \<longleftrightarrow> same_content H d ?e h source = Inr True"
    using assms(3,4) by (simp add: canonical_content_def source_hash_def)
  have s: "is_symlink d ?e" using assms(2) by (simp add: is_symlink_def)
  show ?thesis
    using assms(1,3,5,6) s c by (auto simp: plan_link_def justified_def Let_def by_mode_def split: if_splits)
qed

lemma plan_dir_justified:
  assumes "plan_dir H d (ft_root t @ [fi_name i]) source t ledger h = Inr (fi_action i, fi_hash i, reason)"
    and "link_at d (ft_root t @ [fi_name i]) = None" "fi_source i = Some source" "hash_of H d source = Inr h" "fi_skill_id i \<noteq> None"
    and "d_present d (ft_root t @ [fi_name i])" "d_is_dir d (ft_root t @ [fi_name i])"
  shows "justified H mc d canonical t ledger i (fi_action i)"
proof -
  let ?e = "ft_root t @ [fi_name i]"
  have c: "canonical_content H d i ?e \<longleftrightarrow> same_content H d ?e h source = Inr True"
    using assms(3,4) by (simp add: canonical_content_def source_hash_def)
  have sh: "source_hash H d i = Inr h" using assms(3,4) by (simp add: source_hash_def)
  have s: "\<not> is_symlink d ?e" using assms(2) by (simp add: is_symlink_def)
  from assms(1) obtain current where cur: "hash_of H d ?e = Inr current" by (auto simp: plan_dir_def)
  have eq: "current = h \<Longrightarrow> same_content H d ?e h source = Inr True" using cur by (simp add: same_content_def)
  show ?thesis
    using assms(1,5,6,7) s c sh cur eq
    by (cases "fi_hash i") (auto simp: plan_dir_def justified_def Let_def path_name_def split: if_splits)
qed

lemma plan_entry_justified:
  assumes "plan_entry H mc d skill (ft_root t @ [name]) canonical t ledger = Inr i"
  shows "justified H mc d canonical t ledger i (fi_action i) \<and> fi_source i = Some (realpath d (sk_path skill))"
proof -
  let ?e = "ft_root t @ [name]" and ?s = "realpath d (sk_path skill)"
  from assms obtain h where h: "hash_of H d ?s = Inr h" by (auto simp: plan_entry_def Let_def)
  have n: "path_name ?e = name" by (simp add: path_name_def)
  show ?thesis
  proof (cases "d_present d ?e")
    case False
    with assms h n show ?thesis by (auto simp: plan_entry_def Let_def by_mode_def justified_def)
  next
    case True
    show ?thesis
    proof (cases "link_at d ?e")
      case (Some s)
      with assms h n True obtain r where p: "plan_link H mc d ?e ?s canonical t h = Inr (fi_action i, r)"
        and i: "fi_name i = name" "fi_source i = Some ?s" "fi_skill_id i = Some (sk_id skill)"
        by (auto simp: plan_entry_def Let_def)
      with plan_link_justified [of H mc d t i ?s canonical h r s ledger] Some h True show ?thesis by simp
    next
      case None
      show ?thesis
      proof (cases "d_is_dir d ?e")
        case False
        with assms h n True None show ?thesis by (auto simp: plan_entry_def Let_def justified_def is_symlink_def)
      next
        case dir: True
        with assms h n True None obtain r where p: "plan_dir H d ?e ?s t ledger h = Inr (fi_action i, fi_hash i, r)"
          and i: "fi_name i = name" "fi_source i = Some ?s" "fi_skill_id i = Some (sk_id skill)"
          by (auto simp: plan_entry_def Let_def)
        with plan_dir_justified [of H d t i ?s ledger h r mc canonical] None dir h True show ?thesis by simp
      qed
    qed
  qed
qed

lemma removal_justified:
  "removal H d t canonical ledger name = Inr xs \<Longrightarrow> i \<in> set xs \<Longrightarrow> justified H mc d canonical t ledger i (fi_action i)"
  by (auto simp: removal_def Let_def bare_item_def justified_def is_symlink_def path_parent_def split: option.splits if_splits)

lemma removal_licensed:
  "removal H d t canonical ledger name = Inr xs \<Longrightarrow> i \<in> set xs
    \<Longrightarrow> licence H mc d canonical t ledger i (fi_action i) \<and> fi_name i = name \<and> fi_skill_id i = None"
  by (auto simp: removal_def Let_def bare_item_def is_symlink_def path_parent_def split: option.splits if_splits)

lemma removals_mem:
  assumes "removals H d t canonical wanted ledger = Inr gone" "i \<in> set gone"
  obtains name xs where "removal H d t canonical ledger name = Inr xs" "i \<in> set xs" "\<not> starts_with name ''.''"
proof -
  let ?ns = "filter (\<lambda>n. \<not> starts_with n ''.'' \<and> n \<notin> set wanted) (d_iterdir d (ft_root t))"
  from assms obtain ys xs where y: "mapR (removal H d t canonical ledger) ?ns = Inr ys" "xs \<in> set ys" "i \<in> set xs"
    by (auto simp: removals_def split: if_splits)
  from mapR_mem [OF y(1,2)] y(3) that show ?thesis by auto
qed

lemma place_skill_licensed:
  "place_skill H mc d canonical t ledger skill = Inr (Inr i)
    \<Longrightarrow> licence H mc d canonical t ledger i (fi_action i) \<and> fi_skill_id i = Some (sk_id skill)"
  by (auto simp: place_skill_def Let_def dest!: plan_entry_licensed split: option.splits)

lemma place_skill_justified:
  "place_skill H mc d canonical t ledger skill = Inr (Inr i)
    \<Longrightarrow> justified H mc d canonical t ledger i (fi_action i) \<and> fi_source i = Some (realpath d (sk_path skill))
      \<and> fi_name i = path_name (sk_path skill)"
  by (auto simp: place_skill_def Let_def dest: plan_entry_justified plan_entry_licensed split: option.splits)

lemma reasons_of_mem: "x \<in> set (reasons_of ps) \<longleftrightarrow> Inl x \<in> set ps"
  by (induction ps) (auto simp: reasons_of_def map_filter_simps split: sum.splits option.splits)

lemma items_reasons_length: "length (items_of ps) + length (reasons_of ps) = length ps"
  by (induction ps) (auto simp: items_of_def reasons_of_def map_filter_simps split: sum.splits option.splits)

lemma items_of_mem: "i \<in> set (items_of ps) \<longleftrightarrow> Inr i \<in> set ps"
  by (induction ps) (auto simp: items_of_def map_filter_simps split: sum.splits option.splits)

text \<open>What a report says of a skill: why it is not placed, or the one action that is planned for it.\<close>

definition accounted :: "device \<Rightarrow> path \<Rightarrow> fan_report \<Rightarrow> skill_record \<Rightarrow> bool" where
  "accounted d canonical r skill =
     (case skill_decision d skill canonical (fr_tool r) (ft_root (fr_tool r) @ [path_name (sk_path skill)]) of
        Some reason \<Rightarrow> reason \<in> set (fr_not_placed r)
      | None \<Rightarrow> list_ex (\<lambda>i. fi_name i = path_name (sk_path skill) \<and> fi_skill_id i = Some (sk_id skill)
          \<and> fi_source i = Some (realpath d (sk_path skill))) (fr_items r))"

lemma plan_accounts:
  assumes "build_fanout_plan H mc d canonical tools tool_ids ledgers = Inr (skills, reports)" and "r \<in> set reports" "fr_skipped r = None"
  shows "list_all (accounted d canonical r) skills
    \<and> length (filter (\<lambda>i. fi_skill_id i \<noteq> None) (fr_items r)) + length (fr_not_placed r) = length skills
    \<and> realpath d (ft_root (fr_tool r)) \<noteq> realpath d canonical
    \<and> (\<exists>ledger. tool_ledger mc d ledgers (fr_tool r) = Inr ledger
        \<and> list_all (\<lambda>i. licence H mc d canonical (fr_tool r) ledger i (fi_action i)
            \<and> justified H mc d canonical (fr_tool r) ledger i (fi_action i)) (fr_items r))"
proof -
  from assms(1,2) obtain t where t: "plan_tool H mc d canonical skills ledgers t = Inr r"
    by (auto simp: build_fanout_plan_def dest: mapR_mem)
  with assms(3) obtain ledger placed gone where p: "tool_ledger mc d ledgers t = Inr ledger"
    "mapR (place_skill H mc d canonical t ledger) skills = Inr placed"
    "removals H d t canonical (map fi_name (items_of placed)) ledger = Inr gone"
    and r: "fr_tool r = t" "fr_items r = items_of placed @ gone" "fr_not_placed r = reasons_of placed"
    and other: "realpath d (ft_root t) \<noteq> realpath d canonical"
    by (auto simp: plan_tool_def Let_def split: if_splits)
  have a: "licence H mc d canonical t ledger i (fi_action i) \<and> justified H mc d canonical t ledger i (fi_action i) \<and> fi_skill_id i \<noteq> None"
    if "i \<in> set (items_of placed)" for i
    using that mapR_mem [OF p(2)] place_skill_licensed place_skill_justified by (fastforce simp: items_of_mem)
  have b: "licence H mc d canonical t ledger i (fi_action i) \<and> justified H mc d canonical t ledger i (fi_action i) \<and> fi_skill_id i = None"
    if "i \<in> set gone" for i
    using removals_mem [OF p(3) that] removal_licensed removal_justified by metis
  have "filter (\<lambda>i. fi_skill_id i \<noteq> None) (fr_items r) = items_of placed"
    using a b by (auto simp: r filter_empty_conv intro!: filter_True)
  then have l: "length (filter (\<lambda>i. fi_skill_id i \<noteq> None) (fr_items r)) + length (fr_not_placed r) = length skills"
    using items_reasons_length [of placed] mapR_length [OF p(2)] by (simp only: r)
  have "accounted d canonical r skill" if s: "skill \<in> set skills" for skill
  proof -
    obtain x where x: "place_skill H mc d canonical t ledger skill = Inr x" "x \<in> set placed"
      using p(2) s by (fastforce simp: mapR_Inr_iff list_all2_conv_all_nth in_set_conv_nth)
    show ?thesis
    proof (cases x)
      case (Inl reason)
      with x show ?thesis
        by (auto simp: accounted_def r reasons_of_mem place_skill_def Let_def split: option.splits)
    next
      case (Inr i)
      then have "i \<in> set (items_of placed)" using x(2) by (simp add: items_of_mem)
      moreover from x(1) Inr have "skill_decision d skill canonical t (ft_root t @ [path_name (sk_path skill)]) = None"
        by (auto simp: place_skill_def Let_def split: option.splits)
      moreover from x(1) Inr place_skill_licensed place_skill_justified
      have "fi_skill_id i = Some (sk_id skill)" "fi_source i = Some (realpath d (sk_path skill))" "fi_name i = path_name (sk_path skill)"
        by blast+
      ultimately show ?thesis by (auto simp: accounted_def r list_ex_iff)
    qed
  qed
  with l p(1) a b other show ?thesis by (auto simp: r list_all_iff)
qed

lemma plan_licensed:
  assumes "build_fanout_plan H mc d canonical tools tool_ids ledgers = Inr (skills, [r])" "tool_ledger mc d ledgers (fr_tool r) = Inr ledger"
  shows "list_all (\<lambda>i. licence H mc d canonical (fr_tool r) ledger i (fi_action i)
    \<and> justified H mc d canonical (fr_tool r) ledger i (fi_action i)) (fr_items r)"
proof (cases "fr_skipped r")
  case None
  with plan_accounts [OF assms(1), of r] assms(2) show ?thesis by auto
next
  case (Some why)
  with assms(1) have "fr_items r = []" by (auto simp: build_fanout_plan_def plan_tool_def Let_def split: if_splits dest!: mapR_mem)
  then show ?thesis by simp
qed

text \<open>C8: the plan of the fan-out accounts for every skill in every tool that is there: with the reason for which it is not
  placed, or with an item for its name and its directory, and there are no others. It plans a change only where it has
  a licence: nothing is in the way, the entry is a link into the canonical root or one under a root that may be
  adopted, a directory, a copy that is still what the ledger of the tool recorded, or a link into the canonical root
  that points nowhere. And the content justifies it: a link from elsewhere, a directory that becomes a link, and one
  that is adopted have the content of the skill, as the hash of the skill's own directory or the comparison of an
  adoption computes it, and are recorded with no other hash; a copy that is updated differs from the skill; what is
  left alone as \<open>ok\<close> is a link to the skill or a recorded copy with its content; and what is called a conflict or a foreign
  link is one.\<close>

theorem a_fanout_plan_touches_only_its_own:
  assumes "build_fanout_plan H mc d canonical tools tool_ids ledgers = Inr (skills, reports)" and "r \<in> set reports" "fr_skipped r = None"
  shows "list_all (accounted d canonical r) skills
    \<and> length (filter (\<lambda>i. fi_skill_id i \<noteq> None) (fr_items r)) + length (fr_not_placed r) = length skills
    \<and> realpath d (ft_root (fr_tool r)) \<noteq> realpath d canonical
    \<and> (\<exists>ledger. tool_ledger mc d ledgers (fr_tool r) = Inr ledger
        \<and> list_all (\<lambda>i. licence H mc d canonical (fr_tool r) ledger i (fi_action i)
            \<and> justified H mc d canonical (fr_tool r) ledger i (fi_action i)) (fr_items r))"
  using plan_accounts [OF assms] .

section \<open>Names of items\<close>

lemma discover_clean: "md \<in> set (discover_skill_files p n) \<Longrightarrow> clean p \<Longrightarrow> clean md"
proof (induction p n arbitrary: md rule: discover_skill_files.induct)
  case (2 p es)
  from "2.prems"(1) consider "md = p @ [''SKILL.md'']"
    | n m where "(n, m) \<in> set es" "\<not> is_hidden_vendor_dir n" "n \<notin> set default_excluded_dirs" "md \<in> set (discover_skill_files (p @ [n]) m)"
    by (auto split: if_splits prod.splits)
  then show ?case
  proof cases
    case 1
    with "2.prems"(2) show ?thesis by simp
  next
    case (2 n m)
    then have "n \<noteq> ''..''" by (auto simp: is_hidden_vendor_dir_def starts_with_def)
    with "2.IH" [of "(n, m)" n m md] 2 "2.prems"(2) show ?thesis by auto
  qed
qed simp

lemma scan_found_path:
  "scan_found H w source mds acc = Inr (seen, skills) \<Longrightarrow> r \<in> set skills
    \<Longrightarrow> r \<in> set (snd acc) \<or> (\<exists>md \<in> set mds. sk_path r = path_parent md)"
proof (induction H w source mds acc arbitrary: seen skills rule: scan_found.induct)
  case (2 H w source md mds seen0 skills0)
  then show ?case by (fastforce simp: Let_def dest: scan_skill_Inr(6) split: if_splits)
qed auto

lemma scan_one_root_clean:
  assumes "scan_roots H w [(source, root)] = Inr summary" "r \<in> set (ss_skills summary)"
  shows "clean (sk_path r)"
proof -
  from assms obtain n seen skills where "scan_found H w source (discover_skill_files (norm_path root) n) ([], []) = Inr (seen, skills)" "r \<in> set skills"
    by (auto simp: scan_roots_def sort_records_def split: option.splits)
  from scan_found_path [OF this] discover_clean [of _ "norm_path root" n] show ?thesis
    by (auto simp: path_parent_def clean_butlast)
qed

lemma path_name_clean: "clean p \<Longrightarrow> path_name p \<noteq> ''..''"
  by (cases p rule: rev_cases) (auto simp: path_name_def)

lemma plan_names:
  assumes "build_fanout_plan H mc d canonical tools tool_ids ledgers = Inr (skills, reports)" "r \<in> set reports" "i \<in> set (fr_items r)"
  shows "fi_name i \<noteq> ''..''"
proof -
  from assms(1,2) obtain t where t: "plan_tool H mc d canonical skills ledgers t = Inr r" and c: "canonical_skills H (dv_world d) (realpath d canonical) = Inr skills"
    by (auto simp: build_fanout_plan_def dest: mapR_mem)
  from t assms(3) obtain ledger placed gone where p: "mapR (place_skill H mc d canonical t ledger) skills = Inr placed"
    "removals H d t canonical (map fi_name (items_of placed)) ledger = Inr gone" "i \<in> set (items_of placed) \<or> i \<in> set gone"
    by (auto simp: plan_tool_def Let_def split: if_splits)
  from p(3) show ?thesis
  proof
    assume "i \<in> set (items_of placed)"
    then obtain skill where s: "skill \<in> set skills" "place_skill H mc d canonical t ledger skill = Inr (Inr i)"
      using mapR_mem [OF p(1)] by (auto simp: items_of_mem)
    have "clean (sk_path skill)"
      using c s(1) scan_one_root_clean [of H "dv_world d"] by (cases "parse_root_spec (''canonical='' @ path_str (realpath d canonical))") (auto simp: canonical_skills_def)
    then have "path_name (sk_path skill) \<noteq> ''..''" by (rule path_name_clean)
    moreover have "fi_name i = path_name (sk_path skill)" using s(2) by (auto simp: place_skill_def Let_def dest: plan_entry_licensed split: option.splits)
    ultimately show ?thesis by simp
  next
    assume "i \<in> set gone"
    from removals_mem [OF p(2) this] obtain name xs where n: "removal H d t canonical ledger name = Inr xs" "i \<in> set xs"
      "\<not> starts_with name ''.''" .
    from removal_licensed [OF n(1,2)] have "fi_name i = name" by blast
    with n(3) show ?thesis by (auto simp: starts_with_def)
  qed
qed

section \<open>Example\<close>

text \<open>A canonical root with one skill; a tool with a link to it and a link to a skill that is gone.\<close>

definition fan_device :: device where
  "fan_device = \<lparr>dv_world = \<lparr>w_tree = NDir [(''k'', NDir [(''a'', NDir [(''SKILL.md'', NFile (Raw []))])]), (''t'', NDir []), (''s'', NDir [])],
       w_fault = None\<rparr>,
     dv_links = [([''t'', ''a''], ''/k/a''), ([''t'', ''gone''], ''/k/gone'')]\<rparr>"

definition link_tool :: fanout_tool where
  "link_tool = fan_tool ''codex'' [''t''] ''link'' [''codex'']"

theorem a_fanout_plan_touches_only_its_own_witness:
  "\<exists>skills r. build_fanout_plan raw_host demo_machine fan_device [''k''] (Some [link_tool]) [] [] = Inr (skills, [r])
     \<and> map fi_action (fr_items r) = [''ok'', ''remove_dangling_link'']
     \<and> length (filter (\<lambda>i. fi_skill_id i \<noteq> None) (fr_items r)) + length (fr_not_placed r) = length skills"
proof -
  have "case build_fanout_plan raw_host demo_machine fan_device [''k''] (Some [link_tool]) [] [] of Inl e \<Rightarrow> False
     | Inr (skills, rs) \<Rightarrow> length rs = 1 \<and> list_all (\<lambda>r. fr_skipped r = None \<and> map fi_action (fr_items r) = [''ok'', ''remove_dangling_link'']) rs"
    by code_simp
  then obtain skills r where p: "build_fanout_plan raw_host demo_machine fan_device [''k''] (Some [link_tool]) [] [] = Inr (skills, [r])"
    "fr_skipped r = None" "map fi_action (fr_items r) = [''ok'', ''remove_dangling_link'']"
    by (auto split: sum.splits simp: length_Suc_conv)
  from a_fanout_plan_touches_only_its_own [OF p(1) _ p(2)] p show ?thesis by auto
qed

end
