(* ===== verification/FanoutRun.thy ===== *)
theory FanoutRun
  imports FanoutPlan Daemon
begin

text \<open>
  The second half of \<open>fanout.py\<close>: executing a plan, tool by tool under the tool's lock, with the backups, the
  ledger and the record of the run; undoing a run from its record. Whether another process holds a tool's
  lock, the times, and the number of entries that the protection of the canonical root changes, are
  arguments.
\<close>

section \<open>Executing one item\<close>

definition fan_temp :: "path \<Rightarrow> string \<Rightarrow> path" where
  "fan_temp entry run_id = path_parent entry @ [''.'' @ path_name entry @ ''.skill-sync-tmp-'' @ run_id]"

definition only_when :: "(device \<Rightarrow> bool) \<Rightarrow> unit dio \<Rightarrow> unit dio" where
  "only_when b m = bindI (askI b) (\<lambda>yes. if yes then m else returnI ())"

definition on_os_error :: "unit dio \<Rightarrow> unit dio \<Rightarrow> unit dio" where
  "on_os_error m undo = catchI m (\<lambda>e. if exn_kind e = OSError then thenI undo (raiseI e) else raiseI e)"

definition swap_symlink :: "path \<Rightarrow> string \<Rightarrow> string \<Rightarrow> unit dio" where
  "swap_symlink entry target run_id = (let tmp = fan_temp entry run_id in
     thenI (only_when (\<lambda>d. d_present d tmp) (d_unlink tmp)) (thenI (d_symlink target tmp) (d_replace tmp entry)))"

definition copy_into :: "path \<Rightarrow> path \<Rightarrow> string \<Rightarrow> unit dio" where
  "copy_into source entry run_id = (let tmp = fan_temp entry run_id in
     thenI (only_when (\<lambda>d. d_present d tmp) (d_remove_path tmp)) (d_copytree source tmp))"

definition appeared :: "path \<Rightarrow> exn" where
  "appeared entry = Exn FanoutError (path_str entry @ '' appeared since planning'')"

text \<open>\<open>str\<close> of a hash that may be missing; the entry of the ledger.\<close>

definition hash_str :: "fan_item \<Rightarrow> string" where
  "hash_str i = (case fi_hash i of Some h \<Rightarrow> h | None \<Rightarrow> ''None'')"

definition item_source :: "fan_item \<Rightarrow> path" where
  "item_source i = (case fi_source i of Some p \<Rightarrow> p | None \<Rightarrow> [])"

text \<open>What is done to the entry, and what the record keeps of it.\<close>

definition execute_entry :: "fan_item \<Rightarrow> path \<Rightarrow> string \<Rightarrow> path \<Rightarrow> pydict dio" where
  "execute_entry i entry run_id backup =
     (let a = fi_action i; source = item_source i; target = path_str source; tmp = fan_temp entry run_id;
          backed = [(''backup_path'', PStr (path_str backup))] in
      if a = ''link'' then
        bindI (askI (\<lambda>d. d_present d entry)) (\<lambda>there. if there then raiseI (appeared entry)
          else thenI (swap_symlink entry target run_id) (returnI []))
      else if a = ''relink'' then
        bindI (bindI (askI (\<lambda>d. readlink d entry)) liftI) (\<lambda>old.
          thenI (swap_symlink entry target run_id) (returnI [(''old_link_target'', PStr old)]))
      else if a = ''replace_dir_with_link'' then
        thenI (d_move_path entry backup)
          (thenI (on_os_error (swap_symlink entry target run_id) (d_move_path backup entry)) (returnI backed))
      else if a = ''copy'' then
        thenI (copy_into source entry run_id)
          (bindI (askI (\<lambda>d. d_present d entry)) (\<lambda>there. if there then thenI (d_remove_path tmp) (raiseI (appeared entry))
            else thenI (on_os_error (d_replace tmp entry) (d_remove_path tmp)) (returnI [])))
      else if a = ''update_copy'' then
        thenI (copy_into source entry run_id)
          (thenI (on_os_error (thenI (d_move_path entry backup) (d_replace tmp entry))
             (thenI (only_when (\<lambda>d. \<not> d_exists d entry \<and> d_exists d backup) (d_move_path backup entry)) (d_remove_path tmp))) (returnI backed))
      else if a = ''adopt'' then returnI []
      else if a = ''replace_link_with_copy'' then
        bindI (bindI (askI (\<lambda>d. readlink d entry)) liftI) (\<lambda>old.
          thenI (copy_into source entry run_id) (thenI (d_unlink entry)
            (thenI (on_os_error (d_replace tmp entry) (thenI (d_symlink old entry) (d_remove_path tmp)))
              (returnI [(''old_link_target'', PStr old)]))))
      else if a = ''remove_dangling_link'' then
        bindI (bindI (askI (\<lambda>d. readlink d entry)) liftI) (\<lambda>old.
          thenI (d_unlink entry) (returnI [(''old_link_target'', PStr old)]))
      else if a = ''remove_copy'' then thenI (d_move_path entry backup) (returnI backed)
      else raiseI (Exn FanoutError (''unknown fanout action: '' @ a)))"

text \<open>The ledger is written after the entry, and only then.\<close>

definition ledger_after :: "fan_item \<Rightarrow> ledger \<Rightarrow> ledger" where
  "ledger_after i ledger =
     (if fi_action i \<in> set [''copy'', ''update_copy'', ''adopt'', ''replace_link_with_copy''] then AList.update (fi_name i) (hash_str i) ledger
      else if fi_action i = ''remove_copy'' then AList.delete (fi_name i) ledger
      else ledger)"

definition execute_item :: "fanout_tool \<Rightarrow> fan_item \<Rightarrow> ledger \<Rightarrow> string \<Rightarrow> path \<Rightarrow> (pydict \<times> ledger) dio" where
  "execute_item t i ledger run_id backup_root =
     bindI (execute_entry i (ft_root t @ [fi_name i]) run_id (backup_root @ [fi_name i])) (\<lambda>extra.
       returnI ([(''name'', PStr (fi_name i)), (''action'', PStr (fi_action i)), (''content_hash'', opt_str (fi_hash i))] @ extra,
         ledger_after i ledger))"

section \<open>One tool\<close>

definition write_json_beside :: "path \<Rightarrow> pydict \<Rightarrow> unit io" where
  "write_json_beside p data =
     thenI (mkdirs (path_parent p)) (thenI (write_data (beside p) (Json (PDict data))) (replace_path (beside p) p))"

definition save_ledger :: "path \<Rightarrow> string \<Rightarrow> ledger \<Rightarrow> unit io" where
  "save_ledger p tool_id ledger =
     write_json_beside p [(''tool_id'', PStr tool_id), (''entries'', PDict (map (\<lambda>(k, h). (k, PDict [(''content_hash'', PStr h)])) (sort_items ledger)))]"

record fan_args =
  fa_machine :: machine
  fa_state :: "path option"
  fa_run_id :: string
  fa_busy :: "string \<Rightarrow> bool"
  fa_protected :: "path \<Rightarrow> device \<Rightarrow> int"
  fa_started :: string
  fa_finished :: string

definition tool_lock :: "fan_args \<Rightarrow> string \<Rightarrow> unit dio" where
  "tool_lock A tool_id = (let locks = fanout_dir (fa_machine A) (fa_state A) @ [''locks''] in
     thenI (on_world (mkdirs locks)) (thenI (on_world (write_data (locks @ [tool_id @ ''.lock'']) (Raw [])))
       (if fa_busy A tool_id then raiseI (Exn FanoutError (''another fanout is writing '' @ tool_id @ ''; gave up after 30s'')) else returnI ())))"

text \<open>The items that are not left alone: each is executed, or fails without stopping the others.\<close>

definition execute_one :: "fanout_tool \<Rightarrow> string \<Rightarrow> path \<Rightarrow> fan_item \<Rightarrow> pydict list \<times> pydict list \<times> ledger \<Rightarrow> (pydict list \<times> pydict list \<times> ledger) dio" where
  "execute_one t run_id backup_root i s = (case s of (executed, failed, ledger) \<Rightarrow>
     catchI (bindI (execute_item t i ledger run_id backup_root) (\<lambda>(entry, ledger'). returnI (executed @ [entry], failed, ledger')))
       (\<lambda>e. if exn_kind e \<in> set [OSError, FanoutError]
          then returnI (executed, failed @ [[(''name'', PStr (fi_name i)), (''action'', PStr (fi_action i)), (''error'', PStr (exn_text e))]], ledger)
          else raiseI e))"

definition to_execute :: "fan_report \<Rightarrow> fan_item list" where
  "to_execute r = filter (\<lambda>i. fi_action i \<notin> set noop_actions) (fr_items r)"

definition links_canonical :: "fan_report \<Rightarrow> bool" where
  "links_canonical r = (ft_mode (fr_tool r) = ''link''
     \<and> list_ex (\<lambda>i. fi_action i \<in> set [''ok'', ''link'', ''relink'', ''replace_dir_with_link'']) (fr_items r))"

definition conflict_names :: "fan_report \<Rightarrow> string list" where
  "conflict_names r = sort (map fi_name (filter (\<lambda>i. fi_action i = ''conflict'') (fr_items r)))"

definition tool_backups :: "fan_args \<Rightarrow> fanout_tool \<Rightarrow> path" where
  "tool_backups A t = fanout_dir (fa_machine A) (fa_state A) @ [''backups'', fa_run_id A, ft_id t]"

definition run_plan :: "fan_args \<Rightarrow> fanout_tool \<Rightarrow> ledger \<Rightarrow> fan_report \<Rightarrow> (pydict \<times> bool) dio" where
  "run_plan A t ledger r = (let head = [(''tool_id'', PStr (ft_id t)), (''mode'', PStr (ft_mode t)), (''root'', PStr (path_str (ft_root t)))] in
     case fr_skipped r of
       Some why \<Rightarrow> returnI (head @ [(''skipped'', PStr why)], False)
     | None \<Rightarrow>
         bindI (foldI (execute_one t (fa_run_id A) (tool_backups A t)) (to_execute r) ([], [], ledger)) (\<lambda>(executed, failed, ledger').
           thenI (if ft_mode t = ''copy'' then on_world (save_ledger (ledger_path (fa_machine A) (fa_state A) (ft_id t)) (ft_id t) ledger') else returnI ())
             (returnI (head @ [(''ledger_before'', PDict (map (\<lambda>(k, h). (k, PStr h)) ledger)), (''executed'', PList (map PDict executed)),
                (''failed'', PList (map PDict failed)), (''summary'', counts (fan_summary r)), (''conflicts'', PList (map PStr (conflict_names r)))],
                links_canonical r))))"

text \<open>Under the lock: the ledger is read and the plan is made again.\<close>

definition run_tool :: "host \<Rightarrow> fan_args \<Rightarrow> path \<Rightarrow> fanout_tool \<Rightarrow> (pydict \<times> bool) dio" where
  "run_tool H A canonical t =
     thenI (tool_lock A (ft_id t))
       (bindI (bindI (askI (\<lambda>d. if ft_mode t = ''copy'' then load_ledger (dv_world d) (ledger_path (fa_machine A) (fa_state A) (ft_id t)) else Inr [])) liftI) (\<lambda>ledger.
        bindI (bindI (askI (\<lambda>d. build_fanout_plan H (fa_machine A) d canonical (Some [t]) [] [(ft_id t, ledger)])) liftI) (\<lambda>(skills, reports).
          run_plan A t ledger (hd reports))))"

section \<open>A run\<close>

fun run_tools :: "host \<Rightarrow> fan_args \<Rightarrow> path \<Rightarrow> fanout_tool list \<Rightarrow> pydict list \<times> bool \<Rightarrow> device \<Rightarrow> exn option \<times> (pydict list \<times> bool) \<times> device" where
  "run_tools H A canonical [] s d = (None, s, d)"
| "run_tools H A canonical (t # ts) s d =
     (case run_tool H A canonical t d of
        (Inl e, d') \<Rightarrow> (Some e, s, d')
      | (Inr (report, linked), d') \<Rightarrow> run_tools H A canonical ts (fst s @ [report], snd s \<or> linked) d')"

definition keep_backup_runs :: nat where
  "keep_backup_runs = 5"

definition keep_run_records :: nat where
  "keep_run_records = 200"

definition all_but_last :: "nat \<Rightarrow> 'a list \<Rightarrow> 'a list" where
  "all_but_last keep xs = (if keep = 0 then xs else take (length xs - keep) xs)"

definition prune_backups :: "path \<Rightarrow> nat \<Rightarrow> string list io" where
  "prune_backups fanout keep w = (let root = fanout @ [''backups''] in
     if \<not> is_dir w root then (Inr [], w)
     else let old = all_but_last keep (filter (\<lambda>n. is_dir w (root @ [n])) (iterdir w root)) in
       thenI (foldI (\<lambda>n u. remove_path (root @ [n])) old ()) (returnI old) w)"

definition prune_run_records :: "path \<Rightarrow> nat \<Rightarrow> nat io" where
  "prune_run_records fanout keep w = (let root = fanout @ [''runs''] in
     if \<not> is_dir w root then (Inr 0, w)
     else let old = all_but_last keep (filter (\<lambda>n. ends_with n ''.json'' \<and> n \<noteq> ''.json'') (iterdir w root)) in
       thenI (foldI (\<lambda>n u. unlink (root @ [n])) old ()) (returnI (length old)) w)"

definition run_record_path :: "fan_args \<Rightarrow> path" where
  "run_record_path A = fanout_dir (fa_machine A) (fa_state A) @ [''runs'', fa_run_id A @ ''.json'']"

text \<open>The \<open>finally\<close> of a run: the record is written whether or not a tool raised.\<close>

definition finish_run :: "fan_args \<Rightarrow> path \<Rightarrow> bool \<Rightarrow> pydict list \<times> bool \<Rightarrow> pydict dio" where
  "finish_run A canonical protect s = (let fanout = fanout_dir (fa_machine A) (fa_state A) in
     bindI (askI (fa_protected A canonical)) (\<lambda>changed.
     bindI (on_world (prune_backups fanout keep_backup_runs)) (\<lambda>pruned.
       let rec = [(''record_type'', PStr ''skill-sync-fanout-run''), (''run_id'', PStr (fa_run_id A)), (''canonical_root'', PStr (path_str canonical)),
              (''started_at'', PStr (fa_started A)), (''tools'', PList (map PDict (fst s)))]
            @ (if snd s \<and> protect then [(''protected_entries'', PInt changed)] else [])
            @ [(''finished_at'', PStr (fa_finished A)), (''pruned_backup_runs'', PList (map PStr pruned)),
               (''record_path'', PStr (path_str (run_record_path A)))] in
       thenI (on_world (write_json_beside (run_record_path A) rec))
         (bindI (on_world (prune_run_records fanout keep_run_records)) (\<lambda>n. returnI rec)))))"

definition run_with_record :: "host \<Rightarrow> fan_args \<Rightarrow> path \<Rightarrow> bool \<Rightarrow> fanout_tool list \<Rightarrow> pydict dio" where
  "run_with_record H A canonical protect ts d =
     (case run_tools H A canonical ts ([], False) d of
        (raised, s, d1) \<Rightarrow> (case finish_run A canonical protect s d1 of
            (Inl e, d2) \<Rightarrow> (Inl e, d2)
          | (Inr rec, d2) \<Rightarrow> (case raised of Some e \<Rightarrow> (Inl e, d2) | None \<Rightarrow> (Inr rec, d2))))"

definition run_fanout :: "host \<Rightarrow> fan_args \<Rightarrow> path \<Rightarrow> string list \<Rightarrow> fanout_tool list option \<Rightarrow> bool \<Rightarrow> bool \<Rightarrow> pydict dio" where
  "run_fanout H A canonical tool_ids tools yes protect =
     bindI (bindI (askI (\<lambda>d. tools_or_configured (fa_machine A) (dv_world d) tools)) liftI) (\<lambda>all.
       if \<not> yes
       then bindI (bindI (askI (\<lambda>d. build_fanout_plan H (fa_machine A) d canonical (Some all) tool_ids [])) liftI) (\<lambda>plan.
         returnI (fanout_plan_dict canonical plan))
       else bindI (liftI (select_tools all tool_ids)) (run_with_record H A canonical protect))"

section \<open>Undoing a run\<close>

definition link_actions :: "string list" where
  "link_actions = [''link'', ''relink'', ''replace_dir_with_link'']"

definition copy_actions :: "string list" where
  "copy_actions = [''copy'', ''update_copy'', ''replace_link_with_copy'']"

text \<open>Whether the entry is still what the run left.\<close>

definition still_ours :: "host \<Rightarrow> device \<Rightarrow> path \<Rightarrow> path \<Rightarrow> string \<Rightarrow> pyval \<Rightarrow> bool res" where
  "still_ours H d canonical entry a content_hash =
     (if a \<in> set link_actions
      then Inr (is_symlink d entry \<and> within (realpath d entry) (realpath d canonical))
      else if a \<in> set copy_actions
      then (if real_dir d entry then bindR (hash_of H d entry) (\<lambda>h. Inr (opt_str h = content_hash)) else Inr False)
      else Inr (\<not> d_present d entry \<or> a = ''adopt''))"

definition put_back :: "pydict \<Rightarrow> path \<Rightarrow> string \<Rightarrow> unit dio" where
  "put_back entry_done entry a =
     (let backup = path_of (py_str (dget entry_done ''backup_path'')); old = dget entry_done ''old_link_target'' in
      thenI (if a \<in> set link_actions then d_unlink entry else returnI ())
      (thenI (only_when (\<lambda>d. a \<in> set copy_actions \<and> d_exists d entry) (d_remove_path entry))
      (thenI (only_when (\<lambda>d. truthy (dget entry_done ''backup_path'') \<and> d_exists d backup) (d_move_path backup entry))
        (only_when (\<lambda>d. truthy old \<and> \<not> d_present d entry) (d_symlink (py_str old) entry)))))"

definition rollback_entry :: "host \<Rightarrow> path \<Rightarrow> string \<Rightarrow> path \<Rightarrow> bool \<Rightarrow> pydict \<Rightarrow> pydict dio" where
  "rollback_entry H canonical tool_id root yes entry_done =
     bindI (liftI (dindex entry_done ''name'')) (\<lambda>name. bindI (liftI (dindex entry_done ''action'')) (\<lambda>action.
       let entry = path_div root (py_str name); a = py_str action;
           outcome = (\<lambda>result. [(''tool_id'', PStr tool_id), (''name'', name), (''action'', action), (''result'', PStr result)]) in
       bindI (bindI (askI (\<lambda>d. still_ours H d canonical entry a (dget entry_done ''content_hash''))) liftI) (\<lambda>ours.
         if \<not> ours then returnI (outcome ''skipped: entry changed since the run'')
         else thenI (if yes then put_back entry_done entry a else returnI ())
           (returnI (outcome (if yes then ''restored'' else ''would restore''))))))"

definition ledger_of :: "pyval \<Rightarrow> ledger res" where
  "ledger_of v = (case v of PDict d \<Rightarrow> Inr (map (\<lambda>(k, h). (k, py_str h)) d)
     | _ \<Rightarrow> Inl (Exn ValueError ''dictionary update sequence element #0 has length 1; 2 is required''))"

definition as_items :: "pyval \<Rightarrow> pydict list res" where
  "as_items v = bindR (py_iter v) (mapR as_dict)"

definition rollback_tool :: "host \<Rightarrow> fan_args \<Rightarrow> path \<Rightarrow> bool \<Rightarrow> pydict \<Rightarrow> pydict list dio" where
  "rollback_tool H A canonical yes report =
     (if truthy (dget report ''skipped'') then returnI []
      else bindI (liftI (dindex report ''root'')) (\<lambda>root. bindI (liftI (dindex report ''tool_id'')) (\<lambda>tool_id.
        thenI (tool_lock A (py_str tool_id))
        (bindI (liftI (as_items (dget_or report ''executed'' (PList [])))) (\<lambda>entries.
         bindI (mapI (rollback_entry H canonical (py_str tool_id) (path_of (py_str root)) yes) (rev entries)) (\<lambda>results.
           if yes \<and> dget report ''mode'' = PStr ''copy'' \<and> dhas report ''ledger_before''
           then bindI (liftI (ledger_of (dget report ''ledger_before''))) (\<lambda>before.
             thenI (on_world (save_ledger (ledger_path (fa_machine A) (fa_state A) (py_str tool_id)) (py_str tool_id) before)) (returnI results))
           else returnI results))))))"

definition rollback_fanout :: "host \<Rightarrow> fan_args \<Rightarrow> path \<Rightarrow> bool \<Rightarrow> pydict dio" where
  "rollback_fanout H A record_path yes =
     bindI (on_world (read_json record_path)) (\<lambda>v. bindI (liftI (as_dict v)) (\<lambda>rec.
     bindI (liftI (dindex rec ''canonical_root'')) (\<lambda>canonical.
     bindI (liftI (as_items (dget_or rec ''tools'' (PList [])))) (\<lambda>reports.
     bindI (mapI (rollback_tool H A (path_of (py_str canonical)) yes) (rev reports)) (\<lambda>results.
       returnI [(''record_path'', PStr (path_str record_path)), (''run_id'', dget rec ''run_id''), (''dry_run'', PBool (\<not> yes)),
         (''items'', PList (map PDict (concat results)))])))))"

section \<open>What a run touches\<close>

lemma fan_temp_clean: "clean entry \<Longrightarrow> entry \<noteq> [] \<Longrightarrow> clean (fan_temp entry run_id)"
  by (simp add: fan_temp_def path_parent_def clean_butlast)

lemma keeps_here_only_when [here_intros]: "keeps (here q) m \<Longrightarrow> keeps (here q) (only_when b m)"
  unfolding only_when_def by (intro keeps_intros keeps_ask)

lemma keeps_here_on_os_error [here_intros]: "keeps (here q) m \<Longrightarrow> keeps (here q) k \<Longrightarrow> keeps (here q) (on_os_error m k)"
  unfolding on_os_error_def by (intro keeps_intros)

lemma keeps_here_swap [here_intros]:
  "clean entry \<Longrightarrow> entry \<noteq> [] \<Longrightarrow> apart entry q \<Longrightarrow> apart (fan_temp entry run_id) q \<Longrightarrow> keeps (here q) (swap_symlink entry target run_id)"
  unfolding swap_symlink_def Let_def by (intro keeps_intros here_intros) (simp_all add: fan_temp_clean)

lemma keeps_here_copy_into [here_intros]:
  "clean entry \<Longrightarrow> entry \<noteq> [] \<Longrightarrow> apart (fan_temp entry run_id) q \<Longrightarrow> keeps (here q) (copy_into source entry run_id)"
  unfolding copy_into_def Let_def by (intro keeps_intros here_intros) (simp_all add: fan_temp_clean)

lemma keeps_here_execute_entry:
  assumes "clean entry" "entry \<noteq> []" "clean backup" "apart entry q" "apart (fan_temp entry run_id) q" "apart backup q"
  shows "keeps (here q) (execute_entry i entry run_id backup)"
  unfolding execute_entry_def Let_def
  by (intro keeps_intros here_intros) (simp_all add: assms fan_temp_clean path_name_clean)

lemma keeps_here_execute_one:
  assumes "clean (ft_root t)" "clean backups" "fi_name i \<noteq> ''..''" "apart (ft_root t @ [fi_name i]) q"
    and "apart (fan_temp (ft_root t @ [fi_name i]) run_id) q" "apart backups q"
  shows "keeps (here q) (execute_one t run_id backups i s)"
proof -
  have b: "apart (backups @ [fi_name i]) q" using assms(6) apart_under prefixI by blast
  obtain x f l where s: "s = (x, f, l)" by (cases s)
  have "keeps (here q) (execute_item t i l run_id backups)"
    unfolding execute_item_def by (intro keeps_intros keeps_here_execute_entry) (simp_all add: assms b)
  then show ?thesis unfolding execute_one_def s prod.case
    by (intro keeps_intros) (auto intro!: keeps_intros split: prod.split)
qed

lemma write_json_beside_under: "clean p \<Longrightarrow> p \<noteq> [] \<Longrightarrow> only_under (path_parent p) (write_json_beside p data)"
  unfolding write_json_beside_def beside_def
  by (intro frame_intros) (auto simp: path_parent_def clean_butlast apart_def prefixeq_butlast path_name_def)

lemma tool_lock_keeps:
  assumes "clean (fanout_dir (fa_machine A) (fa_state A))" "apart (fanout_dir (fa_machine A) (fa_state A)) q"
  shows "keeps (here q) (tool_lock A tool_id)"
proof -
  let ?locks = "fanout_dir (fa_machine A) (fa_state A) @ [''locks'']"
  have l: "tool_id @ ''.lock'' \<noteq> ''..''" by (cases tool_id) auto
  have "keeps (here q) (on_world (mkdirs ?locks))" "keeps (here q) (on_world (write_data (?locks @ [tool_id @ ''.lock'']) (Raw [])))"
    using assms l
    by (auto intro!: keeps_here_world [of "fanout_dir (fa_machine A) (fa_state A)"] only_under_mkdirs only_under_write_data simp: apart_def)
  then show ?thesis unfolding tool_lock_def Let_def by (intro keeps_intros)
qed

lemma keeps_here_run_plan:
  assumes f: "clean (fanout_dir (fa_machine A) (fa_state A))" "apart (fanout_dir (fa_machine A) (fa_state A)) q" and "clean (ft_root t)"
    and "fa_run_id A \<noteq> ''..''" "ft_id t \<noteq> ''..''"
    and "\<And>i. i \<in> set (to_execute r) \<Longrightarrow> fi_name i \<noteq> ''..'' \<and> apart (ft_root t @ [fi_name i]) q
      \<and> apart (fan_temp (ft_root t @ [fi_name i]) (fa_run_id A)) q"
  shows "keeps (here q) (run_plan A t ledger r)"
proof -
  let ?F = "fanout_dir (fa_machine A) (fa_state A)"
  have b: "clean (tool_backups A t)" "apart (tool_backups A t) q"
    using assms(4,5) f apart_under [OF f(2), of "tool_backups A t"] by (simp_all add: tool_backups_def)
  have l: "ft_id t @ ''.json'' \<noteq> ''..''" by (cases "ft_id t") auto
  have "keeps (here q) (on_world (save_ledger (ledger_path (fa_machine A) (fa_state A) (ft_id t)) (ft_id t) x))" for x
    unfolding save_ledger_def
    by (rule keeps_here_world [OF write_json_beside_under]) (use f l in \<open>simp_all add: ledger_path_def path_parent_def\<close>)
  moreover have "keeps (here q) (foldI (execute_one t (fa_run_id A) (tool_backups A t)) (to_execute r) s)" for s
    by (intro keeps_intros keeps_here_execute_one) (use assms(3,6) b in auto)
  ultimately show ?thesis unfolding run_plan_def Let_def
    by (auto intro!: keeps_pure keeps_bindI keeps_thenI keeps_if split: option.split prod.split)
qed

text \<open>The places of a run: the directory of its records, and names that are names.\<close>

definition fan_layout :: "fan_args \<Rightarrow> fanout_tool \<Rightarrow> bool" where
  "fan_layout A t = (clean (fanout_dir (fa_machine A) (fa_state A)) \<and> clean (ft_root t) \<and> fa_run_id A \<noteq> ''..'' \<and> ft_id t \<noteq> ''..'')"

abbreviation "fan_state_dir A \<equiv> fanout_dir (fa_machine A) (fa_state A)"

text \<open>What a tool's turn does, once it has its lock: nothing that can be seen, or its plan.\<close>

lemma run_tool_cases:
  assumes "run_tool H A canonical t d = (r, d')" "fan_layout A t"
  obtains (raised) e where "r = Inl e" "\<And>q. apart (fan_state_dir A) q \<Longrightarrow> here q d' = here q d"
  | (planned) d1 ledger skills report where "\<And>q. apart (fan_state_dir A) q \<Longrightarrow> here q d1 = here q d"
      "tool_lock A (ft_id t) d = (Inr (), d1)"
      "(if ft_mode t = ''copy'' then load_ledger (dv_world d1) (ledger_path (fa_machine A) (fa_state A) (ft_id t)) else Inr []) = Inr ledger"
      "build_fanout_plan H (fa_machine A) d1 canonical (Some [t]) [] [(ft_id t, ledger)] = Inr (skills, [report])"
      "run_plan A t ledger report d1 = (r, d')" "fr_tool report = t"
proof -
  obtain r1 d1 where l: "tool_lock A (ft_id t) d = (r1, d1)" by (metis surj_pair)
  have k: "here q d1 = here q d" if "apart (fan_state_dir A) q" for q
    using keepsD [OF tool_lock_keeps l] assms(2) that by (simp add: fan_layout_def)
  show ?thesis
  proof (cases r1)
    case (Inl e)
    with l assms(1) k show ?thesis by (intro raised [of e]) (auto simp: run_tool_def thenI_def bindI_def)
  next
    case (Inr u)
    let ?led = "if ft_mode t = ''copy'' then load_ledger (dv_world d1) (ledger_path (fa_machine A) (fa_state A) (ft_id t)) else Inr []"
    show ?thesis
    proof (cases ?led)
      case (Inl e)
      with l Inr assms(1) k show ?thesis by (intro raised [of e]) (auto simp: run_tool_def thenI_def bindI_def askI_def liftI_def split: if_splits)
    next
      case led: (Inr ledger)
      let ?p = "build_fanout_plan H (fa_machine A) d1 canonical (Some [t]) [] [(ft_id t, ledger)]"
      show ?thesis
      proof (cases ?p)
        case (Inl e)
        with l Inr led assms(1) k show ?thesis
          by (intro raised [of e]) (auto simp: run_tool_def thenI_def bindI_def askI_def liftI_def split: if_splits)
      next
        case plan: (Inr sr)
        then obtain skills report where sr: "sr = (skills, [report])" "fr_tool report = t"
          by (auto simp: build_fanout_plan_def tools_or_configured_def select_tools_def plan_tool_def Let_def split: if_splits)
        from l Inr led plan sr assms(1) have "run_plan A t ledger report d1 = (r, d')"
          by (auto simp: run_tool_def thenI_def bindI_def askI_def liftI_def split: if_splits)
        with k plan sr l Inr led show ?thesis by (intro planned) auto
      qed
    qed
  qed
qed

lemma fan_temp_under: "prefix root (fan_temp (root @ [n]) run_id)"
  by (simp add: fan_temp_def path_parent_def)

lemma fan_temp_other: "\<not> starts_with n ''.'' \<Longrightarrow> apart (fan_temp (root @ [m]) run_id) (root @ [n])"
  by (auto simp: fan_temp_def path_parent_def path_name_def starts_with_def intro!: apart_siblings)

text \<open>C9: the fan-out leaves alone what its plan leaves alone. Whatever happens during a tool's turn, faults included,
  nothing outside the tool's directory and the directory of the fan-out's own records has changed, so also the
  canonical root is as it was. In the tool's directory nothing has changed either, and the turn raised; or, on the
  device as the lock of the tool left it, with the ledger that is then read from the tool's ledger file (none for a
  tool of links), there is a plan in which each action has its licence and is justified by the content, and nothing
  has changed apart from the entries that the plan changes and their temporary names: every entry that it calls \<open>ok\<close>, a
  conflict or a foreign link is as it was, when its name is not one that the plan also changes.\<close>

theorem a_fanout_leaves_the_rest_alone:
  assumes "run_tool H A canonical t d = (r, d')" "fan_layout A t"
  shows "(\<forall>q. apart (fan_state_dir A) q \<and> apart (ft_root t) q \<longrightarrow> here q d' = here q d)
    \<and> (\<forall>q. apart (fan_state_dir A) canonical \<and> apart (ft_root t) canonical \<and> prefix canonical q \<longrightarrow> here q d' = here q d)
    \<and> ((\<exists>e. r = Inl e) \<and> (\<forall>q. apart (fan_state_dir A) q \<longrightarrow> here q d' = here q d)
      \<or> (\<exists>d1 ledger skills report. tool_lock A (ft_id t) d = (Inr (), d1)
        \<and> (if ft_mode t = ''copy'' then load_ledger (dv_world d1) (ledger_path (fa_machine A) (fa_state A) (ft_id t)) else Inr []) = Inr ledger
        \<and> build_fanout_plan H (fa_machine A) d1 canonical (Some [t]) [] [(ft_id t, ledger)] = Inr (skills, [report])
        \<and> list_all (\<lambda>i. licence H (fa_machine A) d1 canonical t ledger i (fi_action i)
            \<and> justified H (fa_machine A) d1 canonical t ledger i (fi_action i)) (fr_items report)
        \<and> (\<forall>q. apart (fan_state_dir A) q \<longrightarrow> here q d1 = here q d)
        \<and> (\<forall>q. apart (fan_state_dir A) q \<and> list_all (\<lambda>i. apart (ft_root t @ [fi_name i]) q
              \<and> apart (fan_temp (ft_root t @ [fi_name i]) (fa_run_id A)) q) (to_execute report) \<longrightarrow> here q d' = here q d)
        \<and> (\<forall>i \<in> set (fr_items report). fi_action i \<in> {''ok'', ''conflict'', ''foreign_link''} \<and> \<not> starts_with (fi_name i) ''.''
              \<and> fi_name i \<notin> fi_name ` set (to_execute report) \<and> apart (fan_state_dir A) (ft_root t @ [fi_name i])
            \<longrightarrow> here (ft_root t @ [fi_name i]) d' = here (ft_root t @ [fi_name i]) d)))"
proof -
  have sub: "apart (ft_root t) q \<Longrightarrow> apart (ft_root t @ [n]) q \<and> apart (fan_temp (ft_root t @ [n]) run) q" for q n run
    using apart_under [OF _ prefixI] apart_under [OF _ fan_temp_under] by blast
  have below: "apart p q" if "apart p canonical" "prefix canonical q" for p q
    using apart_under [OF apart_sym [OF that(1)] that(2)] by (rule apart_sym)
  from assms show ?thesis
  proof (cases rule: run_tool_cases)
    case (raised e)
    with below show ?thesis by blast
  next
    case (planned d1 ledger skills report)
    have l: "list_all (\<lambda>i. licence H (fa_machine A) d1 canonical t ledger i (fi_action i)
        \<and> justified H (fa_machine A) d1 canonical t ledger i (fi_action i)) (fr_items report)"
      using plan_licensed [OF planned(4)] planned(6) by (simp add: tool_ledger_def)
    have k: "here q d' = here q d" if "apart (fan_state_dir A) q" "list_all (\<lambda>i. apart (ft_root t @ [fi_name i]) q
        \<and> apart (fan_temp (ft_root t @ [fi_name i]) (fa_run_id A)) q) (to_execute report)" for q
    proof -
      have "keeps (here q) (run_plan A t ledger report)"
        using assms(2) that plan_names [OF planned(4)]
        by (intro keeps_here_run_plan) (auto simp: fan_layout_def list_all_iff to_execute_def)
      from keepsD [OF this planned(5)] planned(1) [OF that(1)] show ?thesis by simp
    qed
    have out: "here q d' = here q d" if "apart (fan_state_dir A) q" "apart (ft_root t) q" for q
      using k [OF that(1)] sub [OF that(2)] by (simp add: list_all_iff)
    have noop: "here (ft_root t @ [n]) d' = here (ft_root t @ [n]) d"
      if "\<not> starts_with n ''.''" "n \<notin> fi_name ` set (to_execute report)" "apart (fan_state_dir A) (ft_root t @ [n])" for n
      using that by (intro k) (auto simp: list_all_iff intro!: fan_temp_other apart_siblings)
    show ?thesis
    proof (intro conjI)
      show "\<forall>q. apart (fan_state_dir A) q \<and> apart (ft_root t) q \<longrightarrow> here q d' = here q d" using out by blast
      show "\<forall>q. apart (fan_state_dir A) canonical \<and> apart (ft_root t) canonical \<and> prefix canonical q \<longrightarrow> here q d' = here q d"
        using out below by blast
    qed (use l planned(1-4) k noop in blast)
  qed
qed

end
