(* ===== verification/LinkTriples.thy ===== *)
theory LinkTriples
  imports Links
begin

text \<open>
  What the operations on a device leave at the places they touch: computed where no link stands on the way,
  and with the faults of \<open>World\<close>. A move that raises has left its directory at one of its two ends.
\<close>

section \<open>Paths without links on the way\<close>

definition unlinked :: "path \<Rightarrow> device \<Rightarrow> bool" where
  "unlinked p d = (\<forall>q. prefix q p \<longrightarrow> map_of (dv_links d) q = None)"

lemma follow_unlinked:
  "clean p \<Longrightarrow> \<forall>q. prefix q p \<longrightarrow> map_of L (acc @ q) = None \<Longrightarrow> follow n L acc p = Some (acc @ p)"
proof (induction p arbitrary: acc)
  case (Cons c cs)
  have "map_of L ((acc @ [c]) @ q) = None" if "prefix q cs" for q
    using Cons.prems(2) that by (metis Cons_prefix_Cons append.assoc append_Cons append_Nil)
  moreover have "map_of L (acc @ [c]) = None" using Cons.prems(2) by simp
  ultimately show ?case using Cons.IH [of "acc @ [c]"] Cons.prems(1) by simp
qed simp

lemma unlinked_resolves:
  assumes "clean p" "unlinked p d"
  shows "realpath d p = p" "d_at d p = lookup (w_tree (dv_world d)) p"
proof -
  have "follow 40 (dv_links d) [] p = Some p" using follow_unlinked [of p "dv_links d" "[]" 40] assms by (simp add: unlinked_def)
  then show "realpath d p = p" "d_at d p = lookup (w_tree (dv_world d)) p" by (simp_all add: realpath_def d_at_def)
qed

lemma unlinked_here: "unlinked p d \<Longrightarrow> fst (here p d) = None"
  by (simp add: unlinked_def here_def)

lemma unlinked_same: "dv_links d' = dv_links d \<Longrightarrow> unlinked p d' = unlinked p d"
  by (simp add: unlinked_def)

lemma unlinked_parent: "unlinked (butlast p) d \<Longrightarrow> fst (here p d) = None \<Longrightarrow> unlinked p d"
  by (cases p rule: rev_cases) (auto simp: unlinked_def here_def prefix_snoc)

lemma is_symlink_here: "clean p \<Longrightarrow> is_symlink d p \<longleftrightarrow> fst (here p d) \<noteq> None"
  by (simp add: is_symlink_def link_at_clean)

lemma there_here: "lookup (w_tree (dv_world d)) p = snd (here p d)"
  by (simp add: here_def)

section \<open>Steps\<close>

abbreviation "calm_device d \<equiv> no_fault (dv_world d)"

lemma dev_step_cases:
  obtains (ok) d0 where "dev_step f d = (Inr (), f d0)" "w_tree (dv_world d0) = w_tree (dv_world d)" "dv_links d0 = dv_links d"
      "calm_device d \<Longrightarrow> d0 = d"
  | (fault) d' where "dev_step f d = (Inl io_fault, d')" "w_tree (dv_world d') = w_tree (dv_world d)" "dv_links d' = dv_links d"
      "\<not> calm_device d"
proof (cases "w_fault (dv_world d)")
  case None
  then show ?thesis by (intro ok [of d]) (auto simp: dev_step_def)
next
  case (Some kp)
  obtain k part where kp: "kp = (k, part)" by (cases kp)
  show ?thesis
  proof (cases k)
    case 0
    with Some kp show ?thesis by (intro fault [of "d\<lparr>dv_world := (dv_world d)\<lparr>w_fault := None\<rparr>\<rparr>"]) (auto simp: dev_step_def)
  next
    case (Suc n)
    with Some kp show ?thesis
      by (intro ok [of "d\<lparr>dv_world := (dv_world d)\<lparr>w_fault := Some (n, part)\<rparr>\<rparr>"]) (auto simp: dev_step_def)
  qed
qed

text \<open>Replacing is all or nothing, for a link as for a tree, and raises only errors of the operating system.\<close>

lemma replace_path_os: "replace_path p t w = (Inl e, w') \<Longrightarrow> exn_kind e = OSError"
  by (auto simp: replace_path_def Let_def os_error_def io_fault_def step_clean_def
      split: option.splits if_splits node.splits list.splits prod.splits)

lemma d_replace_Inl:
  assumes "d_replace p t d = (Inl e, d')"
  shows "here q d' = here q d" "dv_links d' = dv_links d" "exn_kind e = OSError"
proof -
  have w: "here q d' = here q d \<and> dv_links d' = dv_links d \<and> exn_kind e = OSError" if "on_world (replace_path p t) d = (Inl e, d')"
    using that replace_path_Inl [of p t "dv_world d" e] replace_path_os [of p t "dv_world d" e]
    by (auto simp: on_world_def here_def split: prod.splits)
  have s: "here q d' = here q d \<and> dv_links d' = dv_links d \<and> exn_kind e = OSError" if "dev_step f d = (Inl e, d')" for f
    using that by (cases rule: dev_step_cases [of f d]) (auto simp: here_def io_fault_def)
  have "here q d' = here q d \<and> dv_links d' = dv_links d \<and> exn_kind e = OSError"
    using assms w s by (auto simp: d_replace_def Let_def os_error_def split: option.splits if_splits node.splits)
  then show "here q d' = here q d" "dv_links d' = dv_links d" "exn_kind e = OSError" by blast+
qed

lemma d_replace_tree:
  assumes "d_replace p t d = (Inr u, d')" "clean p" "clean t" "apart p t" "fst (here p d) = None" "fst (here t d) = None"
  shows "here t d' = (None, snd (here p d))" "here p d' = (None, None)" "dv_links d' = dv_links d" "snd (here p d) \<noteq> None"
proof -
  from assms(1,5,6) have r: "on_world (replace_path p t) d = (Inr u, d')"
    by (simp add: d_replace_def Let_def link_at_clean assms(2,3) is_symlink_here)
  then obtain w' where w: "replace_path p t (dv_world d) = (Inr u, w')" "d' = d\<lparr>dv_world := w'\<rparr>"
    by (auto simp: on_world_def split: prod.splits)
  note v = replace_path_Inr [OF assms(2-4) w(1)]
  show "here t d' = (None, snd (here p d))" "here p d' = (None, None)" "dv_links d' = dv_links d"
    using v(1,2) assms(5,6) w(2) by (simp_all add: here_def)
  show "snd (here p d) \<noteq> None" using w(1) assms(2) by (auto simp: replace_path_def Let_def here_def at_clean split: option.splits)
qed

lemma d_replace_link:
  assumes "d_replace p t d = (Inr u, d')" "clean p" "clean t" "apart p t" "fst (here p d) = Some x"
    and "parent_ok (w_tree (dv_world d)) t"
  shows "here t d' = (Some x, None)" "fst (here p d') = None"
proof -
  let ?f = "add_link t x \<circ> drop_link p \<circ> on_tree (\<lambda>y. if exists (dv_world d) t then del y t else y)"
  have n: "p \<noteq> t" "t \<noteq> []" using assms(4) by (auto simp: apart_def)
  from assms(1,5) n have "dev_step ?f d = (Inr u, d')"
    by (auto simp: d_replace_def Let_def link_at_clean assms(2,3) split: if_splits)
  then obtain d0 where d: "d' = ?f d0" "w_tree (dv_world d0) = w_tree (dv_world d)" "dv_links d0 = dv_links d"
    by (cases rule: dev_step_cases [of ?f d]) auto
  have "lookup (if exists (dv_world d) t then del (w_tree (dv_world d)) t else w_tree (dv_world d)) t = None"
    using lookup_del_under [OF n(2), of _ "[]"] by (auto simp: exists_def at_clean assms(3))
  then show "here t d' = (Some x, None)" by (auto simp: d here_def add_link_def drop_link_def on_tree_def update_conv split: if_splits)
  show "fst (here p d') = None" using n by (simp add: d here_def add_link_def drop_link_def on_tree_def update_conv delete_conv)
qed

section \<open>Moving a directory\<close>

lemma on_world_run: "on_world m d = (r, d') \<Longrightarrow> \<exists>w'. m (dv_world d) = (r, w') \<and> d' = d\<lparr>dv_world := w'\<rparr>"
  by (auto simp: on_world_def split: prod.splits)

lemma apart_parent:
  assumes "apart s t" "clean t"
  shows "\<not> prefix s (norm_path (path_parent t))" "\<not> prefix t (norm_path (path_parent t))"
proof -
  have e: "norm_path (path_parent t) = butlast t" using assms(2) by (simp add: path_parent_def clean_butlast)
  have "t \<noteq> []" using assms(1) by (auto simp: apart_def)
  then have "length (butlast t) < length t" by simp
  then show "\<not> prefix t (norm_path (path_parent t))" unfolding e using prefix_length_le by fastforce
  show "\<not> prefix s (norm_path (path_parent t))" unfolding e
    using assms(1) prefixeq_butlast [of t] prefix_order.trans [of s "butlast t" t] by (auto simp: apart_def)
qed

definition dir_here :: "path \<Rightarrow> node \<Rightarrow> device \<Rightarrow> bool" where
  "dir_here p n d = (here p d = (None, Some n) \<and> (\<exists>es. n = NDir es))"

lemma copy_over_dir:
  assumes "clean s" "clean t" "apart s t" "dir_here s n d" "fst (here t d) = None" "unlinked s d" "copy_over s t d = (r, d')"
  shows "dv_links d' = dv_links d \<and> (case r of Inl e \<Rightarrow> dir_here s n d' \<or> dir_here t n d' | Inr u \<Rightarrow> dir_here t n d' \<and> here s d' = (None, None))"
proof -
  obtain es where n: "n = NDir es" and s: "here s d = (None, Some n)" using assms(4) by (auto simp: dir_here_def)
  have a: "\<not> prefix s t" "s \<noteq> []" "apart t s" using assms(3) by (auto simp: apart_def)
  have "d_is_dir d s" "\<not> is_symlink d s" using s n unlinked_resolves [OF assms(1,6)] assms(1) by (auto simp: d_is_dir_def is_symlink_here there_here)
  with assms(7) a have c: "thenI (d_copytree s t) (on_world (rmtree s)) d = (r, d')" by (simp add: copy_over_def assms(1,2))
  obtain r1 d1 where d1: "d_copytree s t d = (r1, d1)" by (metis surj_pair)
  then have "on_world (copytree s t) d = (r1, d1)"
    using assms(2,5) unlinked_resolves(1) [OF assms(1,6)] by (simp add: d_copytree_def is_symlink_here)
  from on_world_run [OF this] obtain w1 where w1: "copytree s t (dv_world d) = (r1, w1)" "d1 = d\<lparr>dv_world := w1\<rparr>" by blast
  have "here s d1 = here s d" using keepsD [OF keeps_here_copytree d1] a(3) assms(2) by simp
  then have s1: "dir_here s n d1" using s n by (simp add: dir_here_def)
  show ?thesis
  proof (cases r1)
    case (Inl e)
    with c d1 s1 w1(2) show ?thesis by (auto simp: thenI_def bindI_def)
  next
    case (Inr u)
    from copytree_Inr [OF assms(2)] w1 Inr s have "lookup (w_tree w1) t = Some n" by (auto simp: at_clean assms(1) here_def)
    then have t1: "dir_here t n d1" using assms(5) n w1(2) by (simp add: dir_here_def here_def)
    from c d1 Inr have r: "on_world (rmtree s) d1 = (r, d')" by (simp add: thenI_def bindI_def)
    have t2: "here t d' = here t d1" using keepsD [OF keeps_here_rmtree r] assms(1,3) by simp
    from on_world_run [OF r] obtain w2 where w2: "rmtree s (dv_world d1) = (r, w2)" "d' = d1\<lparr>dv_world := w2\<rparr>" by blast
    have "here s d' = (None, None)" if "r = Inr u2" for u2
    proof -
      have "w_tree w2 = del (w_tree (dv_world d1)) s" using w2(1) that by (auto simp: rmtree_def Let_def assms(1) split: if_splits dest!: step_at_Inr)
      with s1 w2(2) lookup_del_under [OF a(2), of _ "[]"] show ?thesis by (simp add: dir_here_def here_def)
    qed
    with t1 t2 w2(2) w1(2) show ?thesis by (auto simp: dir_here_def split: sum.split)
  qed
qed

text \<open>From a directory to a place where nothing is.\<close>

definition movable :: "path \<Rightarrow> path \<Rightarrow> node \<Rightarrow> device \<Rightarrow> bool" where
  "movable s t n d = (dir_here s n d \<and> here t d = (None, None) \<and> unlinked s d \<and> unlinked t d)"

lemma move_keeps_directory:
  assumes "movable s t n d" "clean s" "clean t" "apart s t" "d_move_path s t d = (r, d')"
  shows "dv_links d' = dv_links d \<and> (case r of Inl e \<Rightarrow> dir_here s n d' \<or> dir_here t n d' | Inr u \<Rightarrow> dir_here t n d' \<and> here s d' = (None, None))"
proof -
  have s: "dir_here s n d" "here t d = (None, None)" "unlinked s d" "unlinked t d" using assms(1) by (simp_all add: movable_def)
  obtain r1 d1 where m: "on_world (mkdirs (path_parent t)) d = (r1, d1)" by (metis surj_pair)
  then obtain w1 where w1: "mkdirs (path_parent t) (dv_world d) = (r1, w1)" "d1 = d\<lparr>dv_world := w1\<rparr>" using on_world_run by blast
  note p = apart_parent [OF assms(4,3)]
  have h: "here s d1 = here s d" "here t d1 = here t d"
    using mkdirs_frame [OF p(1), of "dv_world d"] mkdirs_frame [OF p(2), of "dv_world d"] w1 by (simp_all add: here_def)
  have f: "unlinked s d1" "unlinked t d1" using s w1(2) by (simp_all add: unlinked_def)
  have s1: "dir_here s n d1" "here t d1 = (None, None)" using s h by (simp_all add: dir_here_def)
  show ?thesis
  proof (cases r1)
    case (Inl e)
    with m assms(5) s1 w1(2) show ?thesis by (auto simp: d_move_path_def thenI_def bindI_def)
  next
    case (Inr u)
    have nd: "\<not> d_is_dir d1 t" using s1(2) unlinked_resolves(2) [OF assms(3) f(2)] by (simp add: d_is_dir_def there_here)
    with m Inr assms(5) have c: "catchI (d_replace s t) (\<lambda>e. if exn_kind e = OSError then copy_over s t else raiseI e) d1 = (r, d')"
      by (simp add: d_move_path_def thenI_def bindI_def shutil_move_def Let_def cong: if_cong)
    obtain r2 d2 where v: "d_replace s t d1 = (r2, d2)" by (metis surj_pair)
    show ?thesis
    proof (cases r2)
      case (Inl e)
      note u = d_replace_Inl [OF v [unfolded Inl]]
      from c v Inl u(3) have o: "copy_over s t d2 = (r, d')" by (simp add: catchI_def)
      have "dir_here s n d2" "fst (here t d2) = None" "unlinked s d2" using u(1,2) s1 f by (simp_all add: dir_here_def unlinked_def)
      from copy_over_dir [OF assms(2-4) this o] u(2) w1(2) show ?thesis by simp
    next
      case i2: (Inr u2)
      have l: "fst (here s d1) = None" "fst (here t d1) = None" using s1 by (simp_all add: dir_here_def)
      note x = d_replace_tree [OF v [unfolded i2] assms(2-4) l]
      from c v i2 have "r = Inr u2" "d' = d2" by (simp_all add: catchI_def)
      with x(1-3) s1(1) w1(2) show ?thesis by (simp add: dir_here_def)
    qed
  qed
qed

section \<open>Which links an action may change\<close>

definition links_of :: "path \<Rightarrow> device \<Rightarrow> string option" where
  "links_of q d = map_of (dv_links d) q"

named_theorems link_intros \<open>which links an action on a device leaves as they are\<close>

lemma keeps_link_world [link_intros]: "keeps (links_of q) (on_world m)"
  by (simp add: keeps_def links_of_def)

lemma keeps_link_step: "(\<And>d. links_of q (f d) = links_of q d) \<Longrightarrow> keeps (links_of q) (dev_step f)"
  by (rule keepsI) (auto simp: dev_step_def links_of_def split: prod.split option.split)

lemma keeps_link_symlink [link_intros]: "norm_path p \<noteq> q \<Longrightarrow> keeps (links_of q) (d_symlink t p)"
  using keeps_link_step [of q "add_link (norm_path p) t"]
  by (auto simp: keeps_def d_symlink_def Let_def links_of_def add_link_def update_conv)

lemma keeps_link_unlink [link_intros]: "norm_path p \<noteq> q \<Longrightarrow> keeps (links_of q) (d_unlink p)"
  using keeps_link_step [of q "drop_link (norm_path p)"] keeps_link_world [of q "unlink p"]
  by (auto simp: keeps_def d_unlink_def Let_def links_of_def drop_link_def delete_conv)

lemma keeps_link_remove_path [link_intros]: "norm_path p \<noteq> q \<Longrightarrow> keeps (links_of q) (d_remove_path p)"
  using keeps_link_unlink [of p q] keeps_link_world [of q "rmtree p"] by (auto simp: keeps_def d_remove_path_def)

lemma keeps_link_copytree [link_intros]: "keeps (links_of q) (d_copytree s t)"
  using keeps_link_world [of q "copytree (realpath d s) t" for d] by (auto simp: keeps_def d_copytree_def)

lemma keeps_link_replace [link_intros]:
  assumes "norm_path p \<noteq> q" "norm_path t \<noteq> q"
  shows "keeps (links_of q) (d_replace p t)"
proof -
  have "keeps (links_of q) (dev_step (add_link (norm_path t) x \<circ> drop_link (norm_path p) \<circ> on_tree f))"
    "keeps (links_of q) (dev_step (drop_link (norm_path t) \<circ> on_tree f))" for x f
    using assms by (auto intro!: keeps_link_step simp: links_of_def add_link_def drop_link_def on_tree_def update_conv delete_conv)
  then show ?thesis using keeps_link_world [of q "replace_path p t"]
    by (auto simp: keeps_def d_replace_def Let_def split: option.split node.split)
qed

lemma keeps_link_copy_over [link_intros]:
  assumes "norm_path s \<noteq> q" "norm_path t \<noteq> q" shows "keeps (links_of q) (copy_over s t)"
proof -
  have "keeps (links_of q) (bindI (liftI r) (\<lambda>text. thenI (d_symlink text t) (d_unlink s)))"
    "keeps (links_of q) (thenI (d_copytree s t) (on_world (rmtree s)))"
    "keeps (links_of q) (thenI (on_world (copy_file s t)) (d_unlink s))" for r
    using assms by (auto intro!: keeps_intros link_intros)
  then show ?thesis by (auto simp: keeps_def copy_over_def)
qed

lemma keeps_link_move [link_intros]:
  assumes "norm_path s \<noteq> q" "norm_path t \<noteq> q" "norm_path (t @ [path_name s]) \<noteq> q"
  shows "keeps (links_of q) (d_move_path s t)"
proof -
  have "keeps (links_of q) (catchI (d_replace s r) (\<lambda>e. if exn_kind e = OSError then copy_over s r else raiseI e))"
    if "r = t \<or> r = t @ [path_name s]" for r
    using that assms by (auto intro!: keeps_intros link_intros)
  then have "keeps (links_of q) (shutil_move s t)" by (auto simp: keeps_def shutil_move_def Let_def)
  then show ?thesis unfolding d_move_path_def by (intro keeps_thenI link_intros)
qed

lemma unlinked_links: "unlinked p d \<longleftrightarrow> (\<forall>q. prefix q p \<longrightarrow> links_of q d = None)"
  by (simp add: unlinked_def links_of_def)

end
