(* ===== verification/FanoutSafe.thy ===== *)
theory FanoutSafe
  imports FanoutRun LinkTriples
begin

text \<open>
  What executing an item and undoing it leave at the entry of a tool: a directory that is replaced or removed
  survives, at its place or in the backup, and undoing puts back what was there.
\<close>

section \<open>The places of an entry\<close>

definition entry_layout :: "path \<Rightarrow> string \<Rightarrow> path \<Rightarrow> bool" where
  "entry_layout entry run_id backup = (entry \<noteq> [] \<and> clean entry \<and> clean backup \<and> apart entry backup \<and> apart (fan_temp entry run_id) backup)"

lemma fan_temp_apart: "entry \<noteq> [] \<Longrightarrow> apart (fan_temp entry run_id) entry"
proof -
  assume e: "entry \<noteq> []"
  have "''.'' @ path_name entry @ ''.skill-sync-tmp-'' @ run_id \<noteq> last entry"
    using arg_cong [of "''.'' @ path_name entry @ ''.skill-sync-tmp-'' @ run_id" "last entry" length] e by (auto simp: path_name_def)
  from apart_siblings [OF this, of "butlast entry"] e show ?thesis by (simp add: fan_temp_def path_parent_def)
qed

lemma fan_temp_prefix: "entry \<noteq> [] \<Longrightarrow> prefix q entry \<Longrightarrow> fan_temp entry run_id \<noteq> q"
  using fan_temp_apart [of entry run_id] by (auto simp: apart_def)

lemma only_when_run: "only_when b m d = (if b d then m d else (Inr (), d))"
  by (simp add: only_when_def bindI_def askI_def returnI_def)

text \<open>Making a copy beside the entry touches the copy only.\<close>

lemma copy_into_keeps:
  assumes "clean entry" "entry \<noteq> []" "copy_into source entry run_id d = (r, d')"
  shows "apart (fan_temp entry run_id) q \<Longrightarrow> here q d' = here q d" "fan_temp entry run_id \<noteq> q \<Longrightarrow> links_of q d' = links_of q d"
proof -
  show "here q d' = here q d" if "apart (fan_temp entry run_id) q"
    by (rule keepsD [OF keeps_here_copy_into assms(3)]) (use assms that in auto)
  have k: "keeps (links_of q) (copy_into source entry run_id)" if "fan_temp entry run_id \<noteq> q"
    unfolding copy_into_def Let_def only_when_def
    by (intro keeps_intros keeps_ask link_intros) (use that fan_temp_clean [OF assms(1,2)] in auto)
  show "links_of q d' = links_of q d" if "fan_temp entry run_id \<noteq> q" using keepsD [OF k [OF that] assms(3)] .
qed

text \<open>A swap that raises has changed the temporary link only.\<close>

lemma swap_symlink_Inl:
  assumes "clean entry" "entry \<noteq> []" "swap_symlink entry target run_id d = (Inl e, d')"
  shows "apart (fan_temp entry run_id) q \<Longrightarrow> here q d' = here q d" "fan_temp entry run_id \<noteq> q \<Longrightarrow> links_of q d' = links_of q d"
proof -
  let ?t = "fan_temp entry run_id"
  let ?m = "thenI (only_when (\<lambda>d. d_present d ?t) (d_unlink ?t)) (d_symlink target ?t)"
  have c: "clean ?t" using assms by (simp add: fan_temp_clean)
  obtain r1 d1 where m: "?m d = (r1, d1)" by (metis surj_pair)
  have "swap_symlink entry target run_id d = (case r1 of Inl e \<Rightarrow> (Inl e, d1) | Inr u \<Rightarrow> d_replace ?t entry d1)"
    using m by (auto simp: swap_symlink_def Let_def thenI_def bindI_def split: prod.splits sum.splits)
  with assms(3) have e: "d' = d1 \<or> d_replace ?t entry d1 = (Inl e, d')" by (auto split: sum.splits)
  then have f: "here q d' = here q d1" "dv_links d' = dv_links d1" for q using d_replace_Inl by blast+
  show "here q d' = here q d" if "apart ?t q"
  proof -
    have "keeps (here q) ?m" by (intro keeps_intros here_intros) (simp_all add: c that)
    from keepsD [OF this m] f show ?thesis by simp
  qed
  show "links_of q d' = links_of q d" if "?t \<noteq> q"
  proof -
    have "keeps (links_of q) ?m" unfolding only_when_def by (intro keeps_intros keeps_ask link_intros) (simp_all add: c that)
    from keepsD [OF this m] f(2) show ?thesis by (simp add: links_of_def)
  qed
qed

section \<open>A directory is never lost\<close>

definition survives :: "path \<Rightarrow> path \<Rightarrow> node \<Rightarrow> device \<Rightarrow> bool" where
  "survives entry backup n d = (dir_here entry n d \<or> dir_here backup n d)"

lemma movable_after:
  assumes "movable s t n d" "here s d' = here s d" "here t d' = here t d" "\<And>q. prefix q s \<or> prefix q t \<Longrightarrow> links_of q d' = links_of q d"
  shows "movable s t n d'"
  using assms by (auto simp: movable_def dir_here_def unlinked_links)

text \<open>The way back: only when nothing is at the entry.\<close>

lemma way_back_survives:
  assumes l: "entry_layout entry run_id backup" and "survives entry backup n d" "unlinked entry d" "unlinked backup d"
    and run: "thenI (only_when (\<lambda>d. \<not> d_exists d entry \<and> d_exists d backup) (d_move_path backup entry)) (d_remove_path (fan_temp entry run_id)) d = (r, d')"
  shows "survives entry backup n d'"
proof -
  from l have c: "clean entry" "clean backup" "apart entry backup" "entry \<noteq> []" "apart (fan_temp entry run_id) backup"
    by (simp_all add: entry_layout_def)
  let ?m = "only_when (\<lambda>d. \<not> d_exists d entry \<and> d_exists d backup) (d_move_path backup entry)"
  obtain r1 d1 where m: "?m d = (r1, d1)" by (metis surj_pair)
  have s1: "survives entry backup n d1"
  proof (cases "\<not> d_exists d entry \<and> d_exists d backup")
    case True
    with m have mv: "d_move_path backup entry d = (r1, d1)" by (simp add: only_when_run)
    have "here entry d = (None, None)" using True unlinked_resolves(2) [OF c(1) assms(3)] unlinked_here [OF assms(3)]
      by (simp add: d_exists_def there_here prod_eq_iff)
    with assms(2-4) have "movable backup entry n d" by (auto simp: survives_def movable_def dir_here_def)
    from move_keeps_directory [OF this c(2,1) apart_sym [OF c(3)] mv] show ?thesis by (auto simp: survives_def split: sum.splits)
  qed (use m assms(2) in \<open>auto simp: only_when_run split: if_splits\<close>)
  show ?thesis
  proof (cases r1)
    case (Inl e)
    with m run s1 show ?thesis by (auto simp: thenI_def bindI_def)
  next
    case (Inr u)
    with m run have x: "d_remove_path (fan_temp entry run_id) d1 = (r, d')" by (auto simp: thenI_def bindI_def)
    have "here q d' = here q d1" if "apart (fan_temp entry run_id) q" for q
      by (rule keepsD [OF keeps_here_remove_path x]) (simp add: fan_temp_clean c that)
    with fan_temp_apart [OF c(4)] c(5) s1 show ?thesis by (simp add: survives_def dir_here_def)
  qed
qed

lemma thenI_assoc: "thenI m (thenI k l) = thenI (thenI m k) l"
  by (rule ext) (auto simp: thenI_def bindI_def split: prod.split sum.split)

lemma thenI_return: "thenI m (returnI x) d = (r, d') \<Longrightarrow> \<exists>r0. m d = (r0, d') \<and> r = (case r0 of Inl e \<Rightarrow> Inl e | Inr u \<Rightarrow> Inr x)"
  by (auto simp: thenI_def bindI_def returnI_def split: prod.splits sum.splits)

lemma replace_dir_survives:
  assumes l: "entry_layout entry run_id backup" and m: "movable entry backup n d"
    and run: "thenI (d_move_path entry backup) (on_os_error (swap_symlink entry target run_id) (d_move_path backup entry)) d = (r, d')"
  shows "survives entry backup n d' \<and> (\<forall>u. r = Inr u \<longrightarrow> dir_here backup n d')"
proof -
  from l have c: "clean entry" "clean backup" "apart entry backup" "entry \<noteq> []" "apart (fan_temp entry run_id) backup"
    by (simp_all add: entry_layout_def)
  obtain r1 d1 where v: "d_move_path entry backup d = (r1, d1)" by (metis surj_pair)
  note k = move_keeps_directory [OF m c(1-3) v]
  show ?thesis
  proof (cases r1)
    case (Inl e)
    with v run k show ?thesis by (auto simp: thenI_def bindI_def survives_def)
  next
    case (Inr u)
    then have s: "dir_here backup n d1" "here entry d1 = (None, None)" "unlinked entry d1" "unlinked backup d1"
      using k m by (simp_all add: movable_def unlinked_def)
    from v run Inr have w: "on_os_error (swap_symlink entry target run_id) (d_move_path backup entry) d1 = (r, d')"
      by (simp add: thenI_def bindI_def)
    obtain r2 d2 where x: "swap_symlink entry target run_id d1 = (r2, d2)" by (metis surj_pair)
    show ?thesis
    proof (cases r2)
      case i2: (Inr u2)
      have "here backup d2 = here backup d1" by (rule keepsD [OF keeps_here_swap x]) (use c in simp_all)
      with s(1) x i2 w show ?thesis by (auto simp: on_os_error_def catchI_def survives_def dir_here_def)
    next
      case (Inl e)
      note y = swap_symlink_Inl [OF c(1,4) x [unfolded Inl]]
      have mv: "movable backup entry n d2"
        by (rule movable_after [of _ _ _ d1]) (use s y c fan_temp_apart [OF c(4)] fan_temp_prefix [OF c(4)] in \<open>auto simp: movable_def apart_def\<close>)
      from move_keeps_directory [OF mv c(2,1) apart_sym [OF c(3)]]
      have "survives entry backup n (snd (d_move_path backup entry d2))" by (cases "d_move_path backup entry d2") (auto simp: survives_def split: sum.splits)
      moreover have "survives entry backup n d2" using mv by (auto simp: survives_def movable_def)
      ultimately show ?thesis using w x Inl
        by (cases "d_move_path backup entry d2")
          (auto simp: on_os_error_def catchI_def thenI_def bindI_def raiseI_def split: if_splits sum.splits)
    qed
  qed
qed

lemma update_copy_survives:
  assumes l: "entry_layout entry run_id backup" and m: "movable entry backup n d"
    and run: "on_os_error (thenI (d_move_path entry backup) (d_replace (fan_temp entry run_id) entry))
       (thenI (only_when (\<lambda>d. \<not> d_exists d entry \<and> d_exists d backup) (d_move_path backup entry)) (d_remove_path (fan_temp entry run_id))) d = (r, d')"
  shows "survives entry backup n d' \<and> (\<forall>u. r = Inr u \<longrightarrow> dir_here backup n d')"
proof -
  from l have c: "clean entry" "clean backup" "apart entry backup" "entry \<noteq> []" "apart (fan_temp entry run_id) backup"
    by (simp_all add: entry_layout_def)
  let ?t = "fan_temp entry run_id" and ?m = "thenI (d_move_path entry backup) (d_replace (fan_temp entry run_id) entry)"
  let ?u = "thenI (only_when (\<lambda>d. \<not> d_exists d entry \<and> d_exists d backup) (d_move_path backup entry)) (d_remove_path (fan_temp entry run_id))"
  obtain r1 d1 where v: "d_move_path entry backup d = (r1, d1)" by (metis surj_pair)
  note k = move_keeps_directory [OF m c(1-3) v]
  have f1: "unlinked entry d1" "unlinked backup d1" using k m by (auto simp: movable_def unlinked_def)
  obtain r2 d2 where x: "?m d = (r2, d2)" by (metis surj_pair)
  have s2: "survives entry backup n d2 \<and> (case r2 of Inl e \<Rightarrow> unlinked entry d2 \<and> unlinked backup d2 | Inr u \<Rightarrow> dir_here backup n d2)"
  proof (cases r1)
    case (Inl e)
    with v x k f1 show ?thesis by (auto simp: thenI_def bindI_def survives_def)
  next
    case (Inr u)
    with v x have y: "d_replace ?t entry d1 = (r2, d2)" by (simp add: thenI_def bindI_def)
    show ?thesis
    proof (cases r2)
      case (Inl e)
      note z = d_replace_Inl [OF y [unfolded Inl]]
      from z(1) [of backup] z(2) k Inr f1 Inl show ?thesis by (auto simp: survives_def dir_here_def unlinked_def)
    next
      case i2: (Inr u2)
      have "here backup d2 = here backup d1" by (rule keepsD [OF keeps_here_replace y]) (use c fan_temp_clean in auto)
      with k Inr i2 show ?thesis by (simp add: survives_def dir_here_def)
    qed
  qed
  show ?thesis
  proof (cases r2)
    case (Inr u)
    with run x s2 show ?thesis by (auto simp: on_os_error_def catchI_def)
  next
    case (Inl e)
    obtain r3 d3 where w: "?u d2 = (r3, d3)" by (metis surj_pair)
    have "survives entry backup n d3" by (rule way_back_survives [OF l _ _ _ w]) (use s2 Inl in auto)
    with run x Inl w s2 show ?thesis
      by (auto simp: on_os_error_def catchI_def thenI_def [of ?u] bindI_def raiseI_def split: if_splits sum.splits)
  qed
qed

definition kept_by :: "path \<Rightarrow> path \<Rightarrow> node \<Rightarrow> pydict res \<Rightarrow> device \<Rightarrow> bool" where
  "kept_by entry backup n r d =
     (survives entry backup n d \<and> (case r of Inl e \<Rightarrow> True | Inr extra \<Rightarrow> dhas extra ''backup_path'' \<longrightarrow> dir_here backup n d))"

lemma copy_into_movable:
  assumes "entry_layout entry run_id backup" "movable entry backup n d" "copy_into source entry run_id d = (r1, d1)"
  shows "movable entry backup n d1"
proof -
  from assms(1) have c: "clean entry" "entry \<noteq> []" "apart (fan_temp entry run_id) backup" by (simp_all add: entry_layout_def)
  note k = copy_into_keeps [OF c(1,2) assms(3)]
  show ?thesis
    by (rule movable_after [OF assms(2)]) (use k c fan_temp_apart [OF c(2)] fan_temp_prefix [OF c(2)] in \<open>auto simp: apart_def\<close>)
qed

lemma movable_survives: "movable entry backup n d \<Longrightarrow> survives entry backup n d"
  by (simp add: movable_def survives_def)

lemma copy_action_survives:
  assumes l: "entry_layout entry run_id backup" and m: "movable entry backup n d"
    and run: "execute_entry i entry run_id backup d = (r, d')" "fi_action i = ''copy''"
  shows "kept_by entry backup n r d'"
proof -
  from l have c: "clean entry" "entry \<noteq> []" "apart (fan_temp entry run_id) backup" by (simp_all add: entry_layout_def)
  obtain r1 d1 where v: "copy_into (item_source i) entry run_id d = (r1, d1)" by (metis surj_pair)
  note k = copy_into_movable [OF l m v]
  then have "d_present d1 entry" using unlinked_resolves(2) [OF c(1), of d1]
    by (auto simp: movable_def d_present_def d_exists_def there_here dir_here_def)
  with run v have e: "(case r1 of Inl e \<Rightarrow> r = Inl e \<and> d' = d1
      | Inr u \<Rightarrow> thenI (d_remove_path (fan_temp entry run_id)) (raiseI (appeared entry)) d1 = (r, d'))"
    by (auto simp: execute_entry_def Let_def thenI_def [of "copy_into (item_source i) entry run_id"] bindI_def askI_def split: sum.split)
  show ?thesis
  proof (cases r1)
    case (Inl x)
    with e movable_survives [OF k] show ?thesis by (simp add: kept_by_def)
  next
    case (Inr u)
    obtain r2 d2 where w: "d_remove_path (fan_temp entry run_id) d1 = (r2, d2)" by (metis surj_pair)
    with e Inr have r: "d' = d2" "\<exists>x. r = Inl x" by (auto simp: thenI_def bindI_def raiseI_def split: sum.splits)
    have "here q d2 = here q d1" if "apart (fan_temp entry run_id) q" for q
      by (rule keepsD [OF keeps_here_remove_path w]) (simp add: fan_temp_clean c that)
    with movable_survives [OF k] fan_temp_apart [OF c(2)] c(3) r show ?thesis by (auto simp: kept_by_def survives_def dir_here_def)
  qed
qed

lemma update_action_survives:
  assumes l: "entry_layout entry run_id backup" and m: "movable entry backup n d"
    and run: "execute_entry i entry run_id backup d = (r, d')" "fi_action i = ''update_copy''"
  shows "kept_by entry backup n r d'"
proof -
  obtain r1 d1 where v: "copy_into (item_source i) entry run_id d = (r1, d1)" by (metis surj_pair)
  note k = copy_into_movable [OF l m v]
  show ?thesis
  proof (cases r1)
    case (Inl x)
    with v run movable_survives [OF k] show ?thesis by (auto simp: execute_entry_def Let_def thenI_def bindI_def kept_by_def)
  next
    case (Inr u)
    with v run obtain r0 where "on_os_error (thenI (d_move_path entry backup) (d_replace (fan_temp entry run_id) entry))
         (thenI (only_when (\<lambda>d. \<not> d_exists d entry \<and> d_exists d backup) (d_move_path backup entry)) (d_remove_path (fan_temp entry run_id))) d1 = (r0, d')"
      "\<And>x. r = Inr x \<Longrightarrow> \<exists>u. r0 = Inr u"
      by (auto simp: execute_entry_def Let_def thenI_def [of "copy_into (item_source i) entry run_id"] bindI_def split: sum.splits dest!: thenI_return)
    from update_copy_survives [OF l k this(1)] this(2) show ?thesis by (auto simp: kept_by_def split: sum.split)
  qed
qed

lemma replace_action_survives:
  assumes l: "entry_layout entry run_id backup" and m: "movable entry backup n d"
    and run: "execute_entry i entry run_id backup d = (r, d')" "fi_action i = ''replace_dir_with_link''"
  shows "kept_by entry backup n r d'"
proof -
  from run obtain r0 where
    "thenI (d_move_path entry backup) (on_os_error (swap_symlink entry (path_str (item_source i)) run_id) (d_move_path backup entry)) d = (r0, d')"
    "\<And>x. r = Inr x \<Longrightarrow> \<exists>u. r0 = Inr u"
    by (auto simp: execute_entry_def thenI_assoc split: sum.splits dest!: thenI_return)
  from replace_dir_survives [OF l m this(1)] this(2) show ?thesis by (auto simp: kept_by_def split: sum.split)
qed

lemma remove_action_survives:
  assumes l: "entry_layout entry run_id backup" and m: "movable entry backup n d"
    and run: "execute_entry i entry run_id backup d = (r, d')" "fi_action i = ''remove_copy''"
  shows "kept_by entry backup n r d'"
proof -
  from l have c: "clean entry" "clean backup" "apart entry backup" by (simp_all add: entry_layout_def)
  from run obtain r0 where "d_move_path entry backup d = (r0, d')" "\<And>x. r = Inr x \<Longrightarrow> \<exists>u. r0 = Inr u"
    by (auto simp: execute_entry_def split: sum.splits dest!: thenI_return)
  from move_keeps_directory [OF m c this(1)] this(2) show ?thesis by (auto simp: kept_by_def survives_def split: sum.splits)
qed

text \<open>Every other action finds a directory in its way, or has nothing to do.\<close>

lemma other_action_stops:
  assumes l: "entry_layout entry run_id backup" and m: "movable entry backup n d"
    and run: "execute_entry i entry run_id backup d = (r, d')"
      "fi_action i \<notin> set [''replace_dir_with_link'', ''copy'', ''update_copy'', ''remove_copy'']"
  shows "d' = d" "r = Inr x \<Longrightarrow> x = []"
proof -
  from l m have c: "clean entry" "dir_here entry n d" "unlinked entry d" by (simp_all add: entry_layout_def movable_def)
  then have "d_present d entry" "readlink d entry = Inl (os_error ''[Errno 22] Invalid argument'' entry)"
    using unlinked_resolves(2) [OF c(1,3)] by (auto simp: d_present_def d_exists_def there_here dir_here_def readlink_def link_at_clean)
  with run have "d' = d \<and> (\<forall>x. r = Inr x \<longrightarrow> x = [])"
    by (auto simp: execute_entry_def Let_def bindI_def askI_def liftI_def raiseI_def returnI_def split: if_splits)
  then show "d' = d" "r = Inr x \<Longrightarrow> x = []" by auto
qed

text \<open>C10: the fan-out never loses a directory: whatever is done to an entry that is a directory, and wherever it
  fails, the directory is at its place or in the backup afterwards; when the action returns and its record
  names a backup, the backup is the directory.\<close>

theorem a_replaced_directory_survives:
  assumes "execute_entry i entry run_id backup d = (r, d')" "entry_layout entry run_id backup" "movable entry backup n d"
  shows "(dir_here entry n d' \<or> dir_here backup n d')
    \<and> (case r of Inl e \<Rightarrow> True | Inr extra \<Rightarrow> dhas extra ''backup_path'' \<longrightarrow> dir_here backup n d')"
proof -
  have "kept_by entry backup n r d'"
  proof (cases "fi_action i \<in> set [''replace_dir_with_link'', ''copy'', ''update_copy'', ''remove_copy'']")
    case True
    then consider "fi_action i = ''replace_dir_with_link''" | "fi_action i = ''copy''" | "fi_action i = ''update_copy''" | "fi_action i = ''remove_copy''"
      by auto
    then show ?thesis
      by cases (rule replace_action_survives copy_action_survives update_action_survives remove_action_survives; (rule assms | assumption))+
  next
    case False
    with other_action_stops [OF assms(2,3,1)] movable_survives [OF assms(3)] show ?thesis by (auto simp: kept_by_def dhas_def split: sum.split)
  qed
  then show ?thesis by (simp add: kept_by_def survives_def)
qed

end
