(* ===== verification/FanoutUndo.thy ===== *)
theory FanoutUndo
  imports FanoutSafe
begin

text \<open>
  Undoing what executing an item did: \<open>rollback_fanout\<close> of \<open>fanout.py\<close> against \<open>_execute_item\<close>. Faults are allowed
  everywhere: an undoing that returns has put back what was there.
\<close>

section \<open>What the operations leave when they return\<close>

lemma d_unlink_Inr:
  assumes "d_unlink p d = (Inr u, d')" "clean p" "fst (here p d) \<noteq> None"
  shows "here p d' = (None, snd (here p d))" "p \<noteq> q \<Longrightarrow> here q d' = here q d"
proof -
  from assms have s: "dev_step (drop_link p) d = (Inr u, d')" by (simp add: d_unlink_def is_symlink_here)
  then obtain d0 where d: "d' = drop_link p d0" "w_tree (dv_world d0) = w_tree (dv_world d)" "dv_links d0 = dv_links d"
    by (cases rule: dev_step_cases [of "drop_link p" d]) auto
  then show "here p d' = (None, snd (here p d))" by (simp add: here_def drop_link_def delete_conv)
  show "here q d' = here q d" if "p \<noteq> q" using here_drop_link [OF that, of d0] d by (simp add: here_def)
qed

lemma d_symlink_Inr:
  assumes "d_symlink t p d = (Inr u, d')" "clean p"
  shows "here p d' = (Some t, snd (here p d))" "here p d = (None, None)" "p \<noteq> q \<Longrightarrow> here q d' = here q d"
    "parent_ok (w_tree (dv_world d)) p" "w_tree (dv_world d') = w_tree (dv_world d)"
proof -
  from assms have s: "dev_step (add_link p t) d = (Inr u, d')"
    and n: "here p d = (None, None)" "dir_at (w_tree (dv_world d)) (butlast p)"
    by (auto simp: d_symlink_def Let_def is_symlink_here here_def exists_def at_clean split: if_splits)
  from s obtain d0 where d: "d' = add_link p t d0" "w_tree (dv_world d0) = w_tree (dv_world d)" "dv_links d0 = dv_links d"
    by (cases rule: dev_step_cases [of "add_link p t" d]) auto
  then show "here p d' = (Some t, snd (here p d))" "w_tree (dv_world d') = w_tree (dv_world d)"
    by (simp_all add: here_def add_link_def update_conv)
  show "here q d' = here q d" if "p \<noteq> q" using here_add_link [OF that, of t d0] d by (simp add: here_def)
  show "here p d = (None, None)" "parent_ok (w_tree (dv_world d)) p" using n dir_at_parent_ok by blast+
qed

lemma d_remove_path_Inr:
  assumes "d_remove_path p d = (Inr u, d')" "clean p" "dir_here p n d" "unlinked p d"
  shows "here p d' = (None, None)"
proof -
  have p: "d_present d p" "d_is_dir d p" "\<not> is_symlink d p" using assms(2,3) unlinked_resolves(2) [OF assms(2,4)]
    by (auto simp: dir_here_def d_present_def d_exists_def d_is_dir_def there_here is_symlink_here)
  with assms(1) have "on_world (rmtree p) d = (Inr u, d')" by (simp add: d_remove_path_def)
  from on_world_run [OF this] obtain w where w: "rmtree p (dv_world d) = (Inr u, w)" "d' = d\<lparr>dv_world := w\<rparr>" by blast
  then have "p \<noteq> []" "w_tree w = del (w_tree (dv_world d)) p"
    by (auto simp: rmtree_def Let_def assms(2) split: if_splits dest!: step_at_Inr)
  with lookup_del_under [of p _ "[]"] w(2) assms(3) show ?thesis by (simp add: here_def dir_here_def)
qed

text \<open>A swap that returns: the entry is the link and nothing else.\<close>

lemma swap_symlink_Inr:
  assumes "swap_symlink entry target run_id d = (Inr u, d')" "clean entry" "entry \<noteq> []"
  shows "here entry d' = (Some target, None)"
proof -
  let ?t = "fan_temp entry run_id"
  have c: "clean ?t" and a: "apart ?t entry" using assms(2,3) by (simp_all add: fan_temp_clean fan_temp_apart)
  from assms(1) obtain u1 d1 u2 d2 where r: "only_when (\<lambda>d. d_present d ?t) (d_unlink ?t) d = (Inr u1, d1)"
    "d_symlink target ?t d1 = (Inr u2, d2)" "d_replace ?t entry d2 = (Inr u, d')"
    by (auto simp: swap_symlink_def Let_def thenI_eq_Inr)
  note s = d_symlink_Inr [OF r(2) c]
  have "dir_at (w_tree (dv_world d1)) (butlast ?t)"
    using r(2) c by (auto simp: d_symlink_def Let_def split: if_splits)
  then have "dir_at (w_tree (dv_world d2)) (butlast entry)" using s(5) by (simp add: fan_temp_def path_parent_def)
  from d_replace_link(1) [OF r(3) c assms(2) a _ dir_at_parent_ok [OF this]] s(1) show ?thesis by simp
qed

text \<open>A copy that returns is a tree in the place of the copy.\<close>

lemma copy_into_Inr:
  assumes "copy_into source entry run_id d = (Inr u, d')" "clean entry" "entry \<noteq> []"
  shows "\<exists>n. dir_here (fan_temp entry run_id) n d'"
proof -
  let ?t = "fan_temp entry run_id"
  have c: "clean ?t" using assms(2,3) by (rule fan_temp_clean)
  from assms(1) obtain d1 where "d_copytree source ?t d1 = (Inr u, d')" by (auto simp: copy_into_def Let_def thenI_eq_Inr)
  then have l: "fst (here ?t d1) = None" and w: "on_world (copytree (realpath d1 source) ?t) d1 = (Inr u, d')"
    using c by (auto simp: d_copytree_def is_symlink_here split: if_splits)
  from on_world_run [OF w] obtain w' where x: "copytree (realpath d1 source) ?t (dv_world d1) = (Inr u, w')" "d' = d1\<lparr>dv_world := w'\<rparr>" by blast
  from copytree_Inr [OF c x(1)] have "\<exists>es. lookup (w_tree w') ?t = Some (NDir es)" by (auto simp: is_dir_def split: option.splits node.splits)
  with l x(2) show ?thesis by (auto simp: dir_here_def here_def)
qed

lemma place_copy_Inr:
  assumes "d_replace (fan_temp entry run_id) entry d = (Inr u, d')" "clean entry" "entry \<noteq> []"
    and "dir_here (fan_temp entry run_id) n d" "fst (here entry d) = None"
  shows "dir_here entry n d'" "dv_links d' = dv_links d"
  using d_replace_tree [OF assms(1) fan_temp_clean [OF assms(2,3)] assms(2) fan_temp_apart [OF assms(3)]] assms(4,5)
  by (auto simp: dir_here_def)

section \<open>Putting back\<close>

lemma link_not_copy: "a \<in> set link_actions \<Longrightarrow> a \<notin> set copy_actions"
  by (auto simp: link_actions_def copy_actions_def)

text \<open>What the run has left at the entry, by the kind of the action.\<close>

definition left_by :: "string \<Rightarrow> path \<Rightarrow> device \<Rightarrow> bool" where
  "left_by a entry d =
     (if a \<in> set link_actions then \<exists>s. here entry d = (Some s, None)
      else if a \<in> set copy_actions then \<exists>n. dir_here entry n d
      else here entry d = (None, None))"

lemma clear_entry:
  assumes run: "thenI (if a \<in> set link_actions then d_unlink entry else returnI ())
        (only_when (\<lambda>d. a \<in> set copy_actions \<and> d_exists d entry) (d_remove_path entry)) d = (Inr u, d')"
    and "clean entry" "unlinked (butlast entry) d" "left_by a entry d"
  shows "here entry d' = (None, None)" "apart entry q \<Longrightarrow> here q d' = here q d" "entry \<noteq> q \<Longrightarrow> links_of q d' = links_of q d"
proof -
  let ?m = "if a \<in> set link_actions then d_unlink entry else returnI ()"
  let ?k = "only_when (\<lambda>d. a \<in> set copy_actions \<and> d_exists d entry) (d_remove_path entry)"
  from run obtain u1 d1 where r: "?m d = (Inr u1, d1)" "?k d1 = (Inr u, d')" by (auto simp only: thenI_eq_Inr)
  show "here entry d' = (None, None)"
  proof (cases "a \<in> set link_actions")
    case True
    with r link_not_copy have d1: "d_unlink entry d = (Inr u1, d1)" "d' = d1" by (simp_all add: only_when_run)
    from True assms(4) obtain s where "here entry d = (Some s, None)" by (auto simp: left_by_def)
    with d_unlink_Inr(1) [OF d1(1) assms(2)] d1(2) show ?thesis by simp
  next
    case False
    with r have d1: "d1 = d" by (simp add: returnI_def)
    show ?thesis
    proof (cases "a \<in> set copy_actions")
      case True
      with False assms(4) obtain n where n: "dir_here entry n d" by (auto simp: left_by_def)
      then have f: "unlinked entry d" using unlinked_parent [OF assms(3)] by (simp add: dir_here_def)
      have "d_exists d entry" using n unlinked_resolves(2) [OF assms(2) f] by (simp add: d_exists_def there_here dir_here_def)
      with r(2) True have "d_remove_path entry d = (Inr u, d')" by (simp add: only_when_run d1)
      from d_remove_path_Inr [OF this assms(2) n f] show ?thesis .
    next
      case n: False
      with False assms(4) r(2) d1 show ?thesis by (auto simp: only_when_run left_by_def)
    qed
  qed
  have "keeps (here q) (thenI ?m ?k)" if "apart entry q" by (intro keeps_intros here_intros) (use that assms(2) in simp_all)
  from keepsD [OF this run] show "apart entry q \<Longrightarrow> here q d' = here q d" by simp
  have "keeps (links_of q) (thenI ?m ?k)" if "entry \<noteq> q"
    unfolding only_when_def by (intro keeps_intros keeps_ask link_intros) (use that assms(2) in simp_all)
  from keepsD [OF this run] show "entry \<noteq> q \<Longrightarrow> links_of q d' = links_of q d" by simp
qed

text \<open>What the record of an action says, and where that is.\<close>

definition undoable :: "pydict \<Rightarrow> path \<Rightarrow> string option \<times> node option \<Rightarrow> device \<Rightarrow> bool" where
  "undoable rec backup x d =
     ((\<exists>n. dget rec ''backup_path'' = PStr (path_str backup) \<and> dget rec ''old_link_target'' = PNone \<and> x = (None, Some n)
         \<and> dir_here backup n d \<and> unlinked backup d)
      \<or> (\<exists>s. dget rec ''backup_path'' = PNone \<and> dget rec ''old_link_target'' = PStr s \<and> s \<noteq> [] \<and> x = (Some s, None))
      \<or> (dget rec ''backup_path'' = PNone \<and> dget rec ''old_link_target'' = PNone \<and> x = (None, None)))"

lemma put_back_restores:
  assumes run: "put_back rec entry a d = (Inr u, d')" and c: "clean entry" "clean backup" "apart entry backup" "plain_path backup"
    and "unlinked (butlast entry) d" "left_by a entry d" and u: "undoable rec backup x d"
  shows "here entry d' = x"
proof -
  let ?clear = "thenI (if a \<in> set link_actions then d_unlink entry else returnI ())
        (only_when (\<lambda>d. a \<in> set copy_actions \<and> d_exists d entry) (d_remove_path entry))"
  let ?b = "path_of (py_str (dget rec ''backup_path''))" and ?old = "dget rec ''old_link_target''"
  let ?move = "only_when (\<lambda>d. truthy (dget rec ''backup_path'') \<and> d_exists d ?b) (d_move_path ?b entry)"
  let ?link = "only_when (\<lambda>d. truthy ?old \<and> \<not> d_present d entry) (d_symlink (py_str ?old) entry)"
  have "thenI ?clear (thenI ?move ?link) d = (Inr u, d')" using run by (simp add: put_back_def Let_def thenI_assoc)
  then obtain u1 d1 where r1: "?clear d = (Inr u1, d1)" "thenI ?move ?link d1 = (Inr u, d')"
    using thenI_eq_Inr [of ?clear "thenI ?move ?link"] by blast
  then obtain u2 d2 where r: "?clear d = (Inr u1, d1)" "?move d1 = (Inr u2, d2)" "?link d2 = (Inr u, d')"
    using thenI_eq_Inr [of ?move ?link] by blast
  note k = clear_entry [OF r(1) c(1) assms(6,7)]
  have e: "unlinked entry d1"
  proof -
    have "entry \<noteq> []" using c(3) by (auto simp: apart_def)
    then have "prefix q (butlast entry) \<Longrightarrow> entry \<noteq> q" for q using prefix_length_le [of q "butlast entry"] by (cases entry rule: rev_cases) auto
    with k(3) assms(6) have "unlinked (butlast entry) d1" by (simp add: unlinked_links)
    from unlinked_parent [OF this] k(1) show ?thesis by simp
  qed
  from u consider (moved) n where "dget rec ''backup_path'' = PStr (path_str backup)" "?old = PNone" "x = (None, Some n)"
      "dir_here backup n d" "unlinked backup d"
    | (relinked) s where "dget rec ''backup_path'' = PNone" "?old = PStr s" "s \<noteq> []" "x = (Some s, None)"
    | (gone) "dget rec ''backup_path'' = PNone" "?old = PNone" "x = (None, None)" by (auto simp: undoable_def)
  then show ?thesis
  proof cases
    case moved
    have b: "?b = backup" "truthy (dget rec ''backup_path'')" using moved(1) path_of_path_str [OF c(4)] by (simp_all add: path_str_def)
    have "dir_here backup n d1" using moved(4) k(2) [OF c(3)] by (simp add: dir_here_def)
    moreover have "unlinked backup d1" using moved(5) k(3) c(3) by (auto simp: unlinked_links apart_def)
    ultimately have m: "movable backup entry n d1" using e k(1) by (simp add: movable_def)
    then have "d_exists d1 backup" using unlinked_resolves(2) [OF c(2), of d1] by (simp add: movable_def d_exists_def there_here dir_here_def)
    with r(2) b have "d_move_path backup entry d1 = (Inr u2, d2)" by (simp add: only_when_run)
    from move_keeps_directory [OF m c(2,1) apart_sym [OF c(3)] this] r(3) moved(2,3) show ?thesis
      by (simp add: only_when_run dir_here_def)
  next
    case relinked
    then have d2: "d2 = d1" using r(2) by (simp add: only_when_run)
    have "\<not> d_present d1 entry" using k(1) unlinked_resolves(2) [OF c(1) e] by (simp add: d_present_def d_exists_def there_here is_symlink_here [OF c(1)])
    with r(3) relinked d2 have "d_symlink s entry d1 = (Inr u, d')" by (simp add: only_when_run)
    from d_symlink_Inr(1) [OF this c(1)] k(1) relinked(4) show ?thesis by simp
  next
    case gone
    with r(2,3) k(1) show ?thesis by (simp add: only_when_run)
  qed
qed

section \<open>What executing an item leaves\<close>

text \<open>What an action starts from, as its licence has it.\<close>

definition started :: "string \<Rightarrow> path \<Rightarrow> path \<Rightarrow> device \<Rightarrow> bool" where
  "started a entry backup d =
     (if a \<in> set [''link'', ''copy''] then here entry d = (None, None)
      else if a \<in> set [''relink'', ''replace_link_with_copy'', ''remove_dangling_link''] then \<exists>s. s \<noteq> [] \<and> here entry d = (Some s, None)
      else \<exists>n. movable entry backup n d)"

lemma on_os_error_Inr: "on_os_error m k d = (Inr u, d') \<longleftrightarrow> m d = (Inr u, d')"
  by (auto simp: on_os_error_def catchI_def thenI_def bindI_def raiseI_def split: prod.splits sum.splits if_splits)

lemma swap_symlink_links:
  assumes "swap_symlink entry target run_id d = (r, d')" "clean entry" "entry \<noteq> []" "fan_temp entry run_id \<noteq> q" "entry \<noteq> q"
  shows "links_of q d' = links_of q d"
proof -
  have "keeps (links_of q) (swap_symlink entry target run_id)"
    unfolding swap_symlink_def Let_def only_when_def
    by (intro keeps_intros keeps_ask link_intros) (use assms fan_temp_clean [OF assms(2,3)] in auto)
  from keepsD [OF this assms(1)] show ?thesis .
qed

lemma backup_after_move:
  assumes "entry_layout entry run_id backup" "movable entry backup n d" "d_move_path entry backup d = (Inr u, d')"
  shows "dir_here backup n d'" "unlinked backup d'" "here entry d' = (None, None)" "dv_links d' = dv_links d" "here entry d = (None, Some n)"
  using move_keeps_directory [OF assms(2) _ _ _ assms(3)] assms(1,2)
  by (auto simp: entry_layout_def movable_def unlinked_def dir_here_def)

text \<open>Each action, when it returns: what it has left, and what it has recorded.\<close>

definition undo_ready :: "fan_item \<Rightarrow> path \<Rightarrow> path \<Rightarrow> string option \<times> node option \<Rightarrow> pydict \<Rightarrow> device \<Rightarrow> bool" where
  "undo_ready i entry backup x extra d = (left_by (fi_action i) entry d \<and> undoable extra backup x d)"

lemma execute_new_link:
  assumes "entry_layout entry run_id backup" "started ''link'' entry backup d" "fi_action i = ''link''" "execute_entry i entry run_id backup d = (Inr extra, d')"
  shows "undo_ready i entry backup (here entry d) extra d'"
proof -
  from assms(1) have c: "clean entry" "entry \<noteq> []" by (simp_all add: entry_layout_def)
  from assms(4) obtain u where "swap_symlink entry (path_str (item_source i)) run_id d = (Inr u, d')" "extra = []"
    by (auto simp: execute_entry_def assms(3) bindI_def askI_def thenI_def raiseI_def returnI_def split: if_splits prod.splits sum.splits)
  with swap_symlink_Inr [OF this(1) c] assms(2,3) show ?thesis
    by (simp add: undo_ready_def left_by_def link_actions_def undoable_def started_def dget_def dget_or_def)
qed

lemma execute_relink:
  assumes "entry_layout entry run_id backup" "started ''relink'' entry backup d" "fi_action i = ''relink''" "execute_entry i entry run_id backup d = (Inr extra, d')"
  shows "undo_ready i entry backup (here entry d) extra d'"
proof -
  from assms(1) have c: "clean entry" "entry \<noteq> []" by (simp_all add: entry_layout_def)
  from assms(2) obtain s where s: "s \<noteq> []" "here entry d = (Some s, None)" by (auto simp: started_def)
  then have "readlink d entry = Inr s" by (simp add: readlink_def link_at_clean c)
  with assms(4) obtain u where "swap_symlink entry (path_str (item_source i)) run_id d = (Inr u, d')" "extra = [(''old_link_target'', PStr s)]"
    by (auto simp: execute_entry_def assms(3) bindI_def askI_def liftI_def thenI_def returnI_def split: prod.splits sum.splits)
  with swap_symlink_Inr [OF this(1) c] assms(3) s show ?thesis
    by (simp add: undo_ready_def left_by_def link_actions_def undoable_def dget_def dget_or_def)
qed

lemma execute_replace_dir:
  assumes "entry_layout entry run_id backup" "started ''replace_dir_with_link'' entry backup d" "fi_action i = ''replace_dir_with_link''"
    and "execute_entry i entry run_id backup d = (Inr extra, d')"
  shows "undo_ready i entry backup (here entry d) extra d'"
proof -
  from assms(1) have c: "clean entry" "entry \<noteq> []" "apart entry backup" "apart (fan_temp entry run_id) backup" by (simp_all add: entry_layout_def)
  from assms(2) obtain n where m: "movable entry backup n d" by (auto simp: started_def)
  from assms(4) obtain u1 d1 u2 where r: "d_move_path entry backup d = (Inr u1, d1)"
    "swap_symlink entry (path_str (item_source i)) run_id d1 = (Inr u2, d')" "extra = [(''backup_path'', PStr (path_str backup))]"
    by (auto simp: execute_entry_def assms(3) Let_def thenI_eq_Inr on_os_error_Inr returnI_def)
  note b = backup_after_move [OF assms(1) m r(1)]
  have "here backup d' = here backup d1" by (rule keepsD [OF keeps_here_swap r(2)]) (use c in simp_all)
  moreover have "links_of q d' = links_of q d1" if "prefix q backup" for q
    by (rule swap_symlink_links [OF r(2) c(1,2)]) (use that c in \<open>auto simp: apart_def\<close>)
  ultimately show ?thesis using swap_symlink_Inr [OF r(2) c(1,2)] b r(3) assms(3)
    by (auto simp: undo_ready_def left_by_def link_actions_def undoable_def dget_def dget_or_def dir_here_def unlinked_links)
qed

lemma execute_copy:
  assumes "entry_layout entry run_id backup" "started ''copy'' entry backup d" "fi_action i = ''copy''" "execute_entry i entry run_id backup d = (Inr extra, d')"
  shows "undo_ready i entry backup (here entry d) extra d'"
proof -
  from assms(1) have c: "clean entry" "entry \<noteq> []" by (simp_all add: entry_layout_def)
  from assms(4) obtain u1 d1 u2 where r: "copy_into (item_source i) entry run_id d = (Inr u1, d1)"
    "d_replace (fan_temp entry run_id) entry d1 = (Inr u2, d')" "extra = []"
    by (auto simp: execute_entry_def assms(3) Let_def thenI_eq_Inr on_os_error_Inr bindI_def askI_def returnI_def raiseI_def split: if_splits prod.splits sum.splits)
  from copy_into_Inr [OF r(1) c] obtain n where n: "dir_here (fan_temp entry run_id) n d1" by blast
  have "here entry d1 = here entry d" using copy_into_keeps(1) [OF c r(1) fan_temp_apart [OF c(2)]] .
  with place_copy_Inr [OF r(2) c n] assms(2,3) r(3) show ?thesis
    by (auto simp: undo_ready_def left_by_def link_actions_def copy_actions_def undoable_def started_def dget_def dget_or_def)
qed

lemma execute_update_copy:
  assumes "entry_layout entry run_id backup" "started ''update_copy'' entry backup d" "fi_action i = ''update_copy''"
    and "execute_entry i entry run_id backup d = (Inr extra, d')"
  shows "undo_ready i entry backup (here entry d) extra d'"
proof -
  let ?t = "fan_temp entry run_id"
  from assms(1) have c: "clean entry" "entry \<noteq> []" "clean backup" "apart entry backup" "apart ?t backup" by (simp_all add: entry_layout_def)
  from assms(2) obtain n where m: "movable entry backup n d" by (auto simp: started_def)
  from assms(4) obtain u1 d1 u2 d2 u3 where r: "copy_into (item_source i) entry run_id d = (Inr u1, d1)"
    "d_move_path entry backup d1 = (Inr u2, d2)" "d_replace ?t entry d2 = (Inr u3, d')" "extra = [(''backup_path'', PStr (path_str backup))]"
    by (auto simp: execute_entry_def assms(3) Let_def thenI_eq_Inr on_os_error_Inr returnI_def)
  from copy_into_Inr [OF r(1) c(1,2)] obtain k where k: "dir_here ?t k d1" by blast
  have m1: "movable entry backup n d1" by (rule copy_into_movable [OF assms(1) m r(1)])
  note b = backup_after_move [OF assms(1) m1 r(2)]
  have "here ?t d2 = here ?t d1"
    by (rule keepsD [OF keeps_here_move r(2)]) (use c fan_temp_apart apart_sym path_name_clean in auto)
  with k have "dir_here ?t k d2" by (simp add: dir_here_def)
  from place_copy_Inr [OF r(3) c(1,2) this] b(3) have p: "dir_here entry k d'" "dv_links d' = dv_links d2" by simp_all
  have "here backup d' = here backup d2" by (rule keepsD [OF keeps_here_replace r(3)]) (use c fan_temp_clean in auto)
  with p b m r(4) assms(3) show ?thesis
    by (auto simp: undo_ready_def left_by_def link_actions_def copy_actions_def undoable_def dget_def dget_or_def dir_here_def movable_def unlinked_def)
qed

lemma execute_replace_link:
  assumes "entry_layout entry run_id backup" "started ''replace_link_with_copy'' entry backup d" "fi_action i = ''replace_link_with_copy''"
    and "execute_entry i entry run_id backup d = (Inr extra, d')"
  shows "undo_ready i entry backup (here entry d) extra d'"
proof -
  let ?t = "fan_temp entry run_id"
  from assms(1) have c: "clean entry" "entry \<noteq> []" by (simp_all add: entry_layout_def)
  from assms(2) obtain s where s: "s \<noteq> []" "here entry d = (Some s, None)" by (auto simp: started_def)
  then have "readlink d entry = Inr s" by (simp add: readlink_def link_at_clean c)
  with assms(4) obtain u1 d1 u2 d2 u3 where r: "copy_into (item_source i) entry run_id d = (Inr u1, d1)"
    "d_unlink entry d1 = (Inr u2, d2)" "d_replace ?t entry d2 = (Inr u3, d')" "extra = [(''old_link_target'', PStr s)]"
    by (auto simp: execute_entry_def assms(3) Let_def bindI_eq_Inr thenI_eq_Inr on_os_error_Inr askI_def liftI_def returnI_def)
  from copy_into_Inr [OF r(1) c(1,2)] obtain k where k: "dir_here ?t k d1" by blast
  have "here entry d1 = (Some s, None)" using copy_into_keeps(1) [OF c r(1) fan_temp_apart [OF c(2)]] s by simp
  note x = d_unlink_Inr [OF r(2) c(1), unfolded this]
  have "?t \<noteq> entry" using fan_temp_apart [OF c(2), of run_id] by (auto simp: apart_def)
  with x(2) [of ?t] k have "dir_here ?t k d2" by (simp add: dir_here_def)
  from place_copy_Inr(1) [OF r(3) c(1,2) this] x(1) s r(4) assms(3) show ?thesis
    by (auto simp: undo_ready_def left_by_def link_actions_def copy_actions_def undoable_def dget_def dget_or_def)
qed

lemma execute_remove_link:
  assumes "entry_layout entry run_id backup" "started ''remove_dangling_link'' entry backup d" "fi_action i = ''remove_dangling_link''"
    and "execute_entry i entry run_id backup d = (Inr extra, d')"
  shows "undo_ready i entry backup (here entry d) extra d'"
proof -
  from assms(1) have c: "clean entry" "entry \<noteq> []" by (simp_all add: entry_layout_def)
  from assms(2) obtain s where s: "s \<noteq> []" "here entry d = (Some s, None)" by (auto simp: started_def)
  then have "readlink d entry = Inr s" by (simp add: readlink_def link_at_clean c)
  with assms(4) obtain u where "d_unlink entry d = (Inr u, d')" "extra = [(''old_link_target'', PStr s)]"
    by (auto simp: execute_entry_def assms(3) Let_def bindI_eq_Inr thenI_eq_Inr askI_def liftI_def returnI_def)
  with d_unlink_Inr(1) [OF this(1) c(1)] s assms(3) show ?thesis
    by (simp add: undo_ready_def left_by_def link_actions_def copy_actions_def undoable_def dget_def dget_or_def)
qed

lemma execute_remove_copy:
  assumes "entry_layout entry run_id backup" "started ''remove_copy'' entry backup d" "fi_action i = ''remove_copy''"
    and "execute_entry i entry run_id backup d = (Inr extra, d')"
  shows "undo_ready i entry backup (here entry d) extra d'"
proof -
  from assms(2) obtain n where m: "movable entry backup n d" by (auto simp: started_def)
  from assms(4) obtain u where r: "d_move_path entry backup d = (Inr u, d')" "extra = [(''backup_path'', PStr (path_str backup))]"
    by (auto simp: execute_entry_def assms(3) thenI_eq_Inr returnI_def)
  with backup_after_move [OF assms(1) m r(1)] assms(3) show ?thesis
    by (auto simp: undo_ready_def left_by_def link_actions_def copy_actions_def undoable_def dget_def dget_or_def)
qed

lemma execute_undo_ready:
  assumes "entry_layout entry run_id backup" "started (fi_action i) entry backup d" "fi_action i \<noteq> ''adopt''"
    and "execute_entry i entry run_id backup d = (Inr extra, d')"
  shows "undo_ready i entry backup (here entry d) extra d'"
proof -
  have "fi_action i \<in> set [''link'', ''relink'', ''replace_dir_with_link'', ''copy'', ''update_copy'', ''replace_link_with_copy'', ''remove_dangling_link'', ''remove_copy'']"
    using assms(3,4) by (auto simp: execute_entry_def Let_def raiseI_def split: if_splits)
  then consider "fi_action i = ''link''" | "fi_action i = ''relink''" | "fi_action i = ''replace_dir_with_link''" | "fi_action i = ''copy''"
    | "fi_action i = ''update_copy''" | "fi_action i = ''replace_link_with_copy''" | "fi_action i = ''remove_dangling_link''" | "fi_action i = ''remove_copy''"
    by auto
  then show ?thesis
    by cases (rule execute_new_link execute_relink execute_replace_dir execute_copy execute_update_copy execute_replace_link
        execute_remove_link execute_remove_copy; use assms in simp)+
qed

text \<open>Nothing above an entry becomes a link.\<close>

lemma execute_keeps_root:
  assumes l: "entry_layout entry run_id backup" and "execute_entry i entry run_id backup d = (r, d')" "unlinked (butlast entry) d"
  shows "unlinked (butlast entry) d'"
proof -
  let ?t = "fan_temp entry run_id"
  from l have c: "clean entry" "entry \<noteq> []" "clean backup" "apart entry backup" "clean ?t" by (simp_all add: entry_layout_def fan_temp_clean)
  have "links_of q d' = links_of q d" if "prefix q (butlast entry)" for q
  proof -
    have p: "prefix q entry" using that prefixeq_butlast prefix_order.trans by blast
    have "length q < length entry" using prefix_length_le [OF that] c(2) by (cases entry rule: rev_cases) auto
    then have n: "entry \<noteq> q" "entry @ [x] \<noteq> q" for x by auto
    have b: "backup \<noteq> q" "backup @ [x] \<noteq> q" for x using p c(4) by (auto simp: apart_def append_prefixD)
    have t: "?t \<noteq> q" using fan_temp_prefix [OF c(2) p] .
    have "keeps (links_of q) (execute_entry i entry run_id backup)"
      unfolding execute_entry_def Let_def swap_symlink_def copy_into_def on_os_error_def only_when_def
      by (intro keeps_intros keeps_ask link_intros) (simp_all add: c n b t path_name_clean)
    from keepsD [OF this assms(2)] show ?thesis .
  qed
  with assms(3) show ?thesis by (simp add: unlinked_links)
qed

section \<open>A run can be undone\<close>

text \<open>An entry as the file system has it: names are names, a path is a link or a node, a link holds a text, no link
  stands on the way to the tool or to the backups, and this run has not used the backup yet.\<close>

definition entry_ready :: "path \<Rightarrow> string \<Rightarrow> string \<Rightarrow> path \<Rightarrow> device \<Rightarrow> bool" where
  "entry_ready root name run_id backups d =
     (let entry = root @ [name]; backup = backups @ [name] in
      entry_layout entry run_id backup \<and> plain_name name \<and> plain_path backup
      \<and> list_all (\<lambda>(q, s). \<not> prefix q root \<and> \<not> prefix q backup) (dv_links d) \<and> here backup d = (None, None)
      \<and> (case here entry d of (Some s, x) \<Rightarrow> s \<noteq> [] \<and> x = None | _ \<Rightarrow> True))"

lemma entry_ready_unlinked:
  "entry_ready root name run_id backups d \<Longrightarrow> unlinked root d" "entry_ready root name run_id backups d \<Longrightarrow> unlinked (backups @ [name]) d"
  by (auto simp: entry_ready_def Let_def unlinked_def list_all_iff map_of_eq_None_iff)

lemma licence_started:
  assumes "licence H mc d canonical t ledger i (fi_action i)" "entry_ready (ft_root t) (fi_name i) run_id backups d"
    and "fi_action i \<notin> set (''adopt'' # noop_actions)"
  shows "started (fi_action i) (ft_root t @ [fi_name i]) (backups @ [fi_name i]) d"
proof -
  let ?e = "ft_root t @ [fi_name i]" and ?b = "backups @ [fi_name i]"
  have c: "clean ?e" "here ?b d = (None, None)" using assms(2) by (simp_all add: entry_ready_def entry_layout_def Let_def)
  have none: "here ?e d = (None, None)" if "\<not> d_present d ?e"
  proof -
    have "fst (here ?e d) = None" using that by (simp add: d_present_def is_symlink_here [OF c(1)])
    moreover from this have "unlinked ?e d" using unlinked_parent [of ?e d] entry_ready_unlinked(1) [OF assms(2)] by simp
    ultimately show ?thesis using that unlinked_resolves(2) [OF c(1)] by (simp add: d_present_def d_exists_def there_here prod_eq_iff)
  qed
  have link: "\<exists>s. s \<noteq> [] \<and> here ?e d = (Some s, None)" if "link_at d ?e \<noteq> None"
    using that assms(2) by (auto simp: link_at_clean [OF c(1)] entry_ready_def Let_def split: prod.splits option.splits)
  have mv: "\<exists>n. movable ?e ?b n d" if "real_dir d ?e"
  proof -
    have f: "fst (here ?e d) = None" using that by (simp add: is_symlink_here [OF c(1)])
    then have u: "unlinked ?e d" using unlinked_parent [of ?e d] entry_ready_unlinked(1) [OF assms(2)] by simp
    with that f unlinked_resolves(2) [OF c(1) u] have "\<exists>es. here ?e d = (None, Some (NDir es))"
      by (auto simp: d_is_dir_def there_here prod_eq_iff split: option.splits node.splits)
    with u c(2) entry_ready_unlinked(2) [OF assms(2)] show ?thesis by (auto simp: movable_def dir_here_def)
  qed
  from assms(1,3) consider "fi_action i = ''link''" | "fi_action i = ''relink''" | "fi_action i = ''replace_dir_with_link''" | "fi_action i = ''copy''"
    | "fi_action i = ''update_copy''" | "fi_action i = ''replace_link_with_copy''" | "fi_action i = ''remove_dangling_link''" | "fi_action i = ''remove_copy''"
    by (auto simp: licence_def Let_def split: if_splits)
  then show ?thesis
    by cases (use assms(1) none link mv in \<open>auto simp: started_def ours_or_same_def is_symlink_def split: option.splits\<close>)
qed

lemma dget_append: "map_of xs k = None \<Longrightarrow> dget (xs @ ys) k = dget ys k"
  by (simp add: dget_def dget_or_def map_add_def)

lemma rollback_entry_run:
  assumes "rollback_entry H canonical tool_id root True rec d = (Inr outcome, d')" "map_of rec ''name'' = Some (PStr name)"
    "map_of rec ''action'' = Some (PStr a)" "plain_name name"
  shows "(dget outcome ''result'' \<noteq> PStr ''restored'' \<longrightarrow> d' = d)
    \<and> (dget outcome ''result'' = PStr ''restored'' \<longrightarrow> (\<exists>u. put_back rec (root @ [name]) a d = (Inr u, d')))"
proof -
  have e: "path_div root name = root @ [name]"
    using assms(4) path_of_name [of name] by (cases name) (auto simp: plain_name_def path_div_def starts_with_def)
  from assms(1) show ?thesis
    by (auto simp: rollback_entry_def Let_def dindex_def assms(2,3) e bindI_def liftI_def askI_def thenI_def returnI_def dget_def dget_or_def
        split: sum.splits prod.splits if_splits)
qed

text \<open>C11: a run can be undone: what executing a licensed item did to an entry, undoing it from the record takes back.
  Whatever faults there are, when the undoing returns and says that it restored, the entry is what it was before
  the run, link for link and tree for tree; when it says that it did not, it has changed nothing at all.\<close>

theorem undoing_restores_the_entry:
  assumes "execute_item t i ledger run_id backups d = (Inr (rec, ledger'), d1)"
    and "licence H mc d canonical t ledger i (fi_action i)" "entry_ready (ft_root t) (fi_name i) run_id backups d"
    and "rollback_entry H2 canonical2 tool_id (ft_root t) True rec d1 = (Inr outcome, d2)"
  shows "(dget outcome ''result'' = PStr ''restored'' \<longrightarrow> here (ft_root t @ [fi_name i]) d2 = here (ft_root t @ [fi_name i]) d)
    \<and> (dget outcome ''result'' \<noteq> PStr ''restored'' \<longrightarrow> d2 = d1)"
proof -
  let ?e = "ft_root t @ [fi_name i]" and ?b = "backups @ [fi_name i]"
  let ?head = "[(''name'', PStr (fi_name i)), (''action'', PStr (fi_action i)), (''content_hash'', opt_str (fi_hash i))]"
  from assms(1) obtain extra where x: "execute_entry i ?e run_id ?b d = (Inr extra, d1)" "rec = ?head @ extra"
    by (auto simp: execute_item_def bindI_eq_Inr returnI_def)
  have l: "entry_layout ?e run_id ?b" "plain_name (fi_name i)" "plain_path ?b"
    using assms(3) by (simp_all add: entry_ready_def Let_def)
  then have c: "clean ?e" "clean ?b" "apart ?e ?b" by (simp_all add: entry_layout_def)
  have g: "dget rec k = dget extra k" if "k \<in> set [''backup_path'', ''old_link_target'']" for k
    using that by (auto simp: x(2) dget_def dget_or_def)
  have m: "map_of rec ''name'' = Some (PStr (fi_name i))" "map_of rec ''action'' = Some (PStr (fi_action i))" by (simp_all add: x(2))
  note run = rollback_entry_run [OF assms(4) m l(2)]
  have "here ?e d2 = here ?e d" if "put_back rec ?e (fi_action i) d1 = (Inr u, d2)" for u
  proof (cases "fi_action i = ''adopt''")
    case True
    with x(1) have a: "extra = []" "d1 = d" by (auto simp: execute_entry_def Let_def returnI_def)
    with True that g show ?thesis
      by (auto simp: put_back_def Let_def link_actions_def copy_actions_def thenI_def bindI_def returnI_def only_when_run dget_def dget_or_def)
  next
    case False
    moreover have "fi_action i \<notin> set noop_actions"
      using x(1) by (auto simp: execute_entry_def Let_def raiseI_def noop_actions_def split: if_splits)
    ultimately have s: "started (fi_action i) ?e ?b d" using licence_started [OF assms(2,3)] by simp
    note r = execute_undo_ready [OF l(1) s False x(1)]
    have "unlinked (butlast ?e) d1"
      using execute_keeps_root [OF l(1) x(1)] entry_ready_unlinked(1) [OF assms(3)] by simp
    moreover have "undoable rec ?b (here ?e d) d1" using r g by (simp add: undo_ready_def undoable_def)
    ultimately show ?thesis using put_back_restores [OF that c l(3)] r by (simp add: undo_ready_def)
  qed
  with run show ?thesis by blast
qed

section \<open>Examples\<close>

text \<open>A tool with a directory of the same content as the canonical skill, which becomes a link.\<close>

definition undo_device :: device where
  "undo_device = \<lparr>dv_world = \<lparr>w_tree = NDir [(''k'', NDir [(''a'', NDir [(''SKILL.md'', NFile (Raw []))])]),
       (''t'', NDir [(''a'', NDir [(''SKILL.md'', NFile (Raw []))])]), (''s'', NDir [])], w_fault = None\<rparr>, dv_links = []\<rparr>"

definition undo_item :: fan_item where
  "undo_item = \<lparr>fi_name = ''a'', fi_action = ''replace_dir_with_link'', fi_skill_id = Some ''a'', fi_risk = Some ''ok'', fi_hash = None,
     fi_source = Some [''k'', ''a''], fi_link_target = None, fi_reason = None\<rparr>"

theorem undoing_restores_the_entry_witness:
  "\<exists>rec d1 outcome d2. execute_item link_tool undo_item [] ''R'' [''s'', ''b''] undo_device = (Inr (rec, []), d1)
     \<and> here [''t'', ''a''] d1 = (Some ''/k/a'', None)
     \<and> rollback_entry raw_host [''k''] ''codex'' [''t''] True rec d1 = (Inr outcome, d2)
     \<and> dget outcome ''result'' = PStr ''restored'' \<and> here [''t'', ''a''] d2 = here [''t'', ''a''] undo_device"
proof -
  let ?x = "execute_item link_tool undo_item [] ''R'' [''s'', ''b''] undo_device"
  let ?y = "\<lambda>rec d1. rollback_entry raw_host [''k''] ''codex'' [''t''] True rec d1"
  have "case ?x of (r, d1) \<Rightarrow> (case r of Inl e \<Rightarrow> False | Inr (rec, l) \<Rightarrow> l = [] \<and> here [''t'', ''a''] d1 = (Some ''/k/a'', None)
      \<and> (case ?y rec d1 of (r2, d2) \<Rightarrow> (case r2 of Inl e \<Rightarrow> False | Inr outcome \<Rightarrow> dget outcome ''result'' = PStr ''restored'')))"
    by code_simp
  moreover obtain r d1 where x0: "?x = (r, d1)" by (metis surj_pair)
  moreover from calculation obtain rec l where r: "r = Inr (rec, l)" by (cases r) auto
  moreover obtain r2 d2 where y0: "?y rec d1 = (r2, d2)" by (metis surj_pair)
  ultimately obtain outcome where "l = []" "r2 = Inr outcome" "dget outcome ''result'' = PStr ''restored''"
    and h: "here [''t'', ''a''] d1 = (Some ''/k/a'', None)" by (auto split: sum.splits)
  with x0 r y0 have x: "?x = (Inr (rec, []), d1)" "here [''t'', ''a''] d1 = (Some ''/k/a'', None)"
    and y: "?y rec d1 = (Inr outcome, d2)" "dget outcome ''result'' = PStr ''restored''" by simp_all
  have l: "licence raw_host demo_machine undo_device [''k''] link_tool [] undo_item (fi_action undo_item)" by code_simp
  have n: "ft_root link_tool = [''t'']" "fi_name undo_item = ''a''" by code_simp+
  have e: "entry_ready (ft_root link_tool) (fi_name undo_item) ''R'' [''s'', ''b''] undo_device" by code_simp
  have r: "rollback_entry raw_host [''k''] ''codex'' (ft_root link_tool) True rec d1 = (Inr outcome, d2)" using y(1) n by simp
  from undoing_restores_the_entry [OF x(1) l e r] x y n show ?thesis by auto
qed

theorem a_replaced_directory_survives_witness:
  "\<exists>extra d'. execute_entry undo_item [''t'', ''a''] ''R'' [''s'', ''b'', ''a''] undo_device = (Inr extra, d')
     \<and> dir_here [''s'', ''b'', ''a''] (NDir [(''SKILL.md'', NFile (Raw []))]) d'"
proof -
  let ?x = "execute_entry undo_item [''t'', ''a''] ''R'' [''s'', ''b'', ''a''] undo_device"
  have "case ?x of (r, d') \<Rightarrow> (case r of Inl e \<Rightarrow> False | Inr extra \<Rightarrow> dhas extra ''backup_path'')" by code_simp
  then obtain extra d' where x: "?x = (Inr extra, d')" "dhas extra ''backup_path''" by (auto split: prod.splits sum.splits)
  have l: "entry_layout [''t'', ''a''] ''R'' [''s'', ''b'', ''a'']" by code_simp
  have m: "movable [''t'', ''a''] [''s'', ''b'', ''a''] (NDir [(''SKILL.md'', NFile (Raw []))]) undo_device"
    by (simp add: movable_def dir_here_def here_def unlinked_def undo_device_def)
  from a_replaced_directory_survives [OF x(1) l m] x show ?thesis by simp
qed

definition undo_args :: fan_args where
  "undo_args = \<lparr>fa_machine = demo_machine, fa_state = Some [''s''], fa_run_id = ''R'', fa_busy = (\<lambda>t. False), fa_protected = (\<lambda>p d. 0),
     fa_started = ''T'', fa_finished = ''T''\<rparr>"

theorem a_fanout_leaves_the_rest_alone_witness:
  "\<exists>report d'. run_tool raw_host undo_args [''k''] link_tool fan_device = (Inr (report, True), d')
     \<and> here [''t'', ''gone''] d' = (None, None) \<and> here [''k''] d' = here [''k''] fan_device
     \<and> here [''t'', ''a''] d' = here [''t'', ''a''] fan_device"
proof -
  let ?x = "run_tool raw_host undo_args [''k''] link_tool fan_device"
  have "case ?x of (r, d') \<Rightarrow> (case r of Inl e \<Rightarrow> False | Inr (report, linked) \<Rightarrow> linked \<and> here [''t'', ''gone''] d' = (None, None))"
    by code_simp
  then obtain report d' where x: "?x = (Inr (report, True), d')" "here [''t'', ''gone''] d' = (None, None)"
    by (auto split: prod.splits sum.splits)
  have l: "fan_layout undo_args link_tool" by code_simp
  have m: "ft_mode link_tool = ''link''" "ft_root link_tool = [''t'']" "ft_id link_tool = ''codex''" by code_simp+
  have k: "apart (fan_state_dir undo_args) [''k'']" "apart [''t''] [''k'']" "apart (fan_state_dir undo_args) [''t'', ''a'']"
    by (simp_all add: undo_args_def fanout_dir_def apart_def)
  note t = a_fanout_leaves_the_rest_alone [OF x(1) l]
  have c: "here [''k''] d' = here [''k''] fan_device" using t k m by auto
  have p: "case tool_lock undo_args ''codex'' fan_device of (r, d1) \<Rightarrow>
      (case build_fanout_plan raw_host (fa_machine undo_args) d1 [''k''] (Some [link_tool]) [] [(''codex'', [])] of Inl e \<Rightarrow> False
       | Inr (skills, reports) \<Rightarrow> list_all (\<lambda>r. map (\<lambda>i. (fi_name i, fi_action i)) (fr_items r) = [(''a'', ''ok''), (''gone'', ''remove_dangling_link'')]) reports)"
    by code_simp
  from t x(1) obtain d1 ledger skills report0 where g: "tool_lock undo_args ''codex'' fan_device = (Inr (), d1)" "Inr [] = (Inr ledger :: ledger res)"
    "build_fanout_plan raw_host (fa_machine undo_args) d1 [''k''] (Some [link_tool]) [] [(''codex'', ledger)] = Inr (skills, [report0])"
    "\<forall>i \<in> set (fr_items report0). fi_action i \<in> {''ok'', ''conflict'', ''foreign_link''} \<and> \<not> starts_with (fi_name i) ''.''
              \<and> fi_name i \<notin> fi_name ` set (to_execute report0) \<and> apart (fan_state_dir undo_args) (ft_root link_tool @ [fi_name i])
            \<longrightarrow> here (ft_root link_tool @ [fi_name i]) d' = here (ft_root link_tool @ [fi_name i]) fan_device"
    using m by auto
  from p g have it: "map (\<lambda>i. (fi_name i, fi_action i)) (fr_items report0) = [(''a'', ''ok''), (''gone'', ''remove_dangling_link'')]" by simp
  then obtain i j where ij: "fr_items report0 = [i, j]" "fi_name i = ''a''" "fi_action i = ''ok''" "fi_name j = ''gone''" by auto
  have "fi_name i \<notin> fi_name ` set (to_execute report0)" by (auto simp: to_execute_def ij noop_actions_def)
  with g(4) ij k(3) m(2) have "here [''t'', ''a''] d' = here [''t'', ''a''] fan_device" by (simp add: starts_with_def)
  with x c show ?thesis by auto
qed

end
