(* ===== verification/FanoutScheduler.thy ===== *)
theory FanoutScheduler
  imports FanoutRun
begin

text \<open>
  The daemon's hook of \<open>fanout.py\<close>: \<open>FanoutScheduler\<close> decides after each cycle whether the fan-out runs, from the
  fingerprint of the canonical root, the time of the last run and whether it failed. What runs and what plans are
  arguments, as in the source, with \<open>run_fanout\<close> and \<open>build_fanout_plan\<close> as the standard ones; the clock's two
  readings of a call are arguments too.
\<close>

section \<open>The fingerprint\<close>

definition canonical_fingerprint :: "host \<Rightarrow> device \<Rightarrow> path \<Rightarrow> string res" where
  "canonical_fingerprint H d canonical_root = (let canonical = realpath d canonical_root in
     bindR (canonical_skills H (dv_world d) canonical) (\<lambda>skills.
     bindR (mapR (\<lambda>s. let p = realpath d (sk_path s) in
              if within p canonical then Inr (relative_str canonical p, sk_hash s)
              else Inl (Exn ValueError (path_str p @ '' is not in the subpath of '' @ path_str canonical))) skills) (\<lambda>pairs.
       Inr (pairs_digest H (sort_pairs pairs)))))"

section \<open>The scheduler\<close>

record scheduler_args =
  sg_canonical :: path
  sg_yes :: bool
  sg_interval :: int
  sg_runner :: "pydict dio"
  sg_planner :: "device \<Rightarrow> pydict res"

record scheduler =
  sc_fingerprint :: "string option"
  sc_at :: "int option"
  sc_failed :: bool

definition scheduler_start :: scheduler where
  "scheduler_start = \<lparr>sc_fingerprint = None, sc_at = None, sc_failed = False\<rparr>"

definition standard_scheduler :: "host \<Rightarrow> fan_args \<Rightarrow> path \<Rightarrow> bool \<Rightarrow> int \<Rightarrow> bool \<Rightarrow> scheduler_args" where
  "standard_scheduler H A canonical yes interval protect =
     \<lparr>sg_canonical = canonical, sg_yes = yes, sg_interval = interval,
      sg_runner = run_fanout H A canonical [] None True protect,
      sg_planner = (\<lambda>d. map_sum (\<lambda>e. e) (fanout_plan_dict canonical) (build_fanout_plan H (fa_machine A) d canonical None [] []))\<rparr>"

definition due :: "scheduler_args \<Rightarrow> scheduler \<Rightarrow> int \<Rightarrow> string \<Rightarrow> string option" where
  "due g s now fingerprint =
     (case sc_at s of
        None \<Rightarrow> Some ''first run''
      | Some last_at \<Rightarrow>
          (if sc_failed s then Some ''previous run had failures''
           else if Some fingerprint \<noteq> sc_fingerprint s then Some ''canonical changed''
           else if now - last_at \<ge> sg_interval g then Some ''periodic check''
           else None))"

text \<open>\<open>sum(len(t.get(k, [])) for t in tools)\<close> and the counts of a plan's summaries, noops left out.\<close>

definition sum_lengths :: "string \<Rightarrow> pyval \<Rightarrow> int res" where
  "sum_lengths k tools = bindR (py_iter tools) (\<lambda>ts. bindR (mapR (\<lambda>t. bindR (as_dict t) (\<lambda>d. py_len (dget_or d k (PList [])))) ts) (\<lambda>ns.
     Inr (sum_list ns)))"

definition int_operand :: "pyval \<Rightarrow> int res" where
  "int_operand v = (case v of PInt n \<Rightarrow> Inr n | PBool b \<Rightarrow> Inr (if b then 1 else 0)
     | _ \<Rightarrow> Inl (Exn TypeError (''unsupported operand type(s) for +: '' @ in_quotes ''int'' @ '' and '' @ in_quotes (type_name v))))"

definition planned_changes :: "pyval \<Rightarrow> int res" where
  "planned_changes tools = bindR (py_iter tools) (\<lambda>ts.
     bindR (mapR (\<lambda>t. bindR (as_dict t) (\<lambda>d. bindR (as_dict (dget_or d ''summary'' (PDict []))) (\<lambda>summary.
        bindR (mapR (\<lambda>(a, n). int_operand n) (filter (\<lambda>(a, n). a \<notin> set noop_actions) summary)) (\<lambda>ns. Inr (sum_list ns))))) ts) (\<lambda>ns.
       Inr (sum_list ns)))"

text \<open>The run or the plan that is due: the result, and the number of failed items.\<close>

definition run_report :: "string \<Rightarrow> pydict \<Rightarrow> (pydict \<times> int) res" where
  "run_report reason rec =
     bindR (dindex rec ''tools'') (\<lambda>tools. bindR (sum_lengths ''failed'' tools) (\<lambda>failed.
     bindR (dindex rec ''run_id'') (\<lambda>run_id. bindR (sum_lengths ''executed'' tools) (\<lambda>executed.
     bindR (sum_lengths ''conflicts'' tools) (\<lambda>conflicts. bindR (dindex rec ''record_path'') (\<lambda>record_path.
       Inr ([(''status'', PStr ''ran''), (''reason'', PStr reason), (''run_id'', run_id), (''executed'', PInt executed),
          (''failed'', PInt failed), (''conflicts'', PInt conflicts), (''record_path'', record_path)], failed)))))))"

definition scheduled :: "scheduler_args \<Rightarrow> string \<Rightarrow> (pydict \<times> int) dio" where
  "scheduled g reason =
     (if sg_yes g then bindI (sg_runner g) (\<lambda>rec. liftI (run_report reason rec))
      else bindI (bindI (askI (sg_planner g)) liftI) (\<lambda>plan.
        liftI (bindR (dindex plan ''tools'') (\<lambda>tools. bindR (planned_changes tools) (\<lambda>changes.
          Inr ([(''status'', PStr ''planned''), (''reason'', PStr reason), (''changes'', PInt changes)], 0))))))"

definition sched_error :: "exn \<Rightarrow> pydict" where
  "sched_error e = [(''status'', PStr ''error''), (''error'', PStr (class_name (exn_kind e) @ '': '' @ exn_text e))]"

definition maybe_run :: "host \<Rightarrow> scheduler_args \<Rightarrow> int \<Rightarrow> int \<Rightarrow> scheduler \<Rightarrow> device \<Rightarrow> pydict \<times> scheduler \<times> device" where
  "maybe_run H g now later s d =
     (let failed = (\<lambda>e d'. (sched_error e, s\<lparr>sc_failed := True, sc_at := Some later\<rparr>, d')) in
      case canonical_fingerprint H d (sg_canonical g) of
        Inl e \<Rightarrow> failed e d
      | Inr fingerprint \<Rightarrow>
          (case due g s now fingerprint of
             None \<Rightarrow> ([(''status'', PStr ''skipped''), (''reason'', PStr ''canonical unchanged'')], s, d)
           | Some reason \<Rightarrow> (case scheduled g reason d of
                 (Inl e, d') \<Rightarrow> failed e d'
               | (Inr (result, n), d') \<Rightarrow> (result, \<lparr>sc_fingerprint = Some fingerprint, sc_at = Some later, sc_failed = (n > 0)\<rparr>, d'))))"

section \<open>Cycles\<close>

text \<open>The calls of one daemon, each with its clock and the device as it finds it, and what each came to.\<close>

record sched_event =
  se_now :: int
  se_later :: int
  se_device :: device

record sched_entry =
  sl_event :: sched_event
  sl_fingerprint :: "string res"
  sl_status :: pyval
  sl_failed :: bool

fun scheduler_log :: "host \<Rightarrow> scheduler_args \<Rightarrow> sched_event list \<Rightarrow> scheduler \<Rightarrow> sched_entry list" where
  "scheduler_log H g [] s = []"
| "scheduler_log H g (e # es) s =
     (case maybe_run H g (se_now e) (se_later e) s (se_device e) of (result, s', d') \<Rightarrow>
        \<lparr>sl_event = e, sl_fingerprint = canonical_fingerprint H (se_device e) (sg_canonical g),
         sl_status = dget result ''status'', sl_failed = sc_failed s'\<rparr> # scheduler_log H g es s')"

definition succeeded :: "sched_entry \<Rightarrow> bool" where
  "succeeded l = (sl_status l \<in> set [PStr ''ran'', PStr ''planned''] \<and> \<not> sl_failed l)"

text \<open>What the scheduler remembers is the last call that was not skipped.\<close>

definition remembers :: "sched_entry list \<Rightarrow> scheduler \<Rightarrow> bool" where
  "remembers log s =
     (case dropWhile (\<lambda>l. sl_status l = PStr ''skipped'') (rev log) of
        [] \<Rightarrow> sc_at s = None
      | l # ls \<Rightarrow> sc_at s = Some (se_later (sl_event l)) \<and> sc_failed s = sl_failed l
          \<and> (\<not> sl_failed l \<longrightarrow> succeeded l \<and> (\<exists>f. sc_fingerprint s = Some f \<and> sl_fingerprint l = Inr f)))"

definition excused :: "scheduler_args \<Rightarrow> sched_entry list \<Rightarrow> nat \<Rightarrow> bool" where
  "excused g log k =
     (sl_status (log ! k) = PStr ''skipped'' \<longrightarrow>
        (\<exists>j<k. succeeded (log ! j) \<and> sl_fingerprint (log ! j) = sl_fingerprint (log ! k)
           \<and> se_now (sl_event (log ! k)) - se_later (sl_event (log ! j)) < sg_interval g
           \<and> (\<forall>m. j < m \<and> m < k \<longrightarrow> sl_status (log ! m) = PStr ''skipped'')))"

lemma last_exception:
  assumes "dropWhile P (rev xs) = l # ls"
  shows "length ls < length xs" "xs ! length ls = l" "length ls < m \<Longrightarrow> m < length xs \<Longrightarrow> P (xs ! m)"
proof -
  obtain ys where y: "rev xs = ys @ l # ls" "\<forall>x \<in> set ys. P x"
    using takeWhile_dropWhile_id [of P "rev xs"] set_takeWhileD [of _ P "rev xs"] assms by metis
  have x: "xs = rev ls @ l # rev ys" using arg_cong [OF y(1), of rev] by simp
  show "length ls < length xs" "xs ! length ls = l" unfolding x by (simp_all add: nth_append)
  show "P (xs ! m)" if "length ls < m" "m < length xs"
  proof -
    from that obtain k where k: "m = Suc (length ls + k)" using less_iff_Suc_add by auto
    with that have "k < length (rev ys)" unfolding x by simp
    moreover have "xs ! m = rev ys ! k" unfolding x k by (simp add: nth_append)
    ultimately show ?thesis using y(2) nth_mem [of k "rev ys"] by simp
  qed
qed

lemma remembered:
  assumes "remembers log s" "sc_at s = Some t" "\<not> sc_failed s"
  obtains j f where "j < length log" "se_later (sl_event (log ! j)) = t" "succeeded (log ! j)"
    "sc_fingerprint s = Some f" "sl_fingerprint (log ! j) = Inr f"
    "\<And>m. j < m \<Longrightarrow> m < length log \<Longrightarrow> sl_status (log ! m) = PStr ''skipped''"
proof -
  obtain l ls where d: "dropWhile (\<lambda>l. sl_status l = PStr ''skipped'') (rev log) = l # ls"
    using assms(1,2) by (cases "dropWhile (\<lambda>l. sl_status l = PStr ''skipped'') (rev log)") (simp_all add: remembers_def)
  note n = last_exception [OF d]
  from assms obtain f where "sc_at s = Some (se_later (sl_event l))" "succeeded l" "sc_fingerprint s = Some f" "sl_fingerprint l = Inr f"
    unfolding remembers_def d list.case by blast
  with n assms(2) show ?thesis by (intro that [of "length ls" f]) simp_all
qed

lemma remembers_snoc:
  "remembers log s \<Longrightarrow> sl_status l = PStr ''skipped'' \<Longrightarrow> remembers (log @ [l]) s"
  "sl_status l \<noteq> PStr ''skipped'' \<Longrightarrow> sc_at s = Some (se_later (sl_event l)) \<Longrightarrow> sc_failed s = sl_failed l
    \<Longrightarrow> (\<not> sl_failed l \<longrightarrow> succeeded l \<and> (\<exists>f. sc_fingerprint s = Some f \<and> sl_fingerprint l = Inr f)) \<Longrightarrow> remembers (log @ [l]) s"
  by (simp_all add: remembers_def)

text \<open>One call: it is skipped, and then with an excuse, or the scheduler remembers it.\<close>

lemma scheduled_status: "scheduled g reason d = (Inr (result, n), d') \<Longrightarrow> dget result ''status'' \<in> set [PStr ''ran'', PStr ''planned'']"
  by (auto simp: scheduled_def run_report_def bindI_def liftI_def askI_def dget_def dget_or_def split: if_splits prod.splits sum.splits)

lemma maybe_run_remembers:
  assumes "remembers log s" "maybe_run H g (se_now e) (se_later e) s (se_device e) = (result, s', d')"
    and l: "l = \<lparr>sl_event = e, sl_fingerprint = canonical_fingerprint H (se_device e) (sg_canonical g),
      sl_status = dget result ''status'', sl_failed = sc_failed s'\<rparr>"
  shows "remembers (log @ [l]) s' \<and> excused g (log @ [l]) (length log)"
proof (cases "canonical_fingerprint H (se_device e) (sg_canonical g)")
  case (Inl x)
  with assms(2) have "dget result ''status'' = PStr ''error''" "s' = s\<lparr>sc_failed := True, sc_at := Some (se_later e)\<rparr>"
    by (auto simp: maybe_run_def sched_error_def dget_def dget_or_def)
  then show ?thesis by (auto simp: l excused_def intro!: remembers_snoc(2))
next
  case f: (Inr f)
  show ?thesis
  proof (cases "due g s (se_now e) f")
    case None
    with f assms(2) have k: "dget result ''status'' = PStr ''skipped''" "s' = s" by (auto simp: maybe_run_def dget_def dget_or_def)
    from None obtain t where t: "sc_at s = Some t" "\<not> sc_failed s" "sc_fingerprint s = Some f" "se_now e - t < sg_interval g"
      by (auto simp: due_def split: option.splits if_splits)
    from remembered [OF assms(1) t(1,2)] t(3) obtain j where "j < length log" "se_later (sl_event (log ! j)) = t" "succeeded (log ! j)"
      "sl_fingerprint (log ! j) = Inr f" "\<forall>m. j < m \<and> m < length log \<longrightarrow> sl_status (log ! m) = PStr ''skipped''"
      by (metis option.inject)
    then have "excused g (log @ [l]) (length log)" using t f by (auto simp: excused_def l nth_append intro!: exI [of _ j])
    with k assms(1) show ?thesis by (simp add: remembers_snoc(1) l)
  next
    case (Some reason)
    obtain r1 d1 where c: "scheduled g reason (se_device e) = (r1, d1)" by (metis surj_pair)
    show ?thesis
    proof (cases r1)
      case (Inl x)
      with f Some c assms(2) have "dget result ''status'' = PStr ''error''" "s' = s\<lparr>sc_failed := True, sc_at := Some (se_later e)\<rparr>"
        by (auto simp: maybe_run_def sched_error_def dget_def dget_or_def)
      then show ?thesis by (auto simp: l excused_def intro!: remembers_snoc(2))
    next
      case (Inr rn)
      with f Some c assms(2) obtain n where "rn = (result, n)" "s' = \<lparr>sc_fingerprint = Some f, sc_at = Some (se_later e), sc_failed = (n > 0)\<rparr>"
        by (cases rn) (auto simp: maybe_run_def)
      with scheduled_status [of g reason "se_device e" result n d1] c Inr f show ?thesis
        by (auto simp: l excused_def succeeded_def intro!: remembers_snoc(2))
    qed
  qed
qed

lemma excused_prefix: "k < length xs \<Longrightarrow> excused g (xs @ ys) k = excused g xs k"
  by (auto simp: excused_def nth_append)

lemma scheduler_log_excused:
  "remembers pre s \<Longrightarrow> \<forall>k < length pre. excused g pre k \<Longrightarrow> k < length (pre @ scheduler_log H g es s) \<Longrightarrow> excused g (pre @ scheduler_log H g es s) k"
proof (induction es arbitrary: pre s)
  case (Cons e es)
  obtain result s' d' where r: "maybe_run H g (se_now e) (se_later e) s (se_device e) = (result, s', d')" by (metis surj_pair)
  define l where "l = \<lparr>sl_event = e, sl_fingerprint = canonical_fingerprint H (se_device e) (sg_canonical g),
      sl_status = dget result ''status'', sl_failed = sc_failed s'\<rparr>"
  note m = maybe_run_remembers [OF Cons.prems(1) r l_def]
  have "\<forall>k < length (pre @ [l]). excused g (pre @ [l]) k"
    using m Cons.prems(2) by (auto simp: less_Suc_eq excused_prefix)
  with Cons.IH [of "pre @ [l]" s'] m Cons.prems(3) show ?case by (simp add: r l_def)
qed simp

text \<open>a cycle is skipped by the scheduler of the fan-out only with an excuse, whatever the clock, the devices and
  the runs do: an earlier call has run or planned the fan-out without a failed item on a canonical root of the
  same fingerprint, less than the interval ago, and every call since was skipped too. So after an error or a failed
  item, and after any change of a skill, the next call runs; and no call raises.\<close>

theorem a_skipped_fanout_has_an_excuse:
  assumes "log = scheduler_log H g es scheduler_start" and "k < length log"
  shows "length log = length es \<and> excused g log k"
proof -
  have "length (scheduler_log H g es s) = length es" for s by (induction es arbitrary: s) (auto split: prod.split)
  moreover have "remembers [] scheduler_start" by (simp add: remembers_def scheduler_start_def)
  ultimately show ?thesis using scheduler_log_excused [of "[]" scheduler_start g k H es] assms by simp
qed

section \<open>Example\<close>

definition sched_device :: device where
  "sched_device = \<lparr>dv_world = \<lparr>w_tree = NDir [(''k'', NDir [(''a'', NDir [(''SKILL.md'', NFile (Raw []))])])], w_fault = None\<rparr>, dv_links = []\<rparr>"

definition demo_scheduler :: scheduler_args where
  "demo_scheduler = \<lparr>sg_canonical = [''k''], sg_yes = False, sg_interval = 3600, sg_runner = returnI [],
     sg_planner = (\<lambda>d. Inr [(''tools'', PList [])])\<rparr>"

theorem a_skipped_fanout_has_an_excuse_witness:
  "\<exists>log. log = scheduler_log raw_host demo_scheduler [\<lparr>se_now = 0, se_later = 1, se_device = sched_device\<rparr>, \<lparr>se_now = 300, se_later = 301, se_device = sched_device\<rparr>]
       scheduler_start \<and> map sl_status log = [PStr ''planned'', PStr ''skipped''] \<and> excused demo_scheduler log 1"
proof -
  let ?es = "[\<lparr>se_now = 0, se_later = 1, se_device = sched_device\<rparr>, \<lparr>se_now = 300, se_later = 301, se_device = sched_device\<rparr>]"
  define log where "log = scheduler_log raw_host demo_scheduler ?es scheduler_start"
  have s: "map sl_status log = [PStr ''planned'', PStr ''skipped'']" unfolding log_def by code_simp
  have "length log = 2" using arg_cong [OF s, of length] by simp
  then have "excused demo_scheduler log 1" using a_skipped_fanout_has_an_excuse [OF log_def, of 1] by simp
  with s log_def show ?thesis by (intro exI [of _ log] conjI)
qed

end
