(* ===== verification/LocalSkill.thy ===== *)
theory LocalSkill
  imports Links Config ApprovedPush
begin

text \<open>
  \<open>local_skill.py\<close>: a skill somewhere on the device is analysed, installed into the canonical root and the tools,
  and published to the central snapshot. The analysis reads only; an installation swaps a pruned copy with the
  manifest into each allowed tool, keeping the old version as a backup; a publication merges the one skill into
  the cached index and uploads it. Ids that carry a time are arguments.
\<close>

section \<open>Tools\<close>

text \<open>Text outside ASCII, by its UTF-8 bytes.\<close>

definition utf8_text :: "nat list \<Rightarrow> string" where
  "utf8_text bs = map char_of bs"

record local_tool =
  lt_id :: string
  lt_name :: string
  lt_root :: path
  lt_alias :: string

definition local_tool_of :: "string \<Rightarrow> string \<Rightarrow> path \<Rightarrow> local_tool" where
  "local_tool_of i name root = \<lparr>lt_id = i, lt_name = name, lt_root = root, lt_alias = i\<rparr>"

definition default_tool_targets :: "machine \<Rightarrow> local_tool list" where
  "default_tool_targets mc =
     [local_tool_of ''codex'' ''Codex'' (mc_home mc @ [''.codex'', ''skills'']),
      local_tool_of ''cursor'' ''Cursor'' (mc_home mc @ [''.cursor'', ''skills'']),
      local_tool_of ''claude-code'' ''Claude Code'' (mc_home mc @ [''.claude'', ''skills'']),
      local_tool_of ''qoder'' ''Qoder'' (mc_home mc @ [''.qoder'', ''skills'']),
      local_tool_of ''deepseek-harness'' ''DeepSeek Harness'' (mc_home mc @ [''.dsh'', ''skills''])]"

text \<open>\<open>raise LocalSkillError(str(exc)) from exc\<close> for a configuration error.\<close>

definition as_local_error :: "exn \<Rightarrow> exn" where
  "as_local_error e = (if exn_kind e = ConfigError then Exn LocalSkillError (exn_text e) else e)"

definition default_local_tool_targets :: "machine \<Rightarrow> world \<Rightarrow> local_tool list res" where
  "default_local_tool_targets mc w =
     (case configured_local_root mc w None of
        Inl e \<Rightarrow> Inl (as_local_error e)
      | Inr canonical \<Rightarrow> Inr (local_tool_of ''sidecar''
          (''Sidecar '' @ utf8_text [230, 156, 172, 230, 156, 186, 230, 173, 163, 230, 156, 172]) canonical # default_tool_targets mc))"

definition local_default_targets :: "string \<Rightarrow> string list" where
  "local_default_targets scope = (if scope = ''project'' then [''codex'', ''cursor'', ''qoder'']
     else [''codex'', ''cc-switch'', ''cursor'', ''claude-code'', ''qoder'', ''deepseek-harness'', ''openclaw''])"

definition local_default_excludes :: "string list" where
  "local_default_excludes = [''__pycache__'', ''*.pyc'', ''.DS_Store'']"

section \<open>The source\<close>

definition local_skill_dir :: "device \<Rightarrow> path \<Rightarrow> path res" where
  "local_skill_dir d source_path =
     (let found = realpath d source_path;
          source = (if is_file (dv_world d) found \<and> path_name found = ''SKILL.md'' then path_parent found else found) in
      if \<not> exists (dv_world d) source then Inl (Exn LocalSkillError (''skill path not found: '' @ path_str source))
      else if \<not> is_dir (dv_world d) source then Inl (Exn LocalSkillError (''skill path must be a directory or SKILL.md: '' @ path_str source))
      else if \<not> exists (dv_world d) (source @ [''SKILL.md'']) then Inl (Exn LocalSkillError (''SKILL.md not found under: '' @ path_str source))
      else Inr source)"

definition load_local_manifest :: "world \<Rightarrow> path \<Rightarrow> pydict res" where
  "load_local_manifest w p =
     (if \<not> exists w p then Inr []
      else case fst (read_json p w) of
          Inl e \<Rightarrow> Inl (Exn LocalSkillError (''invalid manifest.json: '' @ exn_text e))
        | Inr (PDict d) \<Rightarrow> Inr d
        | Inr _ \<Rightarrow> Inl (Exn LocalSkillError ''manifest.json must contain a JSON object''))"

definition infer_scope :: "machine \<Rightarrow> device \<Rightarrow> path \<Rightarrow> string" where
  "infer_scope mc d source =
     (let home = realpath d (mc_home mc); w = dv_world d;
          roots = map (\<lambda>r. home @ r) [[''.cc-switch'', ''skills''], [''.skillshub''], [''.codex'', ''skills''], [''.agents'', ''skills''],
              [''.claude'', ''skills''], [''.cursor'', ''skills''], [''.cursor'', ''skills-cursor''], [''.qoder'', ''skills''], [''.dsh'', ''skills'']]
            @ (case configured_local_root mc w None of Inr p \<Rightarrow> [realpath d p] | Inl e \<Rightarrow> []);
          parent = path_parent source; above = path_parent parent in
      if list_ex (\<lambda>r. prefix r source) roots then ''global''
      else if path_name parent = ''skills'' \<and> (exists w (above @ [''AGENTS.md'']) \<or> exists w (above @ [''.git''])) then ''project''
      else ''global'')"

definition security_of :: "pydict \<Rightarrow> pyval res" where
  "security_of manifest = bindR (as_dict (por (dget manifest ''security'') (PDict []))) (\<lambda>s.
     Inr (PDict [(''contains_secrets'', PBool (truthy (dget_or s ''contains_secrets'' (PBool False)))),
        (''encryption'', PStr (py_str (dget_or s ''encryption'' (PStr ''none''))))]))"

definition manifest_for :: "skill_record \<Rightarrow> pydict \<Rightarrow> string \<Rightarrow> string \<Rightarrow> string list \<Rightarrow> pydict res" where
  "manifest_for r manifest skill_id scope targets =
     bindR (py_iter (por (dget manifest ''exclude'') (strs local_default_excludes))) (\<lambda>excludes. bindR (security_of manifest) (\<lambda>security.
       Inr ([(''protocol_version'', PInt 0), (''skill_id'', PStr skill_id),
          (''name'', por (dget manifest ''name'') (por (sk_name r) (PStr skill_id))),
          (''description'', por (dget manifest ''description'') (por (sk_description r) (PStr []))),
          (''scope'', PStr scope), (''targets'', strs targets), (''exclude'', PList excludes), (''security'', security)]
        @ (case dget manifest ''project'' of PDict p \<Rightarrow> [(''project'', PDict p)] | _ \<Rightarrow> []))))"

text \<open>The content hash the installed copy is meant to have: the files of the source with the new manifest.\<close>

definition manifest_file :: "host \<Rightarrow> pydict \<Rightarrow> skill_file" where
  "manifest_file H m = \<lparr>sf_path = ''manifest.json'', sf_size = h_size H (Json (PDict m)), sf_sha256 = h_sha H (Json (PDict m))\<rparr>"

definition desired_content_hash :: "host \<Rightarrow> skill_record \<Rightarrow> pydict \<Rightarrow> string" where
  "desired_content_hash H r m =
     hash_skill_files H (sort_files (filter (\<lambda>f. sf_path f \<noteq> ''manifest.json'') (sk_files r) @ [manifest_file H m]))"

section \<open>Risk\<close>

definition secret_hints :: "string list" where
  "secret_hints = [''.env'', ''.env.local'', ''.npmrc'', ''.pypirc'']"

definition secret_suffixes :: "string list" where
  "secret_suffixes = [''.pem'', ''.key'', ''.p12'', ''.pfx'']"

definition secret_like :: "string \<Rightarrow> bool" where
  "secret_like name = (name \<in> set secret_hints \<or> list_ex (ends_with name) secret_suffixes)"

definition secret_files :: "world \<Rightarrow> path \<Rightarrow> string list" where
  "secret_files w source =
     (case at w source of None \<Rightarrow> [] | Some n \<Rightarrow> map (join_str ''/'') (filter (\<lambda>p. secret_like (path_name p)) (tree_files [] n)))"

definition local_issues :: "skill_record \<Rightarrow> string list \<Rightarrow> pydict list" where
  "local_issues r secrets = map issue_dict (sk_issues r)
     @ (if secrets = [] then []
        else [[(''severity'', PStr ''error''), (''code'', PStr ''secret_like_file''),
           (''message'', PStr ''Secret-like files are not installed or published automatically.''), (''path'', PStr (join_str '', '' secrets))]])"

definition local_risk :: "skill_record \<Rightarrow> string list \<Rightarrow> string" where
  "local_risk r secrets = (let issues = local_issues r secrets in
     if list_ex (\<lambda>i. dget i ''severity'' = PStr ''error'') issues then ''error'' else if issues \<noteq> [] then ''warning'' else ''ok'')"

section \<open>One tool\<close>

record tool_item =
  ti_tool :: local_tool
  ti_path :: path
  ti_installed :: bool
  ti_allowed :: bool
  ti_action :: string
  ti_reason :: "string option"
  ti_existing :: "string option"
  ti_targeted :: bool

definition links_into_canonical :: "machine \<Rightarrow> device \<Rightarrow> path \<Rightarrow> path \<Rightarrow> bool" where
  "links_into_canonical mc d target_path tool_root =
     (is_symlink d target_path
      \<and> (case configured_local_root mc (dv_world d) None of
           Inl e \<Rightarrow> False
         | Inr p \<Rightarrow> (let canonical = realpath d p in
             realpath d tool_root \<noteq> canonical \<and> prefix canonical (realpath d target_path))))"

definition existing_hash :: "host \<Rightarrow> device \<Rightarrow> path \<Rightarrow> local_tool \<Rightarrow> path \<Rightarrow> string option res" where
  "existing_hash H d source t target_path =
     (if d_exists d target_path \<and> realpath d source \<noteq> realpath d target_path
      then bindR (scan_skill H (dv_world d) (lt_id t) (realpath d target_path) (realpath d target_path @ [''SKILL.md''])) (\<lambda>r. Inr (Some (sk_hash r)))
      else Inr None)"

definition tool_decision :: "machine \<Rightarrow> device \<Rightarrow> path \<Rightarrow> string \<Rightarrow> string \<Rightarrow> local_tool \<Rightarrow> path \<Rightarrow> string option \<Rightarrow> string \<times> string option" where
  "tool_decision mc d source raw_hash desired t target_path existing =
     (let same = realpath d source = realpath d target_path; has_manifest = d_exists d (target_path @ [''manifest.json'']);
          there = d_exists d target_path in
      if \<not> d_exists d (lt_root t) then (''skip'', Some ''tool root not found on this device'')
      else if lt_id t \<noteq> ''sidecar'' \<and> links_into_canonical mc d target_path (lt_root t)
      then (''noop'', Some ''linked to the canonical copy; fanout keeps it current'')
      else if same \<and> \<not> has_manifest then (''write_manifest'', Some ''sidecar metadata will be written into the existing source skill'')
      else if same then (''noop'', Some (''source is already this tool'' @ [quote_char] @ ''s installed skill''))
      else if there \<and> existing = Some desired then (''noop'', Some ''same content already installed'')
      else if there \<and> \<not> has_manifest \<and> existing = Some raw_hash
      then (''write_manifest'', Some ''same skill exists but sidecar metadata is missing'')
      else if there then (''replace_with_backup'', None)
      else (''install_new'', None))"

definition target_status :: "host \<Rightarrow> machine \<Rightarrow> device \<Rightarrow> path \<Rightarrow> string \<Rightarrow> string list \<Rightarrow> string \<Rightarrow> string \<Rightarrow> local_tool \<Rightarrow> tool_item res" where
  "target_status H mc d source skill_id targets raw_hash desired t =
     (let target_path = path_div (lt_root t) skill_id in
      bindR (existing_hash H d source t target_path) (\<lambda>existing.
        let (action, reason) = tool_decision mc d source raw_hash desired t target_path existing in
        Inr \<lparr>ti_tool = t, ti_path = target_path, ti_installed = d_exists d (lt_root t), ti_allowed = d_exists d (lt_root t),
          ti_action = action, ti_reason = reason, ti_existing = existing, ti_targeted = lt_alias t \<in> set targets\<rparr>))"

definition selected_tools :: "local_tool list \<Rightarrow> string list \<Rightarrow> local_tool list res" where
  "selected_tools targets tool_ids =
     (let selected = filter (\<lambda>i. i \<noteq> []) (map strip tool_ids); unknown = filter (\<lambda>i. i \<notin> set (map lt_id targets)) selected in
      if unknown \<noteq> [] then Inl (Exn LocalSkillError (''unknown local tool target: '' @ join_str '', '' (sorted_set unknown)))
      else Inr (filter (\<lambda>t. selected = [] \<or> lt_id t \<in> set selected) targets))"

text \<open>An error blocks everything that would write.\<close>

definition block_risky :: "string \<Rightarrow> tool_item \<Rightarrow> tool_item" where
  "block_risky level i =
     (if level = ''error'' \<and> ti_action i \<noteq> ''noop''
      then i\<lparr>ti_allowed := False, ti_reason := Some ''risk check failed; automatic install is blocked''\<rparr> else i)"

section \<open>The analysis\<close>

record local_analysis =
  la_source :: path
  la_record :: skill_record
  la_skill_id :: string
  la_scope :: string
  la_targets :: "string list"
  la_manifest :: pydict
  la_hash :: string
  la_secrets :: "string list"
  la_items :: "tool_item list"
  la_from_file :: bool

definition la_risk :: "local_analysis \<Rightarrow> string" where
  "la_risk a = local_risk (la_record a) (la_secrets a)"

definition tool_targets_or_default :: "machine \<Rightarrow> world \<Rightarrow> local_tool list option \<Rightarrow> local_tool list res" where
  "tool_targets_or_default mc w targets = (case targets of Some ts \<Rightarrow> Inr ts | None \<Rightarrow> default_local_tool_targets mc w)"

definition analyze_local_skill :: "host \<Rightarrow> machine \<Rightarrow> device \<Rightarrow> path \<Rightarrow> string list \<Rightarrow> local_tool list option \<Rightarrow> local_analysis res" where
  "analyze_local_skill H mc d source_path tool_ids tool_targets =
     bindR (tool_targets_or_default mc (dv_world d) tool_targets) (\<lambda>tools.
     bindR (local_skill_dir d source_path) (\<lambda>source.
     bindR (scan_skill H (dv_world d) ''local-import'' source (source @ [''SKILL.md''])) (\<lambda>r.
     bindR (load_local_manifest (dv_world d) (source @ [''manifest.json''])) (\<lambda>manifest.
     let scope = py_str (por (dget manifest ''scope'') (PStr (infer_scope mc d source))) in
     bindR (py_iter (por (dget manifest ''targets'') (strs (local_default_targets scope)))) (\<lambda>raw_targets.
     let targets = map py_str raw_targets; skill_id = py_str (por (dget manifest ''skill_id'') (PStr (sk_id r))) in
     bindR (manifest_for r manifest skill_id scope targets) (\<lambda>m.
     let desired = desired_content_hash H r m in
     bindR (selected_tools tools tool_ids) (\<lambda>selected.
     bindR (mapR (target_status H mc d source skill_id targets (sk_hash r) desired) selected) (\<lambda>items.
     let secrets = secret_files (dv_world d) source in
       Inr \<lparr>la_source = source, la_record = r, la_skill_id = skill_id, la_scope = scope, la_targets = targets, la_manifest = m,
         la_hash = desired, la_secrets = secrets, la_items = map (block_risky (local_risk r secrets)) items,
         la_from_file = exists (dv_world d) (source @ [''manifest.json''])\<rparr>))))))))"

definition will_write :: "tool_item \<Rightarrow> bool" where
  "will_write i = (ti_allowed i \<and> ti_action i \<notin> set [''noop'', ''skip''])"

definition target_summary :: "tool_item list \<Rightarrow> pydict" where
  "target_summary items =
     dset (dset (map (\<lambda>(k, n). (k, PInt (int n))) (tally (map ti_action items)))
       ''allowed'' (PInt (int (length (filter ti_allowed items)))))
       ''will_write'' (PInt (int (length (filter will_write items))))"

definition operator_action :: "string \<Rightarrow> tool_item list \<Rightarrow> string" where
  "operator_action level items =
     (let allowed = length (filter (\<lambda>i. ti_allowed i \<and> ti_action i \<noteq> ''noop'') items); noop = length (filter (\<lambda>i. ti_action i = ''noop'') items) in
      if level = ''error''
      then utf8_text [229, 173, 152, 229, 156, 168, 233, 171, 152, 233, 163, 142, 233, 153, 169, 230, 150, 135, 228, 187, 182, 230, 136, 150, 233,
        148, 153, 232, 175, 175, 239, 188, 140, 228, 184, 141, 232, 131, 189, 228, 184, 128, 233, 148, 174, 229, 174, 137, 232, 163, 133, 227, 128, 130]
      else if allowed \<noteq> 0
      then utf8_text [229, 143, 175, 228, 184, 128, 233, 148, 174, 229, 174, 137, 232, 163, 133, 229, 136, 176, 32] @ nat_str allowed
        @ utf8_text [32, 228, 184, 170, 230, 156, 172, 230, 156, 186, 229, 183, 165, 229, 133, 183, 239, 188, 155] @ nat_str noop
        @ utf8_text [32, 228, 184, 170, 229, 183, 165, 229, 133, 183, 229, 183, 178, 230, 152, 175, 230, 156, 128, 230, 150, 176, 227, 128, 130]
      else if noop \<noteq> 0
      then utf8_text [230, 156, 172, 230, 156, 186, 229, 143, 175, 231, 148, 168, 229, 183, 165, 229, 133, 183, 229, 183, 178, 229, 174, 137, 232,
        163, 133, 232, 175, 165, 32, 115, 107, 105, 108, 108, 227, 128, 130]
      else utf8_text [230, 178, 161, 230, 156, 137, 229, 143, 175, 229, 174, 137, 232, 163, 133, 231, 154, 132, 230, 156, 172, 230, 156, 186, 229,
        183, 165, 229, 133, 183, 230, 160, 185, 227, 128, 130])"

definition tool_item_dict :: "string \<Rightarrow> tool_item \<Rightarrow> pydict" where
  "tool_item_dict desired i =
     [(''tool_id'', PStr (lt_id (ti_tool i))), (''tool_name'', PStr (lt_name (ti_tool i))), (''root'', PStr (path_str (lt_root (ti_tool i)))),
      (''target_path'', PStr (path_str (ti_path i))), (''installed'', PBool (ti_installed i)), (''allowed'', PBool (ti_allowed i)),
      (''action'', PStr (ti_action i)), (''reason'', opt_str (ti_reason i)), (''source_hash'', PStr desired),
      (''existing_hash'', opt_str (ti_existing i)), (''manifest_will_be_packaged'', PBool True), (''targeted'', PBool (ti_targeted i))]"

definition risk_dict :: "local_analysis \<Rightarrow> pydict" where
  "risk_dict a = [(''level'', PStr (la_risk a)), (''issues'', PList (map PDict (local_issues (la_record a) (la_secrets a)))),
     (''secret_like_files'', strs (la_secrets a))]"

definition analysis_dict :: "local_analysis \<Rightarrow> pydict" where
  "analysis_dict a =
     (let manifest_path = path_str (la_source a @ [''manifest.json'']) in
      [(''ok'', PBool True), (''record_type'', PStr ''skill-sync-local-skill-analysis''), (''mode'', PStr ''analysis''),
       (''source_path'', PStr (path_str (la_source a))), (''skill_id'', PStr (la_skill_id a)), (''name'', dget (la_manifest a) ''name''),
       (''description'', dget (la_manifest a) ''description''), (''scope'', PStr (la_scope a)), (''targets'', strs (la_targets a)),
       (''manifest'', PDict (la_manifest a)), (''desired_content_hash'', PStr (la_hash a)),
       (''manifest_source'', PStr (if la_from_file a then ''file'' else ''generated'')), (''risk'', PDict (risk_dict a)),
       (''source'', PDict (dmerge (record_to_dict False (la_record a)) [(''scope'', PStr (la_scope a)), (''targets'', strs (la_targets a)),
          (''manifest_path'', if la_from_file a then PStr manifest_path else PNone)])),
       (''tools'', PList (map (PDict \<circ> tool_item_dict (la_hash a)) (la_items a))), (''summary'', PDict (target_summary (la_items a))),
       (''operator_action'', PStr (operator_action (la_risk a) (la_items a)))])"

section \<open>Installing\<close>

text \<open>\<open>copytree\<close> with the names \<open>__pycache__\<close>, \<open>*.pyc\<close> and \<open>.DS_Store\<close> left out at every level.\<close>

definition left_out :: "string \<Rightarrow> bool" where
  "left_out n = (n = ''__pycache__'' \<or> ends_with n ''.pyc'' \<or> n = ''.DS_Store'')"

fun pruned :: "node \<Rightarrow> node" where
  "pruned (NFile f) = NFile f"
| "pruned (NDir es) = NDir (map (\<lambda>(n, m). (n, pruned m)) (filter (\<lambda>(n, m). \<not> left_out n) es))"

definition copytree_pruned :: "path \<Rightarrow> path \<Rightarrow> unit io" where
  "copytree_pruned s t w = (let q = norm_path t in
     case at w s of
       Some (NDir es) \<Rightarrow>
         (if exists w t \<or> \<not> parent_ok (w_tree w) q then (Inl (os_error ''[Errno 17] File exists'' q), w)
          else step_at q (\<lambda>x. put x q (pruned (NDir es))) w)
     | Some (NFile f) \<Rightarrow> (Inl (os_error ''[Errno 20] Not a directory'' s), w)
     | None \<Rightarrow> (Inl (os_error ''[Errno 2] No such file or directory'' s), w))"

definition d_copytree_pruned :: "path \<Rightarrow> path \<Rightarrow> unit dio" where
  "d_copytree_pruned s t d =
     (if is_symlink d t then (Inl (os_error ''[Errno 17] File exists'' (norm_path t)), d) else on_world (copytree_pruned (realpath d s) t) d)"

definition d_only_when :: "(device \<Rightarrow> bool) \<Rightarrow> unit dio \<Rightarrow> unit dio" where
  "d_only_when b m = bindI (askI b) (\<lambda>yes. if yes then m else returnI ())"

definition install_backup :: "path \<Rightarrow> string \<Rightarrow> path" where
  "install_backup target install_id = path_parent target @ [''.skill-sync-backups'', install_id, path_name target]"

definition install_temp :: "path \<Rightarrow> string \<Rightarrow> path" where
  "install_temp target install_id = path_parent target @ [''.'' @ path_name target @ ''.skill-sync-tmp-'' @ install_id]"

definition write_manifest_at :: "path \<Rightarrow> pydict \<Rightarrow> unit dio" where
  "write_manifest_at dir m d = on_world (write_data (realpath d dir @ [''manifest.json'']) (Json (PDict m))) d"

definition install_swap :: "path \<Rightarrow> pydict \<Rightarrow> path \<Rightarrow> string \<Rightarrow> unit dio" where
  "install_swap source m target install_id =
     (let temp = install_temp target install_id; backup = install_backup target install_id in
      thenI (d_copytree_pruned source temp)
      (thenI (write_manifest_at temp m)
      (thenI (d_only_when (\<lambda>d. d_exists d target)
          (thenI (on_world (mkdirs (path_parent backup))) (thenI (d_copytree_pruned target backup) (d_remove_path target))))
        (d_replace temp target))))"

definition install_target :: "local_analysis \<Rightarrow> tool_item \<Rightarrow> string \<Rightarrow> pydict dio" where
  "install_target a i install_id =
     (let target = ti_path i; temp = install_temp target install_id; backup = install_backup target install_id in
      if ti_action i = ''write_manifest''
      then thenI (\<lambda>d. on_world (mkdirs (realpath d target)) d) (thenI (write_manifest_at target (la_manifest a))
        (returnI [(''executed'', PBool True), (''backup_path'', PNone), (''had_existing'', PBool True),
           (''manifest_path'', PStr (path_str (target @ [''manifest.json''])))]))
      else bindI (askI (\<lambda>d. d_exists d temp)) (\<lambda>taken.
        if taken then raiseI (Exn LocalSkillError (''temporary target already exists: '' @ path_str temp))
        else thenI (on_world (mkdirs (path_parent target)))
          (bindI (askI (\<lambda>d. d_exists d target \<and> d_exists d backup)) (\<lambda>backed.
             if backed then raiseI (Exn LocalSkillError (''backup already exists: '' @ path_str backup))
             else thenI (catchI (install_swap (la_source a) (la_manifest a) target install_id)
                 (\<lambda>e. thenI (d_only_when (\<lambda>d. d_exists d temp) (d_remove_path temp)) (raiseI (Exn LocalSkillError (exn_text e)))))
               (bindI (askI (\<lambda>d. d_exists d backup)) (\<lambda>kept.
                 returnI [(''executed'', PBool True), (''backup_path'', if kept then PStr (path_str backup) else PNone),
                   (''had_existing'', PBool (ti_action i = ''replace_with_backup''))]))))))"

definition install_item :: "local_analysis \<Rightarrow> bool \<Rightarrow> string \<Rightarrow> tool_item \<Rightarrow> (tool_item \<times> pydict) dio" where
  "install_item a yes install_id i =
     bindI (if yes \<and> ti_allowed i \<and> ti_action i \<noteq> ''noop'' then install_target a i install_id else returnI [(''executed'', PBool False)]) (\<lambda>done_dict.
       returnI (i, dmerge (tool_item_dict (la_hash a) i) ((''install_id'', PStr install_id) # done_dict)))"

definition install_report :: "local_analysis \<Rightarrow> bool \<Rightarrow> string \<Rightarrow> pydict list \<Rightarrow> pydict" where
  "install_report a yes install_id items =
     [(''ok'', PBool True), (''record_type'', PStr ''skill-sync-local-skill-install''), (''mode'', PStr (if yes then ''install'' else ''dry_run'')),
      (''dry_run'', PBool (\<not> yes)), (''install_id'', PStr install_id), (''source_path'', PStr (path_str (la_source a))),
      (''skill_id'', PStr (la_skill_id a)), (''manifest_source'', PStr (if la_from_file a then ''file'' else ''generated'')),
      (''risk'', PDict (risk_dict a)), (''items'', PList (map PDict items)), (''summary'', PDict (target_summary (la_items a)))]"

definition install_record_dir :: "path \<Rightarrow> string \<Rightarrow> path" where
  "install_record_dir target install_id = path_parent target @ [''.skill-sync-backups'', install_id]"

definition write_install_record :: "path \<Rightarrow> string \<Rightarrow> pydict \<Rightarrow> path dio" where
  "write_install_record target install_id result =
     (let record_path = install_record_dir target install_id @ [''.local-skill-install-record.json''] in
      thenI (on_world (mkdirs (install_record_dir target install_id)))
        (thenI (on_world (write_data record_path (Json (PDict result)))) (returnI record_path)))"

definition install_local_skill ::
    "host \<Rightarrow> machine \<Rightarrow> path \<Rightarrow> string list \<Rightarrow> local_tool list option \<Rightarrow> bool \<Rightarrow> bool \<Rightarrow> string \<Rightarrow> pydict dio" where
  "install_local_skill H mc source_path tool_ids tool_targets yes allow_local_writes install_id =
     bindI (bindI (askI (\<lambda>d. analyze_local_skill H mc d source_path tool_ids tool_targets)) liftI) (\<lambda>a.
       if yes \<and> \<not> allow_local_writes
       then raiseI (Exn LocalSkillError ''local writes are disabled; start operator-executor with --allow-local-writes'')
       else bindI (mapI (install_item a yes install_id) (la_items a)) (\<lambda>items.
         let result = install_report a yes install_id (map snd items) in
         case filter (\<lambda>(i, x). truthy (dget x ''executed'')) items of
           [] \<Rightarrow> returnI result
         | (i, x) # rest \<Rightarrow>
             (if yes then bindI (write_install_record (ti_path i) install_id result) (\<lambda>p.
                returnI (result @ [(''record_path'', PStr (path_str p))]))
              else returnI result)))"

section \<open>Publishing\<close>

text \<open>The temporary directories, labels, record id and time of a publication.\<close>

record publish_names =
  pn_tmp :: path
  pn_inner :: path
  pn_label :: string
  pn_sync_id :: string
  pn_now :: string

record publish_args =
  pu_local_root :: path
  pu_snapshot :: path
  pu_skill_id :: string
  pu_remote :: remote
  pu_prefix :: string
  pu_last_applied :: "path option"
  pu_base_out :: "path option"

definition isolated_skill :: "publish_names \<Rightarrow> string \<Rightarrow> path" where
  "isolated_skill n skill_id = path_div (pn_tmp n @ [''selected-skill'']) skill_id"

definition publish_status :: "publish_names \<Rightarrow> publish_args \<Rightarrow> sync_args" where
  "publish_status n u = \<lparr>sa_local_root = pn_tmp n @ [''selected-skill''], sa_snapshot = pu_snapshot u, sa_base_record = pu_last_applied u\<rparr>"

definition publish_item :: "host \<Rightarrow> world \<Rightarrow> publish_names \<Rightarrow> publish_args \<Rightarrow> string \<Rightarrow> sync_plan_item res" where
  "publish_item H w n u skill_id =
     bindR (build_sync_status H w (publish_status n u) ''local'' None [skill_id]) (\<lambda>status.
     bindR (plan_items True False ''push-pull'' status) (\<lambda>items.
       case find (\<lambda>i. pl_skill_id i = skill_id) items of
         None \<Rightarrow> Inl (Exn LocalSkillError (''skill is not present in the sync plan: '' @ skill_id))
       | Some i \<Rightarrow>
           (if pl_plan_action i = ''noop'' then Inr i
            else if pl_plan_action i \<notin> set push_actions \<or> \<not> pl_allowed i
            then Inl (Exn LocalSkillError (''skill is not publishable without manual review: '' @ skill_id)) else Inr i)))"

definition publish_head :: "string \<Rightarrow> bool \<Rightarrow> string \<Rightarrow> sync_plan_item \<Rightarrow> pydict" where
  "publish_head mode yes skill_id i =
     [(''ok'', PBool True), (''record_type'', PStr ''skill-sync-local-skill-publish''), (''mode'', PStr mode), (''dry_run'', PBool (\<not> yes)),
      (''skill_id'', PStr skill_id), (''safe_to_push'', PBool True), (''item'', PDict (plan_item_dict i))]"

text \<open>What is uploaded, or would be.\<close>

definition publish_merged :: "host \<Rightarrow> publish_names \<Rightarrow> publish_args \<Rightarrow> string \<Rightarrow> bool \<Rightarrow> sync_plan_item \<Rightarrow> pydict io" where
  "publish_merged H n u skill_id yes i =
     (let out = pn_tmp n @ [''merged-snapshot''] in
      thenI (if yes then assert_approved_remote (pu_remote u) (pu_prefix u) (pu_snapshot u) else returnI ())
      (bindI (build_merged_snapshot H (publish_status n u) [skill_id] out (pn_inner n) (pn_label n) (pn_now n)) (\<lambda>(index, archives).
       bindI (if yes then
            bindI (upload_snapshot out (pu_remote u) (pu_prefix u) (Some archives) True) (\<lambda>files.
            bindI (write_approved_base_record (pu_local_root u) index (pu_prefix u) (pu_base_out u) (pn_sync_id n) (pn_now n)) (\<lambda>base.
              returnI (files, Some base)))
          else bindI (askI (\<lambda>w. filter (\<lambda>(p, rel). rel = ''index.json'' \<or> rel \<in> set archives) (build_upload_plan w out))) (\<lambda>files.
              returnI (files, None))) (\<lambda>(files, base).
       bindI (askI (\<lambda>w. plan_bytes H w files)) (\<lambda>bytes.
         returnI (publish_head (if yes then ''publish'' else ''dry_run'') yes skill_id i
           @ [(''snapshot_id'', dget index ''snapshot_id''), (''snapshot_total'', dget index ''total''),
              (''uploaded_files'', PInt (int (length files))), (''uploaded_bytes'', PInt bytes), (''remote_prefix'', PStr (pu_prefix u)),
              (''base_record_path'', opt_path base)]))))))"

definition publish_isolated :: "host \<Rightarrow> publish_names \<Rightarrow> publish_args \<Rightarrow> string \<Rightarrow> path \<Rightarrow> pydict \<Rightarrow> bool \<Rightarrow> pydict io" where
  "publish_isolated H n u skill_id source m yes =
     thenI (copytree_pruned source (isolated_skill n skill_id))
     (thenI (write_data (isolated_skill n skill_id @ [''manifest.json'']) (Json (PDict m)))
       (bindI (bindI (askI (\<lambda>w. publish_item H w n u skill_id)) liftI) (\<lambda>i.
          if pl_plan_action i = ''noop''
          then returnI (publish_head ''noop'' yes skill_id i
            @ [(''uploaded_files'', PInt 0), (''reason'', PStr ''central snapshot already matches local skill'')])
          else publish_merged H n u skill_id yes i)))"

text \<open>What is decided before anything is written.\<close>

definition publishable :: "host \<Rightarrow> machine \<Rightarrow> device \<Rightarrow> publish_args \<Rightarrow> (string \<times> path \<times> local_analysis) res" where
  "publishable H mc d u =
     (let skill_id = strip (pu_skill_id u); dir = realpath d (path_div (pu_local_root u) skill_id) in
      if skill_id = [] then Inl (Exn LocalSkillError ''skill_id is required'')
      else if \<not> exists (dv_world d) dir then Inl (Exn LocalSkillError (''local skill is not installed in canonical root: '' @ path_str dir))
      else bindR (scan_skill H (dv_world d) ''local-publish'' dir (dir @ [''SKILL.md''])) (\<lambda>r.
        if local_risk r (secret_files (dv_world d) dir) = ''error''
        then Inl (Exn LocalSkillError (''risk check failed; shared-library save is blocked for: '' @ skill_id))
        else bindR (analyze_local_skill H mc d dir [] None) (\<lambda>a. Inr (skill_id, dir, a))))"

definition publish_local_skill :: "host \<Rightarrow> machine \<Rightarrow> publish_args \<Rightarrow> publish_names \<Rightarrow> bool \<Rightarrow> pydict dio" where
  "publish_local_skill H mc u n yes =
     bindI (bindI (askI (\<lambda>d. publishable H mc d u)) liftI) (\<lambda>(skill_id, dir, a).
       on_world (with_tmp (pn_tmp n) (publish_isolated H n u skill_id dir (la_manifest a) yes)))"

end
