(* ===== verification/LocalSkillSafe.thy ===== *)
theory LocalSkillSafe
  imports LocalSkill LinkTriples
begin

text \<open>
  What an installation leaves behind: it writes only when it was asked to and may, the new version is the
  pruned source with its manifest, and the old version survives at its place or in the backup, with a fault
  at any point.
\<close>

section \<open>When something is written\<close>

lemma dry_item: "\<not> (yes \<and> ti_allowed i \<and> ti_action i \<noteq> ''noop'') \<Longrightarrow> install_item a yes install_id i d =
    (Inr (i, dmerge (tool_item_dict (la_hash a) i) ((''install_id'', PStr install_id) # [(''executed'', PBool False)])), d)"
  unfolding install_item_def bindI_def by (simp only: if_False returnI_def prod.case sum.case)

lemma not_executed: "\<not> truthy (dget (dmerge x ((''install_id'', v) # [(''executed'', PBool False)])) ''executed'')"
  by simp

lemma dry_items:
  assumes "\<forall>i \<in> set items. \<not> (yes \<and> ti_allowed i \<and> ti_action i \<noteq> ''noop'')"
  shows "\<exists>xs. mapI (install_item a yes install_id) items d = (Inr xs, d) \<and> filter (\<lambda>(i, x). truthy (dget x ''executed'')) xs = []"
  using assms
proof (induction items)
  case (Cons i items)
  then obtain xs where xs: "mapI (install_item a yes install_id) items d = (Inr xs, d)"
    "filter (\<lambda>(i, x). truthy (dget x ''executed'')) xs = []" by auto
  have i: "\<not> (yes \<and> ti_allowed i \<and> ti_action i \<noteq> ''noop'')" using Cons.prems by simp
  show ?case using xs by (simp add: bindI_def dry_item [OF i] returnI_def not_executed)
qed (simp add: returnI_def)

text \<open>What the analysis lets through: no error, a tool that is there, an action that writes.\<close>

lemma analysed_item:
  assumes "analyze_local_skill H mc d source_path tool_ids targets = Inr a" "i \<in> set (la_items a)" "ti_allowed i" "ti_action i \<noteq> ''noop''"
  shows "la_risk a \<noteq> ''error''" "will_write i" "d_exists d (lt_root (ti_tool i))"
proof -
  obtain source skill_id tools h desired ts items where
    m: "mapR (target_status H mc d source skill_id ts h desired) tools = Inr items"
    and a: "la_items a = map (block_risky (la_risk a)) items"
    using assms(1) unfolding analyze_local_skill_def Let_def bindR_Inr_iff by (elim exE conjE) (erule that, auto simp: la_risk_def)
  obtain j where j: "j \<in> set items" "i = block_risky (la_risk a) j" using a assms(2) by auto
  from m j(1) obtain t where t: "target_status H mc d source skill_id ts h desired t = Inr j"
    by (blast dest: mapR_mem)
  have "ti_allowed j = d_exists d (lt_root (ti_tool j))" "ti_action j = ''skip'' \<longleftrightarrow> \<not> d_exists d (lt_root (ti_tool j))"
    using t by (auto simp: target_status_def tool_decision_def Let_def split: if_splits prod.splits)
  moreover have "la_risk a \<noteq> ''error''" "j = i" using assms(3,4) j(2) by (auto simp: block_risky_def split: if_splits)
  ultimately show "la_risk a \<noteq> ''error''" "will_write i" "d_exists d (lt_root (ti_tool i))"
    using assms(3,4) by (auto simp: will_write_def)
qed

text \<open>C13: Installing a local skill changes nothing on the device unless it was asked for, local writes are allowed, the
  risk check found no error, and some chosen tool is present with an action that writes.\<close>
theorem an_installation_writes_only_when_it_may:
  assumes "install_local_skill H mc source_path tool_ids targets yes allow install_id d = (r, d')" "d' \<noteq> d"
  shows "yes \<and> allow \<and> (\<exists>a i. analyze_local_skill H mc d source_path tool_ids targets = Inr a \<and> la_risk a \<noteq> ''error''
      \<and> i \<in> set (la_items a) \<and> will_write i \<and> d_exists d (lt_root (ti_tool i)))"
proof (cases "analyze_local_skill H mc d source_path tool_ids targets")
  case (Inl e)
  with assms show ?thesis by (simp add: install_local_skill_def io_defs)
next
  case (Inr a)
  define go where "go = (\<lambda>i :: tool_item. yes \<and> ti_allowed i \<and> ti_action i \<noteq> ''noop'')"
  have ya: "\<not> (yes \<and> \<not> allow)"
  proof
    assume "yes \<and> \<not> allow"
    with assms Inr show False by (simp add: install_local_skill_def io_defs)
  qed
  have "\<exists>i \<in> set (la_items a). go i"
  proof (rule ccontr)
    assume "\<not> ?thesis"
    then obtain xs where "mapI (install_item a yes install_id) (la_items a) d = (Inr xs, d)"
      "filter (\<lambda>(i, x). truthy (dget x ''executed'')) xs = []" using dry_items [of "la_items a" yes a install_id d] by (auto simp: go_def)
    with assms Inr ya show False by (auto simp: install_local_skill_def io_defs)
  qed
  then obtain i where i: "i \<in> set (la_items a)" "go i" by blast
  with analysed_item [OF Inr i(1)] Inr ya show ?thesis by (auto simp: go_def)
qed

section \<open>The swap\<close>

text \<open>The places of an installation: plain paths that do not overlap, no link on the way to any of them.\<close>

definition tool_layout :: "path \<Rightarrow> path \<Rightarrow> string \<Rightarrow> (path \<times> string) list \<Rightarrow> bool" where
  "tool_layout source target install_id L =
     (let temp = install_temp target install_id; backup = install_backup target install_id in
      target \<noteq> [] \<and> clean source \<and> clean target \<and> clean backup \<and> apart source target \<and> apart target backup \<and> apart temp backup
      \<and> (\<forall>p \<in> {source, target, temp, backup}. \<forall>q. prefix q p \<longrightarrow> map_of L q = None))"

definition installed_tree :: "node \<Rightarrow> pydict \<Rightarrow> node" where
  "installed_tree n m = put (pruned n) [''manifest.json''] (NFile (Json (PDict m)))"

lemma install_temp_clean: "clean target \<Longrightarrow> clean (install_temp target install_id)"
  by (simp add: install_temp_def path_parent_def clean_butlast)

lemma install_temp_apart: "target \<noteq> [] \<Longrightarrow> apart (install_temp target install_id) target"
proof -
  assume e: "target \<noteq> []"
  have "''.'' @ path_name target @ ''.skill-sync-tmp-'' @ install_id \<noteq> last target"
    using arg_cong [of "''.'' @ path_name target @ ''.skill-sync-tmp-'' @ install_id" "last target" length] e by (auto simp: path_name_def)
  from apart_siblings [OF this, of "butlast target"] e show ?thesis by (simp add: install_temp_def path_parent_def)
qed

lemma lookup_put_above: "lookup t p = Some m \<Longrightarrow> lookup (put t (p @ q) n) p = Some (put m q n)"
proof (induction p arbitrary: t)
  case (Cons c cs)
  then show ?case by (cases t) (auto simp: update_conv split: option.splits)
qed simp

lemma ensures_keeps: "keeps g m \<Longrightarrow> (\<And>d d'. g d' = g d \<Longrightarrow> P d \<Longrightarrow> P d') \<Longrightarrow> ensures P m (\<lambda>_. P) (\<lambda>_. P)"
  by (rule ensuresI) (fastforce simp: keeps_def split: prod.split sum.split dest: spec)

lemma only_under_copytree_pruned [frame_intros]: "prefix p (norm_path q) \<Longrightarrow> only_under p (copytree_pruned s q)"
  by (rule only_underI)
    (auto simp: copytree_pruned_def Let_def intro!: step_at_frame lookup_put_apart split: option.splits node.splits dest: apart_under)

lemma keeps_here_copytree_pruned [here_intros]: "apart (norm_path t) q \<Longrightarrow> keeps (here q) (d_copytree_pruned s t)"
  using keeps_here_world [OF only_under_copytree_pruned, of "norm_path t" t q] by (auto simp: keeps_def d_copytree_pruned_def)

lemma keeps_links_copytree_pruned: "keeps dv_links (d_copytree_pruned s t)"
  by (simp add: keeps_def d_copytree_pruned_def)

lemma d_copytree_pruned_Inr:
  assumes "d_copytree_pruned s t d = (Inr u, d')" "clean s" "clean t" "unlinked s d" "fst (here t d) = None"
  shows "\<exists>es. lookup (w_tree (dv_world d)) s = Some (NDir es) \<and> here t d' = (None, Some (pruned (NDir es)))"
proof -
  have "on_world (copytree_pruned s t) d = (Inr u, d')"
    using assms unlinked_resolves(1) [OF assms(2,4)] by (auto simp: d_copytree_pruned_def split: if_splits)
  from on_world_run [OF this] obtain w' where w: "copytree_pruned s t (dv_world d) = (Inr u, w')" "d' = d\<lparr>dv_world := w'\<rparr>" by blast
  then obtain es where es: "lookup (w_tree (dv_world d)) s = Some (NDir es)" "parent_ok (w_tree (dv_world d)) t"
    "w_tree w' = put (w_tree (dv_world d)) t (pruned (NDir es))"
    using assms(2,3) by (auto simp: copytree_pruned_def Let_def at_clean split: option.splits node.splits if_splits dest!: step_at_Inr)
  with lookup_put_under [OF es(2), of "pruned (NDir es)" "[]"] w(2) assms(5) show ?thesis by (auto simp: here_def)
qed

lemma d_remove_unlinked: "clean p \<Longrightarrow> fst (here p d) = None \<Longrightarrow> dv_links (snd (d_remove_path p d)) = dv_links d"
  by (simp add: d_remove_path_def d_unlink_def is_symlink_here)

lemma keeps_here_only_when' [here_intros]: "keeps g m \<Longrightarrow> keeps g (d_only_when b m)"
  unfolding d_only_when_def by (intro keeps_intros keeps_ask)

text \<open>Writing the manifest into the temporary copy.\<close>

lemma write_manifest_temp:
  assumes "clean p" "unlinked p d" "write_manifest_at p m d = (r, d')"
  shows "apart p q \<Longrightarrow> here q d' = here q d" "dv_links d' = dv_links d"
    "r = Inr u \<Longrightarrow> here p d = (None, Some n) \<Longrightarrow> here p d' = (None, Some (put n [''manifest.json''] (NFile (Json (PDict m)))))"
proof -
  have "on_world (write_data (p @ [''manifest.json'']) (Json (PDict m))) d = (r, d')"
    using assms unlinked_resolves(1) [OF assms(1,2)] by (simp add: write_manifest_at_def)
  from on_world_run [OF this] obtain w' where w: "write_data (p @ [''manifest.json'']) (Json (PDict m)) (dv_world d) = (r, w')" "d' = d\<lparr>dv_world := w'\<rparr>" by blast
  show "dv_links d' = dv_links d" using w(2) by simp
  show "here q d' = here q d" if "apart p q"
    using only_under_run [OF only_under_write_data w(1) that] w(2) assms(1) by (simp add: here_def)
  assume r: "r = Inr u" and n: "here p d = (None, Some n)"
  have "w_tree w' = put (w_tree (dv_world d)) (p @ [''manifest.json'']) (NFile (Json (PDict m)))"
    using w(1) assms(1) r by (auto simp: write_data_def Let_def split: if_splits dest!: step_at_Inr)
  with lookup_put_above [of "w_tree (dv_world d)" p n] n w(2) show "here p d' = (None, Some (put n [''manifest.json''] (NFile (Json (PDict m)))))"
    by (auto simp: here_def)
qed

section \<open>The swap keeps the old version\<close>

text \<open>The old version at its place; in the backup; at one of the two; the new version in the temporary copy.\<close>

definition untouched :: "path \<Rightarrow> node option \<Rightarrow> (path \<times> string) list \<Rightarrow> device \<Rightarrow> bool" where
  "untouched target old L d = (here target d = (None, old) \<and> dv_links d = L)"

definition saved :: "path \<Rightarrow> node option \<Rightarrow> device \<Rightarrow> bool" where
  "saved backup old d = (snd (here backup d) = map_option pruned old)"

definition old_safe :: "path \<Rightarrow> path \<Rightarrow> node option \<Rightarrow> device \<Rightarrow> bool" where
  "old_safe target backup old d = (here target d = (None, old) \<or> saved backup old d)"

definition ready :: "path \<Rightarrow> node \<Rightarrow> (path \<times> string) list \<Rightarrow> device \<Rightarrow> bool" where
  "ready temp x L d = (here temp d = (None, Some x) \<and> dv_links d = L)"

lemma layout_free:
  assumes "tool_layout source target install_id L" "dv_links d = L"
    and "p \<in> {source, target, install_temp target install_id, install_backup target install_id}"
  shows "unlinked p d" "fst (here p d) = None"
proof -
  show "unlinked p d" using assms by (auto simp: tool_layout_def Let_def unlinked_def)
  then show "fst (here p d) = None" by (rule unlinked_here)
qed

lemma layout_places:
  assumes "tool_layout source target install_id L"
  shows "target \<noteq> []" "clean source" "clean target" "clean (install_backup target install_id)" "clean (install_temp target install_id)"
    "apart source target" "apart target (install_backup target install_id)" "apart (install_temp target install_id) target"
    "apart (install_temp target install_id) (install_backup target install_id)"
  using assms by (simp_all add: tool_layout_def Let_def install_temp_clean install_temp_apart)

lemma copy_step:
  assumes "tool_layout source target install_id L"
  shows "ensures (untouched target old L) (d_copytree_pruned s (install_temp target install_id)) (\<lambda>_. untouched target old L) (\<lambda>_. untouched target old L)"
  by (rule ensures_keeps [of "\<lambda>d. (here target d, dv_links d)"])
    (use keeps_here_copytree_pruned [of "install_temp target install_id" target s] keeps_links_copytree_pruned [of s "install_temp target install_id"]
      layout_places [OF assms] in \<open>auto simp: keeps_def untouched_def\<close>)

lemma manifest_step:
  assumes "tool_layout source target install_id L" "dv_links d = L" "write_manifest_at (install_temp target install_id) m d = (r, d')"
  shows "dv_links d' = L" "apart (install_temp target install_id) q \<Longrightarrow> here q d' = here q d"
    "r = Inr u \<Longrightarrow> ready (install_temp target install_id) x L d \<Longrightarrow> ready (install_temp target install_id) (put x [''manifest.json''] (NFile (Json (PDict m)))) L d'"
  using write_manifest_temp [OF layout_places(5) [OF assms(1)] layout_free(1) [OF assms(1,2)] assms(3)] assms(2) by (auto simp: ready_def)

lemma manifest_keeps:
  assumes "tool_layout source target install_id L"
  shows "ensures (untouched target old L) (write_manifest_at (install_temp target install_id) m) (\<lambda>_. untouched target old L) (\<lambda>_. untouched target old L)"
proof (rule ensuresI)
  fix d assume u: "untouched target old L d"
  obtain r d' where r: "write_manifest_at (install_temp target install_id) m d = (r, d')" by (metis surj_pair)
  have "untouched target old L d'" using manifest_step(1,2) [OF assms _ r] layout_places(8) [OF assms] u by (simp add: untouched_def)
  with r show "case write_manifest_at (install_temp target install_id) m d of (Inr x, w') \<Rightarrow> untouched target old L w' | (Inl e, w') \<Rightarrow> untouched target old L w'"
    by (cases r) auto
qed

lemma save_step:
  assumes "tool_layout source target install_id L" "old \<noteq> None"
  shows "ensures (untouched target old L) (d_copytree_pruned target (install_backup target install_id))
     (\<lambda>_. saved (install_backup target install_id) old) (\<lambda>_. untouched target old L)"
proof (rule ensuresI)
  let ?b = "install_backup target install_id"
  note l = layout_places [OF assms(1)]
  fix d assume u: "untouched target old L d"
  obtain r d' where r: "d_copytree_pruned target ?b d = (r, d')" by (metis surj_pair)
  have f: "unlinked target d" "fst (here ?b d) = None" using layout_free [OF assms(1)] u by (simp_all add: untouched_def)
  have "apart ?b target" using l(7) by (rule apart_sym)
  with u have "untouched target old L d'"
    using keepsD [OF keeps_here_copytree_pruned r, of target] keepsD [OF keeps_links_copytree_pruned r] l(4) by (simp add: untouched_def)
  moreover have "saved ?b old d'" if "r = Inr x" for x
    using d_copytree_pruned_Inr [OF r [unfolded that] l(3,4) f] u by (auto simp: saved_def untouched_def here_def)
  ultimately show "case d_copytree_pruned target ?b d of (Inr x, w') \<Rightarrow> saved ?b old w' | (Inl e, w') \<Rightarrow> untouched target old L w'"
    using r by (cases r) auto
qed

lemma keeps_parent: "apart q p \<Longrightarrow> clean p \<Longrightarrow> keeps (\<lambda>d. (here q d, dv_links d)) (on_world (mkdirs (path_parent p)))"
  using mkdirs_frame [OF apart_parent(1)] by (auto simp: keeps_def here_def)

lemma parent_step:
  assumes "apart target p" "clean p"
  shows "ensures (untouched target old L) (on_world (mkdirs (path_parent p))) (\<lambda>_. untouched target old L) (\<lambda>_. untouched target old L)"
  by (rule ensures_keeps [OF keeps_parent [OF assms]]) (simp add: untouched_def)

lemma guard_step:
  assumes lay: "tool_layout source target install_id L"
  defines "b \<equiv> install_backup target install_id"
  shows "ensures (untouched target old L)
     (d_only_when (\<lambda>d. d_exists d target) (thenI (on_world (mkdirs (path_parent b))) (thenI (d_copytree_pruned target b) (d_remove_path target))))
     (\<lambda>_ d. if old = None then untouched target old L d else saved b old d) (\<lambda>_. old_safe target b old)"
proof -
  note l = layout_places [OF lay]
  let ?m = "thenI (on_world (mkdirs (path_parent b))) (thenI (d_copytree_pruned target b) (d_remove_path target))"
  have w: "untouched target old L d \<Longrightarrow> old_safe target b old d" "saved b old d \<Longrightarrow> old_safe target b old d" for d
    by (simp_all add: old_safe_def untouched_def)
  have r: "ensures (saved b old) (d_remove_path target) (\<lambda>_. saved b old) (\<lambda>_. old_safe target b old)"
    by (rule ensures_weaken [OF ensures_keeps [OF keeps_here_remove_path [of target b], of "saved b old"]])
      (use l w(2) in \<open>simp_all add: saved_def b_def\<close>)
  have m: "ensures (untouched target old L) ?m (\<lambda>_. saved b old) (\<lambda>_. old_safe target b old)" if "old \<noteq> None"
  proof (rule ensures_thenI [where R = "untouched target old L"])
    show "ensures (untouched target old L) (on_world (mkdirs (path_parent b))) (\<lambda>_. untouched target old L) (\<lambda>_. old_safe target b old)"
      by (rule ensures_weaken [OF parent_step [of target b old L]]) (use l w(1) in \<open>simp_all add: b_def\<close>)
    show "ensures (untouched target old L) (thenI (d_copytree_pruned target b) (d_remove_path target)) (\<lambda>_. saved b old) (\<lambda>_. old_safe target b old)"
      by (rule ensures_thenI [OF _ r], rule ensures_weaken [OF save_step [OF lay that, folded b_def]]) (use w(1) in simp_all)
  qed
  show ?thesis
  proof (rule ensuresI)
    fix d assume u: "untouched target old L d"
    have e: "d_exists d target \<longleftrightarrow> old \<noteq> None"
      using unlinked_resolves(2) [OF l(3) layout_free(1) [OF lay, of d]] u by (auto simp: untouched_def d_exists_def there_here)
    show "case d_only_when (\<lambda>d. d_exists d target) ?m d of (Inr x, d') \<Rightarrow> if old = None then untouched target old L d' else saved b old d'
        | (Inl e, d') \<Rightarrow> old_safe target b old d'"
      using m u e by (cases "old = None") (auto simp: d_only_when_def io_defs ensures_def split: prod.splits sum.splits)
  qed
qed

lemma move_step:
  assumes lay: "tool_layout source target install_id L"
  defines "b \<equiv> install_backup target install_id" and "t \<equiv> install_temp target install_id"
  shows "ensures (\<lambda>d. if old = None then untouched target old L d else saved b old d) (d_replace t target)
     (\<lambda>_ d. old \<noteq> None \<longrightarrow> saved b old d) (\<lambda>_. old_safe target b old)"
proof (rule ensuresI)
  note l = layout_places [OF lay]
  fix d assume u: "if old = None then untouched target old L d else saved b old d"
  obtain r d' where r: "d_replace t target d = (r, d')" by (metis surj_pair)
  have "here b d' = here b d"
    by (rule keepsD [OF keeps_here_replace r]) (use l in \<open>simp_all add: b_def t_def\<close>)
  then have "old \<noteq> None \<longrightarrow> saved b old d'" using u by (auto simp: saved_def)
  moreover have "old_safe target b old d'" if "r = Inl e" for e
    using d_replace_Inl(1) [OF r [unfolded that]] u by (auto simp: old_safe_def untouched_def saved_def split: if_splits)
  ultimately show "case d_replace t target d of (Inr x, d') \<Rightarrow> old \<noteq> None \<longrightarrow> saved b old d' | (Inl e, d') \<Rightarrow> old_safe target b old d'"
    using r by (cases r) auto
qed

lemma swap_survives:
  assumes lay: "tool_layout source target install_id L"
  shows "ensures (untouched target old L) (install_swap s m target install_id)
     (\<lambda>_ d. old \<noteq> None \<longrightarrow> saved (install_backup target install_id) old d) (\<lambda>_. old_safe target (install_backup target install_id) old)"
proof -
  have w: "old_safe target b old d" if "untouched target old L d" for b d using that by (simp add: old_safe_def untouched_def)
  show ?thesis unfolding install_swap_def Let_def
  proof (rule ensures_thenI)
    show "ensures (untouched target old L) (d_copytree_pruned s (install_temp target install_id)) (\<lambda>_. untouched target old L)
        (\<lambda>_. old_safe target (install_backup target install_id) old)"
      by (rule ensures_weaken [OF copy_step [OF lay]]) (use w in simp_all)
  next
    have "ensures (untouched target old L) (write_manifest_at (install_temp target install_id) m) (\<lambda>_. untouched target old L)
        (\<lambda>_. old_safe target (install_backup target install_id) old)"
      by (rule ensures_weaken [OF manifest_keeps [OF lay]]) (use w in simp_all)
    then show "ensures (untouched target old L) (thenI (write_manifest_at (install_temp target install_id) m)
        (thenI (d_only_when (\<lambda>d. d_exists d target) (thenI (on_world (mkdirs (path_parent (install_backup target install_id))))
            (thenI (d_copytree_pruned target (install_backup target install_id)) (d_remove_path target))))
          (d_replace (install_temp target install_id) target)))
      (\<lambda>_ d. old \<noteq> None \<longrightarrow> saved (install_backup target install_id) old d) (\<lambda>_. old_safe target (install_backup target install_id) old)"
      by (rule ensures_thenI) (rule ensures_thenI [OF guard_step [OF lay] move_step [OF lay]])
  qed
qed

section \<open>The swap installs the new version\<close>

lemma guard_ready:
  assumes lay: "tool_layout source target install_id L"
  defines "b \<equiv> install_backup target install_id" and "t \<equiv> install_temp target install_id"
  shows "ensures (ready t x L)
     (d_only_when (\<lambda>d. d_exists d target) (thenI (on_world (mkdirs (path_parent b))) (thenI (d_copytree_pruned target b) (d_remove_path target))))
     (\<lambda>_. ready t x L) (\<lambda>_ _. True)"
proof -
  note l = layout_places [OF lay]
  have a: "apart b t" "apart target t" using l(8,9) by (auto simp: b_def t_def intro: apart_sym)
  have keep: "ensures (ready t x L) k (\<lambda>_. ready t x L) (\<lambda>_ _. True)"
    if "\<And>d r d'. ready t x L d \<Longrightarrow> k d = (r, d') \<Longrightarrow> here t d' = here t d \<and> dv_links d' = dv_links d" for k :: "unit dio"
  proof (rule ensuresI)
    fix d assume "ready t x L d"
    moreover from this have "here t (snd (k d)) = here t d \<and> dv_links (snd (k d)) = dv_links d" using that [of d "fst (k d)" "snd (k d)"] by simp
    ultimately show "case k d of (Inr x', d') \<Rightarrow> ready t x L d' | (Inl e, d') \<Rightarrow> True" by (auto simp: ready_def split: prod.split sum.split)
  qed
  have "ensures (ready t x L) (on_world (mkdirs (path_parent b))) (\<lambda>_. ready t x L) (\<lambda>_ _. True)"
  proof (rule keep)
    fix d r d' assume "on_world (mkdirs (path_parent b)) d = (r, d')"
    from keepsD [OF keeps_parent this] show "here t d' = here t d \<and> dv_links d' = dv_links d" using l by (simp add: b_def t_def)
  qed
  moreover have "ensures (ready t x L) (d_copytree_pruned target b) (\<lambda>_. ready t x L) (\<lambda>_ _. True)"
  proof (rule keep)
    fix d r d' assume r: "d_copytree_pruned target b d = (r, d')"
    from keepsD [OF keeps_here_copytree_pruned r] keepsD [OF keeps_links_copytree_pruned r]
    show "here t d' = here t d \<and> dv_links d' = dv_links d" using l a by (simp add: b_def)
  qed
  moreover have "ensures (ready t x L) (d_remove_path target) (\<lambda>_. ready t x L) (\<lambda>_ _. True)"
  proof (rule keep)
    fix d r d' assume "ready t x L d" and r: "d_remove_path target d = (r, d')"
    then have "fst (here target d) = None" using layout_free(2) [OF lay, of d target] by (simp add: ready_def)
    from d_remove_unlinked [OF l(3) this] keepsD [OF keeps_here_remove_path r]
    show "here t d' = here t d \<and> dv_links d' = dv_links d" using l a r by simp
  qed
  ultimately show ?thesis
    unfolding d_only_when_def by (intro ensures_bindI [OF ensures_askI [where Q = "\<lambda>_. ready t x L"]] ensures_if ensures_thenI ensures_returnI) assumption+
qed

lemma swap_installs:
  assumes lay: "tool_layout source target install_id L" and d: "dv_links d = L" "lookup (w_tree (dv_world d)) source = Some n"
    and run: "install_swap source m target install_id d = (Inr u, d')"
  shows "here target d' = (None, Some (installed_tree n m))"
proof -
  let ?t = "install_temp target install_id"
  note l = layout_places [OF lay]
  let ?g = "d_only_when (\<lambda>d. d_exists d target) (thenI (on_world (mkdirs (path_parent (install_backup target install_id))))
      (thenI (d_copytree_pruned target (install_backup target install_id)) (d_remove_path target)))"
  obtain u1 u2 u3 d1 d2 d3 where s: "d_copytree_pruned source ?t d = (Inr u1, d1)" "write_manifest_at ?t m d1 = (Inr u2, d2)"
      "?g d2 = (Inr u3, d3)" "d_replace ?t target d3 = (Inr u, d')"
    using run unfolding install_swap_def Let_def thenI_eq_Inr [of "d_copytree_pruned source ?t"] thenI_eq_Inr [of "write_manifest_at ?t m"]
      thenI_eq_Inr [of ?g] by blast
  have f: "unlinked source d" "fst (here ?t d) = None" using layout_free [OF lay d(1)] by simp_all
  have "here ?t d1 = (None, Some (pruned n))" using d_copytree_pruned_Inr [OF s(1) l(2,5) f] d(2) by auto
  then have "ready ?t (pruned n) L d1" using keepsD [OF keeps_links_copytree_pruned s(1)] d(1) by (simp add: ready_def)
  then have "ready ?t (installed_tree n m) L d2"
    using manifest_step(3) [OF lay _ s(2) refl, of "pruned n"] by (simp add: installed_tree_def ready_def)
  then have r: "ready ?t (installed_tree n m) L d3" by (rule ensures_Inr [OF guard_ready [OF lay] _ s(3)])
  then have "fst (here ?t d3) = None" "fst (here target d3) = None" using layout_free(2) [OF lay, of d3] by (simp_all add: ready_def)
  with d_replace_tree(1) [OF s(4) l(5,3,8)] r show ?thesis by (simp add: ready_def)
qed

lemma old_safe_keeps:
  assumes "keeps (here target) k" "keeps (here backup) k"
  shows "ensures (old_safe target backup old) k (\<lambda>_. old_safe target backup old) (\<lambda>_. old_safe target backup old)"
  by (rule ensures_keeps [of "\<lambda>d. (here target d, here backup d)"]) (use assms in \<open>auto simp: keeps_def old_safe_def saved_def\<close>)

lemma swap_undo_survives:
  assumes lay: "tool_layout source target install_id L"
  defines "b \<equiv> install_backup target install_id" and "t \<equiv> install_temp target install_id"
  shows "ensures (untouched target old L)
     (catchI (install_swap s m target install_id) (\<lambda>e. thenI (d_only_when (\<lambda>d. d_exists d t) (d_remove_path t)) (raiseI (f e))))
     (\<lambda>_ d. old \<noteq> None \<longrightarrow> saved b old d) (\<lambda>_. old_safe target b old)"
proof (rule ensures_catchI)
  note l = layout_places [OF lay]
  show "ensures (untouched target old L) (install_swap s m target install_id) (\<lambda>_ d. old \<noteq> None \<longrightarrow> saved b old d) (\<lambda>_. old_safe target b old)"
    unfolding b_def by (rule swap_survives [OF lay])
  have k: "keeps (here q) (d_only_when (\<lambda>d. d_exists d t) (d_remove_path t))" if "apart t q" for q
    by (intro keeps_here_only_when' here_intros) (use that l in \<open>simp add: t_def\<close>)
  show "ensures (old_safe target b old) (thenI (d_only_when (\<lambda>d. d_exists d t) (d_remove_path t)) (raiseI (f e)))
      (\<lambda>_ d. old \<noteq> None \<longrightarrow> saved b old d) (\<lambda>_. old_safe target b old)" for e
    by (rule ensures_thenI [OF old_safe_keeps [OF k k]]) (use l in \<open>auto simp: b_def t_def intro!: ensures_raiseI\<close>)
qed

definition install_try :: "local_analysis \<Rightarrow> tool_item \<Rightarrow> string \<Rightarrow> unit dio" where
  "install_try a i install_id =
     (let temp = install_temp (ti_path i) install_id in
      catchI (install_swap (la_source a) (la_manifest a) (ti_path i) install_id)
        (\<lambda>e. thenI (d_only_when (\<lambda>d. d_exists d temp) (d_remove_path temp)) (raiseI (Exn LocalSkillError (exn_text e)))))"

lemma install_target_eq:
  assumes "ti_action i \<noteq> ''write_manifest''"
  shows "install_target a i install_id =
     (let target = ti_path i; temp = install_temp target install_id; backup = install_backup target install_id in
      bindI (askI (\<lambda>d. d_exists d temp)) (\<lambda>taken.
        if taken then raiseI (Exn LocalSkillError (''temporary target already exists: '' @ path_str temp))
        else thenI (on_world (mkdirs (path_parent target)))
          (bindI (askI (\<lambda>d. d_exists d target \<and> d_exists d backup)) (\<lambda>backed.
             if backed then raiseI (Exn LocalSkillError (''backup already exists: '' @ path_str backup))
             else thenI (install_try a i install_id)
               (bindI (askI (\<lambda>d. d_exists d backup)) (\<lambda>kept.
                 returnI [(''executed'', PBool True), (''backup_path'', if kept then PStr (path_str backup) else PNone),
                   (''had_existing'', PBool (ti_action i = ''replace_with_backup''))]))))))"
  using assms unfolding install_target_def install_try_def Let_def by (simp only: if_False)

lemma install_target_tries:
  assumes run: "install_target a i install_id d = (r, d')" "ti_action i \<noteq> ''write_manifest''"
    and m: "on_world (mkdirs (path_parent (ti_path i))) d = (r1, d1)"
  shows "isl r \<and> d' \<in> {d, d1} \<or> (\<exists>r2. install_try a i install_id d1 = (r2, d') \<and> isl r = isl r2)"
proof -
  obtain r2 d2 where t: "install_try a i install_id d1 = (r2, d2)" by (metis surj_pair)
  show ?thesis using run(1) m t unfolding install_target_eq [OF run(2)]
    by (cases r1; cases r2) (auto simp: Let_def bindI_def thenI_def askI_def raiseI_def returnI_def split: if_splits)
qed

lemma catch_raise_Inr': "catchI m (\<lambda>e. thenI k (raiseI (f e))) w = (Inr x, w') \<longleftrightarrow> m w = (Inr x, w')"
  by (auto simp: catchI_def thenI_def bindI_def raiseI_def split: prod.splits sum.splits)

text \<open>C12: Installing a skill into a tool, with a fault at any point, never loses the version that was there: when it
  raises, the old version is still at its place or the backup holds its files; when it returns, the place holds
  the files of the source without caches, with the generated manifest, and the backup holds the old version.\<close>
theorem an_installation_keeps_the_old_version:
  assumes run: "install_target a i install_id d = (r, d')" "ti_action i \<noteq> ''write_manifest''"
    and lay: "tool_layout (la_source a) (ti_path i) install_id (dv_links d)"
    and source: "lookup (w_tree (dv_world d)) (la_source a) = Some n" and old: "lookup (w_tree (dv_world d)) (ti_path i) = old"
  defines "copy \<equiv> lookup (w_tree (dv_world d')) (install_backup (ti_path i) install_id)"
  shows "case r of
      Inl e \<Rightarrow> lookup (w_tree (dv_world d')) (ti_path i) = old \<or> copy = map_option pruned old
    | Inr x \<Rightarrow> lookup (w_tree (dv_world d')) (ti_path i) = Some (installed_tree n (la_manifest a))
        \<and> (old \<noteq> None \<longrightarrow> copy = map_option pruned old)"
proof -
  let ?t = "ti_path i" and ?temp = "install_temp (ti_path i) install_id" and ?L = "dv_links d" and ?b = "install_backup (ti_path i) install_id"
  note l = layout_places [OF lay]
  have u: "untouched ?t old ?L d" using old layout_free(2) [OF lay refl, of ?t] by (simp add: untouched_def here_def)
  obtain r1 d1 where m: "on_world (mkdirs (path_parent ?t)) d = (r1, d1)" by (metis surj_pair)
  from on_world_run [OF m] obtain w1 where w: "mkdirs (path_parent ?t) (dv_world d) = (r1, w1)" "d1 = d\<lparr>dv_world := w1\<rparr>" by blast
  have t: "\<not> prefix ?t (norm_path (path_parent ?t))" by (rule apart_parent(2) [OF l(6,3)])
  have u1: "untouched ?t old ?L d1" "lookup (w_tree (dv_world d1)) (la_source a) = Some n" "dv_links d1 = ?L"
    using mkdirs_frame [OF t, of "dv_world d"] mkdirs_frame [OF apart_parent(1) [OF l(6,3)], of "dv_world d"] w u source
    by (simp_all add: untouched_def here_def)
  from install_target_tries [OF run m] show ?thesis
  proof
    assume "isl r \<and> d' \<in> {d, d1}"
    with u u1(1) show ?thesis by (auto simp: untouched_def here_def isl_def)
  next
    assume "\<exists>r2. install_try a i install_id d1 = (r2, d') \<and> isl r = isl r2"
    then obtain r2 where r2: "install_try a i install_id d1 = (r2, d')" "isl r = isl r2" by blast
    show ?thesis
    proof (cases r2)
      case (Inl e)
      from ensures_Inl [OF swap_undo_survives [OF lay] u1(1) r2(1) [unfolded Inl install_try_def Let_def]]
      show ?thesis using r2(2) Inl by (cases r) (auto simp: old_safe_def saved_def here_def copy_def)
    next
      case (Inr x)
      with r2(1) have "install_swap (la_source a) (la_manifest a) ?t install_id d1 = (Inr x, d')"
        by (auto simp: install_try_def Let_def catch_raise_Inr')
      from swap_installs [OF lay u1(3,2) this] ensures_Inr [OF swap_survives [OF lay] u1(1) this]
      show ?thesis using r2(2) Inr by (cases r) (auto simp: here_def saved_def copy_def)
    qed
  qed
qed

section \<open>Example\<close>

text \<open>A skill, a tool without it, and a tool with another version of it.\<close>

definition install_device :: device where
  "install_device = \<lparr>dv_world = \<lparr>w_tree = NDir
       [(''s'', NDir [(''demo'', NDir [(''SKILL.md'', NFile (Raw [])), (''__pycache__'', NDir [])])]), (''t'', NDir []),
        (''o'', NDir [(''demo'', NDir [(''SKILL.md'', NFile (Raw ''v1''))])])], w_fault = None\<rparr>, dv_links = []\<rparr>"

definition demo_tools :: "string \<Rightarrow> local_tool list" where
  "demo_tools name = [local_tool_of ''codex'' ''Codex'' [name]]"

theorem an_installation_writes_only_when_it_may_witness:
  "\<exists>r d' a. install_local_skill raw_host demo_machine [''s'', ''demo''] [] (Some (demo_tools ''t'')) True True ''i1'' install_device = (r, d')
     \<and> d' \<noteq> install_device \<and> analyze_local_skill raw_host demo_machine install_device [''s'', ''demo''] [] (Some (demo_tools ''t'')) = Inr a
     \<and> la_risk a \<noteq> ''error''"
proof -
  let ?run = "install_local_skill raw_host demo_machine [''s'', ''demo''] [] (Some (demo_tools ''t'')) True True ''i1'' install_device"
  obtain r d' where r: "?run = (r, d')" by (metis surj_pair)
  have "lookup (w_tree (dv_world (snd ?run))) [''t'', ''demo'', ''manifest.json''] \<noteq> None"
    "lookup (w_tree (dv_world install_device)) [''t'', ''demo'', ''manifest.json''] = None" by code_simp+
  with r have "d' \<noteq> install_device" by auto
  from an_installation_writes_only_when_it_may [OF r this] r this show ?thesis by blast
qed

theorem an_installation_keeps_the_old_version_witness:
  "\<exists>a i x d'. install_target a i ''i1'' install_device = (Inr x, d') \<and> ti_path i = [''o'', ''demo'']
     \<and> lookup (w_tree (dv_world d')) [''o'', ''.skill-sync-backups'', ''i1'', ''demo''] = Some (NDir [(''SKILL.md'', NFile (Raw ''v1''))])
     \<and> lookup (w_tree (dv_world d')) [''o'', ''demo'', ''SKILL.md''] = Some (NFile (Raw []))"
proof -
  let ?an = "analyze_local_skill raw_host demo_machine install_device [''s'', ''demo''] [] (Some (demo_tools ''o''))"
  have "case ?an of Inl e \<Rightarrow> False | Inr a \<Rightarrow> la_source a = [''s'', ''demo''] \<and> (case la_items a of [] \<Rightarrow> False | i # js \<Rightarrow>
      ti_path i = [''o'', ''demo''] \<and> ti_action i = ''replace_with_backup''
      \<and> (case install_target a i ''i1'' install_device of (Inl e, d') \<Rightarrow> False | (Inr x, d') \<Rightarrow> True))" by code_simp
  then obtain a i js x d' where a: "la_source a = [''s'', ''demo'']" "ti_path i = [''o'', ''demo'']" "ti_action i = ''replace_with_backup''"
    "install_target a i ''i1'' install_device = (Inr x, d')" by (auto split: sum.splits list.splits prod.splits)
  have b: "install_backup [''o'', ''demo''] ''i1'' = [''o'', ''.skill-sync-backups'', ''i1'', ''demo'']" by code_simp
  have lay: "tool_layout (la_source a) (ti_path i) ''i1'' (dv_links install_device)"
    unfolding a(1,2) tool_layout_def b Let_def by (simp add: install_device_def install_temp_def path_parent_def path_name_def clean_def apart_def)
  have n: "lookup (w_tree (dv_world install_device)) (la_source a) = Some (NDir [(''SKILL.md'', NFile (Raw [])), (''__pycache__'', NDir [])])"
    "lookup (w_tree (dv_world install_device)) (ti_path i) = Some (NDir [(''SKILL.md'', NFile (Raw ''v1''))])"
    unfolding a(1,2) by (simp_all add: install_device_def)
  have keep: "\<not> left_out ''SKILL.md''" "left_out ''__pycache__''" by code_simp+
  have t: "lookup (installed_tree (NDir [(''SKILL.md'', NFile (Raw [])), (''__pycache__'', NDir [])]) m) [''SKILL.md''] = Some (NFile (Raw []))"
    "pruned (NDir [(''SKILL.md'', NFile (Raw ''v1''))]) = NDir [(''SKILL.md'', NFile (Raw ''v1''))]" for m
    using keep by (simp_all add: installed_tree_def)
  have w: "ti_action i \<noteq> ''write_manifest''" using a(3) by simp
  from an_installation_keeps_the_old_version [OF a(4) w lay n] t a(4) lookup_append [of "w_tree (dv_world d')" "[''o'', ''demo'']" "[''SKILL.md'']"]
  show ?thesis unfolding a(2) b by (intro exI [of _ a] exI [of _ i] exI [of _ x] exI [of _ d']) (simp add: a(2))
qed

end
