(* ===== verification/LocalPublish.thy ===== *)
theory LocalPublish
  imports LocalSkillSafe
begin

text \<open>
  What publishing one skill of the device changes in the central index: the entry of that skill only.
\<close>

lemma norm_acc_snoc: "c \<noteq> ''..'' \<Longrightarrow> norm_acc acc (p @ [c]) = norm_acc acc p @ [c]"
  by (induction acc p rule: norm_acc.induct) auto

lemma norm_path_snoc: "c \<noteq> ''..'' \<Longrightarrow> norm_path (p @ [c]) = norm_path p @ [c]"
  by (simp add: norm_path_def norm_acc_snoc)

lemma isolate_keeps:
  assumes "prefix tmp (norm_path p)" "apart tmp q" "clean q"
  shows "keeps (\<lambda>w. file_at w q) (copytree_pruned s p)" "keeps (\<lambda>w. file_at w q) (write_data (p @ [''manifest.json'']) x)"
proof -
  have "prefix tmp (norm_path (p @ [''manifest.json'']))" using assms(1) by (simp add: norm_path_snoc)
  then show "keeps (\<lambda>w. file_at w q) (copytree_pruned s p)" "keeps (\<lambda>w. file_at w q) (write_data (p @ [''manifest.json'']) x)"
    using assms by (auto intro!: keeps_frame [of tmp] frame_intros)
qed

text \<open>The root that a publication scans: a new temporary directory with one skill in it, the pruned copy of the
  skill's directory with the manifest of its analysis.\<close>

lemma lookup_put_prefix: "lookup t p = Some m \<Longrightarrow> lookup (put t (p @ q) n) p = Some (put m q n)"
  by (induction t p rule: lookup.induct) (auto simp: update_conv split: option.splits)

lemma follow_clean: "follow n L acc cs = Some q \<Longrightarrow> clean acc \<Longrightarrow> clean q"
  by (induction n L acc cs rule: follow.induct) (auto simp: clean_butlast split: if_splits option.splits nat.splits)

lemma clean_realpath: "clean (realpath d p)"
  by (auto simp: realpath_def follow_clean split: option.splits)

lemma isolated_root:
  assumes "mkdirs tmp w = (Inr (), w1)" "copytree_pruned s (tmp @ [a, k]) w1 = (Inr (), w2)"
    "write_data (tmp @ [a, k, ''manifest.json'']) (Json m) w2 = (Inr (), w3)"
    and "clean tmp" "clean s" "clean [a, k]" "lookup (w_tree w) tmp = None" "apart tmp s"
  shows "\<exists>es. lookup (w_tree w) s = Some (NDir es)
    \<and> lookup (w_tree w3) (tmp @ [a]) = Some (NDir [(k, put (pruned (NDir es)) [''manifest.json''] (NFile (Json m)))])"
proof -
  let ?t = "tmp @ [a, k]" and ?m = "tmp @ [a, k, ''manifest.json'']"
  have t1: "lookup (w_tree w1) tmp = Some (NDir [])"
    using assms(1,4,7) lookup_put_under [of "w_tree w" tmp "NDir []" "[]"]
    by (auto simp: mkdirs_def Let_def is_file_def is_dir_def at_clean split: if_splits dest!: step_clean_Inr)
  have s1: "lookup (w_tree w1) s = lookup (w_tree w) s"
    using mkdirs_frame [of s tmp w] assms(1,4,8) by (simp add: apart_def)
  obtain es where es: "lookup (w_tree w1) s = Some (NDir es)" "w_tree w2 = put (w_tree w1) ?t (pruned (NDir es))"
    using assms(2,4-6) by (auto simp: copytree_pruned_def Let_def at_clean split: option.splits node.splits if_splits dest!: step_at_Inr)
  have m: "w_tree w3 = put (w_tree w2) ?m (NFile (Json m))"
    using assms(3,4,6) by (auto simp: write_data_def Let_def split: if_splits dest!: step_at_Inr)
  have "lookup (w_tree w2) tmp = Some (NDir [(a, NDir [(k, pruned (NDir es))])])"
    unfolding es(2) using lookup_put_prefix [OF t1, of "[a, k]"] by simp
  from lookup_put_prefix [OF this, of "[a, k, ''manifest.json'']" "NFile (Json m)"]
  have "lookup (w_tree w3) tmp = Some (NDir [(a, NDir [(k, put (pruned (NDir es)) [''manifest.json''] (NFile (Json m)))])])"
    unfolding m by simp
  then have "lookup (w_tree w3) (tmp @ [a]) = Some (NDir [(k, put (pruned (NDir es)) [''manifest.json''] (NFile (Json m)))])"
    by (simp add: lookup_append)
  with s1 es(1) show ?thesis by (intro exI [of _ es] conjI) simp_all
qed

text \<open>The base record a publication writes.\<close>

definition publish_base :: "publish_args \<Rightarrow> publish_names \<Rightarrow> path" where
  "publish_base u n = norm_path (case pu_base_out u of
     None \<Rightarrow> path_div (pu_local_root u @ [''.skill-sync-bases'']) (pn_sync_id n @ ''.json'') | Some p \<Rightarrow> p)"

text \<open>The published index, against the cached one and the one the remote had.\<close>

definition index_after_publish :: "string \<Rightarrow> skill_record list \<Rightarrow> pydict \<Rightarrow> pyval \<Rightarrow> pydict \<Rightarrow> bool" where
  "index_after_publish k skills cached remote_index published =
     (case (index_skills cached, index_skills published, dict_hashes_by_id remote_index, dict_hashes_by_id (PDict published)) of
        (Inr old, Inr new, Inr rh, Inr nh) \<Rightarrow>
          changes_only [k] skills old new \<and> (\<forall>i. i \<noteq> k \<longrightarrow> map_of nh i = map_of rh i)
      | _ \<Rightarrow> False)"

lemma publish_merged_published:
  assumes "publish_merged H n u k True i w = (Inr res, w')" "pu_remote u = file_remote root" "digest_host H"
    and "clean (pn_tmp n)" "clean (pn_inner n)" "clean (pu_snapshot u)" "apart (pn_inner n) (pu_snapshot u)"
    and "apart root (pn_tmp n)" "apart (publish_base u n) root"
  obtains summary w2 cached remote_index published where "mkdirs (pn_inner n) w = (Inr (), w2)"
    "scan_roots H w2 [(''cc-switch'', pn_tmp n @ [''selected-skill''])] = Inr summary"
    "file_at w (pu_snapshot u @ [''index.json'']) = Some (Json (PDict cached))"
    "file_get_option root (join_remote_path (pu_prefix u) ''index.json'') w = Some (Json remote_index)"
    "index_after_publish k (ss_skills summary) cached remote_index published"
    "file_get_option root (join_remote_path (pu_prefix u) ''index.json'') w' = Some (Json (PDict published))"
proof -
  let ?out = "pn_tmp n @ [''merged-snapshot'']" and ?ix = "join_remote_path (pu_prefix u) ''index.json''"
  obtain w1 index archives w6 up w7 base where
    c: "assert_approved_remote (file_remote root) (pu_prefix u) (pu_snapshot u) w = (Inr (), w1)"
    and b: "build_merged_snapshot H (publish_status n u) [k] ?out (pn_inner n) (pn_label n) (pn_now n) w1 = (Inr (index, archives), w6)"
    and up: "upload_snapshot ?out (file_remote root) (pu_prefix u) (Some archives) True w6 = (Inr up, w7)"
    and r: "write_approved_base_record (pu_local_root u) index (pu_prefix u) (pu_base_out u) (pn_sync_id n) (pn_now n) w7 = (Inr base, w')"
    using assms(1,2) unfolding publish_merged_def Let_def by (auto simp: io_Inr)
  have o: "clean ?out" "apart root ?out" using assms(4) apart_under [OF apart_sym [OF assms(8)], of ?out] by (auto intro: apart_sym)
  have base: "apart base root" using write_approved_base_record_Inr(1) [OF r] assms(9) by (simp add: publish_base_def)
  have w1: "w1 = w" by (rule keepsD [OF assert_approved_keeps c])
  obtain v remote_index ch rh where s: "file_at w (pu_snapshot u @ [''index.json'']) = Some (Json v)"
    "file_get_option root ?ix w = Some (Json remote_index)" "dict_hashes_by_id v = Inr ch" "dict_hashes_by_id remote_index = Inr rh"
    "map_of rh = map_of ch"
    by (rule assert_approved_Inr [OF c assms(6)])
  have a: "clean (sa_snapshot (publish_status n u))" "apart (pn_inner n) (sa_snapshot (publish_status n u))"
    using assms by (simp_all add: publish_status_def)
  obtain w2 summary cached old new where g: "mkdirs (pn_inner n) w = (Inr (), w2)"
    "scan_roots H w2 [(''cc-switch'', pn_tmp n @ [''selected-skill''])] = Inr summary"
    "file_at w (pu_snapshot u @ [''index.json'']) = Some (Json (PDict cached))" "index_skills cached = Inr old"
    "changes_only [k] (ss_skills summary) old new" "index = merged_index (pn_label n) (pn_now n) cached new"
    "file_get_option root ?ix w' = Some (Json (PDict index))"
  proof (rule published_merge [OF b up r assms(3) o(1) assms(5) a o(2) base], goal_cases)
    case (1 w2 summary cached old new)
    then show thesis using w1 that [of w2 summary cached old new] by (simp add: publish_status_def)
  qed
  obtain nh where nh: "dict_hashes_by_id (PDict index) = Inr nh"
    unfolding g(6) by (simp add: dict_hashes_by_id_fold index_skills_merged)
  have "map_of nh j = map_of rh j" if "j \<noteq> k" for j
    using changes_only_hashes [OF g(5), of j cached ch "pn_label n" "pn_now n"] that s(1,3,5) g(3,4) nh unfolding g(6) by auto
  with g(4-6) nh s(4) have "index_after_publish k (ss_skills summary) cached remote_index index"
    by (simp add: index_after_publish_def index_skills_merged)
  with that [OF g(1,2,3) s(2)] g(7) show thesis by blast
qed

text \<open>C14: Publishing one skill to a directory remote changes the central index only at that skill. The skill's directory is
  copied, without caches and with the manifest of its analysis, as the only entry of a new temporary root; the scan of
  this root gives the one entry that changes. The entries of all other skills stay as the cached index has them, and
  every other skill keeps the hash the remote's own index had for it; this index is what the remote has afterwards.
  It happens only for a skill whose risk check has no error.\<close>
theorem publishing_a_skill_changes_only_that_skill:
  assumes run: "publish_local_skill H mc u n True d = (Inr res, d')" "dget res ''mode'' = PStr ''publish''" "pu_remote u = file_remote root"
    and "digest_host H" "clean (pn_tmp n)" "clean (pn_inner n)" "clean (pu_snapshot u)" "apart (pn_inner n) (pu_snapshot u)"
    and "apart (pn_tmp n) (pu_snapshot u)" "apart root (pn_tmp n)" "apart (publish_base u n) root"
    and new: "lookup (w_tree (dv_world d)) (pn_tmp n) = None" "apart (pn_inner n) (pn_tmp n)"
    and place: "apart (pn_tmp n) (realpath d (path_div (pu_local_root u) (strip (pu_skill_id u))))"
    and name: "CHR 0x2F \<notin> set (strip (pu_skill_id u))" "strip (pu_skill_id u) \<notin> {''.'', ''..''}"
  defines "k \<equiv> strip (pu_skill_id u)"
  shows "\<exists>r a es w2 summary cached remote_index published.
    let source = realpath d (path_div (pu_local_root u) k); ix = join_remote_path (pu_prefix u) ''index.json'' in
    scan_skill H (dv_world d) ''local-publish'' source (source @ [''SKILL.md'']) = Inr r
    \<and> local_risk r (secret_files (dv_world d) source) \<noteq> ''error''
    \<and> analyze_local_skill H mc d source [] None = Inr a \<and> lookup (w_tree (dv_world d)) source = Some (NDir es)
    \<and> lookup (w_tree w2) (pn_tmp n @ [''selected-skill''])
        = Some (NDir [(k, put (pruned (NDir es)) [''manifest.json''] (NFile (Json (PDict (la_manifest a)))))])
    \<and> scan_roots H w2 [(''cc-switch'', pn_tmp n @ [''selected-skill''])] = Inr summary
    \<and> file_at (dv_world d) (pu_snapshot u @ [''index.json'']) = Some (Json (PDict cached))
    \<and> file_get_option root ix (dv_world d) = Some (Json remote_index)
    \<and> index_after_publish k (ss_skills summary) cached remote_index published
    \<and> file_get_option root ix (dv_world d') = Some (Json (PDict published))"
proof -
  let ?dir = "realpath d (path_div (pu_local_root u) k)" and ?iso = "isolated_skill n k" and ?ix = "join_remote_path (pu_prefix u) ''index.json''"
  obtain a where a: "publishable H mc d u = Inr (k, ?dir, a)"
    and o: "on_world (with_tmp (pn_tmp n) (publish_isolated H n u k ?dir (la_manifest a) True)) d = (Inr res, d')"
    using run(1) by (cases "publishable H mc d u") (auto simp: publish_local_skill_def publishable_def Let_def io_defs k_def split: if_splits)
  obtain r where r: "scan_skill H (dv_world d) ''local-publish'' ?dir (?dir @ [''SKILL.md'']) = Inr r"
    "local_risk r (secret_files (dv_world d) ?dir) \<noteq> ''error''" "k \<noteq> []" "analyze_local_skill H mc d ?dir [] None = Inr a"
    using a unfolding publishable_def Let_def k_def by (auto split: if_splits)
  from on_world_run [OF o] obtain w' where w': "with_tmp (pn_tmp n) (publish_isolated H n u k ?dir (la_manifest a) True) (dv_world d) = (Inr res, w')"
    "dv_world d' = w'" by auto
  obtain w1 w9 where t: "mkdirs (pn_tmp n) (dv_world d) = (Inr (), w1)" "publish_isolated H n u k ?dir (la_manifest a) True w1 = (Inr res, w9)"
    "remove_path (pn_tmp n) w9 = (Inr (), w')"
    by (rule with_tmp_Inr [OF w'(1)])
  from t(2) obtain w2 w3 i where p: "copytree_pruned ?dir ?iso w1 = (Inr (), w2)"
    "write_data (?iso @ [''manifest.json'']) (Json (PDict (la_manifest a))) w2 = (Inr (), w3)"
    "publish_merged H n u k True i w3 = (Inr res, w9)"
    using run(2) unfolding publish_isolated_def by (auto simp: io_Inr publish_head_def dget_def split: if_splits)
  have ck: "clean [''selected-skill'', k]" using name by (simp add: k_def)
  have iso_eq: "?iso = pn_tmp n @ [''selected-skill'', k]"
    using path_div_name [of k "pn_tmp n @ [''selected-skill'']"] name r(3) by (simp add: isolated_skill_def k_def)
  have inside: "prefix (pn_tmp n) (norm_path ?iso)" using assms(5) ck by (simp add: iso_eq)
  have "\<exists>es. lookup (w_tree (dv_world d)) ?dir = Some (NDir es) \<and> lookup (w_tree w3) (pn_tmp n @ [''selected-skill''])
      = Some (NDir [(k, put (pruned (NDir es)) [''manifest.json''] (NFile (Json (PDict (la_manifest a)))))])"
    by (rule isolated_root [OF t(1) p(1) [unfolded iso_eq] _ assms(5) clean_realpath ck new(1)])
      (use p(2) [unfolded iso_eq] place in \<open>simp_all add: k_def\<close>)
  then obtain es where es: "lookup (w_tree (dv_world d)) ?dir = Some (NDir es)" "lookup (w_tree w3) (pn_tmp n @ [''selected-skill''])
      = Some (NDir [(k, put (pruned (NDir es)) [''manifest.json''] (NFile (Json (PDict (la_manifest a)))))])" by blast
  have keep: "file_at w3 q = file_at (dv_world d) q" if q: "apart (pn_tmp n) q" "clean q" for q
    using keepsD [OF isolate_keeps(1) [OF inside q] p(1)] keepsD [OF isolate_keeps(2) [OF inside q] p(2)] keepsD [OF keeps_mkdirs t(1)] by simp
  obtain summary w4 cached remote_index published where g: "mkdirs (pn_inner n) w3 = (Inr (), w4)"
    "scan_roots H w4 [(''cc-switch'', pn_tmp n @ [''selected-skill''])] = Inr summary"
    "file_at w3 (pu_snapshot u @ [''index.json'']) = Some (Json (PDict cached))" "file_get_option root ?ix w3 = Some (Json remote_index)"
    "index_after_publish k (ss_skills summary) cached remote_index published"
    "file_get_option root ?ix w9 = Some (Json (PDict published))"
    by (rule publish_merged_published [OF p(3) run(3) assms(4-8,10,11)])
  have "\<not> prefix (pn_tmp n @ [''selected-skill'']) (pn_inner n)" using new(2) by (auto simp: apart_def prefix_def)
  then have w4: "lookup (w_tree w4) (pn_tmp n @ [''selected-skill'']) = lookup (w_tree w3) (pn_tmp n @ [''selected-skill''])"
    using mkdirs_frame [of "pn_tmp n @ [''selected-skill'']" "pn_inner n" w3] g(1) assms(6) by simp
  obtain t0 where t0: "file_path root ?ix = Inr t0" using g(6) by (cases "file_path root ?ix") (auto simp: file_get_option)
  have at0: "clean t0" "apart (pn_tmp n) t0" using file_path_Inr [OF t0] apart_under [OF assms(10)] by (auto intro: apart_sym)
  have rem: "file_get_option root ?ix (dv_world d) = Some (Json remote_index)"
    using g(4) keep [OF at0(2,1)] t0 by (simp add: file_get_option)
  from keepsD [OF keeps_frame [OF remove_path_frame [OF assms(5)] at0(2,1)] t(3)] g(6) t0
  have pub: "file_get_option root ?ix (dv_world d') = Some (Json (PDict published))" by (simp add: file_get_option w'(2))
  have "apart (pn_tmp n) (pu_snapshot u @ [''index.json''])" "clean (pu_snapshot u @ [''index.json''])"
    using apart_extend [OF assms(9)] assms(7) by simp_all
  from keep [OF this] g(3) have "file_at (dv_world d) (pu_snapshot u @ [''index.json'']) = Some (Json (PDict cached))" by simp
  with r es w4 g(2,5) rem pub show ?thesis unfolding Let_def by metis
qed

section \<open>Example\<close>

definition publish_device :: device where
  "publish_device = \<lparr>dv_world = \<lparr>w_tree = NDir
     [(''l'', NDir [(''demo-skill'', tiny_skill_node)]),
      (''c'', NDir [(''index.json'', NFile (Json (PDict [(''skills'', PList [gone_b])])))]),
      (''r'', NDir [(''index.json'', NFile (Json (PDict [(''skills'', PList [gone_b])])))])], w_fault = None\<rparr>, dv_links = []\<rparr>"

definition demo_publish :: publish_args where
  "demo_publish = \<lparr>pu_local_root = [''l''], pu_snapshot = [''c''], pu_skill_id = '' demo-skill'', pu_remote = file_remote [''r''],
     pu_prefix = [], pu_last_applied = None, pu_base_out = Some [''b.json'']\<rparr>"

definition demo_publish_names :: publish_names where
  "demo_publish_names = \<lparr>pn_tmp = [''t1''], pn_inner = [''t2''], pn_label = ''p1'', pn_sync_id = ''y1'', pn_now = ''now''\<rparr>"

theorem publishing_a_skill_changes_only_that_skill_witness:
  "\<exists>res d' index new. publish_local_skill hex_host demo_machine demo_publish demo_publish_names True publish_device = (Inr res, d')
     \<and> file_get_option [''r''] ''index.json'' (dv_world d') = Some (Json (PDict index))
     \<and> index_skills index = Inr (dict_or_empty gone_b # new)"
proof -
  let ?run = "publish_local_skill hex_host demo_machine demo_publish demo_publish_names True publish_device"
  have "case ?run of (Inl e, d') \<Rightarrow> False | (Inr res, d') \<Rightarrow> dget res ''mode'' = PStr ''publish''" by code_simp
  then obtain res d' where r: "?run = (Inr res, d')" "dget res ''mode'' = PStr ''publish''" by (auto split: prod.splits sum.splits)
  have k: "strip (pu_skill_id demo_publish) = ''demo-skill''" by code_simp
  have h: "digest_host hex_host" by (simp add: digest_host_def hex_host_def)
  have c: "pu_remote demo_publish = file_remote [''r'']" "clean (pn_tmp demo_publish_names)" "clean (pn_inner demo_publish_names)"
    "clean (pu_snapshot demo_publish)" "apart (pn_inner demo_publish_names) (pu_snapshot demo_publish)"
    "apart (pn_tmp demo_publish_names) (pu_snapshot demo_publish)" "apart [''r''] (pn_tmp demo_publish_names)"
    by (simp_all add: demo_publish_def demo_publish_names_def apart_def)
  have d: "apart (publish_base demo_publish demo_publish_names) [''r'']" "lookup (w_tree (dv_world publish_device)) (pn_tmp demo_publish_names) = None"
    "apart (pn_inner demo_publish_names) (pn_tmp demo_publish_names)"
    "apart (pn_tmp demo_publish_names) (realpath publish_device (path_div (pu_local_root demo_publish) (strip (pu_skill_id demo_publish))))"
    by code_simp+
  have nm: "CHR 0x2F \<notin> set (strip (pu_skill_id demo_publish))" "strip (pu_skill_id demo_publish) \<notin> {''.'', ''..''}"
    unfolding k by simp_all
  obtain cached remote_index published and summary :: scan_summary where g:
    "file_at (dv_world publish_device) (pu_snapshot demo_publish @ [''index.json'']) = Some (Json (PDict cached))"
    "index_after_publish (strip (pu_skill_id demo_publish)) (ss_skills summary) cached remote_index published"
    "file_get_option [''r''] (join_remote_path (pu_prefix demo_publish) ''index.json'') (dv_world d') = Some (Json (PDict published))"
    using publishing_a_skill_changes_only_that_skill [OF r c(1) h c(2-7) d nm] unfolding Let_def by metis
  have "file_at (dv_world publish_device) (pu_snapshot demo_publish @ [''index.json'']) = Some (Json (PDict [(''skills'', PList [gone_b])]))"
    by code_simp
  with g(1) have "cached = [(''skills'', PList [gone_b])]" by simp
  then have rs: "index_skills cached = Inr [dict_or_empty gone_b]" by (simp add: index_skills_def gone_b_def dict_or_empty_def)
  have ids: "py_str (dget (dict_or_empty gone_b) ''skill_id'') = ''b''" "PDict (dict_or_empty gone_b) = gone_b"
    "join_remote_path (pu_prefix demo_publish) ''index.json'' = ''index.json''" by code_simp+
  obtain new where new: "index_skills published = Inr new" "changes_only [''demo-skill''] (ss_skills summary) [dict_or_empty gone_b] new"
    using g(2) rs k by (cases "index_skills published") (auto simp: index_after_publish_def split: sum.splits)
  from new(2) ids have "length new \<ge> 1" "new ! 0 = dict_or_empty gone_b" unfolding changes_only_def by simp_all
  then obtain ys where "new = dict_or_empty gone_b # ys" by (cases new) auto
  with r g(3) ids(3) new(1) show ?thesis by metis
qed

end
