(* ===== verification/Texts.thy ===== *)
theory Texts
  imports PyBase
begin

text \<open>
  Texts outside ASCII, written by their code points: a string of the model is the list of the bytes that the
  program writes, UTF-8.
\<close>

definition utf8_char :: "int \<Rightarrow> string" where
  "utf8_char n = map char_of
     (if n < 0x80 then [n]
      else if n < 0x800 then [0xC0 + n div 0x40, 0x80 + n mod 0x40]
      else if n < 0x10000 then [0xE0 + n div 0x1000, 0x80 + n div 0x40 mod 0x40, 0x80 + n mod 0x40]
      else [0xF0 + n div 0x40000, 0x80 + n div 0x1000 mod 0x40, 0x80 + n div 0x40 mod 0x40, 0x80 + n mod 0x40])"

definition uni :: "int list \<Rightarrow> string" where
  "uni codes = concat (map utf8_char codes)"

lemma uni_append: "uni (a @ b) = uni a @ uni b"
  by (simp add: uni_def)

lemma uni_ascii: "\<forall>n \<in> set codes. n < 128 \<Longrightarrow> uni codes = map char_of codes"
  by (induction codes) (auto simp: uni_def utf8_char_def)

end
