(* ===== verification/LegacyMigration.thy ===== *)
theory LegacyMigration
  imports LocalSkillSafe Texts
begin

text \<open>
  \<open>legacy_skillshub_migration.py\<close>: tools that still link into the old shared root are moved to copies of the
  central library. A skill may be detached only when the central archive holds the same files and names the
  tool as a target; every link is replaced by a staged copy, and its text is kept as a link below the
  migration's record, from which a failed migration is undone at once and a complete one later. Times, ids
  and the temporary directory are arguments.
\<close>

section \<open>Links into the old root\<close>

definition legacy_aliases :: "(string \<times> string list) list" where
  "legacy_aliases =
     [(''cc-switch'', [''cc-switch'']), (''codex'', [''codex'']), (''cursor'', [''cursor'']),
      (''claude-code'', [''claude-code'', ''claude'']), (''qoder'', [''qoder'']),
      (''deepseek-harness'', [''deepseek-harness'', ''deepseek''])]"

record legacy_link =
  ll_tool :: string
  ll_target :: path
  ll_text :: string

record legacy_item =
  li_id :: string
  li_name :: pyval
  li_description :: pyval
  li_path :: path
  li_hash :: string
  li_risk :: string
  li_state :: string
  li_reason :: string
  li_central :: "pydict option"
  li_targets :: "pyval list"
  li_links :: "legacy_link list"
  li_detachable :: "legacy_link list"
  li_blocked :: "(legacy_link \<times> string) list"

definition require_legacy_root :: "device \<Rightarrow> path \<Rightarrow> path res" where
  "require_legacy_root d root =
     (if \<not> d_exists d root \<or> \<not> d_is_dir d root
      then Inl (Exn LegacySkillshubMigrationError (''legacy Skillshub root not found: '' @ path_str root))
      else if is_symlink d root
      then Inl (Exn LegacySkillshubMigrationError (''legacy Skillshub root must be a real directory: '' @ path_str root))
      else Inr (realpath d root))"

definition legacy_load_snapshot :: "world \<Rightarrow> path \<Rightarrow> pydict res" where
  "legacy_load_snapshot w snapshot_dir =
     (let p = snapshot_dir @ [''index.json''] in
      if \<not> exists w p then Inl (Exn LegacySkillshubMigrationError (''central snapshot index not found: '' @ path_str p))
      else case fst (read_json p w) of
          Inl e \<Rightarrow> Inl (if exn_kind e \<in> set [OSError, JSONDecodeError]
             then Exn LegacySkillshubMigrationError (''cannot read central snapshot index: '' @ exn_text e) else e)
        | Inr v \<Rightarrow> bindR (as_dict v) (\<lambda>data.
            if is_list (dget data ''skills'') then Inr data
            else Inl (Exn LegacySkillshubMigrationError ''central snapshot has no skills list'')))"

text \<open>A skill id that two entries claim belongs to neither.\<close>

definition claimed_ids :: "pydict \<Rightarrow> (string \<times> pydict) list" where
  "claimed_ids snapshot = filter (\<lambda>(i, raw). i \<noteq> [])
     (map (\<lambda>raw. (strip (py_str (por (dget raw ''skill_id'') (PStr []))), raw)) (only_dicts (list_or_empty (dget snapshot ''skills''))))"

definition central_by_skill_id :: "pydict \<Rightarrow> (string \<times> pydict) list" where
  "central_by_skill_id snapshot =
     filter (\<lambda>(i, raw). count_list (map fst (claimed_ids snapshot)) i = 1) (claimed_ids snapshot)"

definition legacy_skill_dirs :: "device \<Rightarrow> path \<Rightarrow> path list" where
  "legacy_skill_dirs d root =
     filter (\<lambda>p. \<not> (starts_with (path_name p) ''.'' \<or> is_symlink d p \<or> \<not> d_is_dir d p) \<and> is_file (dv_world d) (p @ [''SKILL.md'']))
       (map (\<lambda>n. root @ [n]) (d_iterdir d root))"

definition consumer_roots :: "machine \<Rightarrow> (string \<times> path) list option \<Rightarrow> (string \<times> path) list" where
  "consumer_roots mc overrides =
     (case overrides of Some roots \<Rightarrow> roots
      | None \<Rightarrow> map (\<lambda>t. (lt_id t, lt_root t)) (filter (\<lambda>t. lt_id t \<noteq> ''skillshub'') (default_tool_targets mc)))"

text \<open>The tools that show the skill through a link of their own.\<close>

definition consumer_links :: "device \<Rightarrow> path \<Rightarrow> (string \<times> path) list \<Rightarrow> legacy_link list" where
  "consumer_links d skill consumers =
     concat (map (\<lambda>(tool_id, root). let target = root @ [path_name skill] in
         case link_at d target of
           None \<Rightarrow> []
         | Some link_text \<Rightarrow>
             (if d_exists d target \<and> realpath d target = realpath d skill
              then [\<lparr>ll_tool = tool_id, ll_target = target, ll_text = link_text\<rparr>] else []))
       (sort_items consumers))"

section \<open>The central copy\<close>

text \<open>The payload of an archive: name and hash of each member that is a file and not the sidecar's own.\<close>

definition payload_name :: "string \<Rightarrow> bool" where
  "payload_name n = (\<not> ends_with n ''/'' \<and> \<not> starts_with n ''.skill-sync/'' \<and> n \<noteq> ''manifest.json'')"

definition archive_payload_hashes :: "host \<Rightarrow> world \<Rightarrow> path \<Rightarrow> string \<Rightarrow> (string \<times> string) list res" where
  "archive_payload_hashes H w root rel =
     (let archive = norm_path (path_div root rel) in
      if \<not> prefix root archive then Inl (Exn ValueError ''archive path escapes central snapshot'')
      else if \<not> exists w archive then Inl (Exn OSError (''archive not found: '' @ rel))
      else bindR (zip_members w archive) (\<lambda>ms.
        mapR (\<lambda>n. bindR (zip_read ms n) (\<lambda>f. Inr (n, h_sha H f))) (filter payload_name (map fst ms))))"

definition local_payload :: "skill_record \<Rightarrow> (string \<times> string) list" where
  "local_payload r = map (\<lambda>f. (sf_path f, sf_sha256 f)) (filter (\<lambda>f. sf_path f \<noteq> ''manifest.json'') (sk_files r))"

definition same_payload :: "(string \<times> string) list \<Rightarrow> (string \<times> string) list \<Rightarrow> bool" where
  "same_payload a b = (\<forall>k \<in> set (map fst a @ map fst b). map_of a k = map_of b k)"

definition central_state :: "host \<Rightarrow> world \<Rightarrow> path \<Rightarrow> skill_record \<Rightarrow> pydict option \<Rightarrow> (string \<times> string) res" where
  "central_state H w snapshot_dir r central_item =
     (case central_item of
        None \<Rightarrow> Inr (''missing'', uni [0x5C1A, 0x672A, 0x4FDD, 0x5B58, 0x5230, 0x4E2D, 0x592E, 0x4ED3, 0x5E93, 0x3002])
      | Some c \<Rightarrow> (let archive = py_str (por (dget c ''archive'') (PStr [])) in
          if archive = [] then Inr (''changed'', uni [0x4E2D, 0x592E, 0x4ED3, 0x5E93, 0x6761, 0x76EE, 0x7F3A, 0x5C11, 0x53EF, 0x9A8C, 0x8BC1,
            0x7684, 0x5F52, 0x6863, 0x6587, 0x4EF6, 0x3002])
          else case archive_payload_hashes H w snapshot_dir archive of
              Inl e \<Rightarrow> (if exn_kind e \<in> set [KeyError, OSError, ValueError, JSONDecodeError]
                 then Inr (''changed'', uni [0x4E2D, 0x592E, 0x4ED3, 0x5E93, 0x5F52, 0x6863, 0x65E0, 0x6CD5, 0x8BFB, 0x53D6, 0x6216, 0x8DEF,
                   0x5F84, 0x4E0D, 0x5B89, 0x5168, 0x3002]) else Inl e)
            | Inr central_files \<Rightarrow> Inr (if same_payload (local_payload r) central_files
                then (''match'', uni [0x4E2D, 0x592E, 0x4ED3, 0x5E93, 0x5185, 0x5BB9, 0x4E0E, 0x65E7, 0x76EE, 0x5F55, 0x4E00, 0x81F4, 0x3002])
                else (''changed'', (uni [0x4E2D, 0x592E, 0x4ED3, 0x5E93, 0x540C, 0x540D] @ '' skill '' @ uni [0x4E0E, 0x65E7, 0x76EE, 0x5F55,
                  0x5185, 0x5BB9, 0x4E0D, 0x540C, 0xFF0C, 0x9700, 0x8981, 0x5148, 0x68C0, 0x67E5, 0x5DEE, 0x5F02, 0x3002])))))"

definition link_compatible :: "string list \<Rightarrow> legacy_link \<Rightarrow> bool" where
  "link_compatible targets l =
     list_ex (\<lambda>a. a \<in> set targets) (case map_of legacy_aliases (ll_tool l) of Some as \<Rightarrow> as | None \<Rightarrow> [ll_tool l])"

definition blocked_because :: "string \<Rightarrow> string" where
  "blocked_because state = (if state \<noteq> ''match'' then uni [0x4E2D, 0x592E, 0x5185, 0x5BB9, 0x5C1A, 0x672A, 0x9A8C, 0x8BC1, 0x4E00,
    0x81F4, 0x3002] else (uni [0x4E2D, 0x592E, 0x4ED3, 0x5E93] @ '' manifest '' @ uni [0x672A, 0x58F0, 0x660E, 0x8BE5, 0x5DE5, 0x5177,
    0x4E3A, 0x5B89, 0x88C5, 0x76EE, 0x6807, 0x3002]))"

definition classify_links :: "legacy_link list \<Rightarrow> string list \<Rightarrow> string \<Rightarrow> legacy_link list \<times> (legacy_link \<times> string) list" where
  "classify_links links targets state =
     (let allowed = (\<lambda>l. state = ''match'' \<and> link_compatible targets l) in
      (filter allowed links, map (\<lambda>l. (l, blocked_because state)) (filter (\<lambda>l. \<not> allowed l) links)))"

definition legacy_action :: "legacy_item \<Rightarrow> string \<times> string" where
  "legacy_action i =
     (if li_state i = ''missing'' then (''publish_to_central'', (uni [0x5148, 0x5728] @ '' Skill '' @ uni [0x6E05, 0x5355, 0x4E2D, 0x9009,
       0x62E9, 0x8BE5] @ '' skill '' @ uni [0x5E76, 0x4FDD, 0x5B58, 0x5230, 0x4E2D, 0x592E, 0x4ED3, 0x5E93, 0x3002]))
      else if li_state i = ''changed'' then (''review_central_difference'', uni [0x5148, 0x68C0, 0x67E5, 0x4E24, 0x8FB9, 0x5DEE, 0x5F02,
        0xFF0C, 0x786E, 0x8BA4, 0x4FDD, 0x7559, 0x7248, 0x672C, 0x540E, 0x518D, 0x8FC1, 0x79FB, 0x3002])
      else if li_detachable i \<noteq> []
      then (''detach_legacy_links'', (uni [0x53EF, 0x5C06] @ '' '') @ int_str (int (length (li_detachable i))) @ ('' '' @ uni [0x4E2A,
        0x5DE5, 0x5177, 0x8F6F, 0x94FE, 0x63A5, 0x66FF, 0x6362, 0x4E3A, 0x4E2D, 0x592E, 0x4ED3, 0x5E93, 0x526F, 0x672C])
        @ (if li_blocked i = [] then [] else (uni [0xFF1B, 0x5176, 0x4F59, 0x5DE5, 0x5177, 0x672A, 0x5728] @ '' manifest '' @ uni [0x4E2D,
          0x58F0, 0x660E, 0xFF0C, 0x6682, 0x4E0D, 0x5904, 0x7406, 0x3002])))
      else if li_links i \<noteq> [] then (''update_targets'', (uni [0x4E2D, 0x592E, 0x4ED3, 0x5E93, 0x5185, 0x5BB9, 0x4E00, 0x81F4, 0xFF0C,
        0x4F46] @ '' manifest '' @ uni [0x672A, 0x58F0, 0x660E, 0x8FD9, 0x4E9B, 0x5DE5, 0x5177, 0xFF1B, 0x5148, 0x8865, 0x76EE, 0x6807,
        0x540E, 0x518D, 0x8FC1, 0x79FB, 0x3002]))
      else (''no_linked_consumer'', uni [0x6CA1, 0x6709, 0x5DE5, 0x5177, 0x8F6F, 0x94FE, 0x63A5, 0x4F9D, 0x8D56, 0x6B64, 0x65E7, 0x76EE,
        0x5F55, 0x3002]))"

section \<open>The preview\<close>

definition legacy_item_of ::
    "host \<Rightarrow> device \<Rightarrow> path \<Rightarrow> (string \<times> pydict) list \<Rightarrow> (string \<times> path) list \<Rightarrow> path \<Rightarrow> legacy_item res" where
  "legacy_item_of H d snapshot_dir central consumers skill =
     bindR (scan_skill H (dv_world d) ''skillshub'' skill (skill @ [''SKILL.md''])) (\<lambda>r.
     let links = consumer_links d skill consumers; item = map_of central (sk_id r) in
     bindR (central_state H (dv_world d) snapshot_dir r item) (\<lambda>(state, reason).
     bindR (py_iter (case item of None \<Rightarrow> PList [] | Some c \<Rightarrow> por (dget c ''targets'') (PList []))) (\<lambda>targets.
     let (allowed, blocked) = classify_links links (map py_str targets) state in
       Inr \<lparr>li_id = sk_id r, li_name = por (sk_name r) (PStr (sk_id r)), li_description = por (sk_description r) (PStr []),
         li_path = skill, li_hash = sk_hash r, li_risk = risk_level r, li_state = state, li_reason = reason, li_central = item,
         li_targets = targets, li_links = links, li_detachable = allowed, li_blocked = blocked\<rparr>)))"

record legacy_preview =
  lp_root :: path
  lp_snapshot :: path
  lp_snapshot_id :: pyval
  lp_items :: "legacy_item list"

definition build_legacy_preview :: "host \<Rightarrow> machine \<Rightarrow> device \<Rightarrow> path \<Rightarrow> path \<Rightarrow> (string \<times> path) list option \<Rightarrow> legacy_preview res" where
  "build_legacy_preview H mc d legacy_root snapshot_dir overrides =
     bindR (require_legacy_root d legacy_root) (\<lambda>legacy.
     bindR (legacy_load_snapshot (dv_world d) snapshot_dir) (\<lambda>snapshot.
     bindR (mapR (legacy_item_of H d (realpath d snapshot_dir) (central_by_skill_id snapshot) (consumer_roots mc overrides))
         (legacy_skill_dirs d legacy)) (\<lambda>items.
       Inr \<lparr>lp_root = legacy, lp_snapshot = realpath d snapshot_dir, lp_snapshot_id = dget snapshot ''snapshot_id'',
         lp_items = sort_key li_id items\<rparr>)))"

definition link_dict :: "legacy_link \<Rightarrow> pydict" where
  "link_dict l = [(''tool_id'', PStr (ll_tool l)), (''target_path'', PStr (path_str (ll_target l))), (''link_target'', PStr (ll_text l))]"

definition legacy_item_dict :: "legacy_item \<Rightarrow> pydict" where
  "legacy_item_dict i =
     [(''skill_id'', PStr (li_id i)), (''name'', li_name i), (''description'', li_description i), (''legacy_path'', PStr (path_str (li_path i))),
      (''legacy_content_hash'', PStr (li_hash i)), (''legacy_risk'', PStr (li_risk i)), (''central_state'', PStr (li_state i)),
      (''central_reason'', PStr (li_reason i)),
      (''central_content_hash'', case li_central i of Some c \<Rightarrow> dget c ''content_hash'' | None \<Rightarrow> PNone),
      (''central_targets'', PList (li_targets i)), (''links'', PList (map (PDict \<circ> link_dict) (li_links i))),
      (''detachable_links'', PList (map (PDict \<circ> link_dict) (li_detachable i))),
      (''blocked_links'', PList (map (\<lambda>(l, why). PDict (link_dict l @ [(''reason'', PStr why)])) (li_blocked i))),
      (''action'', PStr (fst (legacy_action i))), (''action_detail'', PStr (snd (legacy_action i)))]"

definition legacy_count :: "(legacy_item \<Rightarrow> bool) \<Rightarrow> legacy_item list \<Rightarrow> int" where
  "legacy_count f items = int (length (filter f items))"

definition legacy_total :: "(legacy_item \<Rightarrow> 'a list) \<Rightarrow> legacy_item list \<Rightarrow> int" where
  "legacy_total f items = int (sum_list (map (length \<circ> f) items))"

definition legacy_summary :: "legacy_item list \<Rightarrow> pydict" where
  "legacy_summary items =
     [(''legacy_skills'', PInt (int (length items))), (''linked_skills'', PInt (legacy_count (\<lambda>i. li_links i \<noteq> []) items)),
      (''linked_entries'', PInt (legacy_total li_links items)),
      (''central_missing'', PInt (legacy_count (\<lambda>i. li_state i = ''missing'') items)),
      (''central_match'', PInt (legacy_count (\<lambda>i. li_state i = ''match'') items)),
      (''central_changed'', PInt (legacy_count (\<lambda>i. li_state i = ''changed'') items)),
      (''detachable_skills'', PInt (legacy_count (\<lambda>i. li_detachable i \<noteq> []) items)),
      (''detachable_links'', PInt (legacy_total li_detachable items)), (''blocked_links'', PInt (legacy_total li_blocked items))]"

definition legacy_operator_action :: "legacy_item list \<Rightarrow> string" where
  "legacy_operator_action items =
     (uni [0x53EF, 0x7ACB, 0x5373, 0x8FC1, 0x79FB]
       @ '' '') @ int_str (legacy_count (\<lambda>i. li_detachable i \<noteq> []) items) @ ('' '' @ uni [0x4E2A, 0x5DF2, 0x9A8C, 0x8BC1]
       @ '' skill '' @ uni [0x7684] @ '' '')
     @ int_str (legacy_total li_detachable items) @ ('' '' @ uni [0x4E2A, 0x8F6F, 0x94FE, 0x63A5,
       0xFF1B]) @ int_str (legacy_count (\<lambda>i. li_state i = ''missing'') items)
     @ ('' '' @ uni [0x4E2A, 0x9700, 0x5148, 0x4FDD, 0x5B58, 0x5230, 0x4E2D, 0x592E, 0x4ED3, 0x5E93,
       0xFF0C]) @ int_str (legacy_count (\<lambda>i. li_state i = ''changed'') items) @ ('' '' @ uni [0x4E2A, 0x9700, 0x5148, 0x68C0, 0x67E5,
       0x5DEE, 0x5F02, 0x3002])"

definition legacy_preview_dict :: "legacy_preview \<Rightarrow> pydict" where
  "legacy_preview_dict p =
     [(''ok'', PBool True), (''record_type'', PStr ''skill-sync-legacy-skillshub-migration-preview''), (''mode'', PStr ''dry_run''),
      (''dry_run'', PBool True), (''legacy_root'', PStr (path_str (lp_root p))), (''remote_snapshot'', PStr (path_str (lp_snapshot p))),
      (''snapshot_id'', lp_snapshot_id p), (''summary'', PDict (legacy_summary (lp_items p))),
      (''operator_action'', PStr (legacy_operator_action (lp_items p))), (''items'', PList (map (PDict \<circ> legacy_item_dict) (lp_items p)))]"

text \<open>The report for the peer carries no local path.\<close>

definition peer_item :: "legacy_item \<Rightarrow> pydict" where
  "peer_item i =
     [(''skill_id'', PStr (li_id i)), (''name'', li_name i), (''central_state'', PStr (li_state i)), (''central_reason'', PStr (li_reason i)),
      (''tools'', strs (sorted_set (filter (\<lambda>t. t \<noteq> []) (map ll_tool (li_links i))))), (''link_count'', PInt (int (length (li_links i)))),
      (''detachable_link_count'', PInt (int (length (li_detachable i)))), (''action'', PStr (fst (legacy_action i))),
      (''action_detail'', PStr (snd (legacy_action i)))]"

definition legacy_peer_report :: "host \<Rightarrow> machine \<Rightarrow> device \<Rightarrow> path \<Rightarrow> path \<Rightarrow> (string \<times> path) list option \<Rightarrow> string \<Rightarrow> pydict res" where
  "legacy_peer_report H mc d legacy_root snapshot_dir overrides observed =
     (case build_legacy_preview H mc d legacy_root snapshot_dir overrides of
        Inl e \<Rightarrow> (if exn_kind e \<in> set [LegacySkillshubMigrationError, OSError, ValueError, JSONDecodeError]
          then Inr [(''legacy_skillshub_report_version'', PInt 1), (''available'', PBool False), (''measured_at'', PStr observed),
             (''reason'', PStr ((uni [0x65E7] @ '' Skillshub '' @ uni [0x76EE, 0x5F55, 0x6216, 0x5171, 0x4EAB, 0x5E93, 0x5FEB, 0x7167,
               0x4E0D, 0x53EF, 0x8BFB, 0x53D6, 0x3002]))),
             (''summary'', PDict []), (''items'', PList [])]
          else Inl e)
      | Inr p \<Rightarrow> Inr [(''legacy_skillshub_report_version'', PInt 1), (''available'', PBool True), (''measured_at'', PStr observed),
          (''snapshot_id'', lp_snapshot_id p), (''summary'', PDict (legacy_summary (lp_items p))),
          (''items'', PList (map (PDict \<circ> peer_item) (lp_items p)))])"

section \<open>Replacing one link\<close>

definition link_backup :: "path \<Rightarrow> string \<Rightarrow> string \<Rightarrow> path" where
  "link_backup record_dir tool_id skill_id = path_div (path_div (record_dir @ [''links'']) tool_id) skill_id"

definition legacy_temp :: "path \<Rightarrow> string \<Rightarrow> path" where
  "legacy_temp target migration_id = path_parent target @ [''.'' @ path_name target @ ''.skill-sync-legacy-tmp-'' @ migration_id]"

definition swap_legacy_link :: "path \<Rightarrow> path \<Rightarrow> path \<Rightarrow> path \<Rightarrow> string \<Rightarrow> unit dio" where
  "swap_legacy_link staged target temp backup original =
     thenI (d_copytree staged temp) (thenI (on_world (mkdirs (path_parent backup))) (thenI (d_symlink original backup)
       (thenI (d_unlink target) (d_replace temp target))))"

definition undo_legacy_swap :: "path \<Rightarrow> path \<Rightarrow> path \<Rightarrow> string \<Rightarrow> unit dio" where
  "undo_legacy_swap target temp backup original =
     thenI (d_only_when (\<lambda>d. d_present d temp) (d_remove_path temp))
       (d_only_when (\<lambda>d. \<not> d_exists d target \<and> \<not> is_symlink d target \<and> is_symlink d backup) (d_symlink original target))"

definition replace_legacy_link :: "path \<Rightarrow> path \<Rightarrow> string \<Rightarrow> path \<Rightarrow> legacy_item \<Rightarrow> legacy_link \<Rightarrow> pydict dio" where
  "replace_legacy_link target staged migration_id record_dir i l =
     (let backup = link_backup record_dir (ll_tool l) (li_id i); temp = legacy_temp target migration_id in
      bindI (askI (\<lambda>d. link_at d target)) (\<lambda>found. case found of
        None \<Rightarrow> raiseI (Exn LegacySkillshubMigrationError (''legacy link changed before migration: '' @ path_str target))
      | Some original \<Rightarrow>
          bindI (askI (\<lambda>d. d_present d backup)) (\<lambda>backed. if backed
            then raiseI (Exn LegacySkillshubMigrationError (''legacy link backup already exists: '' @ path_str backup))
            else bindI (askI (\<lambda>d. d_present d temp)) (\<lambda>taken. if taken
              then raiseI (Exn LegacySkillshubMigrationError (''migration temporary path already exists: '' @ path_str temp))
              else thenI (catchI (swap_legacy_link staged target temp backup original)
                  (\<lambda>e. thenI (undo_legacy_swap target temp backup original) (raiseI e)))
                (returnI [(''skill_id'', PStr (li_id i)), (''tool_id'', PStr (ll_tool l)), (''target_path'', PStr (path_str target)),
                   (''backup_link_path'', PStr (path_str backup)), (''original_link_target'', PStr original),
                   (''central_content_hash'', case li_central i of Some c \<Rightarrow> dget c ''content_hash'' | None \<Rightarrow> PNone),
                   (''action'', PStr ''replaced_legacy_symlink_with_central_copy'')])))))"

text \<open>Undoing the links that were applied, last first; what cannot be undone is reported.\<close>

definition rollback_applied_link :: "pyval \<Rightarrow> unit dio" where
  "rollback_applied_link v =
     bindI (liftI (bindR (as_dict v) (\<lambda>x. bindR (dindex x ''target_path'') (\<lambda>t. bindR (dindex x ''backup_link_path'') (\<lambda>b.
         Inr (path_of (py_str t), path_of (py_str b))))))) (\<lambda>(target, backup).
       thenI (d_only_when (\<lambda>d. d_present d target) (d_remove_path target))
         (bindI (askI (\<lambda>d. link_at d backup)) (\<lambda>kept. case kept of
             None \<Rightarrow> raiseI (Exn LegacySkillshubMigrationError (''legacy link backup is missing: '' @ path_str backup))
           | Some original \<Rightarrow> d_symlink original target)))"

definition rollback_applied_links :: "pyval list \<Rightarrow> string list dio" where
  "rollback_applied_links items =
     foldI (\<lambda>v errors. catchI (thenI (rollback_applied_link v) (returnI errors)) (\<lambda>e. returnI (errors @ [exn_text e]))) (rev items) []"

section \<open>A migration\<close>

definition stripped_ids :: "string list \<Rightarrow> string list" where
  "stripped_ids raw = fold (\<lambda>i acc. if i \<noteq> [] \<and> i \<notin> set acc then acc @ [i] else acc) (map strip raw) []"

text \<open>What was picked: every id is a skill of the old root that can be detached.\<close>

definition legacy_candidates :: "legacy_preview \<Rightarrow> string list \<Rightarrow> (string list \<times> legacy_item list) res" where
  "legacy_candidates p skill_ids =
     (let picked = stripped_ids skill_ids; by_id = map_of (rev (map (\<lambda>i. (li_id i, i)) (lp_items p)));
          missing = filter (\<lambda>i. by_id i = None) picked; candidates = map (\<lambda>i. the (by_id i)) picked;
          unsafe = filter (\<lambda>i. li_detachable i = []) candidates in
      if picked = [] then Inl (Exn LegacySkillshubMigrationError ''select at least one verified skill before migration'')
      else if missing \<noteq> [] then Inl (Exn LegacySkillshubMigrationError (''legacy skill not found: '' @ join_str '', '' missing))
      else if unsafe \<noteq> []
      then Inl (Exn LegacySkillshubMigrationError
        (''selected skill is not safe to detach from the legacy root: '' @ join_str '', '' (map li_id unsafe)))
      else Inr (picked, candidates))"

text \<open>The state of a migration: the device, and the record that is written after every step.\<close>

record migration_run =
  mr_device :: device
  mr_record :: pydict

type_synonym 'a mio = "(migration_run, 'a) act"

definition on_device :: "'a dio \<Rightarrow> 'a mio" where
  "on_device m s = (case m (mr_device s) of (r, d') \<Rightarrow> (r, s\<lparr>mr_device := d'\<rparr>))"

definition edit_record :: "(pydict \<Rightarrow> pydict) \<Rightarrow> unit mio" where
  "edit_record f s = (Inr (), s\<lparr>mr_record := f (mr_record s)\<rparr>)"

definition save_record :: "path \<Rightarrow> unit mio" where
  "save_record p = bindI (askI mr_record) (\<lambda>rec. on_device (on_world (write_data p (Json (PDict rec)))))"

definition mr_with_tmp :: "path \<Rightarrow> 'a mio \<Rightarrow> 'a mio" where
  "mr_with_tmp tmp m =
     thenI (on_device (on_world (mkdirs tmp)))
       (bindI (catchI m (\<lambda>e. thenI (on_device (on_world (remove_path tmp))) (raiseI e)))
         (\<lambda>x. thenI (on_device (on_world (remove_path tmp))) (returnI x)))"

record migration_names =
  mg_id :: string
  mg_tmp :: path
  mg_created :: string
  mg_completed :: string
  mg_failed :: string

definition default_record_path :: "machine \<Rightarrow> string \<Rightarrow> path" where
  "default_record_path mc migration_id =
     mc_home mc @ [''Library'', ''Application Support'', ''skill-sync-sidecar'', ''migrations'', ''legacy-skillshub-'' @ migration_id @ ''.json'']"

definition applied_of :: "pydict \<Rightarrow> pyval list" where
  "applied_of rec = list_or_empty (dget rec ''applied'')"

definition staged_by_skill_id :: "pydict \<Rightarrow> (string \<times> string) list" where
  "staged_by_skill_id stage_index =
     filter (\<lambda>(i, p). i \<noteq> []) (map (\<lambda>x. (py_str (por (dget x ''skill_id'') (PStr [])), py_str (dget x ''output_path'')))
       (only_dicts (list_or_empty (dget stage_index ''skills''))))"

definition migrate_link :: "migration_names \<Rightarrow> path \<Rightarrow> path \<Rightarrow> legacy_item \<Rightarrow> legacy_link \<Rightarrow> unit \<Rightarrow> unit mio" where
  "migrate_link n record_path source i l u =
     bindI (on_device (replace_legacy_link (ll_target l) source (mg_id n) (path_parent record_path) i l)) (\<lambda>entry.
       thenI (edit_record (\<lambda>rec. dset rec ''applied'' (PList (applied_of rec @ [PDict entry])))) (save_record record_path))"

definition migrate_item :: "migration_names \<Rightarrow> path \<Rightarrow> (string \<times> string) list \<Rightarrow> legacy_item \<Rightarrow> unit \<Rightarrow> unit mio" where
  "migrate_item n record_path staged i u =
     (case map_of staged (li_id i) of
        None \<Rightarrow> raiseI (Exn LegacySkillshubMigrationError (''central stage is missing: '' @ li_id i))
      | Some source \<Rightarrow> foldI (migrate_link n record_path (path_of source) i) (li_detachable i) ())"

definition migrate_all :: "host \<Rightarrow> path \<Rightarrow> migration_names \<Rightarrow> path \<Rightarrow> legacy_item list \<Rightarrow> unit mio" where
  "migrate_all H snapshot_dir n record_path candidates =
     thenI (mr_with_tmp (mg_tmp n) (bindI (on_device (on_world (stage_snapshot H snapshot_dir (mg_tmp n) True))) (\<lambda>staged.
         foldI (migrate_item n record_path (staged_by_skill_id staged)) candidates ())))
       (thenI (edit_record (\<lambda>rec. dset (dset (dset rec ''status'' (PStr ''complete'')) ''completed_at'' (PStr (mg_completed n)))
           ''migrated_links'' (PInt (int (length (applied_of rec)))))) (save_record record_path))"

definition fail_migration :: "migration_names \<Rightarrow> path \<Rightarrow> exn \<Rightarrow> 'a mio" where
  "fail_migration n record_path e =
     bindI (askI (applied_of \<circ> mr_record)) (\<lambda>applied. bindI (on_device (rollback_applied_links applied)) (\<lambda>errors.
       thenI (edit_record (\<lambda>rec. dset (dset (dset (dset rec ''status'' (PStr (if errors = [] then ''rolled_back_after_failure'' else ''failed'')))
           ''error'' (PStr (exn_text e))) ''rollback_errors'' (strs errors)) ''failed_at'' (PStr (mg_failed n))))
         (thenI (save_record record_path)
           (raiseI (if exn_kind e = LegacySkillshubMigrationError then e else Exn LegacySkillshubMigrationError (exn_text e))))))"

definition migration_record :: "legacy_preview \<Rightarrow> string list \<Rightarrow> migration_names \<Rightarrow> pydict" where
  "migration_record p picked n =
     [(''protocol_version'', PInt 1), (''record_type'', PStr ''skill-sync-legacy-skillshub-migration''), (''migration_id'', PStr (mg_id n)),
      (''created_at'', PStr (mg_created n)), (''status'', PStr ''running''), (''legacy_root'', PStr (path_str (lp_root p))),
      (''remote_snapshot'', PStr (path_str (lp_snapshot p))), (''snapshot_id'', lp_snapshot_id p), (''selected_skill_ids'', strs picked),
      (''applied'', PList [])]"

definition run_migration :: "host \<Rightarrow> path \<Rightarrow> migration_names \<Rightarrow> path \<Rightarrow> legacy_item list \<Rightarrow> pydict mio" where
  "run_migration H snapshot_dir n record_path candidates =
     thenI (catchI (migrate_all H snapshot_dir n record_path candidates) (fail_migration n record_path)) (askI mr_record)"

definition with_record :: "pydict \<Rightarrow> 'a mio \<Rightarrow> 'a dio" where
  "with_record rec m d = (case m \<lparr>mr_device = d, mr_record = rec\<rparr> of (r, s) \<Rightarrow> (r, mr_device s))"

definition start_migration :: "host \<Rightarrow> path \<Rightarrow> migration_names \<Rightarrow> path \<Rightarrow> legacy_preview \<Rightarrow> string list \<Rightarrow> legacy_item list \<Rightarrow> pydict dio" where
  "start_migration H snapshot_dir n record_path p picked candidates =
     bindI (askI (\<lambda>d. exists (dv_world d) record_path)) (\<lambda>taken. if taken
       then raiseI (Exn LegacySkillshubMigrationError (''migration record already exists: '' @ path_str record_path))
       else thenI (on_world (mkdirs (path_parent record_path)))
         (thenI (on_world (write_data record_path (Json (PDict (migration_record p picked n)))))
           (bindI (with_record (migration_record p picked n) (run_migration H snapshot_dir n record_path candidates)) (\<lambda>rec.
             returnI ([(''ok'', PBool True), (''dry_run'', PBool False), (''record_path'', PStr (path_str record_path))] @ rec)))))"

definition execute_legacy_migration ::
    "host \<Rightarrow> machine \<Rightarrow> path \<Rightarrow> path \<Rightarrow> string list \<Rightarrow> (string \<times> path) list option \<Rightarrow> path option \<Rightarrow> migration_names \<Rightarrow> bool \<Rightarrow> bool \<Rightarrow> pydict dio" where
  "execute_legacy_migration H mc legacy_root snapshot_dir skill_ids overrides record_out n yes allow_local_writes =
     bindI (bindI (askI (\<lambda>d. build_legacy_preview H mc d legacy_root snapshot_dir overrides)) liftI) (\<lambda>p.
     bindI (liftI (legacy_candidates p skill_ids)) (\<lambda>(picked, candidates).
       if \<not> yes
       then returnI (legacy_preview_dict p @ [(''selected_skill_ids'', strs picked),
         (''planned_links'', PInt (legacy_total li_detachable candidates)), (''safe_to_migrate'', PBool True)])
       else if \<not> allow_local_writes
       then raiseI (Exn LegacySkillshubMigrationError
         ''local writes are disabled; start the operator executor with --allow-local-writes'')
       else start_migration H snapshot_dir n (case record_out of Some q \<Rightarrow> q | None \<Rightarrow> default_record_path mc (mg_id n)) p picked candidates))"

section \<open>Undoing a migration\<close>

definition rollback_check :: "host \<Rightarrow> path \<Rightarrow> path \<Rightarrow> string \<Rightarrow> device \<Rightarrow> string res" where
  "rollback_check H target backup expected d =
     (case link_at d backup of
        None \<Rightarrow> Inl (Exn LegacySkillshubMigrationError (''legacy link backup is missing: '' @ path_str backup))
      | Some original \<Rightarrow>
          (if \<not> d_exists d target \<or> is_symlink d target
           then Inl (Exn LegacySkillshubMigrationError (''migrated target is missing or not materialized: '' @ path_str target))
           else bindR (scan_skill H (dv_world d) ''rollback-check'' (realpath d target) (realpath d target @ [''SKILL.md''])) (\<lambda>r.
             if expected \<noteq> [] \<and> sk_hash r \<noteq> expected
             then Inl (Exn LegacySkillshubMigrationError (''target changed after migration; rollback is blocked: '' @ path_str target))
             else Inr original)))"

definition rollback_legacy_link :: "host \<Rightarrow> pyval \<Rightarrow> pyval dio" where
  "rollback_legacy_link H v =
     bindI (liftI (bindR (as_dict v) (\<lambda>x. bindR (dindex x ''target_path'') (\<lambda>t. bindR (dindex x ''backup_link_path'') (\<lambda>b.
         Inr (x, path_of (py_str t), path_of (py_str b))))))) (\<lambda>(x, target, backup).
       bindI (bindI (askI (rollback_check H target backup (py_str (por (dget x ''central_content_hash'') (PStr []))))) liftI) (\<lambda>original.
         thenI (d_remove_path target) (thenI (d_symlink original target)
           (liftI (bindR (dindex x ''skill_id'') (\<lambda>i. bindR (dindex x ''tool_id'') (\<lambda>t.
             Inr (PDict [(''skill_id'', i), (''tool_id'', t), (''target_path'', PStr (path_str target))]))))))))"

definition load_migration_record :: "world \<Rightarrow> path \<Rightarrow> pydict res" where
  "load_migration_record w p =
     (if \<not> exists w p then Inl (Exn LegacySkillshubMigrationError (''migration record not found: '' @ path_str p))
      else case fst (read_json p w) of
          Inl e \<Rightarrow> Inl (if exn_kind e \<in> set [OSError, JSONDecodeError]
             then Exn LegacySkillshubMigrationError (''cannot read migration record: '' @ exn_text e) else e)
        | Inr v \<Rightarrow> bindR (as_dict v) (\<lambda>rec.
            if dget rec ''record_type'' \<noteq> PStr ''skill-sync-legacy-skillshub-migration''
            then Inl (Exn LegacySkillshubMigrationError ''record is not a legacy Skillshub migration'')
            else if dget rec ''status'' \<noteq> PStr ''complete''
            then Inl (Exn LegacySkillshubMigrationError (''cannot rollback record with status='' @ py_str (dget rec ''status'')))
            else Inr rec))"

definition rollback_legacy_migration :: "host \<Rightarrow> path \<Rightarrow> string \<Rightarrow> string \<Rightarrow> pydict dio" where
  "rollback_legacy_migration H p rollback_id now =
     bindI (bindI (askI (\<lambda>d. load_migration_record (dv_world d) p)) liftI) (\<lambda>rec.
     bindI (liftI (py_iter (por (dget rec ''applied'') (PList [])))) (\<lambda>applied.
     bindI (mapI (rollback_legacy_link H) (rev applied)) (\<lambda>rolled.
       let rollback_path = path_parent p @ [''rollback-'' @ rollback_id @ ''.json''];
           report = [(''ok'', PBool True), (''record_type'', PStr ''skill-sync-legacy-skillshub-migration-rollback''),
             (''record_path'', PStr (path_str p)), (''created_at'', PStr now), (''rolled_back'', PList rolled), (''total'', PInt (int (length rolled)))] in
       thenI (on_world (write_data rollback_path (Json (PDict report))))
         (returnI (report @ [(''rollback_record_path'', PStr (path_str rollback_path))])))))"

end
