(* ===== verification/LegacySafe.thy ===== *)
theory LegacySafe
  imports LegacyMigration
begin

text \<open>
  What a migration of the old shared root may do: it writes only what was picked and verified, it never loses
  the text of a link, with a fault at any point, and undoing a migrated link puts the link back.
\<close>

section \<open>What the preview lets through\<close>

text \<open>The skill's directory has the files that its entry in the central library has, by name and hash, manifests apart.\<close>

definition verified_item :: "host \<Rightarrow> device \<Rightarrow> path \<Rightarrow> legacy_item \<Rightarrow> bool" where
  "verified_item H d snapshot_dir i =
     (case (scan_skill H (dv_world d) ''skillshub'' (li_path i) (li_path i @ [''SKILL.md'']), li_central i) of
        (Inr r, Some c) \<Rightarrow> sk_id r = li_id i
          \<and> (case archive_payload_hashes H (dv_world d) snapshot_dir (py_str (por (dget c ''archive'') (PStr []))) of
               Inr files \<Rightarrow> map_of (local_payload r) = map_of files | Inl e \<Rightarrow> False)
      | _ \<Rightarrow> False)"

text \<open>A link of a tool that shows the skill, and for which the central entry allows the tool.\<close>

definition verified_link :: "device \<Rightarrow> legacy_item \<Rightarrow> legacy_link \<Rightarrow> bool" where
  "verified_link d i l = (link_at d (ll_target l) = Some (ll_text l) \<and> realpath d (ll_target l) = realpath d (li_path i)
     \<and> link_compatible (map py_str (li_targets i)) l)"

lemma same_payload_map_of: "same_payload a b \<longleftrightarrow> map_of a = map_of b"
proof
  assume s: "same_payload a b"
  have "map_of a k = map_of b k" for k
  proof (cases "k \<in> set (map fst a @ map fst b)")
    case True
    with s show ?thesis by (auto simp: same_payload_def)
  next
    case False
    then have "map_of a k = None" "map_of b k = None" by (auto simp: map_of_eq_None_iff)
    then show ?thesis by simp
  qed
  then show "map_of a = map_of b" by blast
qed (simp add: same_payload_def)

lemma detachable_matches:
  assumes "legacy_item_of H d snapshot_dir central consumers skill = Inr i" "l \<in> set (li_detachable i)"
  shows "verified_item H d snapshot_dir i" "verified_link d i l" "li_central i = map_of central (li_id i)"
proof -
  obtain r state reason targets where r: "scan_skill H (dv_world d) ''skillshub'' skill (skill @ [''SKILL.md'']) = Inr r"
    and c: "central_state H (dv_world d) snapshot_dir r (map_of central (sk_id r)) = Inr (state, reason)"
    and i: "li_state i = state" "li_central i = map_of central (sk_id r)" "li_path i = skill" "li_id i = sk_id r" "li_targets i = targets"
      "li_detachable i = fst (classify_links (consumer_links d skill consumers) (map py_str targets) state)"
    using assms(1) by (auto simp: legacy_item_of_def Let_def case_prod_beta)
  have l: "l \<in> set (consumer_links d skill consumers)" "state = ''match''" "link_compatible (map py_str targets) l"
    using assms(2) i(6) by (auto simp: classify_links_def Let_def)
  have "link_at d (ll_target l) = Some (ll_text l) \<and> realpath d (ll_target l) = realpath d skill"
    using l(1) by (auto simp: consumer_links_def Let_def split: option.splits if_splits)
  with l(3) i(3,5) show "verified_link d i l" by (simp add: verified_link_def)
  show "verified_item H d snapshot_dir i"
    using c l(2) r i(2-4) by (auto simp: verified_item_def central_state_def Let_def same_payload_map_of split: option.splits if_splits sum.splits)
  show "li_central i = map_of central (li_id i)" using i(2,4) by simp
qed

lemma preview_item:
  assumes "build_legacy_preview H mc d legacy_root snapshot_dir overrides = Inr p" "i \<in> set (lp_items p)"
  obtains snapshot consumers skill where "legacy_load_snapshot (dv_world d) snapshot_dir = Inr snapshot"
    "legacy_item_of H d (lp_snapshot p) (central_by_skill_id snapshot) consumers skill = Inr i" "lp_snapshot p = realpath d snapshot_dir"
  using assms by (auto simp: build_legacy_preview_def dest!: mapR_mem)

lemma candidates_from_preview:
  assumes "legacy_candidates p skill_ids = Inr (picked, candidates)"
  shows "picked \<noteq> []" "candidates \<noteq> []" "i \<in> set candidates \<Longrightarrow> i \<in> set (lp_items p) \<and> li_detachable i \<noteq> [] \<and> li_id i \<in> set picked"
proof -
  let ?by = "map_of (rev (map (\<lambda>i. (li_id i, i)) (lp_items p)))"
  have c: "picked = stripped_ids skill_ids" "picked \<noteq> []" "\<forall>s \<in> set picked. ?by s \<noteq> None"
    "candidates = map (\<lambda>s. the (?by s)) picked" "\<forall>i \<in> set candidates. li_detachable i \<noteq> []"
    using assms by (auto simp: legacy_candidates_def Let_def filter_empty_conv split: if_splits)
  show "picked \<noteq> []" "candidates \<noteq> []" using c(2,4) by auto
  assume i: "i \<in> set candidates"
  then obtain s where s: "s \<in> set picked" "?by s = Some i" using c(3,4) by fastforce
  from map_of_SomeD [OF s(2)] have "i \<in> set (lp_items p)" "li_id i = s" by auto
  with c(5) i s(1) show "i \<in> set (lp_items p) \<and> li_detachable i \<noteq> [] \<and> li_id i \<in> set picked" by simp
qed

text \<open>C16: A migration changes nothing on the device unless it was confirmed, local writes are allowed, and skills were
  picked of which every one is verified: the central index that the snapshot directory holds has one entry for its id,
  the archive of that entry can be read and has the very files, by name and hash, that the skill's directory has now,
  manifests apart; and it is shown by links of tools, at least one, that lead to this directory and for which the entry
  names the tool as a target.\<close>
theorem a_migration_needs_a_verified_choice:
  assumes run: "execute_legacy_migration H mc legacy_root snapshot_dir skill_ids overrides out n yes allow d = (r, d')" and "d' \<noteq> d"
  shows "yes \<and> allow \<and> (\<exists>p picked candidates snapshot. build_legacy_preview H mc d legacy_root snapshot_dir overrides = Inr p
      \<and> legacy_candidates p skill_ids = Inr (picked, candidates) \<and> candidates \<noteq> []
      \<and> legacy_load_snapshot (dv_world d) snapshot_dir = Inr snapshot
      \<and> (\<forall>i \<in> set candidates. li_central i = map_of (central_by_skill_id snapshot) (li_id i)
          \<and> verified_item H d (realpath d snapshot_dir) i
          \<and> li_detachable i \<noteq> [] \<and> (\<forall>l \<in> set (li_detachable i). verified_link d i l)))"
proof (cases "build_legacy_preview H mc d legacy_root snapshot_dir overrides")
  case (Inl e)
  with assms show ?thesis by (simp add: execute_legacy_migration_def io_defs)
next
  case p: (Inr p)
  then obtain snapshot where snap: "legacy_load_snapshot (dv_world d) snapshot_dir = Inr snapshot" by (auto simp: build_legacy_preview_def)
  show ?thesis
  proof (cases "legacy_candidates p skill_ids")
    case (Inl e)
    with assms p show ?thesis by (simp add: execute_legacy_migration_def io_defs)
  next
    case (Inr sc)
    obtain picked candidates where sc: "sc = (picked, candidates)" by (cases sc)
    have "yes \<and> allow"
    proof (rule ccontr)
      assume "\<not> ?thesis"
      with assms p Inr sc show False by (simp add: execute_legacy_migration_def io_defs split: if_splits)
    qed
    moreover have "li_central i = map_of (central_by_skill_id snapshot) (li_id i) \<and> verified_item H d (realpath d snapshot_dir) i
        \<and> li_detachable i \<noteq> [] \<and> (\<forall>l \<in> set (li_detachable i). verified_link d i l)" if i: "i \<in> set candidates" for i
    proof -
      note c = candidates_from_preview(3) [OF Inr [unfolded sc] i]
      then obtain l where l: "l \<in> set (li_detachable i)" by (cases "li_detachable i") auto
      from c preview_item [OF p] snap obtain consumers skill
        where it: "legacy_item_of H d (realpath d snapshot_dir) (central_by_skill_id snapshot) consumers skill = Inr i"
        by (metis sum.inject(2))
      from detachable_matches [OF it] l c show ?thesis by blast
    qed
    ultimately show ?thesis using p Inr sc snap candidates_from_preview(2) by blast
  qed
qed

section \<open>The text of a link\<close>

definition link_safe :: "string \<Rightarrow> path \<Rightarrow> path \<Rightarrow> device \<Rightarrow> bool" where
  "link_safe x target backup d = (links_of target d = Some x \<or> links_of backup d = Some x)"

lemma links_of_link_at: "clean p \<Longrightarrow> link_at d p = links_of p d"
  by (simp add: link_at_def links_of_def)

lemma symlink_links:
  assumes "d_symlink t p d = (r, d')" "clean p"
  shows "r = Inr u \<Longrightarrow> links_of p d' = Some t \<and> links_of p d = None" "r = Inl e \<Longrightarrow> dv_links d' = dv_links d"
    "links_of p d = Some x \<Longrightarrow> links_of p d' = Some x"
  using assms
  by (auto simp: d_symlink_def Let_def is_symlink_def links_of_link_at split: if_splits
      elim!: dev_step_cases [of "add_link p t" d])
    (auto simp: links_of_def add_link_def update_conv dev_step_def split: prod.splits option.splits)

text \<open>An action that leaves the links of a place as they are leaves what is safe there.\<close>

lemma safe_keeps:
  assumes "keeps (links_of t) m" "keeps (links_of b) m"
  shows "link_safe x t b d \<Longrightarrow> m d = (r, d') \<Longrightarrow> link_safe x t b d'"
  using keepsD [OF assms(1)] keepsD [OF assms(2)] by (simp add: link_safe_def)

section \<open>One link\<close>

text \<open>The places of a migrated link: target, backup and temporary name.\<close>

definition apart_links :: "path \<Rightarrow> path \<Rightarrow> path \<Rightarrow> bool" where
  "apart_links t b m = (clean t \<and> clean b \<and> clean m \<and> t \<noteq> b \<and> m \<noteq> t \<and> m \<noteq> b)"

lemma symlink_keeps_safe:
  assumes "clean t" "t \<noteq> b" "link_safe x t b d" "d_symlink y t d = (r, d')"
  shows "link_safe x t b d'"
  using assms(3) symlink_links(3) [OF assms(4,1)] keepsD [OF keeps_link_symlink assms(4), of b] assms(1,2)
  by (auto simp: link_safe_def)

lemma swap_legacy_safe:
  assumes p: "apart_links t b m"
  shows "ensures (\<lambda>d. links_of t d = Some x) (swap_legacy_link staged t m b x) (\<lambda>_ d. links_of b d = Some x) (\<lambda>_. link_safe x t b)"
proof -
  have c: "clean t" "clean b" "clean m" "t \<noteq> b" "m \<noteq> t" "m \<noteq> b" using p by (simp_all add: apart_links_def)
  have w: "ensures (\<lambda>d. links_of t d = Some x) k (\<lambda>_ d. links_of t d = Some x) (\<lambda>_. link_safe x t b)" if "keeps (links_of t) k" for k :: "unit dio"
    by (rule ensures_weaken [OF ensures_keeps [OF that, where P = "\<lambda>d. links_of t d = Some x"]]) (auto simp: link_safe_def)
  have s: "ensures (\<lambda>d. links_of t d = Some x) (d_symlink x b) (\<lambda>_ d. links_of b d = Some x) (\<lambda>_. link_safe x t b)"
  proof (rule ensuresI)
    fix d assume t: "links_of t d = Some x"
    obtain r d' where r: "d_symlink x b d = (r, d')" by (metis surj_pair)
    with symlink_links [OF r c(2)] t show "case d_symlink x b d of (Inr y, d') \<Rightarrow> links_of b d' = Some x | (Inl e, d') \<Rightarrow> link_safe x t b d'"
      by (cases r) (auto simp: link_safe_def links_of_def)
  qed
  have k: "ensures (\<lambda>d. links_of b d = Some x) k (\<lambda>_ d. links_of b d = Some x) (\<lambda>_. link_safe x t b)" if "keeps (links_of b) k" for k :: "unit dio"
    by (rule ensures_weaken [OF ensures_keeps [OF that, where P = "\<lambda>d. links_of b d = Some x"]]) (auto simp: link_safe_def)
  show ?thesis unfolding swap_legacy_link_def
    by (intro ensures_thenI [OF w] ensures_thenI [OF s] ensures_thenI [OF k] k link_intros) (use c in simp_all)
qed

lemma undo_legacy_safe:
  assumes p: "apart_links t b m" and "link_safe x t b d" "undo_legacy_swap t m b y d = (r, d')"
  shows "link_safe x t b d'"
proof -
  have c: "clean t" "clean m" "t \<noteq> b" "m \<noteq> t" "m \<noteq> b" using p by (simp_all add: apart_links_def)
  let ?rm = "d_only_when (\<lambda>d. d_present d m) (d_remove_path m)"
  obtain r1 d1 where s: "?rm d = (r1, d1)" by (metis surj_pair)
  have "keeps (links_of q) ?rm" if "q \<noteq> m" for q using that c by (intro keeps_here_only_when' link_intros) simp
  from safe_keeps [OF this this assms(2) s] c have d1: "link_safe x t b d1" by simp
  show ?thesis
    using assms(3) s d1 symlink_keeps_safe [OF c(1,3) d1]
    by (cases r1) (auto simp: undo_legacy_swap_def thenI_def bindI_def d_only_when_def askI_def returnI_def split: if_splits)
qed

lemma replace_legacy_safe:
  assumes run: "replace_legacy_link t staged n rd i l d = (r, d')"
    and p: "apart_links t (link_backup rd (ll_tool l) (li_id i)) (legacy_temp t n)" "link_safe x t (link_backup rd (ll_tool l) (li_id i)) d"
  shows "link_safe x t (link_backup rd (ll_tool l) (li_id i)) d'"
    "r = Inr entry \<Longrightarrow> links_of (link_backup rd (ll_tool l) (li_id i)) d' = Some x
      \<and> dget entry ''target_path'' = PStr (path_str t) \<and> dget entry ''backup_link_path'' = PStr (path_str (link_backup rd (ll_tool l) (li_id i)))"
proof -
  let ?b = "link_backup rd (ll_tool l) (li_id i)" and ?m = "legacy_temp t n"
  have c: "clean t" "clean ?b" using p(1) by (simp_all add: apart_links_def)
  have "link_safe x t ?b d' \<and> (\<forall>entry. r = Inr entry \<longrightarrow> links_of ?b d' = Some x
      \<and> dget entry ''target_path'' = PStr (path_str t) \<and> dget entry ''backup_link_path'' = PStr (path_str ?b))"
  proof (cases "link_at d t = None \<or> d_present d ?b \<or> d_present d ?m")
    case True
    with run p(2) show ?thesis by (auto simp: replace_legacy_link_def Let_def io_defs split: option.splits if_splits)
  next
    case False
    then obtain y where y: "link_at d t = Some y" "\<not> d_present d ?b" "\<not> d_present d ?m" by auto
    have x: "y = x" "links_of t d = Some x" using y p(2) c by (auto simp: link_safe_def d_present_def is_symlink_def links_of_link_at)
    let ?act = "catchI (swap_legacy_link staged t ?m ?b x) (\<lambda>e. thenI (undo_legacy_swap t ?m ?b x) (raiseI e))"
    have "ensures (\<lambda>d. links_of t d = Some x) ?act (\<lambda>_ d. links_of ?b d = Some x) (\<lambda>_. link_safe x t ?b)"
    proof (rule ensures_catchI [OF swap_legacy_safe [OF p(1)]], rule ensuresI)
      fix e d0 assume "link_safe x t ?b d0"
      from undo_legacy_safe [OF p(1) this]
      show "case thenI (undo_legacy_swap t ?m ?b x) (raiseI e) d0 of (Inr u, d') \<Rightarrow> links_of ?b d' = Some x | (Inl e, d') \<Rightarrow> link_safe x t ?b d'"
        by (auto simp: thenI_def bindI_def raiseI_def split: prod.split sum.split)
    qed
    moreover obtain r1 d1 where t: "?act d = (r1, d1)" by (metis surj_pair)
    ultimately have "case r1 of Inl e \<Rightarrow> link_safe x t ?b d1 | Inr u \<Rightarrow> links_of ?b d1 = Some x"
      using x(2) ensures_Inr ensures_Inl by (cases r1) fastforce+
    with run t y x show ?thesis
      by (cases r1) (auto simp: replace_legacy_link_def Let_def bindI_def askI_def thenI_def returnI_def link_safe_def)
  qed
  then show "link_safe x t ?b d'" "r = Inr entry \<Longrightarrow> links_of ?b d' = Some x
      \<and> dget entry ''target_path'' = PStr (path_str t) \<and> dget entry ''backup_link_path'' = PStr (path_str ?b)" by blast+
qed


lemma backed_link_stays:
  "links_of (link_backup rd (ll_tool l) (li_id i)) d = Some y \<Longrightarrow> clean (link_backup rd (ll_tool l) (li_id i))
    \<Longrightarrow> replace_legacy_link t staged n rd i l d = (r, d') \<Longrightarrow> d' = d \<and> isl r"
  by (auto simp: replace_legacy_link_def Let_def io_defs d_present_def is_symlink_def links_of_link_at split: option.splits)

lemma keeps_link_replace_legacy:
  assumes "apart_links t (link_backup rd (ll_tool l) (li_id i)) (legacy_temp t n)"
    and "q \<notin> {t, link_backup rd (ll_tool l) (li_id i), legacy_temp t n}"
  shows "keeps (links_of q) (replace_legacy_link t staged n rd i l)"
proof -
  have c: "norm_path t = t" "norm_path (link_backup rd (ll_tool l) (li_id i)) = link_backup rd (ll_tool l) (li_id i)"
    "norm_path (legacy_temp t n) = legacy_temp t n" using assms(1) by (simp_all add: apart_links_def)
  have cases: "keeps (links_of q) (case x of None \<Rightarrow> raiseI e | Some y \<Rightarrow> f y)" if "\<And>y. keeps (links_of q) (f y)" for x e and f :: "string \<Rightarrow> pydict dio"
    using that by (cases x) (auto intro: keeps_intros)
  show ?thesis
    unfolding replace_legacy_link_def swap_legacy_link_def undo_legacy_swap_def Let_def
    by (intro keeps_ask cases keeps_intros keeps_here_only_when' link_intros) (use assms(2) c in auto)
qed

section \<open>A whole migration\<close>

text \<open>The places of the chosen links, each with the text of its link; they do not meet.\<close>

type_synonym link_place = "path \<times> path \<times> path \<times> string"

definition migrated_places :: "migration_names \<Rightarrow> path \<Rightarrow> legacy_item list \<Rightarrow> link_place list" where
  "migrated_places n record_path candidates =
     concat (map (\<lambda>i. map (\<lambda>l. (ll_target l, link_backup (path_parent record_path) (ll_tool l) (li_id i),
         legacy_temp (ll_target l) (mg_id n), ll_text l)) (li_detachable i)) candidates)"

fun place_ok :: "link_place \<Rightarrow> bool" where
  "place_ok (t, b, m, x) = (apart_links t b m \<and> path_of (path_str t) = t \<and> path_of (path_str b) = b)"

fun no_meet :: "link_place \<Rightarrow> link_place \<Rightarrow> bool" where
  "no_meet (t, b, m, x) (t', b', m', x') = (t' \<notin> {t, b, m} \<and> b' \<notin> {t, b, m})"

definition separate_links :: "link_place list \<Rightarrow> bool" where
  "separate_links P = (\<forall>p \<in> set P. place_ok p \<and> (\<forall>q \<in> set P. p = q \<or> no_meet p q))"

text \<open>What holds all through a migration: no text is lost, and what was applied has its backup.\<close>

fun safe_place :: "device \<Rightarrow> link_place \<Rightarrow> bool" where
  "safe_place d (t, b, m, x) = link_safe x t b d"

fun applied_at :: "device \<Rightarrow> pyval \<Rightarrow> link_place \<Rightarrow> bool" where
  "applied_at d v (t, b, m, x) = (\<exists>e. v = PDict e \<and> dget e ''target_path'' = PStr (path_str t)
     \<and> dget e ''backup_link_path'' = PStr (path_str b) \<and> links_of b d = Some x)"

definition kept_links :: "link_place list \<Rightarrow> pyval list \<Rightarrow> device \<Rightarrow> bool" where
  "kept_links P applied d = (list_all (safe_place d) P \<and> list_all (\<lambda>v. list_ex (applied_at d v) P) applied)"

lemma separateD:
  assumes "separate_links P" "(t, b, m, x) \<in> set P"
  shows "apart_links t b m" "path_of (path_str t) = t" "path_of (path_str b) = b"
    "(t', b', m', x') \<in> set P \<Longrightarrow> (t, b, m, x) = (t', b', m', x') \<or> t' \<notin> {t, b, m} \<and> b' \<notin> {t, b, m}"
  using assms(1) [unfolded separate_links_def, THEN bspec, OF assms(2)] by auto

text \<open>Links that are safe, and backups that are there, may be looked at one place at a time.\<close>

lemma kept_step:
  assumes "kept_links P applied d"
    and "\<And>t b m x. (t, b, m, x) \<in> set P \<Longrightarrow> link_safe x t b d \<Longrightarrow> link_safe x t b d'"
    and "\<And>t b m x. (t, b, m, x) \<in> set P \<Longrightarrow> links_of b d = Some x \<Longrightarrow> links_of b d' = Some x"
  shows "kept_links P applied d'"
proof -
  have "safe_place d' p" if "p \<in> set P" for p
    using assms(1,2) that by (cases p) (fastforce simp: kept_links_def list_all_iff)
  moreover have "applied_at d' v p" if "p \<in> set P" "applied_at d v p" for p v using assms(3) that by (cases p) auto
  ultimately show ?thesis using assms(1) unfolding kept_links_def list_all_iff list_ex_iff by blast
qed

lemma kept_at_target:
  assumes "separate_links P" "(t, b, m, x) \<in> set P" "kept_links P applied d" "links_of b d = Some x"
    and o: "\<And>q. q \<noteq> t \<Longrightarrow> links_of q d' = links_of q d"
  shows "kept_links P applied d' \<and> links_of b d' = Some x"
proof -
  have n: "t \<noteq> b" using separateD(1) [OF assms(1,2)] by (simp add: apart_links_def)
  have b: "links_of b' d' = links_of b' d" if p: "(t', b', m', x') \<in> set P" for t' b' m' x'
    using separateD(4) [OF assms(1,2) p] n by (intro o) auto
  have "link_safe x' t' b' d'" if p: "(t', b', m', x') \<in> set P" "link_safe x' t' b' d" for t' b' m' x'
  proof (cases "t' = t")
    case True
    then have "b' = b \<and> x' = x" using separateD(4) [OF assms(1,2) p(1)] by auto
    then show ?thesis using b [OF p(1)] assms(4) by (simp add: link_safe_def)
  qed (use p b [OF p(1)] o [of t'] in \<open>simp add: link_safe_def\<close>)
  with b assms(3,4) n o show ?thesis by (auto intro: kept_step)
qed

lemma rollback_one_kept:
  assumes "separate_links P" "kept_links P applied d" "v \<in> set applied" "rollback_applied_link v d = (r, d')"
  shows "kept_links P applied d'"
proof -
  obtain t b m x where p: "(t, b, m, x) \<in> set P" and v0: "applied_at d v (t, b, m, x)"
    using assms(2,3) unfolding kept_links_def list_all_iff list_ex_iff by (metis prod_cases4)
  then obtain e where v: "v = PDict e" "dget e ''target_path'' = PStr (path_str t)" "dget e ''backup_link_path'' = PStr (path_str b)"
    and x: "links_of b d = Some x" by auto
  note a = separateD(1-3) [OF assms(1) p]
  have c: "clean t" "clean b" using a(1) by (simp_all add: apart_links_def)
  have i: "dindex e ''target_path'' = Inr (PStr (path_str t))" "dindex e ''backup_link_path'' = Inr (PStr (path_str b))"
    using v(2,3) by (auto simp: dindex_def dget_def dget_or_def split: option.splits)
  let ?rm = "d_only_when (\<lambda>d. d_present d t) (d_remove_path t)"
  obtain r1 d1 where s: "?rm d = (r1, d1)" by (metis surj_pair)
  have "keeps (links_of q) ?rm" if "q \<noteq> t" for q using that c by (intro keeps_here_only_when' link_intros) simp
  from kept_at_target [OF assms(1) p assms(2) x, of d1] keepsD [OF this s]
  have d1: "kept_links P applied d1" "links_of b d1 = Some x" by auto
  obtain r2 d2 where y: "d_symlink x t d1 = (r2, d2)" by (metis surj_pair)
  have d2: "kept_links P applied d2" using kept_at_target [OF assms(1) p d1] keepsD [OF keeps_link_symlink y] c by auto
  show ?thesis using assms(4) s d1 y d2
    by (cases r1) (auto simp: rollback_applied_link_def v(1) i a(2,3) bindI_def thenI_def liftI_def askI_def links_of_link_at [OF c(2)])
qed

lemma rollback_all_kept:
  assumes "separate_links P" "kept_links P applied d" "rollback_applied_links applied d = (r, d')"
  shows "kept_links P applied d'"
proof -
  have "kept_links P applied d2" if "set vs \<subseteq> set applied" "kept_links P applied d1"
    "foldI (\<lambda>v errors. catchI (thenI (rollback_applied_link v) (returnI errors)) (\<lambda>e. returnI (errors @ [exn_text e]))) vs acc d1 = (r, d2)"
    for vs d1 d2 acc
    using that
  proof (induction vs arbitrary: acc d1)
    case (Cons v vs)
    obtain r1 d3 where v: "rollback_applied_link v d1 = (r1, d3)" by (metis surj_pair)
    from rollback_one_kept [OF assms(1) Cons.prems(2) _ v] Cons.prems(1) have "kept_links P applied d3" by simp
    with Cons.IH Cons.prems(1,3) v show ?case by (cases r1) (auto simp: bindI_def catchI_def thenI_def returnI_def)
  qed (simp add: returnI_def)
  from this [of "rev applied"] assms(2,3) show ?thesis unfolding rollback_applied_links_def by simp
qed

lemma replace_kept:
  assumes "separate_links P" "kept_links P applied d" "(ll_target l, b, legacy_temp (ll_target l) n, x) \<in> set P"
    and b: "b = link_backup rd (ll_tool l) (li_id i)" and run: "replace_legacy_link (ll_target l) staged n rd i l d = (r, d')"
  shows "kept_links P applied d'" "r = Inr entry \<Longrightarrow> kept_links P (applied @ [PDict entry]) d'"
proof -
  let ?t = "ll_target l" and ?m = "legacy_temp (ll_target l) n"
  note a = separateD [OF assms(1,3)]
  have s: "link_safe x ?t b d" using assms(2,3) unfolding kept_links_def list_all_iff by fastforce
  note f = replace_legacy_safe [OF run a(1) [unfolded b] s [unfolded b], folded b]
  have o: "links_of q d' = links_of q d" if "q \<notin> {?t, b, ?m}" for q
    using keepsD [OF keeps_link_replace_legacy [OF a(1) [unfolded b]] run] that b by simp
  have same: "link_safe x' t' b' d'" if p: "(t', b', m', x') \<in> set P" "link_safe x' t' b' d" for t' b' m' x'
    using a(4) [OF p(1)] f(1) o p(2) by (auto simp: link_safe_def)
  have old: "links_of b' d' = Some x'" if p: "(t', b', m', x') \<in> set P" "links_of b' d = Some x'" for t' b' m' x'
  proof (cases "(?t, b, ?m, x) = (t', b', m', x')")
    case True
    with p(2) backed_link_stays [OF _ _ run] a(1) b show ?thesis by (auto simp: apart_links_def)
  next
    case False
    with a(4) [OF p(1)] o p(2) show ?thesis by auto
  qed
  show k: "kept_links P applied d'" by (rule kept_step [OF assms(2) same old])
  show "kept_links P (applied @ [PDict entry]) d'" if "r = Inr entry"
  proof -
    have "applied_at d' (PDict entry) (?t, b, ?m, x)" using f(2) [OF that] by simp
    with k assms(3) show ?thesis by (simp add: kept_links_def list_ex_iff del: applied_at.simps) blast
  qed
qed


section \<open>Along the structure of a migration\<close>

definition stable :: "('s \<Rightarrow> bool) \<Rightarrow> ('s, 'a) act \<Rightarrow> bool" where
  "stable I m = (\<forall>s. I s \<longrightarrow> I (snd (m s)))"

named_theorems stable_intros \<open>rules for what an action leaves true\<close>

lemma stableI: "(\<And>s r s'. I s \<Longrightarrow> m s = (r, s') \<Longrightarrow> I s') \<Longrightarrow> stable I m"
  unfolding stable_def by (metis surjective_pairing)

lemma stableD: "stable I m \<Longrightarrow> I s \<Longrightarrow> m s = (r, s') \<Longrightarrow> I s'"
  unfolding stable_def by (metis snd_conv)

lemma stable_pure [stable_intros]: "stable I (returnI x)" "stable I (raiseI e)" "stable I (liftI r)" "stable I (askI f)"
  by (simp_all add: stable_def io_defs)

lemma stable_bindI [stable_intros]: "stable I m \<Longrightarrow> (\<And>x. stable I (f x)) \<Longrightarrow> stable I (bindI m f)"
  unfolding stable_def bindI_def by (fastforce split: prod.split sum.split)

lemma stable_thenI [stable_intros]: "stable I m \<Longrightarrow> stable I k \<Longrightarrow> stable I (thenI m k)"
  unfolding thenI_def by (rule stable_bindI)

lemma stable_catchI [stable_intros]: "stable I m \<Longrightarrow> (\<And>e. stable I (h e)) \<Longrightarrow> stable I (catchI m h)"
  unfolding stable_def catchI_def by (fastforce split: prod.split sum.split)

lemma stable_if [stable_intros]: "stable I m \<Longrightarrow> stable I k \<Longrightarrow> stable I (if b then m else k)"
  by simp

lemma stable_foldI: "(\<And>x s. x \<in> set xs \<Longrightarrow> stable I (f x s)) \<Longrightarrow> stable I (foldI f xs s)"
  by (induction xs arbitrary: s) (auto intro!: stable_intros)

definition kept_run :: "link_place list \<Rightarrow> migration_run \<Rightarrow> bool" where
  "kept_run P s = kept_links P (applied_of (mr_record s)) (mr_device s)"

lemma kept_links_same: "dv_links d' = dv_links d \<Longrightarrow> kept_links P applied d \<Longrightarrow> kept_links P applied d'"
  by (erule kept_step) (simp_all add: link_safe_def links_of_def)

lemma stable_on_world [stable_intros]: "stable (kept_run P) (on_device (on_world m))"
  by (rule stableI) (auto simp: kept_run_def on_device_def on_world_def split: prod.splits elim!: kept_links_same [rotated])

lemma stable_save [stable_intros]: "stable (kept_run P) (save_record p)"
  unfolding save_record_def by (intro stable_intros)

lemma stable_edit: "(\<And>rec. applied_of (f rec) = applied_of rec) \<Longrightarrow> stable (kept_run P) (edit_record f)"
  by (simp add: stable_def kept_run_def edit_record_def)

lemma applied_of_dset [simp]: "k \<noteq> ''applied'' \<Longrightarrow> applied_of (dset rec k v) = applied_of rec"
  "applied_of (dset rec ''applied'' (PList vs)) = vs"
  by (simp_all add: applied_of_def list_or_empty_def)

lemma migrate_link_stable:
  assumes "separate_links P"
    and "(ll_target l, link_backup (path_parent p) (ll_tool l) (li_id i), legacy_temp (ll_target l) (mg_id n), ll_text l) \<in> set P"
  shows "stable (kept_run P) (migrate_link n p source i l u)"
proof (rule stableI)
  fix s r s' assume s: "kept_run P s" and run: "migrate_link n p source i l u s = (r, s')"
  obtain r1 d1 where d: "replace_legacy_link (ll_target l) source (mg_id n) (path_parent p) i l (mr_device s) = (r1, d1)" by (metis surj_pair)
  note k = replace_kept [OF assms(1) s [unfolded kept_run_def] assms(2) refl d]
  show "kept_run P s'"
  proof (cases r1)
    case (Inl e)
    with run d k(1) show ?thesis by (auto simp: migrate_link_def bindI_def on_device_def kept_run_def)
  next
    case (Inr entry)
    let ?s = "s\<lparr>mr_device := d1, mr_record := dset (mr_record s) ''applied'' (PList (applied_of (mr_record s) @ [PDict entry]))\<rparr>"
    from run d Inr have "save_record p ?s = (r, s')" by (simp add: migrate_link_def bindI_def thenI_def on_device_def edit_record_def)
    from stableD [OF stable_save _ this] k(2) [OF Inr] show ?thesis by (simp add: kept_run_def)
  qed
qed

lemma fail_migration_stable:
  assumes "separate_links P" shows "stable (kept_run P) (fail_migration n p e)"
proof (rule stableI)
  fix s r s' assume s: "kept_run P s" and run: "fail_migration n p e s = (r, s')"
  obtain r1 d1 where d: "rollback_applied_links (applied_of (mr_record s)) (mr_device s) = (r1, d1)" by (metis surj_pair)
  let ?rest = "\<lambda>errors. thenI (edit_record (\<lambda>rec. dset (dset (dset (dset rec ''status'' (PStr (if errors = [] then ''rolled_back_after_failure'' else ''failed'')))
           ''error'' (PStr (exn_text e))) ''rollback_errors'' (strs errors)) ''failed_at'' (PStr (mg_failed n))))
         (thenI (save_record p) (raiseI (if exn_kind e = LegacySkillshubMigrationError then e else Exn LegacySkillshubMigrationError (exn_text e))))"
  have k: "kept_run P (s\<lparr>mr_device := d1\<rparr>)" using rollback_all_kept [OF assms s [unfolded kept_run_def] d] by (simp add: kept_run_def)
  have st: "stable (kept_run P) (?rest errors)" for errors by (intro stable_intros stable_edit) simp
  show "kept_run P s'"
  proof (cases r1)
    case (Inl x)
    with run d k show ?thesis by (auto simp: fail_migration_def bindI_def askI_def on_device_def)
  next
    case (Inr errors)
    with run d have "?rest errors (s\<lparr>mr_device := d1\<rparr>) = (r, s')" by (simp add: fail_migration_def bindI_def askI_def on_device_def)
    from stableD [OF st k this] show ?thesis .
  qed
qed

lemma run_migration_stable:
  assumes "separate_links P" "set (migrated_places n p candidates) \<subseteq> set P"
  shows "stable (kept_run P) (run_migration H snapshot_dir n p candidates)"
proof -
  have item: "stable (kept_run P) (migrate_item n p staged i u)" if "i \<in> set candidates" for staged i u
    using assms that by (auto simp: migrate_item_def migrated_places_def split: option.split
        intro!: stable_intros stable_foldI migrate_link_stable)
  have "stable (kept_run P) (migrate_all H snapshot_dir n p candidates)"
    unfolding migrate_all_def mr_with_tmp_def by (intro stable_intros stable_foldI item stable_edit) simp_all
  then show ?thesis unfolding run_migration_def by (intro stable_intros fail_migration_stable assms)
qed

text \<open>C15: A migration never loses a link of a tool: whatever happens, with a fault at any point and the undoing of a
  failed migration included, each chosen link afterwards has its text at its own place or at its backup, as long as
  the places of the links do not meet.\<close>
theorem a_migration_never_loses_a_link:
  assumes prev: "build_legacy_preview H mc d legacy_root snapshot_dir overrides = Inr p"
    and cand: "legacy_candidates p skill_ids = Inr (picked, candidates)" and "separate_links (migrated_places n record_path candidates)"
    and run: "execute_legacy_migration H mc legacy_root snapshot_dir skill_ids overrides (Some record_path) n yes allow d = (r, d')"
    and l: "i \<in> set candidates" "l \<in> set (li_detachable i)"
  shows "link_at d' (ll_target l) = Some (ll_text l) \<or> link_at d' (link_backup (path_parent record_path) (ll_tool l) (li_id i)) = Some (ll_text l)"
proof -
  let ?P = "migrated_places n record_path candidates"
  have mem: "(ll_target k, link_backup (path_parent record_path) (ll_tool k) (li_id j), legacy_temp (ll_target k) (mg_id n), ll_text k) \<in> set ?P"
    if "j \<in> set candidates" "k \<in> set (li_detachable j)" for j k
    using that by (auto simp: migrated_places_def)
  have shown: "link_at d (ll_target k) = Some (ll_text k)" if k: "j \<in> set candidates" "k \<in> set (li_detachable j)" for j k
  proof -
    from candidates_from_preview(3) [OF cand k(1)] have "j \<in> set (lp_items p)" by simp
    then obtain snapshot consumers skill where "legacy_item_of H d (lp_snapshot p) (central_by_skill_id snapshot) consumers skill = Inr j"
      by (rule preview_item [OF prev])
    from detachable_matches(2) [OF this k(2)] show ?thesis by (simp add: verified_link_def)
  qed
  have "safe_place d q" if q: "q \<in> set ?P" for q
  proof -
    obtain t b m x where p: "q = (t, b, m, x)" by (cases q)
    then obtain j k where k: "j \<in> set candidates" "k \<in> set (li_detachable j)" "t = ll_target k" "x = ll_text k"
      using q by (auto simp: migrated_places_def)
    have "clean t" using separateD(1) [OF assms(3) q [unfolded p]] by (simp add: apart_links_def)
    with shown [OF k(1,2)] k(3,4) p show ?thesis by (simp add: link_safe_def links_of_link_at)
  qed
  then have k0: "kept_links ?P [] d" by (simp add: kept_links_def list_all_iff)
  have "kept_links ?P [] d'"
  proof (cases "yes \<and> allow \<and> \<not> exists (dv_world d) record_path")
    case False
    with run prev cand k0 show ?thesis by (auto simp: execute_legacy_migration_def start_migration_def io_defs split: if_splits)
  next
    case True
    let ?rec = "migration_record p picked n"
    let ?m = "with_record ?rec (run_migration H snapshot_dir n record_path candidates)"
    have a: "applied_of ?rec = []" by (simp add: applied_of_def migration_record_def list_or_empty_def)
    have st: "stable (kept_links ?P []) ?m"
    proof (rule stableI)
      fix d1 r1 d2 assume "kept_links ?P [] d1" and m: "?m d1 = (r1, d2)"
      then have "kept_run ?P \<lparr>mr_device = d1, mr_record = ?rec\<rparr>" by (simp add: kept_run_def a)
      with m stableD [OF run_migration_stable [OF assms(3) subset_refl]]
      obtain s where "mr_device s = d2" "kept_run ?P s" by (auto simp: with_record_def split: prod.splits)
      then show "kept_links ?P [] d2" by (auto simp: kept_run_def kept_links_def)
    qed
    have w: "stable (kept_links ?P []) (on_world k)" for k :: "unit io"
      by (rule stableI) (auto simp: on_world_def split: prod.splits elim!: kept_links_same [rotated])
    have "stable (kept_links ?P []) (start_migration H snapshot_dir n record_path p picked candidates)"
      unfolding start_migration_def by (intro stable_intros w st)
    moreover have "start_migration H snapshot_dir n record_path p picked candidates d = (r, d')"
      using run prev cand True by (simp add: execute_legacy_migration_def io_defs)
    ultimately show ?thesis using k0 by (blast intro: stableD)
  qed
  with mem [OF l] have "link_safe (ll_text l) (ll_target l) (link_backup (path_parent record_path) (ll_tool l) (li_id i)) d'"
    by (fastforce simp: kept_links_def list_all_iff)
  then show ?thesis using separateD(1) [OF assms(3) mem [OF l]] by (simp add: link_safe_def links_of_link_at apart_links_def)
qed


section \<open>Undoing\<close>

lemma symlink_here:
  assumes "d_symlink x p d = (Inr u, d')" "clean p" shows "here p d' = (Some x, None)"
proof -
  from assms have s: "dev_step (add_link p x) d = (Inr u, d')" and n: "lookup (w_tree (dv_world d)) p = None"
    by (auto simp: d_symlink_def Let_def exists_def at_clean split: if_splits)
  from s show ?thesis by (cases rule: dev_step_cases [of "add_link p x" d]) (auto simp: n here_def add_link_def update_conv)
qed

text \<open>C17: Undoing a complete migration puts a link back: when a link was replaced, its backup is still there and the
  undoing of its entry is not refused, then the place shows the link it showed before, and nothing of the copy.\<close>
theorem undoing_a_migrated_link_restores_it:
  assumes run: "replace_legacy_link t staged n rd i l d = (Inr entry, d1)" and was: "here t d = (Some x, None)"
    and place: "place_ok (t, link_backup rd (ll_tool l) (li_id i), legacy_temp t n, x)"
    and b: "link_at d2 (link_backup rd (ll_tool l) (li_id i)) = link_at d1 (link_backup rd (ll_tool l) (li_id i))"
    and undo: "rollback_legacy_link H (PDict entry) d2 = (Inr v, d3)"
  shows "here t d3 = here t d"
proof -
  let ?b = "link_backup rd (ll_tool l) (li_id i)"
  have c: "apart_links t ?b (legacy_temp t n)" "path_of (path_str t) = t" "path_of (path_str ?b) = ?b" "clean t" "clean ?b"
    using place by (simp_all add: apart_links_def)
  have "link_safe x t ?b d" using was by (simp add: link_safe_def links_of_def here_def)
  from replace_legacy_safe(2) [OF run c(1) this refl]
  have e: "link_at d1 ?b = Some x" "dget entry ''target_path'' = PStr (path_str t)" "dget entry ''backup_link_path'' = PStr (path_str ?b)"
    using c(5) by (simp_all add: links_of_link_at)
  then have "dindex entry ''target_path'' = Inr (PStr (path_str t))" "dindex entry ''backup_link_path'' = Inr (PStr (path_str ?b))"
    by (auto simp: dindex_def dget_def dget_or_def split: option.splits)
  then obtain original d4 d5 u where o: "rollback_check H t ?b (py_str (por (dget entry ''central_content_hash'') (PStr []))) d2 = Inr original"
    "d_symlink original t d4 = (Inr u, d5)" "d5 = d3"
    using undo c(2,3) by (auto simp: rollback_legacy_link_def bindI_eq_Inr thenI_eq_Inr liftI_def askI_def)
  then have "original = x" using e(1) b by (auto simp: rollback_check_def split: option.splits if_splits)
  with symlink_here [OF o(2) c(4)] o(3) was show ?thesis by simp
qed

section \<open>Example\<close>

text \<open>A skill of the old root that one tool shows through a link, and the central snapshot with the same files.\<close>

definition legacy_device :: device where
  "legacy_device = \<lparr>dv_world = \<lparr>w_tree = NDir
     [(''old'', NDir [(''demo'', NDir [(''SKILL.md'', NFile (Raw ''x''))])]), (''t'', NDir []), (''tmp'', NDir []),
      (''snap'', NDir [(''a.zip'', NFile (Archive [(''SKILL.md'', Raw ''x''),
          (''.skill-sync/manifest.json'', Json (PDict [(''files'', PList [PDict [(''path'', PStr ''SKILL.md''), (''sha256'', PStr ''x'')]])]))])),
        (''index.json'', NFile (Json (PDict [(''snapshot_id'', PStr ''s1''), (''skills'', PList [PDict [(''skill_id'', PStr ''demo''),
          (''source'', PStr ''m''), (''archive'', PStr ''a.zip''), (''targets'', PList [PStr ''codex''])]])])))])], w_fault = None\<rparr>,
     dv_links = [([''t'', ''demo''], ''/old/demo'')]\<rparr>"

definition legacy_demo_names :: migration_names where
  "legacy_demo_names = \<lparr>mg_id = ''g1'', mg_tmp = [''tmp'', ''w''], mg_created = ''now'', mg_completed = ''now'', mg_failed = ''now''\<rparr>"

definition legacy_demo_link :: legacy_link where
  "legacy_demo_link = \<lparr>ll_tool = ''codex'', ll_target = [''t'', ''demo''], ll_text = ''/old/demo''\<rparr>"

lemma legacy_demo_run:
  "case build_legacy_preview raw_host demo_machine legacy_device [''old''] [''snap''] (Some [(''codex'', [''t''])]) of Inl e \<Rightarrow> False
   | Inr p \<Rightarrow> (case legacy_candidates p [''demo''] of Inl e \<Rightarrow> False | Inr (ids, items) \<Rightarrow>
       map li_id items = [''demo''] \<and> map li_detachable items = [[legacy_demo_link]])"
  by code_simp

lemma legacy_demo_result:
  "case execute_legacy_migration raw_host demo_machine [''old''] [''snap''] [''demo''] (Some [(''codex'', [''t''])]) (Some [''rec'', ''m.json''])
      legacy_demo_names True True legacy_device of (Inl e, d') \<Rightarrow> False
   | (Inr rec, d') \<Rightarrow> dv_links d' = [([''rec'', ''links'', ''codex'', ''demo''], ''/old/demo'')]
       \<and> lookup (w_tree (dv_world d')) [''t'', ''demo'', ''SKILL.md''] = Some (NFile (Raw ''x''))"
  by code_simp


definition legacy_demo_item :: legacy_item where
  "legacy_demo_item = \<lparr>li_id = ''demo'', li_name = PStr ''demo'', li_description = PStr [], li_path = [''old'', ''demo''], li_hash = [],
     li_risk = ''ok'', li_state = ''match'', li_reason = [], li_central = None, li_targets = [], li_links = [legacy_demo_link],
     li_detachable = [legacy_demo_link], li_blocked = []\<rparr>"

theorem a_migration_needs_a_verified_choice_witness:
  "\<exists>p (candidates :: legacy_item list). build_legacy_preview raw_host demo_machine legacy_device [''old''] [''snap''] (Some [(''codex'', [''t''])]) = Inr p
     \<and> candidates \<noteq> [] \<and> (\<forall>i \<in> set candidates. verified_item raw_host legacy_device (realpath legacy_device [''snap'']) i)"
proof -
  obtain r d' where run: "execute_legacy_migration raw_host demo_machine [''old''] [''snap''] [''demo''] (Some [(''codex'', [''t''])])
      (Some [''rec'', ''m.json'']) legacy_demo_names True True legacy_device = (r, d')" by (metis surj_pair)
  with legacy_demo_result have "dv_links d' = [([''rec'', ''links'', ''codex'', ''demo''], ''/old/demo'')]" by (cases r) simp_all
  moreover have "dv_links legacy_device = [([''t'', ''demo''], ''/old/demo'')]" by (simp add: legacy_device_def)
  ultimately have "d' \<noteq> legacy_device" by auto
  from a_migration_needs_a_verified_choice [OF run this] show ?thesis
    by (elim conjE exE) (intro exI conjI, assumption+, simp)
qed

theorem a_migration_never_loses_a_link_witness:
  "\<exists>r d'. execute_legacy_migration raw_host demo_machine [''old''] [''snap''] [''demo''] (Some [(''codex'', [''t''])])
      (Some [''rec'', ''m.json'']) legacy_demo_names True True legacy_device = (r, d')
     \<and> (link_at d' [''t'', ''demo''] = Some ''/old/demo'' \<or> link_at d' [''rec'', ''links'', ''codex'', ''demo''] = Some ''/old/demo'')"
proof -
  obtain r d' where run: "execute_legacy_migration raw_host demo_machine [''old''] [''snap''] [''demo''] (Some [(''codex'', [''t''])])
      (Some [''rec'', ''m.json'']) legacy_demo_names True True legacy_device = (r, d')" by (metis surj_pair)
  from legacy_demo_run obtain p ids items i where p: "build_legacy_preview raw_host demo_machine legacy_device [''old''] [''snap''] (Some [(''codex'', [''t''])]) = Inr p"
    "legacy_candidates p [''demo''] = Inr (ids, items)" and i: "items = [i]" "li_id i = ''demo''" "li_detachable i = [legacy_demo_link]"
    by (auto split: sum.splits)
  have b: "link_backup [''rec''] ''codex'' ''demo'' = [''rec'', ''links'', ''codex'', ''demo'']"
    "path_of (path_str [''t'', ''demo'']) = [''t'', ''demo'']"
    "path_of (path_str [''rec'', ''links'', ''codex'', ''demo'']) = [''rec'', ''links'', ''codex'', ''demo'']" by code_simp+
  have "separate_links (migrated_places legacy_demo_names [''rec'', ''m.json''] items)"
    by (simp add: i migrated_places_def separate_links_def apart_links_def legacy_demo_link_def b legacy_temp_def path_parent_def path_name_def)
  from a_migration_never_loses_a_link [OF p this run, of i legacy_demo_link] i b run show ?thesis by (simp add: legacy_demo_link_def path_parent_def)
qed


theorem undoing_a_migrated_link_restores_it_witness:
  "\<exists>entry d1 v d3. replace_legacy_link [''t'', ''demo''] [''old'', ''demo''] ''g1'' [''rec''] legacy_demo_item legacy_demo_link legacy_device = (Inr entry, d1)
     \<and> rollback_legacy_link raw_host (PDict entry) d1 = (Inr v, d3) \<and> here [''t'', ''demo''] d3 = here [''t'', ''demo''] legacy_device"
proof -
  let ?run = "replace_legacy_link [''t'', ''demo''] [''old'', ''demo''] ''g1'' [''rec''] legacy_demo_item legacy_demo_link legacy_device"
  have "case ?run of (Inl e, d1) \<Rightarrow> False
     | (Inr entry, d1) \<Rightarrow> (case rollback_legacy_link raw_host (PDict entry) d1 of (Inl e, d3) \<Rightarrow> False | (Inr v, d3) \<Rightarrow> True)" by code_simp
  then obtain entry d1 v d3 where r: "?run = (Inr entry, d1)" "rollback_legacy_link raw_host (PDict entry) d1 = (Inr v, d3)"
    by (cases ?run; cases "fst ?run"; cases "rollback_legacy_link raw_host (PDict (projr (fst ?run))) (snd ?run)"; cases "fst (rollback_legacy_link raw_host (PDict (projr (fst ?run))) (snd ?run))") auto
  have b: "link_backup [''rec''] (ll_tool legacy_demo_link) (li_id legacy_demo_item) = [''rec'', ''links'', ''codex'', ''demo'']"
    "path_of (path_str [''t'', ''demo'']) = [''t'', ''demo'']"
    "path_of (path_str [''rec'', ''links'', ''codex'', ''demo'']) = [''rec'', ''links'', ''codex'', ''demo'']"
    "legacy_temp [''t'', ''demo''] ''g1'' = [''t'', ''.demo.skill-sync-legacy-tmp-g1'']" by code_simp+
  have h: "here [''t'', ''demo''] legacy_device = (Some ''/old/demo'', None)" by (simp add: here_def legacy_device_def)
  have p: "place_ok ([''t'', ''demo''], link_backup [''rec''] (ll_tool legacy_demo_link) (li_id legacy_demo_item), legacy_temp [''t'', ''demo''] ''g1'', ''/old/demo'')"
    by (simp add: b apart_links_def)
  from undoing_a_migrated_link_restores_it [OF r(1) h p refl r(2)] r show ?thesis by blast
qed

end
