(* ===== verification/ToolStatus.thy ===== *)
theory ToolStatus
  imports Links Config Texts
begin

text \<open>
  \<open>tool_status.py\<close>: the inventory of the tools of a device. A tool is installed when one of its roots is there or
  its list of plugins was read; its skills are scanned through the links of its roots, and a scan that raises
  becomes an entry in the state \<open>error\<close>. Links stand directly in a root. The time is an argument.
\<close>

section \<open>Tools\<close>

record tool_root =
  tr_id :: string
  tr_name :: string
  tr_roots :: "path list"
  tr_role :: string

definition tool_root_of :: "string \<Rightarrow> string \<Rightarrow> path list \<Rightarrow> string \<Rightarrow> tool_root" where
  "tool_root_of i name roots role = \<lparr>tr_id = i, tr_name = name, tr_roots = roots, tr_role = role\<rparr>"

definition default_tool_roots :: "machine \<Rightarrow> tool_root list" where
  "default_tool_roots mc = (let home = mc_home mc in
     [tool_root_of ''sidecar'' ((''Sidecar '' @ uni [0x672C, 0x673A, 0x6B63, 0x672C])) [sidecar_skills_root mc] ((uni [0x672C, 0x673A,
       0x6B63, 0x672C, 0xFF08] @ ''daemon '' @ uni [0x540C, 0x6B65, 0x5B83, 0xFF09])),
      tool_root_of ''cc-switch'' ''cc-switch'' [home @ [''.cc-switch'', ''skills'']] ((uni [0x8FC7, 0x6E21, 0x671F, 0x5206, 0x53D1, 0x76EE,
        0x6807, 0xFF08] @ ''fanout '' @ uni [0x8F6F, 0x94FE, 0xFF09])),
      tool_root_of ''skillshub'' ''skillshub'' [home @ [''.skillshub'']] (uni [0x5DF2, 0x9000, 0x5F79, 0xFF0C, 0x4E0D, 0x518D, 0x5199, 0x5165]),
      tool_root_of ''codex'' ''Codex'' [home @ [''.codex'', ''skills''], home @ [''.agents'', ''skills'']] ((''Codex '' @ uni [0x53EF,
        0x53D1, 0x73B0, 0x76EE, 0x5F55])),
      tool_root_of ''cursor'' ''Cursor'' [home @ [''.cursor'', ''skills''], home @ [''.cursor'', ''skills-cursor'']] ((''Cursor ''
        @ uni [0x6280, 0x80FD, 0x76EE, 0x5F55])),
      tool_root_of ''claude-code'' ''Claude Code'' [home @ [''.claude'', ''skills'']] ((''Claude Code '' @ uni [0x6280, 0x80FD, 0x76EE, 0x5F55])),
      tool_root_of ''qoder'' ''Qoder'' [home @ [''.qoder'', ''skills'']] ((''Qoder '' @ uni [0x6280, 0x80FD, 0x76EE, 0x5F55])),
      tool_root_of ''deepseek-harness'' ''DeepSeek Harness'' [home @ [''.dsh'', ''skills'']] ((''DeepSeek Harness '' @ uni [0x6280, 0x80FD,
        0x76EE, 0x5F55]))])"

fun select_tool :: "(string \<times> path list) list \<Rightarrow> tool_root \<Rightarrow> tool_root list res" where
  "select_tool overrides t = (case map_of overrides (tr_id t) of
       None \<Rightarrow> Inr []
     | Some [] \<Rightarrow> Inl (Exn ValueError (''tool root list cannot be empty: '' @ tr_id t))
     | Some roots \<Rightarrow> Inr [t\<lparr>tr_roots := roots\<rparr>])"

definition select_device_tool_roots :: "machine \<Rightarrow> (string \<times> path list) list \<Rightarrow> tool_root list res" where
  "select_device_tool_roots mc overrides =
     (let unknown = sorted_set (filter (\<lambda>i. i \<notin> set (map tr_id (default_tool_roots mc))) (map fst overrides)) in
      if unknown \<noteq> [] then Inl (Exn ValueError (''unknown tool id(s): '' @ join_str '', '' unknown))
      else bindR (mapR (select_tool overrides) (default_tool_roots mc)) (\<lambda>xs. Inr (concat xs)))"

section \<open>Plugins\<close>

definition plugin_item :: "string \<times> pyval \<Rightarrow> pydict list" where
  "plugin_item kv = (case kv of (name, version) \<Rightarrow> (case version of
       PStr v \<Rightarrow> [[(''name'', PStr name), (''version'', PStr v)]]
     | PInt n \<Rightarrow> [[(''name'', PStr name), (''version'', PStr (py_str version))]]
     | PBool b \<Rightarrow> [[(''name'', PStr name), (''version'', PStr (py_str version))]]
     | _ \<Rightarrow> []))"

definition read_plugins :: "world \<Rightarrow> path \<Rightarrow> pydict list res" where
  "read_plugins w p =
     bindR (fst (read_json p w)) (\<lambda>data.
       case (case data of PDict d \<Rightarrow> dget d ''dependencies'' | _ \<Rightarrow> PNone) of
         PDict deps \<Rightarrow> Inr (concat (map plugin_item deps))
       | _ \<Rightarrow> Inl (Exn ValueError ''dependencies is not an object''))"

definition plugin_inventory :: "world \<Rightarrow> path option \<Rightarrow> pydict option res" where
  "plugin_inventory w manifest_path = (case manifest_path of
       None \<Rightarrow> Inr None
     | Some p \<Rightarrow> (let payload = [(''path'', PStr (path_str p)), (''state'', PStr ''not_found''), (''count'', PInt 0), (''items'', PList []),
            (''note'', PStr (uni [0x672A, 0x68C0, 0x6D4B, 0x5230, 0x63D2, 0x4EF6, 0x6E05, 0x5355]))] in
         if \<not> is_file w p then Inr (Some payload)
         else case read_plugins w p of
             Inl e \<Rightarrow> (if exn_kind e \<in> set [OSError, ValueError, JSONDecodeError]
               then Inr (Some (dmerge payload [(''state'', PStr ''error''), (''note'', PStr (uni [0x65E0, 0x6CD5, 0x8BFB, 0x53D6, 0x63D2,
                 0x4EF6, 0x6E05, 0x5355, 0xFF1A] @ exn_text e))])) else Inl e)
           | Inr items \<Rightarrow> Inr (Some (dmerge payload [(''state'', PStr ''detected''), (''count'', PInt (int (length items))),
               (''items'', PList (map PDict (sort_key (\<lambda>i. py_str (dget i ''name'')) items))), (''note'', PStr (uni [0x5DF2, 0x8BFB,
                 0x53D6, 0x63D2, 0x4EF6, 0x6E05, 0x5355]))]))))"

definition plugins_detected :: "pydict option \<Rightarrow> bool" where
  "plugins_detected plugins = (case plugins of None \<Rightarrow> False | Some p \<Rightarrow> dget p ''state'' = PStr ''detected'')"

definition tool_status_note :: "path list \<Rightarrow> pydict option \<Rightarrow> string" where
  "tool_status_note installed_paths plugins =
     (let n = (case plugins of Some p \<Rightarrow> py_str (dget p ''count'') | None \<Rightarrow> []) in
      if installed_paths \<noteq> [] \<and> plugins_detected plugins then (uni [0x5DF2, 0x68C0, 0x6D4B, 0x5230, 0x6280, 0x80FD, 0x76EE,
        0x5F55, 0x548C] @ '' '') @ n @ ('' '' @ uni [0x4E2A, 0x63D2, 0x4EF6])
      else if installed_paths \<noteq> [] then uni [0x5DF2, 0x68C0, 0x6D4B, 0x5230, 0x76EE, 0x5F55]
      else if plugins_detected plugins then (uni [0x5DF2, 0x68C0, 0x6D4B, 0x5230] @ '' '') @ n @ ('' '' @ uni [0x4E2A, 0x63D2, 0x4EF6,
        0xFF1B, 0x672A, 0x68C0, 0x6D4B, 0x5230, 0x6280, 0x80FD, 0x76EE, 0x5F55])
      else uni [0x672A, 0x68C0, 0x6D4B, 0x5230, 0x76EE, 0x5F55])"

section \<open>Skills\<close>

definition tool_skill_item :: "skill_record \<Rightarrow> pydict" where
  "tool_skill_item r =
     [(''skill_id'', PStr (sk_id r)), (''name'', sk_name r), (''description'', sk_description r), (''scope'', sk_scope r),
      (''path'', PStr (path_str (sk_path r))), (''content_hash'', PStr (sk_hash r)), (''risk_level'', PStr (risk_level r)),
      (''targets'', PList (sk_targets r))]"

text \<open>A walk that follows links: the directory itself, and what the links in it stand for.\<close>

definition linked_dirs :: "device \<Rightarrow> path \<Rightarrow> path list" where
  "linked_dirs d root =
     map (\<lambda>n. realpath d (root @ [n]))
       (filter (\<lambda>n. n \<notin> set default_excluded_dirs \<and> \<not> is_hidden_vendor_dir n \<and> is_symlink d (root @ [n]) \<and> d_is_dir d (root @ [n])) (d_iterdir d root))"

definition scan_tool_root :: "host \<Rightarrow> device \<Rightarrow> string \<Rightarrow> path \<Rightarrow> skill_record list res" where
  "scan_tool_root H d source root =
     bindR (scan_roots H (dv_world d) (map (\<lambda>p. (source, p)) (realpath d root # linked_dirs d root))) (\<lambda>s. Inr (ss_skills s))"

definition scan_tool_roots :: "host \<Rightarrow> device \<Rightarrow> string \<Rightarrow> path list \<Rightarrow> skill_record list list res" where
  "scan_tool_roots H d tool_id installed_paths =
     mapR (\<lambda>(i, p). scan_tool_root H d (strip (tool_id @ ''-'' @ nat_str i)) p) (enumerate 0 installed_paths)"

definition risk_count :: "skill_record list \<Rightarrow> string \<Rightarrow> int" where
  "risk_count skills level = int (length (filter (\<lambda>r. risk_level r = level) skills))"

definition risk_counts :: "skill_record list \<Rightarrow> pydict" where
  "risk_counts skills = map (\<lambda>level. (level, PInt (risk_count skills level))) [''ok'', ''warning'', ''error'']"

section \<open>The status\<close>

definition tool_entry :: "tool_root \<Rightarrow> bool \<Rightarrow> string \<Rightarrow> int \<Rightarrow> pydict list \<Rightarrow> pydict \<Rightarrow> pydict option \<Rightarrow> string \<Rightarrow> string \<Rightarrow> pydict" where
  "tool_entry t installed state n items risk plugins measured note_text =
     [(''id'', PStr (tr_id t)), (''name'', PStr (tr_name t)), (''roots'', strs (map path_str (tr_roots t))),
      (''path'', PStr (join_str '', '' (map path_str (tr_roots t)))), (''role'', PStr (tr_role t)), (''installed'', PBool installed),
      (''state'', PStr state), (''skills'', PInt n), (''skill_items'', PList (map PDict items)), (''risk'', PDict risk),
      (''plugins'', case plugins of None \<Rightarrow> PNone | Some p \<Rightarrow> PDict p), (''measured_at'', PStr measured), (''note'', PStr note_text)]"

definition tool_status :: "host \<Rightarrow> device \<Rightarrow> (string \<Rightarrow> path option) \<Rightarrow> string \<Rightarrow> tool_root \<Rightarrow> pydict res" where
  "tool_status H d manifests measured t =
     (let installed_paths = filter (d_exists d) (tr_roots t) in
      bindR (plugin_inventory (dv_world d) (manifests (tr_id t))) (\<lambda>plugins.
        let installed = (installed_paths \<noteq> [] \<or> plugins_detected plugins) in
        case (if installed then scan_tool_roots H d (tr_id t) installed_paths else Inr []) of
          Inl e \<Rightarrow> Inr (tool_entry t True ''error'' 0 [] [] plugins measured (exn_text e))
        | Inr found \<Rightarrow> (let skills = concat found in
            Inr (tool_entry t installed (if installed then ''detected'' else ''not_found'') (int (length skills))
              (map tool_skill_item (sort_key sk_id skills)) (risk_counts skills) plugins measured (tool_status_note installed_paths plugins)))))"

definition build_device_tool_status :: "host \<Rightarrow> machine \<Rightarrow> device \<Rightarrow> tool_root list option \<Rightarrow> (string \<Rightarrow> path option) \<Rightarrow> string \<Rightarrow> pydict list res" where
  "build_device_tool_status H mc d roots manifests measured =
     mapR (tool_status H d manifests measured) (case roots of Some (t # ts) \<Rightarrow> t # ts | _ \<Rightarrow> default_tool_roots mc)"

definition device_label :: "string \<Rightarrow> string" where
  "device_label peer_id =
     (if peer_id = ''mac'' then (''Mac '' @ uni [0x672C, 0x673A])
      else if peer_id \<in> set [''oc-vps'', ''openclaw''] then ''oc-vps / OpenClaw''
      else if peer_id = ''win'' then ''Windows'' else peer_id)"

definition build_device_status :: "string \<Rightarrow> string option \<Rightarrow> string \<Rightarrow> pydict" where
  "build_device_status peer_id name measured =
     [(''id'', PStr peer_id), (''name'', PStr (case name of Some n \<Rightarrow> (if n = [] then device_label peer_id else n) | None \<Rightarrow> device_label peer_id)),
      (''kind'', PStr ''agent''), (''measured_at'', PStr measured)]"

definition build_peer_capabilities :: "bool \<Rightarrow> bool \<Rightarrow> pydict" where
  "build_peer_capabilities sync_status blocked = [(''tool_status'', PBool True), (''sync_status'', PBool sync_status), (''blocked_report'', PBool blocked)]"

section \<open>The counts agree\<close>

lemma risk_counts_total: "risk_count skills ''ok'' + risk_count skills ''warning'' + risk_count skills ''error'' = int (length skills)"
proof (induction skills)
  case (Cons r rs)
  then show ?case using risk_level_cases [of r] by (auto simp: risk_count_def)
qed (simp add: risk_count_def)

definition balanced_entry :: "pydict \<Rightarrow> bool" where
  "balanced_entry e = (\<exists>items ok warning err. dget e ''skill_items'' = PList (map PDict items)
     \<and> dget e ''skills'' = PInt (int (length items)) \<and> dget e ''risk'' = PDict [(''ok'', PInt ok), (''warning'', PInt warning), (''error'', PInt err)]
     \<and> ok + warning + err = int (length items) \<and> (dget e ''installed'' = PBool False \<longrightarrow> items = []))"

lemma tool_status_entry:
  assumes st: "tool_status H d manifests measured t = Inr e"
  shows "dget e ''id'' = PStr (tr_id t) \<and> (dget e ''state'' = PStr ''error'' \<or> balanced_entry e)"
proof -
  obtain plugins where p: "plugin_inventory (dv_world d) (manifests (tr_id t)) = Inr plugins"
    using st by (auto simp: tool_status_def Let_def)
  let ?paths = "filter (d_exists d) (tr_roots t)"
  let ?inst = "?paths \<noteq> [] \<or> plugins_detected plugins"
  show ?thesis
  proof (cases "if ?inst then scan_tool_roots H d (tr_id t) ?paths else Inr []")
    case (Inl x)
    with st p show ?thesis by (auto simp: tool_status_def Let_def tool_entry_def split: if_splits)
  next
    case (Inr found)
    then have "e = tool_entry t ?inst (if ?inst then ''detected'' else ''not_found'') (int (length (concat found)))
        (map tool_skill_item (sort_key sk_id (concat found))) (risk_counts (concat found)) plugins measured (tool_status_note ?paths plugins)"
      "\<not> ?inst \<longrightarrow> found = []"
      using st p by (auto simp: tool_status_def Let_def split: if_splits)
    then show ?thesis using risk_counts_total [of "concat found"]
      by (auto simp: balanced_entry_def tool_entry_def risk_counts_def intro!: exI [of _ "map tool_skill_item (sort_key sk_id (concat found))"])
  qed
qed

text \<open>Every tool of a device gets exactly one entry, in the order of the list, whatever its directories hold: an
  entry that is not an error lists as many skills as it counts, its risks add up to that number, and a tool that
  is not installed lists none.\<close>
theorem tool_status_accounts_for_every_tool:
  assumes "build_device_tool_status H mc d (Some ts) manifests measured = Inr entries" "ts \<noteq> []"
  shows "map (\<lambda>e. dget e ''id'') entries = map (PStr \<circ> tr_id) ts
    \<and> list_all (\<lambda>e. dget e ''state'' = PStr ''error'' \<or> balanced_entry e) entries"
proof -
  have "list_all2 (\<lambda>t e. tool_status H d manifests measured t = Inr e) ts entries"
    using assms by (cases ts) (auto simp: build_device_tool_status_def mapR_Inr_iff)
  then show ?thesis by (induction rule: list_all2_induct) (auto dest: tool_status_entry)
qed

section \<open>Example\<close>

text \<open>A tool that shows one skill through a link, and a tool that is not there.\<close>

definition status_device :: device where
  "status_device = \<lparr>dv_world = \<lparr>w_tree = NDir
     [(''l'', NDir [(''demo'', NDir [(''SKILL.md'', NFile (Raw []))])]), (''t'', NDir [])], w_fault = None\<rparr>,
     dv_links = [([''t'', ''demo''], ''/l/demo'')]\<rparr>"

definition status_tools :: "tool_root list" where
  "status_tools = [tool_root_of ''codex'' ''Codex'' [[''t'']] ''c'', tool_root_of ''qoder'' ''Qoder'' [[''q'']] ''q'']"

theorem tool_status_accounts_for_every_tool_witness:
  "\<exists>entries. build_device_tool_status raw_host demo_machine status_device (Some status_tools) (\<lambda>i. None) ''now'' = Inr entries
     \<and> map (\<lambda>e. dget e ''id'') entries = [PStr ''codex'', PStr ''qoder''] \<and> map (\<lambda>e. dget e ''skills'') entries = [PInt 1, PInt 0]"
proof -
  have "case build_device_tool_status raw_host demo_machine status_device (Some status_tools) (\<lambda>i. None) ''now'' of
      Inl e \<Rightarrow> False | Inr entries \<Rightarrow> map (\<lambda>e. dget e ''skills'') entries = [PInt 1, PInt 0]" by code_simp
  then obtain entries where e: "build_device_tool_status raw_host demo_machine status_device (Some status_tools) (\<lambda>i. None) ''now'' = Inr entries"
    "map (\<lambda>e. dget e ''skills'') entries = [PInt 1, PInt 0]" by (auto split: sum.splits)
  have n: "status_tools \<noteq> []" "map (PStr \<circ> tr_id) status_tools = [PStr ''codex'', PStr ''qoder'']" by (simp_all add: status_tools_def tool_root_of_def)
  from tool_status_accounts_for_every_tool [OF e(1) n(1)] n(2) e show ?thesis by auto
qed

end
