(* ===== verification/OperatorExecutor.thy ===== *)
theory OperatorExecutor
  imports Restore LegacyMigration ToolStatus
begin

text \<open>
  \<open>operator_executor.py\<close>: the requests an operator may send to a device. A request names an operation by its path; one
  that writes needs its word of confirmation and the permission the executor was started with, and then calls
  the operation of the library, or a script of the repository. Arguments of the model: the scripts, by the exit
  code and the texts they give; the decoding of JSON in their output; the keychain and the opening of the
  remote; times, ids and temporary directories. Requests are served one at a time.
\<close>

section \<open>The executor\<close>

record executor_names =
  en_started :: string
  en_finished :: string
  en_now :: string
  en_uninstall_id :: string
  en_install_id :: string
  en_restore :: run_names
  en_migration :: migration_names
  en_publish :: publish_names
  en_clock :: clock
  en_clock' :: clock

record executor =
  ex_host :: host
  ex_machine :: machine
  ex_repo :: path
  ex_allow_publish :: bool
  ex_allow_local :: bool
  ex_run :: "path \<Rightarrow> string list \<Rightarrow> nat \<Rightarrow> (int \<times> string \<times> string) dio"
  ex_decode :: "string \<Rightarrow> (pyval \<times> nat) option"
  ex_keychain :: "string \<Rightarrow> string \<Rightarrow> string res"
  ex_open :: "webdav_settings \<Rightarrow> remote res"
  ex_names :: executor_names

text \<open>The environment's value without blanks, or the default.\<close>

definition env_text :: "machine \<Rightarrow> string \<Rightarrow> string \<Rightarrow> string" where
  "env_text mc name otherwise = (let s = strip (case mc_env mc name of Some s \<Rightarrow> s | None \<Rightarrow> otherwise) in if s = [] then otherwise else s)"

definition local_device_identity :: "machine \<Rightarrow> pydict" where
  "local_device_identity mc =
     [(''device_id'', PStr (env_text mc ''SKILL_SYNC_DEVICE_ID'' ''mac'')),
      (''device_name'', PStr (env_text mc ''SKILL_SYNC_DEVICE_NAME'' ((''Mac '' @ uni [0x672C, 0x673A])))), (''scope'', PStr ''local'')]"

section \<open>What a request may name\<close>

text \<open>\<open>re.match\<close> of a first character and at most \<open>n\<close> more; \<open>$\<close> also matches before a final line break.\<close>

definition name_like :: "string \<Rightarrow> nat \<Rightarrow> string \<Rightarrow> bool" where
  "name_like extra n s = (s \<noteq> [] \<and> is_alnum (hd s) \<and> length s \<le> Suc n \<and> list_all (\<lambda>c. is_alnum c \<or> c \<in> set extra) (tl s))"

definition re_match :: "string \<Rightarrow> nat \<Rightarrow> string \<Rightarrow> bool" where
  "re_match extra n s = (name_like extra n s \<or> s \<noteq> [] \<and> last s = CHR 0x0A \<and> name_like extra n (butlast s))"

definition skill_id_re :: "string \<Rightarrow> bool" where
  "skill_id_re s = re_match ''._-'' 127 s"

definition content_hash_re :: "string \<Rightarrow> bool" where
  "content_hash_re s = re_match '':._-'' 199 s"

definition op_error :: "string \<Rightarrow> exn" where
  "op_error m = Exn OperatorExecutorError m"

definition executor_skill_ids :: "pyval list \<Rightarrow> string list res" where
  "executor_skill_ids raw =
     bindR (foldR (\<lambda>v acc. let s = strip (py_str v) in
         if s = [] then Inr acc else if \<not> skill_id_re s then Inl (op_error (''invalid skill id: '' @ s))
         else Inr (if s \<in> set acc then acc else acc @ [s])) raw []) (\<lambda>ids.
       if ids = [] then Inl (op_error ''at least one skill id is required'') else Inr ids)"

definition expected_hash :: "string list \<Rightarrow> string \<times> pyval \<Rightarrow> (string \<times> string) res" where
  "expected_hash ids kv = (case kv of (i, h) \<Rightarrow>
     if i \<notin> set ids then Inl (op_error (''expected hash given for unrequested skill: '' @ i))
     else case h of PStr s \<Rightarrow> (if content_hash_re s then Inr (i, s) else Inl (op_error (''invalid expected local hash for '' @ i)))
       | _ \<Rightarrow> Inl (op_error (''invalid expected local hash for '' @ i)))"

definition expected_local_hashes :: "pyval \<Rightarrow> string list \<Rightarrow> (string \<times> string) list res" where
  "expected_local_hashes raw ids = (case raw of
       PNone \<Rightarrow> Inr []
     | PDict d \<Rightarrow> mapR (expected_hash ids) d
     | _ \<Rightarrow> Inl (op_error ''expected_local_hashes must be an object of skill_id -> local_hash''))"

text \<open>The tools a skill may be installed into: the name of the target, the root below the home, the label.\<close>

definition mac_tool_install_targets :: "(string \<times> string \<times> path \<times> string) list" where
  "mac_tool_install_targets =
     [(''cc-switch'', ''cc-switch-global'', [''.cc-switch'', ''skills''], ''cc-switch''),
      (''codex'', ''codex-global'', [''.codex'', ''skills''], ''Codex''),
      (''cursor'', ''cursor-global'', [''.cursor'', ''skills''], ''Cursor''),
      (''claude-code'', ''claude-code-global'', [''.claude'', ''skills''], ''Claude Code''),
      (''qoder'', ''qoder-global'', [''.qoder'', ''skills''], ''Qoder''),
      (''deepseek-harness'', ''deepseek-harness-global'', [''.dsh'', ''skills''], ''DeepSeek Harness'')]"

definition executor_tool_id :: "pyval \<Rightarrow> string res" where
  "executor_tool_id v =
     (let raw = lower (strip (py_str (por v (PStr []))));
          i = (if raw = ''claude'' then ''claude-code'' else if raw \<in> set [''deepseek'', ''deepseek harness''] then ''deepseek-harness'' else raw) in
      if map_of mac_tool_install_targets i = None
      then Inl (op_error (''unsupported Mac tool id: '' @ (if i = [] then ''<empty>'' else i))) else Inr i)"

section \<open>Scripts\<close>

text \<open>\<open>_last_json_object\<close>: the last object that starts at a brace; the decoder consumes at least that brace.\<close>

function last_object_from :: "(string \<Rightarrow> (pyval \<times> nat) option) \<Rightarrow> pydict option \<Rightarrow> string \<Rightarrow> pydict option" where
  "last_object_from decode found s =
     (case dropWhile (\<lambda>c. c \<noteq> CHR 0x7B) s of
        [] \<Rightarrow> found
      | c # cs \<Rightarrow> (case decode (c # cs) of
            None \<Rightarrow> last_object_from decode found cs
          | Some (v, n) \<Rightarrow> last_object_from decode (case v of PDict d \<Rightarrow> Some d | _ \<Rightarrow> found) (drop (n - 1) cs)))"
  by pat_completeness auto
termination
proof (relation "measure (\<lambda>(decode, found, s). length s)")
  fix s c cs assume "dropWhile (\<lambda>c. c \<noteq> CHR 0x7B) s = c # cs"
  then have "length cs < length s" by (metis length_dropWhile_le length_Cons less_le_trans lessI)
  then show "((decode, found, cs), decode, found, s) \<in> measure (\<lambda>(decode, found, s). length s)"
    "((decode, found', drop (n - 1) cs), decode, found, s) \<in> measure (\<lambda>(decode, found, s). length s)" for decode found found' n by auto
qed simp

definition last_json_object :: "executor \<Rightarrow> string \<Rightarrow> pydict option" where
  "last_json_object E s = last_object_from (ex_decode E) None s"

definition tail_of :: "string \<Rightarrow> string" where
  "tail_of s = (if length s \<le> 6000 then s else drop (length s - 6000) s)"

definition executor_script :: "executor \<Rightarrow> string \<Rightarrow> path" where
  "executor_script E name = ex_repo E @ [''scripts'', name]"

definition need_script :: "executor \<Rightarrow> string \<Rightarrow> string \<Rightarrow> unit dio" where
  "need_script E label name = bindI (askI (\<lambda>d. d_exists d (executor_script E name))) (\<lambda>there.
     if there then returnI () else raiseI (op_error (label @ '' helper not found: '' @ path_str (executor_script E name))))"

text \<open>What every report of a script holds, before and after the fields of its own.\<close>

definition run_head :: "executor \<Rightarrow> string \<Rightarrow> int \<Rightarrow> string list \<Rightarrow> pydict" where
  "run_head E mode code command =
     [(''ok'', PBool (code = 0)), (''mode'', PStr mode), (''started_at'', PStr (en_started (ex_names E))),
      (''finished_at'', PStr (en_finished (ex_names E))), (''exit_code'', PInt code), (''command'', PStr (join_str '' '' command))]"

definition run_tail :: "string \<Rightarrow> string \<Rightarrow> pydict" where
  "run_tail out err = [(''stdout_tail'', PStr (tail_of out)), (''stderr_tail'', PStr (tail_of err))]"

definition parsed_field :: "pydict option \<Rightarrow> string \<Rightarrow> pyval \<Rightarrow> pyval" where
  "parsed_field parsed k otherwise = (case parsed of Some p \<Rightarrow> dget p k | None \<Rightarrow> otherwise)"

definition parsed_value :: "pydict option \<Rightarrow> pyval" where
  "parsed_value parsed = (case parsed of Some p \<Rightarrow> PDict p | None \<Rightarrow> PNone)"

definition run_peer_refresh :: "executor \<Rightarrow> string \<Rightarrow> string \<Rightarrow> string \<Rightarrow> pydict dio" where
  "run_peer_refresh E label name mode =
     thenI (need_script E label name)
       (bindI (ex_run E (executor_script E name) [] 300) (\<lambda>(code, out, err).
         returnI (run_head E mode code [path_str (executor_script E name)] @ run_tail out err)))"

definition run_openclaw_peer_status_refresh :: "executor \<Rightarrow> pydict dio" where
  "run_openclaw_peer_status_refresh E = run_peer_refresh E ''OpenClaw peer status'' ''publish-openclaw-peer-status.sh'' ''refresh_openclaw_peer_status''"

definition run_mac_peer_status_refresh :: "executor \<Rightarrow> pydict dio" where
  "run_mac_peer_status_refresh E = run_peer_refresh E ''Mac peer status'' ''publish-mac-peer-status.sh'' ''refresh_mac_peer_status''"

definition approved_report :: "executor \<Rightarrow> bool \<Rightarrow> bool \<Rightarrow> string list \<Rightarrow> string list \<Rightarrow> int \<times> string \<times> string \<Rightarrow> pydict" where
  "approved_report E yes local_wins ids command res = (case res of (code, out, err) \<Rightarrow>
     let parsed = last_json_object E out in
       run_head E (if yes then ''publish'' else ''dry_run'') code command
       @ [(''skill_ids'', strs ids), (''safe_to_push'', PBool (truthy (parsed_field parsed ''safe_to_push'' PNone))),
          (''approved'', parsed_field parsed ''approved'' PNone), (''approved_skill_ids'', parsed_field parsed ''approved_skill_ids'' (strs ids)),
          (''stale_skipped_skill_ids'', case parsed of Some p \<Rightarrow> dget_or p ''stale_skipped_skill_ids'' (PList []) | None \<Rightarrow> PList []),
          (''changed_skipped_skill_ids'', case parsed of Some p \<Rightarrow> dget_or p ''changed_skipped_skill_ids'' (PList []) | None \<Rightarrow> PList []),
          (''allow_conflict_local_wins'', PBool local_wins), (''result'', parsed_value parsed),
          (''result_reason'', parsed_field parsed ''reason'' PNone)] @ run_tail out err)"

text \<open>\<open>isinstance(approved, int) and approved > 0\<close>; a \<open>bool\<close> is an \<open>int\<close>.\<close>

definition positive_int :: "pyval \<Rightarrow> bool" where
  "positive_int v = (case v of PInt n \<Rightarrow> n > 0 | PBool b \<Rightarrow> b | _ \<Rightarrow> False)"

definition with_openclaw_refresh :: "executor \<Rightarrow> pydict \<Rightarrow> pydict dio" where
  "with_openclaw_refresh E result =
     bindI (catchI (run_openclaw_peer_status_refresh E)
         (\<lambda>e. returnI [(''ok'', PBool False), (''mode'', PStr ''refresh_openclaw_peer_status''), (''error'', PStr (exn_text e))])) (\<lambda>refresh.
       returnI (result @ [(''peer_status_refresh'', PDict refresh)]))"

definition run_openclaw_approved_push_batch ::
    "executor \<Rightarrow> pyval \<Rightarrow> bool \<Rightarrow> bool \<Rightarrow> bool \<Rightarrow> bool \<Rightarrow> pyval \<Rightarrow> pydict dio" where
  "run_openclaw_approved_push_batch E skill_ids yes allow_publish local_wins refresh expected =
     (let name = ''openclaw-approved-push-batch.sh'' in
      thenI (need_script E ''approved-push'' name)
      (bindI (liftI (bindR (py_iter skill_ids) executor_skill_ids)) (\<lambda>ids.
       bindI (liftI (expected_local_hashes expected ids)) (\<lambda>expectations.
       if yes \<and> \<not> allow_publish
       then raiseI (op_error ''publish is disabled; set SKILL_SYNC_EXECUTOR_ALLOW_PUBLISH=1 to enable --yes'')
       else let args = [if yes then ''--yes'' else ''--dry-run''] @ (if local_wins then [''--allow-conflict-local-wins''] else [])
              @ concat (map (\<lambda>(i, h). [''--expect'', i @ ''='' @ h]) expectations) @ ids in
         bindI (ex_run E (executor_script E name) args 900) (\<lambda>res.
           let result = approved_report E yes local_wins ids (path_str (executor_script E name) # args) res in
           if yes \<and> refresh \<and> fst res = 0 \<and> positive_int (dget result ''approved'') then with_openclaw_refresh E result
           else returnI result)))))"

definition run_openclaw_central_restore :: "executor \<Rightarrow> pyval \<Rightarrow> bool \<Rightarrow> bool \<Rightarrow> pydict dio" where
  "run_openclaw_central_restore E skill_ids yes allow_local =
     (let name = ''openclaw-restore-from-central.sh'' in
      if yes \<and> \<not> allow_local then raiseI (op_error ''OpenClaw restore is disabled; start operator-executor with --allow-local-writes'')
      else thenI (need_script E ''OpenClaw restore'' name)
        (bindI (liftI (bindR (py_iter skill_ids) executor_skill_ids)) (\<lambda>ids.
          let args = (if yes then ''--yes'' else ''--dry-run'') # ids in
          bindI (ex_run E (executor_script E name) args 900) (\<lambda>(code, out, err). let parsed = last_json_object E out in
            returnI (run_head E (if yes then ''restore'' else ''dry_run'') code (path_str (executor_script E name) # args)
              @ [(''skill_ids'', strs ids), (''safe_to_restore'', PBool (truthy (parsed_field parsed ''safe_to_restore'' PNone))),
                 (''restored'', parsed_field parsed ''restored'' PNone), (''result'', parsed_value parsed)] @ run_tail out err)))))"

section \<open>Conflict packages\<close>

text \<open>The title and the description of a \<open>SKILL.md\<close>.\<close>

fun front_values :: "string list \<Rightarrow> (string \<times> string) list" where
  "front_values [] = []"
| "front_values (l # ls) =
     (if strip l = ''---'' then []
      else if CHR 0x3A \<notin> set l then front_values ls
      else let key = strip (takeWhile (\<lambda>c. c \<noteq> CHR 0x3A) l); value = tl (dropWhile (\<lambda>c. c \<noteq> CHR 0x3A) l) in
        if key \<in> set [''name'', ''description'']
        then (key, strip_set [CHR 0x22, quote_char] (strip value)) # front_values ls else front_values ls)"

definition frontmatter_of :: "string \<Rightarrow> (string \<times> string) list" where
  "frontmatter_of s = (case splitlines s of [] \<Rightarrow> [] | l # ls \<Rightarrow> if strip l \<noteq> ''---'' then [] else rev (front_values ls))"

fun first_heading_of :: "string list \<Rightarrow> string" where
  "first_heading_of [] = []"
| "first_heading_of (l # ls) = (if starts_with (strip l) ''#'' then strip (lstrip_set ''#'' (strip l)) else first_heading_of ls)"

fun first_paragraph_of :: "bool \<Rightarrow> bool \<Rightarrow> string list \<Rightarrow> string" where
  "first_paragraph_of inside closed [] = []"
| "first_paragraph_of inside closed (l # ls) = (let s = strip l in
     if s = ''---'' \<and> \<not> closed then first_paragraph_of (\<not> inside) (closed \<or> inside) ls
     else if inside \<or> s = [] \<or> starts_with s ''#'' then first_paragraph_of inside closed ls
     else s)"

definition or_text :: "string \<Rightarrow> string \<Rightarrow> string" where
  "or_text a b = (if a = [] then b else a)"

definition front_field :: "string \<Rightarrow> string \<Rightarrow> string" where
  "front_field s k = (case map_of (frontmatter_of s) k of Some v \<Rightarrow> v | None \<Rightarrow> [])"

text \<open>\<open>read_text(errors='replace')\<close>; the text of an archive is not modelled.\<close>

definition readable_text :: "host \<Rightarrow> fdata \<Rightarrow> string" where
  "readable_text H f = (case f of Raw s \<Rightarrow> s | Json v \<Rightarrow> h_dumps H v | Archive ms \<Rightarrow> [])"

definition summarize_skill_md :: "host \<Rightarrow> world \<Rightarrow> path \<Rightarrow> string \<times> string" where
  "summarize_skill_md H w p =
     (let fallback = path_name (path_parent p) in
      case at w p of
        Some (NFile f) \<Rightarrow>
          (let s = readable_text H f; title = or_text (or_text (front_field s ''name'') (first_heading_of (splitlines s))) fallback;
               description = or_text (front_field s ''description'') (first_paragraph_of False False (splitlines s)) in
           (or_text (strip title) fallback, strip description))
      | _ \<Rightarrow> (fallback, []))"

definition absent_material :: "string \<Rightarrow> string \<Rightarrow> pydict" where
  "absent_material state title =
     [(''state'', PStr state), (''title'', PStr title), (''description'', PStr []), (''file_count'', PInt 0), (''files'', PList [])]"

definition summarize_conflict_material :: "host \<Rightarrow> world \<Rightarrow> path \<Rightarrow> pydict" where
  "summarize_conflict_material H w p = (case at w p of
       None \<Rightarrow> absent_material ''absent'' (uni [0x7F3A, 0x5931])
     | Some (NFile f) \<Rightarrow> absent_material ''unknown'' (path_name p)
     | Some (NDir es) \<Rightarrow>
         (let files = sort (map (join_str ''/'') (filter (\<lambda>q. ''__pycache__'' \<notin> set (p @ q)) (tree_files [] (NDir es))));
              skill_md = p @ [''SKILL.md''];
              (title, description) = (if exists w skill_md then summarize_skill_md H w skill_md else (path_name p, [])) in
          [(''state'', PStr ''present''), (''title'', PStr title), (''description'', PStr description),
           (''file_count'', PInt (int (length files))), (''files'', strs (take 12 files)), (''has_more_files'', PBool (length files > 12)),
           (''skill_md'', if exists w skill_md then PStr (path_str skill_md) else PNone)]))"

definition conflict_review :: "host \<Rightarrow> world \<Rightarrow> path \<Rightarrow> pydict" where
  "conflict_review H w p =
     [(''local_label'', PStr ((''OpenClaw '' @ uni [0x7248]))), (''remote_label'', PStr (uni [0x5171, 0x4EAB, 0x5E93,
       0x7248])), (''base_label'', PStr (uni [0x5171, 0x540C, 0x57FA, 0x7EBF])),
      (''local'', PDict (summarize_conflict_material H w (p @ [''local'']))), (''remote'', PDict (summarize_conflict_material H w (p @ [''remote'']))),
      (''base'', PDict (summarize_conflict_material H w (p @ [''base'']))),
      (''decision_hint'', PStr ((uni [0x5148, 0x6BD4, 0x8F83] @ '' OpenClaw '' @ uni [0x7248, 0x548C, 0x5171, 0x4EAB, 0x5E93, 0x7248, 0xFF1B,
        0x786E, 0x5B9A, 0x54EA, 0x8FB9, 0x6B63, 0x786E, 0x540E, 0xFF0C, 0x518D, 0x9009, 0x62E9, 0x5199, 0x5165, 0x52A8, 0x4F5C, 0x3002])))]"

definition enrich_conflict_package :: "host \<Rightarrow> world \<Rightarrow> pydict \<Rightarrow> pydict" where
  "enrich_conflict_package H w package =
     (let p = path_of (py_str (por (dget package ''path'') (PStr []))) in
      if is_dir w p then dset package ''review'' (PDict (conflict_review H w p)) else package)"

definition enrich_conflict_packages :: "host \<Rightarrow> world \<Rightarrow> pyval \<Rightarrow> pyval" where
  "enrich_conflict_packages H w v = PList (map (PDict \<circ> enrich_conflict_package H w) (only_dicts (list_or_empty v)))"

definition run_openclaw_conflict_package :: "executor \<Rightarrow> pyval \<Rightarrow> pydict dio" where
  "run_openclaw_conflict_package E skill_ids =
     (let name = ''openclaw-conflict-package.sh'' in
      thenI (need_script E ''OpenClaw conflict package'' name)
        (bindI (liftI (bindR (py_iter skill_ids) executor_skill_ids)) (\<lambda>ids.
         bindI (ex_run E (executor_script E name) ids 900) (\<lambda>(code, out, err). let parsed = last_json_object E out in
         bindI (askI (\<lambda>d. enrich_conflict_packages (ex_host E) (dv_world d) (parsed_field parsed ''packages'' (PList [])))) (\<lambda>packages.
           returnI (run_head E ''conflict_package'' code (path_str (executor_script E name) # ids)
             @ [(''skill_ids'', strs ids), (''total_conflicts'', parsed_field parsed ''total_conflicts'' PNone), (''packages'', packages),
                (''result'', parsed_value parsed)] @ run_tail out err))))))"

section \<open>Operations of the device\<close>

definition configured :: "executor \<Rightarrow> (machine \<Rightarrow> world \<Rightarrow> path option \<Rightarrow> 'a res) \<Rightarrow> 'a dio" where
  "configured E f = bindI (askI (\<lambda>d. f (ex_machine E) (dv_world d) None)) liftI"

definition given_ids :: "pyval \<Rightarrow> string list dio" where
  "given_ids skill_ids = liftI (bindR (py_iter skill_ids) (\<lambda>vs. Inr (map py_str vs)))"

definition run_mac_central_restore :: "executor \<Rightarrow> pyval \<Rightarrow> bool \<Rightarrow> bool \<Rightarrow> pydict dio" where
  "run_mac_central_restore E skill_ids yes allow_local =
     (if yes \<and> \<not> allow_local then raiseI (op_error ''local restore is disabled; start operator-executor with --allow-local-writes'')
      else bindI (configured E configured_local_root) (\<lambda>local_root. bindI (configured E configured_remote_snapshot) (\<lambda>snapshot.
        bindI (configured E configured_remote_prefix) (\<lambda>pre. bindI (configured E configured_base_record) (\<lambda>base.
        bindI (given_ids skill_ids) (\<lambda>ids.
          on_world (restore_from_central (ex_host E) (mc_home (ex_machine E)) local_root snapshot ids ''mixed-scope-root'' (Some base) pre yes
            (en_restore (ex_names E)))))))))"

definition mac_tool_target :: "string \<Rightarrow> string \<times> path \<times> string" where
  "mac_tool_target i = the (map_of mac_tool_install_targets i)"

definition run_mac_tool_install_from_central :: "executor \<Rightarrow> pyval \<Rightarrow> pyval \<Rightarrow> bool \<Rightarrow> bool \<Rightarrow> pydict dio" where
  "run_mac_tool_install_from_central E tool_id skill_ids yes allow_local =
     bindI (liftI (executor_tool_id tool_id)) (\<lambda>i. case mac_tool_target i of (target, root_parts, label) \<Rightarrow>
       if yes \<and> \<not> allow_local then raiseI (op_error (label @ '' install is disabled; start operator-executor with --allow-local-writes''))
       else bindI (configured E configured_remote_snapshot) (\<lambda>snapshot. bindI (configured E configured_remote_prefix) (\<lambda>pre.
         bindI (given_ids skill_ids) (\<lambda>ids.
         bindI (on_world (restore_from_central (ex_host E) (mc_home (ex_machine E)) (mc_home (ex_machine E) @ root_parts) snapshot ids target None pre yes
             (en_restore (ex_names E)))) (\<lambda>result.
           returnI (dmerge result [(''operation'', PStr ''mac-tool-install-from-central''), (''tool_id'', PStr i), (''tool_name'', PStr label)]))))))"

definition run_mac_codex_install_from_central :: "executor \<Rightarrow> pyval \<Rightarrow> bool \<Rightarrow> bool \<Rightarrow> pydict dio" where
  "run_mac_codex_install_from_central E skill_ids yes allow_local = run_mac_tool_install_from_central E (PStr ''codex'') skill_ids yes allow_local"

text \<open>Uninstalling moves the directory of a skill into a backup below the root of the tool.\<close>

record uninstall_item =
  un_skill :: string
  un_target :: path
  un_backup :: path
  un_action :: string
  un_exists :: bool
  un_allowed :: bool
  un_reason :: "string option"

definition d_is_file :: "device \<Rightarrow> path \<Rightarrow> bool" where
  "d_is_file d p = (case d_at d p of Some (NFile f) \<Rightarrow> True | _ \<Rightarrow> False)"

definition uninstall_item_of :: "device \<Rightarrow> path \<Rightarrow> path \<Rightarrow> string \<Rightarrow> uninstall_item" where
  "uninstall_item_of d target_root backup_root i =
     (let target = target_root @ [i];
          item = \<lparr>un_skill = i, un_target = target, un_backup = backup_root @ [i], un_action = ''move_to_removed_backup'',
            un_exists = d_exists d target, un_allowed = False, un_reason = None\<rparr> in
      if \<not> d_exists d target then item\<lparr>un_action := ''skip_missing'', un_reason := Some ''skill is not installed in this tool root''\<rparr>
      else if \<not> d_is_dir d target \<or> \<not> d_is_file d (target @ [''SKILL.md''])
      then item\<lparr>un_action := ''blocked'', un_reason := Some ''target is not a skill directory with SKILL.md''\<rparr>
      else item\<lparr>un_allowed := True\<rparr>)"

definition uninstall_item_dict :: "string \<Rightarrow> string \<Rightarrow> uninstall_item \<Rightarrow> pydict" where
  "uninstall_item_dict tool_id label i =
     [(''skill_id'', PStr (un_skill i)), (''tool_id'', PStr tool_id), (''tool_name'', PStr label), (''target_path'', PStr (path_str (un_target i))),
      (''backup_path'', PStr (path_str (un_backup i))), (''action'', PStr (un_action i)), (''exists'', PBool (un_exists i)),
      (''allowed'', PBool (un_allowed i)), (''reason'', opt_str (un_reason i))]"

definition remove_installed :: "uninstall_item \<Rightarrow> int \<Rightarrow> int dio" where
  "remove_installed i removed =
     (if \<not> un_allowed i then returnI removed
      else thenI (on_world (mkdirs (path_parent (un_backup i))))
        (bindI (askI (\<lambda>d. d_exists d (un_backup i))) (\<lambda>taken. if taken
          then raiseI (op_error (''backup path already exists: '' @ path_str (un_backup i)))
          else thenI (d_move_path (un_target i) (un_backup i)) (returnI (removed + 1)))))"

definition removed_dir :: "path \<Rightarrow> string \<Rightarrow> path" where
  "removed_dir target_root uninstall_id = target_root @ [''.skill-sync-removed'', uninstall_id]"

definition uninstall_result :: "device \<Rightarrow> string \<Rightarrow> string \<Rightarrow> bool \<Rightarrow> path \<Rightarrow> path \<Rightarrow> string list \<Rightarrow> uninstall_item list \<Rightarrow> pydict" where
  "uninstall_result d i label yes target_root backup_root ids items =
     (let blocked = length (filter (\<lambda>x. un_action x = ''blocked'') items) in
      [(''ok'', PBool (blocked = 0)), (''record_type'', PStr ''skill-sync-mac-tool-uninstall''), (''mode'', PStr (if yes then ''uninstall'' else ''dry_run'')),
       (''dry_run'', PBool (\<not> yes)), (''safe_to_uninstall'', PBool (blocked = 0)), (''skill_ids'', strs ids), (''tool_id'', PStr i),
       (''tool_name'', PStr label), (''target_root'', PStr (path_str (realpath d target_root))), (''backup_root'', PStr (path_str backup_root)),
       (''planned'', PInt (int (length (filter un_allowed items)))), (''blocked'', PInt (int blocked)),
       (''items'', PList (map (PDict \<circ> uninstall_item_dict i label) items))])"

definition uninstall_items :: "path \<Rightarrow> uninstall_item list \<Rightarrow> pydict \<Rightarrow> pydict dio" where
  "uninstall_items backup_root items result =
     thenI (on_world (mkdirs backup_root))
       (bindI (foldI remove_installed items 0) (\<lambda>removed.
         let record_path = backup_root @ [''uninstall-record.json''];
             rec = result @ [(''removed'', PInt removed), (''record_path'', PStr (path_str record_path))] in
         thenI (on_world (write_data record_path (Json (canon (PDict rec))))) (returnI rec)))"

definition run_mac_tool_uninstall :: "executor \<Rightarrow> pyval \<Rightarrow> pyval \<Rightarrow> bool \<Rightarrow> bool \<Rightarrow> pydict dio" where
  "run_mac_tool_uninstall E tool_id skill_ids yes allow_local =
     bindI (liftI (executor_tool_id tool_id)) (\<lambda>i. case mac_tool_target i of (target, root_parts, label) \<Rightarrow>
       bindI (liftI (bindR (py_iter skill_ids) executor_skill_ids)) (\<lambda>ids.
       if yes \<and> \<not> allow_local then raiseI (op_error (label @ '' uninstall is disabled; start operator-executor with --allow-local-writes''))
       else let target_root = mc_home (ex_machine E) @ root_parts; backup_root = removed_dir target_root (en_uninstall_id (ex_names E)) in
         bindI (askI (\<lambda>d. let items = map (uninstall_item_of d target_root backup_root) ids in
             (items, uninstall_result d i label yes target_root backup_root ids items))) (\<lambda>(items, result).
           if list_ex (\<lambda>x. un_action x = ''blocked'') items \<or> \<not> yes then returnI result
           else uninstall_items backup_root items result)))"

section \<open>Operations of the central library\<close>

definition local_publish_remote :: "executor \<Rightarrow> (remote \<times> string) dio" where
  "local_publish_remote E =
     bindI (bindI (askI (\<lambda>d. load_webdav_settings (ex_host E) (ex_machine E) (ex_keychain E) (dv_world d) None None)) liftI) (\<lambda>(settings, warnings).
     bindI (liftI (ex_open E settings)) (\<lambda>R. bindI (configured E configured_remote_prefix) (\<lambda>pre. returnI (R, pre))))"

definition run_central_deprecate :: "executor \<Rightarrow> pyval \<Rightarrow> string \<Rightarrow> bool \<Rightarrow> bool \<Rightarrow> pydict dio" where
  "run_central_deprecate E skill_ids reason yes allow_publish =
     bindI (configured E configured_remote_snapshot) (\<lambda>snapshot.
       if yes \<and> \<not> allow_publish then raiseI (op_error ''central deprecate is disabled; start operator-executor with --allow-publish'')
       else if \<not> yes
       then bindI (given_ids skill_ids) (\<lambda>ids. bindI (askI (\<lambda>d.
         build_central_deprecate_preview (ex_host E) (dv_world d) (en_clock (ex_names E)) snapshot ids ''mac'' reason)) liftI)
       else bindI (local_publish_remote E) (\<lambda>(R, pre). bindI (given_ids skill_ids) (\<lambda>ids.
         on_world (execute_central_deprecate (ex_host E) (en_clock (ex_names E)) (en_clock' (ex_names E)) snapshot ids R pre ''mac'' reason True))))"

definition run_central_reactivate :: "executor \<Rightarrow> pyval \<Rightarrow> string \<Rightarrow> bool \<Rightarrow> bool \<Rightarrow> pydict dio" where
  "run_central_reactivate E skill_ids reason yes allow_publish =
     bindI (configured E configured_remote_snapshot) (\<lambda>snapshot.
       if yes \<and> \<not> allow_publish then raiseI (op_error ''central reactivate is disabled; start operator-executor with --allow-publish'')
       else if \<not> yes
       then bindI (given_ids skill_ids) (\<lambda>ids. bindI (askI (\<lambda>d.
         build_central_reactivate_preview (ex_host E) (dv_world d) (en_clock (ex_names E)) snapshot ids ''mac'' reason)) liftI)
       else bindI (local_publish_remote E) (\<lambda>(R, pre). bindI (given_ids skill_ids) (\<lambda>ids.
         on_world (execute_central_reactivate (ex_host E) (en_clock (ex_names E)) (en_clock' (ex_names E)) snapshot ids R pre ''mac'' reason True))))"

definition local_publish_root_for_source :: "device \<Rightarrow> path \<Rightarrow> string \<Rightarrow> path" where
  "local_publish_root_for_source d source skill_id =
     (let skill_dir = (if path_name source = ''SKILL.md'' then path_parent source else source) in
      if path_name skill_dir \<noteq> skill_id \<and> d_exists d (path_div skill_dir skill_id @ [''SKILL.md'']) then skill_dir
      else path_parent skill_dir)"

definition default_legacy_root :: "machine \<Rightarrow> path" where
  "default_legacy_root mc = mc_home mc @ [''.skillshub'']"

definition default_central_snapshot_root :: "machine \<Rightarrow> path" where
  "default_central_snapshot_root mc = mc_home mc @ [''public-sync'', ''skill-sync-sidecar-dev'', ''current-mac'']"

definition run_mac_legacy_migration :: "executor \<Rightarrow> pyval \<Rightarrow> bool \<Rightarrow> bool \<Rightarrow> pydict dio" where
  "run_mac_legacy_migration E skill_ids yes allow_local =
     (let mc = ex_machine E; old = default_legacy_root mc; central = default_central_snapshot_root mc in
      if yes \<and> \<not> allow_local
      then raiseI (op_error ''legacy Skillshub migration is disabled; start operator-executor with --allow-local-writes'')
      else bindI (if \<not> yes
          then bindI (askI (\<lambda>d. build_legacy_preview (ex_host E) mc d old central None)) (\<lambda>r. liftI (bindR r (\<lambda>p. Inr (legacy_preview_dict p))))
          else bindI (given_ids skill_ids) (\<lambda>ids.
            execute_legacy_migration (ex_host E) mc old central ids None None (en_migration (ex_names E)) True True)) (\<lambda>result.
        returnI (dset result ''operation'' (PStr ''mac-legacy-skillshub-migration''))))"

section \<open>What a request carries\<close>

definition payload_get :: "pyval \<Rightarrow> string \<Rightarrow> pyval" where
  "payload_get payload k = (case payload of PDict p \<Rightarrow> dget p k | _ \<Rightarrow> PNone)"

text \<open>\<open>Path.expanduser\<close> of a path below the user's own home.\<close>

definition user_path :: "machine \<Rightarrow> string \<Rightarrow> path" where
  "user_path mc s = (if s = ''~'' \<or> starts_with s ''~/'' then mc_home mc @ path_of (tl s) else path_of s)"

definition payload_path :: "executor \<Rightarrow> pyval \<Rightarrow> path res" where
  "payload_path E payload = (case payload of
       PDict p \<Rightarrow> (let raw = strip (py_str (por (dget p ''path'') (PStr []))) in
         if raw = [] then Inl (op_error ''path is required'') else Inr (user_path (ex_machine E) raw))
     | _ \<Rightarrow> Inl (op_error ''payload must be a JSON object''))"

definition payload_tool_ids :: "pyval \<Rightarrow> string list res" where
  "payload_tool_ids payload = (case payload_get payload ''tool_ids'' of
       PNone \<Rightarrow> Inr []
     | PList vs \<Rightarrow> Inr (filter (\<lambda>s. strip s \<noteq> []) (map py_str vs))
     | _ \<Rightarrow> Inl (op_error ''tool_ids must be a list''))"

definition payload_tool_id :: "pyval \<Rightarrow> pyval res" where
  "payload_tool_id payload = (case payload of
       PDict p \<Rightarrow> bindR (executor_tool_id (dget p ''tool_id'')) (\<lambda>i. Inr (PStr i))
     | _ \<Rightarrow> Inl (op_error ''payload must be a JSON object''))"

definition payload_reason :: "pyval \<Rightarrow> string" where
  "payload_reason payload = take 500 (strip (py_str (por (payload_get payload ''reason'') (PStr []))))"

text \<open>The body: nothing when no length is given.\<close>

definition read_payload :: "string option \<Rightarrow> fdata \<Rightarrow> pyval res" where
  "read_payload content_length body =
     bindR (py_int (PStr (case content_length of Some s \<Rightarrow> or_text s ''0'' | None \<Rightarrow> ''0''))) (\<lambda>n.
       if n = 0 then Inr (PDict []) else json_loads body)"

section \<open>Answers\<close>

type_synonym answer = "nat \<times> pydict"

definition refuse :: "nat \<Rightarrow> string \<Rightarrow> answer dio" where
  "refuse status why = returnI (status, [(''ok'', PBool False), (''error'', PStr why)])"

definition always_200 :: "pydict dio \<Rightarrow> answer dio" where
  "always_200 m = bindI m (\<lambda>result. returnI (200, result))"

definition when_ok :: "pydict dio \<Rightarrow> answer dio" where
  "when_ok m = bindI m (\<lambda>result. liftI (bindR (dindex result ''ok'') (\<lambda>ok. Inr (if truthy ok then 200 else 500, result))))"

text \<open>After a write the status of the peer is published again; only when both are well is the answer 200.\<close>

definition with_refresh :: "pydict dio \<Rightarrow> pydict dio \<Rightarrow> answer dio" where
  "with_refresh refresh m =
     bindI m (\<lambda>result. bindI refresh (\<lambda>r.
       liftI (bindR (dindex result ''ok'') (\<lambda>ok. bindR (dindex r ''ok'') (\<lambda>rok.
         Inr (if truthy ok \<and> truthy rok then 200 else 500, dset result ''peer_status_refresh'' (PDict r)))))))"

definition confirmed :: "pyval \<Rightarrow> string \<Rightarrow> answer dio \<Rightarrow> answer dio" where
  "confirmed payload word m = (if payload_get payload ''confirm'' \<noteq> PStr word then refuse 400 (''confirm must be '' @ word) else m)"

definition publish_request :: "executor \<Rightarrow> pyval \<Rightarrow> bool \<Rightarrow> pydict dio" where
  "publish_request E payload yes =
     bindI (liftI (payload_path E payload)) (\<lambda>source.
     bindI (bindI (askI (\<lambda>d. analyze_local_skill (ex_host E) (ex_machine E) d source [] None)) liftI) (\<lambda>a.
     bindI (askI (\<lambda>d. local_publish_root_for_source d source (la_skill_id a))) (\<lambda>local_root.
     bindI (local_publish_remote E) (\<lambda>(R, pre).
     bindI (configured E configured_remote_snapshot) (\<lambda>snapshot. bindI (configured E configured_base_record) (\<lambda>base.
       publish_local_skill (ex_host E) (ex_machine E)
         \<lparr>pu_local_root = local_root, pu_snapshot = snapshot, pu_skill_id = la_skill_id a, pu_remote = R, pu_prefix = pre,
          pu_last_applied = Some base, pu_base_out = Some base\<rparr> (en_publish (ex_names E)) yes))))))"

definition analyze_request :: "executor \<Rightarrow> pyval \<Rightarrow> pydict dio" where
  "analyze_request E payload =
     bindI (liftI (payload_path E payload)) (\<lambda>source. bindI (liftI (payload_tool_ids payload)) (\<lambda>tools.
     bindI (bindI (askI (\<lambda>d. analyze_local_skill (ex_host E) (ex_machine E) d source tools None)) liftI) (\<lambda>a.
       returnI (dset (analysis_dict a) ''allow_local_writes'' (PBool (ex_allow_local E))))))"

definition install_request :: "executor \<Rightarrow> pyval \<Rightarrow> pydict dio" where
  "install_request E payload =
     bindI (liftI (payload_path E payload)) (\<lambda>source. bindI (liftI (payload_tool_ids payload)) (\<lambda>tools.
       install_local_skill (ex_host E) (ex_machine E) source tools None True (ex_allow_local E) (en_install_id (ex_names E))))"

definition for_tool :: "pyval \<Rightarrow> (pyval \<Rightarrow> pydict dio) \<Rightarrow> pydict dio" where
  "for_tool payload f = bindI (liftI (payload_tool_id payload)) f"

text \<open>The operations, by the path of the request.\<close>

definition post_route :: "executor \<Rightarrow> string \<Rightarrow> pyval \<Rightarrow> answer dio" where
  "post_route E path payload =
     (let ids = por (payload_get payload ''skill_ids'') (PList []); local_wins = truthy (payload_get payload ''allow_conflict_local_wins'');
          expected = payload_get payload ''expected_local_hashes''; reason = payload_reason payload;
          publish = ex_allow_publish E; local = ex_allow_local E; mac = run_mac_peer_status_refresh E in
      if path = ''/api/openclaw-approved-push-dry-run''
      then when_ok (run_openclaw_approved_push_batch E ids False False local_wins False expected)
      else if path = ''/api/openclaw-approved-push-publish''
      then confirmed payload ''PUBLISH'' (when_ok (run_openclaw_approved_push_batch E ids True publish local_wins True expected))
      else if path = ''/api/openclaw-peer-status-refresh'' then when_ok (run_openclaw_peer_status_refresh E)
      else if path = ''/api/mac-peer-status-refresh'' then when_ok mac
      else if path = ''/api/mac-central-restore-dry-run'' then always_200 (run_mac_central_restore E ids False False)
      else if path = ''/api/mac-central-restore''
      then confirmed payload ''RESTORE'' (with_refresh mac (run_mac_central_restore E ids True local))
      else if path = ''/api/mac-codex-install-from-central-dry-run'' then always_200 (run_mac_codex_install_from_central E ids False False)
      else if path = ''/api/mac-codex-install-from-central''
      then confirmed payload ''INSTALL'' (with_refresh mac (run_mac_codex_install_from_central E ids True local))
      else if path = ''/api/mac-tool-install-from-central-dry-run''
      then always_200 (for_tool payload (\<lambda>t. run_mac_tool_install_from_central E t ids False False))
      else if path = ''/api/mac-tool-install-from-central''
      then confirmed payload ''INSTALL'' (with_refresh mac (for_tool payload (\<lambda>t. run_mac_tool_install_from_central E t ids True local)))
      else if path = ''/api/mac-tool-uninstall-dry-run'' then when_ok (for_tool payload (\<lambda>t. run_mac_tool_uninstall E t ids False False))
      else if path = ''/api/mac-tool-uninstall''
      then confirmed payload ''REMOVE'' (with_refresh mac (for_tool payload (\<lambda>t. run_mac_tool_uninstall E t ids True local)))
      else if path = ''/api/central-deprecate-dry-run'' then always_200 (run_central_deprecate E ids reason False False)
      else if path = ''/api/central-deprecate''
      then confirmed payload ''DEPRECATE'' (with_refresh mac (run_central_deprecate E ids reason True publish))
      else if path = ''/api/central-reactivate-dry-run'' then always_200 (run_central_reactivate E ids reason False False)
      else if path = ''/api/central-reactivate''
      then confirmed payload ''REACTIVATE'' (with_refresh mac (run_central_reactivate E ids reason True publish))
      else if path = ''/api/openclaw-central-restore-dry-run'' then when_ok (run_openclaw_central_restore E ids False False)
      else if path = ''/api/openclaw-central-restore''
      then confirmed payload ''RESTORE'' (with_refresh (run_openclaw_peer_status_refresh E) (run_openclaw_central_restore E ids True local))
      else if path = ''/api/openclaw-conflict-package'' then when_ok (run_openclaw_conflict_package E ids)
      else if path = ''/api/local-skill/analyze'' then always_200 (analyze_request E payload)
      else if path = ''/api/local-skill/install'' then confirmed payload ''INSTALL'' (always_200 (install_request E payload))
      else if path = ''/api/local-skill/publish-dry-run'' then always_200 (publish_request E payload False)
      else if path = ''/api/local-skill/publish''
      then (if \<not> publish then refuse 403 ''publish is disabled; start operator-executor with --allow-publish''
        else confirmed payload ''PUBLISH'' (always_200 (publish_request E payload True)))
      else if path = ''/api/legacy-skillshub-migration''
      then confirmed payload ''MIGRATE'' (with_refresh mac (run_mac_legacy_migration E ids True local))
      else refuse 404 ''not found'')"

text \<open>The classes the handler turns into an answer 500; any other ends the request without an answer.\<close>

definition answered_500 :: "exn_class \<Rightarrow> bool" where
  "answered_500 c = (c \<notin> set [ValueError, TypeError, KeyError, AttributeError, IndexError, AssertionError, BadZipFile])"

definition request_path :: "string \<Rightarrow> string" where
  "request_path raw = takeWhile (\<lambda>c. c \<noteq> CHR 0x3F) raw"

definition do_POST :: "executor \<Rightarrow> string \<Rightarrow> string option \<Rightarrow> fdata \<Rightarrow> answer dio" where
  "do_POST E raw content_length body =
     catchI (bindI (liftI (read_payload content_length body)) (post_route E (request_path raw)))
       (\<lambda>e. if answered_500 (exn_kind e) then refuse 500 (exn_text e) else raiseI e)"

definition healthz :: "executor \<Rightarrow> pydict" where
  "healthz E = dmerge [(''ok'', PBool True), (''service'', PStr ''skill-sync-operator-executor'')] (local_device_identity (ex_machine E))
     @ [(''repo_root'', PStr (path_str (ex_repo E))), (''allow_publish'', PBool (ex_allow_publish E)),
        (''allow_local_writes'', PBool (ex_allow_local E)), (''time'', PStr (en_now (ex_names E)))]"

definition executor_operations :: "executor \<Rightarrow> pydict" where
  "executor_operations E =
     [(''scan_local'', PBool True), (''dry_run'', PBool True), (''analyze_local_skill'', PBool True),
      (''install_local_skill'', PBool (ex_allow_local E)), (''publish_to_central'', PBool (ex_allow_publish E)),
      (''migrate_legacy_skillshub_links'', PBool (ex_allow_local E)), (''operate_other_devices'', PBool False)]"

definition local_workspace :: "executor \<Rightarrow> pydict list \<Rightarrow> int \<Rightarrow> pydict" where
  "local_workspace E tools amount =
     dmerge [(''ok'', PBool True)] (local_device_identity (ex_machine E))
     @ [(''authority'', PStr ((uni [0x672C, 0x673A] @ '' executor '' @ uni [0x53EA, 0x8BFB, 0x53D6, 0x672C, 0x673A] @ '' skill ''
       @ uni [0x76EE, 0x5F55, 0xFF1B, 0x9ED8, 0x8BA4, 0x53EA, 0x5141, 0x8BB8] @ '' dry-run'' @ uni [0xFF0C, 0x4E0D, 0x9ED8, 0x8BA4, 0x53D1,
       0x5E03, 0x3002]))), (''allow_publish'', PBool (ex_allow_publish E)),
        (''allow_local_writes'', PBool (ex_allow_local E)), (''measured_at'', PStr (en_now (ex_names E))), (''tools'', PList (map PDict tools)),
        (''total_skills'', PInt amount), (''operations'', PDict (executor_operations E))]"

definition do_GET :: "executor \<Rightarrow> string \<Rightarrow> answer dio" where
  "do_GET E raw =
     (let path = request_path raw in
      if path = ''/healthz'' then returnI (200, healthz E)
      else if path = ''/api/local-workspace''
      then bindI (bindI (askI (\<lambda>d. build_device_tool_status (ex_host E) (ex_machine E) d None (\<lambda>i. None) (en_now (ex_names E)))) liftI) (\<lambda>tools.
        bindI (liftI (mapR (\<lambda>t. py_int (por (dget t ''skills'') (PInt 0))) tools)) (\<lambda>ns.
          returnI (200, local_workspace E tools (sum_list ns))))
      else if path = ''/api/legacy-skillshub-migration'' then always_200 (run_mac_legacy_migration E (PList []) False False)
      else refuse 404 ''not found'')"

end
