(* ===== verification/OperatorSafe.thy ===== *)
theory OperatorSafe
  imports OperatorExecutor FanoutSafe LocalSkillSafe
begin

text \<open>
  What a request to the executor may do: a write that is not confirmed, or not permitted, changes nothing; a
  preview changes nothing outside the temporary directory; a skill that is uninstalled is kept.
\<close>

section \<open>Operations that refuse\<close>

text \<open>An operation that raises before it has changed anything.\<close>

definition refuses :: "'a dio \<Rightarrow> bool" where
  "refuses m = (\<forall>d. \<exists>e. m d = (Inl e, d))"

named_theorems refuse_intros \<open>which operations raise before they change anything\<close>

lemma refuses_raise [refuse_intros]: "refuses (raiseI e)"
  by (simp add: refuses_def raiseI_def)

lemma refuses_first: "refuses m \<Longrightarrow> refuses (bindI m f)"
  unfolding refuses_def
proof
  fix d assume "\<forall>d. \<exists>e. m d = (Inl e, d)"
  then obtain e where "m d = (Inl e, d)" by blast
  then show "\<exists>e. bindI m f d = (Inl e, d)" by (simp add: bindI_def)
qed

lemma refuses_bind [refuse_intros]:
  assumes "keeps (\<lambda>d. d) m" "\<And>x. refuses (f x)"
  shows "refuses (bindI m f)"
  unfolding refuses_def
proof
  fix d
  obtain r d1 where m: "m d = (r, d1)" by (metis surj_pair)
  with keepsD [OF assms(1) m] assms(2) show "\<exists>e. bindI m f d = (Inl e, d)"
    by (cases r) (auto simp: bindI_def refuses_def)
qed

lemma refuses_then [refuse_intros]: "keeps (\<lambda>d. d) m \<Longrightarrow> refuses k \<Longrightarrow> refuses (thenI m k)"
  unfolding thenI_def by (rule refuses_bind)

lemma refuses_keeps: "refuses m \<Longrightarrow> keeps (\<lambda>d. d) m"
  by (metis keepsI refuses_def snd_conv)

lemma configured_keeps [keeps_intros]: "keeps g (configured E f)"
  unfolding configured_def by (intro keeps_intros)

lemma given_ids_keeps [keeps_intros]: "keeps g (given_ids v)"
  unfolding given_ids_def by (intro keeps_intros)

lemma need_script_keeps [keeps_intros]: "keeps g (need_script E label name)"
  unfolding need_script_def by (intro keeps_intros)

lemma answers_refuse [refuse_intros]:
  assumes "refuses m" shows "refuses (when_ok m)" "refuses (always_200 m)" "refuses (with_refresh r m)"
  unfolding when_ok_def always_200_def with_refresh_def by (rule refuses_first [OF assms])+

lemma for_tool_refuses [refuse_intros]: "(\<And>t. refuses (f t)) \<Longrightarrow> refuses (for_tool payload f)"
  unfolding for_tool_def by (intro refuse_intros keeps_intros)

text \<open>Without its permission every operation that writes refuses.\<close>

lemma forbidden_refuses [refuse_intros]:
  "refuses (run_openclaw_approved_push_batch E ids True False local_wins refresh expected)"
  "refuses (run_openclaw_central_restore E ids True False)"
  "refuses (run_mac_central_restore E ids True False)"
  "refuses (run_mac_tool_install_from_central E tool ids True False)"
  "refuses (run_mac_tool_uninstall E tool ids True False)"
  "refuses (run_central_deprecate E ids reason True False)"
  "refuses (run_central_reactivate E ids reason True False)"
  "refuses (run_mac_legacy_migration E ids True False)"
  "refuses (install_local_skill H mc source tools targets True False install_id)"
  by (simp_all add: run_openclaw_approved_push_batch_def run_openclaw_central_restore_def run_mac_central_restore_def
      run_mac_tool_install_from_central_def run_mac_tool_uninstall_def run_central_deprecate_def run_central_reactivate_def
      run_mac_legacy_migration_def install_local_skill_def Let_def case_prod_beta refuse_intros keeps_intros)

lemma codex_refuses [refuse_intros]: "refuses (run_mac_codex_install_from_central E ids True False)"
  unfolding run_mac_codex_install_from_central_def by (intro refuse_intros)

lemma install_request_refuses: "\<not> ex_allow_local E \<Longrightarrow> refuses (install_request E payload)"
  unfolding install_request_def by (intro refuse_intros keeps_intros) (simp add: refuse_intros)

lemma refuse_keeps [keeps_intros]: "keeps g (refuse status why)"
  unfolding refuse_def by (intro keeps_intros)

lemma confirmed_keeps:
  assumes "payload_get payload ''confirm'' = PStr word \<Longrightarrow> refuses m" shows "keeps (\<lambda>d. d) (confirmed payload word m)"
  unfolding confirmed_def using assms by (auto intro: keeps_intros refuses_keeps)

section \<open>The word and the permission\<close>

text \<open>The requests that write on the device, in the central library or on the other device, each with its word and its permission.\<close>

definition write_guards :: "executor \<Rightarrow> (string \<times> string \<times> bool) list" where
  "write_guards E =
     [(''/api/openclaw-approved-push-publish'', ''PUBLISH'', ex_allow_publish E), (''/api/mac-central-restore'', ''RESTORE'', ex_allow_local E),
      (''/api/mac-codex-install-from-central'', ''INSTALL'', ex_allow_local E), (''/api/mac-tool-install-from-central'', ''INSTALL'', ex_allow_local E),
      (''/api/mac-tool-uninstall'', ''REMOVE'', ex_allow_local E), (''/api/central-deprecate'', ''DEPRECATE'', ex_allow_publish E),
      (''/api/central-reactivate'', ''REACTIVATE'', ex_allow_publish E), (''/api/openclaw-central-restore'', ''RESTORE'', ex_allow_local E),
      (''/api/local-skill/install'', ''INSTALL'', ex_allow_local E), (''/api/local-skill/publish'', ''PUBLISH'', ex_allow_publish E),
      (''/api/legacy-skillshub-migration'', ''MIGRATE'', ex_allow_local E)]"

lemma guarded_keeps:
  assumes "map_of (write_guards E) path = Some (word, allowed)" "\<not> (allowed \<and> payload_get payload ''confirm'' = PStr word)"
  shows "keeps (\<lambda>d. d) (post_route E path payload)"
  using assms unfolding write_guards_def
  by (auto simp: post_route_def Let_def split: if_splits
      intro!: confirmed_keeps refuse_keeps answers_refuse for_tool_refuses forbidden_refuses codex_refuses install_request_refuses)

text \<open>C18: A request that writes changes nothing, neither on the device nor, through a script or the remote, anywhere the
  executor reaches, unless its body could be read, carries the word of confirmation of that very request, and
  the executor was started with the permission the request needs.\<close>
theorem a_request_writes_only_when_confirmed_and_allowed:
  assumes "do_POST E raw content_length body d = (r, d')" "d' \<noteq> d"
    and "map_of (write_guards E) (request_path raw) = Some (word, allowed)"
  shows "allowed \<and> (\<exists>payload. read_payload content_length body = Inr payload \<and> payload_get payload ''confirm'' = PStr word)"
proof (rule ccontr)
  assume n: "\<not> ?thesis"
  have "keeps (\<lambda>d. d) (do_POST E raw content_length body)"
    unfolding do_POST_def
  proof (rule keeps_catchI, rule keeps_bind_lift)
    fix payload assume "read_payload content_length body = Inr payload"
    with n have "\<not> (allowed \<and> payload_get payload ''confirm'' = PStr word)" by blast
    with assms(3) show "keeps (\<lambda>d. d) (post_route E (request_path raw) payload)" by (rule guarded_keeps)
  qed (intro keeps_intros)
  from keepsD [OF this assms(1)] assms(2) show False by simp
qed

section \<open>Previews\<close>

definition preview_paths :: "string list" where
  "preview_paths = [''/api/mac-central-restore-dry-run'', ''/api/mac-codex-install-from-central-dry-run'', ''/api/mac-tool-install-from-central-dry-run'',
     ''/api/mac-tool-uninstall-dry-run'', ''/api/central-deprecate-dry-run'', ''/api/central-reactivate-dry-run'', ''/api/local-skill/analyze'']"

lemma restore_dry_run_frame:
  assumes "clean (rn_stage_tmp n)"
  shows "only_under (rn_stage_tmp n) (restore_from_central H home lr sd ids target out pre False n)"
proof -
  have "only_within {rn_stage_tmp n} (restore_from_central H home lr sd ids target out pre False n)"
    unfolding restore_from_central_def
    by (auto intro!: region_intros only_within_under [OF restore_plan_frame] assms)
  then show ?thesis by (rule only_within_singleton)
qed

lemma configured_restore_keeps:
  assumes "clean (rn_stage_tmp n)" "apart (rn_stage_tmp n) q"
  shows "keeps (here q) (on_world (restore_from_central H home lr sd ids target out pre False n))"
  by (rule keeps_here_world [OF restore_dry_run_frame [OF assms(1)] assms(2)])

lemma answers_keep [keeps_intros]:
  assumes "keeps g m" shows "keeps g (when_ok m)" "keeps g (always_200 m)"
  unfolding when_ok_def always_200_def by (intro keeps_intros assms)+

lemma for_tool_keeps [keeps_intros]: "(\<And>t. keeps g (f t)) \<Longrightarrow> keeps g (for_tool payload f)"
  unfolding for_tool_def by (intro keeps_intros)

lemma preview_runs_keep:
  "keeps g (run_mac_tool_uninstall E tool ids False allow)" "keeps g (run_central_deprecate E ids reason False allow)"
  "keeps g (run_central_reactivate E ids reason False allow)" "keeps g (analyze_request E payload)"
  by (auto simp: run_mac_tool_uninstall_def run_central_deprecate_def run_central_reactivate_def analyze_request_def Let_def case_prod_beta
      intro!: keeps_intros)

lemma preview_restores_keep:
  assumes "clean (rn_stage_tmp (en_restore (ex_names E)))" "apart (rn_stage_tmp (en_restore (ex_names E))) q"
  shows "keeps (here q) (run_mac_central_restore E ids False allow)" "keeps (here q) (run_mac_tool_install_from_central E tool ids False allow)"
    "keeps (here q) (run_mac_codex_install_from_central E ids False allow)"
  unfolding run_mac_codex_install_from_central_def run_mac_central_restore_def run_mac_tool_install_from_central_def case_prod_beta
  by (auto intro!: keeps_intros configured_restore_keeps assms)

lemma preview_keeps:
  assumes "path \<in> set preview_paths" "clean (rn_stage_tmp (en_restore (ex_names E)))" "apart (rn_stage_tmp (en_restore (ex_names E))) q"
  shows "keeps (here q) (post_route E path payload)"
proof -
  note keep = answers_keep for_tool_keeps preview_runs_keep preview_restores_keep [OF assms(2,3)]
  from assms(1) show ?thesis unfolding preview_paths_def list.set insert_iff empty_iff
    apply (elim disjE)
    apply (simp_all add: post_route_def Let_def)
    apply (intro keep)+
    done
qed

text \<open>C20: A request for a preview, of a restore, of an installation into a tool, of an uninstallation, of a change of the
  lifecycle or of the analysis of a skill, changes nothing on the device outside the temporary directory of the
  restore, whatever its body holds and whatever fails.\<close>
theorem a_preview_request_changes_nothing:
  assumes "do_POST E raw content_length body d = (r, d')" "request_path raw \<in> set preview_paths"
    and "clean (rn_stage_tmp (en_restore (ex_names E)))" "apart (rn_stage_tmp (en_restore (ex_names E))) q"
  shows "here q d' = here q d"
proof -
  have "keeps (here q) (do_POST E raw content_length body)"
    unfolding do_POST_def by (intro keeps_intros preview_keeps assms(2-4))
  from keepsD [OF this assms(1)] show ?thesis .
qed

section \<open>Uninstalling\<close>

lemma foldR_invariant:
  "foldR f xs s = Inr s' \<Longrightarrow> I s \<Longrightarrow> (\<And>x s s'. I s \<Longrightarrow> f x s = Inr s' \<Longrightarrow> I s') \<Longrightarrow> I s'"
  by (induction xs arbitrary: s) auto

lemma executor_ids_named:
  assumes "executor_skill_ids raw = Inr ids" "k \<in> set ids"
  shows "k \<noteq> ''..''" "k \<noteq> ''.skill-sync-removed''"
proof -
  let ?f = "\<lambda>v acc. let s = strip (py_str v) in if s = [] then Inr acc
      else if \<not> skill_id_re s then Inl (op_error (''invalid skill id: '' @ s)) else Inr (if s \<in> set acc then acc else acc @ [s])"
  have "foldR ?f raw [] = Inr ids" using assms(1) by (auto simp: executor_skill_ids_def split: if_splits)
  then have "list_all skill_id_re ids"
    by (rule foldR_invariant) (auto simp: Let_def split: if_splits)
  with assms(2) have "skill_id_re k" by (simp add: list_all_iff)
  moreover have "\<not> skill_id_re ''..''" "\<not> skill_id_re ''.skill-sync-removed''" by code_simp+
  ultimately show "k \<noteq> ''..''" "k \<noteq> ''.skill-sync-removed''" by auto
qed

text \<open>A loop in which one of the items does the work.\<close>

lemma ensures_foldI_hit:
  assumes "\<And>x s. x \<in> set xs \<Longrightarrow> ensures P (f x s) (\<lambda>_. if hit x then Q else P) E" "\<And>x s. x \<in> set xs \<Longrightarrow> ensures Q (f x s) (\<lambda>_. Q) E"
  shows "ensures P (foldI f xs s) (\<lambda>_. if list_ex hit xs then Q else P) E"
proof -
  have q: "ensures Q (foldI f ys s) (\<lambda>_. Q) E" if "set ys \<subseteq> set xs" for ys s
    using that by (induction ys arbitrary: s) (auto intro!: triples assms(2))
  have "ensures P (foldI f ys s) (\<lambda>_. if list_ex hit ys then Q else P) E" if "set ys \<subseteq> set xs" for ys
    using that
  proof (induction ys arbitrary: s)
    case (Cons y ys)
    have "ensures (if hit y then Q else P) (foldI f ys s') (\<lambda>_. if list_ex hit (y # ys) then Q else P) E" for s'
      using Cons q [of ys s'] by (cases "hit y") simp_all
    with assms(1) [of y] Cons.prems show ?case by (auto intro!: ensures_bindI)
  qed (auto intro!: triples)
  then show ?thesis by simp
qed

text \<open>The place of a skill, its place in the backup, and when it has gone from one to the other.\<close>

definition moved_to :: "path \<Rightarrow> path \<Rightarrow> node \<Rightarrow> device \<Rightarrow> bool" where
  "moved_to s t n d = (dir_here t n d \<and> here s d = (None, None) \<and> unlinked t d)"

definition tool_places :: "path \<Rightarrow> string \<Rightarrow> string \<Rightarrow> bool" where
  "tool_places root uid s = (clean (removed_dir root uid) \<and> s \<notin> {''..'', ''.skill-sync-removed'', ''uninstall-record.json''})"

lemma remove_others_keep:
  assumes "tool_places root uid s" "un_target i = root @ [k]" "un_backup i = removed_dir root uid @ [k]"
    and "k \<noteq> s" "k \<noteq> ''..''" "k \<noteq> ''.skill-sync-removed''" and q: "q = root @ [s] \<or> q = removed_dir root uid @ [s]"
  shows "keeps (here q) (remove_installed i c)" "prefix r q \<Longrightarrow> keeps (links_of r) (remove_installed i c)"
proof -
  have c: "clean root" "clean (removed_dir root uid)" "s \<noteq> ''.skill-sync-removed''" "s \<noteq> ''..''"
    using assms(1) by (auto simp: tool_places_def removed_dir_def clean_def)
  have p: "path_parent (un_backup i) = removed_dir root uid" by (simp add: assms(3) path_parent_def)
  have np: "\<not> prefix q (norm_path (removed_dir root uid))" using q c by (auto simp: removed_dir_def prefix_append)
  have m: "keeps (here q) (on_world (mkdirs (path_parent (un_backup i))))"
    unfolding p using mkdirs_frame [OF np] by (intro keepsI here_eqI) simp_all
  have n: "norm_path (un_target i) = root @ [k]" "norm_path (un_backup i) = removed_dir root uid @ [k]"
    "clean (un_backup i)" "path_name (un_target i) = k" "norm_path (un_backup i @ [k]) = removed_dir root uid @ [k, k]"
    using assms(2,3,5) c by (auto simp: clean_def path_name_def)
  have a: "apart (root @ [k]) q" "apart (removed_dir root uid @ [k]) q" using q assms(4,6) c(3) by (auto simp: apart_def removed_dir_def)
  show "keeps (here q) (remove_installed i c)"
    unfolding remove_installed_def by (intro keeps_intros m keeps_here_move) (use n a assms(5) in simp_all)
  assume r: "prefix r q"
  have "root @ [k] \<noteq> r" "removed_dir root uid @ [k] \<noteq> r" using r a by (auto simp: apart_def)
  moreover have "removed_dir root uid @ [k, k] \<noteq> r"
  proof
    assume "removed_dir root uid @ [k, k] = r"
    then have "prefix (removed_dir root uid @ [k]) r" by auto
    with r a(2) show False unfolding apart_def using prefix_order.trans by blast
  qed
  ultimately have l: "norm_path (un_target i) \<noteq> r" "norm_path (un_backup i) \<noteq> r" "norm_path (un_backup i @ [path_name (un_target i)]) \<noteq> r"
    using n by simp_all
  then show "keeps (links_of r) (remove_installed i c)"
    unfolding remove_installed_def by (intro keeps_intros keeps_link_world keeps_link_move l)
qed

lemma places_apart:
  assumes "tool_places root uid s"
  shows "clean (root @ [s])" "clean (removed_dir root uid @ [s])" "apart (root @ [s]) (removed_dir root uid @ [s])"
  using assms by (auto simp: tool_places_def removed_dir_def clean_def apart_def)

lemma moved_to_again:
  assumes "moved_to s t n d" "here s d' = here s d" "here t d' = here t d" "\<And>q. prefix q t \<Longrightarrow> links_of q d' = links_of q d"
  shows "moved_to s t n d'"
  using assms by (auto simp: moved_to_def dir_here_def unlinked_links)

lemma others_keep_places:
  assumes "tool_places root uid s" "un_target i = root @ [k]" "un_backup i = removed_dir root uid @ [k]"
    and "k \<noteq> s" "k \<noteq> ''..''" "k \<noteq> ''.skill-sync-removed''" and run: "remove_installed i c d = (r, d')"
  shows "movable (root @ [s]) (removed_dir root uid @ [s]) n d \<Longrightarrow> movable (root @ [s]) (removed_dir root uid @ [s]) n d'"
    "moved_to (root @ [s]) (removed_dir root uid @ [s]) n d \<Longrightarrow> moved_to (root @ [s]) (removed_dir root uid @ [s]) n d'"
proof -
  note keep = remove_others_keep [OF assms(1-6)]
  have h: "here (root @ [s]) d' = here (root @ [s]) d" "here (removed_dir root uid @ [s]) d' = here (removed_dir root uid @ [s]) d"
    using keepsD [OF keep(1) run] by blast+
  have l: "links_of q d' = links_of q d" if "prefix q (root @ [s]) \<or> prefix q (removed_dir root uid @ [s])" for q
    using that keepsD [OF keep(2) run] by blast
  show "movable (root @ [s]) (removed_dir root uid @ [s]) n d \<Longrightarrow> movable (root @ [s]) (removed_dir root uid @ [s]) n d'"
    using movable_after h l by blast
  show "moved_to (root @ [s]) (removed_dir root uid @ [s]) n d \<Longrightarrow> moved_to (root @ [s]) (removed_dir root uid @ [s]) n d'"
    using moved_to_again h l by blast
qed

text \<open>Making the directory of the backup changes neither place.\<close>

lemma backup_dir_keeps:
  assumes "tool_places root uid s" "on_world (mkdirs (removed_dir root uid)) d = (r, d')"
  shows "here (root @ [s]) d' = here (root @ [s]) d" "here (removed_dir root uid @ [s]) d' = here (removed_dir root uid @ [s]) d"
    "dv_links d' = dv_links d"
proof -
  from on_world_run [OF assms(2)] obtain w' where w: "mkdirs (removed_dir root uid) (dv_world d) = (r, w')" "d' = d\<lparr>dv_world := w'\<rparr>" by blast
  have "clean (removed_dir root uid)" "s \<noteq> ''.skill-sync-removed''" using assms(1) by (simp_all add: tool_places_def)
  then have "\<not> prefix (root @ [s]) (norm_path (removed_dir root uid))" "\<not> prefix (removed_dir root uid @ [s]) (norm_path (removed_dir root uid))"
    by (auto simp: removed_dir_def)
  from this [THEN mkdirs_frame, of "dv_world d"] w(1)
  have "lookup (w_tree w') (root @ [s]) = lookup (w_tree (dv_world d)) (root @ [s])"
    "lookup (w_tree w') (removed_dir root uid @ [s]) = lookup (w_tree (dv_world d)) (removed_dir root uid @ [s])" by simp_all
  then show "here (root @ [s]) d' = here (root @ [s]) d" "here (removed_dir root uid @ [s]) d' = here (removed_dir root uid @ [s]) d"
    "dv_links d' = dv_links d" by (simp_all add: here_def w(2))
qed

lemma remove_it:
  assumes p: "tool_places root uid s" and i: "un_target i = root @ [s]" "un_backup i = removed_dir root uid @ [s]" "un_allowed i"
    and run: "remove_installed i c d = (r, d')"
  defines "t \<equiv> removed_dir root uid @ [s]"
  shows "movable (root @ [s]) t n d \<Longrightarrow> case r of Inl e \<Rightarrow> survives (root @ [s]) t n d' | Inr x \<Rightarrow> moved_to (root @ [s]) t n d'"
    "moved_to (root @ [s]) t n d \<Longrightarrow> case r of Inl e \<Rightarrow> survives (root @ [s]) t n d' | Inr x \<Rightarrow> moved_to (root @ [s]) t n d'"
proof -
  note a = places_apart [OF p, folded t_def]
  have pp: "path_parent (un_backup i) = removed_dir root uid" by (simp add: i(2) path_parent_def)
  obtain r1 d1 where m: "on_world (mkdirs (removed_dir root uid)) d = (r1, d1)" by (metis surj_pair)
  note k = backup_dir_keeps [OF p m, folded t_def]
  have later: "(case r1 of Inl e \<Rightarrow> r = Inl e \<and> d' = d1 | Inr u \<Rightarrow>
      if d_exists d1 t then (\<exists>e. r = Inl e) \<and> d' = d1
      else (case d_move_path (root @ [s]) t d1 of (Inl e, d2) \<Rightarrow> r = Inl e \<and> d' = d2 | (Inr u, d2) \<Rightarrow> r = Inr (c + 1) \<and> d' = d2))"
    using run m i unfolding remove_installed_def pp t_def by (auto simp: io_defs split: sum.splits prod.splits if_splits)
  show "case r of Inl e \<Rightarrow> survives (root @ [s]) t n d' | Inr x \<Rightarrow> moved_to (root @ [s]) t n d'" if v: "movable (root @ [s]) t n d"
  proof -
    have v1: "movable (root @ [s]) t n d1" using v k by (auto simp: movable_def dir_here_def unlinked_def)
    then have "\<not> d_exists d1 t" using unlinked_resolves(2) [OF a(2)] by (auto simp: movable_def d_exists_def here_def)
    show ?thesis
    proof (cases r1)
      case (Inl e)
      with later v1 show ?thesis by (auto simp: survives_def movable_def)
    next
      case (Inr u)
      obtain r2 d2 where mv: "d_move_path (root @ [s]) t d1 = (r2, d2)" by (metis surj_pair)
      from move_keeps_directory [OF v1 a mv] v1 later Inr mv \<open>\<not> d_exists d1 t\<close> show ?thesis
        by (auto simp: survives_def moved_to_def movable_def unlinked_def split: sum.splits)
    qed
  qed
  show "case r of Inl e \<Rightarrow> survives (root @ [s]) t n d' | Inr x \<Rightarrow> moved_to (root @ [s]) t n d'" if v: "moved_to (root @ [s]) t n d"
  proof -
    have v1: "moved_to (root @ [s]) t n d1" using v k by (auto simp: moved_to_def dir_here_def unlinked_def)
    then have "d_exists d1 t" using unlinked_resolves(2) [OF a(2)] by (auto simp: moved_to_def d_exists_def dir_here_def here_def)
    with v1 later show ?thesis by (cases r1) (auto simp: survives_def moved_to_def)
  qed
qed

definition hits :: "string \<Rightarrow> uninstall_item \<Rightarrow> bool" where
  "hits s i = (un_skill i = s \<and> un_allowed i)"

lemma uninstall_item_fields [simp]:
  "un_skill (uninstall_item_of d root b k) = k" "un_target (uninstall_item_of d root b k) = root @ [k]"
  "un_backup (uninstall_item_of d root b k) = b @ [k]"
  by (simp_all add: uninstall_item_of_def Let_def)

lemma remove_step:
  assumes "tool_places root uid s" "k \<noteq> ''..''" "k \<noteq> ''.skill-sync-removed''"
    and f: "un_skill i = k" "un_target i = root @ [k]" "un_backup i = removed_dir root uid @ [k]"
  defines "t \<equiv> removed_dir root uid @ [s]"
  shows "ensures (movable (root @ [s]) t n) (remove_installed i c) (\<lambda>_. if hits s i then moved_to (root @ [s]) t n else movable (root @ [s]) t n)
      (\<lambda>_. survives (root @ [s]) t n)"
    "ensures (moved_to (root @ [s]) t n) (remove_installed i c) (\<lambda>_. moved_to (root @ [s]) t n) (\<lambda>_. survives (root @ [s]) t n)"
proof -
  let ?s = "root @ [s]"
  have sv: "movable ?s t n d \<Longrightarrow> survives ?s t n d" "moved_to ?s t n d \<Longrightarrow> survives ?s t n d" for d
    by (simp_all add: survives_def movable_def moved_to_def)
  show "ensures (movable ?s t n) (remove_installed i c) (\<lambda>_. if hits s i then moved_to ?s t n else movable ?s t n) (\<lambda>_. survives ?s t n)"
  proof (rule ensuresI)
    fix d assume v: "movable ?s t n d"
    obtain r d' where r: "remove_installed i c d = (r, d')" by (metis surj_pair)
    show "case remove_installed i c d of (Inr x, d') \<Rightarrow> (if hits s i then moved_to ?s t n else movable ?s t n) d' | (Inl e, d') \<Rightarrow> survives ?s t n d'"
    proof (cases "un_allowed i \<and> k = s")
      case True
      with remove_it(1) [OF assms(1) _ _ _ r, of n] f v show ?thesis by (auto simp: r hits_def t_def split: sum.splits)
    next
      case False
      show ?thesis
      proof (cases "un_allowed i")
        case True
        with False others_keep_places(1) [OF assms(1) f(2,3) _ assms(2,3) r] v show ?thesis
          by (auto simp: r hits_def f t_def sv [unfolded t_def] split: sum.splits)
      qed (use v in \<open>auto simp: remove_installed_def returnI_def hits_def\<close>)
    qed
  qed
  show "ensures (moved_to ?s t n) (remove_installed i c) (\<lambda>_. moved_to ?s t n) (\<lambda>_. survives ?s t n)"
  proof (rule ensuresI)
    fix d assume v: "moved_to ?s t n d"
    obtain r d' where r: "remove_installed i c d = (r, d')" by (metis surj_pair)
    show "case remove_installed i c d of (Inr x, d') \<Rightarrow> moved_to ?s t n d' | (Inl e, d') \<Rightarrow> survives ?s t n d'"
    proof (cases "un_allowed i")
      case True
      with remove_it(2) [OF assms(1) _ _ _ r, of n] others_keep_places(2) [OF assms(1) f(2,3) _ assms(2,3) r, of n] f v show ?thesis
        by (cases "k = s") (auto simp: r t_def sv [unfolded t_def] split: sum.splits)
    qed (use v in \<open>auto simp: remove_installed_def returnI_def\<close>)
  qed
qed

lemma record_keeps_places:
  assumes "tool_places root uid s" "q = root @ [s] \<or> q = removed_dir root uid @ [s]"
  shows "keeps (here q) (on_world (write_data (removed_dir root uid @ [''uninstall-record.json'']) x))"
proof (rule keeps_here_world)
  have "clean (removed_dir root uid @ [''uninstall-record.json''])" using assms(1) by (simp add: tool_places_def clean_def)
  then show "only_under (removed_dir root uid @ [''uninstall-record.json'']) (write_data (removed_dir root uid @ [''uninstall-record.json'']) x)"
    by (intro only_under_write_data) simp
  show "apart (removed_dir root uid @ [''uninstall-record.json'']) q"
    using assms by (auto simp: tool_places_def apart_def removed_dir_def)
qed

lemma uninstall_items_triple:
  assumes p: "tool_places root uid s"
    and items: "\<forall>i \<in> set items. un_target i = root @ [un_skill i] \<and> un_backup i = removed_dir root uid @ [un_skill i]
      \<and> un_skill i \<noteq> ''..'' \<and> un_skill i \<noteq> ''.skill-sync-removed''"
  defines "t \<equiv> removed_dir root uid @ [s]"
  shows "ensures (movable (root @ [s]) t n) (uninstall_items (removed_dir root uid) items result)
      (\<lambda>_. if list_ex (hits s) items then moved_to (root @ [s]) t n else movable (root @ [s]) t n) (\<lambda>_. survives (root @ [s]) t n)"
proof -
  let ?s = "root @ [s]" and ?P = "movable (root @ [s]) t n" and ?Q = "moved_to (root @ [s]) t n" and ?E = "\<lambda>_. survives (root @ [s]) t n"
  have sv: "?P d \<Longrightarrow> survives ?s t n d" "?Q d \<Longrightarrow> survives ?s t n d" for d by (simp_all add: survives_def movable_def moved_to_def)
  have keep: "?P d \<Longrightarrow> ?P d'" "?Q d \<Longrightarrow> ?Q d'" if "here ?s d' = here ?s d" "here t d' = here t d" "dv_links d' = dv_links d" for d d'
    using that by (auto simp: movable_def moved_to_def dir_here_def unlinked_def)
  have m: "ensures ?P (on_world (mkdirs (removed_dir root uid))) (\<lambda>_. ?P) ?E"
    by (rule ensuresI) (use backup_dir_keeps [OF p] keep(1) sv in \<open>auto simp: t_def split: prod.split sum.split\<close>)
  have w: "ensures R (on_world (write_data (removed_dir root uid @ [''uninstall-record.json'']) x)) (\<lambda>_. R) ?E" if R: "R = ?P \<or> R = ?Q" for R x
  proof (rule ensuresI)
    fix d assume d: "R d"
    obtain r d' where r: "on_world (write_data (removed_dir root uid @ [''uninstall-record.json'']) x) d = (r, d')" by (metis surj_pair)
    have "here ?s d' = here ?s d" "here t d' = here t d" "dv_links d' = dv_links d"
      using record_keeps_places [OF p, THEN keepsD, OF _ r] on_world_run [OF r] by (auto simp: t_def)
    from keep [OF this] R d sv show "case on_world (write_data (removed_dir root uid @ [''uninstall-record.json'']) x) d of
        (Inr x, d') \<Rightarrow> R d' | (Inl e, d') \<Rightarrow> survives ?s t n d'" by (auto simp: r split: sum.split)
  qed
  have f: "ensures ?P (foldI remove_installed items 0) (\<lambda>_. if list_ex (hits s) items then ?Q else ?P) ?E"
  proof (rule ensures_foldI_hit)
    fix i and c :: int assume "i \<in> set items"
    with items have i: "un_target i = root @ [un_skill i]" "un_backup i = removed_dir root uid @ [un_skill i]"
      "un_skill i \<noteq> ''..''" "un_skill i \<noteq> ''.skill-sync-removed''" by auto
    show "ensures ?P (remove_installed i c) (\<lambda>_. if hits s i then ?Q else ?P) ?E" "ensures ?Q (remove_installed i c) (\<lambda>_. ?Q) ?E"
      unfolding t_def by (rule remove_step [OF p i(3,4) refl i(1,2)])+
  qed
  have b: "(if b then ?Q else ?P) = ?P \<or> (if b then ?Q else ?P) = ?Q" for b by simp
  show ?thesis unfolding uninstall_items_def Let_def
    by (rule ensures_thenI [OF m], rule ensures_bindI [OF f], rule ensures_thenI [OF w [OF b]], rule ensures_returnI)
qed

text \<open>How a run goes: refused, only reported, or carried out.\<close>

definition uninstall_plan :: "device \<Rightarrow> path \<Rightarrow> string \<Rightarrow> string list \<Rightarrow> uninstall_item list" where
  "uninstall_plan d root uid names = map (uninstall_item_of d root (removed_dir root uid)) names"

lemma uninstall_runs:
  assumes "run_mac_tool_uninstall E tool ids yes allow d = (r, d')" "executor_tool_id tool = Inr i"
  defines "root \<equiv> mc_home (ex_machine E) @ fst (snd (mac_tool_target i))" and "uid \<equiv> en_uninstall_id (ex_names E)"
  obtains (refused) e where "r = Inl e" "d' = d"
  | (reported) result where "r = Inr result" "d' = d" "\<not> yes \<or> dget result ''safe_to_uninstall'' = PBool False"
  | (carried_out) names report where "\<forall>k \<in> set names. k \<noteq> ''..'' \<and> k \<noteq> ''.skill-sync-removed''"
      "\<not> list_ex (\<lambda>x. un_action x = ''blocked'') (uninstall_plan d root uid names)" "\<And>x. dget (report @ x) ''skill_ids'' = strs names"
      "uninstall_items (removed_dir root uid) (uninstall_plan d root uid names) report d = (r, d')"
proof (cases "bindR (py_iter ids) executor_skill_ids")
  case (Inl e)
  with assms(1,2) show ?thesis by (intro refused) (auto simp: run_mac_tool_uninstall_def io_defs case_prod_beta)
next
  case (Inr names)
  define items where "items = uninstall_plan d root uid names"
  define report where "report = uninstall_result d i (snd (snd (mac_tool_target i))) yes root (removed_dir root uid) names items"
  have fields: "dget (report @ x) ''skill_ids'' = strs names"
    "dget (report @ x) ''safe_to_uninstall'' = PBool (\<not> list_ex (\<lambda>x. un_action x = ''blocked'') items)" for x
    by (auto simp: report_def uninstall_result_def dget_def Let_def list_ex_iff filter_empty_conv)
  obtain raw where "executor_skill_ids raw = Inr names" using Inr by auto
  note named = executor_ids_named [OF this]
  have "(if yes \<and> \<not> allow then r = Inl (op_error (snd (snd (mac_tool_target i)) @ '' uninstall is disabled; start operator-executor with --allow-local-writes'')) \<and> d' = d
      else if list_ex (\<lambda>x. un_action x = ''blocked'') items \<or> \<not> yes then r = Inr report \<and> d' = d
      else uninstall_items (removed_dir root uid) items report d = (r, d'))"
    using assms(1,2) Inr unfolding run_mac_tool_uninstall_def root_def uid_def items_def report_def uninstall_plan_def
    by (auto simp: io_defs case_prod_beta Let_def split: if_splits)
  then consider "\<exists>e. r = Inl e \<and> d' = d" | "r = Inr report" "d' = d" "list_ex (\<lambda>x. un_action x = ''blocked'') items \<or> \<not> yes"
    | "uninstall_items (removed_dir root uid) items report d = (r, d')" "\<not> list_ex (\<lambda>x. un_action x = ''blocked'') items"
    by (auto split: if_splits)
  then show ?thesis
  proof cases
    case 1
    with refused show ?thesis by blast
  next
    case 2
    with fields(2) [of "[]"] show ?thesis by (intro reported [of report]) auto
  next
    case 3
    with fields(1) named show ?thesis by (intro carried_out [of names report]) (auto simp: items_def)
  qed
qed

lemma not_blocked_allowed:
  "d_exists d (root @ [k]) \<Longrightarrow> un_action (uninstall_item_of d root b k) \<noteq> ''blocked'' \<Longrightarrow> un_allowed (uninstall_item_of d root b k)"
  by (simp add: uninstall_item_of_def Let_def split: if_splits)

text \<open>C19: A skill that is uninstalled from a tool is never lost: its directory is where it was or, complete, in the backup below
  the tool's root, whatever operation fails. When the run reports that the uninstallation was safe and it was
  confirmed, every skill it lists that was there has left the tool and is in the backup.\<close>
theorem an_uninstalled_skill_is_kept:
  assumes run: "run_mac_tool_uninstall E tool ids yes allow d = (r, d')" and "executor_tool_id tool = Inr i"
  defines "root \<equiv> mc_home (ex_machine E) @ fst (snd (mac_tool_target i))" and "uid \<equiv> en_uninstall_id (ex_names E)"
  assumes p: "tool_places root uid s" and v: "movable (root @ [s]) (removed_dir root uid @ [s]) n d"
  shows "(dir_here (root @ [s]) n d' \<or> dir_here (removed_dir root uid @ [s]) n d')
    \<and> (\<forall>result listed. r = Inr result \<and> yes \<and> dget result ''safe_to_uninstall'' = PBool True \<and> dget result ''skill_ids'' = strs listed \<and> s \<in> set listed
        \<longrightarrow> dir_here (removed_dir root uid @ [s]) n d' \<and> here (root @ [s]) d' = (None, None))"
  using run assms(2)
proof (cases rule: uninstall_runs)
  case (refused e)
  with v show ?thesis by (simp add: movable_def)
next
  case (reported result)
  with v show ?thesis by (auto simp: movable_def)
next
  case (carried_out names report)
  let ?s = "root @ [s]" and ?t = "removed_dir root uid @ [s]" and ?items = "uninstall_plan d root uid names"
  have e: "d_exists d ?s" using v unlinked_resolves(2) [of ?s d] places_apart [OF p]
    by (auto simp: movable_def dir_here_def here_def d_exists_def)
  note u = carried_out(4) [folded root_def uid_def] and b = carried_out(2) [folded root_def uid_def]
  have "ensures (movable ?s ?t n) (uninstall_items (removed_dir root uid) ?items report)
    (\<lambda>_. if list_ex (hits s) ?items then moved_to ?s ?t n else movable ?s ?t n) (\<lambda>_. survives ?s ?t n)"
    by (rule uninstall_items_triple [OF p]) (use carried_out(1) in \<open>auto simp: uninstall_plan_def\<close>)
  note k = ensures_Inr [OF this v] ensures_Inl [OF this v]
  have hit: "list_ex (hits s) ?items" if "s \<in> set names"
    using that b not_blocked_allowed [OF e, of "removed_dir root uid"] unfolding uninstall_plan_def list_ex_iff by (auto simp: hits_def)
  show ?thesis
  proof (cases r)
    case (Inl e')
    with k(2) u show ?thesis by (auto simp: survives_def)
  next
    case (Inr res)
    with k(1) u have m: "(if list_ex (hits s) ?items then moved_to ?s ?t n else movable ?s ?t n) d'" by auto
    have "\<exists>x. res = report @ x" using u Inr by (auto simp: uninstall_items_def io_Inr Let_def)
    moreover have "strs listed = strs names \<Longrightarrow> listed = names" for listed by (simp add: strs_def inj_map_eq_map inj_def)
    ultimately show ?thesis using m hit carried_out(3) Inr by (auto simp: moved_to_def movable_def split: if_splits)
  qed
qed

section \<open>Examples\<close>

text \<open>A device with one skill in the root of Codex, and an executor that may write on it.\<close>

definition tool_device :: device where
  "tool_device = \<lparr>dv_world = \<lparr>w_tree = NDir [(''home'', NDir [(''.codex'', NDir [(''skills'', NDir [(''demo'', NDir [(''SKILL.md'', NFile (Raw ''v1''))])])])])],
     w_fault = None\<rparr>, dv_links = []\<rparr>"

definition demo_executor :: executor where
  "demo_executor = \<lparr>ex_host = raw_host, ex_machine = demo_machine, ex_repo = [''repo''], ex_allow_publish = False, ex_allow_local = True,
     ex_run = (\<lambda>p args seconds. returnI (0, [], [])), ex_decode = (\<lambda>s. None), ex_keychain = (\<lambda>a b. Inl (op_error ''none'')),
     ex_open = (\<lambda>s. Inl (op_error ''none'')),
     ex_names = \<lparr>en_started = ''a'', en_finished = ''b'', en_now = ''c'', en_uninstall_id = ''u1'', en_install_id = ''i1'', en_restore = push_names,
       en_migration = \<lparr>mg_id = ''m1'', mg_tmp = [''t3''], mg_created = ''a'', mg_completed = ''b'', mg_failed = ''c''\<rparr>, en_publish = \<lparr>pn_tmp = [''t1''], pn_inner = [''t2''], pn_label = ''p1'', pn_sync_id = ''y1'', pn_now = ''now''\<rparr>,
       en_clock = \<lparr>ck_iso = ''now'', ck_stamp = ''now''\<rparr>, en_clock' = \<lparr>ck_iso = ''now'', ck_stamp = ''now''\<rparr>\<rparr>\<rparr>"

definition uninstall_body :: fdata where
  "uninstall_body = Json (PDict [(''tool_id'', PStr '' Codex''), (''skill_ids'', PList [PStr ''demo'']), (''confirm'', PStr ''REMOVE'')])"

theorem a_request_writes_only_when_confirmed_and_allowed_witness:
  "\<exists>r d' payload. do_POST demo_executor ''/api/mac-tool-uninstall'' (Some ''90'') uninstall_body tool_device = (r, d') \<and> d' \<noteq> tool_device
     \<and> ex_allow_local demo_executor \<and> read_payload (Some ''90'') uninstall_body = Inr payload \<and> payload_get payload ''confirm'' = PStr ''REMOVE''"
proof -
  let ?run = "do_POST demo_executor ''/api/mac-tool-uninstall'' (Some ''90'') uninstall_body tool_device"
  obtain r d' where r: "?run = (r, d')" by (metis surj_pair)
  have "lookup (w_tree (dv_world (snd ?run))) [''home'', ''.codex'', ''skills'', ''demo''] = None"
    "lookup (w_tree (dv_world tool_device)) [''home'', ''.codex'', ''skills'', ''demo''] \<noteq> None" by code_simp+
  with r have d: "d' \<noteq> tool_device" by auto
  have "request_path ''/api/mac-tool-uninstall'' = ''/api/mac-tool-uninstall''" by (simp add: request_path_def)
  then have "map_of (write_guards demo_executor) (request_path ''/api/mac-tool-uninstall'') = Some (''REMOVE'', ex_allow_local demo_executor)"
    by (simp add: write_guards_def)
  from a_request_writes_only_when_confirmed_and_allowed [OF r d this] r d show ?thesis by blast
qed

theorem a_preview_request_changes_nothing_witness:
  "\<exists>r d'. do_POST demo_executor ''/api/mac-tool-uninstall-dry-run?x=1'' (Some ''90'') uninstall_body tool_device = (r, d')
     \<and> here [''home''] d' = here [''home''] tool_device"
proof -
  obtain r d' where r: "do_POST demo_executor ''/api/mac-tool-uninstall-dry-run?x=1'' (Some ''90'') uninstall_body tool_device = (r, d')"
    by (metis surj_pair)
  have "request_path ''/api/mac-tool-uninstall-dry-run?x=1'' \<in> set preview_paths" by (simp add: request_path_def preview_paths_def)
  moreover have "clean (rn_stage_tmp (en_restore (ex_names demo_executor)))" "apart (rn_stage_tmp (en_restore (ex_names demo_executor))) [''home'']"
    by (simp_all add: demo_executor_def push_names_def clean_def apart_def)
  ultimately have "here [''home''] d' = here [''home''] tool_device" by (rule a_preview_request_changes_nothing [OF r])
  with r show ?thesis by blast
qed

theorem an_uninstalled_skill_is_kept_witness:
  "\<exists>result d'. run_mac_tool_uninstall demo_executor (PStr ''codex'') (PList [PStr ''demo'']) True True tool_device = (Inr result, d')
     \<and> dir_here [''home'', ''.codex'', ''skills'', ''.skill-sync-removed'', ''u1'', ''demo''] (NDir [(''SKILL.md'', NFile (Raw ''v1''))]) d'
     \<and> here [''home'', ''.codex'', ''skills'', ''demo''] d' = (None, None)"
proof -
  let ?run = "run_mac_tool_uninstall demo_executor (PStr ''codex'') (PList [PStr ''demo'']) True True tool_device"
    and ?root = "mc_home (ex_machine demo_executor) @ fst (snd (mac_tool_target ''codex''))" and ?uid = "en_uninstall_id (ex_names demo_executor)"
  have "case ?run of (Inl e, d') \<Rightarrow> False | (Inr res, d') \<Rightarrow> dget res ''safe_to_uninstall'' = PBool True \<and> dget res ''skill_ids'' = strs [''demo'']"
    by code_simp
  then obtain result d' where r: "?run = (Inr result, d')" "dget result ''safe_to_uninstall'' = PBool True" "dget result ''skill_ids'' = strs [''demo'']"
    by (auto split: prod.splits sum.splits)
  have t: "executor_tool_id (PStr ''codex'') = Inr ''codex''" by code_simp
  have root: "?root = [''home'', ''.codex'', ''skills'']" "?uid = ''u1''" by code_simp+
  have p: "tool_places ?root ?uid ''demo''" unfolding root by (simp add: tool_places_def removed_dir_def clean_def)
  have "movable (?root @ [''demo'']) (removed_dir ?root ?uid @ [''demo'']) (NDir [(''SKILL.md'', NFile (Raw ''v1''))]) tool_device"
    unfolding root by (simp add: movable_def dir_here_def here_def unlinked_def tool_device_def removed_dir_def)
  from an_uninstalled_skill_is_kept [OF r(1) t p this] r show ?thesis unfolding root by (auto simp: removed_dir_def)
qed

end
