(* ===== verification/Monitor.thy ===== *)
theory Monitor
  imports World Texts Scanner
begin

text \<open>
  \<open>monitor.py\<close>: the summary of the dashboard is fetched, with retries, judged, and written as a report, once or in a
  loop. The answers of the network are an argument, one for each request in turn, and so are the times of the
  reports; delays are in milliseconds and only recorded. A line appended to the events is a new text of the
  file. Reports are the ones built here, so their lists are lists. Printing is left out.
\<close>

section \<open>Fetching\<close>

text \<open>What a request may raise, as far as the monitor tells it apart.\<close>

datatype fetch_error =
    HTTP_error int string
  | URL_error string
  | Timeout_error string
  | Connection_error string
  | Other_error exn

fun fetch_error_text :: "fetch_error \<Rightarrow> string" where
  "fetch_error_text (HTTP_error c s) = s"
| "fetch_error_text (URL_error s) = s"
| "fetch_error_text (Timeout_error s) = s"
| "fetch_error_text (Connection_error s) = s"
| "fetch_error_text (Other_error e) = exn_text e"

fun is_transient_fetch_error :: "fetch_error \<Rightarrow> bool" where
  "is_transient_fetch_error (HTTP_error c s) = (500 \<le> c \<and> c < 600)"
| "is_transient_fetch_error (URL_error s) = True"
| "is_transient_fetch_error (Timeout_error s) = True"
| "is_transient_fetch_error (Connection_error s) = True"
| "is_transient_fetch_error (Other_error e) = False"

record monitor_args =
  mo_host :: host
  mo_answers :: "nat \<Rightarrow> fetch_error + fdata"
  mo_summary_file :: "path option"
  mo_out :: path
  mo_interval :: int
  mo_stale_after :: int
  mo_minimum :: int
  mo_max :: "int option"
  mo_retries :: int
  mo_backoff :: int
  mo_threshold :: int
  mo_now :: "nat \<Rightarrow> string"

record monitor_state =
  mt_world :: world
  mt_requests :: nat
  mt_sleeps :: "int list"
  mt_failures :: int
  mt_count :: nat

definition pause :: "int \<Rightarrow> monitor_state \<Rightarrow> monitor_state" where
  "pause ms s = (if ms > 0 then s\<lparr>mt_sleeps := mt_sleeps s @ [ms]\<rparr> else s)"

definition summary_object :: "string \<Rightarrow> pyval res \<Rightarrow> fetch_error + pydict" where
  "summary_object why r = (case r of
       Inl e \<Rightarrow> Inl (Other_error e)
     | Inr (PDict d) \<Rightarrow> Inr d
     | Inr v \<Rightarrow> Inl (Other_error (Exn ValueError why)))"

text \<open>\<open>fetch_summary\<close> without and with a file.\<close>

definition fetch_url :: "monitor_args \<Rightarrow> monitor_state \<Rightarrow> (fetch_error + pydict) \<times> monitor_state" where
  "fetch_url A s = (let s' = s\<lparr>mt_requests := mt_requests s + 1\<rparr> in
     case mo_answers A (mt_requests s) of
       Inl e \<Rightarrow> (Inl e, s')
     | Inr body \<Rightarrow> (summary_object ''summary endpoint did not return a JSON object'' (json_loads body), s'))"

definition fetch_file :: "path \<Rightarrow> monitor_state \<Rightarrow> fetch_error + pydict" where
  "fetch_file p s = summary_object ''summary file did not contain a JSON object'' (fst (read_json p (mt_world s)))"

text \<open>\<open>left\<close> is the number of attempts after this one.\<close>

fun fetch_retry :: "monitor_args \<Rightarrow> nat \<Rightarrow> nat \<Rightarrow> monitor_state \<Rightarrow> (fetch_error + pydict) \<times> monitor_state" where
  "fetch_retry A 0 attempt s = fetch_url A s"
| "fetch_retry A (Suc left) attempt s = (case fetch_url A s of
       (Inr d, s') \<Rightarrow> (Inr d, s')
     | (Inl e, s') \<Rightarrow> (if \<not> is_transient_fetch_error e then (Inl e, s')
         else fetch_retry A left (Suc attempt) (pause (mo_backoff A * 2 ^ attempt) s')))"

definition fetch_summary_with_retry :: "monitor_args \<Rightarrow> int \<Rightarrow> monitor_state \<Rightarrow> (fetch_error + pydict) \<times> monitor_state" where
  "fetch_summary_with_retry A retries s = (case mo_summary_file A of
       Some p \<Rightarrow> (fetch_file p s, s)
     | None \<Rightarrow> fetch_retry A (nat (max 1 retries) - 1) 0 s)"

section \<open>Issues\<close>

definition mon_issue :: "string \<Rightarrow> string \<Rightarrow> pydict \<Rightarrow> pydict" where
  "mon_issue code message details = [(''code'', PStr code), (''message'', PStr message)] @ filter (\<lambda>(k, v). v \<noteq> PNone) details"

text \<open>\<open>v in {...}\<close> for a set of strings: a list or an object cannot be hashed.\<close>

definition in_names :: "pyval \<Rightarrow> string list \<Rightarrow> bool res" where
  "in_names v names = (case v of
       PStr s \<Rightarrow> Inr (s \<in> set names)
     | PList xs \<Rightarrow> Inl (Exn TypeError (''unhashable type: '' @ in_quotes ''list''))
     | PDict d \<Rightarrow> Inl (Exn TypeError (''unhashable type: '' @ in_quotes ''dict''))
     | _ \<Rightarrow> Inr False)"

definition int_or_zero :: "pyval \<Rightarrow> int" where
  "int_or_zero v = (case py_int (por v (PInt 0)) of Inr n \<Rightarrow> n | Inl e \<Rightarrow> 0)"

text \<open>\<open>isinstance(v, int) and v > n\<close>.\<close>

definition int_above :: "pyval \<Rightarrow> int \<Rightarrow> bool" where
  "int_above v n = (case v of PInt k \<Rightarrow> k > n | PBool b \<Rightarrow> (if b then 1 else 0) > n | _ \<Rightarrow> False)"

definition name_or :: "pydict \<Rightarrow> string list \<Rightarrow> string \<Rightarrow> string" where
  "name_or d keys otherwise = py_str (foldr (\<lambda>k v. por (dget d k) v) keys (PStr otherwise))"

datatype severity = Alert | Warning | Note

record issues =
  il_alerts :: "pydict list"
  il_warnings :: "pydict list"
  il_info :: "pydict list"

fun add_issue :: "severity \<Rightarrow> pydict \<Rightarrow> issues \<Rightarrow> issues" where
  "add_issue Alert i L = L\<lparr>il_alerts := il_alerts L @ [i]\<rparr>"
| "add_issue Warning i L = L\<lparr>il_warnings := il_warnings L @ [i]\<rparr>"
| "add_issue Note i L = L\<lparr>il_info := il_info L @ [i]\<rparr>"

definition add_if :: "bool \<Rightarrow> severity \<Rightarrow> pydict \<Rightarrow> issues \<Rightarrow> issues" where
  "add_if b sev i L = (if b then add_issue sev i L else L)"

definition issue_for_operator_top_issue :: "pyval \<Rightarrow> pydict option" where
  "issue_for_operator_top_issue raised = (case raised of
       PDict t \<Rightarrow> (let skill = por (dget t ''skill_id'') (PStr ''unknown skill'') in
         Some (mon_issue ''operator_top_issue'' (name_or t [''peer_name'', ''peer_id''] ''unknown device'' @ '' / '' @ py_str skill @ '' needs review.'')
           [(''peer_id'', dget t ''peer_id''), (''skill_id'', skill), (''status_action'', dget t ''status_action''), (''category'', dget t ''category''),
            (''reason'', dget t ''reason''), (''recommendation'', dget t ''recommendation''), (''action'', dget t ''action''),
            (''command'', dget t ''command'')]))
     | _ \<Rightarrow> None)"

definition alert_categories :: "string list" where
  "alert_categories = [''conflict'', ''delete_review'']"

definition operator_issue_is_alert :: "pydict \<Rightarrow> bool res" where
  "operator_issue_is_alert i = in_names (dget i ''category'') alert_categories"

definition blocked_item_severity :: "pydict \<Rightarrow> severity res" where
  "blocked_item_severity i =
     bindR (in_names (dget i ''category'') alert_categories) (\<lambda>a. if a then Inr Alert
       else bindR (in_names (dget i ''category'') [''writer_policy'', ''new_skill_review'']) (\<lambda>n. Inr (if n then Note else Warning)))"

definition action_for_blocked_item :: "pydict \<Rightarrow> string res" where
  "action_for_blocked_item i =
     (let category = dget i ''category''; status_action = dget i ''status_action'' in
      bindR (in_names category [''delete'', ''delete_review'']) (\<lambda>del.
      if del \<or> status_action = PStr ''local_deleted''
      then Inr (if status_action = PStr ''local_deleted'' then (uni [0x5148, 0x4ECE, 0x5171, 0x4EAB, 0x5E93, 0x627E, 0x56DE, 0x5230, 0x7F3A,
        0x5931, 0x8BBE, 0x5907, 0xFF1B, 0x786E, 0x8BA4, 0x5E9F, 0x5F03, 0x65F6, 0xFF0C, 0x5728, 0x5171, 0x4EAB, 0x5E93, 0x6807, 0x8BB0,
        0x4E0B, 0x67B6] @ ''/'' @ uni [0x8F6F, 0x5220, 0x9664, 0x3002])
        else if status_action = PStr ''remote_deleted'' then uni [0x5148, 0x786E, 0x8BA4, 0x662F, 0x5426, 0x4FDD, 0x7559, 0x672C, 0x673A,
          0x7248, 0x672C, 0xFF1B, 0x9700, 0x8981, 0x4FDD, 0x7559, 0x65F6, 0x91CD, 0x65B0, 0x53D1, 0x5E03, 0xFF0C, 0x786E, 0x9700, 0x7269,
          0x7406, 0x5220, 0x9664, 0x53EA, 0x8D70, 0x4E2D, 0x592E, 0x4ED3, 0x5E93, 0x4E13, 0x95E8, 0x5165, 0x53E3, 0x3002]
        else uni [0x5148, 0x786E, 0x8BA4, 0x8FD9, 0x662F, 0x8BEF, 0x5220, 0x8FD8, 0x662F, 0x5E9F, 0x5F03, 0xFF1B, 0x672A, 0x786E, 0x8BA4,
          0x524D, 0x4E0D, 0x8981, 0x7269, 0x7406, 0x5220, 0x9664, 0x5171, 0x4EAB, 0x5E93, 0x6587, 0x4EF6, 0x3002])
      else if category = PStr ''writer_policy''
      then bindR (in_names status_action [''push'', ''push_new'']) (\<lambda>push. if push
        then Inr ''Review the local device change, then run approved-push for this skill if it should be saved to the shared library.''
        else bindR (in_names status_action [''pull'', ''pull_new'']) (\<lambda>pull. Inr (if pull
          then ''Review the remote change, then run an explicit approved pull/apply path if it should install.''
          else ''Inspect the item and choose explicit approve, defer, or private override.'')))
      else if category = PStr ''conflict'' then Inr ''Generate a conflict package and resolve local/remote/base manually.''
      else if category = PStr ''new_skill_review'' then Inr ''Review the new skill metadata, targets, and safety before allowing it.''
      else Inr ''Inspect the item and choose explicit approve, defer, or private override.''))"

section \<open>The judgement\<close>

definition dashboard_issues :: "pyval \<Rightarrow> pydict option \<Rightarrow> issues \<Rightarrow> issues res" where
  "dashboard_issues health raised L =
     (case raised of
        Some i \<Rightarrow> bindR (operator_issue_is_alert i) (\<lambda>a. Inr (add_issue (if a then Alert else Note) i L))
      | None \<Rightarrow> Inr (
          if health = PStr ''red''
          then add_issue Alert (mon_issue ''dashboard_health'' ''Dashboard health is red.''
            [(''health'', PStr (py_str health)), (''action'', PStr ''Open the blocked queue and device status sections.'')]) L
          else if health = PStr ''yellow''
          then add_issue Note (mon_issue ''dashboard_health'' ''Dashboard has pending review work.''
            [(''health'', PStr (py_str health)), (''action'', PStr ''Open the dashboard when convenient; this is not an incident.'')]) L
          else if health \<noteq> PStr ''green''
          then add_issue Warning (mon_issue ''dashboard_health'' ''Dashboard health is not green.''
            [(''health'', PStr (py_str health)), (''action'', PStr ''Refresh dashboard status and inspect device sections.'')]) L
          else L))"

definition cache_issues :: "pydict \<Rightarrow> int \<Rightarrow> issues \<Rightarrow> issues res" where
  "cache_issues cache stale_after L =
     (let state = dget cache ''state'' in
      bindR (in_names state [''miss'', ''empty'']) (\<lambda>useless. Inr (
        if useless
        then add_issue Alert (mon_issue ''summary_cache'' ''Dashboard summary cache has no usable successful payload.''
          [(''state'', state), (''last_error'', dget cache ''last_error''),
           (''action'', PStr ''Check gateway logs and WebDAV connectivity; /healthz should remain fast while /api/overview recovers.'')]) L
        else add_if (state = PStr ''stale'' \<and> (int_above (dget cache ''age_seconds'') stale_after \<or> truthy (dget cache ''last_error''))) Warning
          (mon_issue ''summary_cache'' ''Dashboard summary is serving stale cached data.''
            [(''state'', state), (''age_seconds'', dget cache ''age_seconds''), (''last_error'', dget cache ''last_error''),
             (''action'', PStr ''Inspect gateway refresh latency and WebDAV/peer-status reads.'')]) L)))"

definition blocked_item_issue :: "pydict \<Rightarrow> string \<Rightarrow> pydict" where
  "blocked_item_issue i action =
     mon_issue ''blocked_item'' (name_or i [''peer_name'', ''peer_id''] ''unknown device'' @ '' / '' @ py_str (dget i ''skill_id'') @ '' is waiting for review.'')
       [(''peer_id'', dget i ''peer_id''), (''skill_id'', dget i ''skill_id''), (''status_action'', dget i ''status_action''),
        (''category'', dget i ''category''), (''reason'', dget i ''reason''), (''recommendation'', dget i ''recommendation''), (''action'', PStr action)]"

definition blocked_item_issues :: "pydict \<Rightarrow> issues \<Rightarrow> issues res" where
  "blocked_item_issues i L =
     bindR (blocked_item_severity i) (\<lambda>sev. bindR (action_for_blocked_item i) (\<lambda>action. Inr (add_issue sev (blocked_item_issue i action) L)))"

definition blocked_issues :: "int \<Rightarrow> pydict list \<Rightarrow> issues \<Rightarrow> issues res" where
  "blocked_issues n items L =
     foldR blocked_item_issues items
       (add_if (n \<noteq> 0) Note (mon_issue ''blocked_queue'' (int_str n @ '' sync item(s) are waiting for explicit review.'')
          [(''count'', PInt n), (''action'', PStr ''Review in the dashboard when convenient; do not send repeated email for normal review work.'')]) L)"

definition total_issues :: "pyval \<Rightarrow> int \<Rightarrow> issues \<Rightarrow> issues" where
  "total_issues amount minimum =
     add_if (int_or_zero amount < minimum) Alert (mon_issue ''canonical_total'' ''Canonical snapshot total is below the expected minimum.''
       [(''total'', amount), (''minimum'', PInt minimum), (''action'', PStr ''Check WebDAV snapshot generation and gateway cache.'')])"

definition device_stale :: "pydict \<Rightarrow> int \<Rightarrow> bool" where
  "device_stale device stale_after = (let freshness = dict_or_empty (dget device ''freshness'') in
     dget freshness ''state'' = PStr ''stale'' \<or> int_above (dget freshness ''age_seconds'') stale_after)"

definition snapshot_differs :: "pydict \<Rightarrow> pyval \<Rightarrow> bool" where
  "snapshot_differs device canonical =
     (truthy canonical \<and> truthy (dget device ''snapshot_id'') \<and> dget device ''snapshot_id'' \<noteq> canonical)"

definition device_health_issue :: "pydict \<Rightarrow> string \<Rightarrow> issues \<Rightarrow> issues res" where
  "device_health_issue device device_id L =
     (let health = dget device ''health''; name = name_or device [''name''] device_id;
          broken = mon_issue ''device_health'' (name @ '' health is '' @ py_str health @ ''.'')
            [(''device_id'', PStr device_id), (''action'', PStr ''Check peer-status publisher and sidecar logs for that device.'')] in
      if health = PStr ''red'' then Inr (add_issue Alert broken L)
      else if health = PStr ''yellow''
      then Inr (add_issue Note (mon_issue ''device_health'' (name @ '' has pending review work.'')
        [(''device_id'', PStr device_id), (''action'', PStr ''Check blocked queue when convenient; this usually means pull-only is protecting a local change.'')]) L)
      else bindR (in_names health [''green'', ''not_configured'']) (\<lambda>fine. Inr (add_if (\<not> fine) Warning broken L)))"

definition inspect_device :: "pyval \<Rightarrow> int \<Rightarrow> pydict \<Rightarrow> issues \<Rightarrow> issues res" where
  "inspect_device canonical stale_after device L =
     (let device_id = py_str (por (dget device ''id'') (PStr [])); name = name_or device [''name''] device_id in
      bindR (device_health_issue device device_id L) (\<lambda>L1. Inr (
        add_if (device_id \<in> set [''mac'', ''oc-vps'', ''openclaw''] \<and> dget device ''health'' = PStr ''not_configured'') Note
          (mon_issue ''device_not_configured'' (name @ '' is not configured.'')
            [(''device_id'', PStr device_id), (''action'', PStr ''Install and publish peer status for this device when it joins the sync ring.'')])
        (add_if (snapshot_differs device canonical) Alert
          (mon_issue ''snapshot_mismatch'' (name @ '' reports a different snapshot.'')
            [(''device_id'', PStr device_id), (''device_snapshot'', dget device ''snapshot_id''), (''canonical_snapshot'', canonical),
             (''action'', PStr ''Run the device sync cycle, adopt base if clean, then publish peer status.'')])
        (add_if (device_stale device stale_after) Alert
          (mon_issue ''device_stale'' (name @ '' status is stale.'')
            [(''device_id'', PStr device_id), (''age_seconds'', dget (dict_or_empty (dget device ''freshness'')) ''age_seconds''),
             (''action'', PStr ''Run the device peer-status publisher or inspect its scheduler.'')]) L1)))))"

definition active_ids :: "string list" where
  "active_ids = [''gateway'', ''mac'', ''oc-vps'', ''openclaw'']"

definition active_devices :: "pydict list \<Rightarrow> pydict list res" where
  "active_devices devices =
     foldR (\<lambda>d acc. bindR (in_names (dget d ''id'') active_ids) (\<lambda>b. Inr (if b then acc @ [d] else acc))) devices []"

definition tools_issue :: "pydict \<Rightarrow> issues \<Rightarrow> issues" where
  "tools_issue tools L = (let device_id = py_str (por (dget tools ''device_id'') (PStr [])) in
     add_if (device_id \<in> set [''mac'', ''oc-vps'', ''openclaw''] \<and> dget tools ''reported'' \<noteq> PBool True) Note
       (mon_issue ''device_tools_missing'' (name_or tools [''device_name''] device_id @ '' has not reported tools[].'')
         [(''device_id'', PStr device_id),
          (''action'', PStr ''Publish peer-status v1 from that device agent when installing or repairing the agent; do not send repeated email.'')]) L)"

definition default_next_action :: "issues \<Rightarrow> string" where
  "default_next_action L =
     (case il_alerts L @ il_warnings L of
        i # rest \<Rightarrow> (if truthy (dget i ''action'') then py_str (dget i ''action'')
          else if il_alerts L \<noteq> [] then ''Inspect alerts before applying or publishing any skill changes.''
          else ''Review warnings; continue only after the queue is understood.'')
      | [] \<Rightarrow> ''Continue observing Mac / OpenClaw automatic cycles.'')"

definition device_brief :: "pydict \<Rightarrow> pydict" where
  "device_brief d =
     map (\<lambda>k. (k, dget d k)) [''id'', ''name'', ''health'', ''skills'', ''blocked'', ''policy'', ''snapshot_id'']
     @ [(''freshness'', dget (dict_or_empty (dget d ''freshness'')) ''label'')]"

definition dashboard_health :: "pydict \<Rightarrow> pyval" where
  "dashboard_health summary =
     por (dget (dict_or_empty (dget summary ''dashboard'')) ''health'') (por (dget summary ''health'') (PStr ''unknown''))"

definition collect_issues :: "pydict \<Rightarrow> int \<Rightarrow> int \<Rightarrow> issues res" where
  "collect_issues summary stale_after minimum =
     (let dashboard = dict_or_empty (dget summary ''dashboard''); operator = dict_or_empty (dget dashboard ''operator'');
          remote = dict_or_empty (dget summary ''remote_snapshot'') in
      bindR (dashboard_issues (dashboard_health summary) (issue_for_operator_top_issue (dget operator ''top_issue''))
        \<lparr>il_alerts = [], il_warnings = [], il_info = []\<rparr>) (\<lambda>L1.
      bindR (cache_issues (dict_or_empty (dget summary ''summary_cache'')) stale_after L1) (\<lambda>L2.
      bindR (blocked_issues (int_or_zero (dget dashboard ''blocked'')) (only_dicts (list_or_empty (dget dashboard ''blocked_items''))) L2) (\<lambda>L3.
      bindR (active_devices (only_dicts (list_or_empty (dget dashboard ''devices'')))) (\<lambda>active.
      bindR (foldR (inspect_device (dget remote ''snapshot_id'') stale_after) active (total_issues (dget remote ''total'') minimum L3)) (\<lambda>L4.
      Inr (fold tools_issue (only_dicts (list_or_empty (dget dashboard ''device_tools''))) L4)))))))"

definition all_clear :: "issues \<Rightarrow> issues" where
  "all_clear L = add_if (il_alerts L = [] \<and> il_warnings L = []) Note (mon_issue ''all_clear'' ''Skill Sync is green; no operator action required.'' []) L"

definition report_health :: "issues \<Rightarrow> string" where
  "report_health L = (if il_alerts L \<noteq> [] then ''red'' else if il_warnings L \<noteq> [] then ''yellow'' else ''green'')"

definition issue_fields :: "issues \<Rightarrow> pydict" where
  "issue_fields L = [(''alerts'', PList (map PDict (il_alerts L))), (''warnings'', PList (map PDict (il_warnings L))), (''info'', PList (map PDict (il_info L)))]"

definition build_monitor_report :: "pydict \<Rightarrow> int \<Rightarrow> int \<Rightarrow> string \<Rightarrow> pydict res" where
  "build_monitor_report summary stale_after minimum now =
     bindR (collect_issues summary stale_after minimum) (\<lambda>L.
       let dashboard = dict_or_empty (dget summary ''dashboard''); operator = dict_or_empty (dget dashboard ''operator'');
           remote = dict_or_empty (dget summary ''remote_snapshot''); L' = all_clear L;
           briefs = (\<lambda>k. PList (map (PDict \<circ> device_brief) (only_dicts (list_or_empty (dget dashboard k))))) in
       Inr ([(''ok'', PBool (il_alerts L' = [])), (''record_type'', PStr ''skill-sync-monitor-report''), (''checked_at'', PStr now),
         (''health'', PStr (report_health L')), (''dashboard_health'', dashboard_health summary), (''headline'', dget operator ''headline''),
         (''next_action'', por (dget operator ''next_action'') (PStr (default_next_action L'))),
         (''blocked'', PInt (int_or_zero (dget dashboard ''blocked''))), (''snapshot_id'', dget remote ''snapshot_id''),
         (''canonical_total'', dget remote ''total''), (''devices'', briefs ''devices''), (''deferred_devices'', briefs ''planned_devices'')]
         @ issue_fields L'))"

section \<open>Reports of a failed fetch\<close>

definition fetch_report :: "bool \<Rightarrow> string \<Rightarrow> string \<Rightarrow> issues \<Rightarrow> pydict" where
  "fetch_report ok now health L =
     [(''ok'', PBool ok), (''record_type'', PStr ''skill-sync-monitor-report''), (''checked_at'', PStr now), (''health'', PStr health),
      (''dashboard_health'', PStr ''unknown''), (''blocked'', PNone), (''snapshot_id'', PNone), (''canonical_total'', PNone)] @ issue_fields L"

definition build_fetch_error_report :: "fetch_error \<Rightarrow> string \<Rightarrow> pydict" where
  "build_fetch_error_report e now = fetch_report False now ''red''
     \<lparr>il_alerts = [mon_issue ''summary_fetch_failed'' (''Could not read dashboard summary: '' @ fetch_error_text e)
        [(''action'', PStr ''Check the gateway URL, network path, and container logs.'')]], il_warnings = [], il_info = []\<rparr>"

definition build_transient_fetch_report :: "fetch_error \<Rightarrow> int \<Rightarrow> int \<Rightarrow> string \<Rightarrow> pydict" where
  "build_transient_fetch_report e failures threshold now = fetch_report True now ''yellow''
     \<lparr>il_alerts = [], il_warnings = [mon_issue ''summary_fetch_transient''
        (''Dashboard summary fetch failed transiently ('' @ int_str failures @ ''/'' @ int_str threshold @ ''); likely a deploy or ''
          @ ''startup window. Ignored, waiting for the next poll: '' @ fetch_error_text e)
        [(''action'', PStr ''No action needed unless failures persist past the alert threshold.'')]], il_info = []\<rparr>"

definition monitor_once :: "monitor_args \<Rightarrow> monitor_state \<Rightarrow> pydict res \<times> monitor_state" where
  "monitor_once A s = (case fetch_summary_with_retry A (mo_retries A) s of
       (Inl e, s') \<Rightarrow> (Inr (build_fetch_error_report e (mo_now A (mt_count s))), s')
     | (Inr summary, s') \<Rightarrow> (build_monitor_report summary (mo_stale_after A) (mo_minimum A) (mo_now A (mt_count s)), s'))"

section \<open>Texts\<close>

definition report_items :: "pydict \<Rightarrow> string \<Rightarrow> pydict list" where
  "report_items report k = only_dicts (list_or_empty (dget report k))"

definition report_len :: "pydict \<Rightarrow> string \<Rightarrow> string" where
  "report_len report k = int_str (int (length (list_or_empty (dget report k))))"

definition shown :: "pydict \<Rightarrow> string \<Rightarrow> string" where
  "shown d k = py_str (dget d k)"

definition render_item :: "pydict \<Rightarrow> string list" where
  "render_item i = (''- ['' @ shown i ''code'' @ ''] '' @ shown i ''message'')
     # map (\<lambda>k. ''  '' @ k @ '': '' @ shown i k) (filter (\<lambda>k. truthy (dget i k))
         [''device_id'', ''peer_id'', ''skill_id'', ''status_action'', ''category'', ''reason'', ''recommendation'', ''action'', ''command''])"

definition render_section :: "pydict \<Rightarrow> string \<times> string \<Rightarrow> string list" where
  "render_section report tk = (case tk of (title, k) \<Rightarrow>
     if list_or_empty (dget report k) = [] then [] else [[], title] @ concat (map render_item (report_items report k)))"

definition render_monitor_report :: "pydict \<Rightarrow> string" where
  "render_monitor_report report =
     join_str newline ([''Skill Sync Monitor'', ''health: '' @ shown report ''health'', ''dashboard_health: '' @ shown report ''dashboard_health'',
       ''snapshot: '' @ shown report ''snapshot_id'' @ '' total='' @ shown report ''canonical_total'', ''blocked: '' @ shown report ''blocked'',
       ''alerts: '' @ report_len report ''alerts'', ''warnings: '' @ report_len report ''warnings'']
       @ concat (map (render_section report) [(''Alerts'', ''alerts''), (''Warnings'', ''warnings''), (''Info'', ''info'')]))"

definition upper_char :: "char \<Rightarrow> char" where
  "upper_char c = (if is_lower_alpha c then char_of ((of_char c :: nat) - 32) else c)"

definition upper :: "string \<Rightarrow> string" where
  "upper s = map upper_char s"

definition format_device_brief :: "pydict \<Rightarrow> string" where
  "format_device_brief d = join_str ''/''
     ([name_or d [''id''] ''unknown'', name_or d [''health''] ''unknown'']
      @ (if dget d ''skills'' \<noteq> PNone then [''skills='' @ shown d ''skills''] else [])
      @ (if dget d ''blocked'' \<noteq> PNone then [''blocked='' @ shown d ''blocked''] else [])
      @ (if truthy (dget d ''freshness'') then [''fresh='' @ shown d ''freshness''] else []))"

definition format_deferred_device :: "pydict \<Rightarrow> string" where
  "format_deferred_device d = name_or d [''id''] ''unknown'' @ ''='' @ name_or d [''policy'', ''health''] ''deferred''"

definition brief_issue_lines :: "pydict \<Rightarrow> string list" where
  "brief_issue_lines i =
     [''top_issue: ['' @ shown i ''code'' @ ''] '' @ shown i ''message'']
     @ (if truthy (dget i ''command'') then [''command: '' @ shown i ''command''] else [])
     @ (if truthy (dget i ''action'') then [''next: '' @ shown i ''action''] else [])"

definition render_monitor_brief :: "pydict \<Rightarrow> string res" where
  "render_monitor_brief report =
     (let alerts = list_or_empty (dget report ''alerts''); warnings = list_or_empty (dget report ''warnings'');
          info_items = report_items report ''info''; tracking = list_ex (\<lambda>i. dget i ''code'' \<noteq> PStr ''all_clear'') info_items;
          verdict = (if alerts \<noteq> [] then ''ACTION REQUIRED'' else if warnings \<noteq> [] then ''REVIEW NEEDED''
            else if tracking then ''TRACKING ONLY'' else ''NO ACTION'');
          deferred = list_or_empty (dget report ''deferred_devices'') in
      bindR (active_devices (report_items report ''devices'')) (\<lambda>active. Inr (join_str newline (
        [''Skill Sync: '' @ upper (name_or report [''health''] ''unknown'') @ '' - '' @ verdict,
         ''snapshot: '' @ shown report ''snapshot_id'' @ '' total='' @ shown report ''canonical_total'' @ '' blocked='' @ shown report ''blocked'']
        @ (if active \<noteq> [] then [''devices: '' @ join_str ''; '' (map format_device_brief active)] else [])
        @ (if deferred \<noteq> [] then [''deferred: '' @ join_str ''; '' (map format_deferred_device (only_dicts deferred))] else [])
        @ (if alerts \<noteq> [] \<or> warnings \<noteq> [] \<or> tracking
           then (case (if alerts \<noteq> [] then alerts else if warnings \<noteq> [] then warnings else map PDict info_items) of
               PDict i # rest \<Rightarrow> brief_issue_lines i | _ \<Rightarrow> [])
           else [''next: '' @ name_or report [''next_action''] ''Continue observing Mac / OpenClaw automatic cycles.''])))))"

section \<open>Writing and the loop\<close>

definition monitor_event :: "pydict \<Rightarrow> pydict" where
  "monitor_event report =
     map (\<lambda>k. (k, dget report k)) [''checked_at'', ''health'', ''dashboard_health'', ''snapshot_id'', ''blocked'']
     @ [(''alerts'', PInt (int (length (list_or_empty (dget report ''alerts''))))),
        (''warnings'', PInt (int (length (list_or_empty (dget report ''warnings'')))))]"

definition append_text :: "path \<Rightarrow> string \<Rightarrow> unit io" where
  "append_text p s = bindI (askI (\<lambda>w. case at w p of Some (NFile (Raw old)) \<Rightarrow> old | _ \<Rightarrow> [])) (\<lambda>old. write_data p (Raw (old @ s)))"

definition write_monitor_report :: "host \<Rightarrow> pydict \<Rightarrow> path \<Rightarrow> pydict io" where
  "write_monitor_report H report out =
     (let json_path = out @ [''last-report.json'']; text_path = out @ [''last-report.txt'']; events_path = out @ [''events.jsonl''] in
      thenI (mkdirs out)
      (thenI (write_data json_path (Json (PDict report)))
      (thenI (write_data text_path (Raw (render_monitor_report report @ newline)))
      (thenI (append_text events_path (h_dumps H (PDict (monitor_event report)) @ newline))
        (returnI [(''out_dir'', PStr (path_str out)), (''json'', PStr (path_str json_path)), (''text'', PStr (path_str text_path)),
          (''events'', PStr (path_str events_path))])))))"

text \<open>The report of one poll, and the number of failures in a row after it.\<close>

definition poll_report :: "monitor_args \<Rightarrow> fetch_error + pydict \<Rightarrow> monitor_state \<Rightarrow> pydict res \<times> int" where
  "poll_report A fetched s = (case fetched of
       Inl e \<Rightarrow> (let n = mt_failures s + 1; now = mo_now A (mt_count s) in
         (Inr (if n \<ge> mo_threshold A then build_fetch_error_report e now else build_transient_fetch_report e n (mo_threshold A) now), n))
     | Inr summary \<Rightarrow> (build_monitor_report summary (mo_stale_after A) (mo_minimum A) (mo_now A (mt_count s)), 0))"

definition monitor_turn :: "monitor_args \<Rightarrow> (monitor_state, pydict) act" where
  "monitor_turn A s = (case fetch_summary_with_retry A (mo_retries A) s of (fetched, s1) \<Rightarrow>
     case poll_report A fetched s1 of
       (Inl e, n) \<Rightarrow> (Inl e, s1\<lparr>mt_failures := n\<rparr>)
     | (Inr report, n) \<Rightarrow> (case write_monitor_report (mo_host A) report (mo_out A) (mt_world s1) of
           (Inl e, w) \<Rightarrow> (Inl e, s1\<lparr>mt_failures := n, mt_world := w\<rparr>)
         | (Inr paths, w) \<Rightarrow>
             (Inr (dset report ''paths'' (PDict paths)), s1\<lparr>mt_failures := n, mt_world := w, mt_count := mt_count s1 + 1\<rparr>)))"

definition monitor_ends :: "monitor_args \<Rightarrow> monitor_state \<Rightarrow> bool" where
  "monitor_ends A s = (case mo_max A of Some m \<Rightarrow> int (mt_count s) \<ge> m | None \<Rightarrow> False)"

partial_function (option) monitor_loop :: "monitor_args \<Rightarrow> monitor_state \<Rightarrow> (pydict res \<times> monitor_state) option" where
  "monitor_loop A s = (case monitor_turn A s of
       (Inl e, s') \<Rightarrow> Some (Inl e, s')
     | (Inr report, s') \<Rightarrow> (if monitor_ends A s' then Some (Inr report, s') else monitor_loop A (pause (max 1000 (mo_interval A)) s')))"

definition run_monitor_loop :: "monitor_args \<Rightarrow> world \<Rightarrow> (pydict res \<times> monitor_state) option" where
  "run_monitor_loop A w = monitor_loop A \<lparr>mt_world = w, mt_requests = 0, mt_sleeps = [], mt_failures = 0, mt_count = 0\<rparr>"

end
