(* ===== verification/MonitorSafe.thy ===== *)
theory MonitorSafe
  imports Monitor Config
begin

text \<open>
  What the monitor promises: a fetch makes a bounded number of requests and repeats only what may pass; a report
  is red exactly for an incident; a dashboard that cannot be read is an incident only after enough polls in a
  row have failed; and a bounded loop ends.
\<close>

section \<open>Fetching\<close>

text \<open>The delays of a fetch that made \<open>k\<close> requests: they double.\<close>

definition backoffs :: "int \<Rightarrow> nat \<Rightarrow> nat \<Rightarrow> int list" where
  "backoffs b attempt n = filter (\<lambda>ms. ms > 0) (map (\<lambda>i. b * 2 ^ (attempt + i)) [0..<n])"

lemma backoffs_Suc: "backoffs b attempt (Suc n) = (if b > 0 then [b * 2 ^ attempt] else []) @ backoffs b (Suc attempt) n"
proof -
  have "[0..<Suc n] = 0 # map Suc [0..<n]" by (simp add: map_Suc_upt upt_conv_Cons)
  then show ?thesis unfolding backoffs_def by (auto simp: zero_less_mult_iff comp_def)
qed

lemma fetch_url_state:
  "fetch_url A s = (r, s') \<Longrightarrow> s' = s\<lparr>mt_requests := Suc (mt_requests s)\<rparr>"
  by (auto simp: fetch_url_def Let_def split: sum.splits)

lemma pause_fields [simp]: "mt_requests (pause ms s) = mt_requests s" "mt_failures (pause ms s) = mt_failures s" "mt_count (pause ms s) = mt_count s"
  "mt_world (pause ms s) = mt_world s" "mt_sleeps (pause ms s) = mt_sleeps s @ (if ms > 0 then [ms] else [])"
  by (simp_all add: pause_def)

lemma fetch_retry_counts:
  assumes "fetch_retry A left attempt s = (r, s')"
  shows "\<exists>k. 1 \<le> k \<and> k \<le> Suc left \<and> mt_requests s' = mt_requests s + k \<and> mt_sleeps s' = mt_sleeps s @ backoffs (mo_backoff A) attempt (k - 1)
    \<and> (\<forall>e. r = Inl e \<longrightarrow> k = Suc left \<or> \<not> is_transient_fetch_error e)
    \<and> mt_failures s' = mt_failures s \<and> mt_count s' = mt_count s \<and> mt_world s' = mt_world s"
  using assms
proof (induction left arbitrary: attempt s)
  case 0
  then show ?case by (intro exI [of _ 1]) (auto dest!: fetch_url_state simp: backoffs_def)
next
  case (Suc left)
  obtain r1 s1 where f: "fetch_url A s = (r1, s1)" by (metis surj_pair)
  note s1 = fetch_url_state [OF f]
  show ?case
  proof (cases "\<exists>e. r1 = Inl e \<and> is_transient_fetch_error e")
    case True
    with Suc.prems f have "fetch_retry A left (Suc attempt) (pause (mo_backoff A * 2 ^ attempt) s1) = (r, s')" by auto
    from Suc.IH [OF this] obtain k where k: "1 \<le> k" "k \<le> Suc left" "mt_requests s' = mt_requests s1 + k"
      "mt_sleeps s' = (mt_sleeps s1 @ (if mo_backoff A * 2 ^ attempt > 0 then [mo_backoff A * 2 ^ attempt] else [])) @ backoffs (mo_backoff A) (Suc attempt) (k - 1)"
      "\<forall>e. r = Inl e \<longrightarrow> k = Suc left \<or> \<not> is_transient_fetch_error e"
      "mt_failures s' = mt_failures s1 \<and> mt_count s' = mt_count s1 \<and> mt_world s' = mt_world s1" by auto
    have "backoffs (mo_backoff A) attempt (Suc (k - 1)) = (if mo_backoff A * 2 ^ attempt > 0 then [mo_backoff A * 2 ^ attempt] else [])
        @ backoffs (mo_backoff A) (Suc attempt) (k - 1)" by (simp add: backoffs_Suc zero_less_mult_iff)
    with k s1 show ?thesis by (intro exI [of _ "Suc k"]) auto
  next
    case False
    with Suc.prems f s1 show ?thesis by (intro exI [of _ 1]) (auto simp: backoffs_def split: sum.splits)
  qed
qed

text \<open>C32: A fetch over the network makes at least one request and at most as many as it was given attempts, with delays
  that double between them; it gives up early only on an error that is not transient. A fetch from a file
  makes none.\<close>
theorem a_fetch_is_bounded:
  assumes "fetch_summary_with_retry A retries s = (r, s')"
  shows "if mo_summary_file A \<noteq> None then s' = s
    else \<exists>k. 1 \<le> k \<and> int k \<le> max 1 retries \<and> mt_requests s' = mt_requests s + k \<and> mt_sleeps s' = mt_sleeps s @ backoffs (mo_backoff A) 0 (k - 1)
      \<and> (\<forall>e. r = Inl e \<longrightarrow> int k = max 1 retries \<or> \<not> is_transient_fetch_error e)"
proof (cases "mo_summary_file A")
  case None
  with assms have "fetch_retry A (nat (max 1 retries) - 1) 0 s = (r, s')" by (simp add: fetch_summary_with_retry_def)
  from fetch_retry_counts [OF this] obtain k where "1 \<le> k" "k \<le> Suc (nat (max 1 retries) - 1)" "mt_requests s' = mt_requests s + k"
    "mt_sleeps s' = mt_sleeps s @ backoffs (mo_backoff A) 0 (k - 1)"
    "\<forall>e. r = Inl e \<longrightarrow> k = Suc (nat (max 1 retries) - 1) \<or> \<not> is_transient_fetch_error e" by blast
  moreover have "int (Suc (nat (max 1 retries) - 1)) = max 1 retries" by simp
  ultimately have "1 \<le> k \<and> int k \<le> max 1 retries \<and> mt_requests s' = mt_requests s + k \<and> mt_sleeps s' = mt_sleeps s @ backoffs (mo_backoff A) 0 (k - 1)
      \<and> (\<forall>e. r = Inl e \<longrightarrow> int k = max 1 retries \<or> \<not> is_transient_fetch_error e)" by (metis of_nat_mono)
  with None show ?thesis by auto
qed (use assms in \<open>simp add: fetch_summary_with_retry_def\<close>)

section \<open>Incidents\<close>

definition bad_category :: "pydict \<Rightarrow> bool" where
  "bad_category i = (\<exists>c \<in> set alert_categories. dget i ''category'' = PStr c)"

definition bad_device :: "pyval \<Rightarrow> int \<Rightarrow> pydict \<Rightarrow> bool" where
  "bad_device canonical stale_after d =
     ((\<exists>i \<in> set active_ids. dget d ''id'' = PStr i) \<and> (dget d ''health'' = PStr ''red'' \<or> device_stale d stale_after \<or> snapshot_differs d canonical))"

definition incident :: "pydict \<Rightarrow> int \<Rightarrow> int \<Rightarrow> bool" where
  "incident summary stale_after minimum =
     (let dashboard = dict_or_empty (dget summary ''dashboard''); remote = dict_or_empty (dget summary ''remote_snapshot'') in
      (case dget (dict_or_empty (dget dashboard ''operator'')) ''top_issue'' of
         PDict t \<Rightarrow> bad_category t
       | _ \<Rightarrow> dashboard_health summary = PStr ''red'')
      \<or> (\<exists>c \<in> {''miss'', ''empty''}. dget (dict_or_empty (dget summary ''summary_cache'')) ''state'' = PStr c)
      \<or> (\<exists>i \<in> set (only_dicts (list_or_empty (dget dashboard ''blocked_items''))). bad_category i)
      \<or> int_or_zero (dget remote ''total'') < minimum
      \<or> (\<exists>d \<in> set (only_dicts (list_or_empty (dget dashboard ''devices''))). bad_device (dget remote ''snapshot_id'') stale_after d))"

lemma in_names_Inr: "in_names v names = Inr b \<Longrightarrow> b = (\<exists>n \<in> set names. v = PStr n)"
  by (auto simp: in_names_def split: pyval.splits)

lemma add_issue_alerts [simp]: "il_alerts (add_issue sev i L) = [] \<longleftrightarrow> il_alerts L = [] \<and> sev \<noteq> Alert"
  by (cases sev) auto

lemma add_if_alerts [simp]: "il_alerts (add_if b sev i L) = [] \<longleftrightarrow> il_alerts L = [] \<and> (b \<longrightarrow> sev \<noteq> Alert)"
  by (simp add: add_if_def)

lemma add_if_note [simp]: "il_alerts (add_if b Note i L) = il_alerts L"
  by (simp add: add_if_def)

lemma dget_given:
  "distinct (map fst d) \<Longrightarrow> dget (filter (\<lambda>(k, v). v \<noteq> PNone) d) k = dget d k"
proof (induction d)
  case (Cons kv d)
  have "k \<notin> set (map fst d) \<Longrightarrow> dget (filter (\<lambda>(k, v). v \<noteq> PNone) d) k = PNone"
    by (induction d) (auto simp: dget_def dget_or_def split: if_splits)
  with Cons show ?case by (cases kv) (auto simp: dget_def dget_or_def split: if_splits)
qed simp

lemma mon_issue_field:
  "distinct (map fst details) \<Longrightarrow> k \<notin> {''code'', ''message''} \<Longrightarrow> dget (mon_issue code message details) k = dget details k"
  using dget_given [of details k] by (simp add: mon_issue_def dget_def dget_or_def)

lemma top_issue_category:
  assumes "issue_for_operator_top_issue (PDict t) = Some i" shows "dget i ''category'' = dget t ''category''"
proof -
  obtain m a b c e f g h where "i = mon_issue ''operator_top_issue'' m [(''peer_id'', a), (''skill_id'', b), (''status_action'', c),
      (''category'', dget t ''category''), (''reason'', e), (''recommendation'', f), (''action'', g), (''command'', h)]"
    using assms by (auto simp: issue_for_operator_top_issue_def Let_def)
  then have "dget i ''category'' = dget [(''peer_id'', a), (''skill_id'', b), (''status_action'', c), (''category'', dget t ''category''),
      (''reason'', e), (''recommendation'', f), (''action'', g), (''command'', h)] ''category''" by (simp only:) (rule mon_issue_field, simp_all)
  then show ?thesis by simp
qed

lemma dashboard_issues_alerts:
  assumes "dashboard_issues health (issue_for_operator_top_issue v) L = Inr L'"
  shows "il_alerts L' \<noteq> [] \<longleftrightarrow> il_alerts L \<noteq> [] \<or> (case v of PDict t \<Rightarrow> bad_category t | _ \<Rightarrow> health = PStr ''red'')"
proof (cases "\<exists>t. v = PDict t")
  case True
  then obtain t i where t: "v = PDict t" "issue_for_operator_top_issue v = Some i" by (auto simp: issue_for_operator_top_issue_def Let_def)
  with assms obtain a where "operator_issue_is_alert i = Inr a" "L' = add_issue (if a then Alert else Note) i L" by (auto simp: dashboard_issues_def)
  with t top_issue_category [of t i] show ?thesis by (auto simp: operator_issue_is_alert_def bad_category_def dest!: in_names_Inr)
next
  case False
  then have "issue_for_operator_top_issue v = None" by (cases v) (auto simp: issue_for_operator_top_issue_def)
  with assms False show ?thesis by (auto simp: dashboard_issues_def split: if_splits pyval.splits)
qed

lemma cache_issues_alerts:
  assumes "cache_issues cache stale_after L = Inr L'"
  shows "il_alerts L' \<noteq> [] \<longleftrightarrow> il_alerts L \<noteq> [] \<or> (\<exists>c \<in> {''miss'', ''empty''}. dget cache ''state'' = PStr c)"
proof -
  obtain u where u: "in_names (dget cache ''state'') [''miss'', ''empty''] = Inr u" using assms by (auto simp: cache_issues_def Let_def)
  with in_names_Inr [OF u] assms show ?thesis by (cases u) (auto simp: cache_issues_def Let_def)
qed

lemma blocked_item_alerts:
  "blocked_item_issues i L = Inr L' \<Longrightarrow> il_alerts L' \<noteq> [] \<longleftrightarrow> il_alerts L \<noteq> [] \<or> bad_category i"
  by (auto simp: blocked_item_issues_def blocked_item_severity_def bad_category_def dest!: in_names_Inr split: if_splits)

lemma blocked_issues_alerts:
  assumes "blocked_issues n items L = Inr L'"
  shows "il_alerts L' \<noteq> [] \<longleftrightarrow> il_alerts L \<noteq> [] \<or> (\<exists>i \<in> set items. bad_category i)"
proof -
  have "foldR blocked_item_issues items M = Inr L' \<Longrightarrow> il_alerts L' \<noteq> [] \<longleftrightarrow> il_alerts M \<noteq> [] \<or> (\<exists>i \<in> set items. bad_category i)" for M
    by (induction items arbitrary: M) (auto dest: blocked_item_alerts)
  from this [OF assms [unfolded blocked_issues_def]] show ?thesis by simp
qed

lemma device_health_alerts:
  "device_health_issue device device_id L = Inr L' \<Longrightarrow> il_alerts L' \<noteq> [] \<longleftrightarrow> il_alerts L \<noteq> [] \<or> dget device ''health'' = PStr ''red''"
  by (auto simp: device_health_issue_def Let_def split: if_splits)

lemma inspect_device_alerts:
  assumes "inspect_device canonical stale_after device L = Inr L'"
  shows "il_alerts L' \<noteq> [] \<longleftrightarrow> il_alerts L \<noteq> [] \<or> dget device ''health'' = PStr ''red'' \<or> device_stale device stale_after \<or> snapshot_differs device canonical"
proof -
  obtain M where M: "device_health_issue device (py_str (por (dget device ''id'') (PStr []))) L = Inr M" using assms by (auto simp: inspect_device_def Let_def)
  with assms obtain b i j k where "L' = add_if b Note i (add_if (snapshot_differs device canonical) Alert j (add_if (device_stale device stale_after) Alert k M))"
    by (auto simp: inspect_device_def Let_def)
  then show ?thesis using device_health_alerts [OF M] by simp
qed

lemma devices_alerts:
  "foldR (inspect_device canonical stale_after) ds L = Inr L' \<Longrightarrow> il_alerts L' \<noteq> []
    \<longleftrightarrow> il_alerts L \<noteq> [] \<or> (\<exists>d \<in> set ds. dget d ''health'' = PStr ''red'' \<or> device_stale d stale_after \<or> snapshot_differs d canonical)"
  by (induction ds arbitrary: L) (auto dest: inspect_device_alerts)

lemma active_devices_set:
  assumes "active_devices ds = Inr active"
  shows "set active = {d \<in> set ds. \<exists>i \<in> set active_ids. dget d ''id'' = PStr i}"
proof -
  have "foldR (\<lambda>d acc. bindR (in_names (dget d ''id'') active_ids) (\<lambda>b. Inr (if b then acc @ [d] else acc))) ds acc = Inr active
    \<Longrightarrow> set active = set acc \<union> {d \<in> set ds. \<exists>i \<in> set active_ids. dget d ''id'' = PStr i}" for acc
    by (induction ds arbitrary: acc) (auto dest!: in_names_Inr split: if_splits)
  from this [OF assms [unfolded active_devices_def]] show ?thesis by simp
qed

lemma tools_issue_alerts [simp]: "il_alerts (fold tools_issue ds L) = il_alerts L"
  by (induction ds arbitrary: L) (simp_all add: tools_issue_def Let_def)

lemma total_issues_alerts [simp]: "il_alerts (total_issues v minimum L) \<noteq> [] \<longleftrightarrow> il_alerts L \<noteq> [] \<or> int_or_zero v < minimum"
  by (simp add: total_issues_def)

lemma collected_alerts:
  assumes "collect_issues summary stale_after minimum = Inr L"
  shows "il_alerts L \<noteq> [] \<longleftrightarrow> incident summary stale_after minimum"
proof -
  let ?dash = "dict_or_empty (dget summary ''dashboard'')" and ?remote = "dict_or_empty (dget summary ''remote_snapshot'')"
  let ?blocked = "only_dicts (list_or_empty (dget ?dash ''blocked_items''))" and ?devices = "only_dicts (list_or_empty (dget ?dash ''devices''))"
  obtain L1 L2 L3 active L4 where
    c: "dashboard_issues (dashboard_health summary) (issue_for_operator_top_issue (dget (dict_or_empty (dget ?dash ''operator'')) ''top_issue''))
        \<lparr>il_alerts = [], il_warnings = [], il_info = []\<rparr> = Inr L1"
      "cache_issues (dict_or_empty (dget summary ''summary_cache'')) stale_after L1 = Inr L2"
      "blocked_issues (int_or_zero (dget ?dash ''blocked'')) ?blocked L2 = Inr L3" "active_devices ?devices = Inr active"
      "foldR (inspect_device (dget ?remote ''snapshot_id'') stale_after) active (total_issues (dget ?remote ''total'') minimum L3) = Inr L4"
      "L = fold tools_issue (only_dicts (list_or_empty (dget ?dash ''device_tools''))) L4"
    using assms unfolding collect_issues_def Let_def by (simp only: bindR_Inr_iff Inr_inject) blast
  have d: "(\<exists>d \<in> set active. dget d ''health'' = PStr ''red'' \<or> device_stale d stale_after \<or> snapshot_differs d (dget ?remote ''snapshot_id''))
      \<longleftrightarrow> (\<exists>d \<in> set ?devices. bad_device (dget ?remote ''snapshot_id'') stale_after d)"
    unfolding active_devices_set [OF c(4)] bad_device_def by blast
  show ?thesis
    unfolding incident_def Let_def c(6) tools_issue_alerts devices_alerts [OF c(5)] d total_issues_alerts blocked_issues_alerts [OF c(3)]
      cache_issues_alerts [OF c(2)] dashboard_issues_alerts [OF c(1)] by simp
qed

text \<open>C30: A report is red, and not ok, exactly when there is an incident: a conflict or a deletion that waits for review, a
  red dashboard without a leading issue, a cache with nothing to serve, a library below its minimum, or a known
  device that is red, stale or on another snapshot. Normal review work never makes it red.\<close>
theorem a_report_is_red_exactly_for_an_incident:
  assumes "build_monitor_report summary stale_after minimum now = Inr report"
  shows "(dget report ''health'' = PStr ''red'') = incident summary stale_after minimum
    \<and> dget report ''ok'' = PBool (\<not> incident summary stale_after minimum)"
proof -
  obtain L where L: "collect_issues summary stale_after minimum = Inr L" using assms by (auto simp: build_monitor_report_def)
  have a: "il_alerts (all_clear L) = il_alerts L" by (simp add: all_clear_def)
  have h: "(report_health M = ''red'') = (il_alerts M \<noteq> [])" for M by (simp add: report_health_def)
  have "dget report ''health'' = PStr (report_health (all_clear L))" "dget report ''ok'' = PBool (il_alerts (all_clear L) = [])"
    using assms L by (auto simp: build_monitor_report_def Let_def)
  then show ?thesis using collected_alerts [OF L] by (auto simp: h a)
qed

section \<open>Polls\<close>

text \<open>A run of the loop as a step relation: the reports of its polls, in order.\<close>

definition monitor_start :: "world \<Rightarrow> monitor_state" where
  "monitor_start w = \<lparr>mt_world = w, mt_requests = 0, mt_sleeps = [], mt_failures = 0, mt_count = 0\<rparr>"

definition waited :: "monitor_args \<Rightarrow> 'a list \<Rightarrow> monitor_state \<Rightarrow> monitor_state" where
  "waited A rs s = (if rs = [] then s else pause (max 1000 (mo_interval A)) s)"

inductive polls :: "monitor_args \<Rightarrow> world \<Rightarrow> pydict list \<Rightarrow> monitor_state \<Rightarrow> bool" for A w where
  start: "polls A w [] (monitor_start w)"
| poll: "polls A w rs s \<Longrightarrow> rs = [] \<or> \<not> monitor_ends A s \<Longrightarrow> monitor_turn A (waited A rs s) = (Inr r, s') \<Longrightarrow> polls A w (rs @ [r]) s'"

text \<open>A report without a count of blocked items is one of a dashboard that could not be read.\<close>

definition unread :: "pydict \<Rightarrow> bool" where
  "unread r = (dget r ''blocked'' = PNone)"

definition failed_in_a_row :: "pydict list \<Rightarrow> int" where
  "failed_in_a_row rs = int (length (takeWhile unread (rev rs)))"

lemma waited_fields [simp]: "mt_failures (waited A rs s) = mt_failures s" "mt_count (waited A rs s) = mt_count s"
  by (simp_all add: waited_def)

lemma fetch_keeps_counters:
  "fetch_summary_with_retry A retries s = (r, s') \<Longrightarrow> mt_failures s' = mt_failures s \<and> mt_count s' = mt_count s"
  using fetch_retry_counts [of A _ 0 s r s'] by (auto simp: fetch_summary_with_retry_def split: option.splits)

lemma poll_report_fields:
  assumes "poll_report A fetched s = (Inr r, n)"
  shows "n = (if unread r then mt_failures s + 1 else 0)" "unread r \<Longrightarrow> dget r ''ok'' = PBool (\<not> n \<ge> mo_threshold A)"
  using assms
  by (auto simp: poll_report_def unread_def Let_def build_fetch_error_report_def build_transient_fetch_report_def fetch_report_def
      build_monitor_report_def split: sum.splits if_splits)

lemma turn_fields:
  assumes "monitor_turn A s = (Inr r, s')"
  shows "mt_failures s' = (if unread r then mt_failures s + 1 else 0)" "unread r \<Longrightarrow> dget r ''ok'' = PBool (\<not> mt_failures s' \<ge> mo_threshold A)"
    "mt_count s' = Suc (mt_count s)"
proof -
  obtain fetched s1 where f: "fetch_summary_with_retry A (mo_retries A) s = (fetched, s1)" by (metis surj_pair)
  obtain r0 n paths w' where t: "poll_report A fetched s1 = (Inr r0, n)" "r = dset r0 ''paths'' (PDict paths)"
    "s' = s1\<lparr>mt_failures := n, mt_world := w', mt_count := mt_count s1 + 1\<rparr>"
    using assms f by (auto simp: monitor_turn_def split: prod.splits sum.splits)
  have u: "unread r = unread r0" "dget r ''ok'' = dget r0 ''ok''" by (simp_all add: t(2) unread_def)
  show "mt_failures s' = (if unread r then mt_failures s + 1 else 0)" "unread r \<Longrightarrow> dget r ''ok'' = PBool (\<not> mt_failures s' \<ge> mo_threshold A)"
    "mt_count s' = Suc (mt_count s)"
    using poll_report_fields [OF t(1)] fetch_keeps_counters [OF f] u t(3) by simp_all
qed

lemma polls_counters:
  "polls A w rs s \<Longrightarrow> mt_failures s = failed_in_a_row rs \<and> mt_count s = length rs"
  by (induction rule: polls.induct) (auto simp: failed_in_a_row_def monitor_start_def dest: turn_fields(1,3))

lemma polls_prefix:
  "polls A w rs s \<Longrightarrow> i \<le> length rs \<Longrightarrow> \<exists>s'. polls A w (take i rs) s'"
proof (induction arbitrary: i rule: polls.induct)
  case start
  then show ?case by (auto intro: polls.start)
next
  case (poll rs s r s')
  show ?case
  proof (cases "i \<le> length rs")
    case True
    with poll.IH [OF True] show ?thesis by simp
  next
    case False
    with poll.prems have "take i (rs @ [r]) = rs @ [r]" by simp
    moreover have "polls A w (rs @ [r]) s'" using poll.hyps by (rule polls.poll)
    ultimately show ?thesis by auto
  qed
qed

text \<open>C31: However often the monitor polls, a poll that could not read the dashboard raises an incident exactly when it ends a
  row of at least as many such polls as the threshold says; every poll in between that reads the dashboard
  starts the count anew.\<close>
theorem a_failed_poll_alerts_only_at_the_threshold:
  assumes "polls A w rs s" "i < length rs" "unread (rs ! i)"
  shows "dget (rs ! i) ''ok'' = PBool (failed_in_a_row (take (Suc i) rs) < mo_threshold A)"
proof -
  obtain s' where "polls A w (take (Suc i) rs) s'" using polls_prefix [OF assms(1), of "Suc i"] assms(2) by auto
  moreover have "take (Suc i) rs = take i rs @ [rs ! i]" using assms(2) by (rule take_Suc_conv_app_nth)
  ultimately have p: "polls A w (take i rs @ [rs ! i]) s'" "failed_in_a_row (take (Suc i) rs) = failed_in_a_row (take i rs @ [rs ! i])" by simp_all
  from p(1) obtain s1 where "monitor_turn A (waited A (take i rs) s1) = (Inr (rs ! i), s')" by (cases rule: polls.cases) auto
  from turn_fields(2) [OF this assms(3)] polls_counters [OF p(1)] p(2) show ?thesis by (simp add: not_le)
qed

lemma loop_terminates:
  assumes "mo_max A = Some m" "polls A w rs s" "rs = [] \<or> \<not> monitor_ends A s"
  shows "\<exists>r s'. monitor_loop A (waited A rs s) = Some (r, s')
    \<and> (case r of Inl e \<Rightarrow> True | Inr report \<Rightarrow> \<exists>rs'. polls A w (rs' @ [report]) s' \<and> int (length rs') + 1 = max 1 m)"
  using assms(2,3)
proof (induction "nat (max 1 m) - length rs" arbitrary: rs s rule: less_induct)
  case less
  obtain r s1 where t: "monitor_turn A (waited A rs s) = (r, s1)" by (metis surj_pair)
  show ?case
  proof (cases r)
    case (Inl e)
    with t show ?thesis by (simp add: monitor_loop.simps)
  next
    case (Inr report)
    with t less.prems have p: "polls A w (rs @ [report]) s1" by (auto intro: polls.poll)
    have "int (length rs) < max 1 m" using less.prems polls_counters [OF less.prems(1)] by (auto simp: monitor_ends_def assms(1))
    then have d: "nat (max 1 m) - length (rs @ [report]) < nat (max 1 m) - length rs" by simp
    show ?thesis
    proof (cases "monitor_ends A s1")
      case True
      with polls_counters [OF p] have "m \<le> int (length rs) + 1" by (simp add: monitor_ends_def assms(1))
      with \<open>int (length rs) < max 1 m\<close> have "int (length rs) + 1 = max 1 m" by simp
      with t Inr True p show ?thesis by (auto simp: monitor_loop.simps)
    next
      case False
      from less.hyps [OF d p] False obtain r' s' where l: "monitor_loop A (waited A (rs @ [report]) s1) = Some (r', s')"
        "case r' of Inl e \<Rightarrow> True | Inr report \<Rightarrow> \<exists>rs'. polls A w (rs' @ [report]) s' \<and> int (length rs') + 1 = max 1 m" by blast
      from l(1) have "monitor_loop A (pause (max 1000 (mo_interval A)) s1) = Some (r', s')" by (simp add: waited_def)
      with t Inr False l(2) show ?thesis by (simp add: monitor_loop.simps [of A "waited A rs s"])
    qed
  qed
qed

text \<open>A monitor with a bound on its iterations returns: with the report of its last poll after exactly that many polls,
  and at least one, or with the error that ended it.\<close>
theorem a_bounded_monitor_returns:
  assumes "mo_max A = Some m"
  shows "\<exists>r s. run_monitor_loop A w = Some (r, s)
    \<and> (case r of Inl e \<Rightarrow> True | Inr report \<Rightarrow> \<exists>rs. polls A w (rs @ [report]) s \<and> int (length rs) + 1 = max 1 m)"
  using loop_terminates [OF assms polls.start, of w] by (simp add: run_monitor_loop_def waited_def monitor_start_def)

section \<open>Examples\<close>

text \<open>A gateway that is restarted: two requests fail, the third is answered. The threshold is two.\<close>

definition demo_summary :: pydict where
  "demo_summary =
     [(''dashboard'', PDict [(''health'', PStr ''yellow''), (''blocked'', PInt 1),
        (''blocked_items'', PList [PDict [(''skill_id'', PStr ''demo''), (''category'', PStr ''conflict'')]])]),
      (''remote_snapshot'', PDict [(''snapshot_id'', PStr ''s1''), (''total'', PInt 3)])]"

definition demo_monitor :: monitor_args where
  "demo_monitor = \<lparr>mo_host = raw_host,
     mo_answers = (\<lambda>n. if n < 2 then Inl (HTTP_error 503 ''busy'') else Inr (Json (PDict demo_summary))),
     mo_summary_file = None, mo_out = [''m''], mo_interval = 0, mo_stale_after = 60, mo_minimum = 1, mo_max = Some 3, mo_retries = 1,
     mo_backoff = 3000, mo_threshold = 2, mo_now = (\<lambda>n. nat_str n)\<rparr>"

definition demo_disk :: world where
  "demo_disk = \<lparr>w_tree = NDir [], w_fault = None\<rparr>"

theorem a_fetch_is_bounded_witness:
  "\<exists>r s' k. fetch_summary_with_retry demo_monitor 5 (monitor_start demo_disk) = (r, s') \<and> int k \<le> 5
     \<and> mt_requests s' = k \<and> mt_sleeps s' = backoffs 3000 0 (k - 1)"
proof -
  obtain r s' where f: "fetch_summary_with_retry demo_monitor 5 (monitor_start demo_disk) = (r, s')" by (metis surj_pair)
  from a_fetch_is_bounded [OF f] obtain k where "int k \<le> max 1 5" "mt_requests s' = mt_requests (monitor_start demo_disk) + k"
    "mt_sleeps s' = mt_sleeps (monitor_start demo_disk) @ backoffs (mo_backoff demo_monitor) 0 (k - 1)"
    by (auto simp: demo_monitor_def)
  with f show ?thesis by (auto simp: monitor_start_def demo_monitor_def)
qed

theorem a_report_is_red_exactly_for_an_incident_witness:
  "\<exists>report. build_monitor_report demo_summary 60 1 ''now'' = Inr report \<and> dget report ''health'' = PStr ''red'' \<and> dget report ''ok'' = PBool False"
proof -
  have "case build_monitor_report demo_summary 60 1 ''now'' of Inl e \<Rightarrow> False | Inr report \<Rightarrow> True" by code_simp
  then obtain report where r: "build_monitor_report demo_summary 60 1 ''now'' = Inr report" by (auto split: sum.splits)
  have "incident demo_summary 60 1" by (simp add: incident_def demo_summary_def only_dicts_def list_or_empty_def dict_or_empty_def bad_category_def alert_categories_def)
  with a_report_is_red_exactly_for_an_incident [OF r] r show ?thesis by auto
qed

theorem a_failed_poll_alerts_only_at_the_threshold_witness:
  "\<exists>rs s. polls demo_monitor demo_disk rs s \<and> length rs = 2 \<and> dget (rs ! 0) ''ok'' = PBool True \<and> dget (rs ! 1) ''ok'' = PBool False"
proof -
  let ?s0 = "monitor_start demo_disk"
  have "case monitor_turn demo_monitor ?s0 of (Inl e, s1) \<Rightarrow> False | (Inr r1, s1) \<Rightarrow> dget r1 ''blocked'' = PNone \<and> \<not> monitor_ends demo_monitor s1
    \<and> (case monitor_turn demo_monitor (pause 1000 s1) of (Inl e, s2) \<Rightarrow> False | (Inr r2, s2) \<Rightarrow> dget r2 ''blocked'' = PNone)" by code_simp
  then obtain r1 s1 r2 s2 where t: "monitor_turn demo_monitor ?s0 = (Inr r1, s1)" "\<not> monitor_ends demo_monitor s1" "unread r1"
    "monitor_turn demo_monitor (pause 1000 s1) = (Inr r2, s2)" "unread r2"
    by (auto simp: unread_def split: prod.splits sum.splits)
  have w: "waited demo_monitor [r1] s1 = pause 1000 s1" by (simp add: waited_def demo_monitor_def)
  have "polls demo_monitor demo_disk ([] @ [r1]) s1" by (rule polls.poll [OF polls.start]) (simp_all add: t(1) waited_def)
  then have "polls demo_monitor demo_disk ([r1] @ [r2]) s2" by (intro polls.poll [of _ _ "[r1]" s1]) (simp_all add: t(2,4) w)
  then have p: "polls demo_monitor demo_disk [r1, r2] s2" by simp
  have "mo_threshold demo_monitor = 2" by (simp add: demo_monitor_def)
  with a_failed_poll_alerts_only_at_the_threshold [OF p, of 0] a_failed_poll_alerts_only_at_the_threshold [OF p, of 1] t(3,5) p
  show ?thesis by (intro exI [of _ "[r1, r2]"] exI [of _ s2]) (simp add: failed_in_a_row_def)
qed

theorem a_bounded_monitor_returns_witness:
  "\<exists>r s. run_monitor_loop demo_monitor demo_disk = Some (r, s)"
  using a_bounded_monitor_returns [of demo_monitor 3 demo_disk] by (auto simp: demo_monitor_def)

end
