(* ===== verification/Spec2Isabelle.thy ===== *)
theory Spec2Isabelle
  imports ApprovedPush Restore Daemon OpsStatus Projection LocalRoot FanoutUndo FanoutScheduler LocalPublish LegacySafe OperatorSafe MonitorSafe
begin

text \<open>
  A verification development of the skill-sync sidecar (\<open>src/src/skill_sync_sidecar\<close>), a Python program
  that keeps directories of agent skills on several machines in step with one central library.

  \<^bold>\<open>The program.\<close> A skill is a directory with a \<open>SKILL.md\<close>. The scanner turns the roots of a device into
  records with a content hash; a snapshot is an \<open>index.json\<close> of such records and one zip archive for each.
  The central library is a snapshot on a remote store, a directory or a WebDAV server. A synchronisation
  compares three hashes of every skill (base, local, remote), plans an action for each, refuses what is not
  safe, stages and installs what comes from the remote, publishes what comes from the device, and writes the
  base of the next run. Around it stand the review paths: blocked reports, approved pushes, conflict
  packages, tombstones, restores, the central lifecycle, the first reconciliation of a device, the cycle and
  the daemon that repeat all of it, and the status an operator is shown.

  \<^bold>\<open>The prelude.\<close>
  \<^item> \<open>PyBase\<close>: the Python values a JSON document holds, truth, \<open>str\<close>, \<open>int\<close>, dictionaries as association
    lists in insertion order, counters, sorting; exceptions as values of a sum type, with one constructor for
    every class the program raises or catches.
  \<^item> \<open>FileTree\<close>: paths and the directory tree, with a locale for what a store of files promises.
  \<^item> \<open>World\<close>: the state of a run, a tree and at most one injected fault, the operations of \<open>pathlib\<close>,
    \<open>shutil\<close> and \<open>zipfile\<close> the program calls, and the actions over it. An action gives a value or an
    exception and the world after it, so an exception keeps the writes made before it.
  \<^item> \<open>TextMatch\<close>: regular expressions as a datatype, their language as an inductive relation and the
    matcher the scanner uses. \<open>Frame\<close>, \<open>Regions\<close>: what an action leaves alone, as rules along its
    structure, and Hoare triples with an exceptional postcondition.

  \<^bold>\<open>The components.\<close> Each theory carries the names of the functions it models.
  \<^item> \<open>SkillModel\<close> (\<open>model.py\<close>, \<open>diff.py\<close>), \<open>Scanner\<close> (\<open>scanner.py\<close>): records, issues, counts, index
    comparison; discovery, exclusion, front matter, manifests, validation, the content hash.
  \<^item> \<open>SyncState\<close> (\<open>sync_state.py\<close>), \<open>SyncPlan\<close> (\<open>sync_plan.py\<close>, \<open>blocked_report.py\<close>): the three-way
    classification, which is shown to refine an abstract merge, and the plan over it.
  \<^item> \<open>Stage\<close> (\<open>stage.py\<close>), \<open>Apply\<close> (\<open>apply.py\<close>, \<open>remove_path\<close> of \<open>protect.py\<close>): unpacking with its checks,
    installation with backup, temporary copy and rollback. The theorems of \<open>Apply\<close> hold with a fault at any
    point of the run.
  \<^item> \<open>Remote\<close> (\<open>remote.py\<close>): the two remotes, with a locale for the store both promise; upload order.
  \<^item> \<open>Snapshot\<close> (\<open>snapshot.py\<close>), \<open>SyncApply\<close> (\<open>sync_apply.py\<close>), \<open>ApprovedPush\<close> (\<open>approved_push.py\<close>),
    \<open>CentralLifecycle\<close> (\<open>central_lifecycle.py\<close>), \<open>Restore\<close> (\<open>restore.py\<close>): the operations that change a
    device or the central library.
  \<^item> \<open>Conflicts\<close> (\<open>conflicts.py\<close>, \<open>tombstones.py\<close>), \<open>Retention\<close> (\<open>report_retention.py\<close>): review material
    and how long it is kept.
  \<^item> \<open>SyncCycle\<close> (\<open>sync_cycle.py\<close>), \<open>Daemon\<close> (\<open>daemon.py\<close>): one cycle, and the loop as a partial function and
    as a transition system that are shown to agree.
  \<^item> \<open>Reconcile\<close> (\<open>reconcile.py\<close>, \<open>base_adoption.py\<close>): a device without a base. \<open>OpsStatus\<close>
    (\<open>openclaw_gate.py\<close>, \<open>ops_status.py\<close>): the gate and the colour. \<open>Projection\<close> (\<open>projection.py\<close>): what each tool
    has of the central skills.
  \<^item> \<open>Config\<close> (\<open>config.py\<close>), \<open>LocalRoot\<close> (\<open>local_root.py\<close>): the settings, each with the source it comes from,
    and the move of the canonical root.
  \<^item> \<open>Links\<close>, \<open>LinkTriples\<close>: devices, that is worlds with symbolic links, the operations of \<open>os\<close> and
    \<open>shutil\<close> that see a link, and what they leave. \<open>FanoutPlan\<close>, \<open>FanoutRun\<close>, \<open>FanoutSafe\<close>, \<open>FanoutUndo\<close>,
    \<open>FanoutScheduler\<close> (\<open>fanout.py\<close>): the tools' directories as views of the canonical root, planned, executed,
    undone and scheduled.
  \<^item> \<open>LocalSkill\<close>, \<open>LocalSkillSafe\<close>, \<open>LocalPublish\<close> (\<open>local_skill.py\<close>): a single skill of the device analysed,
    installed into tools and published to the central library. \<open>LegacyMigration\<close>, \<open>LegacySafe\<close>
    (\<open>legacy_skillshub_migration.py\<close>): tools detached from the old shared root, link by link; \<open>Texts\<close> holds
    the encoding of its messages.
  \<^item> \<open>ToolStatus\<close> (\<open>tool_status.py\<close>): the inventory of a device's tools. \<open>OperatorExecutor\<close>, \<open>OperatorSafe\<close>
    (\<open>operator_executor.py\<close>): the requests an operator sends to a device, the operations above behind them, and
    their answers. The scripts of the repository are an argument, as exit code and output.
  \<^item> \<open>Monitor\<close>, \<open>MonitorSafe\<close> (\<open>monitor.py\<close>): the dashboard's summary fetched with retries, judged, and
    written as a report, once or in a loop; the network is an argument, one answer for each request.

  \<^bold>\<open>What the theorems show.\<close> No plan, however it is permitted, overwrites a change that is not in the base; an
  apply, interrupted anywhere, leaves the old or the new version of each skill, and a rollback restores what
  it replaced; an archive cannot unpack outside its target and a listed file is installed only with its
  hash; a refused synchronisation changes nothing; an upload replaces the index last; a cycle without
  clearance touches nothing but its own work directories, and completes exactly when nothing is blocked;
  the daemon survives every error of a cycle, runs no cycle too many, terminates when bounded, and moves its
  base only with a complete cycle; review material holds what it stands for and the last copy of a content
  is never pruned; a reconciliation agrees with the first synchronisation and an adopted base is read back;
  the gate opens and the status is green exactly when nothing waits; the fan-out changes only entries it has
  a licence for, keeps a directory that it replaces, and is undone entry by entry; an installation keeps
  the old version and a publication changes the central index at one skill only; a migration of the old
  shared root never loses the text of a link, and can be undone; a request writes only with its word of
  confirmation and its permission, and a skill that is uninstalled is kept; a monitor's report is red exactly
  for an incident, and a dashboard it cannot read is one only after enough polls in a row.

  \<^bold>\<open>Parameters and bounds.\<close> The hash function, times, process ids and the names of temporary directories are
  arguments (\<open>host\<close>, \<open>run_names\<close>, \<open>daemon_args\<close>), and a theorem that needs them different says so. The
  WebDAV transport and, for the daemon, the fan-out are arguments. The daemon's loop may run for ever: it is a
  partial function into \<open>option\<close>, and that a bounded daemon returns is a theorem of its own. Every other loop is
  structural or has a termination proof; no fuel is used. A world injects at most one fault in a run.

  A link is followed through at most forty links, as the kernel does.

  \<^bold>\<open>Not modelled.\<close> Symbolic links outside the tools' directories, file modes and times, the expansion of \<open>~\<close>, and
  text that is not valid in its encoding; locks between processes (\<open>tombstones.py\<close>, \<open>report_retention.py\<close>,
  \<open>fanout.py\<close>); the operating-system calls of \<open>protect.py\<close> that set immutable flags. \<open>cli.py\<close> parses arguments
  and prints what the functions here return, and \<open>dashboard.py\<close> is a web page over the same reports.
  \<open>hub_import.py\<close> and \<open>openclaw_release.py\<close> are not modelled yet. Of \<open>operator_executor.py\<close> the sending of
  an answer and the threads of the server are left out.
\<close>

end
